(* ===== verification/Amm_Prelude.thy ===== *)
theory Amm_Prelude
  imports "HOL-Library.Word"
begin

text \<open>
  What every other theory shares: the widths of the machine integers, the errors of the program
  (\<^verbatim>\<open>error.rs\<close>) and its result type with the propagation of errors that the source writes as
  \<^verbatim>\<open>?\<close>, the two-element arrays of reward slots, and the lemmas on words that carry the
  component proofs from \<open>'a word\<close> to \<open>nat\<close>.

  Conventions. A \<^verbatim>\<open>u64\<close> of the source is a \<^typ>\<open>64 word\<close>, and so on for the other widths. The
  types \<^verbatim>\<open>U256\<close> and \<^verbatim>\<open>U512\<close> of the source are unsigned integers of 256 and 512 bits and are
  modelled as words of that width. Facts about amounts are stated on \<open>unat\<close>, where no
  operation wraps: the collection \<open>ok_iffs\<close> turns "this computation returned \<open>Ok z\<close>" into an
  equation between natural numbers.
\<close>

section \<open>Machine integers\<close>

type_synonym u8 = "8 word"
type_synonym u16 = "16 word"
type_synonym u32 = "32 word"
type_synonym u64 = "64 word"
type_synonym u128 = "128 word"
type_synonym u256 = "256 word"
type_synonym u512 = "512 word"

text \<open>Account addresses are 32 bytes, compared only for equality; \<^verbatim>\<open>Pubkey::default()\<close> is all zeros.\<close>

type_synonym pubkey = "256 word"

section \<open>Errors and results\<close>

datatype pool_error =
  MathOverflow | InvalidFee | ExceededSlippage
  | PoolDisabled | ExceedMaxFeeBps | InvalidAdmin
  | AmountIsZero | TypeCastFailed | UnableToModifyActivationPoint
  | InvalidAuthorityToCreateThePool | InvalidActivationType | InvalidActivationPoint
  | InvalidQuoteMint | InvalidFeeCurve | InvalidPriceRange
  | PriceRangeViolation | InvalidParameters | InvalidCollectFeeMode
  | InvalidInput | CannotCreateTokenBadgeOnSupportedMint | InvalidTokenBadge
  | InvalidMinimumLiquidity | InvalidVestingInfo | InsufficientLiquidity
  | InvalidVestingAccount | InvalidPoolStatus | UnsupportNativeMintToken2022
  | InvalidRewardIndex | InvalidRewardDuration | RewardInitialized
  | RewardUninitialized | InvalidRewardVault | MustWithdrawnIneligibleReward
  | IdenticalRewardDuration | RewardCampaignInProgress | IdenticalFunder
  | InvalidFunder | RewardNotEnded | FeeInverseIsIncorrect
  | PositionIsNotEmpty | InvalidPoolCreatorAuthority | InvalidConfigType
  | InvalidPoolCreator | RewardVaultFrozenSkipRequired | InvalidSplitPositionParameters
  | UnsupportPositionHasVestingLock | SamePosition | InvalidBaseFeeMode
  | InvalidFeeRateLimiter | FailToValidateSingleSwapInstruction | InvalidFeeTimeScheduler
  | UndeterminedError | InvalidPoolVersion | InvalidAuthority
  | InvalidPermission | InvalidFeeMarketCapScheduler | CannotUpdateBaseFee
  | InvalidDynamicFeeParameters | InvalidUpdatePoolFeesParameters | MissingOperatorAccount
  | IncorrectATA | InvalidZapOutParameters | InvalidWithdrawProtocolFeeZapAccounts
  | MintRestrictedFromZap | CpiDisabled | MissingZapOutInstruction
  | InvalidZapAccounts

text \<open>
  The program also stops by a panic (\<^verbatim>\<open>assert!\<close>, an array index out of range, a division by
  zero, an integer overflow: the release profile sets \<^verbatim>\<open>overflow-checks = true\<close>) or with an
  error that is not its own (\<open>Foreign\<close>: an error of the runtime or of a called program).
  Either way the transaction has no effect, so an error carries no state.
\<close>

datatype error = PoolErr pool_error | Panic | Foreign

type_synonym 'a result = "error + 'a"

abbreviation Ok :: "'a \<Rightarrow> 'a result" where
  "Ok \<equiv> Inr"

abbreviation Err :: "pool_error \<Rightarrow> 'a result" where
  "Err e \<equiv> Inl (PoolErr e)"

text \<open>\<open>m?\<close> followed by the rest of the function.\<close>

definition rbind :: "'a result \<Rightarrow> ('a \<Rightarrow> 'b result) \<Rightarrow> 'b result" where
  "rbind m f = (case m of Inl e \<Rightarrow> Inl e | Inr x \<Rightarrow> f x)"

text \<open>\<^verbatim>\<open>require!(c, e)\<close> and \<^verbatim>\<open>assert!(c)\<close>, followed by the rest of the function.\<close>

definition require :: "bool \<Rightarrow> pool_error \<Rightarrow> 'a result \<Rightarrow> 'a result" where
  "require c e k = (if c then k else Err e)"

definition assert_panic :: "bool \<Rightarrow> 'a result \<Rightarrow> 'a result" where
  "assert_panic c k = (if c then k else Inl Panic)"

text \<open>\<^verbatim>\<open>.ok_or(e)\<close>, \<^verbatim>\<open>.unwrap()\<close> and \<^verbatim>\<open>.map_err(|_| e)\<close>.\<close>

definition ok_or :: "'a option \<Rightarrow> pool_error \<Rightarrow> 'a result" where
  "ok_or r e = (case r of None \<Rightarrow> Err e | Some x \<Rightarrow> Ok x)"

definition unwrap :: "'a option \<Rightarrow> 'a result" where
  "unwrap r = (case r of None \<Rightarrow> Inl Panic | Some x \<Rightarrow> Ok x)"

definition is_ok :: "'a result \<Rightarrow> bool" where
  "is_ok m = (case m of Inl _ \<Rightarrow> False | Inr _ \<Rightarrow> True)"

named_theorems ok_iffs "when a computation returns Ok, as equations on nat"

lemma rbind_simps [simp]:
  "rbind (Inl e) f = Inl e"
  "rbind (Ok x) f = f x"
  by (simp_all add: rbind_def)

lemma require_simps [simp]:
  "require True e k = k"
  "require False e k = Err e"
  by (simp_all add: require_def)

lemma assert_panic_simps [simp]:
  "assert_panic True k = k"
  "assert_panic False k = Inl Panic"
  by (simp_all add: assert_panic_def)

lemma ok_or_simps [simp]:
  "ok_or (Some x) e = Ok x"
  "ok_or None e = Err e"
  by (simp_all add: ok_or_def)

lemma unwrap_simps [simp]:
  "unwrap (Some x) = Ok x"
  "unwrap None = Inl Panic"
  by (simp_all add: unwrap_def)

lemma is_ok_simps [simp]: "is_ok (Ok x)" "\<not> is_ok (Inl e)"
  by (simp_all add: is_ok_def)

lemma is_ok_iff: "is_ok m \<longleftrightarrow> (\<exists>x. m = Ok x)"
  by (cases m) simp_all

lemma rbind_Ok_iff [ok_iffs]: "rbind m f = Ok y \<longleftrightarrow> (\<exists>x. m = Ok x \<and> f x = Ok y)"
  by (cases m) simp_all

lemma require_Ok_iff [ok_iffs]: "require c e k = Ok y \<longleftrightarrow> c \<and> k = Ok y"
  by (simp add: require_def)

lemma assert_panic_Ok_iff [ok_iffs]: "assert_panic c k = Ok y \<longleftrightarrow> c \<and> k = Ok y"
  by (simp add: assert_panic_def)

lemma ok_or_Ok_iff [ok_iffs]: "ok_or r e = Ok y \<longleftrightarrow> r = Some y"
  by (cases r) simp_all

lemma unwrap_Ok_iff [ok_iffs]: "unwrap r = Ok y \<longleftrightarrow> r = Some y"
  by (cases r) simp_all

lemma if_Ok_iff [ok_iffs]:
  "(if c then Inl e else k) = Ok y \<longleftrightarrow> \<not> c \<and> k = Ok y"
  "(if c then k else Inl e) = Ok y \<longleftrightarrow> c \<and> k = Ok y"
  by simp_all

lemma rbind_assoc: "rbind (rbind m f) g = rbind m (\<lambda>x. rbind (f x) g)"
  by (cases m) simp_all

lemma rbind_Ok_same [simp]: "rbind m Ok = m"
  by (cases m) simp_all

lemma rbind_cong [fundef_cong]:
  "m = m' \<Longrightarrow> (\<And>x. m' = Ok x \<Longrightarrow> f x = f' x) \<Longrightarrow> rbind m f = rbind m' f'"
  by (cases m') simp_all

section \<open>Arrays of two elements\<close>

text \<open>
  \<^verbatim>\<open>[T; NUM_REWARDS]\<close> with \<^verbatim>\<open>NUM_REWARDS = 2\<close>: an index out of range panics.
\<close>

datatype 'a arr2 = Arr2 (slot0: 'a) (slot1: 'a)

definition arr2_get :: "'a arr2 \<Rightarrow> nat \<Rightarrow> 'a result" where
  "arr2_get a i = (if i = 0 then Ok (slot0 a) else if i = 1 then Ok (slot1 a) else Inl Panic)"

definition arr2_set :: "'a arr2 \<Rightarrow> nat \<Rightarrow> 'a \<Rightarrow> 'a arr2" where
  "arr2_set a i x =
     (if i = 0 then Arr2 x (slot1 a) else if i = 1 then Arr2 (slot0 a) x else a)"

lemma arr2_get_Ok_iff [ok_iffs]:
  "arr2_get a i = Ok x \<longleftrightarrow> (i = 0 \<and> x = slot0 a) \<or> (i = 1 \<and> x = slot1 a)"
  by (auto simp: arr2_get_def)

lemma arr2_get_set:
  "i < 2 \<Longrightarrow> arr2_get (arr2_set a i x) j = (if i = j then Ok x else arr2_get a j)"
  by (auto simp: arr2_get_def arr2_set_def)

lemma arr2_set_slots [simp]:
  "slot0 (arr2_set a 0 x) = x" "slot1 (arr2_set a 0 x) = slot1 a"
  "slot0 (arr2_set a (Suc 0) x) = slot0 a" "slot1 (arr2_set a (Suc 0) x) = x"
  by (simp_all add: arr2_set_def)

section \<open>Words and natural numbers\<close>

lemma unat_less_pow [simp]: "unat (x :: 'a::len word) < 2 ^ LENGTH('a)"
  by (rule unsigned_less)

lemma unat_bounds:
  "unat (a8 :: u8) < 256"
  "unat (a16 :: u16) < 65536"
  "unat (a32 :: u32) < 4294967296"
  "unat (a64 :: u64) < 18446744073709551616"
  "unat (a128 :: u128) < 340282366920938463463374607431768211456"
  using unsigned_less [where ?'a = nat, of a8] unsigned_less [where ?'a = nat, of a16]
    unsigned_less [where ?'a = nat, of a32] unsigned_less [where ?'a = nat, of a64]
    unsigned_less [where ?'a = nat, of a128]
  by simp_all

lemma word_eqI_unat: "unat x = unat y \<Longrightarrow> x = y"
  by (simp add: word_unat_eq_iff)

lemma unat_ucast_widen [simp]:
  "LENGTH('a::len) \<le> LENGTH('b::len) \<Longrightarrow> unat (ucast (x :: 'a word) :: 'b word) = unat x"
  by (simp add: unsigned_ucast_eq take_bit_nat_eq_self_iff)
    (meson order_less_le_trans one_le_numeral power_increasing_iff unsigned_less
      power_increasing)

lemma unat_ucast_narrow:
  "unat x < 2 ^ LENGTH('b::len) \<Longrightarrow> unat (ucast (x :: 'a::len word) :: 'b word) = unat x"
  by (simp add: unsigned_ucast_eq take_bit_nat_eq_self_iff)

lemma unat_of_nat_small:
  "n < 2 ^ LENGTH('a::len) \<Longrightarrow> unat (of_nat n :: 'a word) = n"
  by (simp add: unsigned_of_nat take_bit_nat_eq_self_iff)

lemma unat_min [simp]: "unat (min x y) = min (unat x) (unat y)"
  by (simp add: min_def word_le_nat_alt)

lemma word_le_unat: "x \<le> y \<longleftrightarrow> unat x \<le> unat y" for x :: "'a::len word"
  by (rule word_le_nat_alt)

lemma word_less_unat: "x < y \<longleftrightarrow> unat x < unat y" for x :: "'a::len word"
  by (rule word_less_nat_alt)

lemmas word_to_nat = word_le_unat word_less_unat word_unat_eq_iff

section \<open>Division with rounding up\<close>

definition div_up :: "nat \<Rightarrow> nat \<Rightarrow> nat" where
  "div_up a b = (if a mod b = 0 then a div b else a div b + 1)"

lemma div_up_bounds:
  assumes "0 < b"
  shows "a \<le> div_up a b * b" and "div_up a b * b < a + b"
proof -
  have e: "a div b * b + a mod b = a" by (rule div_mult_mod_eq)
  have m: "a mod b < b" using assms by simp
  have s: "(a div b + 1) * b = a div b * b + b" by simp
  consider "a mod b = 0" "div_up a b * b = a div b * b"
    | "0 < a mod b" "div_up a b * b = a div b * b + b"
    using s by (cases "a mod b = 0") (simp_all add: div_up_def)
  then show "a \<le> div_up a b * b" and "div_up a b * b < a + b"
    by (cases; use e m assms in linarith)+
qed

lemma mult_less_add_imp_le:
  assumes "x * b < y * b + b"
  shows "x \<le> (y :: nat)"
proof (rule ccontr)
  assume "\<not> x \<le> y"
  then have "(y + 1) * b \<le> x * b" by (intro mult_right_mono) simp_all
  with assms show False by simp
qed

lemma div_up_least:
  assumes "0 < b" and "a \<le> c * b"
  shows "div_up a b \<le> c"
proof (rule mult_less_add_imp_le)
  show "div_up a b * b < c * b + b"
    using div_up_bounds(2) [OF assms(1), of a] assms(2) by linarith
qed

lemma div_up_unique:
  assumes "0 < b" and "a \<le> c * b" and "c * b < a + b"
  shows "div_up a b = c"
proof (rule antisym)
  show "div_up a b \<le> c" using assms(1,2) by (rule div_up_least)
  show "c \<le> div_up a b"
  proof (rule mult_less_add_imp_le)
    show "c * b < div_up a b * b + b"
      using div_up_bounds(1) [OF assms(1), of a] assms(3) by linarith
  qed
qed

lemma div_up_mono: "a \<le> a' \<Longrightarrow> 0 < b \<Longrightarrow> div_up a b \<le> div_up a' b"
  by (meson div_up_bounds(1) div_up_least order_trans)

lemma div_le_div_up: "a div b \<le> div_up a b"
  by (simp add: div_up_def)

lemma div_up_le_Suc_div: "div_up a b \<le> a div b + 1"
  by (simp add: div_up_def)

lemma div_mult_le_self: "a div b * b \<le> a" for a :: nat
  by (simp add: div_times_less_eq_dividend)

lemma less_Suc_div_mult: "0 < b \<Longrightarrow> a < (a div b + 1) * b" for a :: nat
  by (metis Suc_eq_plus1 dividend_less_div_times mult.commute mult_Suc_right add.commute mult_Suc)

lemma div_up_0 [simp]: "div_up 0 b = 0"
  by (simp add: div_up_def)

lemma div_up_eq_div: "0 < b \<Longrightarrow> div_up a b = (a + b - 1) div b"
proof -
  assume b: "0 < b"
  have "(a + b - 1) div b * b \<le> a + b - 1" by simp
  then have u: "(a + b - 1) div b * b < a + b" using b by linarith
  have "a + b - 1 < ((a + b - 1) div b + 1) * b" using b by (rule less_Suc_div_mult)
  then have "a \<le> (a + b - 1) div b * b" by (simp add: algebra_simps)
  then show ?thesis using div_up_unique [OF b _ u] by simp
qed

section \<open>Sums over a map\<close>

text \<open>The sum of a quantity over the accounts of a kind, given as a map from addresses.\<close>

definition total_over :: "('v \<Rightarrow> nat) \<Rightarrow> ('k \<Rightarrow> 'v option) \<Rightarrow> nat" where
  "total_over f m = (\<Sum>k\<in>dom m. f (the (m k)))"

lemma total_over_remove:
  assumes "finite (dom m)" and "m k = Some v"
  shows "total_over f m = f v + total_over f (m(k := None))"
proof -
  have "total_over f m = f v + (\<Sum>j\<in>dom m - {k}. f (the (m j)))"
    using assms by (simp add: total_over_def sum.remove [of _ k] domI)
  also have "(\<Sum>j\<in>dom m - {k}. f (the (m j))) = total_over f (m(k := None))"
    unfolding total_over_def by (intro sum.cong) (auto split: if_splits)
  finally show ?thesis .
qed

lemma total_over_insert:
  assumes "finite (dom m)" and "m k = None"
  shows "total_over f (m(k := Some v)) = f v + total_over f m"
proof -
  have "m(k := Some v, k := None) = m" using assms(2) by (simp add: fun_upd_idem)
  with total_over_remove [of "m(k := Some v)" k v f] assms(1) show ?thesis by simp
qed

lemma total_over_update:
  assumes "finite (dom m)" and "m k = Some v"
  shows "total_over f (m(k := Some v')) + f v = total_over f m + f v'"
proof -
  have "finite (dom (m(k := None)))" using assms(1) by simp
  then have "total_over f ((m(k := None))(k := Some v')) = f v' + total_over f (m(k := None))"
    by (intro total_over_insert) simp_all
  with total_over_remove [OF assms, of f] show ?thesis by simp
qed

lemma total_over_member:
  assumes "finite (dom m)" and "m k = Some v"
  shows "f v \<le> total_over f m"
  using total_over_remove [OF assms, of f] by simp

lemma total_over_mono:
  assumes "\<And>k v. m k = Some v \<Longrightarrow> f v \<le> g v"
  shows "total_over f m \<le> total_over g m"
  unfolding total_over_def by (intro sum_mono) (use assms in auto)

lemma total_over_add: "total_over (\<lambda>v. f v + g v) m = total_over f m + total_over g m"
  by (simp add: total_over_def sum.distrib)

lemma total_over_mult: "total_over (\<lambda>v. f v * c) m = total_over f m * c"
  by (simp add: total_over_def sum_distrib_right)

lemma total_over_empty [simp]: "total_over f Map.empty = 0"
  by (simp add: total_over_def)

end
