(* ===== verification/Byte_Layout.thy ===== *)
theory Byte_Layout
  imports Amm_Prelude
begin

text \<open>
  Fixed-width little-endian fields in an array of bytes, as both \<^verbatim>\<open>borsh\<close> and the \<^verbatim>\<open>repr(C)\<close>
  layouts read by \<^verbatim>\<open>bytemuck\<close> store them. Arrays \<^verbatim>\<open>[u8; N]\<close> are lists of length \<open>N\<close>.
\<close>

type_synonym bytes = "u8 list"

fun to_le :: "nat \<Rightarrow> nat \<Rightarrow> bytes" where
  "to_le 0 x = []"
| "to_le (Suc n) x = of_nat (x mod 256) # to_le n (x div 256)"

fun of_le :: "bytes \<Rightarrow> nat" where
  "of_le [] = 0"
| "of_le (b # bs) = unat b + 256 * of_le bs"

definition put :: "nat \<Rightarrow> 'a::len word \<Rightarrow> bytes" where
  "put n w = to_le n (unat w)"

definition get :: "nat \<Rightarrow> nat \<Rightarrow> bytes \<Rightarrow> 'a::len word" where
  "get off n bs = of_nat (of_le (take n (drop off bs)))"

lemma length_to_le [simp]: "length (to_le n x) = n"
  by (induction n x rule: to_le.induct) simp_all

lemma length_put [simp]: "length (put n w) = n"
  by (simp add: put_def)

lemma of_le_to_le: "of_le (to_le n x) = x mod 256 ^ n"
proof (induction n x rule: to_le.induct)
  case (2 n x)
  have "unat (of_nat (x mod 256) :: u8) = x mod 256" by (rule unat_of_nat_small) simp
  then show ?case by (simp add: 2 mod_mult2_eq)
qed simp

lemma to_le_of_le: "length bs = n \<Longrightarrow> to_le n (of_le bs) = bs"
proof (induction bs arbitrary: n)
  case (Cons b bs)
  have b: "unat b < 256" by (rule unat_bounds)
  have "(unat b + 256 * of_le bs) mod 256 = unat b" and "(unat b + 256 * of_le bs) div 256 = of_le bs"
    using b by simp_all
  with Cons show ?case by (auto simp: word_nat_cases)
qed simp

lemma of_le_less: "of_le bs < 256 ^ length bs"
proof (induction bs)
  case (Cons b bs)
  have "unat b < 256" by (rule unat_bounds)
  moreover have "256 * (of_le bs + 1) \<le> 256 * 256 ^ length bs" using Cons by simp
  ultimately show ?case by simp
qed simp

text \<open>A field that is read where it was written gives back its value, and conversely.\<close>

lemma get_put:
  fixes w :: "'a::len word"
  assumes "length pre = off" and "LENGTH('a) \<le> 8 * n"
  shows "get off n (pre @ put n w @ post) = w"
proof -
  have "(2::nat) ^ LENGTH('a) \<le> 2 ^ (8 * n)" using assms(2) by (intro power_increasing) simp_all
  then have "unat w < 256 ^ n"
    using less_le_trans [OF unat_less_pow [of w]] by (simp add: power_mult)
  moreover have "take n (drop off (pre @ put n w @ post)) = put n w" using assms(1) by simp
  ultimately show ?thesis
    unfolding get_def put_def by (simp add: of_le_to_le)
qed

lemma put_get:
  assumes "off + n \<le> length bs" and "8 * n \<le> LENGTH('a::len)"
  shows "put n (get off n bs :: 'a word) = take n (drop off bs)"
proof -
  have l: "length (take n (drop off bs)) = n" using assms(1) by simp
  have "of_le (take n (drop off bs)) < 256 ^ n" using of_le_less [of "take n (drop off bs)"] by (simp only: l)
  also have "(256::nat) ^ n = 2 ^ (8 * n)" by (simp add: power_mult)
  also have "\<dots> \<le> 2 ^ LENGTH('a)" using assms(2) by (intro power_increasing) simp_all
  finally have "unat (get off n bs :: 'a word) = of_le (take n (drop off bs))"
    unfolding get_def by (rule unat_of_nat_small)
  then show ?thesis unfolding put_def by (simp only: to_le_of_le [OF l])
qed

lemma get_byte: "off < length bs \<Longrightarrow> get off 1 bs = bs ! off" for bs :: bytes
  by (simp add: get_def take_Suc hd_drop_conv_nth)

end
