(* ===== verification/Amm_Math.thy ===== *)
theory Amm_Math
  imports Amm_Prelude
begin

text \<open>
  The \<^verbatim>\<open>math\<close> module: checked arithmetic (\<^verbatim>\<open>safe_math.rs\<close>), multiplication and division through a
  wider type (\<^verbatim>\<open>u128x128_math.rs\<close>, \<^verbatim>\<open>utils_math.rs\<close>) and the integer square root.

  Each operation comes with a lemma \<open>..._iff\<close> in \<open>ok_iffs\<close> that says exactly when it returns a
  value and which one, as an equation on \<open>nat\<close>.

  Shifts. On the primitive types a checked shift fails when the offset is not below the width. On
  \<^verbatim>\<open>U256\<close> a checked shift fails when it loses a bit, the documented behaviour of that library type,
  which differs from the primitive types. The program shifts values of at most 128 bits by at most
  128 there, where the two readings agree (\<open>u256_checked_shl_u128\<close>); the square root is proved for
  the stricter reading. The raw operators of \<^verbatim>\<open>U256\<close> wrap.
\<close>

section \<open>Checked arithmetic of the integer types\<close>

definition checked_add :: "'a::len word \<Rightarrow> 'a word \<Rightarrow> 'a word option" where
  "checked_add x y = (if unat x + unat y < 2 ^ LENGTH('a) then Some (x + y) else None)"

definition checked_sub :: "'a::len word \<Rightarrow> 'a word \<Rightarrow> 'a word option" where
  "checked_sub x y = (if y \<le> x then Some (x - y) else None)"

definition checked_mul :: "'a::len word \<Rightarrow> 'a word \<Rightarrow> 'a word option" where
  "checked_mul x y = (if unat x * unat y < 2 ^ LENGTH('a) then Some (x * y) else None)"

definition checked_div :: "'a::len word \<Rightarrow> 'a word \<Rightarrow> 'a word option" where
  "checked_div x y = (if y = 0 then None else Some (x div y))"

definition checked_rem :: "'a::len word \<Rightarrow> 'a word \<Rightarrow> 'a word option" where
  "checked_rem x y = (if y = 0 then None else Some (x mod y))"

definition checked_shl :: "'a::len word \<Rightarrow> nat \<Rightarrow> 'a word option" where
  "checked_shl x k = (if k < LENGTH('a) then Some (push_bit k x) else None)"

definition checked_shr :: "'a::len word \<Rightarrow> nat \<Rightarrow> 'a word option" where
  "checked_shr x k = (if k < LENGTH('a) then Some (drop_bit k x) else None)"

definition u256_checked_shl :: "u256 \<Rightarrow> nat \<Rightarrow> u256 option" where
  "u256_checked_shl x k = (if unat x * 2 ^ k < 2 ^ 256 then Some (push_bit k x) else None)"

definition u256_checked_shr :: "u256 \<Rightarrow> nat \<Rightarrow> u256 option" where
  "u256_checked_shr x k = (if unat x mod 2 ^ k = 0 then Some (drop_bit k x) else None)"

text \<open>
  \<^verbatim>\<open>try_into\<close> between unsigned types, \<^verbatim>\<open>T::from_u128\<close>, and \<^verbatim>\<open>div_ceil\<close> (whose divisor the
  callers have checked, or which panics).
\<close>

definition try_narrow :: "'a::len word \<Rightarrow> 'b::len word option" where
  "try_narrow x = (if unat x < 2 ^ LENGTH('b) then Some (ucast x) else None)"

definition word_div_ceil :: "'a::len word \<Rightarrow> 'a word \<Rightarrow> 'a word" where
  "word_div_ceil x y = (if x mod y = 0 then x div y else x div y + 1)"

lemma checked_add_iff [ok_iffs]: "checked_add x y = Some z \<longleftrightarrow> unat z = unat x + unat y"
proof -
  have "unat (x + y) = unat x + unat y \<longleftrightarrow> unat x + unat y < 2 ^ LENGTH('a)"
    for x y :: "'a word" by (simp add: unat_add_lem)
  then show ?thesis
    unfolding checked_add_def by (metis option.distinct(1) option.inject unat_less_pow word_eqI_unat)
qed

lemma checked_sub_iff [ok_iffs]: "checked_sub x y = Some z \<longleftrightarrow> unat x = unat z + unat y"
proof (cases "y \<le> x")
  case True
  then have "unat (x - y) = unat x - unat y" and "unat y \<le> unat x"
    by (simp_all add: unat_sub word_le_nat_alt)
  with True show ?thesis
    by (auto simp: checked_sub_def intro: word_eqI_unat)
next
  case False
  then show ?thesis by (auto simp: checked_sub_def word_le_nat_alt)
qed

lemma checked_mul_iff [ok_iffs]: "checked_mul x y = Some z \<longleftrightarrow> unat z = unat x * unat y"
proof -
  have "unat (x * y) = unat x * unat y \<longleftrightarrow> unat x * unat y < 2 ^ LENGTH('a)"
    for x y :: "'a word" by (simp add: unat_mult_lem)
  then show ?thesis
    unfolding checked_mul_def by (metis option.distinct(1) option.inject unat_less_pow word_eqI_unat)
qed

lemma checked_div_iff [ok_iffs]:
  "checked_div x y = Some z \<longleftrightarrow> 0 < unat y \<and> unat z = unat x div unat y"
  by (auto simp: checked_div_def unat_div unat_eq_zero simp flip: word_unat_eq_iff
      intro: word_eqI_unat)

lemma checked_rem_iff [ok_iffs]:
  "checked_rem x y = Some z \<longleftrightarrow> 0 < unat y \<and> unat z = unat x mod unat y"
  by (auto simp: checked_rem_def unat_mod unat_eq_zero intro: word_eqI_unat)

lemma unat_push_bit: "unat x * 2 ^ k < 2 ^ LENGTH('a) \<Longrightarrow> unat (push_bit k x) = unat x * 2 ^ k"
  for x :: "'a::len word"
  by (subst unsigned_push_bit_eq) (simp add: push_bit_eq_mult take_bit_nat_eq_self_iff)

lemma unat_drop_bit: "unat (drop_bit k x) = unat x div 2 ^ k" for x :: "'a::len word"
  by (subst unat_drop_bit_eq) (simp add: drop_bit_eq_div)

lemma u256_less: "unat (x :: u256) < 2 ^ 256"
  using unat_less_pow [of x] by (simp only: len_num1 len_of_numeral_defs mult_2) simp

lemma u256_checked_shl_iff [ok_iffs]:
  "u256_checked_shl x k = Some z \<longleftrightarrow> unat z = unat x * 2 ^ k"
proof (cases "unat x * 2 ^ k < 2 ^ 256")
  case True
  then have "unat (push_bit k x) = unat x * 2 ^ k" by (intro unat_push_bit) simp
  with True show ?thesis
    by (auto simp only: u256_checked_shl_def if_True option.inject intro: word_eqI_unat)
next
  case False
  then show ?thesis using u256_less [of z] by (auto simp: u256_checked_shl_def)
qed

lemma u256_checked_shr_iff [ok_iffs]:
  "u256_checked_shr x k = Some z \<longleftrightarrow> unat x = unat z * 2 ^ k"
proof
  assume "u256_checked_shr x k = Some z"
  then have "unat x mod 2 ^ k = 0" and z: "z = drop_bit k x"
    by (auto simp: u256_checked_shr_def split: if_splits)
  then have "unat x = unat x div 2 ^ k * 2 ^ k" by (metis add.right_neutral div_mult_mod_eq)
  then show "unat x = unat z * 2 ^ k" by (simp only: z unat_drop_bit)
next
  assume a: "unat x = unat z * 2 ^ k"
  then have "drop_bit k x = z" by (intro word_eqI_unat) (simp add: unat_drop_bit)
  with a show "u256_checked_shr x k = Some z" by (simp add: u256_checked_shr_def)
qed

lemma try_narrow_iff [ok_iffs]: "try_narrow x = Some z \<longleftrightarrow> unat z = unat x"
  unfolding try_narrow_def
  by (metis option.distinct(1) option.inject unat_less_pow unat_ucast_narrow word_eqI_unat)

lemma unat_word_div_ceil [simp]:
  assumes "0 < unat y"
  shows "unat (word_div_ceil x y) = div_up (unat x) (unat y)"
proof (cases "unat x mod unat y = 0")
  case True
  then have "x mod y = 0" by (intro word_eqI_unat) (simp add: unat_mod)
  with True show ?thesis by (simp add: word_div_ceil_def div_up_def unat_div)
next
  case False
  then have m: "x mod y \<noteq> 0" by (metis unat_0 unat_mod)
  from False have "unat y \<noteq> 1" by auto
  with assms have "1 < unat y" by linarith
  have "unat x div unat y + 1 < 2 ^ LENGTH('a)"
  proof (cases "unat x = 0")
    case True
    with False show ?thesis by simp
  next
    case False
    then have "unat x div unat y < unat x" using \<open>1 < unat y\<close> by simp
    with unat_less_pow [of x] show ?thesis by linarith
  qed
  then have "unat (x div y + 1) = unat x div unat y + 1"
    by (metis unat_1 unat_add_lem unat_div)
  with False m show ?thesis by (simp add: word_div_ceil_def div_up_def)
qed

lemma mult_less_pow2:
  assumes "x < 2 ^ a" and "y < 2 ^ b" and "a + b \<le> c"
  shows "x * y < (2 :: nat) ^ c"
proof -
  have "x * y < 2 ^ a * 2 ^ b" using assms(1,2) by (intro mult_strict_mono) simp_all
  also have "\<dots> = 2 ^ (a + b)" by (simp add: power_add)
  also have "\<dots> \<le> 2 ^ c" using assms(3) by (intro power_increasing) simp_all
  finally show ?thesis .
qed

lemma u128_shift_less: "k \<le> 128 \<Longrightarrow> unat (x :: u128) * 2 ^ k < 2 ^ 256"
proof -
  assume k: "k \<le> 128"
  have "unat x * 2 ^ k \<le> unat x * 2 ^ 128"
    using k by (intro mult_left_mono power_increasing) simp_all
  also have "\<dots> < 2 ^ 128 * 2 ^ 128"
    using unat_less_pow [of x] by (intro mult_strict_right_mono) simp_all
  finally show ?thesis by (simp flip: power_add)
qed

lemma u256_checked_shl_u128:
  "k \<le> 128 \<Longrightarrow> u256_checked_shl (ucast (x :: u128)) k = checked_shl (ucast x) k"
  using u128_shift_less [of k x] by (simp add: u256_checked_shl_def checked_shl_def)

lemma unat_wide_mult [simp]:
  assumes "LENGTH('a) + LENGTH('a) \<le> LENGTH('b)"
  shows "unat (ucast (x :: 'a::len word) * ucast (y :: 'a word) :: 'b::len word) = unat x * unat y"
proof -
  have l: "LENGTH('a) \<le> LENGTH('b)" using assms by simp
  have "unat x * unat y < 2 ^ LENGTH('b)"
    by (rule mult_less_pow2 [OF unat_less_pow unat_less_pow assms])
  then show ?thesis using l by (subst unat_mult_lem [THEN iffD1]) simp_all
qed

section \<open>Checked operations that report an error\<close>

definition safe_add :: "'a::len word \<Rightarrow> 'a word \<Rightarrow> 'a word result" where
  "safe_add x y = ok_or (checked_add x y) MathOverflow"

definition safe_sub :: "'a::len word \<Rightarrow> 'a word \<Rightarrow> 'a word result" where
  "safe_sub x y = ok_or (checked_sub x y) MathOverflow"

definition safe_mul :: "'a::len word \<Rightarrow> 'a word \<Rightarrow> 'a word result" where
  "safe_mul x y = ok_or (checked_mul x y) MathOverflow"

definition safe_div :: "'a::len word \<Rightarrow> 'a word \<Rightarrow> 'a word result" where
  "safe_div x y = ok_or (checked_div x y) MathOverflow"

definition safe_rem :: "'a::len word \<Rightarrow> 'a word \<Rightarrow> 'a word result" where
  "safe_rem x y = ok_or (checked_rem x y) MathOverflow"

definition safe_shl :: "'a::len word \<Rightarrow> nat \<Rightarrow> 'a word result" where
  "safe_shl x k = ok_or (checked_shl x k) MathOverflow"

definition safe_shr :: "'a::len word \<Rightarrow> nat \<Rightarrow> 'a word result" where
  "safe_shr x k = ok_or (checked_shr x k) MathOverflow"

definition u256_safe_shl :: "u256 \<Rightarrow> nat \<Rightarrow> u256 result" where
  "u256_safe_shl x k = ok_or (u256_checked_shl x k) MathOverflow"

definition safe_cast :: "'a::len word \<Rightarrow> 'b::len word result" where
  "safe_cast x = ok_or (try_narrow x) TypeCastFailed"

text \<open>The negative overflow check of the primitive operators, which panics.\<close>

definition raw_sub :: "'a::len word \<Rightarrow> 'a word \<Rightarrow> 'a word result" where
  "raw_sub x y = unwrap (checked_sub x y)"

lemma safe_ops_iff [ok_iffs]:
  "safe_add x y = Ok z \<longleftrightarrow> unat z = unat x + unat y"
  "safe_sub x y = Ok z \<longleftrightarrow> unat x = unat z + unat y"
  "safe_mul x y = Ok z \<longleftrightarrow> unat z = unat x * unat y"
  "safe_div x y = Ok z \<longleftrightarrow> 0 < unat y \<and> unat z = unat x div unat y"
  "safe_rem x y = Ok z \<longleftrightarrow> 0 < unat y \<and> unat z = unat x mod unat y"
  "u256_safe_shl v k = Ok w \<longleftrightarrow> unat w = unat v * 2 ^ k"
  "safe_cast x = Ok c \<longleftrightarrow> unat c = unat x"
  "raw_sub x y = Ok z \<longleftrightarrow> unat x = unat z + unat y"
  by (simp_all add: safe_add_def safe_sub_def safe_mul_def safe_div_def safe_rem_def
      u256_safe_shl_def safe_cast_def raw_sub_def ok_iffs)

lemma safe_sub_le [ok_iffs]:
  "is_ok (safe_sub x y) \<longleftrightarrow> unat y \<le> unat x"
  by (auto simp: safe_sub_def checked_sub_def word_le_nat_alt)

lemma safe_add_is_ok:
  "is_ok (safe_add (x :: 'a::len word) y) \<longleftrightarrow> unat x + unat y < 2 ^ LENGTH('a)"
  by (simp add: safe_add_def checked_add_def)

lemma safe_add_no_overflow:
  fixes x :: "'a::len word"
  assumes "unat x + unat y < 2 ^ LENGTH('a)"
  shows "safe_add x y = Ok (x + y)" and "unat (x + y) = unat x + unat y"
  using assms by (simp_all add: safe_add_def checked_add_def unat_add_lem [THEN iffD1])

lemma safe_mul_no_overflow:
  fixes x :: "'a::len word"
  assumes "unat x * unat y < 2 ^ LENGTH('a)"
  shows "safe_mul x y = Ok (x * y)" and "unat (x * y) = unat x * unat y"
  using assms by (simp_all add: safe_mul_def checked_mul_def unat_mult_lem [THEN iffD1])

section \<open>Products and quotients through a wider type\<close>

datatype rounding = Up | Down

fun rounded_div :: "rounding \<Rightarrow> nat \<Rightarrow> nat \<Rightarrow> nat" where
  "rounded_div Up a b = div_up a b"
| "rounded_div Down a b = a div b"

definition mul_shr :: "u128 \<Rightarrow> u128 \<Rightarrow> nat \<Rightarrow> u128 option" where
  "mul_shr x y offset =
     (case checked_mul (ucast x :: u256) (ucast y) of
        None \<Rightarrow> None
      | Some prd \<Rightarrow> try_narrow (drop_bit offset prd))"

definition mul_shr_256 :: "u256 \<Rightarrow> u256 \<Rightarrow> nat \<Rightarrow> u128 option" where
  "mul_shr_256 x y offset =
     (case checked_mul (ucast x :: u512) (ucast y) of
        None \<Rightarrow> None
      | Some prd \<Rightarrow> try_narrow (drop_bit offset prd))"

definition shl_div :: "u128 \<Rightarrow> u128 \<Rightarrow> nat \<Rightarrow> rounding \<Rightarrow> u128 option" where
  "shl_div x y offset rounding =
     (if y = 0 then None
      else case u256_checked_shl (ucast x) offset of
        None \<Rightarrow> None
      | Some prd \<Rightarrow>
          (case rounding of
             Up \<Rightarrow> try_narrow (word_div_ceil prd (ucast y))
           | Down \<Rightarrow> try_narrow (prd div ucast y)))"

definition shl_div_256 :: "u128 \<Rightarrow> u128 \<Rightarrow> nat \<Rightarrow> u256 option" where
  "shl_div_256 x y offset =
     (if y = 0 then None
      else case u256_checked_shl (ucast x) offset of
        None \<Rightarrow> None
      | Some prd \<Rightarrow> checked_div prd (ucast y))"

definition mul_div_u256 :: "u256 \<Rightarrow> u256 \<Rightarrow> u256 \<Rightarrow> rounding \<Rightarrow> u256 option" where
  "mul_div_u256 x y denominator rounding =
     (if denominator = 0 then None
      else case checked_mul (ucast x :: u512) (ucast y) of
        None \<Rightarrow> None
      | Some prd \<Rightarrow>
          (let result = (case rounding of
                 Up \<Rightarrow> word_div_ceil prd (ucast denominator)
               | Down \<Rightarrow> prd div ucast denominator)
           in if ucast (- 1 :: u256) < result then None else Some (ucast result)))"


lemma mul_shr_iff [ok_iffs]:
  "mul_shr x y k = Some z \<longleftrightarrow> unat z = unat x * unat y div 2 ^ k"
proof -
  have "checked_mul (ucast x :: u256) (ucast y) = Some (ucast x * ucast y)"
    by (simp add: checked_mul_iff)
  then show ?thesis by (simp add: mul_shr_def try_narrow_iff unat_drop_bit)
qed

lemma mul_shr_256_iff [ok_iffs]:
  "mul_shr_256 x y k = Some z \<longleftrightarrow> unat z = unat x * unat y div 2 ^ k"
proof -
  have "checked_mul (ucast x :: u512) (ucast y) = Some (ucast x * ucast y)"
    by (simp add: checked_mul_iff)
  then show ?thesis by (simp add: mul_shr_256_def try_narrow_iff unat_drop_bit)
qed

lemma shl_div_iff [ok_iffs]:
  assumes "k \<le> 128"
  shows "shl_div x y k r = Some z \<longleftrightarrow>
    0 < unat y \<and> unat z = rounded_div r (unat x * 2 ^ k) (unat y)"
proof -
  have "unat (ucast x :: u256) * 2 ^ k < 2 ^ LENGTH(256)"
    using u128_shift_less [OF assms, of x] by simp
  then have p: "unat (push_bit k (ucast x :: u256)) = unat x * 2 ^ k"
    using unat_push_bit by fastforce
  have c: "u256_checked_shl (ucast x) k = Some (push_bit k (ucast x))"
    by (simp add: u256_checked_shl_iff p)
  show ?thesis
    by (cases r) (auto simp: shl_div_def c try_narrow_iff p unat_div unat_eq_zero unat_gt_0)
qed

lemma shl_div_256_iff [ok_iffs]:
  assumes "k \<le> 128"
  shows "shl_div_256 x y k = Some z \<longleftrightarrow> 0 < unat y \<and> unat z = unat x * 2 ^ k div unat y"
proof -
  have "unat (ucast x :: u256) * 2 ^ k < 2 ^ LENGTH(256)"
    using u128_shift_less [OF assms, of x] by simp
  then have p: "unat (push_bit k (ucast x :: u256)) = unat x * 2 ^ k"
    using unat_push_bit by fastforce
  have c: "u256_checked_shl (ucast x) k = Some (push_bit k (ucast x))"
    by (simp add: u256_checked_shl_iff p)
  show ?thesis
    by (auto simp: shl_div_256_def c checked_div_iff p unat_eq_zero unat_gt_0)
qed

lemma unat_u256_max: "unat (- 1 :: u256) = 2 ^ 256 - 1"
  by (simp add: unsigned_minus_1_eq_mask mask_eq_exp_minus_1)

lemma mul_div_u256_iff [ok_iffs]:
  "mul_div_u256 x y d r = Some z \<longleftrightarrow>
    0 < unat d \<and> unat z = rounded_div r (unat x * unat y) (unat d)"
proof (cases "d = 0")
  case True
  then show ?thesis by (simp add: mul_div_u256_def)
next
  case False
  then have d: "0 < unat d" by (simp add: unat_gt_0)
  define q where "q = (case r of Up \<Rightarrow> word_div_ceil (ucast x * ucast y) (ucast d)
    | Down \<Rightarrow> (ucast x * ucast y) div (ucast d :: u512))"
  have c: "checked_mul (ucast x :: u512) (ucast y) = Some (ucast x * ucast y)"
    by (simp add: checked_mul_iff)
  have q: "unat q = rounded_div r (unat x * unat y) (unat d)"
    using d by (cases r) (simp_all add: q_def unat_div)
  have "mul_div_u256 x y d r = (if ucast (- 1 :: u256) < q then None else Some (ucast q))"
    using False by (simp add: mul_div_u256_def c q_def Let_def)
  also have "ucast (- 1 :: u256) < q \<longleftrightarrow> \<not> unat q < 2 ^ LENGTH(256)"
    unfolding word_less_unat by (auto simp: unat_u256_max)
  also have "(if \<not> unat q < 2 ^ LENGTH(256) then None else Some (ucast q :: u256)) = try_narrow q"
    by (simp add: try_narrow_def)
  finally show ?thesis using d by (simp add: try_narrow_iff q)
qed

section \<open>Casting variants\<close>

definition safe_mul_shr_cast :: "u128 \<Rightarrow> u128 \<Rightarrow> nat \<Rightarrow> 'b::len word result" where
  "safe_mul_shr_cast x y offset =
     rbind (ok_or (mul_shr x y offset) MathOverflow) (\<lambda>v. ok_or (try_narrow v) TypeCastFailed)"

definition safe_mul_shr_256_cast :: "u256 \<Rightarrow> u256 \<Rightarrow> nat \<Rightarrow> 'b::len word result" where
  "safe_mul_shr_256_cast x y offset =
     rbind (ok_or (mul_shr_256 x y offset) MathOverflow) (\<lambda>v. ok_or (try_narrow v) TypeCastFailed)"

definition safe_mul_div_cast_u64 :: "u64 \<Rightarrow> u64 \<Rightarrow> u64 \<Rightarrow> rounding \<Rightarrow> 'b::len word result" where
  "safe_mul_div_cast_u64 x y denominator rounding =
     rbind (safe_mul (ucast x :: u128) (ucast y)) (\<lambda>prd.
     let d = (ucast denominator :: u128) in
     rbind (case rounding of
         Up \<Rightarrow> rbind (safe_add prd d) (\<lambda>s. rbind (safe_sub s 1) (\<lambda>t. safe_div t d))
       | Down \<Rightarrow> safe_div prd d) (\<lambda>res.
     ok_or (try_narrow res) TypeCastFailed))"

definition safe_mul_div_cast_u128 :: "u128 \<Rightarrow> u128 \<Rightarrow> u128 \<Rightarrow> rounding \<Rightarrow> u128 result" where
  "safe_mul_div_cast_u128 x y denominator rounding =
     rbind (safe_mul (ucast x :: u256) (ucast y)) (\<lambda>prd.
     let d = (ucast denominator :: u256) in
     rbind (case rounding of
         Up \<Rightarrow> assert_panic (d \<noteq> 0) (Ok (word_div_ceil prd d))
       | Down \<Rightarrow> safe_div prd d) (\<lambda>res.
     ok_or (try_narrow res) TypeCastFailed))"

definition safe_shl_div_cast :: "u128 \<Rightarrow> u128 \<Rightarrow> nat \<Rightarrow> rounding \<Rightarrow> 'b::len word result" where
  "safe_shl_div_cast x y offset rounding =
     rbind (ok_or (shl_div x y offset rounding) MathOverflow)
       (\<lambda>v. ok_or (try_narrow v) TypeCastFailed)"

lemma ex_word_via:
  assumes "LENGTH('b::len) \<le> LENGTH('c::len)"
  shows "(\<exists>v::'c word. unat v = n \<and> unat (z :: 'b word) = unat v) \<longleftrightarrow> unat z = n"
proof
  assume "unat z = n"
  then have "unat (ucast z :: 'c word) = n \<and> unat z = unat (ucast z :: 'c word)"
    using assms by simp
  then show "\<exists>v::'c word. unat v = n \<and> unat z = unat v" by blast
qed auto

lemma ex_u128_via:
  "LENGTH('b::len) \<le> 128 \<Longrightarrow> (\<exists>v::u128. unat v = n \<and> unat (z :: 'b word) = unat v) \<longleftrightarrow> unat z = n"
  by (rule ex_word_via) simp

lemma safe_mul_shr_cast_iff [ok_iffs]:
  assumes "LENGTH('b::len) \<le> 128"
  shows "safe_mul_shr_cast x y k = Ok (z :: 'b word) \<longleftrightarrow> unat z = unat x * unat y div 2 ^ k"
  by (simp add: safe_mul_shr_cast_def ok_iffs ex_u128_via [OF assms])

lemma safe_mul_shr_256_cast_iff [ok_iffs]:
  assumes "LENGTH('b::len) \<le> 128"
  shows "safe_mul_shr_256_cast x y k = Ok (z :: 'b word) \<longleftrightarrow> unat z = unat x * unat y div 2 ^ k"
  by (simp add: safe_mul_shr_256_cast_def ok_iffs ex_u128_via [OF assms])

lemma safe_shl_div_cast_iff [ok_iffs]:
  assumes "LENGTH('b::len) \<le> 128" and "k \<le> 128"
  shows "safe_shl_div_cast x y k r = Ok (z :: 'b word) \<longleftrightarrow>
    0 < unat y \<and> unat z = rounded_div r (unat x * 2 ^ k) (unat y)"
  using ex_u128_via [OF assms(1), of "rounded_div r (unat x * 2 ^ k) (unat y)" z] assms(2)
  by (auto simp: safe_shl_div_cast_def ok_iffs)

lemma safe_mul_div_cast_u64_iff [ok_iffs]:
  assumes b: "LENGTH('b::len) \<le> 128"
  shows "safe_mul_div_cast_u64 x y d r = Ok (z :: 'b word) \<longleftrightarrow>
    0 < unat d \<and> unat z = rounded_div r (unat x * unat y) (unat d)"
proof -
  let ?p = "ucast x * ucast y :: u128" and ?d = "ucast d :: u128"
  have m: "safe_mul (ucast x :: u128) (ucast y) = Ok ?p" by (simp add: ok_iffs)
  have p: "unat ?p = unat x * unat y" by simp
  have "unat x * unat y \<le> (2 ^ 64 - 1) * (2 ^ 64 - 1)"
    using unat_bounds(4) [of x] unat_bounds(4) [of y] by (intro mult_le_mono) simp_all
  moreover have "unat d < 2 ^ 64" using unat_bounds(4) [of d] by simp
  ultimately have "unat x * unat y + unat d < 2 ^ LENGTH(128)" by simp
  then have a: "safe_add ?p ?d = Ok (?p + ?d)" and s: "unat (?p + ?d) = unat x * unat y + unat d"
    using unat_add_lem [of ?p ?d] by (simp_all add: ok_iffs)
  show ?thesis
  proof (cases "d = 0")
    case True
    then show ?thesis
      by (cases r) (auto simp: safe_mul_div_cast_u64_def m Let_def ok_iffs)
  next
    case False
    then have d: "0 < unat d" by (simp add: unat_gt_0)
    let ?t = "?p + ?d - 1"
    have "1 \<le> ?p + ?d" using d s by (simp add: word_le_unat)
    then have t: "unat ?t = unat x * unat y + unat d - 1" by (simp add: unat_sub s)
    have sub: "safe_sub (?p + ?d) 1 = Ok ?t" using d by (simp add: ok_iffs s t)
    have dd: "?d \<noteq> 0" using d by (subst word_unat_eq_iff) simp
    have div: "safe_div v ?d = Ok (v div ?d)" for v
      using dd by (simp add: safe_div_def checked_div_def)
    have "(safe_mul_div_cast_u64 x y d r :: 'b word result) =
      ok_or (try_narrow (case r of Up \<Rightarrow> ?t div ?d | Down \<Rightarrow> ?p div ?d)) TypeCastFailed"
      by (cases r) (simp_all add: safe_mul_div_cast_u64_def m a sub div Let_def)
    moreover have "unat (case r of Up \<Rightarrow> ?t div ?d | Down \<Rightarrow> ?p div ?d) =
      rounded_div r (unat x * unat y) (unat d)"
      using d by (cases r) (simp_all add: unat_div t div_up_eq_div)
    ultimately show ?thesis using d by (simp add: ok_iffs)
  qed
qed

lemma safe_mul_div_cast_u128_iff [ok_iffs]:
  "safe_mul_div_cast_u128 x y d r = Ok z \<longleftrightarrow>
    0 < unat d \<and> unat z = rounded_div r (unat x * unat y) (unat d)"
proof -
  let ?p = "ucast x * ucast y :: u256" and ?d = "ucast d :: u256"
  have m: "safe_mul (ucast x :: u256) (ucast y) = Ok ?p" by (simp add: ok_iffs)
  have z: "?d = 0 \<longleftrightarrow> unat d = 0"
    by (subst word_unat_eq_iff) simp
  show ?thesis
  proof (cases "unat d = 0")
    case True
    then have "?d = 0" by (simp add: z)
    then show ?thesis
      by (cases r)
        (simp_all add: safe_mul_div_cast_u128_def m True safe_div_def checked_div_def)
  next
    case False
    then have d: "0 < unat d" and dd: "?d \<noteq> 0" by (simp_all add: z)
    have "safe_mul_div_cast_u128 x y d r =
      ok_or (try_narrow (case r of Up \<Rightarrow> word_div_ceil ?p ?d | Down \<Rightarrow> ?p div ?d)) TypeCastFailed"
      using dd
      by (cases r) (simp_all add: safe_mul_div_cast_u128_def m safe_div_def checked_div_def Let_def)
    moreover have "unat (case r of Up \<Rightarrow> word_div_ceil ?p ?d | Down \<Rightarrow> ?p div ?d) =
      rounded_div r (unat x * unat y) (unat d)"
      using d by (cases r) (simp_all add: unat_div)
    ultimately show ?thesis using d by (simp add: ok_iffs)
  qed
qed

subsection \<open>The integer square root\<close>

fun bit_length :: "nat \<Rightarrow> nat" where
  "bit_length n = (if n = 0 then 0 else Suc (bit_length (n div 2)))"

declare bit_length.simps [simp del]

definition leading_zeros :: "u256 \<Rightarrow> nat" where
  "leading_zeros w = 256 - bit_length (unat w)"

text \<open>
  The \<^verbatim>\<open>while\<close> loop, over \<^verbatim>\<open>bit\<close>, \<^verbatim>\<open>n\<close> and \<^verbatim>\<open>result\<close>. Each round divides \<^verbatim>\<open>bit\<close> by four, which is the
  termination measure.
\<close>

function sqrt_loop :: "u256 \<Rightarrow> u256 \<Rightarrow> u256 \<Rightarrow> u256 option" where
  "sqrt_loop b n res =
     (if b = 0 then Some res
      else case checked_add res b of
        None \<Rightarrow> None
      | Some result_with_bit \<Rightarrow>
          if result_with_bit \<le> n then
            (case checked_sub n result_with_bit of
               None \<Rightarrow> None
             | Some n' \<Rightarrow>
                 (case u256_checked_shr res 1 of
                    None \<Rightarrow> None
                  | Some half \<Rightarrow>
                      (case checked_add half b of
                         None \<Rightarrow> None
                       | Some res' \<Rightarrow> sqrt_loop (drop_bit 2 b) n' res')))
          else
            (case u256_checked_shr res 1 of
               None \<Rightarrow> None
             | Some res' \<Rightarrow> sqrt_loop (drop_bit 2 b) n res'))"
  by pat_completeness auto
termination
  by (relation "measure (\<lambda>(b, n, res). unat b)") (auto simp: unat_drop_bit unat_gt_0)

declare sqrt_loop.simps [simp del]

definition sqrt_u256 :: "u256 \<Rightarrow> u256 option" where
  "sqrt_u256 radicand =
     (if radicand = 0 then Some 0
      else let max_shift = leading_zeros 0 - 1;
               d = max_shift - leading_zeros radicand;
               shift = d - d mod 2
           in case u256_checked_shl 1 shift of
                None \<Rightarrow> None
              | Some b \<Rightarrow> sqrt_loop b radicand 0)"

lemma bit_length_bounds: "0 < n \<Longrightarrow> 2 ^ (bit_length n - 1) \<le> n \<and> n < 2 ^ bit_length n"
proof (induction n rule: bit_length.induct)
  case (1 n)
  show ?case
  proof (cases "n div 2 = 0")
    case True
    with 1(2) have "n = 1" by linarith
    then show ?thesis by (simp add: bit_length.simps [of "Suc 0"] bit_length.simps [of 0])
  next
    case False
    then have h: "2 ^ (bit_length (n div 2) - 1) \<le> n div 2" "n div 2 < 2 ^ bit_length (n div 2)"
      using 1 by simp_all
    have p: "0 < bit_length (n div 2)"
      using False by (subst bit_length.simps) simp
    have e: "bit_length n = Suc (bit_length (n div 2))"
      using 1(2) by (subst bit_length.simps) simp
    have "(2::nat) ^ bit_length (n div 2) = 2 * 2 ^ (bit_length (n div 2) - 1)"
      using p by (metis power_eq_if less_irrefl)
    with h show ?thesis unfolding e by simp linarith
  qed
qed

lemma sqrt_step_no_overflow:
  assumes "k \<le> 127" and "m = p * 2 ^ (k + 1)" and "2 ^ (k + 1) dvd p" and "m < 2 ^ 256"
  shows "m + 4 ^ k < (2 :: nat) ^ 256"
proof -
  obtain q where q: "p = 2 ^ (k + 1) * q" using assms(3) by (elim dvdE)
  have four: "(4::nat) ^ j = 2 ^ j * 2 ^ j" for j by (induction j) simp_all
  have m: "m = 4 ^ (k + 1) * q"
    unfolding assms(2) q four by (simp only: mult_ac)
  have "(2::nat) ^ 256 = 4 ^ 128" by simp
  also have "\<dots> = 4 ^ (k + 1) * 4 ^ (127 - k)" using assms(1) by (simp flip: power_add)
  finally have e: "(2::nat) ^ 256 = 4 ^ (k + 1) * 4 ^ (127 - k)" .
  with assms(4) have "q < 4 ^ (127 - k)" by (simp only: m mult_less_cancel1)
  then have "4 ^ (k + 1) * (q + 1) \<le> (4::nat) ^ (k + 1) * 4 ^ (127 - k)"
    by (intro mult_left_mono) simp_all
  moreover have "m + 4 ^ k < 4 ^ (k + 1) * (q + 1)" by (simp add: m)
  ultimately show ?thesis using e by linarith
qed

lemma sqrt_step:
  assumes b: "unat b = 4 ^ k" and k: "k \<le> 127" and r: "unat res = p * 2 ^ (k + 1)"
    and n: "unat n + p\<^sup>2 = N" and lt: "N < (p + 2 ^ (k + 1))\<^sup>2" and dvd: "2 ^ (k + 1) dvd p"
  obtains n' res' p' where "sqrt_loop b n res = sqrt_loop (drop_bit 2 b) n' res'"
    and "unat res' = p' * 2 ^ k" and "unat n' + p'\<^sup>2 = N" and "N < (p' + 2 ^ k)\<^sup>2"
    and "2 ^ k dvd p'"
proof -
  have b0: "b \<noteq> 0" using b by auto
  have ov: "unat res + 4 ^ k < 2 ^ 256"
    using sqrt_step_no_overflow [OF k r dvd u256_less] .
  obtain rb where rb: "checked_add res b = Some rb" and urb: "unat rb = unat res + 4 ^ k"
  proof -
    have "unat (res + b) = unat res + 4 ^ k"
      using ov unat_add_lem [of res b] by (simp add: b)
    then show thesis using that [of "res + b"] by (simp add: checked_add_iff b)
  qed
  have half_n: "unat res = (p * 2 ^ k) * 2 ^ 1" by (simp add: r)
  obtain half where half: "u256_checked_shr res 1 = Some half" and uhalf: "unat half = p * 2 ^ k"
  proof -
    have "unat (drop_bit 1 res) = p * 2 ^ k" by (simp only: unat_drop_bit half_n) simp
    then show thesis using that [of "drop_bit 1 res"] half_n by (simp only: u256_checked_shr_iff)
  qed
  have sq: "(p + 2 ^ k)\<^sup>2 = p\<^sup>2 + (p * 2 ^ (k + 1) + 4 ^ k)"
    by (simp add: power2_eq_square algebra_simps flip: power_mult_distrib)
  have dvdk: "2 ^ k dvd p" using dvd by (metis dvd_trans le_imp_power_dvd le_add1)
  show thesis
  proof (cases "rb \<le> n")
    case True
    then have le: "unat res + 4 ^ k \<le> unat n" by (simp add: word_le_unat urb)
    obtain n' where n': "checked_sub n rb = Some n'" and un': "unat n' = unat n - unat rb"
      using True by (auto simp: checked_sub_def unat_sub)
    obtain res' where res': "checked_add half b = Some res'" and ur: "unat res' = p * 2 ^ k + 4 ^ k"
    proof -
      have "unat half + unat b < 2 ^ LENGTH(256)" using ov by (simp add: uhalf b r)
      then have "unat (half + b) = p * 2 ^ k + 4 ^ k"
        using unat_add_lem [of half b] by (simp add: b uhalf)
      then show thesis using that [of "half + b"] by (simp add: checked_add_iff b uhalf)
    qed
    show thesis
    proof (rule that [of n' res' "p + 2 ^ k"])
      show "sqrt_loop b n res = sqrt_loop (drop_bit 2 b) n' res'"
        by (subst sqrt_loop.simps) (simp add: b0 rb True n' half [unfolded One_nat_def] res')
      show "unat res' = (p + 2 ^ k) * 2 ^ k"
        by (simp add: ur algebra_simps flip: power_mult_distrib)
      show "unat n' + (p + 2 ^ k)\<^sup>2 = N"
        using n le un' urb unfolding sq r by linarith
      show "N < (p + 2 ^ k + 2 ^ k)\<^sup>2" using lt by (simp add: mult_2 add.assoc)
      show "2 ^ k dvd p + 2 ^ k" using dvdk by simp
    qed
  next
    case False
    then have gt: "unat n < unat res + 4 ^ k" by (simp add: word_le_unat urb)
    show thesis
    proof (rule that [of n half p])
      show "sqrt_loop b n res = sqrt_loop (drop_bit 2 b) n half"
        by (subst sqrt_loop.simps) (simp add: b0 rb False half [unfolded One_nat_def])
      show "unat half = p * 2 ^ k" by (rule uhalf)
      show "unat n + p\<^sup>2 = N" by (rule n)
      show "N < (p + 2 ^ k)\<^sup>2" using gt n unfolding sq r by linarith
      show "2 ^ k dvd p" by (rule dvdk)
    qed
  qed
qed

lemma sqrt_loop_correct:
  assumes "unat b = 4 ^ k" and "k \<le> 127" and "unat res = p * 2 ^ (k + 1)"
    and "unat n + p\<^sup>2 = N" and "N < (p + 2 ^ (k + 1))\<^sup>2" and "2 ^ (k + 1) dvd p"
  shows "\<exists>r. sqrt_loop b n res = Some r \<and> (unat r)\<^sup>2 \<le> N \<and> N < (unat r + 1)\<^sup>2"
  using assms
proof (induction k arbitrary: b n res p)
  case 0
  from sqrt_step [OF 0] obtain n' res' p' where
    s: "sqrt_loop b n res = sqrt_loop (drop_bit 2 b) n' res'" and
    p: "unat res' = p'" "unat n' + p'\<^sup>2 = N" "N < (p' + 1)\<^sup>2"
    by auto
  have "drop_bit 2 b = 0"
    by (rule word_eqI_unat) (simp add: unat_drop_bit 0)
  then have "sqrt_loop b n res = Some res'" unfolding s by (subst sqrt_loop.simps) simp
  with p show ?case by auto
next
  case (Suc k)
  from sqrt_step [OF Suc.prems] obtain n' res' p' where
    s: "sqrt_loop b n res = sqrt_loop (drop_bit 2 b) n' res'" and
    p: "unat res' = p' * 2 ^ (k + 1)" "unat n' + p'\<^sup>2 = N" "N < (p' + 2 ^ (k + 1))\<^sup>2"
      "2 ^ (k + 1) dvd p'"
    by auto
  have "unat (drop_bit 2 b) = 4 ^ k" by (simp add: unat_drop_bit Suc.prems(1))
  moreover have "k \<le> 127" using Suc.prems(2) by simp
  ultimately show ?case unfolding s using p by (rule Suc.IH)
qed

lemma sqrt_u256_correct:
  "\<exists>r. sqrt_u256 n = Some r \<and> (unat r)\<^sup>2 \<le> unat n \<and> unat n < (unat r + 1)\<^sup>2"
proof (cases "n = 0")
  case True
  then show ?thesis by (simp add: sqrt_u256_def)
next
  case False
  then have n: "0 < unat n" by (simp add: unat_gt_0)
  define l where "l = bit_length (unat n)"
  have l: "2 ^ (l - 1) \<le> unat n" "unat n < 2 ^ l"
    using bit_length_bounds [OF n] by (simp_all add: l_def)
  have "0 < l" using n by (subst l_def, subst bit_length.simps) simp
  have "(2::nat) ^ (l - 1) < 2 ^ 256" using l(1) u256_less [of n] by (rule le_less_trans)
  then have "l - 1 < 256" by (rule power_less_imp_less_exp [rotated]) simp
  then have "l \<le> 256" by simp
  define k where "k = (l - 1) div 2"
  have d: "leading_zeros 0 - 1 - leading_zeros n = l - 1"
    using \<open>0 < l\<close> \<open>l \<le> 256\<close>
    by (simp add: leading_zeros_def bit_length.simps [of 0] flip: l_def)
  have shift: "(leading_zeros 0 - 1 - leading_zeros n) -
      (leading_zeros 0 - 1 - leading_zeros n) mod 2 = 2 * k"
    unfolding d by (simp only: k_def minus_mod_eq_mult_div)
  have k: "k \<le> 127" using \<open>l \<le> 256\<close> by (simp add: k_def)
  have "2 * k \<le> l - 1" and "l \<le> 2 * (k + 1)" using \<open>0 < l\<close> by (simp_all add: k_def)
  have four: "(2::nat) ^ (2 * j) = 4 ^ j" for j by (simp add: power_mult)
  have "(2::nat) ^ l \<le> 2 ^ (2 * (k + 1))"
    using \<open>l \<le> 2 * (k + 1)\<close> by (intro power_increasing) simp_all
  with l(2) have up: "unat n < 4 ^ (k + 1)" by (simp add: four [symmetric])
  have "(4::nat) ^ k \<le> 4 ^ 127" using k by (intro power_increasing) simp_all
  then have "(4::nat) ^ k < 2 ^ 256" by simp
  then have ub: "unat (of_nat (4 ^ k) :: u256) = 4 ^ k"
    by (intro unat_of_nat_small) simp
  define b :: u256 where "b = of_nat (4 ^ k)"
  have ub: "unat b = 4 ^ k" using ub by (simp only: b_def)
  have b: "u256_checked_shl 1 (2 * k) = Some b"
    by (simp only: u256_checked_shl_iff ub four unat_1 mult_1)
  have "\<exists>r. sqrt_loop b n 0 = Some r \<and> (unat r)\<^sup>2 \<le> unat n \<and> unat n < (unat r + 1)\<^sup>2"
  proof (rule sqrt_loop_correct [OF ub k, where p = 0])
    show "unat n < (0 + 2 ^ (k + 1))\<^sup>2"
      using up unfolding four [symmetric] by (simp add: power_even_eq)
  qed simp_all
  moreover have "sqrt_u256 n = sqrt_loop b n 0"
    unfolding sqrt_u256_def Let_def shift b using False by simp
  ultimately show ?thesis by simp
qed

end
