(* ===== verification/Amm_Constants.thy ===== *)
theory Amm_Constants
  imports Amm_Math
begin

text \<open>
  The constants of \<^verbatim>\<open>constants.rs\<close> and \<^verbatim>\<open>curve.rs\<close>, at the width the source gives them, for the
  program as deployed (without the \<^verbatim>\<open>local\<close> feature). Scales and shift offsets are \<^typ>\<open>nat\<close>.
  The collection \<open>amm_consts\<close> unfolds all of them.
\<close>

named_theorems amm_consts "the definitions of the constants"

section \<open>Prices and scales\<close>

definition MIN_SQRT_PRICE :: u128 where [amm_consts]: "MIN_SQRT_PRICE = 4295048016"
definition MAX_SQRT_PRICE :: u128 where
  [amm_consts]: "MAX_SQRT_PRICE = 79226673521066979257578248091"
definition LIQUIDITY_SCALE :: nat where [amm_consts]: "LIQUIDITY_SCALE = 128"
definition REWARD_RATE_SCALE :: nat where [amm_consts]: "REWARD_RATE_SCALE = 64"
definition TOTAL_REWARD_SCALE :: nat where [amm_consts]: "TOTAL_REWARD_SCALE = 192"
definition RESOLUTION :: nat where [amm_consts]: "RESOLUTION = 64"
definition ONE_Q64 :: u128 where [amm_consts]: "ONE_Q64 = 18446744073709551616"
definition BIN_STEP_BPS_DEFAULT :: u16 where [amm_consts]: "BIN_STEP_BPS_DEFAULT = 1"
definition BIN_STEP_BPS_U128_DEFAULT :: u128 where
  [amm_consts]: "BIN_STEP_BPS_U128_DEFAULT = 1844674407370955"
definition U24_MAX :: u32 where [amm_consts]: "U24_MAX = 0xffffff"

section \<open>Rewards, splits, the rate limiter and operators\<close>

definition NUM_REWARDS :: nat where [amm_consts]: "NUM_REWARDS = 2"
definition MIN_REWARD_DURATION :: u64 where [amm_consts]: "MIN_REWARD_DURATION = 86400"
definition MAX_REWARD_DURATION :: u64 where [amm_consts]: "MAX_REWARD_DURATION = 31536000"
definition SPLIT_POSITION_DENOMINATOR :: u32 where
  [amm_consts]: "SPLIT_POSITION_DENOMINATOR = 1000000000"
definition MAX_RATE_LIMITER_DURATION_IN_SECONDS :: u32 where
  [amm_consts]: "MAX_RATE_LIMITER_DURATION_IN_SECONDS = 43200"
definition MAX_RATE_LIMITER_DURATION_IN_SLOTS :: u32 where
  [amm_consts]: "MAX_RATE_LIMITER_DURATION_IN_SLOTS = 108000"
definition MAX_OPERATION :: nat where [amm_consts]: "MAX_OPERATION = 11"

section \<open>Activation\<close>

definition SLOT_BUFFER :: u64 where [amm_consts]: "SLOT_BUFFER = 9000"
definition TIME_BUFFER :: u64 where [amm_consts]: "TIME_BUFFER = 3600"
definition MAX_ACTIVATION_SLOT_DURATION :: u64 where
  [amm_consts]: "MAX_ACTIVATION_SLOT_DURATION = 6696000"
definition MAX_ACTIVATION_TIME_DURATION :: u64 where
  [amm_consts]: "MAX_ACTIVATION_TIME_DURATION = 2678400"
definition MAX_VESTING_SLOT_DURATION :: u64 where
  [amm_consts]: "MAX_VESTING_SLOT_DURATION = 788400000"
definition MAX_VESTING_TIME_DURATION :: u64 where
  [amm_consts]: "MAX_VESTING_TIME_DURATION = 315360000"
definition FIVE_MINUTES_SLOT_BUFFER :: u64 where [amm_consts]: "FIVE_MINUTES_SLOT_BUFFER = 750"
definition FIVE_MINUTES_TIME_BUFFER :: u64 where [amm_consts]: "FIVE_MINUTES_TIME_BUFFER = 300"
definition MAX_FEE_CURVE_TIME_DURATION :: u64 where
  [amm_consts]: "MAX_FEE_CURVE_TIME_DURATION = 86400"
definition MAX_FEE_CURVE_SLOT_DURATION :: u64 where
  [amm_consts]: "MAX_FEE_CURVE_SLOT_DURATION = 216000"
definition MAX_HIGH_TAX_TIME_DURATION :: u64 where
  [amm_consts]: "MAX_HIGH_TAX_TIME_DURATION = 600"
definition MAX_HIGH_TAX_SLOT_DURATION :: u64 where
  [amm_consts]: "MAX_HIGH_TAX_SLOT_DURATION = 1500"

section \<open>Fees\<close>

definition FEE_DENOMINATOR :: u64 where [amm_consts]: "FEE_DENOMINATOR = 1000000000"
definition MAX_FEE_BPS_V0 :: u64 where [amm_consts]: "MAX_FEE_BPS_V0 = 5000"
definition MAX_FEE_NUMERATOR_V0 :: u64 where [amm_consts]: "MAX_FEE_NUMERATOR_V0 = 500000000"
definition MAX_FEE_BPS_V1 :: u64 where [amm_consts]: "MAX_FEE_BPS_V1 = 9900"
definition MAX_FEE_NUMERATOR_V1 :: u64 where [amm_consts]: "MAX_FEE_NUMERATOR_V1 = 990000000"
definition MAX_FEE_NUMERATOR_POST_UPDATE :: u64 where
  [amm_consts]: "MAX_FEE_NUMERATOR_POST_UPDATE = 100000000"
definition MAX_BASIS_POINT :: u64 where [amm_consts]: "MAX_BASIS_POINT = 10000"
definition MIN_FEE_NUMERATOR :: u64 where [amm_consts]: "MIN_FEE_NUMERATOR = 100000"
definition PROTOCOL_FEE_PERCENT :: u8 where [amm_consts]: "PROTOCOL_FEE_PERCENT = 20"
definition HOST_FEE_PERCENT :: u8 where [amm_consts]: "HOST_FEE_PERCENT = 20"
definition PARTNER_FEE_PERCENT :: u8 where [amm_consts]: "PARTNER_FEE_PERCENT = 0"
definition CURRENT_POOL_VERSION :: u8 where [amm_consts]: "CURRENT_POOL_VERSION = 1"

definition get_max_fee_numerator :: "u8 \<Rightarrow> u64 result" where
  "get_max_fee_numerator pool_version =
     (if pool_version = 0 then Ok MAX_FEE_NUMERATOR_V0
      else if pool_version = 1 then Ok MAX_FEE_NUMERATOR_V1
      else Err InvalidPoolVersion)"

definition get_max_fee_bps :: "u8 \<Rightarrow> u64 result" where
  "get_max_fee_bps pool_version =
     (if pool_version = 0 then Ok MAX_FEE_BPS_V0
      else if pool_version = 1 then Ok MAX_FEE_BPS_V1
      else Err InvalidPoolVersion)"

lemma get_max_fee_numerator_Ok:
  "get_max_fee_numerator v = Ok m \<Longrightarrow> unat m \<le> 990000000"
  by (auto simp: get_max_fee_numerator_def amm_consts split: if_splits)

end
