(* ===== verification/Fee_Amounts.thy ===== *)
theory Fee_Amounts
  imports Amm_Constants
begin

text \<open>
  The conversions between an amount with and without its fee (\<^verbatim>\<open>get_excluded_fee_amount\<close> and
  \<^verbatim>\<open>get_included_fee_amount\<close> of \<^verbatim>\<open>state/fee.rs\<close>), the helpers of \<^verbatim>\<open>params/fee_parameters.rs\<close>,
  and the enumerations that select who pays which fee.
\<close>

datatype trade_direction = AtoB | BtoA

datatype collect_fee_mode = BothToken | OnlyB

datatype base_fee_mode =
  FeeTimeSchedulerLinear | FeeTimeSchedulerExponential | RateLimiter
  | FeeMarketCapSchedulerLinear | FeeMarketCapSchedulerExponential

definition collect_fee_mode_of_u8 :: "u8 \<Rightarrow> collect_fee_mode option" where
  "collect_fee_mode_of_u8 n =
     (if n = 0 then Some BothToken else if n = 1 then Some OnlyB else None)"

definition base_fee_mode_of_u8 :: "u8 \<Rightarrow> base_fee_mode option" where
  "base_fee_mode_of_u8 n =
     (if n = 0 then Some FeeTimeSchedulerLinear
      else if n = 1 then Some FeeTimeSchedulerExponential
      else if n = 2 then Some RateLimiter
      else if n = 3 then Some FeeMarketCapSchedulerLinear
      else if n = 4 then Some FeeMarketCapSchedulerExponential
      else None)"

section \<open>Fee numerators\<close>

definition validate_fee_fraction :: "u64 \<Rightarrow> u64 \<Rightarrow> unit result" where
  "validate_fee_fraction numerator denominator =
     (if denominator = 0 \<or> denominator \<le> numerator then Err InvalidFee else Ok ())"

definition calculate_fee :: "u128 \<Rightarrow> u128 \<Rightarrow> u128 \<Rightarrow> u128 option" where
  "calculate_fee token_amount fee_numerator fee_denominator =
     (if fee_numerator = 0 \<or> token_amount = 0 then Some 0
      else case checked_mul token_amount fee_numerator of
        None \<Rightarrow> None
      | Some p \<Rightarrow>
          (case checked_div p fee_denominator of
             None \<Rightarrow> None
           | Some fee \<Rightarrow> if fee = 0 then Some 1 else Some fee))"

definition to_bps :: "u128 \<Rightarrow> u128 \<Rightarrow> u64 option" where
  "to_bps numerator denominator =
     (case checked_mul numerator (ucast MAX_BASIS_POINT) of
        None \<Rightarrow> None
      | Some p \<Rightarrow>
          (case checked_div p denominator of
             None \<Rightarrow> None
           | Some bps \<Rightarrow> try_narrow bps))"

definition to_numerator :: "u128 \<Rightarrow> u128 \<Rightarrow> u64 result" where
  "to_numerator bps denominator =
     rbind (safe_mul bps denominator) (\<lambda>p.
     rbind (safe_div p (ucast MAX_BASIS_POINT)) (\<lambda>numerator.
     ok_or (try_narrow numerator) TypeCastFailed))"

lemma unat_fee_consts:
  "unat FEE_DENOMINATOR = 1000000000" "unat MIN_FEE_NUMERATOR = 100000"
  "unat MAX_BASIS_POINT = 10000" "unat (ucast FEE_DENOMINATOR :: u128) = 1000000000"
  "unat (ucast MAX_BASIS_POINT :: u128) = 10000"
  by (simp_all add: amm_consts)

text \<open>A basis point is \<open>100000\<close> of the fee denominator, exactly.\<close>

lemma to_numerator_eq:
  assumes "unat bps < 2 ^ 32"
  shows "\<exists>n. to_numerator bps (ucast FEE_DENOMINATOR) = Ok n \<and> unat n = unat bps * 100000"
proof -
  have p: "unat bps * unat (ucast FEE_DENOMINATOR :: u128) < 2 ^ LENGTH(128)"
    using assms by (simp add: unat_fee_consts)
  let ?p = "bps * ucast FEE_DENOMINATOR"
  have m: "safe_mul bps (ucast FEE_DENOMINATOR) = Ok ?p"
    and up: "unat ?p = unat bps * 1000000000"
    using p unat_mult_lem [of bps "ucast FEE_DENOMINATOR"]
    by (simp_all add: safe_mul_def checked_mul_def unat_fee_consts)
  define k where "k = unat bps * 100000"
  have k: "k < 2 ^ 49" using assms by (simp add: k_def)
  define n :: u64 where "n = of_nat k"
  define q :: u128 where "q = of_nat k"
  have n: "unat n = k" unfolding n_def by (rule unat_of_nat_small) (use k in simp)
  have q: "unat q = k" unfolding q_def by (rule unat_of_nat_small) (use k in simp)
  have "safe_div ?p (ucast MAX_BASIS_POINT) = Ok q"
    by (simp add: ok_iffs up unat_fee_consts q k_def)
  then have "to_numerator bps (ucast FEE_DENOMINATOR) = Ok n"
    unfolding to_numerator_def m rbind_simps by (simp only: rbind_simps ok_or_Ok_iff try_narrow_iff n q)
  with n show ?thesis by (auto simp: k_def)
qed

lemma to_numerator_u16:
  "\<exists>n. to_numerator (ucast (bps :: u16)) (ucast FEE_DENOMINATOR) = Ok n \<and> unat n = unat bps * 100000"
  using to_numerator_eq [of "ucast bps"] unat_bounds(2) [of bps] by simp

lemma to_numerator_u32:
  "\<exists>n. to_numerator (ucast (bps :: u32)) (ucast FEE_DENOMINATOR) = Ok n \<and> unat n = unat bps * 100000"
  using to_numerator_eq [of "ucast bps"] unat_bounds(3) [of bps] by simp

section \<open>Amounts with and without the fee\<close>

definition get_excluded_fee_amount :: "u64 \<Rightarrow> u64 \<Rightarrow> (u64 \<times> u64) result" where
  "get_excluded_fee_amount trade_fee_numerator included_fee_amount =
     rbind (safe_mul_div_cast_u64 included_fee_amount trade_fee_numerator FEE_DENOMINATOR Up)
       (\<lambda>trading_fee.
     rbind (safe_sub included_fee_amount trading_fee) (\<lambda>excluded_fee_amount.
     Ok (excluded_fee_amount, trading_fee)))"

definition get_included_fee_amount :: "u64 \<Rightarrow> u64 \<Rightarrow> (u64 \<times> u64) result" where
  "get_included_fee_amount trade_fee_numerator excluded_fee_amount =
     rbind (safe_sub FEE_DENOMINATOR trade_fee_numerator) (\<lambda>rest.
     rbind (safe_mul_div_cast_u64 excluded_fee_amount FEE_DENOMINATOR rest Up)
       (\<lambda>included_fee_amount.
     rbind (safe_sub included_fee_amount excluded_fee_amount) (\<lambda>fee_amount.
     Ok (included_fee_amount, fee_amount))))"

lemma get_excluded_fee_amount_iff [ok_iffs]:
  "get_excluded_fee_amount n inc = Ok (ex, fee) \<longleftrightarrow>
     unat fee = div_up (unat inc * unat n) 1000000000 \<and> unat inc = unat ex + unat fee"
  by (auto simp: get_excluded_fee_amount_def ok_iffs unat_fee_consts)

lemma get_included_fee_amount_iff [ok_iffs]:
  "get_included_fee_amount n ex = Ok (inc, fee) \<longleftrightarrow>
     unat n < 1000000000 \<and>
     unat inc = div_up (unat ex * 1000000000) (1000000000 - unat n) \<and>
     unat inc = unat ex + unat fee"
proof -
  have "(\<exists>rest::u64. 1000000000 = unat rest + unat n \<and> 0 < unat rest \<and>
      unat inc = div_up (unat ex * 1000000000) (unat rest)) \<longleftrightarrow>
    unat n < 1000000000 \<and> unat inc = div_up (unat ex * 1000000000) (1000000000 - unat n)"
    (is "?l \<longleftrightarrow> ?r")
  proof
    assume ?r
    then have "unat (of_nat (1000000000 - unat n) :: u64) = 1000000000 - unat n"
      by (intro unat_of_nat_small) simp
    with \<open>?r\<close> show ?l by (intro exI [of _ "of_nat (1000000000 - unat n)"]) simp
  next
    assume ?l
    then obtain rest :: u64 where r: "1000000000 = unat rest + unat n" "0 < unat rest"
      "unat inc = div_up (unat ex * 1000000000) (unat rest)" by blast
    then have "unat rest = 1000000000 - unat n" by simp
    with r show ?r by simp
  qed
  then show ?thesis by (auto simp: get_included_fee_amount_def ok_iffs unat_fee_consts)
qed

text \<open>
  Taking the fee off always succeeds below a rate of one, and for the rate zero nothing is taken.
\<close>

lemma get_excluded_fee_amount_total:
  assumes "unat n \<le> 1000000000"
  obtains ex fee where "get_excluded_fee_amount n inc = Ok (ex, fee)"
proof -
  have "div_up (unat inc * unat n) 1000000000 \<le> unat inc"
    using assms by (intro div_up_least) simp_all
  then have l: "div_up (unat inc * unat n) 1000000000 \<le> unat inc" .
  define fee :: u64 where "fee = of_nat (div_up (unat inc * unat n) 1000000000)"
  have "div_up (unat inc * unat n) 1000000000 < 2 ^ LENGTH(64)"
    using l unat_less_pow [of inc] by (rule le_less_trans)
  then have f: "unat fee = div_up (unat inc * unat n) 1000000000"
    unfolding fee_def by (rule unat_of_nat_small)
  then have "unat (inc - fee) = unat inc - unat fee" using l by (simp add: unat_sub word_le_unat)
  with f l have "get_excluded_fee_amount n inc = Ok (inc - fee, fee)"
    by (simp add: get_excluded_fee_amount_iff)
  then show thesis by (rule that)
qed

text \<open>
  Adding a fee and taking it off again gives back the amount and the same fee: the rounding up on
  both sides cancels.
\<close>

lemma included_excluded_nat:
  assumes n: "n < (d::nat)" and inc: "inc = div_up (x * d) (d - n)"
  shows "div_up (inc * n) d = inc - x" and "x \<le> inc"
proof -
  have d: "0 < d - n" "0 < d" using n by simp_all
  have b: "x * d \<le> inc * (d - n)" "inc * (d - n) < x * d + (d - n)"
    using div_up_bounds [OF d(1), of "x * d"] by (simp_all add: inc)
  have dn: "inc * (d - n) + inc * n = inc * d"
    using n by (simp flip: add_mult_distrib2)
  show x: "x \<le> inc"
  proof (rule ccontr)
    assume "\<not> x \<le> inc"
    then have "inc * (d - n) \<le> inc * d" "inc * d < x * d" using d by simp_all
    with b show False by linarith
  qed
  then have sub: "(inc - x) * d = inc * d - x * d" by (simp add: diff_mult_distrib)
  show "div_up (inc * n) d = inc - x"
  proof (rule div_up_unique [OF d(2)])
    show "inc * n \<le> (inc - x) * d" unfolding sub using b dn by linarith
    show "(inc - x) * d < inc * n + d" unfolding sub using b dn n by linarith
  qed
qed

lemma included_then_excluded:
  assumes "get_included_fee_amount n x = Ok (inc, fee)"
  shows "get_excluded_fee_amount n inc = Ok (x, fee)"
proof -
  have i: "unat n < 1000000000" "unat inc = div_up (unat x * 1000000000) (1000000000 - unat n)"
    "unat inc = unat x + unat fee"
    using assms by (simp_all add: get_included_fee_amount_iff)
  show ?thesis
    using included_excluded_nat [OF i(1,2)] i(3) by (simp add: get_excluded_fee_amount_iff)
qed

end
