(* ===== verification/Fee_Math.thy ===== *)
theory Fee_Math
  imports Amm_Constants
begin

text \<open>
  \<^verbatim>\<open>fee_math.rs\<close>: the power of a Q64.64 fixed-point number by repeated squaring, unrolled over
  the 19 bits of the exponent, and the fee of the exponential schedulers.
\<close>

definition MAX_EXPONENTIAL :: u32 where "MAX_EXPONENTIAL = 0x80000"

definition SCALE_OFFSET :: nat where "SCALE_OFFSET = 64"

text \<open>
  \<^verbatim>\<open>(x.checked_mul(y)?) >> SCALE_OFFSET\<close>, and the two lines of one bit: multiply the result when
  the bit of the exponent under the mask is set.
\<close>

definition mul_scaled :: "u128 \<Rightarrow> u128 \<Rightarrow> u128 option" where
  "mul_scaled x y = map_option (drop_bit SCALE_OFFSET) (checked_mul x y)"

definition pow_bit :: "u32 \<Rightarrow> u32 \<Rightarrow> u128 \<Rightarrow> u128 \<Rightarrow> u128 option" where
  "pow_bit exp m squared_base res =
     (if 0 < and exp m then mul_scaled res squared_base else Some res)"

text \<open>
  The blocks for bits 2 to 19: square the base, then the bit. The masks are those of the source,
  in its order.
\<close>

fun pow_blocks :: "u32 \<Rightarrow> u32 list \<Rightarrow> u128 \<Rightarrow> u128 \<Rightarrow> u128 option" where
  "pow_blocks exp [] squared_base res = Some res"
| "pow_blocks exp (m # ms) squared_base res =
     (case mul_scaled squared_base squared_base of
        None \<Rightarrow> None
      | Some sq \<Rightarrow>
          (case pow_bit exp m sq res of
             None \<Rightarrow> None
           | Some r \<Rightarrow> pow_blocks exp ms sq r))"

definition pow_masks :: "u32 list" where
  "pow_masks = [0x2, 0x4, 0x8, 0x10, 0x20, 0x40, 0x80, 0x100, 0x200, 0x400, 0x800, 0x1000,
     0x2000, 0x4000, 0x8000, 0x10000, 0x20000, 0x40000]"

text \<open>The exponent is an \<^verbatim>\<open>i32\<close>: a 32-bit word read by \<open>sint\<close>.\<close>

definition pow :: "u128 \<Rightarrow> 32 word \<Rightarrow> u128 option" where
  "pow base exp0 =
     (if sint exp0 = - (2 ^ 31) then None
      else let invert = (sint exp0 < 0) in
      if exp0 = 0 then Some (push_bit 64 1)
      else let exp = (if invert then - exp0 else exp0) in
      if MAX_EXPONENTIAL \<le> exp then None
      else
        let flip = (ONE_Q64 \<le> base) in
        (case (if flip then checked_div (- 1) base else Some base) of
           None \<Rightarrow> None
         | Some squared_base \<Rightarrow>
             (let invert = (if flip then \<not> invert else invert) in
              case pow_bit exp 0x1 squared_base ONE_Q64 of
                None \<Rightarrow> None
              | Some res0 \<Rightarrow>
                  (case pow_blocks exp pow_masks squared_base res0 of
                     None \<Rightarrow> None
                   | Some res \<Rightarrow>
                       if res = 0 then None
                       else if invert then checked_div (- 1) res
                       else Some res))))"

definition get_fee_in_period :: "u64 \<Rightarrow> u64 \<Rightarrow> u16 \<Rightarrow> u64 result" where
  "get_fee_in_period cliff_fee_numerator reduction_factor passed_period =
     (if reduction_factor = 0 then Ok cliff_fee_numerator
      else
        rbind (safe_shl (ucast reduction_factor :: u128) SCALE_OFFSET) (\<lambda>s.
        rbind (safe_div s (ucast MAX_BASIS_POINT)) (\<lambda>bps.
        rbind (safe_sub ONE_Q64 bps) (\<lambda>base.
        rbind (ok_or (pow base (ucast passed_period)) MathOverflow) (\<lambda>res.
        rbind (safe_mul res (ucast cliff_fee_numerator)) (\<lambda>p.
        ok_or (try_narrow (drop_bit SCALE_OFFSET p)) TypeCastFailed))))))"

section \<open>The loop that the blocks unroll\<close>

text \<open>
  The pseudo-code of the comment in \<^verbatim>\<open>pow\<close>: \<^verbatim>\<open>while exponential > 0\<close>, multiply on an odd
  exponent, square, shift.
\<close>

fun pow_loop :: "nat \<Rightarrow> u128 \<Rightarrow> u128 \<Rightarrow> u128 option" where
  "pow_loop e base res =
     (if e = 0 then Some res
      else case (if odd e then mul_scaled res base else Some res) of
        None \<Rightarrow> None
      | Some res' \<Rightarrow>
          (case mul_scaled base base of
             None \<Rightarrow> None
           | Some base' \<Rightarrow> pow_loop (e div 2) base' res'))"

declare pow_loop.simps [simp del]

text \<open>A base below one and a result of at most one stay so, and nothing overflows.\<close>

lemma mul_scaled_small:
  assumes "unat x \<le> 2 ^ 64" and "unat y < 2 ^ 64"
  shows "\<exists>z. mul_scaled x y = Some z \<and> unat z = unat x * unat y div 2 ^ 64 \<and>
    unat z \<le> unat y \<and> unat z \<le> unat x"
proof -
  have "unat x * unat y \<le> 2 ^ 64 * unat y" using assms(1) by simp
  also have "\<dots> < 2 ^ 128" using assms(2) by simp
  finally have lt: "unat x * unat y < 2 ^ LENGTH(128)" by simp
  then have m: "checked_mul x y = Some (x * y)" and u: "unat (x * y) = unat x * unat y"
    by (simp_all add: checked_mul_def unat_mult_lem [THEN iffD1])
  have "unat x * unat y div 2 ^ 64 \<le> 2 ^ 64 * unat y div 2 ^ 64"
    using assms(1) by (intro div_le_mono mult_right_mono) simp_all
  moreover have "unat x * unat y div 2 ^ 64 \<le> unat x * 2 ^ 64 div 2 ^ 64"
    using assms(2) by (intro div_le_mono mult_left_mono) simp_all
  ultimately show ?thesis
    by (intro exI [of _ "drop_bit 64 (x * y)"])
      (simp add: mul_scaled_def SCALE_OFFSET_def m u unat_drop_bit)
qed

lemma and_mask_bit: "0 < and exp (push_bit i 1) \<longleftrightarrow> bit exp i" for exp :: u32
  by (simp add: bit_iff_and_push_bit_not_eq_0 word_greater_zero_iff)

lemma pow_bit_eq: "pow_bit exp (push_bit i 1) b r = (if bit exp i then mul_scaled r b else Some r)"
  by (simp only: pow_bit_def and_mask_bit)

lemma pow_masks_eq: "pow_masks = map (\<lambda>i. push_bit i 1) [1..<19]"
  by (simp add: pow_masks_def upt_rec)

lemma bit_odd: "bit exp j \<longleftrightarrow> odd (unat exp div 2 ^ j)" for exp :: u32
  by (simp add: bit_unsigned_iff flip: bit_iff_odd)

fun qpow :: "nat \<Rightarrow> nat \<Rightarrow> nat \<Rightarrow> nat" where
  "qpow e b r =
     (if e = 0 then r
      else qpow (e div 2) (b * b div 2 ^ 64) (if odd e then r * b div 2 ^ 64 else r))"

declare qpow.simps [simp del]

lemma pow_loop_qpow:
  assumes "unat b < 2 ^ 64" and "unat r \<le> 2 ^ 64"
  obtains z where "pow_loop e b r = Some z" and "unat z = qpow e (unat b) (unat r)"
proof -
  have "\<exists>z. pow_loop e b r = Some z \<and> unat z = qpow e (unat b) (unat r)"
    using assms
  proof (induction e b r rule: pow_loop.induct)
    case (1 e b r)
    show ?case
    proof (cases "e = 0")
      case True
      then show ?thesis by (simp add: pow_loop.simps qpow.simps)
    next
      case False
      obtain b' where b': "mul_scaled b b = Some b'" "unat b' = unat b * unat b div 2 ^ 64"
        "unat b' < 2 ^ 64"
        using mul_scaled_small [OF less_imp_le [OF 1(2)] 1(2)] 1(2) by auto
      obtain r' where r': "(if odd e then mul_scaled r b else Some r) = Some r'"
        "unat r' = (if odd e then unat r * unat b div 2 ^ 64 else unat r)" "unat r' \<le> 2 ^ 64"
      proof (cases "odd e")
        case True
        obtain w where "mul_scaled r b = Some w" "unat w = unat r * unat b div 2 ^ 64"
          "unat w \<le> unat r"
          using mul_scaled_small [OF 1(3,2)] by blast
        then show thesis using that [of w] True 1(3) by simp
      next
        case F: False
        then show thesis using that [of r] 1(3) by simp
      qed
      obtain z where "pow_loop (e div 2) b' r' = Some z"
        and "unat z = qpow (e div 2) (unat b') (unat r')"
        using 1(1) [OF False r'(1) b'(1) b'(3) r'(3)] by blast
      then show ?thesis
        by (simp add: pow_loop.simps [of e] qpow.simps [of e] False r'(1,2) b'(1,2))
    qed
  qed
  with that show thesis by blast
qed

lemma pow_blocks_qpow:
  assumes "unat exp < 2 ^ 19" and "1 \<le> j" and "j \<le> 19"
    and "unat b < 2 ^ 64" and "unat r \<le> 2 ^ 64"
  shows "\<exists>z. pow_blocks exp (map (\<lambda>i. push_bit i 1) [j..<19]) b r = Some z \<and>
    unat z = qpow (unat exp div 2 ^ j) (unat b * unat b div 2 ^ 64) (unat r)"
  using assms(3,2,4,5)
proof (induction j arbitrary: b r rule: inc_induct)
  case base
  then show ?case using assms(1) by (simp add: qpow.simps)
next
  case (step j)
  obtain b' where b': "mul_scaled b b = Some b'" "unat b' = unat b * unat b div 2 ^ 64"
    "unat b' < 2 ^ 64"
    using mul_scaled_small [OF less_imp_le [OF step.prems(2)] step.prems(2)] step.prems(2) by auto
  obtain r' where r': "pow_bit exp (push_bit j 1) b' r = Some r'"
    "unat r' = (if bit exp j then unat r * unat b' div 2 ^ 64 else unat r)" "unat r' \<le> 2 ^ 64"
  proof (cases "bit exp j")
    case True
    obtain w where "mul_scaled r b' = Some w" "unat w = unat r * unat b' div 2 ^ 64"
      "unat w \<le> unat r"
      using mul_scaled_small [OF step.prems(3) b'(3)] by blast
    then show thesis using that [of w] True step.prems(3) by (simp only: pow_bit_eq if_True)
  next
    case F: False
    then show thesis using that [of r] step.prems(3) by (simp only: pow_bit_eq if_False)
  qed
  obtain z where z: "pow_blocks exp (map (\<lambda>i. push_bit i 1) [Suc j..<19]) b' r' = Some z"
    "unat z = qpow (unat exp div 2 ^ Suc j) (unat b' * unat b' div 2 ^ 64) (unat r')"
    using step.IH [OF _ b'(3) r'(3)] by auto
  have up: "[j..<19] = j # [Suc j..<19]" using step.hyps by (simp add: upt_conv_Cons)
  have "qpow (unat exp div 2 ^ j) (unat b') (unat r) =
    qpow (unat exp div 2 ^ Suc j) (unat b' * unat b' div 2 ^ 64) (unat r')"
  proof (cases "unat exp div 2 ^ j = 0")
    case True
    then have "unat exp div 2 ^ Suc j = 0" and "\<not> bit exp j"
      by (simp_all add: bit_odd div_mult2_eq mult.commute [of 2])
    with True show ?thesis by (simp add: qpow.simps [of 0] r'(2))
  next
    case False
    then show ?thesis
      by (subst qpow.simps) (simp add: r'(2) bit_odd div_mult2_eq mult.commute [of 2])
  qed
  with z(2) have "unat z = qpow (unat exp div 2 ^ j) (unat b * unat b div 2 ^ 64) (unat r)"
    by (simp only: b'(2))
  with z(1) show ?case
    unfolding up list.map pow_blocks.simps b'(1) option.case r'(1) by blast
qed

lemma qpow_upper: "qpow e b r * (2 ^ 64) ^ e \<le> r * b ^ e"
proof (induction e b r rule: qpow.induct)
  case (1 e b r)
  let ?S = "2 ^ 64 :: nat"
  show ?case
  proof (cases "e = 0")
    case True
    then show ?thesis by (simp add: qpow.simps)
  next
    case False
    define q where "q = e div 2"
    define b' where "b' = b * b div ?S"
    define r' where "r' = (if odd e then r * b div ?S else r)"
    have IH: "qpow q b' r' * ?S ^ q \<le> r' * b' ^ q"
      using 1 [OF False] by (simp only: q_def b'_def r'_def)
    have unf: "qpow e b r = qpow q b' r'"
      using False by (subst qpow.simps) (simp add: q_def b'_def r'_def)
    have b2: "b' * ?S \<le> b * b" unfolding b'_def by (rule div_mult_le_self)
    have "qpow q b' r' * ?S ^ q * ?S ^ q \<le> r' * b' ^ q * ?S ^ q"
      using IH by (rule mult_right_mono) simp
    also have "\<dots> = r' * (b' * ?S) ^ q" by (simp add: power_mult_distrib)
    also have "\<dots> \<le> r' * (b * b) ^ q" using b2 by (intro mult_left_mono power_mono) simp_all
    finally have half: "qpow q b' r' * ?S ^ (2 * q) \<le> r' * b ^ (2 * q)"
      by (simp only: power_add mult_2 power_mult_distrib mult.assoc)
    show ?thesis
    proof (cases "odd e")
      case True
      then have e: "e = Suc (2 * q)" by (simp add: q_def)
      have rs: "r' * ?S \<le> r * b" using True by (simp add: r'_def div_mult_le_self)
      have "qpow e b r * ?S ^ e = qpow q b' r' * ?S ^ (2 * q) * ?S"
        unfolding unf by (simp only: e power_Suc mult_ac)
      also have "\<dots> \<le> r' * b ^ (2 * q) * ?S" using half by (rule mult_right_mono) simp
      also have "\<dots> = r' * ?S * b ^ (2 * q)" by (simp only: mult_ac)
      also have "\<dots> \<le> r * b * b ^ (2 * q)" using rs by (rule mult_right_mono) simp
      also have "\<dots> = r * b ^ e" by (simp only: e power_Suc mult_ac)
      finally show ?thesis .
    next
      case F: False
      then have e: "e = 2 * q" by (simp add: q_def)
      have r: "r' = r" using F by (simp add: r'_def)
      have "qpow e b r * ?S ^ e = qpow q b' r' * ?S ^ (2 * q)" unfolding unf by (simp only: e)
      also have "\<dots> \<le> r * b ^ e" using half by (simp only: r e)
      finally show ?thesis .
    qed
  qed
qed

text \<open>Below one, for an exponent in range, \<open>pow\<close> is its loop and fails only when that is zero.\<close>

lemma pow_below_one:
  assumes b: "unat base < 2 ^ 64" and e: "0 < n" "n < 2 ^ 19"
  obtains z where "pow_loop n base ONE_Q64 = Some z" and "unat z = qpow n (unat base) (2 ^ 64)"
    and "pow base (of_nat n) = (if z = 0 then None else Some z)"
proof -
  let ?e = "of_nat n :: 32 word"
  have ue: "unat ?e = n" using e by (intro unat_of_nat_small) simp
  have "sint ?e = int n" using e by (simp add: sint_uint uint_nat ue signed_take_bit_int_eq_self)
  then have s: "\<not> sint ?e < 0" "sint ?e \<noteq> - (2 ^ 31)" by simp_all
  have e0: "?e \<noteq> 0" using ue e by (metis unat_0 less_irrefl)
  have lim: "\<not> MAX_EXPONENTIAL \<le> ?e" using e by (simp add: word_le_unat ue MAX_EXPONENTIAL_def)
  have one: "unat ONE_Q64 = 2 ^ 64" by (simp add: ONE_Q64_def)
  have fl: "\<not> ONE_Q64 \<le> base" using b by (simp add: word_le_unat one)
  obtain z where z: "pow_loop n base ONE_Q64 = Some z" "unat z = qpow n (unat base) (2 ^ 64)"
    using pow_loop_qpow [OF b, of ONE_Q64] one by (metis order_refl)
  have one_bit: "0 < and ?e 1 \<longleftrightarrow> odd n"
    using and_mask_bit [of ?e 0] bit_odd [of ?e 0] by (simp add: ue)
  obtain r0 where r0: "pow_bit ?e 0x1 base ONE_Q64 = Some r0"
    "unat r0 = (if odd n then 2 ^ 64 * unat base div 2 ^ 64 else 2 ^ 64)" "unat r0 \<le> 2 ^ 64"
  proof (cases "odd n")
    case True
    have "mul_scaled ONE_Q64 base = Some base"
      using mul_scaled_small [of ONE_Q64 base] b one by (auto intro: word_eqI_unat)
    then show thesis using that [of base] True b by (simp add: pow_bit_def one_bit)
  next
    case False
    then show thesis using that [of ONE_Q64] by (simp add: pow_bit_def one_bit one)
  qed
  obtain y where y: "pow_blocks ?e pow_masks base r0 = Some y"
    "unat y = qpow (n div 2) (unat base * unat base div 2 ^ 64) (unat r0)"
    using pow_blocks_qpow [of ?e 1 base r0] e b r0(3) by (auto simp: ue pow_masks_eq)
  have "unat y = unat z"
    using e by (simp add: y(2) z(2) r0(2) qpow.simps [of n])
  then have "y = z" by (rule word_eqI_unat)
  with y(1) have "pow base ?e = (if z = 0 then None else Some z)"
    using s e0 lim fl r0(1) by (simp add: pow_def Let_def)
  with z show thesis by (rule that)
qed

text \<open>
  The fee of the exponential scheduler is the cliff fee times a fixed-point power of
  \<open>1 - reduction_factor / 10000\<close> that is rounded down at every step.
\<close>

lemma get_fee_in_period_Ok:
  assumes "get_fee_in_period cliff rf n = Ok fee" and "rf \<noteq> 0" and "0 < unat n"
  defines "b \<equiv> 2 ^ 64 - unat rf * 2 ^ 64 div 10000"
  shows "unat fee = qpow (unat n) b (2 ^ 64) * unat cliff div 2 ^ 64"
proof -
  have rf: "0 < unat rf" using assms(2) by (simp add: unat_gt_0)
  define s where "s = push_bit 64 (ucast rf :: u128)"
  have "unat rf * 2 ^ 64 < 2 ^ LENGTH(128)"
    using unat_less_pow [of rf] by simp
  then have us: "unat s = unat rf * 2 ^ 64"
    unfolding s_def using unat_push_bit [of "ucast rf :: u128" 64] by simp
  have s: "safe_shl (ucast rf :: u128) SCALE_OFFSET = Ok s"
    by (simp add: safe_shl_def checked_shl_def SCALE_OFFSET_def s_def)
  obtain bps base res p where w: "safe_div s (ucast MAX_BASIS_POINT) = Ok bps"
    "safe_sub ONE_Q64 bps = Ok base" "pow base (ucast n) = Some res"
    "safe_mul res (ucast cliff) = Ok p" "try_narrow (drop_bit SCALE_OFFSET p) = Some fee"
    using assms(1,2) s by (auto simp: get_fee_in_period_def rbind_Ok_iff ok_or_Ok_iff)
  have ubps: "unat bps = unat rf * 2 ^ 64 div 10000"
    using w(1) by (simp add: ok_iffs us MAX_BASIS_POINT_def)
  have base: "unat base = b" "b + unat bps = 2 ^ 64"
    using w(2) by (simp_all add: ok_iffs ONE_Q64_def ubps b_def)
  have "0 < unat bps" using rf by (simp add: ubps)
  then have lt: "unat base < 2 ^ 64" using base by linarith
  have n: "unat n < 2 ^ 19" using unat_bounds(2) [of n] by simp
  have c: "(ucast n :: 32 word) = of_nat (unat n)"
    by (rule word_eqI_unat) (use n in \<open>simp add: unat_of_nat_small\<close>)
  obtain z where z: "unat z = qpow (unat n) (unat base) (2 ^ 64)"
    "pow base (of_nat (unat n)) = (if z = 0 then None else Some z)"
    using pow_below_one [OF lt assms(3) n] by blast
  have "unat res = qpow (unat n) b (2 ^ 64)"
    using w(3) z unfolding c base(1) by (simp split: if_splits)
  then show ?thesis
    using w(4,5) by (simp add: ok_iffs SCALE_OFFSET_def unat_drop_bit)
qed

lemma qpow_le: "b \<le> 2 ^ 64 \<Longrightarrow> qpow e b r \<le> r"
proof -
  assume b: "b \<le> 2 ^ 64"
  have "qpow e b r * (2 ^ 64) ^ e \<le> r * b ^ e" by (rule qpow_upper)
  also have "\<dots> \<le> r * (2 ^ 64) ^ e" using b by (intro mult_left_mono power_mono) simp_all
  finally show ?thesis by simp
qed

lemma get_fee_in_period_upper:
  assumes "get_fee_in_period cliff rf n = Ok fee" and "rf \<noteq> 0" and "0 < unat n"
  shows "unat fee * (2 ^ 64) ^ unat n \<le> unat cliff * (2 ^ 64 - unat rf * 2 ^ 64 div 10000) ^ unat n"
proof -
  define b where "b = 2 ^ 64 - unat rf * 2 ^ 64 div 10000"
  define S :: nat where "S = 2 ^ 64"
  define q where "q = qpow (unat n) b S"
  have "unat fee = q * unat cliff div S"
    using get_fee_in_period_Ok [OF assms] by (simp only: b_def S_def q_def)
  then have f: "unat fee * S \<le> q * unat cliff" by (simp add: div_mult_le_self)
  have q: "q * S ^ unat n \<le> S * b ^ unat n" unfolding q_def S_def by (rule qpow_upper)
  have "unat fee * S ^ unat n * S = unat fee * S * S ^ unat n" by (simp only: mult_ac)
  also have "\<dots> \<le> q * unat cliff * S ^ unat n" using f by (rule mult_right_mono) simp
  also have "\<dots> = q * S ^ unat n * unat cliff" by (simp only: mult_ac)
  also have "\<dots> \<le> S * b ^ unat n * unat cliff" using q by (rule mult_right_mono) simp
  also have "\<dots> = unat cliff * b ^ unat n * S" by (simp only: mult_ac)
  finally have "unat fee * S ^ unat n \<le> unat cliff * b ^ unat n"
    by (rule mult_right_le_imp_le) (simp add: S_def)
  then show ?thesis by (simp only: b_def S_def)
qed

lemma get_fee_in_period_le_cliff:
  assumes "get_fee_in_period cliff rf n = Ok fee"
  shows "unat fee \<le> unat cliff"
proof (cases "rf = 0 \<or> unat n = 0")
  case True
  show ?thesis
  proof (cases "rf = 0")
    case T: True
    with assms show ?thesis by (simp add: get_fee_in_period_def)
  next
    case False
    with True have "n = 0" by (simp add: unat_eq_zero)
    moreover have "pow base 0 = Some (push_bit 64 1)" for base by (simp add: pow_def)
    ultimately show ?thesis using assms False
      by (auto simp: get_fee_in_period_def ok_iffs SCALE_OFFSET_def unat_drop_bit)
  qed
next
  case False
  then have "unat fee = qpow (unat n) (2 ^ 64 - unat rf * 2 ^ 64 div 10000) (2 ^ 64) * unat cliff div 2 ^ 64"
    using get_fee_in_period_Ok [OF assms] by simp
  also have "\<dots> \<le> 2 ^ 64 * unat cliff div 2 ^ 64"
    by (intro div_le_mono mult_right_mono qpow_le) simp_all
  finally show ?thesis by simp
qed

end
