(* ===== verification/Activation.thy ===== *)
theory Activation
  imports Amm_Constants
begin

text \<open>
  When a pool trades: activation types, points and durations (\<^verbatim>\<open>utils/activation_handler.rs\<close>,
  \<^verbatim>\<open>params/activation.rs\<close>, the timing constraints of \<^verbatim>\<open>state/config.rs\<close>). The clock of the
  runtime is an argument; its timestamp is an \<^verbatim>\<open>i64\<close>, kept as its 64 bits, as \<^verbatim>\<open>as u64\<close> reads it.
\<close>

datatype activation_type = Slot | Timestamp

record clock =
  slot :: u64
  unix_timestamp :: u64
  epoch :: u64

fun activation_type_of_u8 :: "u8 \<Rightarrow> activation_type option" where
  "activation_type_of_u8 n = (if n = 0 then Some Slot else if n = 1 then Some Timestamp else None)"

section \<open>The activation handler\<close>

record activation_handler =
  curr_point :: u64
  ah_activation_point :: u64
  buffer_duration :: u64
  ah_whitelisted_vault :: pubkey

definition get_current_point :: "clock \<Rightarrow> u8 \<Rightarrow> u64 result" where
  "get_current_point clk activation_type =
     rbind (ok_or (activation_type_of_u8 activation_type) InvalidActivationType) (\<lambda>t.
     Ok (case t of Slot \<Rightarrow> slot clk | Timestamp \<Rightarrow> unix_timestamp clk))"

definition get_current_point_and_max_vesting_duration :: "clock \<Rightarrow> u8 \<Rightarrow> (u64 \<times> u64) result" where
  "get_current_point_and_max_vesting_duration clk activation_type =
     rbind (ok_or (activation_type_of_u8 activation_type) InvalidActivationType) (\<lambda>t.
     Ok (case t of
           Slot \<Rightarrow> (slot clk, MAX_VESTING_SLOT_DURATION)
         | Timestamp \<Rightarrow> (unix_timestamp clk, MAX_VESTING_TIME_DURATION)))"

definition get_current_point_and_buffer_duration :: "clock \<Rightarrow> u8 \<Rightarrow> (u64 \<times> u64) result" where
  "get_current_point_and_buffer_duration clk activation_type =
     rbind (ok_or (activation_type_of_u8 activation_type) InvalidActivationType) (\<lambda>t.
     Ok (case t of
           Slot \<Rightarrow> (slot clk, SLOT_BUFFER)
         | Timestamp \<Rightarrow> (unix_timestamp clk, TIME_BUFFER)))"

definition get_max_activation_point :: "clock \<Rightarrow> u8 \<Rightarrow> u64 result" where
  "get_max_activation_point clk activation_type =
     rbind (ok_or (activation_type_of_u8 activation_type) InvalidActivationType) (\<lambda>t.
     let (curr, max_activation_duration) =
       (case t of
          Slot \<Rightarrow> (slot clk, MAX_ACTIVATION_SLOT_DURATION)
        | Timestamp \<Rightarrow> (unix_timestamp clk, MAX_ACTIVATION_TIME_DURATION))
     in safe_add curr max_activation_duration)"

definition get_pre_activation_start_point :: "activation_handler \<Rightarrow> u64 result" where
  "get_pre_activation_start_point self = safe_sub (ah_activation_point self) (buffer_duration self)"

definition get_last_join_point :: "activation_handler \<Rightarrow> u64 result" where
  "get_last_join_point self =
     rbind (get_pre_activation_start_point self) (\<lambda>start.
     rbind (safe_div (buffer_duration self) 12) (\<lambda>five_minutes.
     safe_sub start five_minutes))"

section \<open>Timing constraints\<close>

record timing_constraint =
  tc_current_point :: u64
  min_activation_duration :: u64
  max_activation_duration :: u64
  pre_activation_swap_duration :: u64
  last_join_buffer :: u64
  max_fee_curve_duration :: u64
  max_high_tax_duration :: u64

definition get_timing_constraint_by_activation_type ::
  "activation_type \<Rightarrow> clock \<Rightarrow> timing_constraint" where
  "get_timing_constraint_by_activation_type t clk =
     (case t of
        Slot \<Rightarrow>
          \<lparr> tc_current_point = slot clk,
            min_activation_duration = SLOT_BUFFER,
            max_activation_duration = MAX_ACTIVATION_SLOT_DURATION,
            pre_activation_swap_duration = SLOT_BUFFER,
            last_join_buffer = FIVE_MINUTES_SLOT_BUFFER,
            max_fee_curve_duration = MAX_FEE_CURVE_SLOT_DURATION,
            max_high_tax_duration = MAX_HIGH_TAX_SLOT_DURATION \<rparr>
      | Timestamp \<Rightarrow>
          \<lparr> tc_current_point = unix_timestamp clk,
            min_activation_duration = TIME_BUFFER,
            max_activation_duration = MAX_ACTIVATION_TIME_DURATION,
            pre_activation_swap_duration = TIME_BUFFER,
            last_join_buffer = FIVE_MINUTES_TIME_BUFFER,
            max_fee_curve_duration = MAX_FEE_CURVE_TIME_DURATION,
            max_high_tax_duration = MAX_HIGH_TAX_TIME_DURATION \<rparr>)"

definition get_max_activation_point_from_current_time :: "timing_constraint \<Rightarrow> u64 result" where
  "get_max_activation_point_from_current_time self =
     safe_add (tc_current_point self) (max_activation_duration self)"

section \<open>Activation parameters\<close>

record activation_params =
  ap_activation_point :: "u64 option"
  ap_has_alpha_vault :: bool
  ap_activation_type :: u8

definition activation_params_validate :: "clock \<Rightarrow> activation_params \<Rightarrow> unit result" where
  "activation_params_validate clk self =
     rbind (ok_or (activation_type_of_u8 (ap_activation_type self)) InvalidActivationType) (\<lambda>t.
     let tc = get_timing_constraint_by_activation_type t clk in
     if ap_has_alpha_vault self then
       (case ap_activation_point self of
          Some activation_point \<Rightarrow>
            require (tc_current_point tc < activation_point) InvalidActivationPoint
              (rbind (safe_sub activation_point (tc_current_point tc)) (\<lambda>activation_duration.
               require (min_activation_duration tc \<le> activation_duration \<and>
                        activation_duration \<le> max_activation_duration tc) InvalidActivationPoint
                (rbind (get_last_join_point
                    \<lparr> curr_point = tc_current_point tc,
                      ah_activation_point = activation_point,
                      buffer_duration = pre_activation_swap_duration tc,
                      ah_whitelisted_vault = 0 \<rparr>) (\<lambda>last_join_point.
                 rbind (safe_sub last_join_point (last_join_buffer tc)) (\<lambda>pre_last_join_point.
                 require (tc_current_point tc \<le> pre_last_join_point) InvalidActivationPoint (Ok ()))))))
        | None \<Rightarrow> Err InvalidActivationPoint)
     else
       (case ap_activation_point self of
          Some activation_point \<Rightarrow>
            if \<not> tc_current_point tc \<le> activation_point then Err InvalidActivationPoint
            else rbind (safe_add (tc_current_point tc) (max_activation_duration tc)) (\<lambda>latest.
              require (activation_point \<le> latest) InvalidActivationPoint (Ok ()))
        | None \<Rightarrow> Ok ()))"

text \<open>
  What an accepted activation point guarantees: it lies within the longest waiting time, and with
  an alpha vault there is time left to join the vault before trading starts.
\<close>

lemma activation_params_validate_bounds:
  assumes "activation_params_validate clk p = Ok ()" and "ap_activation_point p = Some ap"
    and "activation_type_of_u8 (ap_activation_type p) = Some t"
  defines "tc \<equiv> get_timing_constraint_by_activation_type t clk"
  shows "unat (tc_current_point tc) \<le> unat ap"
    and "unat ap \<le> unat (tc_current_point tc) + unat (max_activation_duration tc)"
    and "ap_has_alpha_vault p \<Longrightarrow>
      unat (tc_current_point tc) + unat (last_join_buffer tc) +
        unat (pre_activation_swap_duration tc) div 12 + unat (pre_activation_swap_duration tc)
      \<le> unat ap"
proof -
  have v: "activation_params_validate clk p = Ok ()" by (rule assms(1))
  show "unat (tc_current_point tc) \<le> unat ap"
    using v assms(2,3)
    by (cases "ap_has_alpha_vault p")
      (auto simp: activation_params_validate_def Let_def ok_iffs word_to_nat tc_def)
  show "unat ap \<le> unat (tc_current_point tc) + unat (max_activation_duration tc)"
    using v assms(2,3)
    by (cases "ap_has_alpha_vault p")
      (auto simp: activation_params_validate_def Let_def ok_iffs word_to_nat tc_def)
  show "ap_has_alpha_vault p \<Longrightarrow>
      unat (tc_current_point tc) + unat (last_join_buffer tc) +
        unat (pre_activation_swap_duration tc) div 12 + unat (pre_activation_swap_duration tc)
      \<le> unat ap"
    using v assms(2,3)
    by (auto simp: activation_params_validate_def Let_def ok_iffs word_to_nat tc_def
        get_last_join_point_def get_pre_activation_start_point_def)
qed

end
