(* ===== verification/Base_Fee_Handler.thy ===== *)
theory Base_Fee_Handler
  imports Fee_Amounts Fee_Math Activation
begin

text \<open>
  What the three base-fee handlers share: the laws of the trait \<^verbatim>\<open>BaseFeeHandler\<close> of
  \<^verbatim>\<open>base_fee/mod.rs\<close> as a locale, and the step of a fee scheduler, which the time scheduler and the
  market-cap scheduler both write out.
\<close>

section \<open>The interface\<close>

text \<open>
  The arguments of the two fee functions: current point, activation point, direction, amount,
  initial and current square-root price.
\<close>

type_synonym 'h fee_fn =
  "'h \<Rightarrow> u64 \<Rightarrow> u64 \<Rightarrow> trade_direction \<Rightarrow> u64 \<Rightarrow> u128 \<Rightarrow> u128 \<Rightarrow> u64 result"

text \<open>
  The laws: the minimum is a lower bound of both fees, and a handler that validates has a minimum
  of at least \<^verbatim>\<open>MIN_FEE_NUMERATOR\<close>.
\<close>

locale base_fee_handler =
  fixes validate :: "'h \<Rightarrow> collect_fee_mode \<Rightarrow> activation_type \<Rightarrow> unit result"
    and from_included :: "'h fee_fn"
    and from_excluded :: "'h fee_fn"
    and get_min :: "'h \<Rightarrow> u64 result"
  assumes included_min: "validate h m t = Ok () \<Longrightarrow> get_min h = Ok mn \<Longrightarrow>
      from_included h cp ap d x p0 p = Ok fee \<Longrightarrow> unat mn \<le> unat fee"
    and excluded_min: "validate h m t = Ok () \<Longrightarrow> get_min h = Ok mn \<Longrightarrow>
      from_excluded h cp ap d x p0 p = Ok fee \<Longrightarrow> unat mn \<le> unat fee"
    and validate_min: "validate h m t = Ok () \<Longrightarrow>
      \<exists>mn. get_min h = Ok mn \<and> unat MIN_FEE_NUMERATOR \<le> unat mn"
begin

text \<open>Whoever swaps through a handler that validates pays at least the minimum fee.\<close>

lemma never_below_minimum:
  assumes "validate h m t = Ok ()"
    and "from_included h cp ap d x p0 p = Ok fee \<or> from_excluded h cp ap d x p0 p = Ok fee"
  shows "unat MIN_FEE_NUMERATOR \<le> unat fee"
proof -
  obtain mn where mn: "get_min h = Ok mn" "unat MIN_FEE_NUMERATOR \<le> unat mn"
    using validate_min [OF assms(1)] by blast
  have "unat mn \<le> unat fee"
    using assms(2) included_min [OF assms(1) mn(1)] excluded_min [OF assms(1) mn(1)] by blast
  with mn(2) show ?thesis by linarith
qed

end

section \<open>The exponential schedule falls with every period\<close>

lemma qpow_mono: "b \<le> b' \<Longrightarrow> r \<le> r' \<Longrightarrow> qpow e b r \<le> qpow e b' r'"
proof (induction e b r arbitrary: b' r' rule: qpow.induct)
  case (1 e b r)
  show ?case
  proof (cases "e = 0")
    case True
    then show ?thesis using 1(3) by (simp add: qpow.simps)
  next
    case False
    have m: "x * y div 2 ^ 64 \<le> x' * y' div 2 ^ 64" if "x \<le> x'" "y \<le> y'" for x x' y y' :: nat
      using that by (intro div_le_mono mult_le_mono)
    have "qpow (e div 2) (b * b div 2 ^ 64) (if odd e then r * b div 2 ^ 64 else r) \<le>
      qpow (e div 2) (b' * b' div 2 ^ 64) (if odd e then r' * b' div 2 ^ 64 else r')"
      using m [OF 1(2,2)] m [OF 1(3,2)] 1(3) by (intro 1(1) [OF False]) auto
    then show ?thesis using False by (simp only: qpow.simps [of e b] qpow.simps [of e b'] if_False)
  qed
qed

lemma qpow_Suc_le_aux:
  "b \<le> 2 ^ 64 \<Longrightarrow> b \<le> r' \<Longrightarrow> qpow (Suc e) b (2 ^ 64) \<le> qpow e b r'"
proof (induction e arbitrary: b r' rule: less_induct)
  case (less e)
  let ?S = "2 ^ 64 :: nat" and ?b2 = "b * b div 2 ^ 64" and ?q = "e div 2"
  have "b * b div ?S \<le> b * ?S div ?S" using less(2) by (intro div_le_mono mult_left_mono) simp_all
  then have b2: "?b2 \<le> b" by simp
  show ?case
  proof (cases "even e")
    case True
    have "qpow (Suc e) b ?S = qpow ?q ?b2 b"
      using True by (subst qpow.simps) simp
    also have "\<dots> \<le> qpow e b r'"
    proof (cases "e = 0")
      case T: True
      then show ?thesis using less(3) by (simp add: qpow.simps)
    next
      case False
      have "qpow ?q ?b2 b \<le> qpow ?q ?b2 r'" by (rule qpow_mono [OF le_refl less(3)])
      then show ?thesis using False True by (simp add: qpow.simps [of e b])
    qed
    finally show ?thesis .
  next
    case False
    have e: "e \<noteq> 0" "?q < e" using False by (auto intro!: div_less_dividend simp: odd_pos)
    have q: "Suc e div 2 = Suc ?q" using False by simp
    have "qpow (Suc e) b ?S = qpow (Suc ?q) ?b2 ?S"
      using False by (subst qpow.simps) (simp add: q)
    also have "\<dots> \<le> qpow ?q ?b2 (r' * b div ?S)"
    proof (rule less(1) [OF e(2)])
      show "?b2 \<le> ?S" using b2 less(2) by simp
      show "?b2 \<le> r' * b div ?S" using less(3) by (intro div_le_mono mult_right_mono) simp_all
    qed
    also have "\<dots> = qpow e b r'" using e False by (simp add: qpow.simps [of e b])
    finally show ?thesis .
  qed
qed

lemma qpow_antitone:
  assumes "b \<le> 2 ^ 64" and "k \<le> n"
  shows "qpow n b (2 ^ 64) \<le> qpow k b (2 ^ 64)"
  using assms(2)
proof (induction n rule: dec_induct)
  case (step n)
  have "qpow (Suc n) b (2 ^ 64) \<le> qpow n b (2 ^ 64)"
    by (rule qpow_Suc_le_aux) (use assms(1) in simp_all)
  with step show ?case by simp
qed simp

text \<open>
  When the last period has a fee, every earlier period has one, and it is at least as high: no
  point in time leaves the pool without a fee to charge.
\<close>

lemma get_fee_in_period_zero:
  assumes "get_fee_in_period cliff rf n = Ok fee" and "rf \<noteq> 0"
  shows "get_fee_in_period cliff rf 0 = Ok cliff"
proof -
  have p: "pow base 0 = Some (push_bit 64 1)" for base by (simp add: pow_def)
  have "unat (push_bit 64 1 :: u128) * unat (ucast cliff :: u128) < 2 ^ LENGTH(128)"
    using unat_less_pow [of cliff] by simp
  then have m: "safe_mul (push_bit 64 1) (ucast cliff :: u128) = Ok (push_bit 64 1 * ucast cliff)"
    and u: "unat (push_bit 64 1 * ucast cliff :: u128) = 2 ^ 64 * unat cliff"
    using unat_mult_lem [of "push_bit 64 1 :: u128" "ucast cliff"]
    by (simp_all add: safe_mul_def checked_mul_def)
  have d: "ok_or (try_narrow (drop_bit SCALE_OFFSET (push_bit 64 1 * ucast cliff :: u128)))
      TypeCastFailed = Ok cliff"
    by (simp only: ok_or_Ok_iff try_narrow_iff unat_drop_bit u SCALE_OFFSET_def) simp
  obtain s bps base where w: "safe_shl (ucast rf :: u128) SCALE_OFFSET = Ok s"
    "safe_div s (ucast MAX_BASIS_POINT) = Ok bps" "safe_sub ONE_Q64 bps = Ok base"
    using assms by (auto simp: get_fee_in_period_def rbind_Ok_iff)
  have "(ucast (0 :: u16) :: 32 word) = 0" by simp
  with w m d p show ?thesis using assms(2) by (simp add: get_fee_in_period_def)
qed

lemma get_fee_in_period_shorter:
  assumes g: "get_fee_in_period cliff rf n = Ok mn" and rf: "rf \<noteq> 0"
    and k: "0 < unat k" "unat k \<le> unat n"
  shows "\<exists>fee. get_fee_in_period cliff rf k = Ok fee \<and> unat mn \<le> unat fee"
proof -
  define b where "b = 2 ^ 64 - unat rf * 2 ^ 64 div 10000"
  have n0: "0 < unat n" using k by simp
  obtain s bps base z w where run: "safe_shl (ucast rf :: u128) SCALE_OFFSET = Ok s"
    "safe_div s (ucast MAX_BASIS_POINT) = Ok bps" "safe_sub ONE_Q64 bps = Ok base"
    "pow base (ucast n) = Some z" "safe_mul z (ucast cliff) = Ok w"
    using g rf by (auto simp: get_fee_in_period_def rbind_Ok_iff ok_or_Ok_iff)
  have s: "unat s = unat rf * 2 ^ 64"
  proof -
    have "unat rf * 2 ^ 64 < 2 ^ LENGTH(128)" using unat_less_pow [of rf] by simp
    then have "unat (push_bit 64 (ucast rf :: u128)) = unat rf * 2 ^ 64"
      using unat_push_bit [of "ucast rf :: u128" 64] by simp
    then show ?thesis using run(1) by (simp add: safe_shl_def checked_shl_def SCALE_OFFSET_def)
  qed
  have bps: "unat bps = unat rf * 2 ^ 64 div 10000"
    using run(2) by (simp add: ok_iffs s MAX_BASIS_POINT_def)
  have base: "unat base = b" "b + unat bps = 2 ^ 64"
    using run(3) by (simp_all add: ok_iffs ONE_Q64_def bps b_def)
  have "0 < unat rf" using rf by (simp add: unat_gt_0)
  then have "0 < unat bps" by (simp add: bps)
  then have lt: "unat base < 2 ^ 64" using base by linarith
  have pow_eq: "\<exists>v. unat v = qpow (unat j) b (2 ^ 64) \<and>
      pow base (ucast j) = (if v = 0 then None else Some v)" if "0 < unat j" for j :: u16
  proof -
    have j: "unat j < 2 ^ 19" using unat_bounds(2) [of j] by simp
    have c: "(ucast j :: 32 word) = of_nat (unat j)"
      by (rule word_eqI_unat) (use j in \<open>simp add: unat_of_nat_small\<close>)
    from pow_below_one [OF lt that j] show ?thesis unfolding c base(1) by metis
  qed
  obtain v where v: "unat v = qpow (unat k) b (2 ^ 64)"
    "pow base (ucast k) = (if v = 0 then None else Some v)" using pow_eq [OF k(1)] by blast
  have z: "unat z = qpow (unat n) b (2 ^ 64)" "0 < unat z"
    using pow_eq [OF n0] run(4) by (auto split: if_splits simp: unat_gt_0)
  have bl: "b \<le> 2 ^ 64" by (simp add: b_def)
  have zv: "unat z \<le> unat v" unfolding z v by (rule qpow_antitone [OF bl k(2)])
  then have "v \<noteq> 0" using z(2) by auto
  then have pk: "pow base (ucast k) = Some v" using v(2) by simp
  have v1: "unat v \<le> 2 ^ 64" unfolding v by (rule qpow_le [OF bl])
  have "unat v * unat cliff \<le> 2 ^ 64 * unat cliff" using v1 by (rule mult_right_mono) simp
  also have "\<dots> < 2 ^ 64 * 2 ^ 64" using unat_less_pow [of cliff] by simp
  finally have "unat v * unat (ucast cliff :: u128) < 2 ^ LENGTH(128)" by simp
  then have mul: "safe_mul v (ucast cliff) = Ok (v * ucast cliff)"
    and um: "unat (v * ucast cliff :: u128) = unat v * unat cliff"
    using unat_mult_lem [of v "ucast cliff"] by (simp_all add: safe_mul_def checked_mul_def)
  define f where "f = unat v * unat cliff div 2 ^ 64"
  have "f \<le> 2 ^ 64 * unat cliff div 2 ^ 64"
    unfolding f_def using v1 by (intro div_le_mono mult_right_mono) simp_all
  then have "f < 2 ^ LENGTH(64)" using unat_less_pow [of cliff] by simp
  then have uf: "unat (of_nat f :: u64) = f" by (rule unat_of_nat_small)
  have "ok_or (try_narrow (drop_bit SCALE_OFFSET (v * ucast cliff))) TypeCastFailed =
      Ok (of_nat f :: u64)"
    by (simp only: ok_or_Ok_iff try_narrow_iff unat_drop_bit um SCALE_OFFSET_def uf) (simp only: f_def)
  then have "get_fee_in_period cliff rf k = Ok (of_nat f)"
    using rf run(1,2,3) pk mul by (simp add: get_fee_in_period_def)
  moreover have "unat mn \<le> f"
    using get_fee_in_period_Ok [OF g rf n0] zv unfolding f_def z(1) b_def
    by (simp add: div_le_mono)
  ultimately show ?thesis using uf by auto
qed

lemma get_fee_in_period_antitone:
  assumes g: "get_fee_in_period cliff rf n = Ok mn" and k: "unat k \<le> unat n"
  shows "\<exists>fee. get_fee_in_period cliff rf k = Ok fee \<and> unat mn \<le> unat fee \<and> unat fee \<le> unat cliff"
proof -
  have le: "unat mn \<le> unat cliff" by (rule get_fee_in_period_le_cliff [OF g])
  have "\<exists>fee. get_fee_in_period cliff rf k = Ok fee \<and> unat mn \<le> unat fee"
  proof (cases "rf = 0 \<or> unat k = 0")
    case True
    show ?thesis
    proof (cases "rf = 0")
      case T: True
      then show ?thesis using g by (simp add: get_fee_in_period_def)
    next
      case False
      with True have "k = 0" by (simp add: unat_eq_zero)
      then show ?thesis using get_fee_in_period_zero [OF g False] le by simp
    qed
  next
    case False
    then show ?thesis using get_fee_in_period_shorter [OF g _ _ k] by simp
  qed
  then show ?thesis using get_fee_in_period_le_cliff by blast
qed

section \<open>One step of a schedule\<close>

text \<open>
  The \<^verbatim>\<open>match\<close> that both schedulers have in \<^verbatim>\<open>get_base_fee_numerator_by_period\<close>, after the period
  is capped.
\<close>

definition schedule_fee :: "bool \<Rightarrow> u64 \<Rightarrow> u64 \<Rightarrow> u64 \<Rightarrow> u64 result" where
  "schedule_fee linear cliff_fee_numerator reduction_factor period =
     (if linear then
        rbind (safe_mul reduction_factor period) (\<lambda>reduction.
        safe_sub cliff_fee_numerator reduction)
      else
        rbind (ok_or (try_narrow period) MathOverflow) (\<lambda>p.
        get_fee_in_period cliff_fee_numerator reduction_factor p))"

lemma schedule_fee_linear_iff:
  "schedule_fee True cliff rf k = Ok fee \<longleftrightarrow> unat cliff = unat fee + unat rf * unat k"
proof -
  have "(\<exists>x::u64. unat x = unat rf * unat k \<and> unat cliff = unat fee + unat x) \<longleftrightarrow>
    unat cliff = unat fee + unat rf * unat k"
  proof
    assume a: "unat cliff = unat fee + unat rf * unat k"
    then have "unat rf * unat k < 2 ^ LENGTH(64)" using unat_less_pow [of cliff] by linarith
    then have "unat (of_nat (unat rf * unat k) :: u64) = unat rf * unat k"
      by (rule unat_of_nat_small)
    with a show "\<exists>x::u64. unat x = unat rf * unat k \<and> unat cliff = unat fee + unat x"
      by (intro exI [of _ "of_nat (unat rf * unat k)"]) (simp only: simp_thms)
  qed auto
  then show ?thesis by (simp add: schedule_fee_def ok_iffs)
qed

lemma schedule_fee_antitone:
  assumes g: "schedule_fee l cliff rf n = Ok mn" and k: "unat k \<le> unat n"
  shows "\<exists>fee. schedule_fee l cliff rf k = Ok fee \<and> unat mn \<le> unat fee \<and> unat fee \<le> unat cliff"
proof (cases l)
  case True
  have c: "unat cliff = unat mn + unat rf * unat n"
    using g by (simp only: True schedule_fee_linear_iff)
  have le: "unat rf * unat k \<le> unat rf * unat n" using k by (rule mult_left_mono) simp
  define f where "f = unat cliff - unat rf * unat k"
  have "f < 2 ^ LENGTH(64)" using unat_less_pow [of cliff] unfolding f_def by linarith
  then have uf: "unat (of_nat f :: u64) = f" by (rule unat_of_nat_small)
  have "schedule_fee True cliff rf k = Ok (of_nat f)"
    unfolding schedule_fee_linear_iff uf using c le unfolding f_def by linarith
  moreover have "unat mn \<le> f" and "f \<le> unat cliff" using c le unfolding f_def by linarith+
  ultimately show ?thesis
    by (intro exI [of _ "of_nat f"] conjI) (simp_all only: uf True)
next
  case False
  obtain n' :: u16 where n': "unat n' = unat n" "get_fee_in_period cliff rf n' = Ok mn"
    using g False by (auto simp: schedule_fee_def ok_iffs)
  have lt: "unat k < 2 ^ LENGTH(16)" using k n'(1) unat_less_pow [of n'] by linarith
  define k' :: u16 where "k' = ucast k"
  have k': "unat k' = unat k" unfolding k'_def using lt by (rule unat_ucast_narrow)
  have t: "ok_or (try_narrow k) MathOverflow = Ok k'"
    by (simp add: ok_iffs k')
  obtain fee where "get_fee_in_period cliff rf k' = Ok fee" "unat mn \<le> unat fee"
    "unat fee \<le> unat cliff"
    using get_fee_in_period_antitone [OF n'(2), of k'] k k' n'(1) by auto
  then show ?thesis using False t by (simp add: schedule_fee_def)
qed

lemma schedule_fee_le_cliff:
  assumes "schedule_fee l cliff rf k = Ok fee"
  shows "unat fee \<le> unat cliff"
  using schedule_fee_antitone [OF assms, of k] assms by simp

end
