(* ===== verification/Time_Scheduler.thy ===== *)
theory Time_Scheduler
  imports Base_Fee_Handler
begin

text \<open>
  \<^verbatim>\<open>base_fee/fee_time_scheduler.rs\<close>: the base fee falls with the time since activation. The record
  is the layout in the pool account, less its padding.
\<close>

record time_scheduler =
  ts_cliff_fee_numerator :: u64
  ts_base_fee_mode :: u8
  ts_number_of_period :: u16
  ts_period_frequency :: u64
  ts_reduction_factor :: u64

definition ts_get_max_base_fee_numerator :: "time_scheduler \<Rightarrow> u64" where
  "ts_get_max_base_fee_numerator self = ts_cliff_fee_numerator self"

definition ts_get_base_fee_numerator_by_period :: "time_scheduler \<Rightarrow> u64 \<Rightarrow> u64 result" where
  "ts_get_base_fee_numerator_by_period self period0 =
     (let period = min period0 (ucast (ts_number_of_period self)) in
      rbind (ok_or (base_fee_mode_of_u8 (ts_base_fee_mode self)) TypeCastFailed) (\<lambda>mode.
      case mode of
        FeeTimeSchedulerLinear \<Rightarrow>
          schedule_fee True (ts_cliff_fee_numerator self) (ts_reduction_factor self) period
      | FeeTimeSchedulerExponential \<Rightarrow>
          schedule_fee False (ts_cliff_fee_numerator self) (ts_reduction_factor self) period
      | _ \<Rightarrow> Err UndeterminedError))"

definition ts_get_base_fee_numerator :: "time_scheduler \<Rightarrow> u64 \<Rightarrow> u64 \<Rightarrow> u64 result" where
  "ts_get_base_fee_numerator self current_point activation_point =
     (if ts_period_frequency self = 0 then Ok (ts_cliff_fee_numerator self)
      else
        rbind (if current_point < activation_point then Ok (ucast (ts_number_of_period self))
               else
                 rbind (safe_sub current_point activation_point) (\<lambda>elapsed.
                 rbind (safe_div elapsed (ts_period_frequency self)) (\<lambda>period.
                 Ok (min period (ucast (ts_number_of_period self)))))) (\<lambda>period.
        ts_get_base_fee_numerator_by_period self period))"

definition ts_get_min_base_fee_numerator :: "time_scheduler \<Rightarrow> u64 result" where
  "ts_get_min_base_fee_numerator self =
     ts_get_base_fee_numerator_by_period self (ucast (ts_number_of_period self))"

definition ts_validate ::
  "time_scheduler \<Rightarrow> collect_fee_mode \<Rightarrow> activation_type \<Rightarrow> unit result" where
  "ts_validate self collect_fee_mode activation_type =
     require (\<not> (ts_period_frequency self \<noteq> 0 \<or> ts_number_of_period self \<noteq> 0 \<or>
                 ts_reduction_factor self \<noteq> 0) \<or>
              ts_number_of_period self \<noteq> 0 \<and> ts_period_frequency self \<noteq> 0 \<and>
              ts_reduction_factor self \<noteq> 0) InvalidFeeTimeScheduler
       (rbind (ts_get_min_base_fee_numerator self) (\<lambda>min_fee_numerator.
        let max_fee_numerator = ts_get_max_base_fee_numerator self in
        rbind (validate_fee_fraction min_fee_numerator FEE_DENOMINATOR) (\<lambda>_.
        rbind (validate_fee_fraction max_fee_numerator FEE_DENOMINATOR) (\<lambda>_.
        if \<not> MIN_FEE_NUMERATOR \<le> min_fee_numerator then Err ExceedMaxFeeBps
        else rbind (get_max_fee_numerator CURRENT_POOL_VERSION) (\<lambda>max_allowed.
        require (max_fee_numerator \<le> max_allowed) ExceedMaxFeeBps (Ok ()))))))"

definition ts_from_included :: "time_scheduler fee_fn" where
  "ts_from_included self current_point activation_point trade_direction included_fee_amount
     init_sqrt_price current_sqrt_price =
     ts_get_base_fee_numerator self current_point activation_point"

definition ts_from_excluded :: "time_scheduler fee_fn" where
  "ts_from_excluded self current_point activation_point trade_direction excluded_fee_amount
     init_sqrt_price current_sqrt_price =
     ts_get_base_fee_numerator self current_point activation_point"

definition ts_validate_base_fee_is_static :: "time_scheduler \<Rightarrow> u64 \<Rightarrow> u64 \<Rightarrow> bool result" where
  "ts_validate_base_fee_is_static self current_point activation_point =
     rbind (safe_mul (ucast (ts_number_of_period self) :: u128) (ucast (ts_period_frequency self)))
       (\<lambda>duration.
     rbind (safe_add (ucast activation_point) duration) (\<lambda>scheduler_expiration_point.
     Ok (scheduler_expiration_point < ucast current_point)))"

section \<open>The schedule\<close>

lemma ts_by_period_mode:
  assumes "ts_get_base_fee_numerator_by_period h k = Ok fee"
  obtains l where "\<And>j. ts_get_base_fee_numerator_by_period h j =
    schedule_fee l (ts_cliff_fee_numerator h) (ts_reduction_factor h)
      (min j (ucast (ts_number_of_period h)))"
proof -
  obtain mode where m: "base_fee_mode_of_u8 (ts_base_fee_mode h) = Some mode"
    using assms
    by (auto simp: ts_get_base_fee_numerator_by_period_def Let_def rbind_Ok_iff ok_or_Ok_iff)
  show thesis
  proof (cases mode)
    case FeeTimeSchedulerLinear
    then show thesis using m that [of True]
      by (simp add: ts_get_base_fee_numerator_by_period_def Let_def)
  next
    case FeeTimeSchedulerExponential
    then show thesis using m that [of False]
      by (simp add: ts_get_base_fee_numerator_by_period_def Let_def)
  qed (use assms m in \<open>simp_all add: ts_get_base_fee_numerator_by_period_def Let_def\<close>)
qed

lemma ts_by_period_antitone:
  assumes "ts_get_base_fee_numerator_by_period h n = Ok mn" and "unat k \<le> unat n"
  shows "\<exists>fee. ts_get_base_fee_numerator_by_period h k = Ok fee \<and> unat mn \<le> unat fee \<and>
    unat fee \<le> unat (ts_cliff_fee_numerator h)"
proof -
  obtain l where l: "\<And>j. ts_get_base_fee_numerator_by_period h j =
    schedule_fee l (ts_cliff_fee_numerator h) (ts_reduction_factor h)
      (min j (ucast (ts_number_of_period h)))"
    using ts_by_period_mode [OF assms(1)] by blast
  let ?n = "ucast (ts_number_of_period h) :: u64"
  have le: "unat (min k ?n) \<le> unat (min n ?n)"
    by (simp only: unat_min) (rule min.mono [OF assms(2) le_refl])
  show ?thesis
    unfolding l by (rule schedule_fee_antitone [OF assms(1) [unfolded l] le])
qed

lemma ts_validate_D:
  assumes "ts_validate h m t = Ok ()"
  obtains mn where "ts_get_min_base_fee_numerator h = Ok mn"
    and "unat MIN_FEE_NUMERATOR \<le> unat mn" and "unat mn \<le> unat (ts_cliff_fee_numerator h)"
    and "unat (ts_cliff_fee_numerator h) \<le> 990000000"
proof -
  obtain mn where mn: "ts_get_min_base_fee_numerator h = Ok mn" "MIN_FEE_NUMERATOR \<le> mn"
    "ts_cliff_fee_numerator h \<le> MAX_FEE_NUMERATOR_V1"
    using assms by (auto simp: ts_validate_def Let_def ok_iffs ts_get_max_base_fee_numerator_def
        get_max_fee_numerator_def CURRENT_POOL_VERSION_def)
  have "unat mn \<le> unat (ts_cliff_fee_numerator h)"
    using ts_by_period_antitone [OF mn(1) [unfolded ts_get_min_base_fee_numerator_def] le_refl]
      mn(1) by (auto simp: ts_get_min_base_fee_numerator_def)
  with mn show thesis
    using that by (simp add: word_le_unat MAX_FEE_NUMERATOR_V1_def)
qed

text \<open>
  A time scheduler that validates has a fee at every point in time, before and after activation,
  between its minimum and its cliff: no clock makes the pool's swaps fail here.
\<close>

lemma ts_fee_total:
  assumes "ts_get_min_base_fee_numerator h = Ok mn"
  shows "\<exists>fee. ts_get_base_fee_numerator h cp ap = Ok fee \<and> unat mn \<le> unat fee \<and>
    unat fee \<le> unat (ts_cliff_fee_numerator h)"
proof -
  let ?n = "ucast (ts_number_of_period h) :: u64"
  have mn: "ts_get_base_fee_numerator_by_period h ?n = Ok mn"
    using assms by (simp add: ts_get_min_base_fee_numerator_def)
  note anti = ts_by_period_antitone [OF mn]
  consider (static) "ts_period_frequency h = 0" | (before) "ts_period_frequency h \<noteq> 0" "cp < ap"
    | (after) "ts_period_frequency h \<noteq> 0" "\<not> cp < ap" by blast
  then show ?thesis
  proof cases
    case static
    then show ?thesis using anti [OF le_refl] mn by (auto simp: ts_get_base_fee_numerator_def)
  next
    case before
    then show ?thesis using anti [OF le_refl] by (simp add: ts_get_base_fee_numerator_def)
  next
    case after
    then have "ts_get_base_fee_numerator h cp ap =
      ts_get_base_fee_numerator_by_period h (min ((cp - ap) div ts_period_frequency h) ?n)"
      by (simp add: ts_get_base_fee_numerator_def safe_sub_def checked_sub_def safe_div_def
          checked_div_def not_less [symmetric])
    then show ?thesis using anti [of "min ((cp - ap) div ts_period_frequency h) ?n"] by simp
  qed
qed

lemma ts_fee_min:
  assumes "ts_get_min_base_fee_numerator h = Ok mn"
    and "ts_get_base_fee_numerator h cp ap = Ok fee"
  shows "unat mn \<le> unat fee"
  using ts_fee_total [OF assms(1), of cp ap] assms(2) by auto

interpretation ts: base_fee_handler ts_validate ts_from_included ts_from_excluded
  ts_get_min_base_fee_numerator
proof
  fix h m t
  assume "ts_validate h m t = Ok ()"
  then show "\<exists>mn. ts_get_min_base_fee_numerator h = Ok mn \<and> unat MIN_FEE_NUMERATOR \<le> unat mn"
    by (rule ts_validate_D) blast
qed (auto simp: ts_from_included_def ts_from_excluded_def intro: ts_fee_min)

text \<open>Later in time is never dearer.\<close>

lemma ts_fee_antitone:
  assumes "ts_get_min_base_fee_numerator h = Ok mn" and "ap \<le> cp" and "cp \<le> cp'"
    and "ts_get_base_fee_numerator h cp ap = Ok fee"
    and "ts_get_base_fee_numerator h cp' ap = Ok fee'"
  shows "unat fee' \<le> unat fee"
proof (cases "ts_period_frequency h = 0")
  case True
  then show ?thesis using assms(4,5) by (simp add: ts_get_base_fee_numerator_def)
next
  case False
  let ?n = "ucast (ts_number_of_period h) :: u64"
  define per where "per c = min ((c - ap) div ts_period_frequency h) ?n" for c
  have e: "ts_get_base_fee_numerator h c ap = ts_get_base_fee_numerator_by_period h (per c)"
    if "ap \<le> c" for c
    using False that
    by (simp add: ts_get_base_fee_numerator_def safe_sub_def checked_sub_def safe_div_def
        checked_div_def per_def not_less [symmetric])
  have "ap \<le> cp'" using assms(2,3) by simp
  have "unat ((cp - ap) div ts_period_frequency h) \<le> unat ((cp' - ap) div ts_period_frequency h)"
    using assms(2,3) \<open>ap \<le> cp'\<close>
    by (simp add: unat_div unat_sub word_le_unat div_le_mono diff_le_mono)
  then have "unat (per cp) \<le> unat (per cp')" by (simp add: per_def min.coboundedI1)
  moreover have "ts_get_base_fee_numerator_by_period h (per cp') = Ok fee'"
    using assms(5) e [OF \<open>ap \<le> cp'\<close>] by simp
  ultimately show ?thesis
    using ts_by_period_antitone [of h "per cp'" fee' "per cp"] assms(4) e [OF assms(2)] by auto
qed

end
