(* ===== verification/Market_Cap_Scheduler.thy ===== *)
theory Market_Cap_Scheduler
  imports Base_Fee_Handler
begin

text \<open>
  \<^verbatim>\<open>base_fee/fee_market_cap_scheduler.rs\<close>: the base fee falls as the price rises over the initial
  price, until the schedule expires.
\<close>

record market_cap_scheduler =
  mc_cliff_fee_numerator :: u64
  mc_base_fee_mode :: u8
  mc_number_of_period :: u16
  mc_sqrt_price_step_bps :: u32
  mc_scheduler_expiration_duration :: u32
  mc_reduction_factor :: u64

definition mc_get_base_fee_numerator_by_period :: "market_cap_scheduler \<Rightarrow> u64 \<Rightarrow> u64 result" where
  "mc_get_base_fee_numerator_by_period self period0 =
     (let period = min period0 (ucast (mc_number_of_period self)) in
      rbind (ok_or (base_fee_mode_of_u8 (mc_base_fee_mode self)) TypeCastFailed) (\<lambda>mode.
      case mode of
        FeeMarketCapSchedulerLinear \<Rightarrow>
          schedule_fee True (mc_cliff_fee_numerator self) (mc_reduction_factor self) period
      | FeeMarketCapSchedulerExponential \<Rightarrow>
          schedule_fee False (mc_cliff_fee_numerator self) (mc_reduction_factor self) period
      | _ \<Rightarrow> Err UndeterminedError))"

text \<open>The number of price steps since the start, which the source computes in place.\<close>

definition mc_passed_period :: "market_cap_scheduler \<Rightarrow> u128 \<Rightarrow> u128 \<Rightarrow> u64 result" where
  "mc_passed_period self init_sqrt_price current_sqrt_price =
     (if current_sqrt_price \<le> init_sqrt_price then Ok 0
      else
        rbind (safe_sub (ucast current_sqrt_price :: u256) (ucast init_sqrt_price)) (\<lambda>diff.
        rbind (safe_mul diff (ucast MAX_BASIS_POINT)) (\<lambda>scaled.
        rbind (safe_div scaled (ucast init_sqrt_price)) (\<lambda>bps.
        rbind (safe_div bps (ucast (mc_sqrt_price_step_bps self))) (\<lambda>passed_period.
        if ucast (mc_number_of_period self) < passed_period
        then Ok (ucast (mc_number_of_period self))
        else ok_or (try_narrow passed_period) UndeterminedError)))))"

definition mc_get_base_fee_numerator ::
  "market_cap_scheduler \<Rightarrow> u64 \<Rightarrow> u64 \<Rightarrow> u128 \<Rightarrow> u128 \<Rightarrow> u64 result" where
  "mc_get_base_fee_numerator self current_point activation_point init_sqrt_price
     current_sqrt_price =
     rbind (safe_add activation_point (ucast (mc_scheduler_expiration_duration self)))
       (\<lambda>scheduler_expiration_point.
     rbind (if scheduler_expiration_point < current_point \<or> current_point < activation_point
            then Ok (ucast (mc_number_of_period self))
            else
              rbind (mc_passed_period self init_sqrt_price current_sqrt_price) (\<lambda>period.
              Ok (min period (ucast (mc_number_of_period self))))) (\<lambda>period.
     mc_get_base_fee_numerator_by_period self period))"

definition mc_get_min_base_fee_numerator :: "market_cap_scheduler \<Rightarrow> u64 result" where
  "mc_get_min_base_fee_numerator self =
     mc_get_base_fee_numerator_by_period self (ucast (mc_number_of_period self))"

definition mc_validate ::
  "market_cap_scheduler \<Rightarrow> collect_fee_mode \<Rightarrow> activation_type \<Rightarrow> unit result" where
  "mc_validate self collect_fee_mode activation_type =
     require (0 < mc_reduction_factor self) InvalidFeeMarketCapScheduler
       (require (0 < mc_sqrt_price_step_bps self) InvalidFeeMarketCapScheduler
       (require (0 < mc_scheduler_expiration_duration self) InvalidFeeMarketCapScheduler
       (require (0 < mc_number_of_period self) InvalidFeeMarketCapScheduler
       (rbind (mc_get_min_base_fee_numerator self) (\<lambda>min_fee_numerator.
        let max_fee_numerator = mc_cliff_fee_numerator self in
        rbind (validate_fee_fraction min_fee_numerator FEE_DENOMINATOR) (\<lambda>_.
        rbind (validate_fee_fraction max_fee_numerator FEE_DENOMINATOR) (\<lambda>_.
        if \<not> MIN_FEE_NUMERATOR \<le> min_fee_numerator then Err ExceedMaxFeeBps
        else rbind (get_max_fee_numerator CURRENT_POOL_VERSION) (\<lambda>max_allowed.
        require (max_fee_numerator \<le> max_allowed) ExceedMaxFeeBps (Ok ())))))))))"

definition mc_from_included :: "market_cap_scheduler fee_fn" where
  "mc_from_included self current_point activation_point trade_direction included_fee_amount
     init_sqrt_price current_sqrt_price =
     mc_get_base_fee_numerator self current_point activation_point init_sqrt_price
       current_sqrt_price"

definition mc_from_excluded :: "market_cap_scheduler fee_fn" where
  "mc_from_excluded self current_point activation_point trade_direction excluded_fee_amount
     init_sqrt_price current_sqrt_price =
     mc_get_base_fee_numerator self current_point activation_point init_sqrt_price
       current_sqrt_price"

definition mc_validate_base_fee_is_static ::
  "market_cap_scheduler \<Rightarrow> u64 \<Rightarrow> u64 \<Rightarrow> bool result" where
  "mc_validate_base_fee_is_static self current_point activation_point =
     rbind (safe_add (ucast activation_point :: u128) (ucast (mc_scheduler_expiration_duration self)))
       (\<lambda>scheduler_expiration_point.
     Ok (scheduler_expiration_point < ucast current_point))"

section \<open>The schedule\<close>

lemma mc_by_period_mode:
  assumes "mc_get_base_fee_numerator_by_period h k = Ok fee"
  obtains l where "\<And>j. mc_get_base_fee_numerator_by_period h j =
    schedule_fee l (mc_cliff_fee_numerator h) (mc_reduction_factor h)
      (min j (ucast (mc_number_of_period h)))"
proof -
  obtain mode where m: "base_fee_mode_of_u8 (mc_base_fee_mode h) = Some mode"
    using assms
    by (auto simp: mc_get_base_fee_numerator_by_period_def Let_def rbind_Ok_iff ok_or_Ok_iff)
  show thesis
  proof (cases mode)
    case FeeMarketCapSchedulerLinear
    then show thesis using m that [of True]
      by (simp add: mc_get_base_fee_numerator_by_period_def Let_def)
  next
    case FeeMarketCapSchedulerExponential
    then show thesis using m that [of False]
      by (simp add: mc_get_base_fee_numerator_by_period_def Let_def)
  qed (use assms m in \<open>simp_all add: mc_get_base_fee_numerator_by_period_def Let_def\<close>)
qed

lemma mc_by_period_antitone:
  assumes "mc_get_base_fee_numerator_by_period h n = Ok mn" and "unat k \<le> unat n"
  shows "\<exists>fee. mc_get_base_fee_numerator_by_period h k = Ok fee \<and> unat mn \<le> unat fee \<and>
    unat fee \<le> unat (mc_cliff_fee_numerator h)"
proof -
  obtain l where l: "\<And>j. mc_get_base_fee_numerator_by_period h j =
    schedule_fee l (mc_cliff_fee_numerator h) (mc_reduction_factor h)
      (min j (ucast (mc_number_of_period h)))"
    using mc_by_period_mode [OF assms(1)] by blast
  let ?n = "ucast (mc_number_of_period h) :: u64"
  have le: "unat (min k ?n) \<le> unat (min n ?n)"
    by (simp only: unat_min) (rule min.mono [OF assms(2) le_refl])
  show ?thesis
    unfolding l by (rule schedule_fee_antitone [OF assms(1) [unfolded l] le])
qed

lemma mc_validate_D:
  assumes "mc_validate h m t = Ok ()"
  obtains mn where "mc_get_min_base_fee_numerator h = Ok mn"
    and "unat MIN_FEE_NUMERATOR \<le> unat mn" and "unat mn \<le> unat (mc_cliff_fee_numerator h)"
    and "unat (mc_cliff_fee_numerator h) \<le> 990000000" and "0 < unat (mc_sqrt_price_step_bps h)"
proof -
  obtain mn where mn: "mc_get_min_base_fee_numerator h = Ok mn" "MIN_FEE_NUMERATOR \<le> mn"
    "mc_cliff_fee_numerator h \<le> MAX_FEE_NUMERATOR_V1" "0 < mc_sqrt_price_step_bps h"
    using assms by (auto simp: mc_validate_def Let_def ok_iffs get_max_fee_numerator_def
        CURRENT_POOL_VERSION_def)
  have "unat mn \<le> unat (mc_cliff_fee_numerator h)"
    using mc_by_period_antitone [OF mn(1) [unfolded mc_get_min_base_fee_numerator_def] le_refl]
      mn(1) by (auto simp: mc_get_min_base_fee_numerator_def)
  with mn show thesis
    using that by (simp add: word_le_unat word_less_unat MAX_FEE_NUMERATOR_V1_def)
qed

text \<open>The number of periods is found for every price, and never above the last period.\<close>

lemma mc_passed_period_total:
  assumes "0 < unat p0" and "0 < unat (mc_sqrt_price_step_bps h)"
  shows "\<exists>k. mc_passed_period h p0 p = Ok k \<and> unat k \<le> unat (mc_number_of_period h)"
proof (cases "p \<le> p0")
  case True
  then show ?thesis by (simp add: mc_passed_period_def)
next
  case False
  then have gt: "unat p0 < unat p" by (simp add: word_to_nat)
  define d :: u256 where "d = ucast p - ucast p0"
  have ud: "unat d = unat p - unat p0"
    using gt by (simp add: d_def unat_sub word_le_unat)
  have sub: "safe_sub (ucast p :: u256) (ucast p0) = Ok d" using gt by (simp add: ok_iffs ud)
  have "unat d < 2 ^ 128" using unat_less_pow [of p] by (simp add: ud)
  then have "unat d * unat (ucast MAX_BASIS_POINT :: u256) < 2 ^ LENGTH(256)"
    by (simp add: MAX_BASIS_POINT_def)
  then have mul: "safe_mul d (ucast MAX_BASIS_POINT) = Ok (d * ucast MAX_BASIS_POINT)"
    by (simp add: safe_mul_def checked_mul_def)
  let ?m = "d * ucast MAX_BASIS_POINT" and ?s = "ucast (mc_sqrt_price_step_bps h) :: u256"
  have "unat (ucast p0 :: u256) \<noteq> 0" and "unat ?s \<noteq> 0" using assms by simp_all
  then have "(ucast p0 :: u256) \<noteq> 0" and "?s \<noteq> 0" by (metis unat_0)+
  then have div: "safe_div ?m (ucast p0) = Ok (?m div ucast p0)"
    "safe_div (?m div ucast p0) ?s = Ok (?m div ucast p0 div ?s)"
    by (simp_all add: safe_div_def checked_div_def)
  define q where "q = ?m div ucast p0 div ?s"
  have e: "mc_passed_period h p0 p =
    (if ucast (mc_number_of_period h) < q then Ok (ucast (mc_number_of_period h))
     else ok_or (try_narrow q) UndeterminedError)"
    using False by (simp add: mc_passed_period_def sub mul div q_def)
  show ?thesis
  proof (cases "ucast (mc_number_of_period h) < q")
    case True
    then show ?thesis by (simp add: e)
  next
    case F: False
    then have le: "unat q \<le> unat (mc_number_of_period h)" by (simp add: word_to_nat)
    then have "unat q < 2 ^ LENGTH(64)"
      using unat_less_pow [of "mc_number_of_period h"] by simp
    with F le show ?thesis by (simp add: e try_narrow_def unat_ucast_narrow)
  qed
qed

lemma mc_fee_total:
  assumes min: "mc_get_min_base_fee_numerator h = Ok mn"
    and p0: "0 < unat p0" and step: "0 < unat (mc_sqrt_price_step_bps h)"
    and ov: "unat ap + unat (mc_scheduler_expiration_duration h) < 2 ^ 64"
  shows "\<exists>fee. mc_get_base_fee_numerator h cp ap p0 p = Ok fee \<and> unat mn \<le> unat fee \<and>
    unat fee \<le> unat (mc_cliff_fee_numerator h)"
proof -
  let ?n = "ucast (mc_number_of_period h) :: u64"
  have mn: "mc_get_base_fee_numerator_by_period h ?n = Ok mn"
    using min by (simp add: mc_get_min_base_fee_numerator_def)
  note anti = mc_by_period_antitone [OF mn]
  define x where "x = ap + ucast (mc_scheduler_expiration_duration h)"
  have x: "safe_add ap (ucast (mc_scheduler_expiration_duration h)) = Ok x"
    using ov by (simp add: safe_add_def checked_add_def x_def)
  obtain k where k: "mc_passed_period h p0 p = Ok k" "unat k \<le> unat (mc_number_of_period h)"
    using mc_passed_period_total [OF p0 step] by blast
  show ?thesis
    using anti [OF le_refl] anti [of "min k ?n"]
    by (cases "x < cp \<or> cp < ap") (simp_all add: mc_get_base_fee_numerator_def x k(1))
qed

lemma mc_fee_min:
  assumes min: "mc_get_min_base_fee_numerator h = Ok mn"
    and fee: "mc_get_base_fee_numerator h cp ap p0 p = Ok fee"
  shows "unat mn \<le> unat fee" and "unat fee \<le> unat (mc_cliff_fee_numerator h)"
proof -
  let ?n = "ucast (mc_number_of_period h) :: u64"
  have mn: "mc_get_base_fee_numerator_by_period h ?n = Ok mn"
    using min by (simp add: mc_get_min_base_fee_numerator_def)
  obtain k where k: "mc_get_base_fee_numerator_by_period h k = Ok fee" "unat k \<le> unat ?n"
    using fee by (auto simp: mc_get_base_fee_numerator_def rbind_Ok_iff split: if_splits)
  then show "unat mn \<le> unat fee" and "unat fee \<le> unat (mc_cliff_fee_numerator h)"
    using mc_by_period_antitone [OF mn k(2)] by auto
qed

interpretation mc: base_fee_handler mc_validate mc_from_included mc_from_excluded
  mc_get_min_base_fee_numerator
proof
  fix h m t
  assume "mc_validate h m t = Ok ()"
  then show "\<exists>mn. mc_get_min_base_fee_numerator h = Ok mn \<and> unat MIN_FEE_NUMERATOR \<le> unat mn"
    by (rule mc_validate_D) blast
qed (auto simp: mc_from_included_def mc_from_excluded_def intro: mc_fee_min)

end
