(* ===== verification/Rate_Limiter.thy ===== *)
theory Rate_Limiter
  imports Base_Fee_Handler
begin

text \<open>
  \<^verbatim>\<open>base_fee/fee_rate_limiter.rs\<close>: right after activation, a buy pays a fee rate that rises with its
  size. The program computes the fee of an amount in closed form, in 256-bit arithmetic that wraps;
  the lemmas show that nothing wraps and that the closed form charges every token of the amount at
  the rate of its tier.
\<close>

record rate_limiter =
  rl_cliff_fee_numerator :: u64
  rl_base_fee_mode :: u8
  rl_fee_increment_bps :: u16
  rl_max_limiter_duration :: u32
  rl_max_fee_bps :: u32
  rl_reference_amount :: u64

section \<open>When it applies\<close>

definition is_zero_rate_limiter :: "rate_limiter \<Rightarrow> bool" where
  "is_zero_rate_limiter self \<longleftrightarrow>
     rl_reference_amount self = 0 \<and> rl_max_limiter_duration self = 0 \<and>
     rl_max_fee_bps self = 0 \<and> rl_fee_increment_bps self = 0"

definition is_non_zero_rate_limiter :: "rate_limiter \<Rightarrow> bool" where
  "is_non_zero_rate_limiter self \<longleftrightarrow>
     rl_reference_amount self \<noteq> 0 \<and> rl_max_limiter_duration self \<noteq> 0 \<and>
     rl_max_fee_bps self \<noteq> 0 \<and> rl_fee_increment_bps self \<noteq> 0"

definition is_rate_limiter_applied ::
  "rate_limiter \<Rightarrow> u64 \<Rightarrow> u64 \<Rightarrow> trade_direction \<Rightarrow> bool result" where
  "is_rate_limiter_applied self current_point activation_point trade_direction =
     (if is_zero_rate_limiter self then Ok False
      else if trade_direction = AtoB then Ok False
      else if current_point < activation_point then Ok False
      else
        rbind (safe_add (ucast activation_point :: u128) (ucast (rl_max_limiter_duration self)))
          (\<lambda>last_effective_rate_limiter_point.
        if last_effective_rate_limiter_point < ucast current_point then Ok False else Ok True))"

section \<open>The fee of an amount\<close>

definition max_fee_numerator_of :: "rate_limiter \<Rightarrow> u64 result" where
  "max_fee_numerator_of self = to_numerator (ucast (rl_max_fee_bps self)) (ucast FEE_DENOMINATOR)"

definition fee_increment_of :: "rate_limiter \<Rightarrow> u64 result" where
  "fee_increment_of self =
     to_numerator (ucast (rl_fee_increment_bps self)) (ucast FEE_DENOMINATOR)"

definition get_max_index :: "rate_limiter \<Rightarrow> u64 result" where
  "get_max_index self =
     rbind (max_fee_numerator_of self) (\<lambda>max_fee_numerator.
     rbind (safe_sub max_fee_numerator (rl_cliff_fee_numerator self)) (\<lambda>delta_numerator.
     rbind (fee_increment_of self) (\<lambda>fee_increment_numerator.
     safe_div delta_numerator fee_increment_numerator)))"

text \<open>The closed form, on \<^verbatim>\<open>U256\<close>.\<close>

definition trading_fee_numerator :: "u256 \<Rightarrow> u256 \<Rightarrow> u256 \<Rightarrow> u256 \<Rightarrow> u256 \<Rightarrow> u256 \<Rightarrow> u64 \<Rightarrow> u256" where
  "trading_fee_numerator c i x0 a b max_index max_fee_numerator =
     (if a < max_index then
        (let numerator_1 = c + c * a + i * a * (a + 1) div 2;
             numerator_2 = c + i * (a + 1);
             first_fee = x0 * numerator_1;
             second_fee = b * numerator_2
         in first_fee + second_fee)
      else
        (let numerator_1 = c + c * max_index + i * max_index * (max_index + 1) div 2;
             numerator_2 = ucast max_fee_numerator;
             first_fee = x0 * numerator_1;
             d = a - max_index;
             left_amount = d * x0 + b;
             second_fee = left_amount * numerator_2
         in first_fee + second_fee))"

definition get_fee_numerator_from_included_fee_amount :: "rate_limiter \<Rightarrow> u64 \<Rightarrow> u64 result" where
  "get_fee_numerator_from_included_fee_amount self input_amount =
     (if input_amount \<le> rl_reference_amount self then Ok (rl_cliff_fee_numerator self)
      else
        rbind (max_fee_numerator_of self) (\<lambda>max_fee_numerator.
        rbind (safe_sub input_amount (rl_reference_amount self)) (\<lambda>above.
        assert_panic (rl_reference_amount self \<noteq> 0)
         (let a = (ucast (above div rl_reference_amount self) :: u256);
              b = (ucast (above mod rl_reference_amount self) :: u256) in
          rbind (get_max_index self) (\<lambda>max_index.
          rbind (fee_increment_of self) (\<lambda>i.
          let fee = trading_fee_numerator (ucast (rl_cliff_fee_numerator self)) (ucast i)
                      (ucast (rl_reference_amount self)) a b (ucast max_index) max_fee_numerator;
              denominator = ucast FEE_DENOMINATOR;
              trading_fee = (fee + denominator - 1) div denominator in
          rbind (ok_or (try_narrow trading_fee) TypeCastFailed) (\<lambda>trading_fee.
          safe_mul_div_cast_u64 trading_fee FEE_DENOMINATOR input_amount Up)))))))"

definition rl_get_excluded_fee_amount :: "rate_limiter \<Rightarrow> u64 \<Rightarrow> u64 result" where
  "rl_get_excluded_fee_amount self included_fee_amount =
     rbind (get_fee_numerator_from_included_fee_amount self included_fee_amount) (\<lambda>fee_numerator.
     rbind (get_excluded_fee_amount fee_numerator included_fee_amount)
       (\<lambda>(excluded_fee_amount, fee). Ok excluded_fee_amount))"

definition get_checked_amounts :: "rate_limiter \<Rightarrow> (u64 \<times> u64 \<times> bool) result" where
  "get_checked_amounts self =
     rbind (get_max_index self) (\<lambda>max_index.
     let x0 = (ucast (rl_reference_amount self) :: u256);
         max_index_input_amount = (ucast max_index + 1) * x0 in
     if max_index_input_amount \<le> ucast (- 1 :: u64) then
       rbind (ok_or (try_narrow max_index_input_amount) TypeCastFailed)
         (\<lambda>checked_included_fee_amount.
       rbind (rl_get_excluded_fee_amount self checked_included_fee_amount)
         (\<lambda>checked_output_amount.
       Ok (checked_output_amount, checked_included_fee_amount, False)))
     else
       rbind (rl_get_excluded_fee_amount self (- 1)) (\<lambda>checked_excluded_fee_amount.
       Ok (checked_excluded_fee_amount, - 1, True)))"

text \<open>
  The other direction: which amount, fee included, leaves a given amount. Below the largest tier it
  solves the quadratic equation of the closed form with the integer square root.
\<close>

definition included_below_max_index :: "rate_limiter \<Rightarrow> u64 \<Rightarrow> u64 result" where
  "included_below_max_index self excluded_fee_amount =
     rbind (fee_increment_of self) (\<lambda>increment.
     let two = (2 :: u256); four = (4 :: u256);
         i = (ucast increment :: u256);
         x0 = (ucast (rl_reference_amount self) :: u256);
         d = (ucast FEE_DENOMINATOR :: u256);
         c = (ucast (rl_cliff_fee_numerator self) :: u256);
         ex = (ucast excluded_fee_amount :: u256);
         x = i;
         y = two * d * x0 + i * x0 - two * c * x0;
         z = two * ex * d * x0 in
     rbind (ok_or (sqrt_u256 (y * y - four * x * z)) MathOverflow) (\<lambda>root.
     assert_panic (two * x \<noteq> 0)
      (let included_fee_amount = (y - root) div (two * x) in
       rbind (safe_div included_fee_amount x0) (\<lambda>a_plus_one.
       rbind (ok_or (try_narrow included_fee_amount) TypeCastFailed) (\<lambda>included.
       rbind (rl_get_excluded_fee_amount self included) (\<lambda>first_excluded_fee_amount.
       rbind (safe_sub excluded_fee_amount first_excluded_fee_amount)
         (\<lambda>excluded_fee_remaining_amount.
       let remaining_amount_fee_numerator = c + i * a_plus_one in
       rbind (ok_or (try_narrow remaining_amount_fee_numerator) TypeCastFailed) (\<lambda>numerator.
       rbind (get_included_fee_amount numerator excluded_fee_remaining_amount)
         (\<lambda>(included_fee_remaining_amount, fee).
       rbind (safe_add included_fee_amount (ucast included_fee_remaining_amount))
         (\<lambda>total_in_amount.
       ok_or (try_narrow total_in_amount) TypeCastFailed))))))))))"

definition get_fee_numerator_from_excluded_fee_amount :: "rate_limiter \<Rightarrow> u64 \<Rightarrow> u64 result" where
  "get_fee_numerator_from_excluded_fee_amount self excluded_fee_amount =
     rbind (rl_get_excluded_fee_amount self (rl_reference_amount self))
       (\<lambda>excluded_fee_reference_amount.
     if excluded_fee_amount \<le> excluded_fee_reference_amount
     then Ok (rl_cliff_fee_numerator self)
     else
       rbind (get_checked_amounts self)
         (\<lambda>(checked_excluded_fee_amount, checked_included_fee_amount, is_overflow).
       if excluded_fee_amount = checked_excluded_fee_amount
       then get_fee_numerator_from_included_fee_amount self checked_included_fee_amount
       else
         rbind (if excluded_fee_amount < checked_excluded_fee_amount
                then included_below_max_index self excluded_fee_amount
                else if is_overflow then Err MathOverflow
                else
                  rbind (safe_sub excluded_fee_amount checked_excluded_fee_amount)
                    (\<lambda>excluded_fee_remaining_amount.
                  rbind (max_fee_numerator_of self) (\<lambda>max_fee_numerator.
                  rbind (get_included_fee_amount max_fee_numerator excluded_fee_remaining_amount)
                    (\<lambda>(included_fee_remaining_amount, fee).
                  safe_add included_fee_remaining_amount checked_included_fee_amount))))
           (\<lambda>included_fee_amount.
         rbind (safe_sub included_fee_amount excluded_fee_amount) (\<lambda>trading_fee.
         rbind (safe_mul_div_cast_u64 trading_fee FEE_DENOMINATOR included_fee_amount Up)
           (\<lambda>fee_numerator.
         require (rl_cliff_fee_numerator self \<le> fee_numerator) UndeterminedError
           (Ok fee_numerator))))))"

section \<open>The handler\<close>

definition rl_validate ::
  "rate_limiter \<Rightarrow> collect_fee_mode \<Rightarrow> activation_type \<Rightarrow> unit result" where
  "rl_validate self collect_fee_mode activation_type =
     require (collect_fee_mode = OnlyB) InvalidFeeRateLimiter
      (rbind (max_fee_numerator_of self) (\<lambda>max_fee_numerator_from_bps.
       require (MIN_FEE_NUMERATOR \<le> rl_cliff_fee_numerator self \<and>
                rl_cliff_fee_numerator self \<le> max_fee_numerator_from_bps) InvalidFeeRateLimiter
        (if is_zero_rate_limiter self then Ok ()
         else
           require (is_non_zero_rate_limiter self) InvalidFeeRateLimiter
            (let max_limiter_duration =
               (case activation_type of
                  Slot \<Rightarrow> MAX_RATE_LIMITER_DURATION_IN_SLOTS
                | Timestamp \<Rightarrow> MAX_RATE_LIMITER_DURATION_IN_SECONDS) in
             require (rl_max_limiter_duration self \<le> max_limiter_duration) InvalidFeeRateLimiter
              (rbind (fee_increment_of self) (\<lambda>fee_increment_numerator.
               require (fee_increment_numerator < FEE_DENOMINATOR) InvalidFeeRateLimiter
                (rbind (get_max_fee_bps CURRENT_POOL_VERSION) (\<lambda>max_bps.
                 require (ucast (rl_max_fee_bps self) \<le> max_bps) InvalidFeeRateLimiter
                  (rbind (get_fee_numerator_from_included_fee_amount self 0) (\<lambda>min_fee_numerator.
                   rbind (get_fee_numerator_from_included_fee_amount self (- 1))
                     (\<lambda>max_fee_numerator.
                   if \<not> MIN_FEE_NUMERATOR \<le> min_fee_numerator then Err InvalidFeeRateLimiter
                   else rbind (get_max_fee_numerator CURRENT_POOL_VERSION) (\<lambda>max_allowed.
                   require (max_fee_numerator \<le> max_allowed) InvalidFeeRateLimiter
                     (Ok ())))))))))))))"

definition rl_from_included :: "rate_limiter fee_fn" where
  "rl_from_included self current_point activation_point trade_direction included_fee_amount
     init_sqrt_price current_sqrt_price =
     rbind (is_rate_limiter_applied self current_point activation_point trade_direction) (\<lambda>applied.
     if applied then get_fee_numerator_from_included_fee_amount self included_fee_amount
     else Ok (rl_cliff_fee_numerator self))"

definition rl_from_excluded :: "rate_limiter fee_fn" where
  "rl_from_excluded self current_point activation_point trade_direction excluded_fee_amount
     init_sqrt_price current_sqrt_price =
     rbind (is_rate_limiter_applied self current_point activation_point trade_direction) (\<lambda>applied.
     if applied then get_fee_numerator_from_excluded_fee_amount self excluded_fee_amount
     else Ok (rl_cliff_fee_numerator self))"

definition rl_validate_base_fee_is_static :: "rate_limiter \<Rightarrow> u64 \<Rightarrow> u64 \<Rightarrow> bool result" where
  "rl_validate_base_fee_is_static self current_point activation_point =
     (if is_zero_rate_limiter self then Ok True
      else
        rbind (safe_add (ucast activation_point :: u128) (ucast (rl_max_limiter_duration self)))
          (\<lambda>last_effective_rate_limiter_point.
        Ok (last_effective_rate_limiter_point < ucast current_point)))"

definition rl_get_min_base_fee_numerator :: "rate_limiter \<Rightarrow> u64 result" where
  "rl_get_min_base_fee_numerator self = Ok (rl_cliff_fee_numerator self)"

section \<open>Nothing wraps\<close>

text \<open>\<open>fits k x n\<close>: the word \<open>x\<close> has the value \<open>n\<close>, which takes at most \<open>k\<close> bits.\<close>

definition fits :: "nat \<Rightarrow> 'a::len word \<Rightarrow> nat \<Rightarrow> bool" where
  "fits k x n \<longleftrightarrow> unat x = n \<and> n < 2 ^ k"

lemma fitsD: "fits k x n \<Longrightarrow> unat x = n"
  by (simp add: fits_def)

lemma fits_weaken: "fits k x n \<Longrightarrow> k \<le> j \<Longrightarrow> fits j x n"
  unfolding fits_def by (meson less_le_trans one_le_numeral power_increasing)

lemma fits_mult:
  fixes x y :: "'a::len word"
  assumes "fits j x m" and "fits k y n" and "j + k \<le> LENGTH('a)"
  shows "fits (j + k) (x * y) (m * n)"
proof -
  have lt: "m * n < 2 ^ (j + k)" and lt': "m * n < 2 ^ LENGTH('a)"
    using assms by (auto simp: fits_def intro: mult_less_pow2)
  then have "unat (x * y) = m * n"
    using assms unat_mult_lem [of x y] by (simp add: fits_def)
  with lt show ?thesis by (simp add: fits_def)
qed

lemma fits_add:
  fixes x y :: "'a::len word"
  assumes "fits k x m" and "fits k y n" and "k < LENGTH('a)"
  shows "fits (Suc k) (x + y) (m + n)"
proof -
  have lt: "m + n < 2 ^ Suc k" using assms by (simp add: fits_def)
  also have "(2::nat) ^ Suc k \<le> 2 ^ LENGTH('a)" using assms(3) by (intro power_increasing) simp_all
  finally have "unat (x + y) = m + n"
    using assms unat_add_lem [of x y] by (simp add: fits_def)
  with lt show ?thesis by (simp add: fits_def)
qed

lemma fits_div: "fits k x m \<Longrightarrow> unat y = n \<Longrightarrow> fits k (x div y) (m div n)"
  unfolding fits_def by (metis div_le_dividend le_less_trans unat_div)

lemma fits_sub: "fits k x m \<Longrightarrow> unat y = n \<Longrightarrow> n \<le> m \<Longrightarrow> fits k (x - y) (m - n)"
  by (auto simp: fits_def unat_sub word_le_unat)

lemma fits_ucast:
  "LENGTH('a::len) \<le> LENGTH('b::len) \<Longrightarrow> fits LENGTH('a) (ucast (x :: 'a word) :: 'b word) (unat x)"
  by (simp add: fits_def)

lemma fits_u64: "fits 64 (ucast (x :: u64) :: u256) (unat x)"
  using fits_ucast [of x, where ?'b = 256] by simp

lemma fits_tier_sum:
  fixes c i x0 a :: u256
  assumes "fits 64 c nc" and "fits 33 i ni" and "fits 64 x0 nx" and "fits 64 a na"
  shows "fits 227 (x0 * (c + c * a + i * a * (a + 1) div 2))
    (nx * (nc + nc * na + ni * na * (na + 1) div 2))"
proof -
  have one: "fits 64 (1 :: u256) 1" and two: "unat (2 :: u256) = 2" by (simp_all add: fits_def)
  have ca: "fits 128 (c * a) (nc * na)" using fits_mult [OF assms(1,4)] by simp
  have "fits 129 (c + c * a) (nc + nc * na)"
    using fits_add [OF fits_weaken [OF assms(1), of 128] ca] by simp
  then have l: "fits 162 (c + c * a) (nc + nc * na)" by (rule fits_weaken) simp
  have a1: "fits 65 (a + 1) (na + 1)" using fits_add [OF assms(4) one] by simp
  have ia: "fits 97 (i * a) (ni * na)" using fits_mult [OF assms(2,4)] by simp
  have "fits 162 (i * a * (a + 1)) (ni * na * (na + 1))" using fits_mult [OF ia a1] by simp
  then have r: "fits 162 (i * a * (a + 1) div 2) (ni * na * (na + 1) div 2)"
    by (rule fits_div [OF _ two])
  have "fits 163 (c + c * a + i * a * (a + 1) div 2) (nc + nc * na + ni * na * (na + 1) div 2)"
    using fits_add [OF l r] by simp
  from fits_mult [OF assms(3) this] show ?thesis by simp
qed

lemma trading_fee_numerator_fits:
  fixes c i x0 a b mi :: u256
  assumes "fits 64 c nc" and "fits 33 i ni" and "fits 64 x0 nx" and "fits 64 a na"
    and "fits 64 b nb" and "fits 64 mi nm"
  shows "fits 228 (trading_fee_numerator c i x0 a b mi mx)
    (if na < nm then nx * (nc + nc * na + ni * na * (na + 1) div 2) + nb * (nc + ni * (na + 1))
     else nx * (nc + nc * nm + ni * nm * (nm + 1) div 2) + ((na - nm) * nx + nb) * unat mx)"
proof -
  have one: "fits 64 (1 :: u256) 1" by (simp add: fits_def)
  have cmp: "a < mi \<longleftrightarrow> na < nm" using assms(4,6) by (simp add: fits_def word_less_unat)
  show ?thesis
  proof (cases "na < nm")
    case True
    have a1: "fits 65 (a + 1) (na + 1)" using fits_add [OF assms(4) one] by simp
    have "fits 98 (i * (a + 1)) (ni * (na + 1))" using fits_mult [OF assms(2) a1] by simp
    then have "fits 99 (c + i * (a + 1)) (nc + ni * (na + 1))"
      using fits_add [OF fits_weaken [OF assms(1), of 98]] by simp
    from fits_mult [OF assms(5) this]
    have s: "fits 163 (b * (c + i * (a + 1))) (nb * (nc + ni * (na + 1)))" by simp
    from fits_add [OF fits_tier_sum [OF assms(1-4)] fits_weaken [OF s, of 227]]
    show ?thesis using True cmp by (simp add: trading_fee_numerator_def Let_def)
  next
    case False
    have d: "fits 64 (a - mi) (na - nm)"
      using False assms(6) by (intro fits_sub [OF assms(4)]) (simp_all add: fits_def)
    have dx: "fits 128 ((a - mi) * x0) ((na - nm) * nx)" using fits_mult [OF d assms(3)] by simp
    have "fits 129 ((a - mi) * x0 + b) ((na - nm) * nx + nb)"
      using fits_add [OF dx fits_weaken [OF assms(5), of 128]] by simp
    from fits_mult [OF this fits_u64 [of mx]]
    have s: "fits 193 (((a - mi) * x0 + b) * ucast mx) (((na - nm) * nx + nb) * unat mx)" by simp
    from fits_add [OF fits_tier_sum [OF assms(1,2,3,6)] fits_weaken [OF s, of 227]]
    show ?thesis using False cmp by (simp add: trading_fee_numerator_def Let_def)
  qed
qed

section \<open>The closed form charges by tiers\<close>

text \<open>
  The rate of the \<open>k\<close>-th block of \<open>x0\<close> tokens, and the fee of an amount token by token, both as
  numerators over the fee denominator.
\<close>

definition tier_rate :: "nat \<Rightarrow> nat \<Rightarrow> nat \<Rightarrow> nat \<Rightarrow> nat \<Rightarrow> nat" where
  "tier_rate c i max_index max_rate k = (if k \<le> max_index then c + i * k else max_rate)"

definition tiered_fee :: "(nat \<Rightarrow> nat) \<Rightarrow> nat \<Rightarrow> nat \<Rightarrow> nat" where
  "tiered_fee rate x0 amount = (\<Sum>t<amount. rate (t div x0))"

lemma tiered_fee_blocks:
  assumes "0 < x0"
  shows "tiered_fee f x0 n = x0 * (\<Sum>k<n div x0. f k) + (n mod x0) * f (n div x0)"
proof (induction n)
  case 0
  then show ?case by (simp add: tiered_fee_def)
next
  case (Suc n)
  have s: "tiered_fee f x0 (Suc n) = tiered_fee f x0 n + f (n div x0)" by (simp add: tiered_fee_def)
  show ?case
  proof (cases "Suc (n mod x0) = x0")
    case True
    then have "Suc n mod x0 = 0" and d: "Suc n div x0 = Suc (n div x0)"
      by (simp_all add: mod_Suc div_Suc)
    moreover have "n mod x0 * f (n div x0) + f (n div x0) = x0 * f (n div x0)"
      using True by (metis add.commute mult_Suc)
    ultimately show ?thesis unfolding s Suc by (simp add: algebra_simps)
  next
    case False
    then have "Suc n mod x0 = Suc (n mod x0)" and "Suc n div x0 = n div x0"
      by (simp_all add: mod_Suc div_Suc)
    then show ?thesis unfolding s Suc by simp
  qed
qed

lemma sum_tiers: "(\<Sum>k<Suc n. c + i * k) = c + c * n + i * n * (n + 1) div (2 :: nat)"
proof -
  have "(\<Sum>k<Suc n. c + i * k) = c * Suc n + i * (\<Sum>k<Suc n. k)"
    by (simp only: sum.distrib sum_distrib_left sum_constant card_lessThan) simp
  moreover have "i * n * (n + 1) = 2 * (i * (\<Sum>k<Suc n. k))"
    by (induction n) (simp_all add: algebra_simps)
  ultimately show ?thesis by simp
qed

lemma closed_form_is_tiered:
  assumes x0: "0 < x0" and n: "x0 < n"
  defines "a \<equiv> (n - x0) div x0" and "b \<equiv> (n - x0) mod x0"
  shows "(if a < mi then x0 * (c + c * a + i * a * (a + 1) div 2) + b * (c + i * (a + 1))
     else x0 * (c + c * mi + i * mi * (mi + 1) div 2) + ((a - mi) * x0 + b) * mx) =
   tiered_fee (tier_rate c i mi mx) x0 n"
proof -
  define f where "f = tier_rate c i mi mx"
  have nd: "n div x0 = Suc a" "n mod x0 = b"
    using n x0 by (simp_all add: a_def b_def le_div_geq le_mod_geq)
  have t: "tiered_fee f x0 n = x0 * (\<Sum>k<Suc a. f k) + b * f (Suc a)"
    by (simp only: tiered_fee_blocks [OF x0] nd)
  show ?thesis
  proof (cases "a < mi")
    case True
    have "(\<Sum>k<Suc a. f k) = (\<Sum>k<Suc a. c + i * k)"
      using True by (intro sum.cong) (simp_all add: f_def tier_rate_def)
    moreover have "f (Suc a) = c + i * (a + 1)" using True by (simp add: f_def tier_rate_def)
    ultimately show ?thesis
      using True by (simp only: t [unfolded f_def [symmetric]] sum_tiers if_True flip: f_def)
  next
    case False
    then obtain d where a: "a = mi + d" by (metis le_Suc_ex not_less)
    have "(\<Sum>k<Suc mi + d. f k) = (\<Sum>k<Suc mi. f k) + d * mx" for d
      by (induction d) (simp_all add: f_def tier_rate_def)
    then have "(\<Sum>k<Suc a. f k) = (\<Sum>k<Suc mi. f k) + d * mx" by (simp add: a)
    moreover have "(\<Sum>k<Suc mi. f k) = (\<Sum>k<Suc mi. c + i * k)"
      by (intro sum.cong) (simp_all add: f_def tier_rate_def)
    moreover have "f (Suc a) = mx" by (simp add: f_def tier_rate_def a)
    ultimately have "tiered_fee f x0 n =
      x0 * (c + c * mi + i * mi * (mi + 1) div 2 + d * mx) + b * mx"
      by (simp only: t sum_tiers)
    then show ?thesis by (simp add: a f_def algebra_simps)
  qed
qed

section \<open>The fee rate of an amount\<close>

abbreviation rl_max_rate :: "rate_limiter \<Rightarrow> nat" where
  "rl_max_rate h \<equiv> unat (rl_max_fee_bps h) * 100000"

abbreviation rl_step :: "rate_limiter \<Rightarrow> nat" where
  "rl_step h \<equiv> unat (rl_fee_increment_bps h) * 100000"

definition rl_tiers :: "rate_limiter \<Rightarrow> nat \<Rightarrow> nat" where
  "rl_tiers h = tier_rate (unat (rl_cliff_fee_numerator h)) (rl_step h)
     ((rl_max_rate h - unat (rl_cliff_fee_numerator h)) div rl_step h) (rl_max_rate h)"

lemma rl_numerators:
  obtains m i where "max_fee_numerator_of h = Ok m" and "unat m = rl_max_rate h"
    and "fee_increment_of h = Ok i" and "unat i = rl_step h" and "unat i < 2 ^ 33"
  using to_numerator_u32 [of "rl_max_fee_bps h"] to_numerator_u16 [of "rl_fee_increment_bps h"]
    unat_bounds(2) [of "rl_fee_increment_bps h"]
  by (fastforce simp: max_fee_numerator_of_def fee_increment_of_def)

lemma get_max_index_iff [ok_iffs]:
  "get_max_index h = Ok k \<longleftrightarrow> unat (rl_cliff_fee_numerator h) \<le> rl_max_rate h \<and> 0 < rl_step h \<and>
     unat k = (rl_max_rate h - unat (rl_cliff_fee_numerator h)) div rl_step h"
proof -
  obtain m i where m: "max_fee_numerator_of h = Ok m" "unat m = rl_max_rate h"
    and i: "fee_increment_of h = Ok i" "unat i = rl_step h"
    by (rule rl_numerators [of h])
  have "safe_sub m (rl_cliff_fee_numerator h) = Ok d \<longleftrightarrow>
    unat (rl_cliff_fee_numerator h) \<le> rl_max_rate h \<and>
      unat d = rl_max_rate h - unat (rl_cliff_fee_numerator h)" for d
    by (auto simp: ok_iffs m(2))
  moreover have "\<exists>d::u64. unat d = rl_max_rate h - unat (rl_cliff_fee_numerator h)"
    using unat_less_pow [of m]
    by (intro exI [of _ "of_nat (rl_max_rate h - unat (rl_cliff_fee_numerator h))"]
        unat_of_nat_small) (simp only: m(2) less_imp_diff_less)
  ultimately show ?thesis
    by (auto simp: get_max_index_def m(1) i(1) rbind_Ok_iff safe_ops_iff i(2))
qed

lemma trading_fee_rounds_up:
  fixes w :: u256
  assumes "fits 228 w n"
  shows "unat ((w + ucast FEE_DENOMINATOR - 1) div ucast FEE_DENOMINATOR) = div_up n 1000000000"
proof -
  have d: "fits 228 (ucast FEE_DENOMINATOR :: u256) 1000000000"
    by (simp add: fits_def FEE_DENOMINATOR_def)
  have s: "fits 229 (w + ucast FEE_DENOMINATOR) (n + 1000000000)"
    using fits_add [OF assms d] by simp
  have "fits 229 (w + ucast FEE_DENOMINATOR - 1) (n + 1000000000 - 1)"
    by (rule fits_sub [OF s]) simp_all
  then show ?thesis
    using fitsD [OF d] by (simp only: unat_div fitsD div_up_eq_div zero_less_numeral)
qed

lemma rl_included_iff:
  assumes x0: "0 < unat (rl_reference_amount h)"
    and n: "unat (rl_reference_amount h) < unat x"
    and max: "unat (rl_cliff_fee_numerator h) \<le> rl_max_rate h" and inc: "0 < rl_step h"
  shows "get_fee_numerator_from_included_fee_amount h x = Ok r \<longleftrightarrow>
    (\<exists>fee::u64. unat fee =
        div_up (tiered_fee (rl_tiers h) (unat (rl_reference_amount h)) (unat x)) 1000000000 \<and>
      unat r = div_up (unat fee * 1000000000) (unat x))"
proof -
  let ?x0 = "rl_reference_amount h"
  obtain m i where m: "max_fee_numerator_of h = Ok m" "unat m = rl_max_rate h"
    and i: "fee_increment_of h = Ok i" "unat i = rl_step h" "unat i < 2 ^ 33"
    by (rule rl_numerators [of h])
  define nm where "nm = (rl_max_rate h - unat (rl_cliff_fee_numerator h)) div rl_step h"
  have "nm \<le> unat m" unfolding nm_def m(2) by (meson diff_le_self div_le_dividend order_trans)
  then have "nm < 2 ^ LENGTH(64)" using unat_less_pow [of m] by (rule le_less_trans)
  then have u: "unat (of_nat nm :: u64) = nm" by (rule unat_of_nat_small)
  then have k: "get_max_index h = Ok (of_nat nm)"
    unfolding get_max_index_iff using max inc by (simp only: nm_def simp_thms)
  have sub: "safe_sub x ?x0 = Ok (x - ?x0)" and usub: "unat (x - ?x0) = unat x - unat ?x0"
    using n by (simp_all add: ok_iffs unat_sub word_le_unat)
  define a where "a = (x - ?x0) div ?x0"
  define b where "b = (x - ?x0) mod ?x0"
  have ua: "unat a = (unat x - unat ?x0) div unat ?x0" and ub: "unat b = (unat x - unat ?x0) mod unat ?x0"
    by (simp_all only: a_def b_def unat_div unat_mod usub)
  have fi: "fits 33 (ucast i :: u256) (rl_step h)" using i(2,3) by (simp add: fits_def)
  have fk: "fits 64 (ucast (of_nat nm :: u64) :: u256) nm" using fits_u64 [of "of_nat nm"] by (simp only: u)
  define w where "w = trading_fee_numerator (ucast (rl_cliff_fee_numerator h)) (ucast i) (ucast ?x0)
    (ucast a) (ucast b) (ucast (of_nat nm :: u64)) m"
  define total where "total = tiered_fee (rl_tiers h) (unat ?x0) (unat x)"
  have "fits 228 w total"
    using trading_fee_numerator_fits [OF fits_u64 fi fits_u64 fits_u64 fits_u64 fk,
        of "rl_cliff_fee_numerator h" ?x0 a b m]
    unfolding w_def total_def rl_tiers_def ua ub m(2) closed_form_is_tiered [OF x0 n] nm_def .
  note up = trading_fee_rounds_up [OF this]
  have nz: "?x0 \<noteq> 0" "\<not> x \<le> ?x0" using x0 n by (auto simp: word_le_unat)
  have "get_fee_numerator_from_included_fee_amount h x =
    rbind (ok_or (try_narrow ((w + ucast FEE_DENOMINATOR - 1) div ucast FEE_DENOMINATOR))
      TypeCastFailed) (\<lambda>fee. safe_mul_div_cast_u64 fee FEE_DENOMINATOR x Up)"
    unfolding get_fee_numerator_from_included_fee_amount_def
    by (simp add: nz m(1) i(1) sub k Let_def w_def a_def b_def)
  also have "\<dots> = Ok r \<longleftrightarrow> (\<exists>fee::u64. unat fee = div_up total 1000000000 \<and>
      unat r = div_up (unat fee * 1000000000) (unat x))"
    using n by (simp only: rbind_Ok_iff ok_or_Ok_iff try_narrow_iff up) (simp add: ok_iffs unat_fee_consts)
  finally show ?thesis by (simp only: total_def)
qed

lemma tiered_fee_bounds:
  assumes "\<And>k. lo \<le> f k" and "\<And>k. f k \<le> hi"
  shows "lo * n \<le> tiered_fee f x0 n" and "tiered_fee f x0 n \<le> hi * n"
  unfolding tiered_fee_def
  using sum_bounded_below [of "{..<n}" lo "\<lambda>t. f (t div x0)"]
    sum_bounded_above [of "{..<n}" "\<lambda>t. f (t div x0)" hi] assms
  by (simp_all add: mult.commute)

lemma rl_tiers_bounds:
  assumes max: "unat (rl_cliff_fee_numerator h) \<le> rl_max_rate h"
  shows "unat (rl_cliff_fee_numerator h) \<le> rl_tiers h k" and "rl_tiers h k \<le> rl_max_rate h"
proof -
  let ?c = "unat (rl_cliff_fee_numerator h)" and ?i = "rl_step h"
  show "?c \<le> rl_tiers h k" using max by (simp add: rl_tiers_def tier_rate_def)
  have "?c + ?i * k \<le> rl_max_rate h" if "k \<le> (rl_max_rate h - ?c) div ?i"
  proof -
    have "k * ?i \<le> (rl_max_rate h - ?c) div ?i * ?i" using that by (rule mult_right_mono) simp
    also have "\<dots> \<le> rl_max_rate h - ?c" by (rule div_mult_le_self)
    finally show ?thesis using max by (simp add: mult.commute)
  qed
  then show "rl_tiers h k \<le> rl_max_rate h" by (simp add: rl_tiers_def tier_rate_def)
qed

lemma rl_included_defined:
  assumes "get_fee_numerator_from_included_fee_amount h x = Ok r"
    and "unat (rl_reference_amount h) < unat x"
  shows "0 < unat (rl_reference_amount h)" and "unat (rl_cliff_fee_numerator h) \<le> rl_max_rate h"
    and "0 < rl_step h"
  using assms
  by (auto simp: get_fee_numerator_from_included_fee_amount_def word_le_unat rbind_Ok_iff
      assert_panic_Ok_iff Let_def get_max_index_iff unat_gt_0)

text \<open>No amount pays less than the cliff rate.\<close>

lemma rl_included_ge_cliff:
  assumes "get_fee_numerator_from_included_fee_amount h x = Ok r"
  shows "unat (rl_cliff_fee_numerator h) \<le> unat r"
proof (cases "unat x \<le> unat (rl_reference_amount h)")
  case True
  then show ?thesis using assms
    by (simp add: get_fee_numerator_from_included_fee_amount_def word_le_unat)
next
  case False
  then have n: "unat (rl_reference_amount h) < unat x" by simp
  note d = rl_included_defined [OF assms n]
  let ?c = "unat (rl_cliff_fee_numerator h)" and ?D = "1000000000 :: nat"
  let ?t = "tiered_fee (rl_tiers h) (unat (rl_reference_amount h)) (unat x)"
  obtain fee :: u64 where fee: "unat fee = div_up ?t ?D" and r: "unat r = div_up (unat fee * ?D) (unat x)"
    using assms unfolding rl_included_iff [OF d(1) n d(2,3)] by blast
  have "?c * unat x \<le> ?t" by (rule tiered_fee_bounds) (rule rl_tiers_bounds [OF d(2)])+
  also have "\<dots> \<le> unat fee * ?D" unfolding fee by (rule div_up_bounds) simp
  also have "\<dots> \<le> unat r * unat x" unfolding r by (rule div_up_bounds) (use n in simp)
  finally show ?thesis using n by simp
qed

text \<open>With a largest rate of at most one, every amount has a rate, of at most one.\<close>

lemma rl_included_total:
  assumes "0 < unat (rl_reference_amount h)" and "0 < rl_step h"
    and "unat (rl_cliff_fee_numerator h) \<le> rl_max_rate h" and le: "rl_max_rate h \<le> 1000000000"
  shows "\<exists>r. get_fee_numerator_from_included_fee_amount h x = Ok r \<and>
    unat (rl_cliff_fee_numerator h) \<le> unat r \<and> unat r \<le> 1000000000"
proof (cases "unat x \<le> unat (rl_reference_amount h)")
  case True
  then show ?thesis using assms
    by (simp add: get_fee_numerator_from_included_fee_amount_def word_le_unat)
next
  case False
  then have n: "unat (rl_reference_amount h) < unat x" by simp
  let ?D = "1000000000 :: nat"
  let ?t = "tiered_fee (rl_tiers h) (unat (rl_reference_amount h)) (unat x)"
  have "?t \<le> rl_max_rate h * unat x" by (rule tiered_fee_bounds) (rule rl_tiers_bounds [OF assms(3)])+
  also have "\<dots> \<le> ?D * unat x" using le by (rule mult_right_mono) simp
  finally have f: "div_up ?t ?D \<le> unat x" by (intro div_up_least) (simp_all add: mult.commute)
  then have "div_up ?t ?D < 2 ^ LENGTH(64)" using unat_less_pow [of x] by (rule le_less_trans)
  then have uf: "unat (of_nat (div_up ?t ?D) :: u64) = div_up ?t ?D" by (rule unat_of_nat_small)
  define q where "q = div_up (div_up ?t ?D * ?D) (unat x)"
  have q: "q \<le> ?D" unfolding q_def using f n by (intro div_up_least) simp_all
  then have "q < 2 ^ LENGTH(64)" by simp
  then have uq: "unat (of_nat q :: u64) = q" by (rule unat_of_nat_small)
  have "get_fee_numerator_from_included_fee_amount h x = Ok (of_nat q)"
    unfolding rl_included_iff [OF assms(1) n assms(3,2)] uq
    by (rule exI [of _ "of_nat (div_up ?t ?D)"]) (simp only: uf q_def simp_thms)
  with q uq rl_included_ge_cliff [OF this] show ?thesis by auto
qed

lemma rl_excluded_ge_cliff:
  assumes "get_fee_numerator_from_excluded_fee_amount h x = Ok r"
  shows "unat (rl_cliff_fee_numerator h) \<le> unat r"
  using assms
  by (auto simp: get_fee_numerator_from_excluded_fee_amount_def rbind_Ok_iff word_le_unat
      require_Ok_iff split: if_splits prod.splits dest: rl_included_ge_cliff)

section \<open>The handler keeps the interface\<close>

lemma rl_validate_D:
  assumes "rl_validate h m t = Ok ()"
  shows "m = OnlyB" and "unat MIN_FEE_NUMERATOR \<le> unat (rl_cliff_fee_numerator h)"
    and "unat (rl_cliff_fee_numerator h) \<le> rl_max_rate h" and "is_non_zero_rate_limiter h"
    and "rl_max_rate h \<le> 990000000"
proof -
  obtain mx i where mx: "max_fee_numerator_of h = Ok mx" "unat mx = rl_max_rate h"
    by (rule rl_numerators [of h])
  have v: "m = OnlyB" "MIN_FEE_NUMERATOR \<le> rl_cliff_fee_numerator h" "rl_cliff_fee_numerator h \<le> mx"
    "is_zero_rate_limiter h \<or> is_non_zero_rate_limiter h \<and>
      ucast (rl_max_fee_bps h) \<le> MAX_FEE_BPS_V1"
    using assms by (auto simp: rl_validate_def mx(1) Let_def rbind_Ok_iff require_Ok_iff
        get_max_fee_bps_def CURRENT_POOL_VERSION_def split: if_splits)
  then show "m = OnlyB" and lo: "unat MIN_FEE_NUMERATOR \<le> unat (rl_cliff_fee_numerator h)"
    and c: "unat (rl_cliff_fee_numerator h) \<le> rl_max_rate h"
    by (simp_all add: word_le_unat mx(2))
  have "\<not> is_zero_rate_limiter h"
    using lo c by (auto simp: is_zero_rate_limiter_def unat_fee_consts)
  with v(4) show "is_non_zero_rate_limiter h" and "rl_max_rate h \<le> 990000000"
    by (simp_all add: word_le_unat MAX_FEE_BPS_V1_def)
qed

text \<open>The case \<^verbatim>\<open>is_zero_rate_limiter\<close> of \<^verbatim>\<open>validate\<close> is never reached with \<open>Ok\<close>.\<close>

lemma rl_zero_never_validates: "is_zero_rate_limiter h \<Longrightarrow> rl_validate h m t \<noteq> Ok ()"
  using rl_validate_D(4) [of h m t]
  by (auto simp: is_zero_rate_limiter_def is_non_zero_rate_limiter_def)

interpretation rl: base_fee_handler rl_validate rl_from_included rl_from_excluded
  rl_get_min_base_fee_numerator
proof
  fix h m t
  assume "rl_validate h m t = Ok ()"
  then show "\<exists>mn. rl_get_min_base_fee_numerator h = Ok mn \<and> unat MIN_FEE_NUMERATOR \<le> unat mn"
    using rl_validate_D(2) by (simp add: rl_get_min_base_fee_numerator_def)
qed (auto simp: rl_from_included_def rl_from_excluded_def rl_get_min_base_fee_numerator_def
    rbind_Ok_iff split: if_splits dest: rl_included_ge_cliff rl_excluded_ge_cliff)

text \<open>A rate limiter that validates has a fee for every buy at every time.\<close>

lemma rl_from_included_total:
  assumes "rl_validate h m t = Ok ()"
  shows "\<exists>r. rl_from_included h cp ap d x p0 p = Ok r \<and>
    unat (rl_cliff_fee_numerator h) \<le> unat r \<and> unat r \<le> 1000000000"
proof -
  note v = rl_validate_D [OF assms]
  have nz: "0 < unat (rl_reference_amount h)" "0 < rl_step h"
    using v(4) by (simp_all add: is_non_zero_rate_limiter_def unat_gt_0)
  have le: "rl_max_rate h \<le> 1000000000" using v(5) by simp
  obtain r where r: "get_fee_numerator_from_included_fee_amount h x = Ok r"
    "unat (rl_cliff_fee_numerator h) \<le> unat r" "unat r \<le> 1000000000"
    using rl_included_total [OF nz v(3) le] by blast
  have "unat (ucast ap :: u128) + unat (ucast (rl_max_limiter_duration h) :: u128) < 2 ^ LENGTH(128)"
    using unat_bounds(3) [of "rl_max_limiter_duration h"] unat_bounds(4) [of ap] by simp
  note q = safe_add_no_overflow(1) [OF this]
  define v' where "v' = (\<not> is_zero_rate_limiter h \<and> d \<noteq> AtoB \<and> \<not> cp < ap \<and>
    \<not> (ucast ap :: u128) + ucast (rl_max_limiter_duration h) < ucast cp)"
  have "is_rate_limiter_applied h cp ap d = Ok v'"
    unfolding is_rate_limiter_applied_def q rbind_simps v'_def by simp
  then show ?thesis using r v(3) le by (cases v') (simp_all add: rl_from_included_def)
qed

end
