(* ===== verification/Base_Fee.thy ===== *)
theory Base_Fee
  imports Byte_Layout Time_Scheduler Market_Cap_Scheduler Rate_Limiter
begin

text \<open>
  \<^verbatim>\<open>base_fee/base_fee_serde.rs\<close> and the \<^verbatim>\<open>BaseFeeInfo\<close> and \<^verbatim>\<open>BaseFeeParameters\<close> arrays: one array of
  bytes holds whichever of the three base fees the pool has, in a packed layout in instruction data
  (30 bytes, the mode at offset 26) and in an aligned layout in the accounts (32 bytes, the mode at
  offset 8). The dispatch on the mode byte is here, and the interface of the handlers for it.

  The aligned read of \<^verbatim>\<open>bytemuck\<close> also asks that the array starts at a multiple of eight, which the
  layout of the accounts gives.
\<close>

type_synonym base_fee_info = bytes
type_synonym base_fee_parameters = bytes

definition BASE_FEE_INFO_SPACE :: nat where "BASE_FEE_INFO_SPACE = 32"
definition BASE_FEE_PARAMETERS_SPACE :: nat where "BASE_FEE_PARAMETERS_SPACE = 30"

section \<open>The three layouts\<close>

definition borsh_time_scheduler :: "bytes \<Rightarrow> time_scheduler result" where
  "borsh_time_scheduler data =
     (if length data = BASE_FEE_PARAMETERS_SPACE then
        Ok \<lparr> ts_cliff_fee_numerator = get 0 8 data, ts_base_fee_mode = get 26 1 data,
             ts_number_of_period = get 8 2 data, ts_period_frequency = get 10 8 data,
             ts_reduction_factor = get 18 8 data \<rparr>
      else Inl Foreign)"

definition ts_to_pod_aligned_bytes :: "time_scheduler \<Rightarrow> bytes" where
  "ts_to_pod_aligned_bytes self =
     put 8 (ts_cliff_fee_numerator self) @ put 1 (ts_base_fee_mode self) @ replicate 5 0 @
     put 2 (ts_number_of_period self) @ put 8 (ts_period_frequency self) @
     put 8 (ts_reduction_factor self)"

definition pod_time_scheduler :: "bytes \<Rightarrow> time_scheduler result" where
  "pod_time_scheduler data =
     (if length data = BASE_FEE_INFO_SPACE then
        Ok \<lparr> ts_cliff_fee_numerator = get 0 8 data, ts_base_fee_mode = get 8 1 data,
             ts_number_of_period = get 14 2 data, ts_period_frequency = get 16 8 data,
             ts_reduction_factor = get 24 8 data \<rparr>
      else Err UndeterminedError)"

definition ts_to_borsh_bytes :: "time_scheduler \<Rightarrow> bytes" where
  "ts_to_borsh_bytes self =
     put 8 (ts_cliff_fee_numerator self) @ put 2 (ts_number_of_period self) @
     put 8 (ts_period_frequency self) @ put 8 (ts_reduction_factor self) @
     put 1 (ts_base_fee_mode self) @ replicate 3 0"

definition borsh_rate_limiter :: "bytes \<Rightarrow> rate_limiter result" where
  "borsh_rate_limiter data =
     (if length data = BASE_FEE_PARAMETERS_SPACE then
        Ok \<lparr> rl_cliff_fee_numerator = get 0 8 data, rl_base_fee_mode = get 26 1 data,
             rl_fee_increment_bps = get 8 2 data, rl_max_limiter_duration = get 10 4 data,
             rl_max_fee_bps = get 14 4 data, rl_reference_amount = get 18 8 data \<rparr>
      else Inl Foreign)"

definition rl_to_pod_aligned_bytes :: "rate_limiter \<Rightarrow> bytes" where
  "rl_to_pod_aligned_bytes self =
     put 8 (rl_cliff_fee_numerator self) @ put 1 (rl_base_fee_mode self) @ replicate 5 0 @
     put 2 (rl_fee_increment_bps self) @ put 4 (rl_max_limiter_duration self) @
     put 4 (rl_max_fee_bps self) @ put 8 (rl_reference_amount self)"

definition pod_rate_limiter :: "bytes \<Rightarrow> rate_limiter result" where
  "pod_rate_limiter data =
     (if length data = BASE_FEE_INFO_SPACE then
        Ok \<lparr> rl_cliff_fee_numerator = get 0 8 data, rl_base_fee_mode = get 8 1 data,
             rl_fee_increment_bps = get 14 2 data, rl_max_limiter_duration = get 16 4 data,
             rl_max_fee_bps = get 20 4 data, rl_reference_amount = get 24 8 data \<rparr>
      else Err UndeterminedError)"

definition rl_to_borsh_bytes :: "rate_limiter \<Rightarrow> bytes" where
  "rl_to_borsh_bytes self =
     put 8 (rl_cliff_fee_numerator self) @ put 2 (rl_fee_increment_bps self) @
     put 4 (rl_max_limiter_duration self) @ put 4 (rl_max_fee_bps self) @
     put 8 (rl_reference_amount self) @ put 1 (rl_base_fee_mode self) @ replicate 3 0"

definition borsh_market_cap_scheduler :: "bytes \<Rightarrow> market_cap_scheduler result" where
  "borsh_market_cap_scheduler data =
     (if length data = BASE_FEE_PARAMETERS_SPACE then
        Ok \<lparr> mc_cliff_fee_numerator = get 0 8 data, mc_base_fee_mode = get 26 1 data,
             mc_number_of_period = get 8 2 data, mc_sqrt_price_step_bps = get 10 4 data,
             mc_scheduler_expiration_duration = get 14 4 data,
             mc_reduction_factor = get 18 8 data \<rparr>
      else Inl Foreign)"

definition mc_to_pod_aligned_bytes :: "market_cap_scheduler \<Rightarrow> bytes" where
  "mc_to_pod_aligned_bytes self =
     put 8 (mc_cliff_fee_numerator self) @ put 1 (mc_base_fee_mode self) @ replicate 5 0 @
     put 2 (mc_number_of_period self) @ put 4 (mc_sqrt_price_step_bps self) @
     put 4 (mc_scheduler_expiration_duration self) @ put 8 (mc_reduction_factor self)"

definition pod_market_cap_scheduler :: "bytes \<Rightarrow> market_cap_scheduler result" where
  "pod_market_cap_scheduler data =
     (if length data = BASE_FEE_INFO_SPACE then
        Ok \<lparr> mc_cliff_fee_numerator = get 0 8 data, mc_base_fee_mode = get 8 1 data,
             mc_number_of_period = get 14 2 data, mc_sqrt_price_step_bps = get 16 4 data,
             mc_scheduler_expiration_duration = get 20 4 data,
             mc_reduction_factor = get 24 8 data \<rparr>
      else Err UndeterminedError)"

definition mc_to_borsh_bytes :: "market_cap_scheduler \<Rightarrow> bytes" where
  "mc_to_borsh_bytes self =
     put 8 (mc_cliff_fee_numerator self) @ put 2 (mc_number_of_period self) @
     put 4 (mc_sqrt_price_step_bps self) @ put 4 (mc_scheduler_expiration_duration self) @
     put 8 (mc_reduction_factor self) @ put 1 (mc_base_fee_mode self) @ replicate 3 0"

section \<open>Dispatch on the mode byte\<close>

definition byte_at :: "bytes \<Rightarrow> nat \<Rightarrow> u8 option" where
  "byte_at data i = (if i < length data then Some (data ! i) else None)"

definition params_get_base_fee_mode :: "base_fee_parameters \<Rightarrow> base_fee_mode result" where
  "params_get_base_fee_mode data =
     rbind (ok_or (byte_at data 26) UndeterminedError) (\<lambda>mode_byte.
     ok_or (base_fee_mode_of_u8 mode_byte) InvalidBaseFeeMode)"

definition info_get_base_fee_mode :: "base_fee_info \<Rightarrow> base_fee_mode result" where
  "info_get_base_fee_mode data =
     rbind (ok_or (byte_at data 8) UndeterminedError) (\<lambda>mode_byte.
     ok_or (base_fee_mode_of_u8 mode_byte) InvalidBaseFeeMode)"

definition base_fee_parameters_to_base_fee_info :: "base_fee_parameters \<Rightarrow> base_fee_info result" where
  "base_fee_parameters_to_base_fee_info from_data =
     rbind (params_get_base_fee_mode from_data) (\<lambda>base_fee_mode.
     case base_fee_mode of
       FeeTimeSchedulerExponential \<Rightarrow>
         rbind (borsh_time_scheduler from_data) (\<lambda>s. Ok (ts_to_pod_aligned_bytes s))
     | FeeTimeSchedulerLinear \<Rightarrow>
         rbind (borsh_time_scheduler from_data) (\<lambda>s. Ok (ts_to_pod_aligned_bytes s))
     | RateLimiter \<Rightarrow>
         rbind (borsh_rate_limiter from_data) (\<lambda>s. Ok (rl_to_pod_aligned_bytes s))
     | FeeMarketCapSchedulerExponential \<Rightarrow>
         rbind (borsh_market_cap_scheduler from_data) (\<lambda>s. Ok (mc_to_pod_aligned_bytes s))
     | FeeMarketCapSchedulerLinear \<Rightarrow>
         rbind (borsh_market_cap_scheduler from_data) (\<lambda>s. Ok (mc_to_pod_aligned_bytes s)))"

definition base_fee_info_to_base_fee_parameters :: "base_fee_info \<Rightarrow> base_fee_parameters result" where
  "base_fee_info_to_base_fee_parameters from_data =
     rbind (info_get_base_fee_mode from_data) (\<lambda>base_fee_mode.
     case base_fee_mode of
       FeeTimeSchedulerExponential \<Rightarrow>
         rbind (pod_time_scheduler from_data) (\<lambda>s. Ok (ts_to_borsh_bytes s))
     | FeeTimeSchedulerLinear \<Rightarrow>
         rbind (pod_time_scheduler from_data) (\<lambda>s. Ok (ts_to_borsh_bytes s))
     | RateLimiter \<Rightarrow>
         rbind (pod_rate_limiter from_data) (\<lambda>s. Ok (rl_to_borsh_bytes s))
     | FeeMarketCapSchedulerExponential \<Rightarrow>
         rbind (pod_market_cap_scheduler from_data) (\<lambda>s. Ok (mc_to_borsh_bytes s))
     | FeeMarketCapSchedulerLinear \<Rightarrow>
         rbind (pod_market_cap_scheduler from_data) (\<lambda>s. Ok (mc_to_borsh_bytes s)))"

text \<open>\<^verbatim>\<open>Box<dyn BaseFeeHandler>\<close>: one of the three.\<close>

datatype handler =
  TimeHandler time_scheduler | LimiterHandler rate_limiter | MarketCapHandler market_cap_scheduler

definition info_get_base_fee_handler :: "base_fee_info \<Rightarrow> handler result" where
  "info_get_base_fee_handler data =
     rbind (info_get_base_fee_mode data) (\<lambda>base_fee_mode.
     case base_fee_mode of
       FeeTimeSchedulerExponential \<Rightarrow> rbind (pod_time_scheduler data) (\<lambda>s. Ok (TimeHandler s))
     | FeeTimeSchedulerLinear \<Rightarrow> rbind (pod_time_scheduler data) (\<lambda>s. Ok (TimeHandler s))
     | RateLimiter \<Rightarrow> rbind (pod_rate_limiter data) (\<lambda>s. Ok (LimiterHandler s))
     | FeeMarketCapSchedulerExponential \<Rightarrow>
         rbind (pod_market_cap_scheduler data) (\<lambda>s. Ok (MarketCapHandler s))
     | FeeMarketCapSchedulerLinear \<Rightarrow>
         rbind (pod_market_cap_scheduler data) (\<lambda>s. Ok (MarketCapHandler s)))"

definition params_get_base_fee_handler :: "base_fee_parameters \<Rightarrow> handler result" where
  "params_get_base_fee_handler data =
     rbind (base_fee_parameters_to_base_fee_info data) info_get_base_fee_handler"

definition update_cliff_fee_numerator :: "base_fee_info \<Rightarrow> u64 \<Rightarrow> base_fee_info result" where
  "update_cliff_fee_numerator data new_cliff_fee_numerator =
     rbind (info_get_base_fee_mode data) (\<lambda>base_fee_mode.
     require (length data = BASE_FEE_INFO_SPACE) UndeterminedError
       (Ok (put 8 new_cliff_fee_numerator @ drop 8 data)))"

definition to_fee_rate_limiter :: "base_fee_info \<Rightarrow> rate_limiter result" where
  "to_fee_rate_limiter data =
     rbind (info_get_base_fee_mode data) (\<lambda>base_fee_mode.
     require (base_fee_mode = RateLimiter) InvalidBaseFeeMode (pod_rate_limiter data))"

fun handler_validate :: "handler \<Rightarrow> collect_fee_mode \<Rightarrow> activation_type \<Rightarrow> unit result" where
  "handler_validate (TimeHandler h) = ts_validate h"
| "handler_validate (LimiterHandler h) = rl_validate h"
| "handler_validate (MarketCapHandler h) = mc_validate h"

fun handler_from_included :: "handler fee_fn" where
  "handler_from_included (TimeHandler h) = ts_from_included h"
| "handler_from_included (LimiterHandler h) = rl_from_included h"
| "handler_from_included (MarketCapHandler h) = mc_from_included h"

fun handler_from_excluded :: "handler fee_fn" where
  "handler_from_excluded (TimeHandler h) = ts_from_excluded h"
| "handler_from_excluded (LimiterHandler h) = rl_from_excluded h"
| "handler_from_excluded (MarketCapHandler h) = mc_from_excluded h"

fun handler_is_static :: "handler \<Rightarrow> u64 \<Rightarrow> u64 \<Rightarrow> bool result" where
  "handler_is_static (TimeHandler h) = ts_validate_base_fee_is_static h"
| "handler_is_static (LimiterHandler h) = rl_validate_base_fee_is_static h"
| "handler_is_static (MarketCapHandler h) = mc_validate_base_fee_is_static h"

fun handler_get_min :: "handler \<Rightarrow> u64 result" where
  "handler_get_min (TimeHandler h) = ts_get_min_base_fee_numerator h"
| "handler_get_min (LimiterHandler h) = rl_get_min_base_fee_numerator h"
| "handler_get_min (MarketCapHandler h) = mc_get_min_base_fee_numerator h"

interpretation bf: base_fee_handler handler_validate handler_from_included handler_from_excluded
  handler_get_min
proof
  fix h m t mn cp ap d x p0 p fee
  assume v: "handler_validate h m t = Ok ()" and g: "handler_get_min h = Ok mn"
  show "unat mn \<le> unat fee" if "handler_from_included h cp ap d x p0 p = Ok fee"
    using v g that by (cases h) (auto dest: ts.included_min rl.included_min mc.included_min)
  show "unat mn \<le> unat fee" if "handler_from_excluded h cp ap d x p0 p = Ok fee"
    using v g that by (cases h) (auto dest: ts.excluded_min rl.excluded_min mc.excluded_min)
next
  fix h m t
  assume "handler_validate h m t = Ok ()"
  then show "\<exists>mn. handler_get_min h = Ok mn \<and> unat MIN_FEE_NUMERATOR \<le> unat mn"
    by (cases h) (auto dest: ts.validate_min rl.validate_min mc.validate_min)
qed

section \<open>The layouts agree\<close>

text \<open>Reading a field that was written, wherever it is in the record.\<close>

lemmas layout_defs =
  borsh_time_scheduler_def ts_to_pod_aligned_bytes_def pod_time_scheduler_def ts_to_borsh_bytes_def
  borsh_rate_limiter_def rl_to_pod_aligned_bytes_def pod_rate_limiter_def rl_to_borsh_bytes_def
  borsh_market_cap_scheduler_def mc_to_pod_aligned_bytes_def pod_market_cap_scheduler_def
  mc_to_borsh_bytes_def BASE_FEE_INFO_SPACE_def BASE_FEE_PARAMETERS_SPACE_def

lemma get_skip: "length pre \<le> off \<Longrightarrow> get off n (pre @ bs) = get (off - length pre) n bs"
  by (simp add: get_def)

lemma get_here:
  fixes w :: "'a::len word"
  shows "LENGTH('a) \<le> 8 * n \<Longrightarrow> get 0 n (put n w @ post) = w"
    and "LENGTH('a) \<le> 8 * n \<Longrightarrow> get 0 n (put n w) = w"
  using get_put [of "[]" 0 n w post] get_put [of "[]" 0 n w "[]"] by simp_all

lemma pod_round_trip:
  "pod_time_scheduler (ts_to_pod_aligned_bytes ts) = Ok ts"
  "pod_rate_limiter (rl_to_pod_aligned_bytes rl) = Ok rl"
  "pod_market_cap_scheduler (mc_to_pod_aligned_bytes mc) = Ok mc"
  by (simp_all add: layout_defs get_skip get_here)

lemma borsh_round_trip:
  "borsh_time_scheduler (ts_to_borsh_bytes ts) = Ok ts"
  "borsh_rate_limiter (rl_to_borsh_bytes rl) = Ok rl"
  "borsh_market_cap_scheduler (mc_to_borsh_bytes mc) = Ok mc"
  by (simp_all add: layout_defs get_skip get_here)

lemma take_then: "take m bs @ take n (drop m bs) @ zs = take (m + n) bs @ zs"
  by (simp add: take_add)

lemmas put_get_u64 = put_get [where ?'a = 64, simplified]

text \<open>
  Packed to aligned and back is the identity on the fields: the 27 bytes before the padding.
\<close>

lemma borsh_bytes_of_read:
  assumes "length data = 30"
  shows "borsh_time_scheduler data = Ok ts \<Longrightarrow> ts_to_borsh_bytes ts = take 27 data @ [0, 0, 0]"
    and "borsh_rate_limiter data = Ok rl \<Longrightarrow> rl_to_borsh_bytes rl = take 27 data @ [0, 0, 0]"
    and "borsh_market_cap_scheduler data = Ok mc \<Longrightarrow> mc_to_borsh_bytes mc = take 27 data @ [0, 0, 0]"
  using assms by (auto simp: layout_defs put_get take_then numeral_3_eq_3 simp flip: take_add)

lemma params_mode:
  assumes "length data = 30"
  shows "params_get_base_fee_mode data =
    ok_or (base_fee_mode_of_u8 (get 26 1 data)) InvalidBaseFeeMode"
  using assms by (simp add: params_get_base_fee_mode_def byte_at_def get_byte del: One_nat_def)

lemma info_mode:
  assumes "length data = 32"
  shows "info_get_base_fee_mode data =
    ok_or (base_fee_mode_of_u8 (get 8 1 data)) InvalidBaseFeeMode"
  using assms by (simp add: info_get_base_fee_mode_def byte_at_def get_byte del: One_nat_def)

lemma pod_mode:
  "info_get_base_fee_mode (ts_to_pod_aligned_bytes ts) =
    ok_or (base_fee_mode_of_u8 (ts_base_fee_mode ts)) InvalidBaseFeeMode"
  "info_get_base_fee_mode (rl_to_pod_aligned_bytes rl) =
    ok_or (base_fee_mode_of_u8 (rl_base_fee_mode rl)) InvalidBaseFeeMode"
  "info_get_base_fee_mode (mc_to_pod_aligned_bytes mc) =
    ok_or (base_fee_mode_of_u8 (mc_base_fee_mode mc)) InvalidBaseFeeMode"
  by (subst info_mode; simp add: layout_defs get_skip get_here)+

lemma params_info_params:
  assumes len: "length data = BASE_FEE_PARAMETERS_SPACE"
    and ok: "base_fee_parameters_to_base_fee_info data = Ok info"
  shows "base_fee_info_to_base_fee_parameters info = Ok (take 27 data @ [0, 0, 0])"
    and "info_get_base_fee_mode info = params_get_base_fee_mode data"
    and "length info = BASE_FEE_INFO_SPACE"
proof -
  have l: "length data = 30" using len by (simp add: BASE_FEE_PARAMETERS_SPACE_def)
  obtain mode where m: "params_get_base_fee_mode data = Ok mode"
    and mb: "base_fee_mode_of_u8 (get 26 1 data) = Some mode"
    using ok by (auto simp: base_fee_parameters_to_base_fee_info_def rbind_Ok_iff params_mode [OF l]
        ok_or_Ok_iff)
  note defs = base_fee_parameters_to_base_fee_info_def base_fee_info_to_base_fee_parameters_def m
    rbind_Ok_iff pod_round_trip pod_mode
  have "base_fee_info_to_base_fee_parameters info = Ok (take 27 data @ [0, 0, 0]) \<and>
    info_get_base_fee_mode info = Ok mode \<and> length info = 32"
  proof (cases mode)
    case FeeTimeSchedulerLinear
    obtain s where s: "borsh_time_scheduler data = Ok s" "info = ts_to_pod_aligned_bytes s"
      using ok FeeTimeSchedulerLinear by (auto simp: defs)
    then have "ts_base_fee_mode s = get 26 1 data" "length info = 32"
      using l by (auto simp: layout_defs)
    then show ?thesis using FeeTimeSchedulerLinear mb s borsh_bytes_of_read(1) [OF l s(1)]
      by (simp add: defs)
  next
    case FeeTimeSchedulerExponential
    obtain s where s: "borsh_time_scheduler data = Ok s" "info = ts_to_pod_aligned_bytes s"
      using ok FeeTimeSchedulerExponential by (auto simp: defs)
    then have "ts_base_fee_mode s = get 26 1 data" "length info = 32"
      using l by (auto simp: layout_defs)
    then show ?thesis using FeeTimeSchedulerExponential mb s borsh_bytes_of_read(1) [OF l s(1)]
      by (simp add: defs)
  next
    case RateLimiter
    obtain s where s: "borsh_rate_limiter data = Ok s" "info = rl_to_pod_aligned_bytes s"
      using ok RateLimiter by (auto simp: defs)
    then have "rl_base_fee_mode s = get 26 1 data" "length info = 32"
      using l by (auto simp: layout_defs)
    then show ?thesis using RateLimiter mb s borsh_bytes_of_read(2) [OF l s(1)]
      by (simp add: defs)
  next
    case FeeMarketCapSchedulerLinear
    obtain s where s: "borsh_market_cap_scheduler data = Ok s" "info = mc_to_pod_aligned_bytes s"
      using ok FeeMarketCapSchedulerLinear by (auto simp: defs)
    then have "mc_base_fee_mode s = get 26 1 data" "length info = 32"
      using l by (auto simp: layout_defs)
    then show ?thesis using FeeMarketCapSchedulerLinear mb s borsh_bytes_of_read(3) [OF l s(1)]
      by (simp add: defs)
  next
    case FeeMarketCapSchedulerExponential
    obtain s where s: "borsh_market_cap_scheduler data = Ok s" "info = mc_to_pod_aligned_bytes s"
      using ok FeeMarketCapSchedulerExponential by (auto simp: defs)
    then have "mc_base_fee_mode s = get 26 1 data" "length info = 32"
      using l by (auto simp: layout_defs)
    then show ?thesis using FeeMarketCapSchedulerExponential mb s borsh_bytes_of_read(3) [OF l s(1)]
      by (simp add: defs)
  qed
  then show "base_fee_info_to_base_fee_parameters info = Ok (take 27 data @ [0, 0, 0])"
    and "info_get_base_fee_mode info = params_get_base_fee_mode data"
    and "length info = BASE_FEE_INFO_SPACE" by (simp_all add: m BASE_FEE_INFO_SPACE_def)
qed

text \<open>Updating the cliff changes the cliff and keeps every other field.\<close>

fun handler_with_cliff :: "u64 \<Rightarrow> handler \<Rightarrow> handler" where
  "handler_with_cliff c (TimeHandler h) = TimeHandler (h\<lparr>ts_cliff_fee_numerator := c\<rparr>)"
| "handler_with_cliff c (LimiterHandler h) = LimiterHandler (h\<lparr>rl_cliff_fee_numerator := c\<rparr>)"
| "handler_with_cliff c (MarketCapHandler h) = MarketCapHandler (h\<lparr>mc_cliff_fee_numerator := c\<rparr>)"

lemma get_after_cliff:
  "8 \<le> off \<Longrightarrow> get off n (put 8 (c :: u64) @ drop 8 data) = get off n data"
  by (simp add: get_def)

lemma update_cliff_fee_numerator_handler:
  assumes h: "info_get_base_fee_handler data = Ok h" and u: "update_cliff_fee_numerator data c = Ok data'"
  shows "info_get_base_fee_handler data' = Ok (handler_with_cliff c h)"
proof -
  have l: "length data = 32" and d: "data' = put 8 c @ drop 8 data"
    using u by (auto simp: update_cliff_fee_numerator_def ok_iffs BASE_FEE_INFO_SPACE_def)
  have l': "length (put 8 c @ drop 8 data) = 32" using l by simp
  have m: "info_get_base_fee_mode data' = info_get_base_fee_mode data"
    by (simp only: d info_mode [OF l] info_mode [OF l'] get_after_cliff)
  obtain mode where mode: "info_get_base_fee_mode data = Ok mode"
    using h by (auto simp: info_get_base_fee_handler_def rbind_Ok_iff)
  have pods: "pod_time_scheduler data = Ok ts \<Longrightarrow>
      pod_time_scheduler data' = Ok (ts\<lparr>ts_cliff_fee_numerator := c\<rparr>)"
    "pod_rate_limiter data = Ok rl \<Longrightarrow>
      pod_rate_limiter data' = Ok (rl\<lparr>rl_cliff_fee_numerator := c\<rparr>)"
    "pod_market_cap_scheduler data = Ok mc \<Longrightarrow>
      pod_market_cap_scheduler data' = Ok (mc\<lparr>mc_cliff_fee_numerator := c\<rparr>)" for ts rl mc
    unfolding d by (auto simp: layout_defs l get_after_cliff get_here)
  show ?thesis
    using h unfolding info_get_base_fee_handler_def m mode
    by (cases mode) (auto simp: rbind_Ok_iff dest: pods)
qed

end
