(* ===== verification/Dynamic_Fee.thy ===== *)
theory Dynamic_Fee
  imports Fee_Amounts
begin

text \<open>
  The dynamic fee of \<^verbatim>\<open>state/fee.rs\<close> and its parameters in \<^verbatim>\<open>params/fee_parameters.rs\<close>: the fee
  follows a volatility accumulator that swaps drive up and that decays over time. The lemmas show
  that parameters that validate keep the accumulator under its maximum and every step of the
  computation inside 128 bits, so that the dynamic fee never makes a swap fail.
\<close>

record dynamic_fee =
  df_initialized :: u8
  df_max_volatility_accumulator :: u32
  df_variable_fee_control :: u32
  df_bin_step :: u16
  df_filter_period :: u16
  df_decay_period :: u16
  df_reduction_factor :: u16
  df_last_update_timestamp :: u64
  df_bin_step_u128 :: u128
  df_sqrt_price_reference :: u128
  df_volatility_accumulator :: u128
  df_volatility_reference :: u128

definition dynamic_fee_default :: dynamic_fee where
  "dynamic_fee_default =
     \<lparr> df_initialized = 0, df_max_volatility_accumulator = 0, df_variable_fee_control = 0,
       df_bin_step = 0, df_filter_period = 0, df_decay_period = 0, df_reduction_factor = 0,
       df_last_update_timestamp = 0, df_bin_step_u128 = 0, df_sqrt_price_reference = 0,
       df_volatility_accumulator = 0, df_volatility_reference = 0 \<rparr>"

record dynamic_fee_parameters =
  dp_bin_step :: u16
  dp_bin_step_u128 :: u128
  dp_filter_period :: u16
  dp_decay_period :: u16
  dp_reduction_factor :: u16
  dp_max_volatility_accumulator :: u32
  dp_variable_fee_control :: u32

definition to_dynamic_fee_struct :: "dynamic_fee_parameters \<Rightarrow> dynamic_fee" where
  "to_dynamic_fee_struct self = dynamic_fee_default
     \<lparr> df_initialized := 1,
       df_bin_step := dp_bin_step self,
       df_bin_step_u128 := dp_bin_step_u128 self,
       df_filter_period := dp_filter_period self,
       df_decay_period := dp_decay_period self,
       df_reduction_factor := dp_reduction_factor self,
       df_max_volatility_accumulator := dp_max_volatility_accumulator self,
       df_variable_fee_control := dp_variable_fee_control self \<rparr>"

definition dynamic_fee_parameters_validate :: "dynamic_fee_parameters \<Rightarrow> unit result" where
  "dynamic_fee_parameters_validate self =
     require (dp_bin_step self = BIN_STEP_BPS_DEFAULT) InvalidInput
      (require (dp_bin_step_u128 self = BIN_STEP_BPS_U128_DEFAULT) InvalidInput
      (require (dp_filter_period self < dp_decay_period self) InvalidInput
      (require (dp_reduction_factor self \<le> ucast MAX_BASIS_POINT) InvalidInput
      (require (dp_variable_fee_control self \<le> U24_MAX) InvalidInput
      (require (dp_max_volatility_accumulator self \<le> U24_MAX) InvalidInput (Ok ()))))))"

section \<open>Operations\<close>

definition get_delta_bin_id :: "u128 \<Rightarrow> u128 \<Rightarrow> u128 \<Rightarrow> u128 result" where
  "get_delta_bin_id bin_step_u128 sqrt_price_a sqrt_price_b =
     (let (upper_sqrt_price, lower_sqrt_price) =
        (if sqrt_price_b < sqrt_price_a then (sqrt_price_a, sqrt_price_b)
         else (sqrt_price_b, sqrt_price_a)) in
      rbind (safe_shl_div_cast upper_sqrt_price lower_sqrt_price 64 Down) (\<lambda>price_ratio :: u128.
      rbind (safe_sub price_ratio ONE_Q64) (\<lambda>above.
      rbind (safe_div above bin_step_u128) (\<lambda>delta_bin_id.
      safe_mul delta_bin_id 2))))"

definition update_volatility_accumulator :: "dynamic_fee \<Rightarrow> u128 \<Rightarrow> dynamic_fee result" where
  "update_volatility_accumulator self sqrt_price =
     rbind (get_delta_bin_id (df_bin_step_u128 self) sqrt_price (df_sqrt_price_reference self))
       (\<lambda>delta_price.
     rbind (safe_mul delta_price (ucast MAX_BASIS_POINT)) (\<lambda>scaled.
     rbind (safe_add (df_volatility_reference self) scaled) (\<lambda>volatility_accumulator.
     Ok (self\<lparr>df_volatility_accumulator :=
       min volatility_accumulator (ucast (df_max_volatility_accumulator self))\<rparr>))))"

definition saturating_sub :: "'a::len word \<Rightarrow> 'a word \<Rightarrow> 'a word" where
  "saturating_sub x y = (if y \<le> x then x - y else 0)"

definition update_references :: "dynamic_fee \<Rightarrow> u128 \<Rightarrow> u64 \<Rightarrow> dynamic_fee result" where
  "update_references self sqrt_price_current current_timestamp =
     (let elapsed = saturating_sub current_timestamp (df_last_update_timestamp self) in
      if ucast (df_filter_period self) \<le> elapsed then
        (let self = self\<lparr>df_sqrt_price_reference := sqrt_price_current\<rparr> in
         if elapsed < ucast (df_decay_period self) then
           rbind (safe_mul (df_volatility_accumulator self) (ucast (df_reduction_factor self)))
             (\<lambda>scaled.
           rbind (safe_div scaled (ucast MAX_BASIS_POINT)) (\<lambda>volatility_reference.
           Ok (self\<lparr>df_volatility_reference := volatility_reference\<rparr>)))
         else Ok (self\<lparr>df_volatility_reference := 0\<rparr>))
      else Ok self)"

definition is_dynamic_fee_enable :: "dynamic_fee \<Rightarrow> bool" where
  "is_dynamic_fee_enable self \<longleftrightarrow> df_initialized self \<noteq> 0"

definition get_variable_fee :: "dynamic_fee \<Rightarrow> u128 result" where
  "get_variable_fee self =
     (if is_dynamic_fee_enable self then
        rbind (safe_mul (df_volatility_accumulator self) (ucast (df_bin_step self))) (\<lambda>vfa_bin.
        rbind (ok_or (checked_mul vfa_bin vfa_bin) TypeCastFailed) (\<lambda>square_vfa_bin.
        rbind (safe_mul square_vfa_bin (ucast (df_variable_fee_control self))) (\<lambda>v_fee.
        rbind (safe_add v_fee 99999999999) (\<lambda>rounded.
        safe_div rounded 100000000000))))
      else Ok 0)"

section \<open>Well-formed dynamic fees\<close>

text \<open>
  What validation establishes, together with the bounds on the two volatility values that every
  step keeps.
\<close>

definition wf_dynamic_fee :: "dynamic_fee \<Rightarrow> bool" where
  "wf_dynamic_fee d \<longleftrightarrow> is_dynamic_fee_enable d \<longrightarrow>
     df_bin_step d = BIN_STEP_BPS_DEFAULT \<and> df_bin_step_u128 d = BIN_STEP_BPS_U128_DEFAULT \<and>
     unat (df_reduction_factor d) \<le> 10000 \<and> unat (df_variable_fee_control d) < 2 ^ 24 \<and>
     unat (df_max_volatility_accumulator d) < 2 ^ 24 \<and>
     unat (df_volatility_accumulator d) \<le> unat (df_max_volatility_accumulator d) \<and>
     unat (df_volatility_reference d) \<le> unat (df_max_volatility_accumulator d)"

lemma wf_dynamic_fee_default [simp]: "wf_dynamic_fee dynamic_fee_default"
  by (simp add: wf_dynamic_fee_def is_dynamic_fee_enable_def dynamic_fee_default_def)

lemma wf_to_dynamic_fee_struct:
  assumes "dynamic_fee_parameters_validate p = Ok ()"
  shows "wf_dynamic_fee (to_dynamic_fee_struct p)"
proof -
  have "dp_bin_step p = BIN_STEP_BPS_DEFAULT" "dp_bin_step_u128 p = BIN_STEP_BPS_U128_DEFAULT"
    "unat (dp_reduction_factor p) \<le> unat (ucast MAX_BASIS_POINT :: u16)"
    "unat (dp_variable_fee_control p) \<le> unat U24_MAX"
    "unat (dp_max_volatility_accumulator p) \<le> unat U24_MAX"
    using assms by (simp_all add: dynamic_fee_parameters_validate_def require_Ok_iff word_le_unat)
  then show ?thesis
    by (simp add: wf_dynamic_fee_def is_dynamic_fee_enable_def to_dynamic_fee_struct_def
        dynamic_fee_default_def U24_MAX_def MAX_BASIS_POINT_def)
qed

lemma wf_update_volatility_accumulator:
  assumes "wf_dynamic_fee d" and "update_volatility_accumulator d p = Ok d'"
  shows "wf_dynamic_fee d'"
  using assms by (auto simp: update_volatility_accumulator_def rbind_Ok_iff wf_dynamic_fee_def
      is_dynamic_fee_enable_def)

lemma wf_update_references:
  assumes "wf_dynamic_fee d" and "update_references d p t = Ok d'"
  shows "wf_dynamic_fee d'"
proof (cases "is_dynamic_fee_enable d")
  case False
  then show ?thesis using assms(2)
    by (auto simp: update_references_def Let_def rbind_Ok_iff wf_dynamic_fee_def
        is_dynamic_fee_enable_def split: if_splits)
next
  case True
  then have w: "unat (df_reduction_factor d) \<le> 10000"
    "unat (df_volatility_accumulator d) \<le> unat (df_max_volatility_accumulator d)"
    using assms(1) by (simp_all add: wf_dynamic_fee_def)
  have "unat (df_volatility_accumulator d) * unat (df_reduction_factor d) div 10000 \<le>
    unat (df_max_volatility_accumulator d)"
  proof -
    have "unat (df_volatility_accumulator d) * unat (df_reduction_factor d) \<le>
      unat (df_max_volatility_accumulator d) * 10000"
      using w by (intro mult_le_mono)
    then have "unat (df_volatility_accumulator d) * unat (df_reduction_factor d) div 10000 \<le>
      unat (df_max_volatility_accumulator d) * 10000 div 10000" by (rule div_le_mono)
    then show ?thesis by simp
  qed
  with assms True show ?thesis
    by (auto simp: update_references_def Let_def ok_iffs wf_dynamic_fee_def
        is_dynamic_fee_enable_def unat_fee_consts split: if_splits)
qed

text \<open>Decay is computed for every clock.\<close>

lemma update_references_total:
  assumes "wf_dynamic_fee d" and "is_dynamic_fee_enable d"
  shows "\<exists>d'. update_references d p t = Ok d' \<and>
    df_sqrt_price_reference d' \<in> {df_sqrt_price_reference d, p} \<and>
    df_initialized d' = df_initialized d"
proof -
  have "unat (df_volatility_accumulator d) * unat (ucast (df_reduction_factor d) :: u128) <
    2 ^ LENGTH(128)"
    using assms unat_bounds(2) [of "df_reduction_factor d"]
    by (intro mult_less_pow2 [where a = 24 and b = 16]) (simp_all add: wf_dynamic_fee_def)
  note m = safe_mul_no_overflow(1) [OF this]
  have "safe_div w (ucast MAX_BASIS_POINT :: u128) = Ok (w div ucast MAX_BASIS_POINT)" for w
    by (simp add: safe_div_def checked_div_def MAX_BASIS_POINT_def)
  with m show ?thesis by (auto simp: update_references_def Let_def)
qed

text \<open>The variable fee of a well-formed dynamic fee, and that it is far from overflowing.\<close>

lemma get_variable_fee_total:
  assumes "wf_dynamic_fee d"
  shows "\<exists>v. get_variable_fee d = Ok v \<and>
    unat v = (if is_dynamic_fee_enable d
              then div_up ((unat (df_volatility_accumulator d))\<^sup>2 * unat (df_variable_fee_control d))
                100000000000
              else 0) \<and> unat v < 2 ^ 63"
proof (cases "is_dynamic_fee_enable d")
  case False
  then show ?thesis by (simp add: get_variable_fee_def)
next
  case True
  let ?a = "df_volatility_accumulator d" and ?c = "ucast (df_variable_fee_control d) :: u128"
  have w: "df_bin_step d = 1" "unat ?a < 2 ^ 24" "unat (df_variable_fee_control d) < 2 ^ 24"
    using assms True by (simp_all add: wf_dynamic_fee_def BIN_STEP_BPS_DEFAULT_def)
  have one: "safe_mul ?a (ucast (df_bin_step d)) = Ok ?a"
    by (simp add: ok_iffs w(1))
  have sq24: "unat ?a * unat ?a < 2 ^ 48"
    using w(2) by (rule mult_less_pow2 [where a = 24 and b = 24]) (use w(2) in simp_all)
  then have "unat ?a * unat ?a < 2 ^ LENGTH(128)" by simp
  then have sq: "checked_mul ?a ?a = Some (?a * ?a)" and usq: "unat (?a * ?a) = unat ?a * unat ?a"
    using unat_mult_lem [of ?a ?a] by (simp_all add: checked_mul_def)
  have v72: "unat (?a * ?a) * unat ?c < 2 ^ 72"
    unfolding usq using sq24 by (rule mult_less_pow2 [where b = 24]) (use w(3) in simp_all)
  then have "unat (?a * ?a) * unat ?c < 2 ^ LENGTH(128)" by simp
  note v = safe_mul_no_overflow [OF this]
  have "unat (?a * ?a * ?c) + unat (99999999999 :: u128) < 2 ^ LENGTH(128)"
    unfolding v(2) using v72 by simp
  note r = safe_add_no_overflow [OF this]
  have d: "safe_div x (100000000000 :: u128) = Ok (x div 100000000000)" for x
    by (simp add: safe_div_def checked_div_def)
  define n where "n = (unat ?a)\<^sup>2 * unat (df_variable_fee_control d)"
  have n: "unat (?a * ?a * ?c) = n" unfolding v(2) usq by (simp add: n_def power2_eq_square)
  have n72: "n < 2 ^ 72" using v72 v(2) n by simp
  have g: "get_variable_fee d = Ok ((?a * ?a * ?c + 99999999999) div 100000000000)"
    using True by (simp add: get_variable_fee_def one sq v(1) r(1) d)
  have u: "unat ((?a * ?a * ?c + 99999999999) div 100000000000) = (n + 99999999999) div 100000000000"
    by (simp add: unat_div r(2) n)
  have "(n + 99999999999) div 100000000000 = div_up n 100000000000"
    by (subst div_up_eq_div) simp_all
  moreover have "(n + 99999999999) div 100000000000 < 2 ^ 63" using n72 by simp
  ultimately show ?thesis using g u True by (auto simp: n_def)
qed

text \<open>Between the extreme prices of the program the accumulator is computed for every pair.\<close>

lemma get_delta_bin_id_total:
  assumes "unat MIN_SQRT_PRICE \<le> unat a" "unat a \<le> unat MAX_SQRT_PRICE"
    and "unat MIN_SQRT_PRICE \<le> unat b" "unat b \<le> unat MAX_SQRT_PRICE"
  shows "\<exists>n. get_delta_bin_id BIN_STEP_BPS_U128_DEFAULT a b = Ok n \<and> unat n < 2 ^ 80"
proof -
  obtain up lo where ul: "(if b < a then (a, b) else (b, a)) = (up, lo)" "unat lo \<le> unat up"
    "4295048016 \<le> unat lo" "unat up \<le> 79226673521066979257578248091"
    using assms by (cases "b < a") (auto simp: word_less_unat amm_consts)
  define q where "q = unat up * 2 ^ 64 div unat lo"
  have "unat up * 2 ^ 64 div unat lo \<le> 79226673521066979257578248091 * 2 ^ 64 div 4295048016"
    using ul(3,4) by (meson div_le_mono div_le_mono2 mult_le_mono1 order_trans zero_less_numeral
        less_le_trans)
  then have q: "q < 2 ^ 128" by (simp add: q_def)
  have "unat lo * 2 ^ 64 div unat lo \<le> q" unfolding q_def using ul(2) by (intro div_le_mono) simp
  then have q1: "2 ^ 64 \<le> q" using ul(3) by simp
  have uq: "unat (of_nat q :: u128) = q" by (rule unat_of_nat_small) (use q in simp)
  have r: "safe_shl_div_cast up lo 64 Down = Ok (of_nat q :: u128)"
    using ul(3) by (simp add: ok_iffs uq) (simp add: q_def)
  define x :: u128 where "x = of_nat q - ONE_Q64"
  have one: "unat ONE_Q64 = 2 ^ 64" by (simp add: ONE_Q64_def)
  have ux: "unat x = q - 2 ^ 64"
    using q1 by (simp add: x_def unat_sub word_le_unat uq one del: of_nat_unat)
  have s: "safe_sub (of_nat q) ONE_Q64 = Ok x"
    unfolding safe_ops_iff uq ux one using q1 by simp
  define y where "y = x div BIN_STEP_BPS_U128_DEFAULT"
  have dv: "safe_div x BIN_STEP_BPS_U128_DEFAULT = Ok y"
    by (simp add: safe_div_def checked_div_def BIN_STEP_BPS_U128_DEFAULT_def y_def)
  have "unat x div 1844674407370955 \<le> 2 ^ 128 div 1844674407370955"
    using q by (intro div_le_mono) (simp add: ux)
  then have y: "unat y < 2 ^ 79" by (simp add: y_def unat_div BIN_STEP_BPS_U128_DEFAULT_def)
  then have "unat y * unat (2 :: u128) < 2 ^ LENGTH(128)" by simp
  note m = safe_mul_no_overflow [OF this]
  have "get_delta_bin_id BIN_STEP_BPS_U128_DEFAULT a b = Ok (y * 2)"
    by (simp only: get_delta_bin_id_def ul(1) Let_def prod.case r s dv m(1) rbind_simps)
  with m(2) y show ?thesis by simp
qed

lemma update_volatility_accumulator_total:
  assumes w: "wf_dynamic_fee d" "is_dynamic_fee_enable d"
    and p: "unat MIN_SQRT_PRICE \<le> unat p" "unat p \<le> unat MAX_SQRT_PRICE"
    and r: "unat MIN_SQRT_PRICE \<le> unat (df_sqrt_price_reference d)"
      "unat (df_sqrt_price_reference d) \<le> unat MAX_SQRT_PRICE"
  shows "\<exists>d'. update_volatility_accumulator d p = Ok d'"
proof -
  have b: "df_bin_step_u128 d = BIN_STEP_BPS_U128_DEFAULT" "unat (df_volatility_reference d) < 2 ^ 24"
    using w by (simp_all add: wf_dynamic_fee_def)
  obtain n where n: "get_delta_bin_id (df_bin_step_u128 d) p (df_sqrt_price_reference d) = Ok n"
    "unat n < 2 ^ 80"
    using get_delta_bin_id_total [OF p r] unfolding b(1) by blast
  have x: "unat n * unat (ucast MAX_BASIS_POINT :: u128) < 2 ^ 94"
    using n(2) by (simp add: unat_fee_consts)
  then have "unat n * unat (ucast MAX_BASIS_POINT :: u128) < 2 ^ LENGTH(128)" by simp
  note m = safe_mul_no_overflow [OF this]
  have "unat (df_volatility_reference d) + unat (n * ucast MAX_BASIS_POINT) < 2 ^ LENGTH(128)"
    unfolding m(2) using x b(2) by simp
  note a = safe_add_no_overflow(1) [OF this]
  show ?thesis by (simp add: update_volatility_accumulator_def n(1) m(1) a)
qed

end
