(* ===== verification/Pool_Fees.thy ===== *)
theory Pool_Fees
  imports Base_Fee Dynamic_Fee
begin

text \<open>
  The fees of a pool (\<^verbatim>\<open>state/fee.rs\<close>) and the parameters they are made from
  (\<^verbatim>\<open>params/fee_parameters.rs\<close>): the total fee rate of a swap, the fee of an amount, and its split
  between the liquidity providers, the protocol, the referrer and the partner.
\<close>

record pool_fees =
  pf_base_fee :: base_fee_info
  pf_protocol_fee_percent :: u8
  pf_partner_fee_percent :: u8
  pf_referral_fee_percent :: u8
  pf_dynamic_fee :: dynamic_fee
  pf_init_sqrt_price :: u128

record pool_fee_parameters =
  pp_base_fee :: base_fee_parameters
  pp_dynamic_fee :: "dynamic_fee_parameters option"

record fee_on_amount_result =
  fa_amount :: u64
  fa_trading_fee :: u64
  fa_protocol_fee :: u64
  fa_partner_fee :: u64
  fa_referral_fee :: u64

record split_fees_result =
  sf_trading_fee :: u64
  sf_protocol_fee :: u64
  sf_referral_fee :: u64
  sf_partner_fee :: u64

record fee_mode =
  fm_fees_on_input :: bool
  fm_fees_on_token_a :: bool
  fm_has_referral :: bool

section \<open>Parameters\<close>

definition base_fee_parameters_validate ::
  "base_fee_parameters \<Rightarrow> collect_fee_mode \<Rightarrow> activation_type \<Rightarrow> unit result" where
  "base_fee_parameters_validate self collect_fee_mode activation_type =
     rbind (params_get_base_fee_handler self) (\<lambda>base_fee_handler.
     handler_validate base_fee_handler collect_fee_mode activation_type)"

definition pool_fee_parameters_validate ::
  "pool_fee_parameters \<Rightarrow> collect_fee_mode \<Rightarrow> activation_type \<Rightarrow> unit result" where
  "pool_fee_parameters_validate self collect_fee_mode activation_type =
     rbind (base_fee_parameters_validate (pp_base_fee self) collect_fee_mode activation_type) (\<lambda>_.
     case pp_dynamic_fee self of
       Some dynamic_fee \<Rightarrow> dynamic_fee_parameters_validate dynamic_fee
     | None \<Rightarrow> Ok ())"

definition to_pool_fees_struct :: "pool_fee_parameters \<Rightarrow> u128 \<Rightarrow> pool_fees result" where
  "to_pool_fees_struct self init_sqrt_price =
     rbind (base_fee_parameters_to_base_fee_info (pp_base_fee self)) (\<lambda>base_fee.
     Ok \<lparr> pf_base_fee = base_fee,
          pf_protocol_fee_percent = PROTOCOL_FEE_PERCENT,
          pf_partner_fee_percent = PARTNER_FEE_PERCENT,
          pf_referral_fee_percent = HOST_FEE_PERCENT,
          pf_dynamic_fee = (case pp_dynamic_fee self of
              Some dynamic_fee \<Rightarrow> to_dynamic_fee_struct dynamic_fee
            | None \<Rightarrow> dynamic_fee_default),
          pf_init_sqrt_price = init_sqrt_price \<rparr>)"

section \<open>The total fee rate\<close>

definition get_total_fee_numerator :: "pool_fees \<Rightarrow> u64 \<Rightarrow> u64 \<Rightarrow> u64 result" where
  "get_total_fee_numerator self base_fee_numerator max_fee_numerator =
     rbind (get_variable_fee (pf_dynamic_fee self)) (\<lambda>dynamic_fee.
     rbind (safe_add dynamic_fee (ucast base_fee_numerator)) (\<lambda>total.
     rbind (ok_or (try_narrow total) TypeCastFailed) (\<lambda>total_fee_numerator.
     if max_fee_numerator < total_fee_numerator then Ok max_fee_numerator
     else Ok total_fee_numerator)))"

definition get_total_trading_fee_from_included_fee_amount ::
  "pool_fees \<Rightarrow> u64 \<Rightarrow> u64 \<Rightarrow> u64 \<Rightarrow> trade_direction \<Rightarrow> u64 \<Rightarrow> u128 \<Rightarrow> u64 result" where
  "get_total_trading_fee_from_included_fee_amount self current_point activation_point
     included_fee_amount trade_direction max_fee_numerator sqrt_price =
     rbind (info_get_base_fee_handler (pf_base_fee self)) (\<lambda>base_fee_handler.
     rbind (handler_from_included base_fee_handler current_point activation_point trade_direction
              included_fee_amount (pf_init_sqrt_price self) sqrt_price) (\<lambda>base_fee_numerator.
     get_total_fee_numerator self base_fee_numerator max_fee_numerator))"

definition get_total_trading_fee_from_excluded_fee_amount ::
  "pool_fees \<Rightarrow> u64 \<Rightarrow> u64 \<Rightarrow> u64 \<Rightarrow> trade_direction \<Rightarrow> u64 \<Rightarrow> u128 \<Rightarrow> u64 result" where
  "get_total_trading_fee_from_excluded_fee_amount self current_point activation_point
     excluded_fee_amount trade_direction max_fee_numerator sqrt_price =
     rbind (info_get_base_fee_handler (pf_base_fee self)) (\<lambda>base_fee_handler.
     rbind (handler_from_excluded base_fee_handler current_point activation_point trade_direction
              excluded_fee_amount (pf_init_sqrt_price self) sqrt_price) (\<lambda>base_fee_numerator.
     get_total_fee_numerator self base_fee_numerator max_fee_numerator))"

section \<open>Splitting the fee\<close>

definition split_fees :: "pool_fees \<Rightarrow> u64 \<Rightarrow> bool \<Rightarrow> bool \<Rightarrow> split_fees_result result" where
  "split_fees self fee_amount has_referral has_partner =
     rbind (safe_mul_div_cast_u64 fee_amount (ucast (pf_protocol_fee_percent self)) 100 Down)
       (\<lambda>protocol_fee.
     rbind (safe_sub fee_amount protocol_fee) (\<lambda>trading_fee.
     rbind (if has_referral
            then safe_mul_div_cast_u64 protocol_fee (ucast (pf_referral_fee_percent self)) 100 Down
            else Ok 0) (\<lambda>referral_fee.
     rbind (safe_sub protocol_fee referral_fee) (\<lambda>protocol_fee_after_referral_fee.
     rbind (if has_partner \<and> 0 < pf_partner_fee_percent self
            then safe_mul_div_cast_u64 protocol_fee_after_referral_fee
              (ucast (pf_partner_fee_percent self)) 100 Down
            else Ok 0) (\<lambda>partner_fee.
     rbind (safe_sub protocol_fee_after_referral_fee partner_fee) (\<lambda>protocol_fee.
     Ok \<lparr> sf_trading_fee = trading_fee, sf_protocol_fee = protocol_fee,
          sf_referral_fee = referral_fee, sf_partner_fee = partner_fee \<rparr>))))))"

definition get_fee_on_amount ::
  "pool_fees \<Rightarrow> u64 \<Rightarrow> u64 \<Rightarrow> bool \<Rightarrow> bool \<Rightarrow> fee_on_amount_result result" where
  "get_fee_on_amount self amount0 trade_fee_numerator has_referral has_partner =
     rbind (get_excluded_fee_amount trade_fee_numerator amount0) (\<lambda>(amount, trading_fee).
     rbind (split_fees self trading_fee has_referral has_partner) (\<lambda>s.
     Ok \<lparr> fa_amount = amount, fa_trading_fee = sf_trading_fee s,
          fa_protocol_fee = sf_protocol_fee s, fa_partner_fee = sf_partner_fee s,
          fa_referral_fee = sf_referral_fee s \<rparr>))"

definition get_fee_mode :: "u8 \<Rightarrow> trade_direction \<Rightarrow> bool \<Rightarrow> fee_mode result" where
  "get_fee_mode collect_fee_mode0 trade_direction has_referral =
     rbind (ok_or (collect_fee_mode_of_u8 collect_fee_mode0) InvalidCollectFeeMode)
       (\<lambda>collect_fee_mode.
     let (fees_on_input, fees_on_token_a) =
       (case (collect_fee_mode, trade_direction) of
          (BothToken, AtoB) \<Rightarrow> (False, False)
        | (BothToken, BtoA) \<Rightarrow> (False, True)
        | (OnlyB, AtoB) \<Rightarrow> (False, False)
        | (OnlyB, BtoA) \<Rightarrow> (True, False))
     in Ok \<lparr> fm_fees_on_input = fees_on_input, fm_fees_on_token_a = fees_on_token_a,
             fm_has_referral = has_referral \<rparr>)"

section \<open>Partners\<close>

record partner_info =
  pi_fee_percent :: u8
  pi_partner_authority :: pubkey
  pi_pending_fee_a :: u64
  pi_pending_fee_b :: u64

definition have_partner :: "partner_info \<Rightarrow> bool" where
  "have_partner self \<longleftrightarrow> pi_partner_authority self \<noteq> 0"

definition partner_info_validate :: "partner_info \<Rightarrow> unit result" where
  "partner_info_validate self =
     (if \<not> have_partner self then require (pi_fee_percent self = 0) InvalidFee (Ok ()) else Ok ())"

section \<open>What the fees guarantee\<close>

definition split_total :: "split_fees_result \<Rightarrow> nat" where
  "split_total s = unat (sf_trading_fee s) + unat (sf_protocol_fee s) + unat (sf_referral_fee s) +
     unat (sf_partner_fee s)"

text \<open>The split loses nothing: the four shares add up to the fee.\<close>

lemma split_fees_total:
  assumes "split_fees f fee r p = Ok s"
  shows "split_total s = unat fee"
  using assms by (auto simp: split_fees_def split_total_def ok_iffs split: if_splits)

lemma split_fees_shares:
  assumes "split_fees f fee r p = Ok s"
  shows "\<not> r \<Longrightarrow> sf_referral_fee s = 0" and "\<not> p \<Longrightarrow> sf_partner_fee s = 0"
    and "unat (sf_protocol_fee s) + unat (sf_referral_fee s) + unat (sf_partner_fee s) =
      unat fee * unat (pf_protocol_fee_percent f) div 100"
  using assms by (auto simp: split_fees_def ok_iffs split: if_splits)

definition wf_pool_fees :: "pool_fees \<Rightarrow> bool" where
  "wf_pool_fees f \<longleftrightarrow> unat (pf_protocol_fee_percent f) \<le> 100 \<and>
     unat (pf_referral_fee_percent f) \<le> 100 \<and> unat (pf_partner_fee_percent f) \<le> 100 \<and>
     wf_dynamic_fee (pf_dynamic_fee f)"

lemma percent_share:
  assumes "unat (q :: u8) \<le> 100"
  shows "\<exists>z::u64. safe_mul_div_cast_u64 x (ucast q) 100 Down = Ok z \<and> unat z \<le> unat x"
proof -
  have "unat x * unat q div 100 \<le> unat x * 100 div 100"
    using assms by (intro div_le_mono mult_left_mono) simp_all
  then have le: "unat x * unat q div 100 \<le> unat x" by simp
  then have "unat x * unat q div 100 < 2 ^ LENGTH(64)" using unat_less_pow [of x] by (rule le_less_trans)
  then have u: "unat (of_nat (unat x * unat q div 100) :: u64) = unat x * unat q div 100"
    by (rule unat_of_nat_small)
  have "safe_mul_div_cast_u64 x (ucast q) 100 Down = Ok (of_nat (unat x * unat q div 100) :: u64)"
    by (subst safe_mul_div_cast_u64_iff) (simp_all only: u, simp_all)
  with u le show ?thesis by auto
qed

lemma safe_sub_Ok:
  assumes "unat y \<le> unat x"
  shows "safe_sub x y = Ok (x - y)" and "unat (x - y) = unat x - unat y"
  using assms by (simp_all add: safe_sub_def checked_sub_def word_le_unat unat_sub)

lemma split_fees_ok:
  assumes "wf_pool_fees f"
  shows "\<exists>s. split_fees f fee r p = Ok s"
proof -
  have q: "unat (pf_protocol_fee_percent f) \<le> 100" "unat (pf_referral_fee_percent f) \<le> 100"
    "unat (pf_partner_fee_percent f) \<le> 100" using assms by (simp_all add: wf_pool_fees_def)
  obtain z :: u64 where z: "safe_mul_div_cast_u64 fee (ucast (pf_protocol_fee_percent f)) 100 Down = Ok z"
    "unat z \<le> unat fee" using percent_share [OF q(1)] by blast
  obtain y :: u64 where y: "(if r then safe_mul_div_cast_u64 z (ucast (pf_referral_fee_percent f)) 100 Down
      else Ok 0) = Ok y" "unat y \<le> unat z"
    using percent_share [OF q(2), of z] by (cases r) auto
  obtain x :: u64 where x: "(if p \<and> 0 < pf_partner_fee_percent f
      then safe_mul_div_cast_u64 (z - y) (ucast (pf_partner_fee_percent f)) 100 Down
      else Ok 0) = Ok x" "unat x \<le> unat (z - y)"
    using percent_share [OF q(3), of "z - y"]
    by (cases "p \<and> 0 < pf_partner_fee_percent f") (simp_all only: if_True if_False, auto)
  show ?thesis
    unfolding split_fees_def z(1) rbind_simps safe_sub_Ok(1) [OF z(2)] y(1) safe_sub_Ok(1) [OF y(2)]
      x(1) safe_sub_Ok(1) [OF x(2)] by simp
qed

lemma get_total_fee_numerator_bounds:
  assumes "get_total_fee_numerator f b m = Ok n"
  shows "unat n \<le> unat m" and "min (unat b) (unat m) \<le> unat n"
  using assms by (auto simp: get_total_fee_numerator_def ok_iffs word_to_nat split: if_splits)

lemma get_total_fee_numerator_ok:
  assumes "wf_pool_fees f" and "unat b \<le> 1000000000"
  shows "\<exists>n. get_total_fee_numerator f b m = Ok n"
proof -
  obtain v where v: "get_variable_fee (pf_dynamic_fee f) = Ok v" "unat v < 2 ^ 63"
    using get_variable_fee_total assms(1) unfolding wf_pool_fees_def by blast
  have s: "unat v + unat (ucast b :: u128) < 2 ^ 64" using v(2) assms(2) by simp
  then have "unat v + unat (ucast b :: u128) < 2 ^ LENGTH(128)" by simp
  note a = safe_add_no_overflow [OF this]
  have "unat (v + ucast b) < 2 ^ LENGTH(64)" using s a(2) by simp
  then show ?thesis by (simp add: get_total_fee_numerator_def v(1) a(1) try_narrow_def)
qed

lemma get_total_trading_fee_bounds:
  shows "get_total_trading_fee_from_included_fee_amount f cp ap x d m p = Ok n \<Longrightarrow> unat n \<le> unat m"
    and "get_total_trading_fee_from_excluded_fee_amount f cp ap x d m p = Ok n \<Longrightarrow> unat n \<le> unat m"
  by (auto simp: get_total_trading_fee_from_included_fee_amount_def
      get_total_trading_fee_from_excluded_fee_amount_def rbind_Ok_iff
      dest: get_total_fee_numerator_bounds(1))

lemma get_fee_on_amount_total:
  assumes "get_fee_on_amount f x n r p = Ok a"
  shows "unat (fa_amount a) + unat (fa_trading_fee a) + unat (fa_protocol_fee a) +
    unat (fa_partner_fee a) + unat (fa_referral_fee a) = unat x"
    and "unat x = unat (fa_amount a) + div_up (unat x * unat n) 1000000000"
proof -
  obtain fee s where e: "get_excluded_fee_amount n x = Ok (fa_amount a, fee)"
    and s: "split_fees f fee r p = Ok s"
    and a: "fa_trading_fee a = sf_trading_fee s" "fa_protocol_fee a = sf_protocol_fee s"
      "fa_partner_fee a = sf_partner_fee s" "fa_referral_fee a = sf_referral_fee s"
  proof -
    obtain am fee where e: "get_excluded_fee_amount n x = Ok (am, fee)"
      using assms by (cases "get_excluded_fee_amount n x") (auto simp: get_fee_on_amount_def)
    obtain s where s: "split_fees f fee r p = Ok s"
      using assms e by (cases "split_fees f fee r p") (simp_all add: get_fee_on_amount_def)
    have a: "a = \<lparr> fa_amount = am, fa_trading_fee = sf_trading_fee s,
        fa_protocol_fee = sf_protocol_fee s, fa_partner_fee = sf_partner_fee s,
        fa_referral_fee = sf_referral_fee s \<rparr>"
      using assms e s by (simp add: get_fee_on_amount_def)
    show thesis by (rule that [of fee s]) (simp_all only: a e s fee_on_amount_result.simps)
  qed
  have x: "unat fee = div_up (unat x * unat n) 1000000000" "unat x = unat (fa_amount a) + unat fee"
    using e unfolding get_excluded_fee_amount_iff by blast+
  show "unat (fa_amount a) + unat (fa_trading_fee a) + unat (fa_protocol_fee a) +
    unat (fa_partner_fee a) + unat (fa_referral_fee a) = unat x"
    using split_fees_total [OF s] x(2) unfolding a split_total_def by linarith
  show "unat x = unat (fa_amount a) + div_up (unat x * unat n) 1000000000"
    using x(2) unfolding x(1) .
qed

text \<open>Parameters that validate give well-formed fees, with a base fee in the legal range.\<close>

lemma to_pool_fees_struct_wf:
  assumes "pool_fee_parameters_validate pr m t = Ok ()" and "to_pool_fees_struct pr p = Ok f"
  shows "wf_pool_fees f"
    and "\<exists>h. info_get_base_fee_handler (pf_base_fee f) = Ok h \<and> handler_validate h m t = Ok ()"
proof -
  have "wf_dynamic_fee (pf_dynamic_fee f)"
    using assms
    by (auto simp: pool_fee_parameters_validate_def to_pool_fees_struct_def rbind_Ok_iff
        intro: wf_to_dynamic_fee_struct split: option.splits)
  then show "wf_pool_fees f"
    using assms(2) by (auto simp: wf_pool_fees_def to_pool_fees_struct_def rbind_Ok_iff amm_consts)
  show "\<exists>h. info_get_base_fee_handler (pf_base_fee f) = Ok h \<and> handler_validate h m t = Ok ()"
    using assms
    by (auto simp: pool_fee_parameters_validate_def base_fee_parameters_validate_def
        params_get_base_fee_handler_def to_pool_fees_struct_def rbind_Ok_iff)
qed

end
