(* ===== verification/Curve.thy ===== *)
theory Curve
  imports Complex_Main Amm_Constants
begin

text \<open>
  \<^verbatim>\<open>curve.rs\<close>: amounts of the two tokens between two square-root prices, and the price reached by
  an amount. Prices are Q64.64 square roots, liquidity is scaled by \<open>2 ^ 64\<close>, so that \<open>Delta b\<close>
  is divided by \<open>2 ^ 128\<close>.
\<close>

section \<open>Amounts between two prices\<close>

definition get_delta_amount_a_unsigned_unchecked ::
  "u128 \<Rightarrow> u128 \<Rightarrow> u128 \<Rightarrow> rounding \<Rightarrow> u256 result" where
  "get_delta_amount_a_unsigned_unchecked lower_sqrt_price upper_sqrt_price liquidity rnd =
     (let numerator_1 = (ucast liquidity :: u256) in
      rbind (raw_sub upper_sqrt_price lower_sqrt_price) (\<lambda>delta.
      let numerator_2 = (ucast delta :: u256) in
      rbind (safe_mul (ucast lower_sqrt_price :: u256) (ucast upper_sqrt_price)) (\<lambda>denominator.
      assert_panic (0 < denominator)
        (ok_or (mul_div_u256 numerator_1 numerator_2 denominator rnd) MathOverflow))))"

definition u256_to_u64 :: "u256 \<Rightarrow> u64 result" where
  "u256_to_u64 result =
     require (result \<le> ucast (- 1 :: u64)) MathOverflow (ok_or (try_narrow result) TypeCastFailed)"

definition get_delta_amount_a_unsigned :: "u128 \<Rightarrow> u128 \<Rightarrow> u128 \<Rightarrow> rounding \<Rightarrow> u64 result" where
  "get_delta_amount_a_unsigned lower_sqrt_price upper_sqrt_price liquidity rnd =
     rbind (get_delta_amount_a_unsigned_unchecked lower_sqrt_price upper_sqrt_price liquidity rnd)
       u256_to_u64"

definition get_delta_amount_b_unsigned_unchecked ::
  "u128 \<Rightarrow> u128 \<Rightarrow> u128 \<Rightarrow> rounding \<Rightarrow> u256 result" where
  "get_delta_amount_b_unsigned_unchecked lower_sqrt_price upper_sqrt_price liquidity rnd =
     rbind (safe_sub upper_sqrt_price lower_sqrt_price) (\<lambda>delta_sqrt_price.
     rbind (safe_mul (ucast liquidity :: u256) (ucast delta_sqrt_price)) (\<lambda>prd.
     case rnd of
       Up \<Rightarrow> rbind (u256_safe_shl 1 (RESOLUTION * 2)) (\<lambda>denominator.
               assert_panic (denominator \<noteq> 0) (Ok (word_div_ceil prd denominator)))
     | Down \<Rightarrow> Ok (drop_bit (RESOLUTION * 2) prd)))"

definition get_delta_amount_b_unsigned :: "u128 \<Rightarrow> u128 \<Rightarrow> u128 \<Rightarrow> rounding \<Rightarrow> u64 result" where
  "get_delta_amount_b_unsigned lower_sqrt_price upper_sqrt_price liquidity rnd =
     rbind (get_delta_amount_b_unsigned_unchecked lower_sqrt_price upper_sqrt_price liquidity rnd)
       u256_to_u64"

definition get_initialize_amounts :: "u128 \<Rightarrow> u128 \<Rightarrow> u128 \<Rightarrow> u128 \<Rightarrow> (u64 \<times> u64) result" where
  "get_initialize_amounts sqrt_min_price sqrt_max_price sqrt_price liquidity =
     rbind (get_delta_amount_a_unsigned sqrt_price sqrt_max_price liquidity Up) (\<lambda>amount_a.
     rbind (get_delta_amount_b_unsigned sqrt_min_price sqrt_price liquidity Up) (\<lambda>amount_b.
     Ok (amount_a, amount_b)))"

section \<open>The price reached by an amount\<close>

definition get_next_sqrt_price_from_amount_in_a_rounding_up ::
  "u128 \<Rightarrow> u128 \<Rightarrow> u64 \<Rightarrow> u128 result" where
  "get_next_sqrt_price_from_amount_in_a_rounding_up sqrt_price0 liquidity0 amount =
     (if amount = 0 then Ok sqrt_price0
      else
        let sqrt_price = (ucast sqrt_price0 :: u256);
            liquidity = (ucast liquidity0 :: u256) in
        rbind (safe_mul (ucast amount) sqrt_price) (\<lambda>product.
        rbind (safe_add liquidity product) (\<lambda>denominator.
        rbind (ok_or (mul_div_u256 liquidity sqrt_price denominator Up) MathOverflow) (\<lambda>result.
        ok_or (try_narrow result) TypeCastFailed))))"

definition get_next_sqrt_price_from_amount_out_a_rounding_up ::
  "u128 \<Rightarrow> u128 \<Rightarrow> u64 \<Rightarrow> u128 result" where
  "get_next_sqrt_price_from_amount_out_a_rounding_up sqrt_price0 liquidity0 amount =
     (if amount = 0 then Ok sqrt_price0
      else
        let sqrt_price = (ucast sqrt_price0 :: u256);
            liquidity = (ucast liquidity0 :: u256) in
        rbind (safe_mul (ucast amount) sqrt_price) (\<lambda>product.
        rbind (safe_sub liquidity product) (\<lambda>denominator.
        rbind (ok_or (mul_div_u256 liquidity sqrt_price denominator Up) MathOverflow) (\<lambda>result.
        ok_or (try_narrow result) TypeCastFailed))))"

definition get_next_sqrt_price_from_amount_in_b_rounding_down ::
  "u128 \<Rightarrow> u128 \<Rightarrow> u64 \<Rightarrow> u128 result" where
  "get_next_sqrt_price_from_amount_in_b_rounding_down sqrt_price liquidity amount =
     rbind (u256_safe_shl (ucast amount) (RESOLUTION * 2)) (\<lambda>shifted.
     rbind (safe_div shifted (ucast liquidity)) (\<lambda>quotient.
     rbind (safe_add (ucast sqrt_price) quotient) (\<lambda>result.
     ok_or (try_narrow result) TypeCastFailed)))"

definition get_next_sqrt_price_from_amount_out_b_rounding_down ::
  "u128 \<Rightarrow> u128 \<Rightarrow> u64 \<Rightarrow> u128 result" where
  "get_next_sqrt_price_from_amount_out_b_rounding_down sqrt_price liquidity amount =
     rbind (u256_safe_shl (ucast amount) (RESOLUTION * 2)) (\<lambda>shifted.
     assert_panic (liquidity \<noteq> 0)
       (let quotient = word_div_ceil shifted (ucast liquidity) in
        rbind (safe_sub (ucast sqrt_price) quotient) (\<lambda>result.
        ok_or (try_narrow result) TypeCastFailed)))"

definition get_next_sqrt_price_from_input :: "u128 \<Rightarrow> u128 \<Rightarrow> u64 \<Rightarrow> bool \<Rightarrow> u128 result" where
  "get_next_sqrt_price_from_input sqrt_price liquidity amount_in a_for_b =
     assert_panic (0 < sqrt_price) (assert_panic (0 < liquidity)
       (if a_for_b
        then get_next_sqrt_price_from_amount_in_a_rounding_up sqrt_price liquidity amount_in
        else get_next_sqrt_price_from_amount_in_b_rounding_down sqrt_price liquidity amount_in))"

definition get_next_sqrt_price_from_output :: "u128 \<Rightarrow> u128 \<Rightarrow> u64 \<Rightarrow> bool \<Rightarrow> u128 result" where
  "get_next_sqrt_price_from_output sqrt_price liquidity amount_out a_for_b =
     assert_panic (0 < sqrt_price) (assert_panic (0 < liquidity)
       (if a_for_b
        then get_next_sqrt_price_from_amount_out_b_rounding_down sqrt_price liquidity amount_out
        else get_next_sqrt_price_from_amount_out_a_rounding_up sqrt_price liquidity amount_out))"

section \<open>The same over the natural numbers\<close>

lemma ex_u256_via:
  "(\<exists>v::u256. unat v = n \<and> unat (z :: u128) = unat v) \<longleftrightarrow> unat z = n"
  by (rule ex_word_via) simp

lemma u256_to_u64_iff [ok_iffs]: "u256_to_u64 x = Ok z \<longleftrightarrow> unat z = unat x"
proof -
  have "unat (- 1 :: u64) = 2 ^ 64 - 1" by (simp add: unsigned_minus_1_eq_mask mask_eq_exp_minus_1)
  then show ?thesis
    using unat_bounds(4) [of z] by (auto simp: u256_to_u64_def ok_iffs word_le_unat)
qed

lemma delta_a_unchecked_iff [ok_iffs]:
  "get_delta_amount_a_unsigned_unchecked lo up l r = Ok z \<longleftrightarrow>
     unat lo \<le> unat up \<and> 0 < unat lo * unat up \<and>
     unat z = rounded_div r (unat l * (unat up - unat lo)) (unat lo * unat up)"
proof (cases "lo \<le> up")
  case False
  then show ?thesis by (auto simp: get_delta_amount_a_unsigned_unchecked_def ok_iffs word_le_unat)
next
  case True
  let ?d = "ucast lo * ucast up :: u256"
  have s: "raw_sub up lo = Ok (up - lo)" "unat (up - lo) = unat up - unat lo"
    using True by (simp_all add: ok_iffs unat_sub word_le_unat)
  have m: "safe_mul (ucast lo :: u256) (ucast up) = Ok ?d" by (simp add: ok_iffs)
  show ?thesis
    using True s(2)
    by (auto simp: get_delta_amount_a_unsigned_unchecked_def s(1) m ok_iffs word_less_unat
        word_le_unat)
qed

lemma delta_b_unchecked_iff [ok_iffs]:
  "get_delta_amount_b_unsigned_unchecked lo up l r = Ok z \<longleftrightarrow>
     unat lo \<le> unat up \<and> unat z = rounded_div r (unat l * (unat up - unat lo)) (2 ^ 128)"
proof (cases "lo \<le> up")
  case False
  then show ?thesis by (auto simp: get_delta_amount_b_unsigned_unchecked_def ok_iffs word_le_unat)
next
  case True
  let ?p = "ucast l * ucast (up - lo) :: u256"
  define q :: u256 where "q = push_bit 128 1"
  have s: "safe_sub up lo = Ok (up - lo)" "unat (up - lo) = unat up - unat lo"
    using True by (simp_all add: ok_iffs unat_sub word_le_unat)
  have m: "safe_mul (ucast l :: u256) (ucast (up - lo)) = Ok ?p" by (simp add: ok_iffs)
  have q: "unat q = 2 ^ 128" by (simp add: q_def)
  have h: "u256_safe_shl 1 (RESOLUTION * 2) = Ok q"
    by (simp add: ok_iffs q RESOLUTION_def)
  have q0: "q \<noteq> 0" using q by (metis unat_0 power_not_zero zero_neq_numeral)
  have "get_delta_amount_b_unsigned_unchecked lo up l r =
    Ok (case r of Up \<Rightarrow> word_div_ceil ?p q | Down \<Rightarrow> drop_bit 128 ?p)"
    unfolding get_delta_amount_b_unsigned_unchecked_def s(1) rbind_simps m
    unfolding h rbind_simps using q0 by (cases r) (simp_all add: RESOLUTION_def)
  moreover have "unat (case r of Up \<Rightarrow> word_div_ceil ?p q | Down \<Rightarrow> drop_bit 128 ?p) =
    rounded_div r (unat l * (unat up - unat lo)) (2 ^ 128)"
  proof (cases r)
    case Up
    have "0 < unat q" unfolding q by simp
    then have "unat (word_div_ceil ?p q) = div_up (unat ?p) (unat q)" by (rule unat_word_div_ceil)
    with Up show ?thesis by (simp add: s(2) q)
  next
    case Down
    then show ?thesis by (simp add: unat_drop_bit s(2))
  qed
  ultimately show ?thesis using True by (auto simp: word_le_unat intro: word_eqI_unat)
qed

lemma delta_a_iff [ok_iffs]:
  "get_delta_amount_a_unsigned lo up l r = Ok z \<longleftrightarrow>
     unat lo \<le> unat up \<and> 0 < unat lo * unat up \<and>
     unat z = rounded_div r (unat l * (unat up - unat lo)) (unat lo * unat up)"
proof -
  have "LENGTH(64) \<le> LENGTH(256)" by simp
  note via = ex_word_via [OF this, of "rounded_div r (unat l * (unat up - unat lo)) (unat lo * unat up)" z]
  show ?thesis
    unfolding get_delta_amount_a_unsigned_def rbind_Ok_iff delta_a_unchecked_iff u256_to_u64_iff
    using via by blast
qed

lemma delta_b_iff [ok_iffs]:
  "get_delta_amount_b_unsigned lo up l r = Ok z \<longleftrightarrow>
     unat lo \<le> unat up \<and> unat z = rounded_div r (unat l * (unat up - unat lo)) (2 ^ 128)"
proof -
  have "LENGTH(64) \<le> LENGTH(256)" by simp
  note via = ex_word_via [OF this, of "rounded_div r (unat l * (unat up - unat lo)) (2 ^ 128)" z]
  show ?thesis
    unfolding get_delta_amount_b_unsigned_def rbind_Ok_iff delta_b_unchecked_iff u256_to_u64_iff
    using via by blast
qed

lemma amount_price_product:
  fixes amount :: u64 and p l :: u128
  shows "safe_mul (ucast amount :: u256) (ucast p) = Ok (ucast amount * ucast p)"
    and "unat (ucast amount * ucast p :: u256) = unat amount * unat p"
    and "safe_add (ucast l :: u256) (ucast amount * ucast p) = Ok (ucast l + ucast amount * ucast p)"
    and "unat (ucast l + ucast amount * ucast p :: u256) = unat l + unat amount * unat p"
proof -
  have u: "unat amount * unat p < 2 ^ 192"
    using unat_less_pow [of amount] unat_less_pow [of p]
    by (intro mult_less_pow2 [where a = 64 and b = 128]) simp_all
  have l: "unat l < 2 ^ 128" using unat_less_pow [of l] by simp
  have m: "unat (ucast amount :: u256) * unat (ucast p :: u256) < 2 ^ LENGTH(256)"
    using u by simp
  show a: "safe_mul (ucast amount :: u256) (ucast p) = Ok (ucast amount * ucast p)"
    and b: "unat (ucast amount * ucast p :: u256) = unat amount * unat p"
    using safe_mul_no_overflow [OF m] by simp_all
  have "unat (ucast l :: u256) + unat (ucast amount * ucast p :: u256) < 2 ^ LENGTH(256)"
    using u l b by simp
  from safe_add_no_overflow [OF this]
  show "safe_add (ucast l :: u256) (ucast amount * ucast p) = Ok (ucast l + ucast amount * ucast p)"
    and "unat (ucast l + ucast amount * ucast p :: u256) = unat l + unat amount * unat p"
    using b by simp_all
qed

lemma next_price_in_a_iff [ok_iffs]:
  assumes "amount \<noteq> 0"
  shows "get_next_sqrt_price_from_amount_in_a_rounding_up p l amount = Ok z \<longleftrightarrow>
    0 < unat l + unat amount * unat p \<and>
    unat z = div_up (unat l * unat p) (unat l + unat amount * unat p)"
  using assms ex_u256_via [of "div_up (unat l * unat p) (unat l + unat amount * unat p)" z]
  by (simp add: get_next_sqrt_price_from_amount_in_a_rounding_up_def Let_def amount_price_product
      ok_iffs)

lemma next_price_out_a_iff [ok_iffs]:
  assumes "amount \<noteq> 0"
  shows "get_next_sqrt_price_from_amount_out_a_rounding_up p l amount = Ok z \<longleftrightarrow>
    unat amount * unat p < unat l \<and>
    unat z = div_up (unat l * unat p) (unat l - unat amount * unat p)"
proof -
  let ?m = "ucast amount * ucast p :: u256"
  have "(\<exists>d::u256. unat l = unat d + unat amount * unat p \<and> 0 < unat d \<and>
      unat z = div_up (unat l * unat p) (unat d)) \<longleftrightarrow>
    unat amount * unat p < unat l \<and>
      unat z = div_up (unat l * unat p) (unat l - unat amount * unat p)" (is "?l = ?r")
  proof
    assume ?r
    then have "unat (ucast l - ?m) = unat l - unat amount * unat p"
      by (simp add: unat_sub word_le_unat amount_price_product)
    with \<open>?r\<close> show ?l by (intro exI [of _ "ucast l - ?m"]) simp
  qed auto
  then show ?thesis
    using assms ex_u256_via [of "div_up (unat l * unat p) d" z for d]
    by (simp add: get_next_sqrt_price_from_amount_out_a_rounding_up_def Let_def
        amount_price_product ok_iffs)
qed

lemma amount_shifted:
  "u256_safe_shl (ucast (amount :: u64)) (RESOLUTION * 2) = Ok (push_bit 128 (ucast amount))"
  "unat (push_bit 128 (ucast amount :: u256)) = unat amount * 2 ^ 128"
proof -
  have "unat amount * 2 ^ 128 < 2 ^ LENGTH(256)" using unat_less_pow [of amount] by simp
  then show u: "unat (push_bit 128 (ucast amount :: u256)) = unat amount * 2 ^ 128"
    using unat_push_bit [of "ucast amount :: u256" 128] by simp
  then show "u256_safe_shl (ucast amount) (RESOLUTION * 2) = Ok (push_bit 128 (ucast amount))"
    by (simp add: ok_iffs RESOLUTION_def)
qed

lemma next_price_in_b_iff [ok_iffs]:
  "get_next_sqrt_price_from_amount_in_b_rounding_down p l amount = Ok z \<longleftrightarrow>
    0 < unat l \<and> unat z = unat p + unat amount * 2 ^ 128 div unat l"
proof (cases "l = 0")
  case True
  then show ?thesis
    by (simp add: get_next_sqrt_price_from_amount_in_b_rounding_down_def amount_shifted ok_iffs)
next
  case False
  then have l: "0 < unat l" by (simp add: unat_gt_0)
  let ?s = "push_bit 128 (ucast amount :: u256)"
  have "unat (ucast l :: u256) = unat l" by simp
  then have "(ucast l :: u256) \<noteq> 0" using l by (metis unat_0 less_irrefl)
  then have d: "safe_div ?s (ucast l) = Ok (?s div ucast l)"
    by (simp add: safe_div_def checked_div_def)
  have q: "unat (?s div ucast l) = unat amount * 2 ^ 128 div unat l"
    by (simp add: unat_div amount_shifted)
  have "unat amount * 2 ^ 128 div unat l \<le> unat amount * 2 ^ 128" by (rule div_le_dividend)
  moreover have "unat amount * 2 ^ 128 < 2 ^ 255" using unat_less_pow [of amount] by simp
  moreover have "unat (ucast p :: u256) < 2 ^ 255" using unat_less_pow [of p] by simp
  ultimately have "unat (ucast p :: u256) + unat (?s div ucast l) < 2 ^ 255 + 2 ^ 255"
    unfolding q by (intro add_strict_mono) (simp_all only: le_less_trans)
  then have "unat (ucast p :: u256) + unat (?s div ucast l) < 2 ^ LENGTH(256)" by simp
  note add = safe_add_no_overflow [OF this]
  show ?thesis
    using l by (simp add: get_next_sqrt_price_from_amount_in_b_rounding_down_def amount_shifted(1)
        d add ok_iffs q)
qed

lemma next_price_out_b_iff [ok_iffs]:
  "get_next_sqrt_price_from_amount_out_b_rounding_down p l amount = Ok z \<longleftrightarrow>
    0 < unat l \<and> unat p = unat z + div_up (unat amount * 2 ^ 128) (unat l)"
proof (cases "l = 0")
  case True
  then show ?thesis
    by (simp add: get_next_sqrt_price_from_amount_out_b_rounding_down_def amount_shifted ok_iffs)
next
  case False
  then have l: "0 < unat l" by (simp add: unat_gt_0)
  let ?q = "word_div_ceil (push_bit 128 (ucast amount)) (ucast l) :: u256"
  have q: "unat ?q = div_up (unat amount * 2 ^ 128) (unat l)"
    using l by (simp add: amount_shifted(2))
  have "(\<exists>r::u256. unat p = unat r + unat ?q \<and> unat z = unat r) \<longleftrightarrow> unat p = unat z + unat ?q"
  proof
    assume "unat p = unat z + unat ?q"
    then show "\<exists>r::u256. unat p = unat r + unat ?q \<and> unat z = unat r"
      by (intro exI [of _ "ucast z"]) simp
  qed auto
  then show ?thesis
    using False l by (simp add: get_next_sqrt_price_from_amount_out_b_rounding_down_def
        amount_shifted(1) ok_iffs q)
qed

section \<open>Every rounding is against the trader\<close>

lemma next_price_from_input_a:
  assumes "get_next_sqrt_price_from_input p l amount True = Ok p'"
  shows "0 < unat p" and "0 < unat l" and "0 < unat p'" and "unat p' \<le> unat p"
    and "unat l * unat p \<le> unat p' * (unat l + unat amount * unat p)"
proof -
  show pl: "0 < unat p" "0 < unat l"
    using assms by (simp_all add: get_next_sqrt_price_from_input_def ok_iffs word_less_unat)
  have a: "get_next_sqrt_price_from_amount_in_a_rounding_up p l amount = Ok p'"
    using assms by (simp add: get_next_sqrt_price_from_input_def ok_iffs)
  have "0 < unat p' \<and> unat p' \<le> unat p \<and>
    unat l * unat p \<le> unat p' * (unat l + unat amount * unat p)"
  proof (cases "amount = 0")
    case True
    then show ?thesis using a pl by (simp add: get_next_sqrt_price_from_amount_in_a_rounding_up_def)
  next
    case False
    define d where "d = unat l + unat amount * unat p"
    have p': "unat p' = div_up (unat l * unat p) d" and d: "0 < d"
      using a False by (simp_all add: ok_iffs d_def)
    have le: "unat l * unat p \<le> unat p' * d" using div_up_bounds(1) [OF d] by (simp add: p')
    then have "0 < unat p'" using pl by (cases "unat p' = 0") simp_all
    moreover have "unat p' \<le> unat p"
      unfolding p' by (rule div_up_least [OF d]) (simp add: d_def algebra_simps)
    ultimately show ?thesis using le by (simp add: d_def)
  qed
  then show "0 < unat p'" and "unat p' \<le> unat p"
    and "unat l * unat p \<le> unat p' * (unat l + unat amount * unat p)" by simp_all
qed

lemma next_price_from_input_b:
  assumes "get_next_sqrt_price_from_input p l amount False = Ok p'"
  shows "0 < unat p" and "0 < unat l" and "unat p \<le> unat p'"
    and "unat l * (unat p' - unat p) \<le> unat amount * 2 ^ 128"
  using assms div_mult_le_self [of "unat amount * 2 ^ 128" "unat l"]
  by (simp_all add: get_next_sqrt_price_from_input_def ok_iffs word_less_unat mult.commute)

lemma next_price_from_output_b:
  assumes "get_next_sqrt_price_from_output p l amount True = Ok p'"
  shows "0 < unat p" and "0 < unat l" and "unat p' \<le> unat p"
    and "unat amount * 2 ^ 128 \<le> unat l * (unat p - unat p')"
  using assms div_up_bounds(1) [of "unat l" "unat amount * 2 ^ 128"]
  by (auto simp: get_next_sqrt_price_from_output_def ok_iffs word_less_unat mult.commute)

lemma next_price_from_output_a:
  assumes "get_next_sqrt_price_from_output p l amount False = Ok p'"
  shows "0 < unat p" and "0 < unat l" and "unat p \<le> unat p'"
    and "unat amount * unat p \<le> unat l"
    and "unat l * unat p \<le> unat p' * (unat l - unat amount * unat p)"
proof -
  show pl: "0 < unat p" "0 < unat l"
    using assms by (simp_all add: get_next_sqrt_price_from_output_def ok_iffs word_less_unat)
  have a: "get_next_sqrt_price_from_amount_out_a_rounding_up p l amount = Ok p'"
    using assms by (simp add: get_next_sqrt_price_from_output_def ok_iffs)
  have "unat p \<le> unat p' \<and> unat amount * unat p \<le> unat l \<and>
    unat l * unat p \<le> unat p' * (unat l - unat amount * unat p)"
  proof (cases "amount = 0")
    case True
    then show ?thesis using a by (simp add: get_next_sqrt_price_from_amount_out_a_rounding_up_def)
  next
    case False
    define d where "d = unat l - unat amount * unat p"
    have p': "unat p' = div_up (unat l * unat p) d" and d: "0 < d"
      and l: "unat amount * unat p \<le> unat l"
      using a False by (simp_all add: ok_iffs d_def)
    have le: "unat l * unat p \<le> unat p' * d" using div_up_bounds(1) [OF d] by (simp add: p')
    have "d * unat p \<le> unat l * unat p" by (rule mult_right_mono) (simp_all add: d_def)
    with le have "unat p * d \<le> unat p' * d" by (simp only: mult.commute)
    then have "unat p \<le> unat p'" using d by (rule mult_right_le_imp_le)
    with le l show ?thesis by (simp add: d_def)
  qed
  then show "unat p \<le> unat p'" and "unat amount * unat p \<le> unat l"
    and "unat l * unat p \<le> unat p' * (unat l - unat amount * unat p)" by simp_all
qed

section \<open>Virtual reserves\<close>

declare of_nat_unat [simp del]

text \<open>
  The amounts of the two tokens that liquidity \<open>l\<close> stands for at price \<open>p\<close>, before any rounding. A
  swap moves along the curve on which one falls as the other rises.
\<close>

definition virtual_a :: "u128 \<Rightarrow> u128 \<Rightarrow> real" where
  "virtual_a l p = real (unat l) / real (unat p)"

definition virtual_b :: "u128 \<Rightarrow> u128 \<Rightarrow> real" where
  "virtual_b l p = real (unat l) * real (unat p) / 2 ^ 128"

lemma rounded_div_real:
  assumes "0 < b"
  shows "real (rounded_div Down a b) \<le> real a / real b" and "real a / real b \<le> real (rounded_div Up a b)"
    and "real (rounded_div Up a b) < real a / real b + 1"
proof -
  have b: "0 < real b" using assms by simp
  have "real (a div b * b) \<le> real a" by (simp only: of_nat_le_iff div_mult_le_self)
  then show "real (rounded_div Down a b) \<le> real a / real b" using b by (simp add: pos_le_divide_eq)
  have "real a \<le> real (div_up a b * b)" using div_up_bounds(1) [OF assms] by (simp only: of_nat_le_iff)
  then show "real a / real b \<le> real (rounded_div Up a b)" using b by (simp add: pos_divide_le_eq)
  have "real (div_up a b * b) < real (a + b)" using div_up_bounds(2) [OF assms] by (simp only: of_nat_less_iff)
  then show "real (rounded_div Up a b) < real a / real b + 1"
    using b by (simp add: field_simps)
qed

lemma virtual_a_diff:
  assumes "0 < unat lo" and "unat lo \<le> unat up"
  shows "virtual_a l lo - virtual_a l up =
    real (unat l * (unat up - unat lo)) / real (unat lo * unat up)"
proof -
  have "0 < real (unat lo)" "0 < real (unat up)" using assms by simp_all
  then show ?thesis using assms(2) by (simp add: virtual_a_def field_simps of_nat_diff)
qed

lemma virtual_b_diff:
  assumes "unat lo \<le> unat up"
  shows "virtual_b l up - virtual_b l lo = real (unat l * (unat up - unat lo)) / real (2 ^ 128)"
  using assms by (simp add: virtual_b_def field_simps of_nat_diff)

lemma delta_a_virtual:
  assumes "get_delta_amount_a_unsigned_unchecked lo up l r = Ok z"
  shows "r = Down \<Longrightarrow> real (unat z) \<le> virtual_a l lo - virtual_a l up"
    and "r = Up \<Longrightarrow> virtual_a l lo - virtual_a l up \<le> real (unat z)"
    and "0 < unat lo" "unat lo \<le> unat up"
proof -
  have z: "unat lo \<le> unat up" "0 < unat lo * unat up"
    "unat z = rounded_div r (unat l * (unat up - unat lo)) (unat lo * unat up)"
    using assms by (simp_all only: delta_a_unchecked_iff)
  show p: "0 < unat lo" "unat lo \<le> unat up" using z by simp_all
  note d = virtual_a_diff [OF p, of l]
  show "r = Down \<Longrightarrow> real (unat z) \<le> virtual_a l lo - virtual_a l up"
    unfolding d z(3) using rounded_div_real(1) [OF z(2)] by blast
  show "r = Up \<Longrightarrow> virtual_a l lo - virtual_a l up \<le> real (unat z)"
    unfolding d z(3) using rounded_div_real(2) [OF z(2)] by blast
qed

lemma delta_b_virtual:
  assumes "get_delta_amount_b_unsigned_unchecked lo up l r = Ok z"
  shows "r = Down \<Longrightarrow> real (unat z) \<le> virtual_b l up - virtual_b l lo"
    and "r = Up \<Longrightarrow> virtual_b l up - virtual_b l lo \<le> real (unat z)"
    and "unat lo \<le> unat up"
proof -
  have z: "unat lo \<le> unat up" "unat z = rounded_div r (unat l * (unat up - unat lo)) (2 ^ 128)"
    using assms by (simp_all only: delta_b_unchecked_iff)
  have s: "0 < (2::nat) ^ 128" by simp
  note d = virtual_b_diff [OF z(1), of l]
  show "r = Down \<Longrightarrow> real (unat z) \<le> virtual_b l up - virtual_b l lo"
    unfolding d z(2) using rounded_div_real(1) [OF s] by blast
  show "r = Up \<Longrightarrow> virtual_b l up - virtual_b l lo \<le> real (unat z)"
    unfolding d z(2) using rounded_div_real(2) [OF s] by blast
  show "unat lo \<le> unat up" by (rule z(1))
qed

lemma input_a_virtual:
  assumes "get_next_sqrt_price_from_input p l amount True = Ok p'"
  shows "virtual_a l p' \<le> virtual_a l p + real (unat amount)"
proof -
  note f = next_price_from_input_a [OF assms]
  have "0 < real (unat p)" "0 < real (unat p')" using f by simp_all
  moreover have "real (unat l * unat p) \<le> real (unat p' * (unat l + unat amount * unat p))"
    using f(5) by (simp only: of_nat_le_iff)
  ultimately show ?thesis by (simp add: virtual_a_def field_simps)
qed

lemma input_b_virtual:
  assumes "get_next_sqrt_price_from_input p l amount False = Ok p'"
  shows "virtual_b l p' \<le> virtual_b l p + real (unat amount)"
proof -
  note f = next_price_from_input_b [OF assms]
  have "real (unat l * (unat p' - unat p)) \<le> real (unat amount * 2 ^ 128)"
    using f(4) by (simp only: of_nat_le_iff)
  then show ?thesis using virtual_b_diff [OF f(3), of l] by simp
qed

lemma output_b_virtual:
  assumes "get_next_sqrt_price_from_output p l amount True = Ok p'"
  shows "virtual_b l p' \<le> virtual_b l p - real (unat amount)"
proof -
  note f = next_price_from_output_b [OF assms]
  have "real (unat amount * 2 ^ 128) \<le> real (unat l * (unat p - unat p'))"
    using f(4) by (simp only: of_nat_le_iff)
  then show ?thesis using virtual_b_diff [OF f(3), of l] by simp
qed

lemma output_a_virtual:
  assumes "get_next_sqrt_price_from_output p l amount False = Ok p'"
  shows "virtual_a l p' \<le> virtual_a l p - real (unat amount)"
proof -
  note f = next_price_from_output_a [OF assms]
  have "0 < real (unat p)" "0 < real (unat p')" using f by simp_all
  moreover have "real (unat l * unat p) \<le> real (unat p' * (unat l - unat amount * unat p))"
    using f(5) by (simp only: of_nat_le_iff)
  ultimately show ?thesis using f(4) by (simp add: virtual_a_def field_simps of_nat_diff)
qed

section \<open>No gain from trading back and forth\<close>

text \<open>
  One direction of a swap: it moves the price by an input amount and pays an output amount for the
  move. The two laws say that each amount is rounded against the trader, measured on the virtual
  reserves, and that the reserves move in opposite directions.
\<close>

locale curve_leg =
  fixes v_in v_out :: "u128 \<Rightarrow> u128 \<Rightarrow> real"
    and next_price :: "u128 \<Rightarrow> u128 \<Rightarrow> u64 \<Rightarrow> u128 result"
    and payout :: "u128 \<Rightarrow> u128 \<Rightarrow> u128 \<Rightarrow> u64 result"
  assumes input_law: "next_price p l x = Ok p' \<Longrightarrow>
      0 < unat l \<and> 0 < unat p \<and> 0 < unat p' \<and> v_in l p' \<le> v_in l p + real (unat x)"
    and payout_law: "payout p p' l = Ok y \<Longrightarrow> 0 < unat p \<Longrightarrow> 0 < unat p' \<Longrightarrow>
      real (unat y) \<le> v_out l p - v_out l p'"
    and opposite: "0 < unat l \<Longrightarrow> 0 < unat p \<Longrightarrow> 0 < unat q \<Longrightarrow>
      v_in l p \<le> v_in l q \<longleftrightarrow> v_out l q \<le> v_out l p"
begin

definition sell :: "u128 \<Rightarrow> u128 \<Rightarrow> u64 \<Rightarrow> (u128 \<times> u64) result" where
  "sell p l x = rbind (next_price p l x) (\<lambda>p'. rbind (payout p p' l) (\<lambda>y. Ok (p', y)))"

lemma sell_laws:
  assumes "sell p l x = Ok (p', y)"
  shows "0 < unat l" and "0 < unat p" and "0 < unat p'"
    and "v_in l p' \<le> v_in l p + real (unat x)" and "v_out l p' + real (unat y) \<le> v_out l p"
proof -
  have n: "next_price p l x = Ok p'" and o: "payout p p' l = Ok y"
    using assms by (auto simp: sell_def rbind_Ok_iff)
  show l: "0 < unat l" and p: "0 < unat p" and p': "0 < unat p'"
    and "v_in l p' \<le> v_in l p + real (unat x)"
    using input_law [OF n] by simp_all
  show "v_out l p' + real (unat y) \<le> v_out l p" using payout_law [OF o p p'] by simp
qed

end

locale round_trip =
  forth: curve_leg va vb next1 out1 + home: curve_leg vb va next2 out2
  for va vb next1 out1 next2 out2
begin

lemma no_gain:
  assumes "forth.sell p l x = Ok (p', y)" and "home.sell p' l y' = Ok (p'', x')"
    and "unat y' \<le> unat y"
  shows "unat x' \<le> unat x"
proof -
  note f = forth.sell_laws [OF assms(1)] and b = home.sell_laws [OF assms(2)]
  have "vb l p'' \<le> vb l p" using f(5) b(4) assms(3) by linarith
  then have "va l p \<le> va l p''" using home.opposite [OF f(1) b(3) f(2)] by simp
  then have "real (unat x') \<le> real (unat x)" using f(4) b(5) by linarith
  then show ?thesis by simp
qed

end

definition payout_b :: "u128 \<Rightarrow> u128 \<Rightarrow> u128 \<Rightarrow> u64 result" where
  "payout_b p p' l = get_delta_amount_b_unsigned p' p l Down"

definition payout_a :: "u128 \<Rightarrow> u128 \<Rightarrow> u128 \<Rightarrow> u64 result" where
  "payout_a p p' l = get_delta_amount_a_unsigned p p' l Down"

lemma virtual_opposite:
  assumes "0 < unat l" and "0 < unat p" and "0 < unat q"
  shows "virtual_a l p \<le> virtual_a l q \<longleftrightarrow> unat q \<le> unat p"
    and "virtual_b l p \<le> virtual_b l q \<longleftrightarrow> unat p \<le> unat q"
  using assms by (simp_all add: virtual_a_def virtual_b_def field_simps)

lemma u256_to_u64_real: "u256_to_u64 x = Ok z \<Longrightarrow> real (unat z) = real (unat x)"
  by (simp add: ok_iffs)

lemma a_to_b_leg: "curve_leg virtual_a virtual_b
  (\<lambda>p l x. get_next_sqrt_price_from_input p l x True) payout_b"
proof
  fix p l p' x
  assume "get_next_sqrt_price_from_input p l x True = Ok p'"
  note f = next_price_from_input_a [OF this] input_a_virtual [OF this]
  then show "0 < unat l \<and> 0 < unat p \<and> 0 < unat p' \<and>
    virtual_a l p' \<le> virtual_a l p + real (unat x)" by blast
next
  fix p p' l y
  assume "payout_b p p' l = Ok y"
  then obtain w where "get_delta_amount_b_unsigned_unchecked p' p l Down = Ok w" "unat y = unat w"
    by (auto simp: payout_b_def get_delta_amount_b_unsigned_def rbind_Ok_iff u256_to_u64_iff)
  then show "real (unat y) \<le> virtual_b l p - virtual_b l p'"
    using delta_b_virtual(1) by fastforce
qed (simp add: virtual_opposite)

lemma b_to_a_leg: "curve_leg virtual_b virtual_a
  (\<lambda>p l x. get_next_sqrt_price_from_input p l x False) payout_a"
proof
  fix p l p' x
  assume "get_next_sqrt_price_from_input p l x False = Ok p'"
  note f = next_price_from_input_b [OF this] input_b_virtual [OF this]
  then show "0 < unat l \<and> 0 < unat p \<and> 0 < unat p' \<and>
    virtual_b l p' \<le> virtual_b l p + real (unat x)" by auto
next
  fix p p' l y
  assume "payout_a p p' l = Ok y"
  then obtain w where "get_delta_amount_a_unsigned_unchecked p p' l Down = Ok w" "unat y = unat w"
    by (auto simp: payout_a_def get_delta_amount_a_unsigned_def rbind_Ok_iff u256_to_u64_iff)
  then show "real (unat y) \<le> virtual_a l p - virtual_a l p'"
    using delta_a_virtual(1) by fastforce
qed (simp add: virtual_opposite)

interpretation ab: round_trip virtual_a virtual_b
  "\<lambda>p l x. get_next_sqrt_price_from_input p l x True" payout_b
  "\<lambda>p l x. get_next_sqrt_price_from_input p l x False" payout_a
  by (rule round_trip.intro) (rule a_to_b_leg b_to_a_leg)+

interpretation ba: round_trip virtual_b virtual_a
  "\<lambda>p l x. get_next_sqrt_price_from_input p l x False" payout_a
  "\<lambda>p l x. get_next_sqrt_price_from_input p l x True" payout_b
  by (rule round_trip.intro) (rule a_to_b_leg b_to_a_leg)+

text \<open>The two legs of a round trip, selling \<open>x\<close> of one token and selling the proceeds back.\<close>

definition curve_sell :: "bool \<Rightarrow> u128 \<Rightarrow> u128 \<Rightarrow> u64 \<Rightarrow> (u128 \<times> u64) result" where
  "curve_sell a_for_b p l x =
     rbind (get_next_sqrt_price_from_input p l x a_for_b) (\<lambda>p'.
     rbind (if a_for_b then get_delta_amount_b_unsigned p' p l Down
            else get_delta_amount_a_unsigned p p' l Down) (\<lambda>y. Ok (p', y)))"

lemma curve_sell_no_gain:
  assumes "curve_sell d p l x = Ok (p', y)" and "curve_sell (\<not> d) p' l y' = Ok (p'', x')"
    and "unat y' \<le> unat y"
  shows "unat x' \<le> unat x"
proof (cases d)
  case True
  show ?thesis
    by (rule ab.no_gain [of p l x p' y y' p'' x'])
      (use assms True in \<open>simp_all add: curve_sell_def ab.forth.sell_def ab.home.sell_def
        payout_a_def payout_b_def\<close>)
next
  case False
  show ?thesis
    by (rule ba.no_gain [of p l x p' y y' p'' x'])
      (use assms False in \<open>simp_all add: curve_sell_def ab.forth.sell_def ab.home.sell_def
        payout_a_def payout_b_def\<close>)
qed

end
