(* ===== verification/Position.thy ===== *)
theory Position
  imports Amm_Constants
begin

text \<open>
  \<^verbatim>\<open>state/position.rs\<close>: the liquidity of a position in its three parts (unlocked, vested,
  permanently locked), its pending fees and rewards, and the operations on them. A \<^verbatim>\<open>U256\<close> that
  an account stores as 32 bytes is a word of 256 bits.
\<close>

record user_reward_info =
  ur_reward_per_token_checkpoint :: u256
  ur_reward_pendings :: u64
  ur_total_claimed_rewards :: u64

record position_metrics =
  pm_total_claimed_a_fee :: u64
  pm_total_claimed_b_fee :: u64

record position =
  ps_pool :: pubkey
  ps_nft_mint :: pubkey
  ps_fee_a_per_token_checkpoint :: u256
  ps_fee_b_per_token_checkpoint :: u256
  ps_fee_a_pending :: u64
  ps_fee_b_pending :: u64
  ps_unlocked_liquidity :: u128
  ps_vested_liquidity :: u128
  ps_permanent_locked_liquidity :: u128
  ps_metrics :: position_metrics
  ps_reward_infos :: "user_reward_info arr2"

definition user_reward_info_default :: user_reward_info where
  "user_reward_info_default =
     \<lparr> ur_reward_per_token_checkpoint = 0, ur_reward_pendings = 0, ur_total_claimed_rewards = 0 \<rparr>"

definition position_default :: position where
  "position_default =
     \<lparr> ps_pool = 0, ps_nft_mint = 0, ps_fee_a_per_token_checkpoint = 0,
       ps_fee_b_per_token_checkpoint = 0, ps_fee_a_pending = 0, ps_fee_b_pending = 0,
       ps_unlocked_liquidity = 0, ps_vested_liquidity = 0, ps_permanent_locked_liquidity = 0,
       ps_metrics = \<lparr> pm_total_claimed_a_fee = 0, pm_total_claimed_b_fee = 0 \<rparr>,
       ps_reward_infos = Arr2 user_reward_info_default user_reward_info_default \<rparr>"

section \<open>Liquidity\<close>

definition has_sufficient_liquidity :: "position \<Rightarrow> u128 \<Rightarrow> bool" where
  "has_sufficient_liquidity self l \<longleftrightarrow> l \<le> ps_unlocked_liquidity self"

definition get_total_liquidity :: "position \<Rightarrow> u128 result" where
  "get_total_liquidity self =
     rbind (safe_add (ps_unlocked_liquidity self) (ps_vested_liquidity self)) (\<lambda>s.
     safe_add s (ps_permanent_locked_liquidity self))"

definition add_liquidity :: "position \<Rightarrow> u128 \<Rightarrow> position result" where
  "add_liquidity self liquidity_delta =
     rbind (safe_add (ps_unlocked_liquidity self) liquidity_delta) (\<lambda>l.
     Ok (self\<lparr>ps_unlocked_liquidity := l\<rparr>))"

definition remove_unlocked_liquidity :: "position \<Rightarrow> u128 \<Rightarrow> position result" where
  "remove_unlocked_liquidity self liquidity_delta =
     rbind (safe_sub (ps_unlocked_liquidity self) liquidity_delta) (\<lambda>l.
     Ok (self\<lparr>ps_unlocked_liquidity := l\<rparr>))"

definition lock :: "position \<Rightarrow> u128 \<Rightarrow> position result" where
  "lock self total_lock_liquidity =
     require (has_sufficient_liquidity self total_lock_liquidity) InsufficientLiquidity
       (rbind (remove_unlocked_liquidity self total_lock_liquidity) (\<lambda>self.
        rbind (safe_add (ps_vested_liquidity self) total_lock_liquidity) (\<lambda>v.
        Ok (self\<lparr>ps_vested_liquidity := v\<rparr>))))"

definition permanent_lock_liquidity :: "position \<Rightarrow> u128 \<Rightarrow> position result" where
  "permanent_lock_liquidity self delta =
     require (has_sufficient_liquidity self delta) InsufficientLiquidity
       (rbind (remove_unlocked_liquidity self delta) (\<lambda>self.
        rbind (safe_add (ps_permanent_locked_liquidity self) delta) (\<lambda>l.
        Ok (self\<lparr>ps_permanent_locked_liquidity := l\<rparr>))))"

definition remove_permanent_locked_liquidity :: "position \<Rightarrow> u128 \<Rightarrow> position result" where
  "remove_permanent_locked_liquidity self delta =
     require (delta \<le> ps_permanent_locked_liquidity self) InsufficientLiquidity
       (rbind (safe_sub (ps_permanent_locked_liquidity self) delta) (\<lambda>l.
        Ok (self\<lparr>ps_permanent_locked_liquidity := l\<rparr>)))"

definition add_permanent_locked_liquidity :: "position \<Rightarrow> u128 \<Rightarrow> position result" where
  "add_permanent_locked_liquidity self delta =
     rbind (safe_add (ps_permanent_locked_liquidity self) delta) (\<lambda>l.
     Ok (self\<lparr>ps_permanent_locked_liquidity := l\<rparr>))"

definition release_vested_liquidity :: "position \<Rightarrow> u128 \<Rightarrow> position result" where
  "release_vested_liquidity self released_liquidity =
     rbind (safe_sub (ps_vested_liquidity self) released_liquidity) (\<lambda>v.
     add_liquidity (self\<lparr>ps_vested_liquidity := v\<rparr>) released_liquidity)"

section \<open>Fees\<close>

definition remove_fee_pending :: "position \<Rightarrow> u64 \<Rightarrow> u64 \<Rightarrow> position result" where
  "remove_fee_pending self fee_a_delta fee_b_delta =
     rbind (safe_sub (ps_fee_a_pending self) fee_a_delta) (\<lambda>a.
     rbind (safe_sub (ps_fee_b_pending self) fee_b_delta) (\<lambda>b.
     Ok (self\<lparr>ps_fee_a_pending := a, ps_fee_b_pending := b\<rparr>)))"

definition add_fee_pending :: "position \<Rightarrow> u64 \<Rightarrow> u64 \<Rightarrow> position result" where
  "add_fee_pending self fee_a_delta fee_b_delta =
     rbind (safe_add (ps_fee_a_pending self) fee_a_delta) (\<lambda>a.
     rbind (safe_add (ps_fee_b_pending self) fee_b_delta) (\<lambda>b.
     Ok (self\<lparr>ps_fee_a_pending := a, ps_fee_b_pending := b\<rparr>)))"

text \<open>
  The lines that \<^verbatim>\<open>update_fee\<close> has once for each token: what has accrued since the checkpoint is added
  to what is pending.
\<close>

definition accrue_fee :: "u128 \<Rightarrow> u256 \<Rightarrow> u256 \<Rightarrow> u64 \<Rightarrow> u64 result" where
  "accrue_fee liquidity stored checkpoint pending =
     rbind (safe_sub stored checkpoint) (\<lambda>delta.
     rbind (safe_mul_shr_256_cast (ucast liquidity) delta LIQUIDITY_SCALE) (\<lambda>new_fee.
     safe_add new_fee pending))"

definition update_fee :: "position \<Rightarrow> u256 \<Rightarrow> u256 \<Rightarrow> position result" where
  "update_fee self fee_a_per_token_stored fee_b_per_token_stored =
     rbind (get_total_liquidity self) (\<lambda>liquidity.
     rbind (if 0 < liquidity then
              rbind (accrue_fee liquidity fee_a_per_token_stored
                (ps_fee_a_per_token_checkpoint self) (ps_fee_a_pending self)) (\<lambda>a.
              rbind (accrue_fee liquidity fee_b_per_token_stored
                (ps_fee_b_per_token_checkpoint self) (ps_fee_b_pending self)) (\<lambda>b.
              Ok (self\<lparr>ps_fee_a_pending := a, ps_fee_b_pending := b\<rparr>)))
            else Ok self) (\<lambda>self.
     Ok (self\<lparr>ps_fee_a_per_token_checkpoint := fee_a_per_token_stored,
              ps_fee_b_per_token_checkpoint := fee_b_per_token_stored\<rparr>)))"

definition reset_pending_fee :: "position \<Rightarrow> position" where
  "reset_pending_fee self = self\<lparr>ps_fee_a_pending := 0, ps_fee_b_pending := 0\<rparr>"

definition accumulate_claimed_fee :: "position_metrics \<Rightarrow> u64 \<Rightarrow> u64 \<Rightarrow> position_metrics result" where
  "accumulate_claimed_fee self token_a_amount token_b_amount =
     rbind (safe_add (pm_total_claimed_a_fee self) token_a_amount) (\<lambda>a.
     rbind (safe_add (pm_total_claimed_b_fee self) token_b_amount) (\<lambda>b.
     Ok (self\<lparr>pm_total_claimed_a_fee := a, pm_total_claimed_b_fee := b\<rparr>)))"

section \<open>Rewards\<close>

definition user_update_rewards :: "user_reward_info \<Rightarrow> u128 \<Rightarrow> u256 \<Rightarrow> user_reward_info result" where
  "user_update_rewards self position_liquidity reward_per_token_stored =
     rbind (safe_sub reward_per_token_stored (ur_reward_per_token_checkpoint self)) (\<lambda>delta.
     rbind (safe_mul_shr_256_cast (ucast position_liquidity) delta TOTAL_REWARD_SCALE)
       (\<lambda>new_reward.
     rbind (safe_add new_reward (ur_reward_pendings self)) (\<lambda>pendings.
     Ok (self\<lparr>ur_reward_pendings := pendings,
              ur_reward_per_token_checkpoint := reward_per_token_stored\<rparr>))))"

definition remove_reward_pending :: "position \<Rightarrow> nat \<Rightarrow> u64 \<Rightarrow> position result" where
  "remove_reward_pending self reward_index reward_amount =
     rbind (arr2_get (ps_reward_infos self) reward_index) (\<lambda>info.
     rbind (safe_sub (ur_reward_pendings info) reward_amount) (\<lambda>r.
     Ok (self\<lparr>ps_reward_infos :=
       arr2_set (ps_reward_infos self) reward_index (info\<lparr>ur_reward_pendings := r\<rparr>)\<rparr>)))"

definition add_reward_pending :: "position \<Rightarrow> nat \<Rightarrow> u64 \<Rightarrow> position result" where
  "add_reward_pending self reward_index reward_amount =
     rbind (arr2_get (ps_reward_infos self) reward_index) (\<lambda>info.
     rbind (safe_add (ur_reward_pendings info) reward_amount) (\<lambda>r.
     Ok (self\<lparr>ps_reward_infos :=
       arr2_set (ps_reward_infos self) reward_index (info\<lparr>ur_reward_pendings := r\<rparr>)\<rparr>)))"

definition get_total_reward :: "position \<Rightarrow> nat \<Rightarrow> u64 result" where
  "get_total_reward self reward_index =
     rbind (arr2_get (ps_reward_infos self) reward_index) (\<lambda>info. Ok (ur_reward_pendings info))"

text \<open>The total of claimed rewards is a statistic that wraps around.\<close>

definition claim_reward :: "position \<Rightarrow> nat \<Rightarrow> (position \<times> u64) result" where
  "claim_reward self reward_index =
     rbind (get_total_reward self reward_index) (\<lambda>total_reward.
     rbind (arr2_get (ps_reward_infos self) reward_index) (\<lambda>info.
     Ok (self\<lparr>ps_reward_infos :=
           arr2_set (ps_reward_infos self) reward_index
             (info\<lparr>ur_total_claimed_rewards := ur_total_claimed_rewards info + total_reward,
                   ur_reward_pendings := 0\<rparr>)\<rparr>,
         total_reward)))"

definition position_is_empty :: "position \<Rightarrow> bool result" where
  "position_is_empty self =
     rbind (get_total_reward self 0) (\<lambda>r0.
     if r0 \<noteq> 0 then Ok False else
     rbind (get_total_reward self 1) (\<lambda>r1.
     if r1 \<noteq> 0 then Ok False else
     rbind (get_total_liquidity self) (\<lambda>l.
     Ok (l = 0 \<and> ps_fee_a_pending self = 0 \<and> ps_fee_b_pending self = 0))))"

section \<open>Shares of a position\<close>

definition get_unlocked_liquidity_by_numerator :: "position \<Rightarrow> u32 \<Rightarrow> u128 result" where
  "get_unlocked_liquidity_by_numerator self numerator =
     safe_mul_div_cast_u128 (ps_unlocked_liquidity self) (ucast numerator)
       (ucast SPLIT_POSITION_DENOMINATOR) Down"

definition get_permanent_locked_liquidity_by_numerator :: "position \<Rightarrow> u32 \<Rightarrow> u128 result" where
  "get_permanent_locked_liquidity_by_numerator self numerator =
     safe_mul_div_cast_u128 (ps_permanent_locked_liquidity self) (ucast numerator)
       (ucast SPLIT_POSITION_DENOMINATOR) Down"

definition get_pending_fee_by_numerator :: "position \<Rightarrow> u32 \<Rightarrow> u32 \<Rightarrow> (u64 \<times> u64) result" where
  "get_pending_fee_by_numerator self fee_a_numerator fee_b_numerator =
     rbind (safe_mul_div_cast_u64 (ps_fee_a_pending self) (ucast fee_a_numerator)
       (ucast SPLIT_POSITION_DENOMINATOR) Down) (\<lambda>fee_a_split.
     rbind (safe_mul_div_cast_u64 (ps_fee_b_pending self) (ucast fee_b_numerator)
       (ucast SPLIT_POSITION_DENOMINATOR) Down) (\<lambda>fee_b_split.
     Ok (fee_a_split, fee_b_split)))"

definition get_pending_reward_by_numerator :: "position \<Rightarrow> nat \<Rightarrow> u32 \<Rightarrow> u64 result" where
  "get_pending_reward_by_numerator self reward_index reward_numerator =
     rbind (arr2_get (ps_reward_infos self) reward_index) (\<lambda>position_reward.
     safe_mul_div_cast_u64 (ur_reward_pendings position_reward) (ucast reward_numerator)
       (ucast SPLIT_POSITION_DENOMINATOR) Down)"

section \<open>What the operations do to the parts\<close>

text \<open>The liquidity of a position, as a number: the sum that \<^verbatim>\<open>get_total_liquidity\<close> computes.\<close>

definition liq :: "position \<Rightarrow> nat" where
  "liq p = unat (ps_unlocked_liquidity p) + unat (ps_vested_liquidity p) +
     unat (ps_permanent_locked_liquidity p)"

lemma get_total_liquidity_iff [ok_iffs]: "get_total_liquidity p = Ok l \<longleftrightarrow> unat l = liq p"
proof -
  have "(\<exists>s::u128. unat s = unat (ps_unlocked_liquidity p) + unat (ps_vested_liquidity p) \<and>
      unat l = unat s + unat (ps_permanent_locked_liquidity p)) \<longleftrightarrow> unat l = liq p"
  proof
    assume a: "unat l = liq p"
    then have "unat (ps_unlocked_liquidity p) + unat (ps_vested_liquidity p) < 2 ^ LENGTH(128)"
      using unat_less_pow [of l] unfolding liq_def by linarith
    then have "unat (ps_unlocked_liquidity p + ps_vested_liquidity p) =
        unat (ps_unlocked_liquidity p) + unat (ps_vested_liquidity p)"
      using unat_add_lem by blast
    with a show "\<exists>s::u128. unat s = unat (ps_unlocked_liquidity p) + unat (ps_vested_liquidity p) \<and>
      unat l = unat s + unat (ps_permanent_locked_liquidity p)"
      by (intro exI [of _ "ps_unlocked_liquidity p + ps_vested_liquidity p"]) (simp add: liq_def)
  qed (auto simp: liq_def)
  then show ?thesis by (simp add: get_total_liquidity_def ok_iffs)
qed

lemma lock_effect:
  assumes "lock p x = Ok p'"
  shows "unat (ps_unlocked_liquidity p) = unat (ps_unlocked_liquidity p') + unat x"
    and "unat (ps_vested_liquidity p') = unat (ps_vested_liquidity p) + unat x"
    and "p' = p\<lparr>ps_unlocked_liquidity := ps_unlocked_liquidity p',
      ps_vested_liquidity := ps_vested_liquidity p'\<rparr>" and "liq p' = liq p"
  using assms by (auto simp: lock_def remove_unlocked_liquidity_def liq_def ok_iffs)

lemma permanent_lock_effect:
  assumes "permanent_lock_liquidity p x = Ok p'"
  shows "unat (ps_unlocked_liquidity p) = unat (ps_unlocked_liquidity p') + unat x"
    and "unat (ps_permanent_locked_liquidity p') = unat (ps_permanent_locked_liquidity p) + unat x"
    and "p' = p\<lparr>ps_unlocked_liquidity := ps_unlocked_liquidity p',
      ps_permanent_locked_liquidity := ps_permanent_locked_liquidity p'\<rparr>" and "liq p' = liq p"
  using assms by (auto simp: permanent_lock_liquidity_def remove_unlocked_liquidity_def liq_def ok_iffs)

lemma release_vested_effect:
  assumes "release_vested_liquidity p x = Ok p'"
  shows "unat (ps_vested_liquidity p) = unat (ps_vested_liquidity p') + unat x"
    and "unat (ps_unlocked_liquidity p') = unat (ps_unlocked_liquidity p) + unat x"
    and "p' = p\<lparr>ps_unlocked_liquidity := ps_unlocked_liquidity p',
      ps_vested_liquidity := ps_vested_liquidity p'\<rparr>" and "liq p' = liq p"
  using assms by (auto simp: release_vested_liquidity_def add_liquidity_def liq_def ok_iffs)

lemma add_liquidity_effect:
  assumes "add_liquidity p x = Ok p'"
  shows "unat (ps_unlocked_liquidity p') = unat (ps_unlocked_liquidity p) + unat x"
    and "p' = p\<lparr>ps_unlocked_liquidity := ps_unlocked_liquidity p'\<rparr>" and "liq p' = liq p + unat x"
  using assms by (auto simp: add_liquidity_def liq_def ok_iffs)

lemma remove_unlocked_effect:
  assumes "remove_unlocked_liquidity p x = Ok p'"
  shows "unat (ps_unlocked_liquidity p) = unat (ps_unlocked_liquidity p') + unat x"
    and "p' = p\<lparr>ps_unlocked_liquidity := ps_unlocked_liquidity p'\<rparr>" and "liq p = liq p' + unat x"
  using assms by (auto simp: remove_unlocked_liquidity_def liq_def ok_iffs)

lemma add_permanent_effect:
  assumes "add_permanent_locked_liquidity p x = Ok p'"
  shows "unat (ps_permanent_locked_liquidity p') = unat (ps_permanent_locked_liquidity p) + unat x"
    and "p' = p\<lparr>ps_permanent_locked_liquidity := ps_permanent_locked_liquidity p'\<rparr>"
    and "liq p' = liq p + unat x"
  using assms by (auto simp: add_permanent_locked_liquidity_def liq_def ok_iffs)

lemma remove_permanent_effect:
  assumes "remove_permanent_locked_liquidity p x = Ok p'"
  shows "unat (ps_permanent_locked_liquidity p) = unat (ps_permanent_locked_liquidity p') + unat x"
    and "p' = p\<lparr>ps_permanent_locked_liquidity := ps_permanent_locked_liquidity p'\<rparr>"
    and "liq p = liq p' + unat x"
  using assms by (auto simp: remove_permanent_locked_liquidity_def liq_def ok_iffs)

text \<open>The fees that accrue to a position since its checkpoint, rounded down.\<close>

lemma accrue_iff:
  fixes z :: u64 and s c :: u256
  shows "(\<exists>d::u256. unat s = unat d + unat c \<and> (\<exists>n::u64. unat n = f (unat d) \<and>
      unat z = unat n + unat q)) \<longleftrightarrow> unat c \<le> unat s \<and> unat z = unat q + f (unat s - unat c)"
    (is "?l \<longleftrightarrow> ?r")
proof
  assume r: ?r
  then have d: "unat (s - c) = unat s - unat c" by (simp add: unat_sub word_le_unat)
  have "f (unat s - unat c) < 2 ^ LENGTH(64)" using unat_less_pow [of z] r by linarith
  then have "unat (of_nat (f (unat s - unat c)) :: u64) = f (unat s - unat c)"
    by (rule unat_of_nat_small)
  with r d show ?l
    by (intro exI [of _ "s - c"] conjI exI [of _ "of_nat (f (unat s - unat c)) :: u64"]) simp_all
qed auto

lemma accrue_fee_iff [ok_iffs]:
  "accrue_fee l s c q = Ok z \<longleftrightarrow>
     unat c \<le> unat s \<and> unat z = unat q + unat l * (unat s - unat c) div 2 ^ 128"
  using accrue_iff [of s c "\<lambda>d. unat l * d div 2 ^ 128" z q]
  by (simp add: accrue_fee_def ok_iffs LIQUIDITY_SCALE_def)

lemma update_fee_effect:
  assumes "update_fee p fa fb = Ok p'"
  shows "p' = p\<lparr>ps_fee_a_pending := ps_fee_a_pending p', ps_fee_b_pending := ps_fee_b_pending p',
      ps_fee_a_per_token_checkpoint := fa, ps_fee_b_per_token_checkpoint := fb\<rparr>"
    and "liq p' = liq p"
    and "0 < liq p \<Longrightarrow> unat (ps_fee_a_per_token_checkpoint p) \<le> unat fa \<and>
      unat (ps_fee_b_per_token_checkpoint p) \<le> unat fb"
    and "0 < liq p \<Longrightarrow> unat (ps_fee_a_pending p') = unat (ps_fee_a_pending p) +
      liq p * (unat fa - unat (ps_fee_a_per_token_checkpoint p)) div 2 ^ 128"
    and "0 < liq p \<Longrightarrow> unat (ps_fee_b_pending p') = unat (ps_fee_b_pending p) +
      liq p * (unat fb - unat (ps_fee_b_per_token_checkpoint p)) div 2 ^ 128"
    and "liq p = 0 \<Longrightarrow> ps_fee_a_pending p' = ps_fee_a_pending p \<and>
      ps_fee_b_pending p' = ps_fee_b_pending p"
  using assms
  by (auto simp: update_fee_def rbind_Ok_iff get_total_liquidity_iff accrue_fee_iff liq_def
      word_less_unat intro: word_eqI_unat split: if_splits)

text \<open>
  What a position has earned but not claimed, in units of \<open>2 ^ -128\<close> of a token and without
  rounding. Updating the fees never increases it: rounding is in favour of the pool.
\<close>

definition earned :: "nat \<Rightarrow> u256 \<Rightarrow> u256 \<Rightarrow> u64 \<Rightarrow> nat" where
  "earned l stored checkpoint pending =
     unat pending * 2 ^ 128 + l * (unat stored - unat checkpoint)"

lemma update_fee_earned:
  assumes "update_fee p fa fb = Ok p'"
  shows "earned (liq p') fa (ps_fee_a_per_token_checkpoint p') (ps_fee_a_pending p') \<le>
      earned (liq p) fa (ps_fee_a_per_token_checkpoint p) (ps_fee_a_pending p)"
    and "earned (liq p') fb (ps_fee_b_per_token_checkpoint p') (ps_fee_b_pending p') \<le>
      earned (liq p) fb (ps_fee_b_per_token_checkpoint p) (ps_fee_b_pending p)"
proof -
  note e = update_fee_effect [OF assms]
  have ck: "ps_fee_a_per_token_checkpoint p' = fa" "ps_fee_b_per_token_checkpoint p' = fb"
    by (subst e(1), simp)+
  have r: "x div 2 ^ 128 * 2 ^ 128 \<le> x" for x :: nat by (rule div_mult_le_self)
  show "earned (liq p') fa (ps_fee_a_per_token_checkpoint p') (ps_fee_a_pending p') \<le>
      earned (liq p) fa (ps_fee_a_per_token_checkpoint p) (ps_fee_a_pending p)"
    using e(4,6) r [of "liq p * (unat fa - unat (ps_fee_a_per_token_checkpoint p))"]
    by (cases "liq p = 0") (simp_all add: earned_def ck distrib_right)
  show "earned (liq p') fb (ps_fee_b_per_token_checkpoint p') (ps_fee_b_pending p') \<le>
      earned (liq p) fb (ps_fee_b_per_token_checkpoint p) (ps_fee_b_pending p)"
    using e(5,6) r [of "liq p * (unat fb - unat (ps_fee_b_per_token_checkpoint p))"]
    by (cases "liq p = 0") (simp_all add: earned_def ck distrib_right)
qed

lemma split_share_le:
  assumes "unat (n :: u32) \<le> unat SPLIT_POSITION_DENOMINATOR"
  shows "get_unlocked_liquidity_by_numerator p n = Ok x \<Longrightarrow> unat x \<le> unat (ps_unlocked_liquidity p)"
    and "get_permanent_locked_liquidity_by_numerator p n = Ok x \<Longrightarrow>
      unat x \<le> unat (ps_permanent_locked_liquidity p)"
proof -
  have "m * unat n div 1000000000 \<le> m" for m
  proof -
    have "m * unat n div 1000000000 \<le> m * 1000000000 div 1000000000"
      using assms by (intro div_le_mono mult_left_mono) (simp_all add: SPLIT_POSITION_DENOMINATOR_def)
    then show ?thesis by simp
  qed
  then show "get_unlocked_liquidity_by_numerator p n = Ok x \<Longrightarrow> unat x \<le> unat (ps_unlocked_liquidity p)"
    and "get_permanent_locked_liquidity_by_numerator p n = Ok x \<Longrightarrow>
      unat x \<le> unat (ps_permanent_locked_liquidity p)"
    by (simp_all add: get_unlocked_liquidity_by_numerator_def
        get_permanent_locked_liquidity_by_numerator_def ok_iffs SPLIT_POSITION_DENOMINATOR_def)
qed

end
