(* ===== verification/Rewards.thy ===== *)
theory Rewards
  imports Position
begin

text \<open>
  The liquidity-mining rewards of a pool: \<^verbatim>\<open>RewardInfo\<close> of \<^verbatim>\<open>state/pool.rs\<close>. A reward pays
  \<open>reward_rate\<close> (Q64.64 tokens a second) to the liquidity until \<open>reward_duration_end\<close>; the seconds
  without liquidity are kept aside.
\<close>

record reward_info =
  rw_initialized :: u8
  rw_reward_token_flag :: u8
  rw_mint :: pubkey
  rw_vault :: pubkey
  rw_funder :: pubkey
  rw_reward_duration :: u64
  rw_reward_duration_end :: u64
  rw_reward_rate :: u128
  rw_reward_per_token_stored :: u256
  rw_last_update_time :: u64
  rw_cumulative_seconds_with_empty_liquidity_reward :: u64

definition reward_info_default :: reward_info where
  "reward_info_default =
     \<lparr> rw_initialized = 0, rw_reward_token_flag = 0, rw_mint = 0, rw_vault = 0, rw_funder = 0,
       rw_reward_duration = 0, rw_reward_duration_end = 0, rw_reward_rate = 0,
       rw_reward_per_token_stored = 0, rw_last_update_time = 0,
       rw_cumulative_seconds_with_empty_liquidity_reward = 0 \<rparr>"

definition reward_initialized :: "reward_info \<Rightarrow> bool" where
  "reward_initialized self \<longleftrightarrow> rw_initialized self \<noteq> 0"

definition is_valid_funder :: "reward_info \<Rightarrow> pubkey \<Rightarrow> bool" where
  "is_valid_funder self funder \<longleftrightarrow> funder = rw_funder self"

definition init_reward ::
  "reward_info \<Rightarrow> pubkey \<Rightarrow> pubkey \<Rightarrow> pubkey \<Rightarrow> u64 \<Rightarrow> u8 \<Rightarrow> reward_info" where
  "init_reward self mint vault funder reward_duration reward_token_flag =
     self\<lparr>rw_initialized := 1, rw_mint := mint, rw_vault := vault, rw_funder := funder,
          rw_reward_duration := reward_duration, rw_reward_token_flag := reward_token_flag\<rparr>"

definition update_last_update_time :: "reward_info \<Rightarrow> u64 \<Rightarrow> reward_info" where
  "update_last_update_time self current_time =
     self\<lparr>rw_last_update_time := min current_time (rw_reward_duration_end self)\<rparr>"

definition get_seconds_elapsed_since_last_update :: "reward_info \<Rightarrow> u64 \<Rightarrow> u64 result" where
  "get_seconds_elapsed_since_last_update self current_time =
     safe_sub (min current_time (rw_reward_duration_end self)) (rw_last_update_time self)"

definition calculate_reward_per_token_stored_since_last_update ::
  "reward_info \<Rightarrow> u64 \<Rightarrow> u128 \<Rightarrow> u256 result" where
  "calculate_reward_per_token_stored_since_last_update self current_time liquidity_supply =
     rbind (get_seconds_elapsed_since_last_update self current_time) (\<lambda>time_period.
     rbind (safe_mul (ucast time_period) (rw_reward_rate self)) (\<lambda>total_reward.
     ok_or (shl_div_256 total_reward liquidity_supply LIQUIDITY_SCALE) MathOverflow))"

definition accumulate_reward_per_token_stored :: "reward_info \<Rightarrow> u256 \<Rightarrow> reward_info result" where
  "accumulate_reward_per_token_stored self delta =
     rbind (safe_add (rw_reward_per_token_stored self) delta) (\<lambda>stored.
     Ok (self\<lparr>rw_reward_per_token_stored := stored\<rparr>))"

definition reward_update_rewards :: "reward_info \<Rightarrow> u128 \<Rightarrow> u64 \<Rightarrow> reward_info result" where
  "reward_update_rewards self liquidity_supply current_time =
     (if reward_initialized self then
        rbind (if 0 < liquidity_supply then
                 rbind (calculate_reward_per_token_stored_since_last_update self current_time
                   liquidity_supply) (accumulate_reward_per_token_stored self)
               else
                 rbind (get_seconds_elapsed_since_last_update self current_time) (\<lambda>time_period.
                 rbind (safe_add (rw_cumulative_seconds_with_empty_liquidity_reward self) time_period)
                   (\<lambda>seconds.
                 Ok (self\<lparr>rw_cumulative_seconds_with_empty_liquidity_reward := seconds\<rparr>))))
          (\<lambda>self. Ok (update_last_update_time self current_time))
      else Ok self)"

definition update_rate_after_funding :: "reward_info \<Rightarrow> u64 \<Rightarrow> u64 \<Rightarrow> reward_info result" where
  "update_rate_after_funding self current_time funding_amount =
     rbind (if rw_reward_duration_end self \<le> current_time then Ok funding_amount
            else
              rbind (safe_sub (rw_reward_duration_end self) current_time) (\<lambda>remaining_seconds.
              rbind (safe_mul_shr_cast (rw_reward_rate self) (ucast remaining_seconds)
                REWARD_RATE_SCALE) (\<lambda>leftover.
              safe_add funding_amount leftover))) (\<lambda>total_amount.
     rbind (safe_shl_div_cast (ucast total_amount) (ucast (rw_reward_duration self))
       REWARD_RATE_SCALE Down) (\<lambda>reward_rate.
     rbind (safe_add current_time (rw_reward_duration self)) (\<lambda>reward_duration_end.
     Ok (self\<lparr>rw_reward_rate := reward_rate, rw_last_update_time := current_time,
              rw_reward_duration_end := reward_duration_end\<rparr>))))"

section \<open>What a reward can pay out\<close>

text \<open>
  What the current rate has still to pay until the end, in units of \<open>2 ^ -64\<close> tokens.
\<close>

definition reward_committed :: "reward_info \<Rightarrow> u64 \<Rightarrow> nat" where
  "reward_committed r t = unat (rw_reward_rate r) * (unat (rw_reward_duration_end r) - unat t)"

text \<open>
  Funding never commits more than was funded plus what the old rate had left: the new rate over its
  duration is covered.
\<close>

lemma funding_covers_rate:
  assumes "update_rate_after_funding r t amount = Ok r'"
  shows "reward_committed r' t \<le> unat amount * 2 ^ 64 + reward_committed r t"
    and "rw_last_update_time r' = t"
    and "unat (rw_reward_duration_end r') = unat t + unat (rw_reward_duration r)"
    and "0 < unat (rw_reward_duration r)"
proof -
  obtain total :: u64 and rate and e where
    total: "(if rw_reward_duration_end r \<le> t then Ok amount
        else rbind (safe_sub (rw_reward_duration_end r) t) (\<lambda>rem.
          rbind (safe_mul_shr_cast (rw_reward_rate r) (ucast rem) REWARD_RATE_SCALE)
            (\<lambda>leftover. safe_add amount leftover))) = Ok total" and
    rate: "(safe_shl_div_cast (ucast total) (ucast (rw_reward_duration r)) REWARD_RATE_SCALE Down)
        = Ok rate" and
    e: "safe_add t (rw_reward_duration r) = Ok e" and
    r': "r' = r\<lparr>rw_reward_rate := rate, rw_last_update_time := t, rw_reward_duration_end := e\<rparr>"
    using assms by (auto simp: update_rate_after_funding_def rbind_Ok_iff)
  have d: "0 < unat (rw_reward_duration r)"
    and rt: "unat rate = unat total * 2 ^ 64 div unat (rw_reward_duration r)"
    using rate by (simp_all add: ok_iffs REWARD_RATE_SCALE_def)
  have ue: "unat e = unat t + unat (rw_reward_duration r)" using e by (simp add: ok_iffs)
  have tot: "unat total * 2 ^ 64 \<le> unat amount * 2 ^ 64 + reward_committed r t"
  proof (cases "rw_reward_duration_end r \<le> t")
    case True
    then show ?thesis using total by simp
  next
    case False
    then obtain rem left :: u64 where
      "unat (rw_reward_duration_end r) = unat rem + unat t"
      "unat left = unat (rw_reward_rate r) * unat rem div 2 ^ 64"
      "unat total = unat amount + unat left"
      using total by (auto simp: ok_iffs REWARD_RATE_SCALE_def)
    then show ?thesis
      using div_mult_le_self [of "unat (rw_reward_rate r) * unat rem" "2 ^ 64"]
      by (simp add: reward_committed_def algebra_simps)
  qed
  have "reward_committed r' t = unat rate * unat (rw_reward_duration r)"
    by (simp add: reward_committed_def r' ue)
  also have "\<dots> \<le> unat total * 2 ^ 64" unfolding rt by (rule div_mult_le_self)
  finally show "reward_committed r' t \<le> unat amount * 2 ^ 64 + reward_committed r t"
    using tot by linarith
  show "rw_last_update_time r' = t" by (simp add: r')
  show "unat (rw_reward_duration_end r') = unat t + unat (rw_reward_duration r)"
    by (simp add: r' ue)
  show "0 < unat (rw_reward_duration r)" by (rule d)
qed

text \<open>
  An update hands to the liquidity at most what the rate earned since the last update, and never
  takes time twice: the clock of the reward moves forward and stays within its end.
\<close>

lemma reward_update_effect:
  assumes "reward_update_rewards r l t = Ok r'" and "reward_initialized r"
  defines "s \<equiv> min (unat t) (unat (rw_reward_duration_end r)) - unat (rw_last_update_time r)"
  shows "unat (rw_last_update_time r) \<le> min (unat t) (unat (rw_reward_duration_end r))"
    and "unat (rw_last_update_time r') = min (unat t) (unat (rw_reward_duration_end r))"
    and "0 < unat l \<Longrightarrow>
      unat (rw_reward_per_token_stored r') = unat (rw_reward_per_token_stored r) +
        s * unat (rw_reward_rate r) * 2 ^ 128 div unat l"
    and "unat l = 0 \<Longrightarrow> rw_reward_per_token_stored r' = rw_reward_per_token_stored r \<and>
      unat (rw_cumulative_seconds_with_empty_liquidity_reward r') =
      unat (rw_cumulative_seconds_with_empty_liquidity_reward r) + s"
    and "0 < unat l \<Longrightarrow> rw_cumulative_seconds_with_empty_liquidity_reward r' =
      rw_cumulative_seconds_with_empty_liquidity_reward r"
    and "rw_reward_rate r' = rw_reward_rate r" "rw_initialized r' = rw_initialized r"
      "rw_reward_duration_end r' = rw_reward_duration_end r"
  using assms(1,2) unfolding s_def
  by (auto simp: reward_update_rewards_def ok_iffs word_less_unat update_last_update_time_def
      get_seconds_elapsed_since_last_update_def accumulate_reward_per_token_stored_def
      calculate_reward_per_token_stored_since_last_update_def LIQUIDITY_SCALE_def
      split: if_splits)

text \<open>
  What one update gives to all of the liquidity together is at most the seconds times the rate.
\<close>

lemma reward_update_paid:
  assumes "reward_update_rewards r l t = Ok r'" and "reward_initialized r" and "0 < unat l"
  shows "(unat (rw_reward_per_token_stored r') - unat (rw_reward_per_token_stored r)) * unat l \<le>
    (min (unat t) (unat (rw_reward_duration_end r)) - unat (rw_last_update_time r)) *
      unat (rw_reward_rate r) * 2 ^ 128"
  unfolding reward_update_effect(3) [OF assms] by (simp add: div_mult_le_self)

end
