(* ===== verification/Pool.thy ===== *)
theory Pool
  imports Pool_Fees Curve Rewards
begin

text \<open>
  The pool account of \<^verbatim>\<open>state/pool.rs\<close> and the computation of a swap on it: the price reached, the
  amounts and the fees, for the three ways to swap (exact input, partial fill, exact output).
\<close>

record pool_metrics =
  mt_total_lp_a_fee :: u128
  mt_total_lp_b_fee :: u128
  mt_total_protocol_a_fee :: u64
  mt_total_protocol_b_fee :: u64
  mt_total_partner_a_fee :: u64
  mt_total_partner_b_fee :: u64
  mt_total_position :: u64

record pool =
  pl_pool_fees :: pool_fees
  pl_token_a_mint :: pubkey
  pl_token_b_mint :: pubkey
  pl_token_a_vault :: pubkey
  pl_token_b_vault :: pubkey
  pl_whitelisted_vault :: pubkey
  pl_partner :: pubkey
  pl_liquidity :: u128
  pl_protocol_a_fee :: u64
  pl_protocol_b_fee :: u64
  pl_partner_a_fee :: u64
  pl_partner_b_fee :: u64
  pl_sqrt_min_price :: u128
  pl_sqrt_max_price :: u128
  pl_sqrt_price :: u128
  pl_activation_point :: u64
  pl_activation_type :: u8
  pl_pool_status :: u8
  pl_token_a_flag :: u8
  pl_token_b_flag :: u8
  pl_collect_fee_mode :: u8
  pl_pool_type :: u8
  pl_version :: u8
  pl_fee_a_per_liquidity :: u256
  pl_fee_b_per_liquidity :: u256
  pl_permanent_lock_liquidity :: u128
  pl_metrics :: pool_metrics
  pl_creator :: pubkey
  pl_reward_infos :: "reward_info arr2"

datatype pool_status = Enable | Disable

fun u8_of_pool_status :: "pool_status \<Rightarrow> u8" where
  "u8_of_pool_status Enable = 0"
| "u8_of_pool_status Disable = 1"

datatype pool_type = Permissionless | Customizable

fun u8_of_pool_type :: "pool_type \<Rightarrow> u8" where
  "u8_of_pool_type Permissionless = 0"
| "u8_of_pool_type Customizable = 1"

definition increase_position :: "pool_metrics \<Rightarrow> pool_metrics" where
  "increase_position self = self\<lparr>mt_total_position := mt_total_position self + 1\<rparr>"

definition reduce_position :: "pool_metrics \<Rightarrow> pool_metrics" where
  "reduce_position self = self\<lparr>mt_total_position := mt_total_position self - 1\<rparr>"

definition accumulate_fee ::
  "pool_metrics \<Rightarrow> u64 \<Rightarrow> u64 \<Rightarrow> u64 \<Rightarrow> bool \<Rightarrow> pool_metrics result" where
  "accumulate_fee self lp_fee protocol_fee partner_fee is_token_a =
     (if is_token_a then
        rbind (safe_add (mt_total_lp_a_fee self) (ucast lp_fee)) (\<lambda>lp.
        rbind (safe_add (mt_total_protocol_a_fee self) protocol_fee) (\<lambda>pr.
        rbind (safe_add (mt_total_partner_a_fee self) partner_fee) (\<lambda>pa.
        Ok (self\<lparr>mt_total_lp_a_fee := lp, mt_total_protocol_a_fee := pr,
                 mt_total_partner_a_fee := pa\<rparr>))))
      else
        rbind (safe_add (mt_total_lp_b_fee self) (ucast lp_fee)) (\<lambda>lp.
        rbind (safe_add (mt_total_protocol_b_fee self) protocol_fee) (\<lambda>pr.
        rbind (safe_add (mt_total_partner_b_fee self) partner_fee) (\<lambda>pa.
        Ok (self\<lparr>mt_total_lp_b_fee := lp, mt_total_protocol_b_fee := pr,
                 mt_total_partner_b_fee := pa\<rparr>)))))"

definition pool_reward_initialized :: "pool \<Rightarrow> bool" where
  "pool_reward_initialized self \<longleftrightarrow>
     reward_initialized (slot0 (pl_reward_infos self)) \<or>
     reward_initialized (slot1 (pl_reward_infos self))"

definition has_partner :: "pool \<Rightarrow> bool" where
  "has_partner self \<longleftrightarrow> pl_partner self \<noteq> 0"

section \<open>Amounts of a swap\<close>

record swap_amount_from_input =
  si_output_amount :: u64
  si_next_sqrt_price :: u128
  si_amount_left :: u64

record swap_amount_from_output =
  so_input_amount :: u64
  so_next_sqrt_price :: u128

definition calculate_a_to_b_from_amount_in :: "pool \<Rightarrow> u64 \<Rightarrow> swap_amount_from_input result" where
  "calculate_a_to_b_from_amount_in self amount_in =
     rbind (get_next_sqrt_price_from_input (pl_sqrt_price self) (pl_liquidity self) amount_in True)
       (\<lambda>next_sqrt_price.
     if next_sqrt_price < pl_sqrt_min_price self then Err PriceRangeViolation
     else
       rbind (get_delta_amount_b_unsigned next_sqrt_price (pl_sqrt_price self) (pl_liquidity self)
         Down) (\<lambda>output_amount.
       Ok \<lparr> si_output_amount = output_amount, si_next_sqrt_price = next_sqrt_price,
            si_amount_left = 0 \<rparr>))"

definition calculate_b_to_a_from_amount_in :: "pool \<Rightarrow> u64 \<Rightarrow> swap_amount_from_input result" where
  "calculate_b_to_a_from_amount_in self amount_in =
     rbind (get_next_sqrt_price_from_input (pl_sqrt_price self) (pl_liquidity self) amount_in False)
       (\<lambda>next_sqrt_price.
     if pl_sqrt_max_price self < next_sqrt_price then Err PriceRangeViolation
     else
       rbind (get_delta_amount_a_unsigned (pl_sqrt_price self) next_sqrt_price (pl_liquidity self)
         Down) (\<lambda>output_amount.
       Ok \<lparr> si_output_amount = output_amount, si_next_sqrt_price = next_sqrt_price,
            si_amount_left = 0 \<rparr>))"

definition calculate_a_to_b_from_partial_amount_in ::
  "pool \<Rightarrow> u64 \<Rightarrow> swap_amount_from_input result" where
  "calculate_a_to_b_from_partial_amount_in self amount_in =
     rbind (get_delta_amount_a_unsigned_unchecked (pl_sqrt_min_price self) (pl_sqrt_price self)
       (pl_liquidity self) Up) (\<lambda>max_amount_in.
     rbind (if max_amount_in \<le> ucast amount_in then
              rbind (ok_or (try_narrow max_amount_in) TypeCastFailed) (\<lambda>consumed.
              Ok (consumed, pl_sqrt_min_price self))
            else
              rbind (get_next_sqrt_price_from_input (pl_sqrt_price self) (pl_liquidity self)
                amount_in True) (\<lambda>next_sqrt_price.
              Ok (amount_in, next_sqrt_price)))
       (\<lambda>(consumed_in_amount, next_sqrt_price).
     rbind (get_delta_amount_b_unsigned next_sqrt_price (pl_sqrt_price self) (pl_liquidity self)
       Down) (\<lambda>output_amount.
     rbind (safe_sub amount_in consumed_in_amount) (\<lambda>amount_left.
     Ok \<lparr> si_output_amount = output_amount, si_next_sqrt_price = next_sqrt_price,
          si_amount_left = amount_left \<rparr>))))"

definition calculate_b_to_a_from_partial_amount_in ::
  "pool \<Rightarrow> u64 \<Rightarrow> swap_amount_from_input result" where
  "calculate_b_to_a_from_partial_amount_in self amount_in =
     rbind (get_delta_amount_b_unsigned_unchecked (pl_sqrt_price self) (pl_sqrt_max_price self)
       (pl_liquidity self) Up) (\<lambda>max_amount_in.
     rbind (if max_amount_in \<le> ucast amount_in then
              rbind (ok_or (try_narrow max_amount_in) TypeCastFailed) (\<lambda>consumed.
              Ok (consumed, pl_sqrt_max_price self))
            else
              rbind (get_next_sqrt_price_from_input (pl_sqrt_price self) (pl_liquidity self)
                amount_in False) (\<lambda>next_sqrt_price.
              Ok (amount_in, next_sqrt_price)))
       (\<lambda>(consumed_in_amount, next_sqrt_price).
     rbind (get_delta_amount_a_unsigned (pl_sqrt_price self) next_sqrt_price (pl_liquidity self)
       Down) (\<lambda>output_amount.
     rbind (safe_sub amount_in consumed_in_amount) (\<lambda>amount_left.
     Ok \<lparr> si_output_amount = output_amount, si_next_sqrt_price = next_sqrt_price,
          si_amount_left = amount_left \<rparr>))))"

definition calculate_a_to_b_from_amount_out :: "pool \<Rightarrow> u64 \<Rightarrow> swap_amount_from_output result" where
  "calculate_a_to_b_from_amount_out self amount_out =
     rbind (get_next_sqrt_price_from_output (pl_sqrt_price self) (pl_liquidity self) amount_out True)
       (\<lambda>next_sqrt_price.
     if next_sqrt_price < pl_sqrt_min_price self then Err PriceRangeViolation
     else
       rbind (get_delta_amount_a_unsigned next_sqrt_price (pl_sqrt_price self) (pl_liquidity self)
         Up) (\<lambda>in_amount.
       Ok \<lparr> so_input_amount = in_amount, so_next_sqrt_price = next_sqrt_price \<rparr>))"

definition calculate_b_to_a_from_amount_out :: "pool \<Rightarrow> u64 \<Rightarrow> swap_amount_from_output result" where
  "calculate_b_to_a_from_amount_out self amount_out =
     rbind (get_next_sqrt_price_from_output (pl_sqrt_price self) (pl_liquidity self) amount_out False)
       (\<lambda>next_sqrt_price.
     if pl_sqrt_max_price self < next_sqrt_price then Err PriceRangeViolation
     else
       rbind (get_delta_amount_b_unsigned (pl_sqrt_price self) next_sqrt_price (pl_liquidity self)
         Up) (\<lambda>in_amount.
       Ok \<lparr> so_input_amount = in_amount, so_next_sqrt_price = next_sqrt_price \<rparr>))"

section \<open>The result of a swap\<close>

record swap_result =
  sr_included_fee_input_amount :: u64
  sr_excluded_fee_input_amount :: u64
  sr_amount_left :: u64
  sr_output_amount :: u64
  sr_next_sqrt_price :: u128
  sr_trading_fee :: u64
  sr_protocol_fee :: u64
  sr_partner_fee :: u64
  sr_referral_fee :: u64

text \<open>The four local variables \<^verbatim>\<open>actual_..._fee\<close>, initially zero.\<close>

definition no_fees :: split_fees_result where
  "no_fees = \<lparr> sf_trading_fee = 0, sf_protocol_fee = 0, sf_referral_fee = 0, sf_partner_fee = 0 \<rparr>"

definition fees_of :: "fee_on_amount_result \<Rightarrow> split_fees_result" where
  "fees_of a = \<lparr> sf_trading_fee = fa_trading_fee a, sf_protocol_fee = fa_protocol_fee a,
     sf_referral_fee = fa_referral_fee a, sf_partner_fee = fa_partner_fee a \<rparr>"

text \<open>
  The amount with the fee added, and the fees: the lines that the program repeats wherever it goes
  from an amount without the fee to one with it.
\<close>

definition include_fee ::
  "pool \<Rightarrow> u64 \<Rightarrow> fee_mode \<Rightarrow> trade_direction \<Rightarrow> u64 \<Rightarrow> u64 \<Rightarrow> (u64 \<times> split_fees_result) result" where
  "include_fee self amount fee_mode trade_direction current_point max_fee_numerator =
     rbind (get_total_trading_fee_from_excluded_fee_amount (pl_pool_fees self) current_point
       (pl_activation_point self) amount trade_direction max_fee_numerator (pl_sqrt_price self))
       (\<lambda>trade_fee_numerator.
     rbind (get_included_fee_amount trade_fee_numerator amount) (\<lambda>(included_fee_amount, fee_amount).
     rbind (split_fees (pl_pool_fees self) fee_amount (fm_has_referral fee_mode) (has_partner self))
       (\<lambda>fees. Ok (included_fee_amount, fees))))"

definition exclude_fee ::
  "pool \<Rightarrow> u64 \<Rightarrow> u64 \<Rightarrow> fee_mode \<Rightarrow> (u64 \<times> split_fees_result) result" where
  "exclude_fee self amount trade_fee_numerator fee_mode =
     rbind (get_fee_on_amount (pl_pool_fees self) amount trade_fee_numerator
       (fm_has_referral fee_mode) (has_partner self)) (\<lambda>a. Ok (fa_amount a, fees_of a))"

definition get_swap_result_from_exact_output ::
  "pool \<Rightarrow> u64 \<Rightarrow> fee_mode \<Rightarrow> trade_direction \<Rightarrow> u64 \<Rightarrow> swap_result result" where
  "get_swap_result_from_exact_output self amount_out fee_mode trade_direction current_point =
     rbind (get_max_fee_numerator (pl_version self)) (\<lambda>max_fee_numerator.
     rbind (if fm_fees_on_input fee_mode then Ok (amount_out, no_fees)
            else include_fee self amount_out fee_mode trade_direction current_point
              max_fee_numerator) (\<lambda>(included_fee_amount_out, fees).
     rbind (case trade_direction of
              AtoB \<Rightarrow> calculate_a_to_b_from_amount_out self included_fee_amount_out
            | BtoA \<Rightarrow> calculate_b_to_a_from_amount_out self included_fee_amount_out) (\<lambda>s.
     rbind (if fm_fees_on_input fee_mode
            then include_fee self (so_input_amount s) fee_mode trade_direction current_point
              max_fee_numerator
            else Ok (so_input_amount s, fees)) (\<lambda>(included_fee_input_amount, fees).
     Ok \<lparr> sr_included_fee_input_amount = included_fee_input_amount,
          sr_excluded_fee_input_amount = so_input_amount s,
          sr_amount_left = 0,
          sr_output_amount = amount_out,
          sr_next_sqrt_price = so_next_sqrt_price s,
          sr_trading_fee = sf_trading_fee fees,
          sr_protocol_fee = sf_protocol_fee fees,
          sr_partner_fee = sf_partner_fee fees,
          sr_referral_fee = sf_referral_fee fees \<rparr>))))"

definition get_swap_result_from_partial_input ::
  "pool \<Rightarrow> u64 \<Rightarrow> fee_mode \<Rightarrow> trade_direction \<Rightarrow> u64 \<Rightarrow> swap_result result" where
  "get_swap_result_from_partial_input self amount_in fee_mode trade_direction current_point =
     rbind (get_max_fee_numerator (pl_version self)) (\<lambda>max_fee_numerator.
     rbind (get_total_trading_fee_from_included_fee_amount (pl_pool_fees self) current_point
       (pl_activation_point self) amount_in trade_direction max_fee_numerator (pl_sqrt_price self))
       (\<lambda>trade_fee_numerator.
     rbind (if fm_fees_on_input fee_mode
            then exclude_fee self amount_in trade_fee_numerator fee_mode
            else Ok (amount_in, no_fees)) (\<lambda>(actual_amount_in, fees).
     rbind (case trade_direction of
              AtoB \<Rightarrow> calculate_a_to_b_from_partial_amount_in self actual_amount_in
            | BtoA \<Rightarrow> calculate_b_to_a_from_partial_amount_in self actual_amount_in) (\<lambda>s.
     rbind (if 0 < si_amount_left s then
              rbind (safe_sub actual_amount_in (si_amount_left s)) (\<lambda>actual_amount_in.
              if fm_fees_on_input fee_mode then
                rbind (include_fee self actual_amount_in fee_mode trade_direction current_point
                  max_fee_numerator) (\<lambda>(included_fee_amount_in, fees).
                Ok (included_fee_amount_in, actual_amount_in, fees))
              else Ok (actual_amount_in, actual_amount_in, fees))
            else Ok (amount_in, actual_amount_in, fees))
       (\<lambda>(included_fee_input_amount, actual_amount_in, fees).
     rbind (if fm_fees_on_input fee_mode then Ok (si_output_amount s, fees)
            else exclude_fee self (si_output_amount s) trade_fee_numerator fee_mode)
       (\<lambda>(actual_amount_out, fees).
     Ok \<lparr> sr_included_fee_input_amount = included_fee_input_amount,
          sr_excluded_fee_input_amount = actual_amount_in,
          sr_amount_left = si_amount_left s,
          sr_output_amount = actual_amount_out,
          sr_next_sqrt_price = si_next_sqrt_price s,
          sr_trading_fee = sf_trading_fee fees,
          sr_protocol_fee = sf_protocol_fee fees,
          sr_partner_fee = sf_partner_fee fees,
          sr_referral_fee = sf_referral_fee fees \<rparr>))))))"

definition get_swap_result_from_exact_input ::
  "pool \<Rightarrow> u64 \<Rightarrow> fee_mode \<Rightarrow> trade_direction \<Rightarrow> u64 \<Rightarrow> swap_result result" where
  "get_swap_result_from_exact_input self amount_in fee_mode trade_direction current_point =
     rbind (get_max_fee_numerator (pl_version self)) (\<lambda>max_fee_numerator.
     rbind (get_total_trading_fee_from_included_fee_amount (pl_pool_fees self) current_point
       (pl_activation_point self) amount_in trade_direction max_fee_numerator (pl_sqrt_price self))
       (\<lambda>trade_fee_numerator.
     rbind (if fm_fees_on_input fee_mode
            then exclude_fee self amount_in trade_fee_numerator fee_mode
            else Ok (amount_in, no_fees)) (\<lambda>(actual_amount_in, fees).
     rbind (case trade_direction of
              AtoB \<Rightarrow> calculate_a_to_b_from_amount_in self actual_amount_in
            | BtoA \<Rightarrow> calculate_b_to_a_from_amount_in self actual_amount_in) (\<lambda>s.
     rbind (if fm_fees_on_input fee_mode then Ok (si_output_amount s, fees)
            else exclude_fee self (si_output_amount s) trade_fee_numerator fee_mode)
       (\<lambda>(actual_amount_out, fees).
     Ok \<lparr> sr_included_fee_input_amount = amount_in,
          sr_excluded_fee_input_amount = actual_amount_in,
          sr_amount_left = si_amount_left s,
          sr_output_amount = actual_amount_out,
          sr_next_sqrt_price = si_next_sqrt_price s,
          sr_trading_fee = sf_trading_fee fees,
          sr_protocol_fee = sf_protocol_fee fees,
          sr_partner_fee = sf_partner_fee fees,
          sr_referral_fee = sf_referral_fee fees \<rparr>)))))"

end
