(* ===== verification/Pool_Swap.thy ===== *)
theory Pool_Swap
  imports Pool
begin

text \<open>
  What a swap computes: however it is asked for, the price moves along the curve within the range
  of the pool, both amounts are rounded in favour of the pool, and the fees are exactly the
  difference between what the trader pays or gets and what the curve takes or gives.
\<close>

section \<open>Moves along the curve\<close>

declare of_nat_unat [simp del]

definition wf_prices :: "pool \<Rightarrow> bool" where
  "wf_prices q \<longleftrightarrow> 0 < unat (pl_sqrt_min_price q) \<and>
     unat (pl_sqrt_min_price q) \<le> unat (pl_sqrt_price q) \<and>
     unat (pl_sqrt_price q) \<le> unat (pl_sqrt_max_price q)"

text \<open>
  \<open>curve_move d q x y p'\<close>: in direction \<open>d\<close>, the pool can take \<open>x\<close> of the one token and give \<open>y\<close> of
  the other while its price goes to \<open>p'\<close>, keeping at least the reserves that the curve asks for.
\<close>

definition curve_move :: "trade_direction \<Rightarrow> pool \<Rightarrow> nat \<Rightarrow> nat \<Rightarrow> u128 \<Rightarrow> bool" where
  "curve_move d q x y p' \<longleftrightarrow>
     (case d of
        AtoB \<Rightarrow> unat (pl_sqrt_min_price q) \<le> unat p' \<and> unat p' \<le> unat (pl_sqrt_price q) \<and>
          virtual_a (pl_liquidity q) p' \<le> virtual_a (pl_liquidity q) (pl_sqrt_price q) + real x \<and>
          virtual_b (pl_liquidity q) p' + real y \<le> virtual_b (pl_liquidity q) (pl_sqrt_price q)
      | BtoA \<Rightarrow> unat (pl_sqrt_price q) \<le> unat p' \<and> unat p' \<le> unat (pl_sqrt_max_price q) \<and>
          virtual_b (pl_liquidity q) p' \<le> virtual_b (pl_liquidity q) (pl_sqrt_price q) + real x \<and>
          virtual_a (pl_liquidity q) p' + real y \<le> virtual_a (pl_liquidity q) (pl_sqrt_price q))"

lemma curve_move_in_range:
  "wf_prices q \<Longrightarrow> curve_move d q x y p' \<Longrightarrow>
    unat (pl_sqrt_min_price q) \<le> unat p' \<and> unat p' \<le> unat (pl_sqrt_max_price q)"
  by (cases d) (auto simp: curve_move_def wf_prices_def)

lemma delta_a_checked_virtual:
  assumes "get_delta_amount_a_unsigned lo up l r = Ok z"
  shows "r = Down \<Longrightarrow> real (unat z) \<le> virtual_a l lo - virtual_a l up"
    and "r = Up \<Longrightarrow> virtual_a l lo - virtual_a l up \<le> real (unat z)"
    and "0 < unat lo" "unat lo \<le> unat up"
proof -
  obtain w where w: "get_delta_amount_a_unsigned_unchecked lo up l r = Ok w" "unat z = unat w"
    using assms by (auto simp: get_delta_amount_a_unsigned_def rbind_Ok_iff u256_to_u64_iff)
  show "r = Down \<Longrightarrow> real (unat z) \<le> virtual_a l lo - virtual_a l up"
    and "r = Up \<Longrightarrow> virtual_a l lo - virtual_a l up \<le> real (unat z)"
    and "0 < unat lo" "unat lo \<le> unat up"
    using delta_a_virtual [OF w(1)] by (simp_all add: w(2))
qed

lemma delta_b_checked_virtual:
  assumes "get_delta_amount_b_unsigned lo up l r = Ok z"
  shows "r = Down \<Longrightarrow> real (unat z) \<le> virtual_b l up - virtual_b l lo"
    and "r = Up \<Longrightarrow> virtual_b l up - virtual_b l lo \<le> real (unat z)"
    and "unat lo \<le> unat up"
proof -
  obtain w where w: "get_delta_amount_b_unsigned_unchecked lo up l r = Ok w" "unat z = unat w"
    using assms by (auto simp: get_delta_amount_b_unsigned_def rbind_Ok_iff u256_to_u64_iff)
  show "r = Down \<Longrightarrow> real (unat z) \<le> virtual_b l up - virtual_b l lo"
    and "r = Up \<Longrightarrow> virtual_b l up - virtual_b l lo \<le> real (unat z)"
    and "unat lo \<le> unat up"
    using delta_b_virtual [OF w(1)] by (simp_all add: w(2))
qed

lemma exact_in_move:
  "calculate_a_to_b_from_amount_in q x = Ok s \<Longrightarrow>
    curve_move AtoB q (unat x) (unat (si_output_amount s)) (si_next_sqrt_price s) \<and>
    si_amount_left s = 0"
  "calculate_b_to_a_from_amount_in q x = Ok s \<Longrightarrow>
    curve_move BtoA q (unat x) (unat (si_output_amount s)) (si_next_sqrt_price s) \<and>
    si_amount_left s = 0"
proof -
  assume "calculate_a_to_b_from_amount_in q x = Ok s"
  then obtain p' y where p': "get_next_sqrt_price_from_input (pl_sqrt_price q) (pl_liquidity q) x True = Ok p'"
    and r: "\<not> p' < pl_sqrt_min_price q"
    and y: "get_delta_amount_b_unsigned p' (pl_sqrt_price q) (pl_liquidity q) Down = Ok y"
    and s: "s = \<lparr> si_output_amount = y, si_next_sqrt_price = p', si_amount_left = 0 \<rparr>"
    by (auto simp: calculate_a_to_b_from_amount_in_def rbind_Ok_iff split: if_splits)
  show "curve_move AtoB q (unat x) (unat (si_output_amount s)) (si_next_sqrt_price s) \<and>
    si_amount_left s = 0"
    using r input_a_virtual [OF p'] next_price_from_input_a(4) [OF p']
      delta_b_checked_virtual(1) [OF y refl]
    by (simp add: curve_move_def s word_less_unat)
next
  assume "calculate_b_to_a_from_amount_in q x = Ok s"
  then obtain p' y where p': "get_next_sqrt_price_from_input (pl_sqrt_price q) (pl_liquidity q) x False = Ok p'"
    and r: "\<not> pl_sqrt_max_price q < p'"
    and y: "get_delta_amount_a_unsigned (pl_sqrt_price q) p' (pl_liquidity q) Down = Ok y"
    and s: "s = \<lparr> si_output_amount = y, si_next_sqrt_price = p', si_amount_left = 0 \<rparr>"
    by (auto simp: calculate_b_to_a_from_amount_in_def rbind_Ok_iff split: if_splits)
  show "curve_move BtoA q (unat x) (unat (si_output_amount s)) (si_next_sqrt_price s) \<and>
    si_amount_left s = 0"
    using r input_b_virtual [OF p'] next_price_from_input_b(3) [OF p']
      delta_a_checked_virtual(1) [OF y refl]
    by (simp add: curve_move_def s word_less_unat)
qed

lemma exact_out_move:
  "calculate_a_to_b_from_amount_out q y = Ok s \<Longrightarrow>
    curve_move AtoB q (unat (so_input_amount s)) (unat y) (so_next_sqrt_price s)"
  "calculate_b_to_a_from_amount_out q y = Ok s \<Longrightarrow>
    curve_move BtoA q (unat (so_input_amount s)) (unat y) (so_next_sqrt_price s)"
proof -
  assume "calculate_a_to_b_from_amount_out q y = Ok s"
  then obtain p' x where p': "get_next_sqrt_price_from_output (pl_sqrt_price q) (pl_liquidity q) y True = Ok p'"
    and r: "\<not> p' < pl_sqrt_min_price q"
    and x: "get_delta_amount_a_unsigned p' (pl_sqrt_price q) (pl_liquidity q) Up = Ok x"
    and s: "s = \<lparr> so_input_amount = x, so_next_sqrt_price = p' \<rparr>"
    by (auto simp: calculate_a_to_b_from_amount_out_def rbind_Ok_iff split: if_splits)
  show "curve_move AtoB q (unat (so_input_amount s)) (unat y) (so_next_sqrt_price s)"
    using r output_b_virtual [OF p'] next_price_from_output_b(3) [OF p']
      delta_a_checked_virtual(2) [OF x refl]
    by (simp add: curve_move_def s word_less_unat)
next
  assume "calculate_b_to_a_from_amount_out q y = Ok s"
  then obtain p' x where p': "get_next_sqrt_price_from_output (pl_sqrt_price q) (pl_liquidity q) y False = Ok p'"
    and r: "\<not> pl_sqrt_max_price q < p'"
    and x: "get_delta_amount_b_unsigned (pl_sqrt_price q) p' (pl_liquidity q) Up = Ok x"
    and s: "s = \<lparr> so_input_amount = x, so_next_sqrt_price = p' \<rparr>"
    by (auto simp: calculate_b_to_a_from_amount_out_def rbind_Ok_iff split: if_splits)
  show "curve_move BtoA q (unat (so_input_amount s)) (unat y) (so_next_sqrt_price s)"
    using r output_a_virtual [OF p'] next_price_from_output_a(3) [OF p']
      delta_b_checked_virtual(2) [OF x refl]
    by (simp add: curve_move_def s word_less_unat)
qed

text \<open>
  A partial fill stops at the end of the range: what is left over is given back, and the rest is a
  move along the curve.
\<close>

lemma partial_move_a:
  assumes wf: "wf_prices q" and c: "calculate_a_to_b_from_partial_amount_in q x = Ok s"
  shows "curve_move AtoB q (unat x - unat (si_amount_left s)) (unat (si_output_amount s))
      (si_next_sqrt_price s)"
    and "unat (si_amount_left s) \<le> unat x"
proof -
  let ?p = "pl_sqrt_price q" and ?l = "pl_liquidity q" and ?m = "pl_sqrt_min_price q"
  obtain mx where mx: "get_delta_amount_a_unsigned_unchecked ?m ?p ?l Up = Ok mx"
    using c by (auto simp: calculate_a_to_b_from_partial_amount_in_def rbind_Ok_iff)
  have "\<exists>(cons :: u64) p' y (left :: u64). virtual_a ?l p' \<le> virtual_a ?l ?p + real (unat cons) \<and>
      unat ?m \<le> unat p' \<and> unat p' \<le> unat ?p \<and>
      get_delta_amount_b_unsigned p' ?p ?l Down = Ok y \<and> unat x = unat left + unat cons \<and>
      s = \<lparr> si_output_amount = y, si_next_sqrt_price = p', si_amount_left = left \<rparr>"
  proof (cases "mx \<le> ucast x")
    case True
    then obtain cons :: u64 and y and left :: u64 where
      "unat cons = unat mx" "get_delta_amount_b_unsigned ?m ?p ?l Down = Ok y"
      "unat x = unat left + unat cons"
      "s = \<lparr> si_output_amount = y, si_next_sqrt_price = ?m, si_amount_left = left \<rparr>"
      using c mx by (auto simp: calculate_a_to_b_from_partial_amount_in_def rbind_Ok_iff
          ok_or_Ok_iff try_narrow_iff safe_ops_iff)
    moreover have "virtual_a ?l ?m \<le> virtual_a ?l ?p + real (unat mx)"
      using delta_a_virtual(2) [OF mx refl] by simp
    ultimately show ?thesis using wf unfolding wf_prices_def
      by (intro exI [of _ cons] exI [of _ ?m] exI [of _ y] exI [of _ left]) simp
  next
    case False
    then obtain p' y and left :: u64 where p': "get_next_sqrt_price_from_input ?p ?l x True = Ok p'"
      and y: "get_delta_amount_b_unsigned p' ?p ?l Down = Ok y"
        "unat x = unat left + unat x"
        "s = \<lparr> si_output_amount = y, si_next_sqrt_price = p', si_amount_left = left \<rparr>"
      using c mx by (auto simp: calculate_a_to_b_from_partial_amount_in_def rbind_Ok_iff
          ok_or_Ok_iff try_narrow_iff safe_ops_iff)
    have "\<not> unat mx \<le> unat x" using False by (simp add: word_le_unat)
    note v = input_a_virtual [OF p'] next_price_from_input_a [OF p']
    have "unat ?m \<le> unat p'"
    proof (rule ccontr)
      assume lt: "\<not> unat ?m \<le> unat p'"
      have "virtual_a ?l ?m \<le> virtual_a ?l p'"
        using lt v(3,4) wf by (subst virtual_opposite) (simp_all add: wf_prices_def)
      then have "virtual_a ?l ?m - virtual_a ?l ?p \<le> real (unat x)" using v(1) by simp
      moreover have "unat mx \<le> unat x"
      proof -
        have d: "unat ?m \<le> unat ?p" "0 < unat ?m * unat ?p"
          and e: "unat mx = div_up (unat ?l * (unat ?p - unat ?m)) (unat ?m * unat ?p)"
          using mx by (simp_all add: delta_a_unchecked_iff)
        have "virtual_a ?l ?m - virtual_a ?l ?p = real (unat ?l * (unat ?p - unat ?m)) / real (unat ?m * unat ?p)"
          using d by (intro virtual_a_diff) simp_all
        then have "real (unat ?l * (unat ?p - unat ?m)) / real (unat ?m * unat ?p) \<le> real (unat x)"
          using calculation by simp
        then have "real (unat ?l * (unat ?p - unat ?m)) \<le> real (unat x) * real (unat ?m * unat ?p)"
          using d(2) by (simp only: pos_divide_le_eq of_nat_0_less_iff)
        then have "real (unat ?l * (unat ?p - unat ?m)) \<le> real (unat x * (unat ?m * unat ?p))"
          by (simp only: of_nat_mult)
        then have "unat ?l * (unat ?p - unat ?m) \<le> unat x * (unat ?m * unat ?p)"
          by (simp only: of_nat_le_iff)
        then show ?thesis unfolding e by (rule div_up_least [OF d(2)])
      qed
      ultimately show False using \<open>\<not> unat mx \<le> unat x\<close> by simp
    qed
    then show ?thesis using v(1,5) y by blast
  qed
  then obtain cons :: u64 and p' y and left :: u64 where m: "virtual_a ?l p' \<le> virtual_a ?l ?p + real (unat cons)"
      "unat ?m \<le> unat p'" "unat p' \<le> unat ?p"
      "get_delta_amount_b_unsigned p' ?p ?l Down = Ok y" "unat x = unat left + unat cons"
      "s = \<lparr> si_output_amount = y, si_next_sqrt_price = p', si_amount_left = left \<rparr>" by blast
  show "curve_move AtoB q (unat x - unat (si_amount_left s)) (unat (si_output_amount s))
      (si_next_sqrt_price s)"
    using m(1-3,5) delta_b_checked_virtual(1) [OF m(4) refl] by (simp add: curve_move_def m(6))
  show "unat (si_amount_left s) \<le> unat x" using m(5) by (simp add: m(6))
qed

lemma partial_move_b:
  assumes wf: "wf_prices q" and c: "calculate_b_to_a_from_partial_amount_in q x = Ok s"
  shows "curve_move BtoA q (unat x - unat (si_amount_left s)) (unat (si_output_amount s))
      (si_next_sqrt_price s)"
    and "unat (si_amount_left s) \<le> unat x"
proof -
  let ?p = "pl_sqrt_price q" and ?l = "pl_liquidity q" and ?m = "pl_sqrt_max_price q"
  obtain mx where mx: "get_delta_amount_b_unsigned_unchecked ?p ?m ?l Up = Ok mx"
    using c by (auto simp: calculate_b_to_a_from_partial_amount_in_def rbind_Ok_iff)
  have "\<exists>(cons :: u64) p' y (left :: u64). virtual_b ?l p' \<le> virtual_b ?l ?p + real (unat cons) \<and>
      unat ?p \<le> unat p' \<and> unat p' \<le> unat ?m \<and>
      get_delta_amount_a_unsigned ?p p' ?l Down = Ok y \<and> unat x = unat left + unat cons \<and>
      s = \<lparr> si_output_amount = y, si_next_sqrt_price = p', si_amount_left = left \<rparr>"
  proof (cases "mx \<le> ucast x")
    case True
    then obtain cons :: u64 and y and left :: u64 where
      "unat cons = unat mx" "get_delta_amount_a_unsigned ?p ?m ?l Down = Ok y"
      "unat x = unat left + unat cons"
      "s = \<lparr> si_output_amount = y, si_next_sqrt_price = ?m, si_amount_left = left \<rparr>"
      using c mx by (auto simp: calculate_b_to_a_from_partial_amount_in_def rbind_Ok_iff
          ok_or_Ok_iff try_narrow_iff safe_ops_iff)
    moreover have "virtual_b ?l ?m \<le> virtual_b ?l ?p + real (unat mx)"
      using delta_b_virtual(2) [OF mx refl] by simp
    ultimately show ?thesis using wf unfolding wf_prices_def
      by (intro exI [of _ cons] exI [of _ ?m] exI [of _ y] exI [of _ left]) simp
  next
    case False
    then obtain p' y and left :: u64 where
      p': "get_next_sqrt_price_from_input ?p ?l x False = Ok p'"
      and y: "get_delta_amount_a_unsigned ?p p' ?l Down = Ok y"
        "unat x = unat left + unat x"
        "s = \<lparr> si_output_amount = y, si_next_sqrt_price = p', si_amount_left = left \<rparr>"
      using c mx by (auto simp: calculate_b_to_a_from_partial_amount_in_def rbind_Ok_iff
          ok_or_Ok_iff try_narrow_iff safe_ops_iff)
    have nle: "\<not> unat mx \<le> unat x" using False by (simp add: word_le_unat)
    note v = input_b_virtual [OF p'] next_price_from_input_b [OF p']
    have "unat p' \<le> unat ?m"
    proof (rule ccontr)
      assume lt: "\<not> unat p' \<le> unat ?m"
      have d: "unat ?p \<le> unat ?m"
        and e: "unat mx = div_up (unat ?l * (unat ?m - unat ?p)) (2 ^ 128)"
        using mx by (simp_all add: delta_b_unchecked_iff)
      have "unat ?l * (unat ?m - unat ?p) \<le> unat ?l * (unat p' - unat ?p)"
        using lt by (intro mult_left_mono) simp_all
      also have "\<dots> \<le> unat x * 2 ^ 128" by (rule v(5))
      finally have "unat mx \<le> unat x" unfolding e by (rule div_up_least [rotated]) simp
      with nle show False by simp
    qed
    then show ?thesis using v(1,4) y by blast
  qed
  then obtain cons :: u64 and p' y and left :: u64 where
    m: "virtual_b ?l p' \<le> virtual_b ?l ?p + real (unat cons)"
      "unat ?p \<le> unat p'" "unat p' \<le> unat ?m"
      "get_delta_amount_a_unsigned ?p p' ?l Down = Ok y" "unat x = unat left + unat cons"
      "s = \<lparr> si_output_amount = y, si_next_sqrt_price = p', si_amount_left = left \<rparr>" by blast
  show "curve_move BtoA q (unat x - unat (si_amount_left s)) (unat (si_output_amount s))
      (si_next_sqrt_price s)"
    using m(1-3,5) delta_a_checked_virtual(1) [OF m(4) refl] by (simp add: curve_move_def m(6))
  show "unat (si_amount_left s) \<le> unat x" using m(5) by (simp add: m(6))
qed

section \<open>The fees of a swap\<close>

lemma exclude_fee_conserves:
  assumes "exclude_fee q x n fm = Ok (y, fees)"
  shows "unat x = unat y + split_total fees"
proof -
  obtain a where a: "get_fee_on_amount (pl_pool_fees q) x n (fm_has_referral fm) (has_partner q) = Ok a"
    and e: "y = fa_amount a" "fees = fees_of a"
    using assms by (auto simp: exclude_fee_def rbind_Ok_iff)
  show ?thesis using get_fee_on_amount_total(1) [OF a] by (simp add: e split_total_def fees_of_def)
qed

lemma include_fee_conserves:
  assumes "include_fee q x fm d cp m = Ok (y, fees)"
  shows "unat y = unat x + split_total fees"
proof -
  obtain n fee where i: "get_included_fee_amount n x = Ok (y, fee)"
    and s: "split_fees (pl_pool_fees q) fee (fm_has_referral fm) (has_partner q) = Ok fees"
    using assms by (auto simp: include_fee_def rbind_Ok_iff)
  show ?thesis using i split_fees_total [OF s] by (simp add: get_included_fee_amount_iff)
qed

lemma no_fees_total [simp]: "split_total no_fees = 0"
  by (simp add: split_total_def no_fees_def)

definition swap_fees :: "swap_result \<Rightarrow> nat" where
  "swap_fees r = unat (sr_trading_fee r) + unat (sr_protocol_fee r) + unat (sr_referral_fee r) +
     unat (sr_partner_fee r)"

text \<open>
  A sound swap result: what goes through the curve is a move along it, and on the side that pays
  the fees the trader's amount and the curve's amount differ by exactly the four fees.
\<close>

definition sound_swap :: "pool \<Rightarrow> fee_mode \<Rightarrow> trade_direction \<Rightarrow> swap_result \<Rightarrow> bool" where
  "sound_swap q fm d r \<longleftrightarrow>
     unat (sr_included_fee_input_amount r) = unat (sr_excluded_fee_input_amount r) +
       (if fm_fees_on_input fm then swap_fees r else 0) \<and>
     curve_move d q (unat (sr_excluded_fee_input_amount r))
       (unat (sr_output_amount r) + (if fm_fees_on_input fm then 0 else swap_fees r))
       (sr_next_sqrt_price r)"

lemma sound_swap_from_exact_input:
  assumes "get_swap_result_from_exact_input q x fm d cp = Ok r"
  shows "sound_swap q fm d r" and "sr_included_fee_input_amount r = x" and "sr_amount_left r = 0"
proof -
  obtain n x' fees s out fees' where
    i: "(if fm_fees_on_input fm then exclude_fee q x n fm else Ok (x, no_fees)) = Ok (x', fees)" and
    c: "(case d of AtoB \<Rightarrow> calculate_a_to_b_from_amount_in q x'
          | BtoA \<Rightarrow> calculate_b_to_a_from_amount_in q x') = Ok s" and
    o': "(if fm_fees_on_input fm then Ok (si_output_amount s, fees)
          else exclude_fee q (si_output_amount s) n fm) = Ok (out, fees')" and
    r: "r = \<lparr> sr_included_fee_input_amount = x, sr_excluded_fee_input_amount = x',
          sr_amount_left = si_amount_left s, sr_output_amount = out,
          sr_next_sqrt_price = si_next_sqrt_price s,
          sr_trading_fee = sf_trading_fee fees', sr_protocol_fee = sf_protocol_fee fees',
          sr_partner_fee = sf_partner_fee fees', sr_referral_fee = sf_referral_fee fees' \<rparr>"
    using assms by (auto simp: get_swap_result_from_exact_input_def rbind_Ok_iff)
  have m: "curve_move d q (unat x') (unat (si_output_amount s)) (si_next_sqrt_price s)"
    "si_amount_left s = 0"
    using c exact_in_move by (cases d; force)+
  have f: "swap_fees r = split_total fees'" by (simp add: r swap_fees_def split_total_def)
  show "sound_swap q fm d r"
    using i o' m(1) f exclude_fee_conserves
    by (cases "fm_fees_on_input fm") (fastforce simp: sound_swap_def r)+
  show "sr_included_fee_input_amount r = x" and "sr_amount_left r = 0" by (simp_all add: r m(2))
qed

lemma sound_swap_from_partial_input:
  assumes wf: "wf_prices q" and g: "get_swap_result_from_partial_input q x fm d cp = Ok r"
  shows "sound_swap q fm d r"
    and "sr_amount_left r = 0 \<Longrightarrow> sr_included_fee_input_amount r = x"
    and "\<not> fm_fees_on_input fm \<Longrightarrow>
      unat x = unat (sr_included_fee_input_amount r) + unat (sr_amount_left r)"
proof -
  obtain n mx x' fees s inc x'' fees' out fees'' where
    i: "(if fm_fees_on_input fm then exclude_fee q x n fm else Ok (x, no_fees)) = Ok (x', fees)" and
    c: "(case d of AtoB \<Rightarrow> calculate_a_to_b_from_partial_amount_in q x'
          | BtoA \<Rightarrow> calculate_b_to_a_from_partial_amount_in q x') = Ok s" and
    k: "(if 0 < si_amount_left s then
           rbind (safe_sub x' (si_amount_left s)) (\<lambda>x'.
           if fm_fees_on_input fm then
             rbind (include_fee q x' fm d cp mx) (\<lambda>(inc, fees). Ok (inc, x', fees))
           else Ok (x', x', fees))
         else Ok (x, x', fees)) = Ok (inc, x'', fees')" and
    o': "(if fm_fees_on_input fm then Ok (si_output_amount s, fees')
          else exclude_fee q (si_output_amount s) n fm) = Ok (out, fees'')" and
    r: "r = \<lparr> sr_included_fee_input_amount = inc, sr_excluded_fee_input_amount = x'',
          sr_amount_left = si_amount_left s, sr_output_amount = out,
          sr_next_sqrt_price = si_next_sqrt_price s,
          sr_trading_fee = sf_trading_fee fees'', sr_protocol_fee = sf_protocol_fee fees'',
          sr_partner_fee = sf_partner_fee fees'', sr_referral_fee = sf_referral_fee fees'' \<rparr>"
    using g by (auto simp: get_swap_result_from_partial_input_def rbind_Ok_iff)
  have m: "curve_move d q (unat x' - unat (si_amount_left s)) (unat (si_output_amount s))
      (si_next_sqrt_price s)" "unat (si_amount_left s) \<le> unat x'"
    using c partial_move_a [OF wf, of x' s] partial_move_b [OF wf, of x' s] by (cases d; simp)+
  have f: "swap_fees r = split_total fees''" by (simp add: r swap_fees_def split_total_def)
  have x'': "unat x'' = unat x' - unat (si_amount_left s)"
    using k by (cases "si_amount_left s = 0")
      (auto simp: rbind_Ok_iff safe_ops_iff word_less_unat unat_gt_0 split: if_splits)
  have inc: "unat inc = unat x'' + (if fm_fees_on_input fm then split_total fees' else 0)"
  proof (cases "si_amount_left s = 0")
    case True
    then have "inc = x" "x'' = x'" "fees' = fees" using k by simp_all
    then show ?thesis using i by (auto dest: exclude_fee_conserves split: if_splits)
  next
    case False
    then have "0 < si_amount_left s" by (simp add: word_neq_0_conv)
    then show ?thesis using k
      by (auto simp: rbind_Ok_iff dest: include_fee_conserves split: if_splits)
  qed
  show "sound_swap q fm d r"
    using inc m(1) f o' exclude_fee_conserves [of q "si_output_amount s" n fm out fees'']
    by (cases "fm_fees_on_input fm") (auto simp: sound_swap_def r x'')
  show "sr_included_fee_input_amount r = x" if "sr_amount_left r = 0"
    using that k by (simp add: r)
  show "unat x = unat (sr_included_fee_input_amount r) + unat (sr_amount_left r)"
    if "\<not> fm_fees_on_input fm"
    using that i inc x'' m(2) by (simp add: r)
qed

lemma sound_swap_from_exact_output:
  assumes "get_swap_result_from_exact_output q y fm d cp = Ok r"
  shows "sound_swap q fm d r" and "sr_output_amount r = y" and "sr_amount_left r = 0"
proof -
  obtain mx y' fees s inc fees' where
    i: "(if fm_fees_on_input fm then Ok (y, no_fees) else include_fee q y fm d cp mx) = Ok (y', fees)" and
    c: "(case d of AtoB \<Rightarrow> calculate_a_to_b_from_amount_out q y'
          | BtoA \<Rightarrow> calculate_b_to_a_from_amount_out q y') = Ok s" and
    k: "(if fm_fees_on_input fm then include_fee q (so_input_amount s) fm d cp mx
         else Ok (so_input_amount s, fees)) = Ok (inc, fees')" and
    r: "r = \<lparr> sr_included_fee_input_amount = inc, sr_excluded_fee_input_amount = so_input_amount s,
          sr_amount_left = 0, sr_output_amount = y,
          sr_next_sqrt_price = so_next_sqrt_price s,
          sr_trading_fee = sf_trading_fee fees', sr_protocol_fee = sf_protocol_fee fees',
          sr_partner_fee = sf_partner_fee fees', sr_referral_fee = sf_referral_fee fees' \<rparr>"
    using assms by (auto simp: get_swap_result_from_exact_output_def rbind_Ok_iff)
  have m: "curve_move d q (unat (so_input_amount s)) (unat y') (so_next_sqrt_price s)"
    using c exact_out_move by (cases d) simp_all
  have f: "swap_fees r = split_total fees'" by (simp add: r swap_fees_def split_total_def)
  show "sound_swap q fm d r"
  proof (cases "fm_fees_on_input fm")
    case True
    then show ?thesis using i k m f include_fee_conserves [of q "so_input_amount s" fm d cp mx inc fees']
      by (simp add: sound_swap_def r)
  next
    case False
    then show ?thesis using i k m f include_fee_conserves [of q y fm d cp mx y' fees]
      by (simp add: sound_swap_def r)
  qed
  show "sr_output_amount r = y" and "sr_amount_left r = 0" by (simp_all add: r)
qed

lemma sound_swap_price_in_range:
  assumes "wf_prices q" and "sound_swap q fm d r"
  shows "unat (pl_sqrt_min_price q) \<le> unat (sr_next_sqrt_price r)"
    and "unat (sr_next_sqrt_price r) \<le> unat (pl_sqrt_max_price q)"
  using assms(2) curve_move_in_range [OF assms(1)] by (auto simp: sound_swap_def)

end
