(* ===== verification/Pool_Ops.thy ===== *)
theory Pool_Ops
  imports Pool_Swap
begin

text \<open>
  The operations of \<^verbatim>\<open>state/pool.rs\<close> that change a pool and its positions, and the two operations
  of \<^verbatim>\<open>state/position.rs\<close> that read or change the pool. An operation that the source gives two
  mutable accounts returns both.
\<close>

section \<open>Creation\<close>

definition pool_metrics_default :: pool_metrics where
  "pool_metrics_default =
     \<lparr> mt_total_lp_a_fee = 0, mt_total_lp_b_fee = 0, mt_total_protocol_a_fee = 0,
       mt_total_protocol_b_fee = 0, mt_total_partner_a_fee = 0, mt_total_partner_b_fee = 0,
       mt_total_position = 0 \<rparr>"

text \<open>
  \<^verbatim>\<open>Pool::initialize\<close> sets its arguments on an account whose bytes are all zero; what it does not
  set is zero.
\<close>

definition pool_initialize ::
  "pubkey \<Rightarrow> pool_fees \<Rightarrow> pubkey \<Rightarrow> pubkey \<Rightarrow> pubkey \<Rightarrow> pubkey \<Rightarrow> pubkey \<Rightarrow> pubkey \<Rightarrow>
   u128 \<Rightarrow> u128 \<Rightarrow> u128 \<Rightarrow> u64 \<Rightarrow> u8 \<Rightarrow> u8 \<Rightarrow> u8 \<Rightarrow> u128 \<Rightarrow> u8 \<Rightarrow> u8 \<Rightarrow> pool" where
  "pool_initialize creator fees token_a_mint token_b_mint token_a_vault token_b_vault
     whitelisted_vault partner sqrt_min_price sqrt_max_price sqrt_price activation_point
     activation_type token_a_flag token_b_flag liquidity collect_fee_mode pool_type =
     \<lparr> pl_pool_fees = fees, pl_token_a_mint = token_a_mint, pl_token_b_mint = token_b_mint,
       pl_token_a_vault = token_a_vault, pl_token_b_vault = token_b_vault,
       pl_whitelisted_vault = whitelisted_vault, pl_partner = partner, pl_liquidity = liquidity,
       pl_protocol_a_fee = 0, pl_protocol_b_fee = 0, pl_partner_a_fee = 0, pl_partner_b_fee = 0,
       pl_sqrt_min_price = sqrt_min_price, pl_sqrt_max_price = sqrt_max_price,
       pl_sqrt_price = sqrt_price, pl_activation_point = activation_point,
       pl_activation_type = activation_type, pl_pool_status = 0, pl_token_a_flag = token_a_flag,
       pl_token_b_flag = token_b_flag, pl_collect_fee_mode = collect_fee_mode,
       pl_pool_type = pool_type, pl_version = CURRENT_POOL_VERSION, pl_fee_a_per_liquidity = 0,
       pl_fee_b_per_liquidity = 0, pl_permanent_lock_liquidity = 0,
       pl_metrics = pool_metrics_default, pl_creator = creator,
       pl_reward_infos = Arr2 reward_info_default reward_info_default \<rparr>"

definition position_initialize :: "pool \<Rightarrow> pubkey \<Rightarrow> pubkey \<Rightarrow> u128 \<Rightarrow> pool \<times> position" where
  "position_initialize pool_state pool_key nft_mint liquidity =
     (pool_state\<lparr>pl_metrics := increase_position (pl_metrics pool_state)\<rparr>,
      position_default\<lparr>ps_pool := pool_key, ps_nft_mint := nft_mint,
        ps_unlocked_liquidity := liquidity\<rparr>)"

section \<open>Swapping\<close>

definition update_pre_swap :: "pool \<Rightarrow> u64 \<Rightarrow> pool result" where
  "update_pre_swap self current_timestamp =
     (if is_dynamic_fee_enable (pf_dynamic_fee (pl_pool_fees self)) then
        rbind (update_references (pf_dynamic_fee (pl_pool_fees self)) (pl_sqrt_price self)
          current_timestamp) (\<lambda>df.
        Ok (self\<lparr>pl_pool_fees := (pl_pool_fees self)\<lparr>pf_dynamic_fee := df\<rparr>\<rparr>))
      else Ok self)"

definition update_post_swap :: "pool \<Rightarrow> u128 \<Rightarrow> u64 \<Rightarrow> pool result" where
  "update_post_swap self old_sqrt_price current_timestamp =
     (if is_dynamic_fee_enable (pf_dynamic_fee (pl_pool_fees self)) then
        rbind (update_volatility_accumulator (pf_dynamic_fee (pl_pool_fees self))
          (pl_sqrt_price self)) (\<lambda>df.
        rbind (get_delta_bin_id (df_bin_step_u128 df) old_sqrt_price (pl_sqrt_price self))
          (\<lambda>delta_price.
        let df = (if 0 < delta_price then df\<lparr>df_last_update_timestamp := current_timestamp\<rparr> else df)
        in Ok (self\<lparr>pl_pool_fees := (pl_pool_fees self)\<lparr>pf_dynamic_fee := df\<rparr>\<rparr>)))
      else Ok self)"

definition apply_swap_result :: "pool \<Rightarrow> swap_result \<Rightarrow> fee_mode \<Rightarrow> u64 \<Rightarrow> pool result" where
  "apply_swap_result self r fee_mode current_timestamp =
     (let lp_fee = sr_trading_fee r;
          protocol_fee = sr_protocol_fee r;
          partner_fee = sr_partner_fee r;
          old_sqrt_price = pl_sqrt_price self;
          self = self\<lparr>pl_sqrt_price := sr_next_sqrt_price r\<rparr> in
      rbind (ok_or (shl_div_256 (ucast lp_fee) (pl_liquidity self) LIQUIDITY_SCALE) MathOverflow)
        (\<lambda>fee_per_token_stored.
      rbind (if fm_fees_on_token_a fee_mode then
               rbind (safe_add (pl_partner_a_fee self) partner_fee) (\<lambda>pa.
               rbind (safe_add (pl_protocol_a_fee self) protocol_fee) (\<lambda>pr.
               rbind (safe_add (pl_fee_a_per_liquidity self) fee_per_token_stored) (\<lambda>fl.
               rbind (accumulate_fee (pl_metrics self) lp_fee protocol_fee partner_fee True) (\<lambda>m.
               Ok (self\<lparr>pl_partner_a_fee := pa, pl_protocol_a_fee := pr,
                        pl_fee_a_per_liquidity := fl, pl_metrics := m\<rparr>)))))
             else
               rbind (safe_add (pl_partner_b_fee self) partner_fee) (\<lambda>pa.
               rbind (safe_add (pl_protocol_b_fee self) protocol_fee) (\<lambda>pr.
               rbind (safe_add (pl_fee_b_per_liquidity self) fee_per_token_stored) (\<lambda>fl.
               rbind (accumulate_fee (pl_metrics self) lp_fee protocol_fee partner_fee False) (\<lambda>m.
               Ok (self\<lparr>pl_partner_b_fee := pa, pl_protocol_b_fee := pr,
                        pl_fee_b_per_liquidity := fl, pl_metrics := m\<rparr>)))))) (\<lambda>self.
      update_post_swap self old_sqrt_price current_timestamp)))"

section \<open>Liquidity\<close>

definition get_amounts_for_modify_liquidity :: "pool \<Rightarrow> u128 \<Rightarrow> rounding \<Rightarrow> (u64 \<times> u64) result" where
  "get_amounts_for_modify_liquidity self liquidity_delta rnd =
     rbind (get_delta_amount_a_unsigned (pl_sqrt_price self) (pl_sqrt_max_price self)
       liquidity_delta rnd) (\<lambda>token_a_amount.
     rbind (get_delta_amount_b_unsigned (pl_sqrt_min_price self) (pl_sqrt_price self)
       liquidity_delta rnd) (\<lambda>token_b_amount.
     Ok (token_a_amount, token_b_amount)))"

definition apply_add_liquidity :: "pool \<Rightarrow> position \<Rightarrow> u128 \<Rightarrow> (pool \<times> position) result" where
  "apply_add_liquidity self position0 liquidity_delta =
     rbind (update_fee position0 (pl_fee_a_per_liquidity self) (pl_fee_b_per_liquidity self))
       (\<lambda>pos.
     rbind (add_liquidity pos liquidity_delta) (\<lambda>pos.
     rbind (safe_add (pl_liquidity self) liquidity_delta) (\<lambda>l.
     Ok (self\<lparr>pl_liquidity := l\<rparr>, pos))))"

definition apply_remove_liquidity :: "pool \<Rightarrow> position \<Rightarrow> u128 \<Rightarrow> (pool \<times> position) result" where
  "apply_remove_liquidity self position0 liquidity_delta =
     rbind (update_fee position0 (pl_fee_a_per_liquidity self) (pl_fee_b_per_liquidity self))
       (\<lambda>pos.
     rbind (remove_unlocked_liquidity pos liquidity_delta) (\<lambda>pos.
     rbind (safe_sub (pl_liquidity self) liquidity_delta) (\<lambda>l.
     Ok (self\<lparr>pl_liquidity := l\<rparr>, pos))))"

definition accumulate_permanent_locked_liquidity :: "pool \<Rightarrow> u128 \<Rightarrow> pool result" where
  "accumulate_permanent_locked_liquidity self permanent_locked_liquidity =
     rbind (safe_add (pl_permanent_lock_liquidity self) permanent_locked_liquidity) (\<lambda>l.
     Ok (self\<lparr>pl_permanent_lock_liquidity := l\<rparr>))"

definition get_reserves_amount :: "pool \<Rightarrow> (u64 \<times> u64) result" where
  "get_reserves_amount self =
     rbind (get_delta_amount_b_unsigned (pl_sqrt_min_price self) (pl_sqrt_price self)
       (pl_liquidity self) Down) (\<lambda>reserve_b_amount.
     rbind (get_delta_amount_a_unsigned (pl_sqrt_price self) (pl_sqrt_max_price self)
       (pl_liquidity self) Down) (\<lambda>reserve_a_amount.
     Ok (reserve_a_amount, reserve_b_amount)))"

section \<open>Splitting a position\<close>

record split_amount_info =
  sp_permanent_locked_liquidity :: u128
  sp_unlocked_liquidity :: u128
  sp_fee_a :: u64
  sp_fee_b :: u64
  sp_reward_0 :: u64
  sp_reward_1 :: u64

text \<open>The block that the source has once for each of the two rewards.\<close>

definition split_reward ::
  "pool \<Rightarrow> nat \<Rightarrow> u32 \<Rightarrow> position \<Rightarrow> position \<Rightarrow> (position \<times> position \<times> u64) result" where
  "split_reward self reward_index numerator first_position second_position =
     (if 0 < numerator then
        rbind (arr2_get (pl_reward_infos self) reward_index) (\<lambda>pool_reward_info.
        if reward_initialized pool_reward_info then
          rbind (get_pending_reward_by_numerator first_position reward_index numerator)
            (\<lambda>split_reward.
          rbind (remove_reward_pending first_position reward_index split_reward) (\<lambda>first_position.
          rbind (add_reward_pending second_position reward_index split_reward) (\<lambda>second_position.
          Ok (first_position, second_position, split_reward))))
        else Ok (first_position, second_position, 0))
      else Ok (first_position, second_position, 0))"

definition apply_split_position ::
  "pool \<Rightarrow> position \<Rightarrow> position \<Rightarrow> u32 \<Rightarrow> u32 \<Rightarrow> u32 \<Rightarrow> u32 \<Rightarrow> u32 \<Rightarrow> u32 \<Rightarrow>
   (position \<times> position \<times> split_amount_info) result" where
  "apply_split_position self first_position second_position unlocked_liquidity_numerator
     permanent_locked_liquidity_numerator fee_a_numerator fee_b_numerator reward_0_numerator
     reward_1_numerator =
     rbind (update_fee first_position (pl_fee_a_per_liquidity self) (pl_fee_b_per_liquidity self))
       (\<lambda>first_position.
     rbind (update_fee second_position (pl_fee_a_per_liquidity self) (pl_fee_b_per_liquidity self))
       (\<lambda>second_position.
     rbind (if 0 < unlocked_liquidity_numerator then
              rbind (get_unlocked_liquidity_by_numerator first_position unlocked_liquidity_numerator)
                (\<lambda>delta.
              rbind (remove_unlocked_liquidity first_position delta) (\<lambda>first_position.
              rbind (add_liquidity second_position delta) (\<lambda>second_position.
              Ok (first_position, second_position, delta))))
            else Ok (first_position, second_position, 0))
       (\<lambda>(first_position, second_position, unlocked_liquidity_split).
     rbind (if 0 < permanent_locked_liquidity_numerator then
              rbind (get_permanent_locked_liquidity_by_numerator first_position
                permanent_locked_liquidity_numerator) (\<lambda>delta.
              rbind (remove_permanent_locked_liquidity first_position delta) (\<lambda>first_position.
              rbind (add_permanent_locked_liquidity second_position delta) (\<lambda>second_position.
              Ok (first_position, second_position, delta))))
            else Ok (first_position, second_position, 0))
       (\<lambda>(first_position, second_position, permanent_locked_liquidity_split).
     rbind (if 0 < fee_a_numerator \<or> 0 < fee_b_numerator then
              rbind (get_pending_fee_by_numerator first_position fee_a_numerator fee_b_numerator)
                (\<lambda>(fee_a_amount, fee_b_amount).
              rbind (remove_fee_pending first_position fee_a_amount fee_b_amount) (\<lambda>first_position.
              rbind (add_fee_pending second_position fee_a_amount fee_b_amount) (\<lambda>second_position.
              Ok (first_position, second_position, fee_a_amount, fee_b_amount))))
            else Ok (first_position, second_position, 0, 0))
       (\<lambda>(first_position, second_position, fee_a_split, fee_b_split).
     rbind (if pool_reward_initialized self then
              rbind (split_reward self 0 reward_0_numerator first_position second_position)
                (\<lambda>(first_position, second_position, r0).
              rbind (split_reward self 1 reward_1_numerator first_position second_position)
                (\<lambda>(first_position, second_position, r1).
              Ok (first_position, second_position, r0, r1)))
            else Ok (first_position, second_position, 0, 0))
       (\<lambda>(first_position, second_position, reward_0_split, reward_1_split).
     Ok (first_position, second_position,
         \<lparr> sp_permanent_locked_liquidity = permanent_locked_liquidity_split,
           sp_unlocked_liquidity = unlocked_liquidity_split,
           sp_fee_a = fee_a_split, sp_fee_b = fee_b_split,
           sp_reward_0 = reward_0_split, sp_reward_1 = reward_1_split \<rparr>)))))))"

section \<open>Claims of the protocol and the partner\<close>

definition claim_protocol_fee :: "pool \<Rightarrow> u64 \<Rightarrow> u64 \<Rightarrow> (pool \<times> u64 \<times> u64) result" where
  "claim_protocol_fee self max_amount_a max_amount_b =
     (let token_a_amount = min (pl_protocol_a_fee self) max_amount_a;
          token_b_amount = min (pl_protocol_b_fee self) max_amount_b in
      rbind (safe_sub (pl_protocol_a_fee self) token_a_amount) (\<lambda>a.
      rbind (safe_sub (pl_protocol_b_fee self) token_b_amount) (\<lambda>b.
      Ok (self\<lparr>pl_protocol_a_fee := a, pl_protocol_b_fee := b\<rparr>, token_a_amount, token_b_amount))))"

definition claim_partner_fee :: "pool \<Rightarrow> u64 \<Rightarrow> u64 \<Rightarrow> (pool \<times> u64 \<times> u64) result" where
  "claim_partner_fee self max_amount_a max_amount_b =
     (let token_a_amount = min (pl_partner_a_fee self) max_amount_a;
          token_b_amount = min (pl_partner_b_fee self) max_amount_b in
      rbind (safe_sub (pl_partner_a_fee self) token_a_amount) (\<lambda>a.
      rbind (safe_sub (pl_partner_b_fee self) token_b_amount) (\<lambda>b.
      Ok (self\<lparr>pl_partner_a_fee := a, pl_partner_b_fee := b\<rparr>, token_a_amount, token_b_amount))))"

section \<open>Rewards\<close>

text \<open>The loop over the \<^verbatim>\<open>NUM_REWARDS\<close> rewards, unrolled for the two.\<close>

definition pool_update_rewards :: "pool \<Rightarrow> u64 \<Rightarrow> pool result" where
  "pool_update_rewards self current_time =
     rbind (reward_update_rewards (slot0 (pl_reward_infos self)) (pl_liquidity self) current_time)
       (\<lambda>r0.
     rbind (reward_update_rewards (slot1 (pl_reward_infos self)) (pl_liquidity self) current_time)
       (\<lambda>r1.
     Ok (self\<lparr>pl_reward_infos := Arr2 r0 r1\<rparr>)))"

definition claim_ineligible_reward :: "pool \<Rightarrow> nat \<Rightarrow> (pool \<times> u64) result" where
  "claim_ineligible_reward self reward_index =
     rbind (arr2_get (pl_reward_infos self) reward_index) (\<lambda>reward_info.
     rbind (safe_mul_shr_cast
       (ucast (rw_cumulative_seconds_with_empty_liquidity_reward reward_info))
       (rw_reward_rate reward_info) REWARD_RATE_SCALE) (\<lambda>ineligible_reward.
     Ok (self\<lparr>pl_reward_infos := arr2_set (pl_reward_infos self) reward_index
           (reward_info\<lparr>rw_cumulative_seconds_with_empty_liquidity_reward := 0\<rparr>)\<rparr>,
         ineligible_reward)))"

definition check_pool_creator_to_edit_reward :: "pool \<Rightarrow> nat \<Rightarrow> pubkey \<Rightarrow> bool" where
  "check_pool_creator_to_edit_reward self reward_index signer \<longleftrightarrow>
     signer = pl_creator self \<and> reward_index = 0"

definition update_one_position_reward ::
  "u128 \<Rightarrow> reward_info \<Rightarrow> user_reward_info \<Rightarrow> user_reward_info result" where
  "update_one_position_reward position_liquidity pool_reward_info info =
     (if reward_initialized pool_reward_info
      then user_update_rewards info position_liquidity (rw_reward_per_token_stored pool_reward_info)
      else Ok info)"

definition update_position_reward :: "position \<Rightarrow> pool \<Rightarrow> position result" where
  "update_position_reward self pool_state =
     rbind (get_total_liquidity self) (\<lambda>position_liquidity.
     rbind (update_one_position_reward position_liquidity (slot0 (pl_reward_infos pool_state))
       (slot0 (ps_reward_infos self))) (\<lambda>r0.
     rbind (update_one_position_reward position_liquidity (slot1 (pl_reward_infos pool_state))
       (slot1 (ps_reward_infos self))) (\<lambda>r1.
     Ok (self\<lparr>ps_reward_infos := Arr2 r0 r1\<rparr>))))"

definition position_update_rewards :: "position \<Rightarrow> pool \<Rightarrow> u64 \<Rightarrow> (pool \<times> position) result" where
  "position_update_rewards self pool_state current_time =
     (if pool_reward_initialized pool_state then
        rbind (pool_update_rewards pool_state current_time) (\<lambda>pool_state.
        rbind (update_position_reward self pool_state) (\<lambda>self.
        Ok (pool_state, self)))
      else Ok (pool_state, self))"

section \<open>Changing the fees of a pool\<close>

record update_pool_fees_parameters =
  up_cliff_fee_numerator :: "u64 option"
  up_dynamic_fee :: "dynamic_fee_parameters option"

datatype dynamic_fee_update_mode =
  SkipDynamicFee | DisableDynamicFee | UpdateDynamicFee dynamic_fee_parameters

datatype base_fee_update_mode = SkipBaseFee | UpdateBaseFee u64

definition dynamic_fee_parameters_default :: dynamic_fee_parameters where
  "dynamic_fee_parameters_default =
     \<lparr> dp_bin_step = 0, dp_bin_step_u128 = 0, dp_filter_period = 0, dp_decay_period = 0,
       dp_reduction_factor = 0, dp_max_volatility_accumulator = 0, dp_variable_fee_control = 0 \<rparr>"

definition get_base_fee_update_mode :: "update_pool_fees_parameters \<Rightarrow> base_fee_update_mode" where
  "get_base_fee_update_mode self =
     (case up_cliff_fee_numerator self of
        Some cliff_fee_numerator \<Rightarrow> UpdateBaseFee cliff_fee_numerator
      | None \<Rightarrow> SkipBaseFee)"

definition get_dynamic_fee_update_mode :: "update_pool_fees_parameters \<Rightarrow> dynamic_fee_update_mode" where
  "get_dynamic_fee_update_mode self =
     (case up_dynamic_fee self of
        Some dynamic_fee \<Rightarrow>
          if dynamic_fee = dynamic_fee_parameters_default then DisableDynamicFee
          else UpdateDynamicFee dynamic_fee
      | None \<Rightarrow> SkipDynamicFee)"

definition update_pool_fees_parameters_validate :: "update_pool_fees_parameters \<Rightarrow> unit result" where
  "update_pool_fees_parameters_validate self =
     require (up_cliff_fee_numerator self \<noteq> None \<or> up_dynamic_fee self \<noteq> None)
       InvalidUpdatePoolFeesParameters
       (case up_dynamic_fee self of
          Some dynamic_fee \<Rightarrow>
            if dynamic_fee \<noteq> dynamic_fee_parameters_default
            then dynamic_fee_parameters_validate dynamic_fee else Ok ()
        | None \<Rightarrow> Ok ())"

definition update_base_fee :: "clock \<Rightarrow> pool \<Rightarrow> u64 \<Rightarrow> pool result" where
  "update_base_fee clk self cliff_fee_numerator =
     rbind (info_get_base_fee_handler (pf_base_fee (pl_pool_fees self))) (\<lambda>base_fee_handler.
     rbind (get_current_point clk (pl_activation_type self)) (\<lambda>current_point.
     rbind (handler_is_static base_fee_handler current_point (pl_activation_point self))
       (\<lambda>is_static.
     require is_static CannotUpdateBaseFee
       (rbind (update_cliff_fee_numerator (pf_base_fee (pl_pool_fees self)) cliff_fee_numerator)
         (\<lambda>info.
        rbind (info_get_base_fee_handler info) (\<lambda>base_fee_handler.
        rbind (ok_or (activation_type_of_u8 (pl_activation_type self)) InvalidActivationType)
          (\<lambda>activation_type.
        rbind (ok_or (collect_fee_mode_of_u8 (pl_collect_fee_mode self)) InvalidCollectFeeMode)
          (\<lambda>collect_fee_mode.
        rbind (handler_validate base_fee_handler collect_fee_mode activation_type) (\<lambda>_.
        rbind (handler_get_min base_fee_handler) (\<lambda>current_base_fee_numerator.
        require (current_base_fee_numerator \<le> MAX_FEE_NUMERATOR_POST_UPDATE)
          InvalidUpdatePoolFeesParameters
          (Ok (self\<lparr>pl_pool_fees := (pl_pool_fees self)\<lparr>pf_base_fee := info\<rparr>\<rparr>))))))))))))"

definition validate_and_update_pool_fees ::
  "clock \<Rightarrow> pool \<Rightarrow> update_pool_fees_parameters \<Rightarrow> pool result" where
  "validate_and_update_pool_fees clk self params =
     rbind (case get_base_fee_update_mode params of
              UpdateBaseFee cliff_fee_numerator \<Rightarrow> update_base_fee clk self cliff_fee_numerator
            | SkipBaseFee \<Rightarrow> Ok self) (\<lambda>self.
     case get_dynamic_fee_update_mode params of
       DisableDynamicFee \<Rightarrow>
         require (is_dynamic_fee_enable (pf_dynamic_fee (pl_pool_fees self)))
           InvalidDynamicFeeParameters
           (Ok (self\<lparr>pl_pool_fees := (pl_pool_fees self)\<lparr>pf_dynamic_fee := dynamic_fee_default\<rparr>\<rparr>))
     | UpdateDynamicFee dynamic_fee \<Rightarrow>
         Ok (self\<lparr>pl_pool_fees :=
           (pl_pool_fees self)\<lparr>pf_dynamic_fee := to_dynamic_fee_struct dynamic_fee\<rparr>\<rparr>)
     | SkipDynamicFee \<Rightarrow> Ok self)"

section \<open>Access to a pool\<close>

text \<open>\<^verbatim>\<open>pool_action_access/permissionless.rs\<close>.\<close>

record action_access =
  aa_is_enabled :: bool
  aa_activation_point :: u64
  aa_pre_activation_point :: u64
  aa_current_point :: u64
  aa_whitelisted_vault :: pubkey

definition get_pool_access_validator :: "clock \<Rightarrow> pool \<Rightarrow> action_access result" where
  "get_pool_access_validator clk q =
     rbind (ok_or (activation_type_of_u8 (pl_activation_type q)) InvalidActivationType) (\<lambda>t.
     let (current_point, buffer_time) =
       (case t of
          Slot \<Rightarrow> (slot clk, SLOT_BUFFER)
        | Timestamp \<Rightarrow> (unix_timestamp clk, TIME_BUFFER)) in
     rbind (if buffer_time \<le> pl_activation_point q
            then safe_sub (pl_activation_point q) buffer_time else Ok 0) (\<lambda>pre_activation_point.
     Ok \<lparr> aa_is_enabled = (pl_pool_status q = u8_of_pool_status Enable),
          aa_activation_point = pl_activation_point q,
          aa_pre_activation_point = pre_activation_point,
          aa_current_point = current_point,
          aa_whitelisted_vault = pl_whitelisted_vault q \<rparr>))"

definition can_add_liquidity :: "action_access \<Rightarrow> bool" where
  "can_add_liquidity self \<longleftrightarrow> aa_is_enabled self"

definition can_remove_liquidity :: "action_access \<Rightarrow> bool" where
  "can_remove_liquidity self \<longleftrightarrow> aa_activation_point self \<le> aa_current_point self"

definition can_swap :: "action_access \<Rightarrow> pubkey \<Rightarrow> bool" where
  "can_swap self sender =
     (if aa_is_enabled self then
        if sender = aa_whitelisted_vault self
        then aa_pre_activation_point self \<le> aa_current_point self
        else aa_activation_point self \<le> aa_current_point self
      else False)"

definition can_create_position :: "action_access \<Rightarrow> bool" where
  "can_create_position self \<longleftrightarrow> aa_is_enabled self"

definition can_lock_position :: "action_access \<Rightarrow> bool" where
  "can_lock_position self \<longleftrightarrow> aa_is_enabled self"

definition can_split_position :: "action_access \<Rightarrow> bool" where
  "can_split_position self \<longleftrightarrow> aa_is_enabled self"

end
