(* ===== verification/Evaluation.thy ===== *)
theory Evaluation
  imports Pool_Ops
begin

text \<open>
  Evaluation of the model on concrete accounts, inside the kernel: the definitions as rewrite rules
  and weak congruences, so that the simplifier reduces a monadic program from its head and does not
  look under the binders of what has not happened yet. Then the accounts on which the
  properties are evaluated.
\<close>

section \<open>The definitions as rewrite rules\<close>

lemma rbind_weak_cong: "m = m' \<Longrightarrow> rbind m f = rbind m' f"
  by simp

lemma require_weak_cong: "b = b' \<Longrightarrow> require b e x = require b' e x"
  by simp

lemma assert_panic_weak_cong: "b = b' \<Longrightarrow> assert_panic b x = assert_panic b' x"
  by simp

lemmas evaluation_cong =
  rbind_weak_cong require_weak_cong assert_panic_weak_cong let_weak_cong if_weak_cong

lemma ucast_max:
  "(ucast (- 1 :: u64) :: u256) = 18446744073709551615"
  "(ucast (- 1 :: u64) :: u128) = 18446744073709551615"
  "(ucast (- 1 :: u128) :: u256) = 340282366920938463463374607431768211455"
  "(ucast (- 1 :: u256) :: u512) =
    115792089237316195423570985008687907853269984665640564039457584007913129639935"
proof -
  have m: "(- 1 :: u64) = 18446744073709551615" "(- 1 :: u128) = 340282366920938463463374607431768211455"
    "(- 1 :: u256) = 115792089237316195423570985008687907853269984665640564039457584007913129639935"
    by simp_all
  show "(ucast (- 1 :: u64) :: u256) = 18446744073709551615"
    "(ucast (- 1 :: u64) :: u128) = 18446744073709551615" unfolding m(1) by simp_all
  show "(ucast (- 1 :: u128) :: u256) = 340282366920938463463374607431768211455"
    unfolding m(2) by simp
  show "(ucast (- 1 :: u256) :: u512) =
    115792089237316195423570985008687907853269984665640564039457584007913129639935"
    unfolding m(3) by simp
qed

lemmas amm_prelude_eval =
  arr2_get_def arr2_set_def

lemmas amm_math_eval =
  checked_add_def checked_sub_def checked_mul_def checked_div_def checked_rem_def
  checked_shl_def checked_shr_def u256_checked_shl_def u256_checked_shr_def try_narrow_def
  word_div_ceil_def safe_add_def safe_sub_def safe_mul_def safe_div_def safe_rem_def
  safe_shl_def safe_shr_def u256_safe_shl_def safe_cast_def raw_sub_def mul_shr_def
  mul_shr_256_def shl_div_def shl_div_256_def mul_div_u256_def safe_mul_shr_cast_def
  safe_mul_shr_256_cast_def safe_mul_div_cast_u64_def safe_mul_div_cast_u128_def
  safe_shl_div_cast_def leading_zeros_def sqrt_u256_def

lemmas amm_constants_eval =
  MIN_SQRT_PRICE_def MAX_SQRT_PRICE_def LIQUIDITY_SCALE_def REWARD_RATE_SCALE_def
  TOTAL_REWARD_SCALE_def RESOLUTION_def ONE_Q64_def BIN_STEP_BPS_DEFAULT_def
  BIN_STEP_BPS_U128_DEFAULT_def U24_MAX_def NUM_REWARDS_def MIN_REWARD_DURATION_def
  MAX_REWARD_DURATION_def SPLIT_POSITION_DENOMINATOR_def
  MAX_RATE_LIMITER_DURATION_IN_SECONDS_def MAX_RATE_LIMITER_DURATION_IN_SLOTS_def
  MAX_OPERATION_def SLOT_BUFFER_def TIME_BUFFER_def MAX_ACTIVATION_SLOT_DURATION_def
  MAX_ACTIVATION_TIME_DURATION_def MAX_VESTING_SLOT_DURATION_def MAX_VESTING_TIME_DURATION_def
  FIVE_MINUTES_SLOT_BUFFER_def FIVE_MINUTES_TIME_BUFFER_def MAX_FEE_CURVE_TIME_DURATION_def
  MAX_FEE_CURVE_SLOT_DURATION_def MAX_HIGH_TAX_TIME_DURATION_def MAX_HIGH_TAX_SLOT_DURATION_def
  FEE_DENOMINATOR_def MAX_FEE_BPS_V0_def MAX_FEE_NUMERATOR_V0_def MAX_FEE_BPS_V1_def
  MAX_FEE_NUMERATOR_V1_def MAX_FEE_NUMERATOR_POST_UPDATE_def MAX_BASIS_POINT_def
  MIN_FEE_NUMERATOR_def PROTOCOL_FEE_PERCENT_def HOST_FEE_PERCENT_def PARTNER_FEE_PERCENT_def
  CURRENT_POOL_VERSION_def get_max_fee_numerator_def get_max_fee_bps_def

lemmas fee_math_eval =
  MAX_EXPONENTIAL_def SCALE_OFFSET_def mul_scaled_def pow_bit_def pow_masks_def pow_def
  get_fee_in_period_def

lemmas curve_eval =
  get_delta_amount_a_unsigned_unchecked_def u256_to_u64_def get_delta_amount_a_unsigned_def
  get_delta_amount_b_unsigned_unchecked_def get_delta_amount_b_unsigned_def
  get_initialize_amounts_def get_next_sqrt_price_from_amount_in_a_rounding_up_def
  get_next_sqrt_price_from_amount_out_a_rounding_up_def
  get_next_sqrt_price_from_amount_in_b_rounding_down_def
  get_next_sqrt_price_from_amount_out_b_rounding_down_def get_next_sqrt_price_from_input_def
  get_next_sqrt_price_from_output_def curve_sell_def

lemmas activation_eval =
  get_current_point_def get_current_point_and_max_vesting_duration_def
  get_current_point_and_buffer_duration_def get_max_activation_point_def
  get_pre_activation_start_point_def get_last_join_point_def
  get_timing_constraint_by_activation_type_def get_max_activation_point_from_current_time_def
  activation_params_validate_def

lemmas fee_amounts_eval =
  collect_fee_mode_of_u8_def base_fee_mode_of_u8_def validate_fee_fraction_def calculate_fee_def
  to_bps_def to_numerator_def get_excluded_fee_amount_def get_included_fee_amount_def

lemmas time_scheduler_eval =
  ts_get_max_base_fee_numerator_def ts_get_base_fee_numerator_by_period_def
  ts_get_base_fee_numerator_def ts_get_min_base_fee_numerator_def ts_validate_def
  ts_from_included_def ts_from_excluded_def ts_validate_base_fee_is_static_def

lemmas market_cap_scheduler_eval =
  mc_get_base_fee_numerator_by_period_def mc_passed_period_def mc_get_base_fee_numerator_def
  mc_get_min_base_fee_numerator_def mc_validate_def mc_from_included_def mc_from_excluded_def
  mc_validate_base_fee_is_static_def

lemmas rate_limiter_eval =
  is_zero_rate_limiter_def is_non_zero_rate_limiter_def is_rate_limiter_applied_def
  max_fee_numerator_of_def fee_increment_of_def get_max_index_def trading_fee_numerator_def
  get_fee_numerator_from_included_fee_amount_def rl_get_excluded_fee_amount_def
  get_checked_amounts_def included_below_max_index_def
  get_fee_numerator_from_excluded_fee_amount_def rl_validate_def rl_from_included_def
  rl_from_excluded_def rl_validate_base_fee_is_static_def rl_get_min_base_fee_numerator_def

lemmas dynamic_fee_eval =
  dynamic_fee_default_def to_dynamic_fee_struct_def dynamic_fee_parameters_validate_def
  get_delta_bin_id_def update_volatility_accumulator_def saturating_sub_def
  update_references_def is_dynamic_fee_enable_def get_variable_fee_def

lemmas pool_fees_eval =
  base_fee_parameters_validate_def pool_fee_parameters_validate_def to_pool_fees_struct_def
  get_total_fee_numerator_def get_total_trading_fee_from_included_fee_amount_def
  get_total_trading_fee_from_excluded_fee_amount_def split_fees_def get_fee_on_amount_def
  get_fee_mode_def have_partner_def partner_info_validate_def

lemmas position_eval =
  user_reward_info_default_def position_default_def has_sufficient_liquidity_def
  get_total_liquidity_def add_liquidity_def remove_unlocked_liquidity_def lock_def
  permanent_lock_liquidity_def remove_permanent_locked_liquidity_def
  add_permanent_locked_liquidity_def release_vested_liquidity_def remove_fee_pending_def
  add_fee_pending_def accrue_fee_def update_fee_def reset_pending_fee_def
  accumulate_claimed_fee_def user_update_rewards_def remove_reward_pending_def
  add_reward_pending_def get_total_reward_def claim_reward_def position_is_empty_def
  get_unlocked_liquidity_by_numerator_def get_permanent_locked_liquidity_by_numerator_def
  get_pending_fee_by_numerator_def get_pending_reward_by_numerator_def

lemmas rewards_eval =
  reward_info_default_def reward_initialized_def is_valid_funder_def init_reward_def
  update_last_update_time_def get_seconds_elapsed_since_last_update_def
  calculate_reward_per_token_stored_since_last_update_def accumulate_reward_per_token_stored_def
  reward_update_rewards_def update_rate_after_funding_def reward_committed_def

lemmas pool_eval =
  increase_position_def reduce_position_def accumulate_fee_def pool_reward_initialized_def
  has_partner_def calculate_a_to_b_from_amount_in_def calculate_b_to_a_from_amount_in_def
  calculate_a_to_b_from_partial_amount_in_def calculate_b_to_a_from_partial_amount_in_def
  calculate_a_to_b_from_amount_out_def calculate_b_to_a_from_amount_out_def no_fees_def
  fees_of_def include_fee_def exclude_fee_def get_swap_result_from_exact_output_def
  get_swap_result_from_partial_input_def get_swap_result_from_exact_input_def

lemmas pool_ops_eval =
  pool_metrics_default_def pool_initialize_def position_initialize_def update_pre_swap_def
  update_post_swap_def apply_swap_result_def get_amounts_for_modify_liquidity_def
  apply_add_liquidity_def apply_remove_liquidity_def accumulate_permanent_locked_liquidity_def
  get_reserves_amount_def split_reward_def apply_split_position_def claim_protocol_fee_def
  claim_partner_fee_def pool_update_rewards_def claim_ineligible_reward_def
  check_pool_creator_to_edit_reward_def update_one_position_reward_def
  update_position_reward_def position_update_rewards_def dynamic_fee_parameters_default_def
  get_base_fee_update_mode_def get_dynamic_fee_update_mode_def
  update_pool_fees_parameters_validate_def update_base_fee_def validate_and_update_pool_fees_def
  get_pool_access_validator_def can_add_liquidity_def can_remove_liquidity_def can_swap_def
  can_create_position_def can_lock_position_def can_split_position_def

lemmas evaluation =
  amm_prelude_eval amm_math_eval amm_constants_eval fee_math_eval curve_eval activation_eval
  fee_amounts_eval time_scheduler_eval market_cap_scheduler_eval rate_limiter_eval
  dynamic_fee_eval pool_fees_eval position_eval rewards_eval pool_eval pool_ops_eval ucast_max

section \<open>A pool\<close>

text \<open>
  A base fee of 0.25 percent, no dynamic fee, fees in both tokens, the full range of prices, the
  price 1 and a liquidity of a million.
\<close>

definition example_scheduler :: time_scheduler where
  "example_scheduler =
     \<lparr> ts_cliff_fee_numerator = 2500000, ts_base_fee_mode = 0, ts_number_of_period = 0,
       ts_period_frequency = 0, ts_reduction_factor = 0 \<rparr>"

definition example_info :: base_fee_info where
  "example_info = ts_to_pod_aligned_bytes example_scheduler"

definition example_fees :: pool_fees where
  "example_fees =
     \<lparr> pf_base_fee = example_info, pf_protocol_fee_percent = 20, pf_partner_fee_percent = 0,
       pf_referral_fee_percent = 20, pf_dynamic_fee = dynamic_fee_default,
       pf_init_sqrt_price = 18446744073709551616 \<rparr>"

definition example_pool :: pool where
  "example_pool =
     pool_initialize 1 example_fees 2 3 4 5 0 0 4295048016 79226673521066979257578248091
       18446744073709551616 0 0 0 0 18446744073709551616000000 0 0"

definition example_mode :: fee_mode where
  "example_mode =
     \<lparr> fm_fees_on_input = False, fm_fees_on_token_a = False, fm_has_referral = False \<rparr>"

definition example_position :: position where
  "example_position = position_default\<lparr>ps_unlocked_liquidity := 18446744073709551616000000\<rparr>"

lemma example_handler:
  "info_get_base_fee_handler example_info = Ok (TimeHandler example_scheduler)"
  by (simp add: example_info_def example_scheduler_def info_get_base_fee_handler_def pod_mode
      pod_round_trip base_fee_mode_of_u8_def)

lemmas example_defs =
  example_pool_def example_fees_def example_mode_def example_scheduler_def example_handler
  example_position_def

lemma example_pool_wf: "wf_prices example_pool" "wf_pool_fees (pl_pool_fees example_pool)"
  by (simp_all add: wf_prices_def wf_pool_fees_def example_pool_def pool_initialize_def
      example_fees_def)

lemma example_exact_input:
  "\<exists>r. get_swap_result_from_exact_input example_pool 1000 example_mode AtoB 10 = Ok r"
  by (simp add: example_defs evaluation cong: evaluation_cong)

lemma example_partial_input:
  "\<exists>r. get_swap_result_from_partial_input example_pool 100000 example_mode AtoB 10 = Ok r"
  by (simp add: example_defs evaluation cong: evaluation_cong)

lemma example_exact_output:
  "\<exists>r. get_swap_result_from_exact_output example_pool 1000 example_mode AtoB 10 = Ok r"
  by (simp add: example_defs evaluation cong: evaluation_cong)

end
