(* ===== verification/Exponential_Decay.thy ===== *)
theory Exponential_Decay
  imports Base_Fee_Handler Complex_Main
begin

text \<open>
  How close the fixed-point power of the exponential schedules comes to the real one: an estimate
  for the square-and-multiply loop (\<open>qpow\<close>, from Fee_Math), and from it the two-sided bound on
  \<^verbatim>\<open>get_fee_in_period\<close> (\<^verbatim>\<open>base_fee/fee_time_scheduler.rs\<close> and \<^verbatim>\<open>utils_math.rs\<close>).
\<close>

section \<open>Powers of numbers below one\<close>

lemma power_diff_le:
  fixes x y :: real
  assumes "0 \<le> y" and "y \<le> x" and "x \<le> 1"
  shows "x ^ n - y ^ n \<le> real n * (x - y)"
proof (induction n)
  case (Suc n)
  have p: "x ^ n \<le> 1" using assms by (intro power_le_one) simp_all
  have "x ^ Suc n - y ^ Suc n = x ^ n * (x - y) + y * (x ^ n - y ^ n)" by (simp add: algebra_simps)
  also have "\<dots> \<le> 1 * (x - y) + 1 * (real n * (x - y))"
  proof (rule add_mono)
    show "x ^ n * (x - y) \<le> 1 * (x - y)" using p assms by (intro mult_right_mono) simp_all
    have "y * (x ^ n - y ^ n) \<le> y * (real n * (x - y))" using Suc.IH assms by (intro mult_left_mono)
    also have "\<dots> \<le> 1 * (real n * (x - y))" using assms by (intro mult_right_mono) simp_all
    finally show "y * (x ^ n - y ^ n) \<le> 1 * (real n * (x - y))" .
  qed
  finally show ?case by (simp add: algebra_simps)
qed simp

text \<open>A quotient loses less than one.\<close>

lemma real_div_bounds:
  assumes "0 < d"
  shows "real n / real d - 1 < real (n div d)" and "real (n div d) \<le> real n / real d"
proof -
  have "real n = real d * real (n div d) + real (n mod d)"
    by (simp only: of_nat_mult [symmetric] of_nat_add [symmetric] mult_div_mod_eq)
  moreover have "real (n mod d) < real d" "0 \<le> real (n mod d)" using assms by simp_all
  ultimately show "real n / real d - 1 < real (n div d)" "real (n div d) \<le> real n / real d"
    using assms by (simp_all add: field_simps)
qed

section \<open>The loop\<close>

text \<open>Each squaring and each multiplication loses less than one unit in the last place.\<close>

lemma qpow_lower:
  assumes "b \<le> 2 ^ 64" and "r \<le> 2 ^ 64"
  shows "real r * (real b / 2 ^ 64) ^ e - real e \<le> real (qpow e b r)"
  using assms
proof (induction e b r rule: qpow.induct)
  case (1 e b r)
  let ?S = "2 ^ 64 :: nat"
  show ?case
  proof (cases "e = 0")
    case True
    then show ?thesis by (simp add: qpow.simps)
  next
    case False
    define q where "q = e div 2"
    define b' where "b' = b * b div ?S"
    define r' where "r' = (if odd e then r * b div ?S else r)"
    define x where "x = real b / 2 ^ 64"
    define y where "y = real b' / 2 ^ 64"
    have unf: "qpow e b r = qpow q b' r'"
      using False by (subst qpow.simps) (simp add: q_def b'_def r'_def)
    have prod: "k * b div ?S \<le> ?S" if "k \<le> ?S" for k
    proof -
      have "k * b \<le> ?S * ?S" using that 1(2) by (intro mult_le_mono)
      then have "k * b div ?S \<le> ?S * ?S div ?S" by (rule div_le_mono)
      then show ?thesis by simp
    qed
    have b': "b' \<le> ?S" and r': "r' \<le> ?S"
      using prod [OF 1(2)] prod [OF 1(3)] 1(3) by (simp_all add: b'_def r'_def)
    have IH: "real r' * y ^ q - real q \<le> real (qpow q b' r')"
      using 1(1) [OF False] b' r' by (simp only: q_def b'_def r'_def y_def)
    have x: "0 \<le> x" "x \<le> 1" using of_nat_mono [OF 1(2), where ?'a = real] by (simp_all add: x_def)
    have sq: "real (b * b) / real ?S = x * x * 2 ^ 64" by (simp add: x_def)
    have y: "0 \<le> y" "y \<le> x * x" "x * x - y \<le> 1 / 2 ^ 64"
      using real_div_bounds [of ?S "b * b"] unfolding sq y_def b'_def [symmetric]
      by (simp_all add: field_simps)
    have x2: "x * x \<le> 1" using x by (simp add: mult_le_one)
    have pw: "(x * x) ^ q - y ^ q \<le> real q / 2 ^ 64"
    proof -
      have "(x * x) ^ q - y ^ q \<le> real q * (x * x - y)" by (rule power_diff_le [OF y(1,2) x2])
      also have "\<dots> \<le> real q * (1 / 2 ^ 64)" using y(3) by (intro mult_left_mono) simp_all
      finally show ?thesis by simp
    qed
    have rr: "real r' \<le> 2 ^ 64" using of_nat_mono [OF r', where ?'a = real] by simp
    have "real r' * ((x * x) ^ q - y ^ q) \<le> real r' * (real q / 2 ^ 64)"
      using pw by (intro mult_left_mono) simp_all
    also have "\<dots> \<le> 2 ^ 64 * (real q / 2 ^ 64)" using rr by (intro mult_right_mono) simp_all
    finally have base: "real r' * (x * x) ^ q - real q \<le> real r' * y ^ q" by (simp add: algebra_simps)
    have p1: "0 \<le> (x * x) ^ q" "(x * x) ^ q \<le> 1" using x x2 by (simp_all add: power_le_one)
    have pe: "(x * x) ^ q = x ^ (2 * q)" by (simp add: power_mult power2_eq_square)
    have rl: "real r * x ^ e - real (e mod 2) \<le> real r' * (x * x) ^ q"
    proof (cases "odd e")
      case True
      have rx: "real (r * b) / real ?S = real r * x" by (simp add: x_def)
      have "real r * x - 1 < real (r * b div ?S)"
        using real_div_bounds(1) [of ?S "r * b"] unfolding rx by simp
      then have "real r * x - 1 \<le> real r'" using True unfolding r'_def by simp
      then have "(real r * x - 1) * (x * x) ^ q \<le> real r' * (x * x) ^ q"
        using p1(1) by (rule mult_right_mono)
      moreover have "x ^ e = x * (x * x) ^ q"
      proof -
        have "e = Suc (2 * q)" using True by (simp add: q_def)
        then show ?thesis by (simp only: pe power_Suc)
      qed
      ultimately show ?thesis using p1(2) True by (simp add: algebra_simps odd_iff_mod_2_eq_one)
    next
      case F: False
      then have "e = 2 * q" by (simp add: q_def)
      then show ?thesis using F by (simp add: pe r'_def)
    qed
    have "e = 2 * q + e mod 2" by (simp add: q_def)
    then have "real e = 2 * real q + real (e mod 2)"
      by (metis of_nat_add of_nat_mult of_nat_numeral)
    then have "real r * x ^ e - real e \<le> real (qpow q b' r')" using IH base rl by linarith
    then show ?thesis by (simp only: unf x_def)
  qed
qed

section \<open>The fee\<close>

text \<open>The reduction is at most the whole fee: a larger one fails in the subtraction.\<close>

lemma get_fee_in_period_factor:
  assumes "get_fee_in_period cliff rf n = Ok fee" and "rf \<noteq> 0"
  shows "unat rf \<le> 10000"
proof -
  obtain s bps base where run: "safe_shl (ucast rf :: u128) SCALE_OFFSET = Ok s"
    "safe_div s (ucast MAX_BASIS_POINT) = Ok bps" "safe_sub ONE_Q64 bps = Ok base"
    using assms by (auto simp: get_fee_in_period_def rbind_Ok_iff ok_or_Ok_iff)
  have "unat rf * 2 ^ 64 < 2 ^ LENGTH(128)" using unat_less_pow [of rf] by simp
  then have "unat (push_bit 64 (ucast rf :: u128)) = unat rf * 2 ^ 64"
    using unat_push_bit [of "ucast rf :: u128" 64] by simp
  then have "unat s = unat rf * 2 ^ 64"
    using run(1) by (simp add: safe_shl_def checked_shl_def SCALE_OFFSET_def)
  then have "unat rf * 2 ^ 64 div 10000 \<le> 2 ^ 64"
    using run(2,3) by (simp add: ok_iffs MAX_BASIS_POINT_def ONE_Q64_def)
  moreover have "10001 * 2 ^ 64 div 10000 \<le> unat rf * 2 ^ 64 div 10000" if "10001 \<le> unat rf"
    using that by (intro div_le_mono mult_right_mono) simp_all
  ultimately have "\<not> 10001 \<le> unat rf" by fastforce
  then show ?thesis by linarith
qed

text \<open>
  The fee after \<open>n\<close> periods differs from the real cliff fee times \<open>(1 - rf / 10000) ^ n\<close> by at most
  \<open>n\<close> units in the last place of the power, scaled by the cliff fee, and by the final rounding.
\<close>

lemma get_fee_in_period_exact:
  assumes g: "get_fee_in_period cliff rf n = Ok fee" and rf: "rf \<noteq> 0" and n: "0 < unat n"
  defines "exact \<equiv> real (unat cliff) * (1 - real (unat rf) / 10000) ^ unat n"
    and "loss \<equiv> real (unat cliff) * real (unat n) / 2 ^ 64"
  shows "real (unat fee) \<le> exact + loss" and "exact - loss - 1 < real (unat fee)"
proof -
  let ?S = "2 ^ 64 :: nat"
  define b where "b = ?S - unat rf * ?S div 10000"
  define x where "x = real b / 2 ^ 64"
  define c where "c = 1 - real (unat rf) / 10000"
  define k where "k = unat n"
  have le: "unat rf \<le> 10000" by (rule get_fee_in_period_factor [OF g rf])
  then have "unat rf * ?S div 10000 \<le> 10000 * ?S div 10000" by (intro div_le_mono mult_right_mono) simp_all
  then have m: "unat rf * ?S div 10000 \<le> ?S" by simp
  have rb: "real b = 2 ^ 64 - real (unat rf * ?S div 10000)" using m by (simp add: b_def of_nat_diff)
  have "real (unat rf) \<le> 10000" using le by linarith
  then have c: "0 \<le> c" unfolding c_def by linarith
  have x: "c \<le> x" "x - c \<le> 1 / 2 ^ 64" "x \<le> 1"
    using real_div_bounds [of 10000 "unat rf * ?S"] rb by (simp_all add: x_def c_def field_simps)
  have cl: "0 \<le> real (unat cliff)" by (rule of_nat_0_le_iff)
  have fee: "unat fee = qpow k b ?S * unat cliff div ?S"
    using get_fee_in_period_Ok [OF g rf n] by (simp only: b_def k_def)
  have up: "real (unat fee) \<le> real (unat cliff) * x ^ k"
  proof -
    have "unat fee * ?S ^ k \<le> unat cliff * b ^ k"
      using get_fee_in_period_upper [OF g rf n] by (simp only: b_def k_def)
    then have "real (unat fee * ?S ^ k) \<le> real (unat cliff * b ^ k)" by (simp only: of_nat_le_iff)
    then show ?thesis by (simp add: x_def power_divide field_simps)
  qed
  have "x ^ k - c ^ k \<le> real k * (x - c)" by (rule power_diff_le [OF c x(1) x(3)])
  also have "\<dots> \<le> real k * (1 / 2 ^ 64)" using x(2) by (intro mult_left_mono) simp_all
  finally have "real (unat cliff) * (x ^ k - c ^ k) \<le> real (unat cliff) * (real k * (1 / 2 ^ 64))"
    using cl by (intro mult_left_mono)
  then show "real (unat fee) \<le> exact + loss"
    using up by (simp add: exact_def loss_def c_def k_def algebra_simps)
  have "real ?S * x ^ k - real k \<le> real (qpow k b ?S)"
    using qpow_lower [of b ?S k] by (simp add: x_def b_def)
  moreover have "real ?S * c ^ k \<le> real ?S * x ^ k" using x(1) c by (intro mult_left_mono power_mono) simp_all
  ultimately have "real ?S * c ^ k - real k \<le> real (qpow k b ?S)" by linarith
  then have "(real ?S * c ^ k - real k) * real (unat cliff) / real ?S \<le>
      real (qpow k b ?S) * real (unat cliff) / real ?S"
    using cl by (intro divide_right_mono mult_right_mono) simp_all
  also have "\<dots> < real (unat fee) + 1"
    using real_div_bounds(1) [of ?S "qpow k b ?S * unat cliff"] by (simp add: fee)
  finally show "exact - loss - 1 < real (unat fee)"
    by (simp add: exact_def loss_def c_def k_def algebra_simps diff_divide_distrib)
qed

end
