(* ===== verification/Fees_Correct.thy ===== *)
theory Fees_Correct
  imports Evaluation Exponential_Decay
begin

text \<open>
  The properties of the arithmetic and of the fees of a pool, each with an instance on concrete
  values.
\<close>

text \<open>A limiter: 1 percent, 0.1 percent more for each 1000 tokens, at most 50 percent, for a minute.\<close>

definition example_limiter :: rate_limiter where
  "example_limiter =
     \<lparr> rl_cliff_fee_numerator = 10000000, rl_base_fee_mode = 2, rl_fee_increment_bps = 10,
       rl_max_limiter_duration = 60, rl_max_fee_bps = 5000, rl_reference_amount = 1000000000 \<rparr>"

section \<open>Arithmetic\<close>

text \<open>
  C40. The square root on 256 bits returns a value for every argument, although it shifts, multiplies
  and adds with overflow checks, and the value is the floor of the root.
\<close>

theorem square_root_is_floor:
  "\<exists>r. sqrt_u256 n = Some r \<and> (unat r)\<^sup>2 \<le> unat n \<and> unat n < (unat r + 1)\<^sup>2"
  by (rule sqrt_u256_correct)

text \<open>
  C27. The fixed-point power, unrolled into nineteen blocks, computes what the loop of its comment
  computes, for every base below one and every exponent in range, and fails only on underflow.
\<close>

theorem unrolled_power_is_the_loop:
  assumes "unat base < 2 ^ 64" and "0 < n" and "n < 2 ^ 19"
  shows "pow base (of_nat n) =
    (case pow_loop n base ONE_Q64 of None \<Rightarrow> None | Some z \<Rightarrow> if z = 0 then None else Some z)"
proof -
  obtain z where "pow_loop n base ONE_Q64 = Some z"
    and "pow base (of_nat n) = (if z = 0 then None else Some z)"
    by (rule pow_below_one [OF assms])
  then show ?thesis by (simp only: option.case)
qed

theorem unrolled_power_is_the_loop_witness:
  "pow 9223372036854775808 (of_nat 5) =
    (case pow_loop 5 9223372036854775808 ONE_Q64 of
       None \<Rightarrow> None | Some z \<Rightarrow> if z = 0 then None else Some z)"
  by (rule unrolled_power_is_the_loop) simp_all

section \<open>Base fees\<close>

text \<open>
  C28. The fee of an exponential schedule after n periods is the cliff fee times the n-th power of one
  minus the reduction, up to the rounding of a 64-bit fixed-point power: it is above the exact real
  value by at most the cliff fee times n over 2 to the 64, and below it by at most that and less than
  one. (At the largest cliff fee of a pool and the largest number of periods that term is less than 2
  to the minus 17.) For every smaller number of periods there is a fee too, between that one
  and the cliff fee.
\<close>

theorem exponential_schedule_decays:
  assumes "get_fee_in_period cliff rf n = Ok fee" and "rf \<noteq> 0" and "0 < unat n"
  shows "real (unat fee) \<le> real (unat cliff) * (1 - real (unat rf) / 10000) ^ unat n
      + real (unat cliff) * real (unat n) / 2 ^ 64 \<and>
    real (unat cliff) * (1 - real (unat rf) / 10000) ^ unat n
      - real (unat cliff) * real (unat n) / 2 ^ 64 - 1 < real (unat fee) \<and>
    (\<forall>k. unat k \<le> unat n \<longrightarrow>
      (\<exists>fee'. get_fee_in_period cliff rf k = Ok fee' \<and> unat fee \<le> unat fee' \<and> unat fee' \<le> unat cliff))"
  using get_fee_in_period_exact [OF assms] get_fee_in_period_antitone [OF assms(1)] by blast

theorem exponential_schedule_decays_witness:
  "\<exists>fee. get_fee_in_period 500000000 1000 2 = Ok fee \<and>
    real (unat fee) \<le> 500000000 * (9 / 10) ^ 2 + 500000000 * 2 / 2 ^ 64 \<and>
    500000000 * (9 / 10) ^ 2 - 500000000 * 2 / 2 ^ 64 - 1 < real (unat fee)"
proof -
  obtain fee where f: "get_fee_in_period 500000000 1000 2 = Ok fee"
    by (simp add: evaluation cong: evaluation_cong)
  have u: "real (unat (500000000 :: u64)) = 500000000" "unat (2 :: u16) = 2"
    "1 - real (unat (1000 :: u64)) / 10000 = 9 / 10" by simp_all
  have "(1000 :: u64) \<noteq> 0" "0 < unat (2 :: u16)" by simp_all
  note d = exponential_schedule_decays [OF f this, unfolded u, unfolded of_nat_numeral]
  show ?thesis using f d by (intro exI [of _ fee]) (intro conjI; blast)
qed

lemma handler_rate_defined:
  assumes "handler_validate h m t = Ok ()" and "0 < unat p0"
    and "\<And>s. h = MarketCapHandler s \<Longrightarrow> unat ap + unat (mc_scheduler_expiration_duration s) < 2 ^ 64"
  shows "\<exists>fee. handler_from_included h cp ap d x p0 p = Ok fee \<and>
    unat MIN_FEE_NUMERATOR \<le> unat fee \<and> unat fee \<le> 1000000000"
proof -
  have "\<exists>fee. handler_from_included h cp ap d x p0 p = Ok fee \<and> unat fee \<le> 1000000000"
  proof (cases h)
    case (TimeHandler s)
    then obtain mn where "ts_get_min_base_fee_numerator s = Ok mn" "unat (ts_cliff_fee_numerator s) \<le> 990000000"
      using assms(1) by (auto elim: ts_validate_D)
    then show ?thesis using ts_fee_total [of s mn cp ap] by (force simp: TimeHandler ts_from_included_def)
  next
    case (LimiterHandler s)
    then show ?thesis using assms(1) rl_from_included_total [of s m t cp ap d x p0 p] by auto
  next
    case (MarketCapHandler s)
    then obtain mn where "mc_get_min_base_fee_numerator s = Ok mn" "unat (mc_cliff_fee_numerator s) \<le> 990000000"
      "0 < unat (mc_sqrt_price_step_bps s)"
      using assms(1) by (auto elim: mc_validate_D)
    then show ?thesis using mc_fee_total [of s mn p0 ap cp p] assms(2,3) MarketCapHandler
      by (force simp: mc_from_included_def)
  qed
  then show ?thesis using bf.never_below_minimum [OF assms(1)] by blast
qed

text \<open>
  Unless a rate limiter is in force, the rate does not depend on whether the amount has its fee in it.
\<close>

lemma handler_excluded_rate:
  assumes "\<forall>s. h = LimiterHandler s \<longrightarrow> is_rate_limiter_applied s cp ap d = Ok False"
  shows "handler_from_excluded h cp ap d x p0 p = handler_from_included h cp ap d x p0 p"
  using assms by (cases h) (simp_all add: ts_from_included_def ts_from_excluded_def
    rl_from_included_def rl_from_excluded_def mc_from_included_def mc_from_excluded_def)

text \<open>
  Every base fee that validates gives a rate for every swap, whatever the time, the amount and the
  price are, and the rate lies between the minimum fee and the whole amount; the two schedules never
  exceed the cliff fee. The market cap scheduler needs its expiration to be a point in time.
\<close>

theorem validated_base_fee_is_defined:
  assumes "handler_validate h m t = Ok ()" and "0 < unat p0"
    and "\<And>s. h = MarketCapHandler s \<Longrightarrow> unat ap + unat (mc_scheduler_expiration_duration s) < 2 ^ 64"
  shows "\<exists>fee. handler_from_included h cp ap d x p0 p = Ok fee \<and>
    unat MIN_FEE_NUMERATOR \<le> unat fee \<and> unat fee \<le> 1000000000"
  by (rule handler_rate_defined [OF assms])

theorem validated_base_fee_is_defined_witness:
  "\<exists>fee. handler_from_included (LimiterHandler example_limiter) 30 0 BtoA 5000000000 1 1 = Ok fee \<and>
    unat MIN_FEE_NUMERATOR \<le> unat fee \<and> unat fee \<le> 1000000000"
proof (rule validated_base_fee_is_defined)
  show "handler_validate (LimiterHandler example_limiter) OnlyB Timestamp = Ok ()"
    by (simp add: example_limiter_def evaluation cong: evaluation_cong)
qed simp_all

text \<open>
  C23. The closed form of the rate limiter charges by tiers: each block of the reference amount pays
  its own rate, which grows by the increment up to the maximum. The fee of an amount is the sum over
  its tokens, rounded up, and the rate is that fee over the amount, rounded up.
\<close>

theorem rate_limiter_charges_by_tiers:
  assumes "rl_validate h m t = Ok ()" and "unat (rl_reference_amount h) < unat x"
  shows "get_fee_numerator_from_included_fee_amount h x = Ok r \<longleftrightarrow>
    (\<exists>fee::u64. unat fee =
        div_up (tiered_fee (rl_tiers h) (unat (rl_reference_amount h)) (unat x)) 1000000000 \<and>
      unat r = div_up (unat fee * 1000000000) (unat x))"
proof (rule rl_included_iff [OF _ assms(2)])
  note v = rl_validate_D [OF assms(1)]
  show "0 < unat (rl_reference_amount h)" "0 < rl_step h"
    using v(4) by (simp_all add: is_non_zero_rate_limiter_def unat_gt_0)
  show "unat (rl_cliff_fee_numerator h) \<le> rl_max_rate h" by (rule v(3))
qed

theorem rate_limiter_charges_by_tiers_witness:
  "\<exists>r fee. get_fee_numerator_from_included_fee_amount example_limiter 2500000000 = Ok r \<and>
    unat (fee :: u64) = div_up (tiered_fee (rl_tiers example_limiter) 1000000000 2500000000) 1000000000 \<and>
    unat r = div_up (unat fee * 1000000000) 2500000000"
proof -
  have v: "rl_validate example_limiter OnlyB Timestamp = Ok ()"
    by (simp add: example_limiter_def evaluation cong: evaluation_cong)
  obtain r where r: "get_fee_numerator_from_included_fee_amount example_limiter 2500000000 = Ok r"
    by (simp add: example_limiter_def evaluation cong: evaluation_cong)
  have x: "unat (rl_reference_amount example_limiter) < unat (2500000000 :: u64)"
    by (simp add: example_limiter_def)
  show ?thesis
    using rate_limiter_charges_by_tiers [OF v x, of r] r by (auto simp: example_limiter_def)
qed

text \<open>
  A rate limiter whose three parameters are zero is rejected: the branch of the validation that
  accepts it cannot be reached, since the maximal rate of such a limiter is below the minimum fee.
\<close>

theorem zero_rate_limiter_is_rejected:
  assumes "is_zero_rate_limiter h"
  shows "rl_validate h m t = Err InvalidFeeRateLimiter"
proof -
  obtain mx i where mx: "max_fee_numerator_of h = Ok mx" "unat mx = rl_max_rate h"
    by (rule rl_numerators [of h])
  have "unat mx = 0" using assms mx(2) by (simp add: is_zero_rate_limiter_def)
  then have "\<not> (MIN_FEE_NUMERATOR \<le> rl_cliff_fee_numerator h \<and> rl_cliff_fee_numerator h \<le> mx)"
    by (simp add: MIN_FEE_NUMERATOR_def word_le_nat_alt)
  then show ?thesis by (simp only: rl_validate_def mx(1) rbind_simps require_def if_False) simp
qed

definition empty_limiter :: rate_limiter where
  "empty_limiter = example_limiter\<lparr>rl_fee_increment_bps := 0, rl_max_limiter_duration := 0,
     rl_max_fee_bps := 0, rl_reference_amount := 0\<rparr>"

theorem zero_rate_limiter_is_rejected_witness:
  "rl_validate empty_limiter OnlyB Slot = Err InvalidFeeRateLimiter"
  by (rule zero_rate_limiter_is_rejected)
    (simp add: is_zero_rate_limiter_def empty_limiter_def example_limiter_def)


text \<open>
  The time scheduler's fee never rises while time passes, and never leaves the interval between
  its minimum and its cliff fee.
\<close>

theorem time_schedule_falls:
  assumes "ts_validate h m t = Ok ()" and "ap \<le> cp" and "cp \<le> cp'"
  shows "\<exists>mn fee fee'. ts_get_min_base_fee_numerator h = Ok mn \<and>
    ts_get_base_fee_numerator h cp ap = Ok fee \<and> ts_get_base_fee_numerator h cp' ap = Ok fee' \<and>
    unat mn \<le> unat fee' \<and> unat fee' \<le> unat fee \<and> unat fee \<le> unat (ts_cliff_fee_numerator h)"
proof -
  obtain mn where mn: "ts_get_min_base_fee_numerator h = Ok mn" using assms(1) by (auto elim: ts_validate_D)
  obtain fee where f: "ts_get_base_fee_numerator h cp ap = Ok fee" "unat fee \<le> unat (ts_cliff_fee_numerator h)"
    using ts_fee_total [OF mn] by blast
  obtain fee' where f': "ts_get_base_fee_numerator h cp' ap = Ok fee'" "unat mn \<le> unat fee'"
    using ts_fee_total [OF mn] by blast
  show ?thesis using mn f f' ts_fee_antitone [OF mn assms(2,3) f(1) f'(1)] by blast
qed

definition falling_scheduler :: time_scheduler where
  "falling_scheduler =
     \<lparr> ts_cliff_fee_numerator = 500000000, ts_base_fee_mode = 1, ts_number_of_period = 10,
       ts_period_frequency = 60, ts_reduction_factor = 500 \<rparr>"

theorem time_schedule_falls_witness:
  "\<exists>mn fee fee'. ts_get_min_base_fee_numerator falling_scheduler = Ok mn \<and>
    ts_get_base_fee_numerator falling_scheduler 1060 1000 = Ok fee \<and>
    ts_get_base_fee_numerator falling_scheduler 1300 1000 = Ok fee' \<and>
    unat mn \<le> unat fee' \<and> unat fee' \<le> unat fee \<and>
    unat fee \<le> unat (ts_cliff_fee_numerator falling_scheduler)"
proof (rule time_schedule_falls)
  show "ts_validate falling_scheduler OnlyB Timestamp = Ok ()"
    by (simp add: falling_scheduler_def evaluation schedule_fee_def cong: evaluation_cong)
qed simp_all

section \<open>Layouts\<close>

text \<open>
  C39. The parameters of a base fee that the program accepts, stored in the aligned layout of the pool
  and read back, are the same in the 27 bytes that the layout has, and have the same mode.
\<close>

theorem base_fee_parameters_round_trip:
  assumes "length data = BASE_FEE_PARAMETERS_SPACE"
    and "base_fee_parameters_to_base_fee_info data = Ok info"
  shows "base_fee_info_to_base_fee_parameters info = Ok (take 27 data @ [0, 0, 0]) \<and>
    info_get_base_fee_mode info = params_get_base_fee_mode data \<and>
    length info = BASE_FEE_INFO_SPACE"
  using params_info_params [OF assms] by blast

theorem base_fee_parameters_round_trip_witness:
  "base_fee_info_to_base_fee_parameters example_info =
    Ok (take 27 (ts_to_borsh_bytes example_scheduler) @ [0, 0, 0])"
proof -
  let ?data = "ts_to_borsh_bytes example_scheduler"
  have l: "length ?data = 30" by (simp add: ts_to_borsh_bytes_def)
  have "params_get_base_fee_mode ?data = Ok FeeTimeSchedulerLinear"
    unfolding params_mode [OF l]
    by (simp add: ts_to_borsh_bytes_def get_skip get_here example_scheduler_def base_fee_mode_of_u8_def)
  then have "base_fee_parameters_to_base_fee_info ?data = Ok example_info"
    by (simp add: base_fee_parameters_to_base_fee_info_def borsh_round_trip example_info_def)
  then show ?thesis
    using base_fee_parameters_round_trip [of ?data example_info] l
    by (simp add: BASE_FEE_PARAMETERS_SPACE_def)
qed

text \<open>
  An operator's update of the cliff fee changes the stored bytes so that the handler read from
  them has the new cliff fee and is otherwise the same.
\<close>

theorem cliff_update_changes_cliff_only:
  assumes "info_get_base_fee_handler data = Ok h" and "update_cliff_fee_numerator data c = Ok data'"
  shows "info_get_base_fee_handler data' = Ok (handler_with_cliff c h)"
  by (rule update_cliff_fee_numerator_handler [OF assms])

theorem cliff_update_changes_cliff_only_witness:
  "\<exists>data'. update_cliff_fee_numerator example_info 3000000 = Ok data' \<and>
    info_get_base_fee_handler data' =
      Ok (TimeHandler (example_scheduler\<lparr>ts_cliff_fee_numerator := 3000000\<rparr>))"
proof -
  have "length example_info = BASE_FEE_INFO_SPACE"
    by (simp add: example_info_def ts_to_pod_aligned_bytes_def BASE_FEE_INFO_SPACE_def)
  then obtain data' where u: "update_cliff_fee_numerator example_info 3000000 = Ok data'"
    by (simp add: update_cliff_fee_numerator_def example_info_def pod_mode example_scheduler_def
        base_fee_mode_of_u8_def)
  show ?thesis using cliff_update_changes_cliff_only [OF example_handler u] u by simp
qed

section \<open>Amounts\<close>

text \<open>
  C26. The two directions of a fee agree: the amount that covers a given net amount, with the fee taken
  off again, leaves exactly that net amount and the same fee.
\<close>

theorem gross_up_is_inverse:
  assumes "get_included_fee_amount n x = Ok (gross, fee)"
  shows "get_excluded_fee_amount n gross = Ok (x, fee) \<and> unat gross = unat x + unat fee"
  using included_then_excluded [OF assms] assms by (auto simp: get_included_fee_amount_iff)

theorem gross_up_is_inverse_witness:
  "\<exists>gross fee. get_included_fee_amount 2500000 1000 = Ok (gross, fee) \<and>
    get_excluded_fee_amount 2500000 gross = Ok (1000, fee) \<and> unat gross = 1000 + unat fee"
proof -
  obtain gross fee where g: "get_included_fee_amount 2500000 1000 = Ok (gross, fee)"
    by (simp add: evaluation cong: evaluation_cong)
  show ?thesis using g gross_up_is_inverse [OF g] by (intro exI [of _ gross] exI [of _ fee]) simp
qed

text \<open>The four shares of a split fee, each a percentage of the pool rounded down.\<close>

lemma split_fees_exact:
  assumes "split_fees f fee r p = Ok s"
  defines "share \<equiv> unat fee * unat (pf_protocol_fee_percent f) div 100"
  shows "unat (sf_referral_fee s) =
      (if r then share * unat (pf_referral_fee_percent f) div 100 else 0)"
    and "unat (sf_partner_fee s) =
      (if p then (share - unat (sf_referral_fee s)) * unat (pf_partner_fee_percent f) div 100 else 0)"
    and "unat (sf_trading_fee s) + share = unat fee"
    and "unat (sf_protocol_fee s) + unat (sf_referral_fee s) + unat (sf_partner_fee s) = share"
proof -
  obtain q0 t0 r0 q1 p0 q2 where
    c: "safe_mul_div_cast_u64 fee (ucast (pf_protocol_fee_percent f)) 100 Down = Ok q0"
      "safe_sub fee q0 = Ok t0"
      "(if r then safe_mul_div_cast_u64 q0 (ucast (pf_referral_fee_percent f)) 100 Down else Ok 0) = Ok r0"
      "safe_sub q0 r0 = Ok q1"
      "(if p \<and> 0 < pf_partner_fee_percent f
        then safe_mul_div_cast_u64 q1 (ucast (pf_partner_fee_percent f)) 100 Down else Ok 0) = Ok p0"
      "safe_sub q1 p0 = Ok q2"
    and s: "s = \<lparr> sf_trading_fee = t0, sf_protocol_fee = q2, sf_referral_fee = r0, sf_partner_fee = p0 \<rparr>"
    using assms(1) unfolding split_fees_def rbind_Ok_iff
    by (elim exE conjE) (rule that, assumption+, simp)
  have q0: "unat q0 = share" using c(1) by (simp add: safe_mul_div_cast_u64_iff share_def)
  have z: "\<not> 0 < pf_partner_fee_percent f \<Longrightarrow> unat (pf_partner_fee_percent f) = 0"
    by (simp add: word_greater_zero_iff)
  have q1: "unat q1 = share - unat r0" "share = unat q1 + unat r0"
    using c(4) q0 by (auto simp: ok_iffs)
  show "unat (sf_referral_fee s) =
      (if r then share * unat (pf_referral_fee_percent f) div 100 else 0)"
    using c(3) by (cases r) (auto simp: s q0 safe_mul_div_cast_u64_iff)
  show "unat (sf_partner_fee s) =
      (if p then (share - unat (sf_referral_fee s)) * unat (pf_partner_fee_percent f) div 100 else 0)"
    using c(5) z by (cases "0 < pf_partner_fee_percent f"; cases p)
      (auto simp: s q1(1) safe_mul_div_cast_u64_iff)
  show "unat (sf_trading_fee s) + share = unat fee" using c(2) by (auto simp: s ok_iffs q0)
  show "unat (sf_protocol_fee s) + unat (sf_referral_fee s) + unat (sf_partner_fee s) = share"
  proof -
    have "unat q1 = unat q2 + unat p0" using c(6) by (simp add: ok_iffs)
    then show ?thesis using q1(2) by (simp add: s)
  qed
qed

text \<open>
  C25. A fee on an amount is shared out in the stored proportions: the fee is the rate rounded up, and
  what is left of the amount is the rest. Of the fee, the protocol's percentage, rounded down, is
  taken and the liquidity providers keep the remainder. Of the protocol's share the referrer
  gets the referral percentage when there is a referrer, of what then remains the partner gets
  the partner percentage when there is a partner, both rounded down, and the protocol has the rest.
  So the net amount and the four shares add up to the amount.
\<close>

theorem fee_on_amount_is_shared_out:
  assumes "get_fee_on_amount f x n r p = Ok a"
  defines "fee \<equiv> div_up (unat x * unat n) 1000000000"
    and "share \<equiv> div_up (unat x * unat n) 1000000000 * unat (pf_protocol_fee_percent f) div 100"
  shows "unat (fa_amount a) + fee = unat x \<and>
    unat (fa_trading_fee a) + share = fee \<and>
    unat (fa_referral_fee a) = (if r then share * unat (pf_referral_fee_percent f) div 100 else 0) \<and>
    unat (fa_partner_fee a) =
      (if p then (share - unat (fa_referral_fee a)) * unat (pf_partner_fee_percent f) div 100 else 0) \<and>
    unat (fa_protocol_fee a) + unat (fa_referral_fee a) + unat (fa_partner_fee a) = share \<and>
    unat (fa_amount a) + unat (fa_trading_fee a) + unat (fa_protocol_fee a) +
      unat (fa_partner_fee a) + unat (fa_referral_fee a) = unat x"
proof -
  obtain y taken s where e: "get_excluded_fee_amount n x = Ok (y, taken)"
    and s: "split_fees f taken r p = Ok s"
    and a: "a = \<lparr> fa_amount = y, fa_trading_fee = sf_trading_fee s, fa_protocol_fee = sf_protocol_fee s,
      fa_partner_fee = sf_partner_fee s, fa_referral_fee = sf_referral_fee s \<rparr>"
    using assms(1) by (auto simp: get_fee_on_amount_def rbind_Ok_iff)
  have f: "fa_amount a = y" "fa_trading_fee a = sf_trading_fee s" "fa_protocol_fee a = sf_protocol_fee s"
    "fa_partner_fee a = sf_partner_fee s" "fa_referral_fee a = sf_referral_fee s"
    by (simp_all add: a)
  have d: "unat taken = fee" "unat x = unat y + unat taken"
    using e unfolding get_excluded_fee_amount_iff fee_def by blast+
  then have sh: "unat taken * unat (pf_protocol_fee_percent f) div 100 = share"
    by (simp only: fee_def share_def)
  note x = split_fees_exact [OF s, unfolded sh, folded f]
  show ?thesis using x d get_fee_on_amount_total(1) [OF assms(1)] by (simp add: f(1))
qed

theorem fee_on_amount_is_shared_out_witness:
  "\<exists>a. get_fee_on_amount example_fees 1000000 2500000 True False = Ok a \<and>
    unat (fa_amount a) = 997500 \<and> unat (fa_trading_fee a) = 2000 \<and>
    unat (fa_referral_fee a) = 100 \<and> unat (fa_partner_fee a) = 0 \<and> unat (fa_protocol_fee a) = 400"
proof -
  obtain a where a: "get_fee_on_amount example_fees 1000000 2500000 True False = Ok a"
    by (simp add: example_defs evaluation cong: evaluation_cong)
  show ?thesis using a fee_on_amount_is_shared_out [OF a]
    by (intro exI [of _ a]) (simp add: example_fees_def div_up_def)
qed

section \<open>The dynamic fee\<close>

text \<open>
  C29. Swaps keep the dynamic fee well formed: after the references and the accumulator are updated at
  any price and time, the volatility accumulator is at most its configured maximum, the parameters
  are as before, and the variable fee is defined: the squared accumulator times the control parameter
  over 10 to the 11, rounded up.
\<close>

theorem volatility_stays_in_bounds:
  assumes "wf_dynamic_fee d" and "is_dynamic_fee_enable d"
    and "update_references d p t = Ok d1" and "update_volatility_accumulator d1 p' = Ok d2"
  shows "wf_dynamic_fee d2 \<and>
    unat (df_volatility_accumulator d2) \<le> unat (df_max_volatility_accumulator d2) \<and>
    df_max_volatility_accumulator d2 = df_max_volatility_accumulator d \<and>
    (\<exists>v. get_variable_fee d2 = Ok v \<and>
      unat v = div_up ((unat (df_volatility_accumulator d2))\<^sup>2 * unat (df_variable_fee_control d))
        100000000000)"
proof -
  have w: "wf_dynamic_fee d2"
    using wf_update_volatility_accumulator [OF wf_update_references [OF assms(1,3)] assms(4)] .
  have k: "df_initialized d2 = df_initialized d"
    "df_max_volatility_accumulator d2 = df_max_volatility_accumulator d"
    "df_variable_fee_control d2 = df_variable_fee_control d"
    using assms(3,4)
    by (auto simp: update_references_def update_volatility_accumulator_def Let_def rbind_Ok_iff
        split: if_splits)
  have e: "is_dynamic_fee_enable d2" using assms(2) k(1) by (simp add: is_dynamic_fee_enable_def)
  show ?thesis using w k(2,3) e get_variable_fee_total [OF w] by (auto simp: wf_dynamic_fee_def)
qed

definition example_dynamic_fee :: dynamic_fee where
  "example_dynamic_fee =
     \<lparr> df_initialized = 1, df_max_volatility_accumulator = 14460000, df_variable_fee_control = 956,
       df_bin_step = BIN_STEP_BPS_DEFAULT, df_filter_period = 10, df_decay_period = 120,
       df_reduction_factor = 5000, df_last_update_timestamp = 0,
       df_bin_step_u128 = BIN_STEP_BPS_U128_DEFAULT, df_sqrt_price_reference = 18446744073709551616,
       df_volatility_accumulator = 20000, df_volatility_reference = 0 \<rparr>"

theorem volatility_stays_in_bounds_witness:
  "\<exists>d1 d2. update_references example_dynamic_fee 18446744073709551616 60 = Ok d1 \<and>
    update_volatility_accumulator d1 18631211514446647132 = Ok d2 \<and> wf_dynamic_fee d2 \<and>
    unat (df_volatility_accumulator d2) \<le> 14460000"
proof -
  have w: "wf_dynamic_fee example_dynamic_fee" "is_dynamic_fee_enable example_dynamic_fee"
    by (simp_all add: wf_dynamic_fee_def is_dynamic_fee_enable_def example_dynamic_fee_def)
  obtain d1 d2 where u: "update_references example_dynamic_fee 18446744073709551616 60 = Ok d1"
    "update_volatility_accumulator d1 18631211514446647132 = Ok d2"
    by (simp add: example_dynamic_fee_def evaluation cong: evaluation_cong)
  note b = volatility_stays_in_bounds [OF w u]
  have "unat (df_max_volatility_accumulator d2) = 14460000"
    using b [THEN conjunct2, THEN conjunct2, THEN conjunct1] by (simp add: example_dynamic_fee_def)
  then have "unat (df_volatility_accumulator d2) \<le> 14460000"
    using b [THEN conjunct2, THEN conjunct1] by linarith
  then show ?thesis using u b by blast
qed

text \<open>
  C24. With well-formed fees and a base fee that validates, the fee rate of a swap that is computed from
  the amount with its fee is defined for every amount, time and price: it is the sum of base and
  variable fee, capped at the maximum and at least the minimum fee. The rate computed from the
  amount without its fee, as exact output swaps with the fee on the input do, is defined too unless
  a rate limiter is in force for the swap, and lies between the same bounds whenever it is defined.
\<close>

theorem trading_fee_rate_is_defined:
  assumes "wf_pool_fees f" and "info_get_base_fee_handler (pf_base_fee f) = Ok h"
    and "handler_validate h m t = Ok ()" and "0 < unat (pf_init_sqrt_price f)"
    and "\<And>s. h = MarketCapHandler s \<Longrightarrow> unat ap + unat (mc_scheduler_expiration_duration s) < 2 ^ 64"
    and "unat MIN_FEE_NUMERATOR \<le> unat mx"
  shows "(\<exists>n. get_total_trading_fee_from_included_fee_amount f cp ap x d mx p = Ok n \<and>
      unat MIN_FEE_NUMERATOR \<le> unat n \<and> unat n \<le> unat mx) \<and>
    ((\<forall>s. h = LimiterHandler s \<longrightarrow> is_rate_limiter_applied s cp ap d = Ok False) \<longrightarrow>
      (\<exists>n. get_total_trading_fee_from_excluded_fee_amount f cp ap x d mx p = Ok n)) \<and>
    (\<forall>n. get_total_trading_fee_from_excluded_fee_amount f cp ap x d mx p = Ok n \<longrightarrow>
      unat MIN_FEE_NUMERATOR \<le> unat n \<and> unat n \<le> unat mx)"
proof (intro conjI impI allI)
  obtain b where b: "handler_from_included h cp ap d x (pf_init_sqrt_price f) p = Ok b"
    "unat MIN_FEE_NUMERATOR \<le> unat b" "unat b \<le> 1000000000"
    using handler_rate_defined [OF assms(3-5)] by blast
  obtain n where n: "get_total_fee_numerator f b mx = Ok n"
    using get_total_fee_numerator_ok [OF assms(1) b(3)] by blast
  then show "\<exists>n. get_total_trading_fee_from_included_fee_amount f cp ap x d mx p = Ok n \<and>
      unat MIN_FEE_NUMERATOR \<le> unat n \<and> unat n \<le> unat mx"
    using get_total_fee_numerator_bounds [of f b mx n] b(1,2) assms(2,6)
    by (auto simp: get_total_trading_fee_from_included_fee_amount_def)
  show "\<exists>n. get_total_trading_fee_from_excluded_fee_amount f cp ap x d mx p = Ok n"
    if "\<forall>s. h = LimiterHandler s \<longrightarrow> is_rate_limiter_applied s cp ap d = Ok False"
  proof -
    have "handler_from_excluded h cp ap d x (pf_init_sqrt_price f) p = Ok b"
      using handler_excluded_rate [OF that] b(1) by simp
    then show ?thesis using assms(2) n
      by (simp add: get_total_trading_fee_from_excluded_fee_amount_def)
  qed
next
  fix n
  assume "get_total_trading_fee_from_excluded_fee_amount f cp ap x d mx p = Ok n"
  then obtain b where b: "handler_from_excluded h cp ap d x (pf_init_sqrt_price f) p = Ok b"
    and n: "get_total_fee_numerator f b mx = Ok n"
    using assms(2) by (auto simp: get_total_trading_fee_from_excluded_fee_amount_def rbind_Ok_iff)
  have "unat MIN_FEE_NUMERATOR \<le> unat b"
    using bf.never_below_minimum [OF assms(3)] b by blast
  then show "unat MIN_FEE_NUMERATOR \<le> unat n" "unat n \<le> unat mx"
    using get_total_fee_numerator_bounds [OF n] assms(6) by linarith+
qed

theorem trading_fee_rate_is_defined_witness:
  "(\<exists>n. get_total_trading_fee_from_included_fee_amount example_fees 10 0 1000 AtoB 500000000
      18446744073709551616 = Ok n \<and> unat MIN_FEE_NUMERATOR \<le> unat n \<and>
    unat n \<le> unat (500000000 :: u64)) \<and>
   (\<exists>n. get_total_trading_fee_from_excluded_fee_amount example_fees 10 0 1000 AtoB 500000000
      18446744073709551616 = Ok n)"
proof -
  have w: "wf_pool_fees example_fees" by (simp add: wf_pool_fees_def example_fees_def)
  have h: "info_get_base_fee_handler (pf_base_fee example_fees) = Ok (TimeHandler example_scheduler)"
    by (simp add: example_fees_def example_handler)
  have v: "handler_validate (TimeHandler example_scheduler) BothToken Timestamp = Ok ()"
    by (simp add: example_scheduler_def evaluation schedule_fee_def cong: evaluation_cong)
  have p: "0 < unat (pf_init_sqrt_price example_fees)"
    "unat MIN_FEE_NUMERATOR \<le> unat (500000000 :: u64)"
    by (simp_all add: example_fees_def MIN_FEE_NUMERATOR_def)
  show ?thesis using trading_fee_rate_is_defined [OF w h v p(1) _ p(2), of 0 10 1000 AtoB] by simp
qed

end
