(* ===== verification/Pool_Effects.thy ===== *)
theory Pool_Effects
  imports Pool_Ops
begin

text \<open>
  What the operations of a pool do, as equations on natural numbers: the effect of applying a
  swap result, of adding, removing, splitting and releasing liquidity, and of the claims.
\<close>

declare of_nat_unat [simp del]

section \<open>Swaps\<close>

lemma update_pre_swap_effect:
  assumes "update_pre_swap q t = Ok q'"
  shows "\<exists>df. q' = q\<lparr>pl_pool_fees := (pl_pool_fees q)\<lparr>pf_dynamic_fee := df\<rparr>\<rparr>"
    and "wf_pool_fees (pl_pool_fees q) \<Longrightarrow> wf_pool_fees (pl_pool_fees q')"
proof -
  have "\<exists>df. q' = q\<lparr>pl_pool_fees := (pl_pool_fees q)\<lparr>pf_dynamic_fee := df\<rparr>\<rparr> \<and>
    (wf_dynamic_fee (pf_dynamic_fee (pl_pool_fees q)) \<longrightarrow> wf_dynamic_fee df)"
  proof (cases "is_dynamic_fee_enable (pf_dynamic_fee (pl_pool_fees q))")
    case True
    then show ?thesis using assms wf_update_references
      by (auto simp: update_pre_swap_def rbind_Ok_iff)
  next
    case False
    then show ?thesis using assms
      by (auto simp: update_pre_swap_def intro!: exI [of _ "pf_dynamic_fee (pl_pool_fees q)"])
  qed
  then show "\<exists>df. q' = q\<lparr>pl_pool_fees := (pl_pool_fees q)\<lparr>pf_dynamic_fee := df\<rparr>\<rparr>"
    and "wf_pool_fees (pl_pool_fees q) \<Longrightarrow> wf_pool_fees (pl_pool_fees q')"
    by (auto simp: wf_pool_fees_def)
qed

lemma wf_last_update_timestamp:
  "wf_dynamic_fee df \<Longrightarrow> wf_dynamic_fee (df\<lparr>df_last_update_timestamp := t\<rparr>)"
  by (simp add: wf_dynamic_fee_def is_dynamic_fee_enable_def)

lemma update_post_swap_effect:
  assumes "update_post_swap q p t = Ok q'"
  shows "\<exists>df. q' = q\<lparr>pl_pool_fees := (pl_pool_fees q)\<lparr>pf_dynamic_fee := df\<rparr>\<rparr>"
    and "wf_pool_fees (pl_pool_fees q) \<Longrightarrow> wf_pool_fees (pl_pool_fees q')"
proof -
  have "\<exists>df. q' = q\<lparr>pl_pool_fees := (pl_pool_fees q)\<lparr>pf_dynamic_fee := df\<rparr>\<rparr> \<and>
    (wf_dynamic_fee (pf_dynamic_fee (pl_pool_fees q)) \<longrightarrow> wf_dynamic_fee df)"
  proof (cases "is_dynamic_fee_enable (pf_dynamic_fee (pl_pool_fees q))")
    case True
    then obtain df n where u: "update_volatility_accumulator (pf_dynamic_fee (pl_pool_fees q))
        (pl_sqrt_price q) = Ok df"
      and q': "q' = q\<lparr>pl_pool_fees := (pl_pool_fees q)\<lparr>pf_dynamic_fee :=
        (if 0 < (n :: u128) then df\<lparr>df_last_update_timestamp := t\<rparr> else df)\<rparr>\<rparr>"
      using assms by (auto simp: update_post_swap_def rbind_Ok_iff Let_def)
    show ?thesis
      using wf_update_volatility_accumulator [OF _ u] wf_last_update_timestamp [of df t]
      by (intro exI [of _ "if 0 < n then df\<lparr>df_last_update_timestamp := t\<rparr> else df"])
        (auto simp: q')
  next
    case False
    then show ?thesis using assms
      by (auto simp: update_post_swap_def intro!: exI [of _ "pf_dynamic_fee (pl_pool_fees q)"])
  qed
  then show "\<exists>df. q' = q\<lparr>pl_pool_fees := (pl_pool_fees q)\<lparr>pf_dynamic_fee := df\<rparr>\<rparr>"
    and "wf_pool_fees (pl_pool_fees q) \<Longrightarrow> wf_pool_fees (pl_pool_fees q')"
    by (auto simp: wf_pool_fees_def)
qed

lemma shl_div_256_iff':
  "shl_div_256 (ucast (x :: u64)) l LIQUIDITY_SCALE = Some z \<longleftrightarrow>
    0 < unat l \<and> unat z = unat x * 2 ^ 128 div unat l"
  by (subst shl_div_256_iff) (simp_all add: LIQUIDITY_SCALE_def)

text \<open>
  The swap result is applied: the price moves, the fees go to the token that pays them, and the
  fee per unit of liquidity grows by the share of the liquidity providers, rounded down.
\<close>

lemma apply_swap_result_effect:
  assumes "apply_swap_result q r fm t = Ok q'"
  shows "pl_sqrt_price q' = sr_next_sqrt_price r" and "0 < unat (pl_liquidity q)"
    and "pl_liquidity q' = pl_liquidity q" "pl_sqrt_min_price q' = pl_sqrt_min_price q"
      "pl_sqrt_max_price q' = pl_sqrt_max_price q"
    and "wf_pool_fees (pl_pool_fees q) \<Longrightarrow> wf_pool_fees (pl_pool_fees q')"
    and "pl_reward_infos q' = pl_reward_infos q"
    and "if fm_fees_on_token_a fm
      then unat (pl_partner_a_fee q') = unat (pl_partner_a_fee q) + unat (sr_partner_fee r) \<and>
        unat (pl_protocol_a_fee q') = unat (pl_protocol_a_fee q) + unat (sr_protocol_fee r) \<and>
        unat (pl_fee_a_per_liquidity q') = unat (pl_fee_a_per_liquidity q) +
          unat (sr_trading_fee r) * 2 ^ 128 div unat (pl_liquidity q) \<and>
        pl_partner_b_fee q' = pl_partner_b_fee q \<and> pl_protocol_b_fee q' = pl_protocol_b_fee q \<and>
        pl_fee_b_per_liquidity q' = pl_fee_b_per_liquidity q
      else unat (pl_partner_b_fee q') = unat (pl_partner_b_fee q) + unat (sr_partner_fee r) \<and>
        unat (pl_protocol_b_fee q') = unat (pl_protocol_b_fee q) + unat (sr_protocol_fee r) \<and>
        unat (pl_fee_b_per_liquidity q') = unat (pl_fee_b_per_liquidity q) +
          unat (sr_trading_fee r) * 2 ^ 128 div unat (pl_liquidity q) \<and>
        pl_partner_a_fee q' = pl_partner_a_fee q \<and> pl_protocol_a_fee q' = pl_protocol_a_fee q \<and>
        pl_fee_a_per_liquidity q' = pl_fee_a_per_liquidity q"
    and "pl_permanent_lock_liquidity q' = pl_permanent_lock_liquidity q"
proof -
  obtain f q1 where f: "shl_div_256 (ucast (sr_trading_fee r)) (pl_liquidity q) LIQUIDITY_SCALE = Some f"
    and c: "(if fm_fees_on_token_a fm
      then (\<exists>pa pr fl m. safe_add (pl_partner_a_fee q) (sr_partner_fee r) = Ok pa \<and>
        safe_add (pl_protocol_a_fee q) (sr_protocol_fee r) = Ok pr \<and>
        safe_add (pl_fee_a_per_liquidity q) f = Ok fl \<and>
        q1 = q\<lparr>pl_sqrt_price := sr_next_sqrt_price r, pl_partner_a_fee := pa,
          pl_protocol_a_fee := pr, pl_fee_a_per_liquidity := fl, pl_metrics := m\<rparr>)
      else (\<exists>pa pr fl m. safe_add (pl_partner_b_fee q) (sr_partner_fee r) = Ok pa \<and>
        safe_add (pl_protocol_b_fee q) (sr_protocol_fee r) = Ok pr \<and>
        safe_add (pl_fee_b_per_liquidity q) f = Ok fl \<and>
        q1 = q\<lparr>pl_sqrt_price := sr_next_sqrt_price r, pl_partner_b_fee := pa,
          pl_protocol_b_fee := pr, pl_fee_b_per_liquidity := fl, pl_metrics := m\<rparr>))"
    and p: "update_post_swap q1 (pl_sqrt_price q) t = Ok q'"
    using assms unfolding apply_swap_result_def Let_def rbind_Ok_iff ok_or_Ok_iff
    by (cases "fm_fees_on_token_a fm") (fastforce simp: rbind_Ok_iff)+
  note f' = f [unfolded shl_div_256_iff']
  obtain df where q': "q' = q1\<lparr>pl_pool_fees := (pl_pool_fees q1)\<lparr>pf_dynamic_fee := df\<rparr>\<rparr>"
    using update_post_swap_effect(1) [OF p] by blast
  note w = update_post_swap_effect(2) [OF p]
  show "pl_sqrt_price q' = sr_next_sqrt_price r" "0 < unat (pl_liquidity q)"
    "pl_liquidity q' = pl_liquidity q" "pl_sqrt_min_price q' = pl_sqrt_min_price q"
    "pl_sqrt_max_price q' = pl_sqrt_max_price q" "pl_reward_infos q' = pl_reward_infos q"
    "pl_permanent_lock_liquidity q' = pl_permanent_lock_liquidity q"
    using c f' by (auto simp: q' split: if_splits)
  show "wf_pool_fees (pl_pool_fees q')" if "wf_pool_fees (pl_pool_fees q)"
    using c w that by (auto split: if_splits)
  show "if fm_fees_on_token_a fm
      then unat (pl_partner_a_fee q') = unat (pl_partner_a_fee q) + unat (sr_partner_fee r) \<and>
        unat (pl_protocol_a_fee q') = unat (pl_protocol_a_fee q) + unat (sr_protocol_fee r) \<and>
        unat (pl_fee_a_per_liquidity q') = unat (pl_fee_a_per_liquidity q) +
          unat (sr_trading_fee r) * 2 ^ 128 div unat (pl_liquidity q) \<and>
        pl_partner_b_fee q' = pl_partner_b_fee q \<and> pl_protocol_b_fee q' = pl_protocol_b_fee q \<and>
        pl_fee_b_per_liquidity q' = pl_fee_b_per_liquidity q
      else unat (pl_partner_b_fee q') = unat (pl_partner_b_fee q) + unat (sr_partner_fee r) \<and>
        unat (pl_protocol_b_fee q') = unat (pl_protocol_b_fee q) + unat (sr_protocol_fee r) \<and>
        unat (pl_fee_b_per_liquidity q') = unat (pl_fee_b_per_liquidity q) +
          unat (sr_trading_fee r) * 2 ^ 128 div unat (pl_liquidity q) \<and>
        pl_partner_a_fee q' = pl_partner_a_fee q \<and> pl_protocol_a_fee q' = pl_protocol_a_fee q \<and>
        pl_fee_a_per_liquidity q' = pl_fee_a_per_liquidity q"
    using c f' by (cases "fm_fees_on_token_a fm") (auto simp: q' safe_ops_iff)
qed

section \<open>Adding and removing liquidity\<close>

lemma apply_add_liquidity_effect:
  assumes "apply_add_liquidity q p l = Ok (q', p')"
  shows "\<exists>p1. update_fee p (pl_fee_a_per_liquidity q) (pl_fee_b_per_liquidity q) = Ok p1 \<and>
      add_liquidity p1 l = Ok p'"
    and "q' = q\<lparr>pl_liquidity := pl_liquidity q'\<rparr>"
    and "unat (pl_liquidity q') = unat (pl_liquidity q) + unat l"
proof -
  obtain p1 z where "update_fee p (pl_fee_a_per_liquidity q) (pl_fee_b_per_liquidity q) = Ok p1"
    "add_liquidity p1 l = Ok p'" "safe_add (pl_liquidity q) l = Ok z" "q' = q\<lparr>pl_liquidity := z\<rparr>"
    using assms by (auto simp: apply_add_liquidity_def rbind_Ok_iff)
  then show "\<exists>p1. update_fee p (pl_fee_a_per_liquidity q) (pl_fee_b_per_liquidity q) = Ok p1 \<and>
      add_liquidity p1 l = Ok p'" "q' = q\<lparr>pl_liquidity := pl_liquidity q'\<rparr>"
    "unat (pl_liquidity q') = unat (pl_liquidity q) + unat l" by (auto simp: safe_ops_iff)
qed

lemma apply_remove_liquidity_effect:
  assumes "apply_remove_liquidity q p l = Ok (q', p')"
  shows "\<exists>p1. update_fee p (pl_fee_a_per_liquidity q) (pl_fee_b_per_liquidity q) = Ok p1 \<and>
      remove_unlocked_liquidity p1 l = Ok p'"
    and "q' = q\<lparr>pl_liquidity := pl_liquidity q'\<rparr>"
    and "unat (pl_liquidity q) = unat (pl_liquidity q') + unat l"
proof -
  obtain p1 z where "update_fee p (pl_fee_a_per_liquidity q) (pl_fee_b_per_liquidity q) = Ok p1"
    "remove_unlocked_liquidity p1 l = Ok p'" "safe_sub (pl_liquidity q) l = Ok z"
    "q' = q\<lparr>pl_liquidity := z\<rparr>"
    using assms by (auto simp: apply_remove_liquidity_def rbind_Ok_iff)
  then show "\<exists>p1. update_fee p (pl_fee_a_per_liquidity q) (pl_fee_b_per_liquidity q) = Ok p1 \<and>
      remove_unlocked_liquidity p1 l = Ok p'" "q' = q\<lparr>pl_liquidity := pl_liquidity q'\<rparr>"
    "unat (pl_liquidity q) = unat (pl_liquidity q') + unat l" by (auto simp: safe_ops_iff)
qed

text \<open>
  The reserves that the liquidity of a pool stands for in its range, before rounding. The amounts
  of a change of liquidity are its share of them, rounded in favour of the pool.
\<close>

definition reserve_a :: "u128 \<Rightarrow> pool \<Rightarrow> real" where
  "reserve_a l q = virtual_a l (pl_sqrt_price q) - virtual_a l (pl_sqrt_max_price q)"

definition reserve_b :: "u128 \<Rightarrow> pool \<Rightarrow> real" where
  "reserve_b l q = virtual_b l (pl_sqrt_price q) - virtual_b l (pl_sqrt_min_price q)"

lemma reserve_add:
  assumes "unat l'' = unat l + unat l'"
  shows "reserve_a l'' q = reserve_a l q + reserve_a l' q"
    and "reserve_b l'' q = reserve_b l q + reserve_b l' q"
  using assms by (simp_all add: reserve_a_def reserve_b_def virtual_a_def virtual_b_def
      add_divide_distrib distrib_right)

lemma reserve_cong:
  assumes "pl_sqrt_price q' = pl_sqrt_price q" "pl_sqrt_min_price q' = pl_sqrt_min_price q"
    "pl_sqrt_max_price q' = pl_sqrt_max_price q"
  shows "reserve_a l q' = reserve_a l q" "reserve_b l q' = reserve_b l q"
  using assms by (simp_all add: reserve_a_def reserve_b_def)

lemma reserve_nonneg:
  assumes "wf_prices q"
  shows "0 \<le> reserve_a l q" and "0 \<le> reserve_b l q"
proof -
  have p: "0 < real (unat (pl_sqrt_price q))"
    "real (unat (pl_sqrt_price q)) \<le> real (unat (pl_sqrt_max_price q))"
    "real (unat (pl_sqrt_min_price q)) \<le> real (unat (pl_sqrt_price q))"
    using assms by (auto simp: wf_prices_def)
  show "0 \<le> reserve_a l q"
    using p by (simp add: reserve_a_def virtual_a_def frac_le)
  show "0 \<le> reserve_b l q"
    using p(3) by (simp add: reserve_b_def virtual_b_def divide_right_mono mult_left_mono)
qed

lemma modify_liquidity_amounts:
  assumes "get_amounts_for_modify_liquidity q l r = Ok (a, b)"
  shows "r = Up \<Longrightarrow> reserve_a l q \<le> real (unat a) \<and> reserve_b l q \<le> real (unat b)"
    and "r = Down \<Longrightarrow> real (unat a) \<le> reserve_a l q \<and> real (unat b) \<le> reserve_b l q"
proof -
  have a: "get_delta_amount_a_unsigned (pl_sqrt_price q) (pl_sqrt_max_price q) l r = Ok a"
    and b: "get_delta_amount_b_unsigned (pl_sqrt_min_price q) (pl_sqrt_price q) l r = Ok b"
    using assms by (auto simp: get_amounts_for_modify_liquidity_def rbind_Ok_iff)
  show "r = Up \<Longrightarrow> reserve_a l q \<le> real (unat a) \<and> reserve_b l q \<le> real (unat b)"
    and "r = Down \<Longrightarrow> real (unat a) \<le> reserve_a l q \<and> real (unat b) \<le> reserve_b l q"
    using delta_a_checked_virtual(1,2) [OF a] delta_b_checked_virtual(1,2) [OF b]
    by (simp_all add: reserve_a_def reserve_b_def)
qed

section \<open>Splitting a position\<close>

text \<open>
  What two positions hold together: liquidity, the part locked for ever, pending fees and pending
  rewards. After the update of the fees, each step of a split moves a part from the first to the second.
\<close>

definition combined :: "position \<Rightarrow> position \<Rightarrow> nat \<times> nat \<times> nat \<times> nat \<times> nat \<times> nat" where
  "combined p1 p2 =
     (liq p1 + liq p2,
      unat (ps_permanent_locked_liquidity p1) + unat (ps_permanent_locked_liquidity p2),
      unat (ps_fee_a_pending p1) + unat (ps_fee_a_pending p2),
      unat (ps_fee_b_pending p1) + unat (ps_fee_b_pending p2),
      unat (ur_reward_pendings (slot0 (ps_reward_infos p1))) +
        unat (ur_reward_pendings (slot0 (ps_reward_infos p2))),
      unat (ur_reward_pendings (slot1 (ps_reward_infos p1))) +
        unat (ur_reward_pendings (slot1 (ps_reward_infos p2))))"

definition same_checkpoints :: "position \<Rightarrow> position \<Rightarrow> bool" where
  "same_checkpoints p p' \<longleftrightarrow>
     ps_fee_a_per_token_checkpoint p' = ps_fee_a_per_token_checkpoint p \<and>
     ps_fee_b_per_token_checkpoint p' = ps_fee_b_per_token_checkpoint p \<and>
     ps_vested_liquidity p' = ps_vested_liquidity p \<and>
     ur_reward_per_token_checkpoint (slot0 (ps_reward_infos p')) =
       ur_reward_per_token_checkpoint (slot0 (ps_reward_infos p)) \<and>
     ur_reward_per_token_checkpoint (slot1 (ps_reward_infos p')) =
       ur_reward_per_token_checkpoint (slot1 (ps_reward_infos p))"

definition moved :: "position \<Rightarrow> position \<Rightarrow> position \<Rightarrow> position \<Rightarrow> bool" where
  "moved p1 p2 p1' p2' \<longleftrightarrow> combined p1' p2' = combined p1 p2 \<and>
     same_checkpoints p1 p1' \<and> same_checkpoints p2 p2'"

lemma moved_refl [simp]: "moved p1 p2 p1 p2"
  by (simp add: moved_def same_checkpoints_def)

lemma moved_trans: "moved p1 p2 r1 r2 \<Longrightarrow> moved r1 r2 s1 s2 \<Longrightarrow> moved p1 p2 s1 s2"
  by (simp add: moved_def same_checkpoints_def)

lemmas moved_defs = moved_def combined_def same_checkpoints_def liq_def

lemma move_unlocked:
  "remove_unlocked_liquidity p1 d = Ok p1' \<Longrightarrow> add_liquidity p2 d = Ok p2' \<Longrightarrow> moved p1 p2 p1' p2'"
  by (auto simp: remove_unlocked_liquidity_def add_liquidity_def moved_defs rbind_Ok_iff safe_ops_iff)

lemma move_permanent:
  "remove_permanent_locked_liquidity p1 d = Ok p1' \<Longrightarrow>
    add_permanent_locked_liquidity p2 d = Ok p2' \<Longrightarrow> moved p1 p2 p1' p2'"
  by (auto simp: remove_permanent_locked_liquidity_def add_permanent_locked_liquidity_def moved_defs
      rbind_Ok_iff require_Ok_iff safe_ops_iff)

lemma move_fees:
  "remove_fee_pending p1 a b = Ok p1' \<Longrightarrow> add_fee_pending p2 a b = Ok p2' \<Longrightarrow> moved p1 p2 p1' p2'"
  by (auto simp: remove_fee_pending_def add_fee_pending_def moved_defs rbind_Ok_iff safe_ops_iff)

lemma move_reward:
  "remove_reward_pending p1 i x = Ok p1' \<Longrightarrow> add_reward_pending p2 i x = Ok p2' \<Longrightarrow>
    moved p1 p2 p1' p2'"
  by (auto simp: remove_reward_pending_def add_reward_pending_def moved_defs rbind_Ok_iff
      safe_ops_iff arr2_get_Ok_iff)

lemma split_reward_moved:
  "split_reward q i n p1 p2 = Ok (p1', p2', x) \<Longrightarrow> moved p1 p2 p1' p2'"
  by (auto simp: split_reward_def rbind_Ok_iff intro: move_reward split: if_splits)

text \<open>The split as a whole: the fees of both are updated, and then parts are moved.\<close>

lemma apply_split_position_effect:
  assumes "apply_split_position q p1 p2 nu np na nb n0 n1 = Ok (p1', p2', info)"
  obtains r1 r2 where "update_fee p1 (pl_fee_a_per_liquidity q) (pl_fee_b_per_liquidity q) = Ok r1"
    and "update_fee p2 (pl_fee_a_per_liquidity q) (pl_fee_b_per_liquidity q) = Ok r2"
    and "moved r1 r2 p1' p2'"
proof -
  obtain r1 r2 where r: "update_fee p1 (pl_fee_a_per_liquidity q) (pl_fee_b_per_liquidity q) = Ok r1"
    "update_fee p2 (pl_fee_a_per_liquidity q) (pl_fee_b_per_liquidity q) = Ok r2"
    using assms by (auto simp: apply_split_position_def rbind_Ok_iff)
  obtain s1 s2 x t1 t2 y u1 u2 z w v1 v2 where
    u: "(if 0 < nu then
           rbind (get_unlocked_liquidity_by_numerator r1 nu) (\<lambda>d.
           rbind (remove_unlocked_liquidity r1 d) (\<lambda>r1.
           rbind (add_liquidity r2 d) (\<lambda>r2. Ok (r1, r2, d))))
         else Ok (r1, r2, 0)) = Ok (s1, s2, x)" and
    p: "(if 0 < np then
           rbind (get_permanent_locked_liquidity_by_numerator s1 np) (\<lambda>d.
           rbind (remove_permanent_locked_liquidity s1 d) (\<lambda>s1.
           rbind (add_permanent_locked_liquidity s2 d) (\<lambda>s2. Ok (s1, s2, d))))
         else Ok (s1, s2, 0)) = Ok (t1, t2, y)" and
    f: "(if 0 < na \<or> 0 < nb then
           rbind (get_pending_fee_by_numerator t1 na nb) (\<lambda>(a, b).
           rbind (remove_fee_pending t1 a b) (\<lambda>t1.
           rbind (add_fee_pending t2 a b) (\<lambda>t2. Ok (t1, t2, a, b))))
         else Ok (t1, t2, 0, 0)) = Ok (u1, u2, z, w)" and
    w: "(if pool_reward_initialized q then
           rbind (split_reward q 0 n0 u1 u2) (\<lambda>(u1, u2, a).
           rbind (split_reward q 1 n1 u1 u2) (\<lambda>(u1, u2, b). Ok (u1, u2, a, b)))
         else Ok (u1, u2, 0, 0)) = Ok (p1', p2', v1, v2)"
    using assms r by (auto simp: apply_split_position_def rbind_Ok_iff)
  have "moved r1 r2 s1 s2" using u by (auto simp: rbind_Ok_iff intro: move_unlocked split: if_splits)
  moreover have "moved s1 s2 t1 t2"
    using p by (auto simp: rbind_Ok_iff intro: move_permanent split: if_splits)
  moreover have "moved t1 t2 u1 u2"
    using f by (auto simp: rbind_Ok_iff intro: move_fees split: if_splits)
  moreover have "moved u1 u2 p1' p2'"
    using w by (auto simp: rbind_Ok_iff split: if_splits
        dest!: split_reward_moved intro: moved_trans)
  ultimately show thesis using that [OF r] by (blast intro: moved_trans)
qed

end
