(* ===== verification/Token_Transfer.thy ===== *)
theory Token_Transfer
  imports Amm_Math
begin

text \<open>
  \<^verbatim>\<open>utils/token.rs\<close>: amounts with and without the transfer fee of a Token-2022 mint, and the
  transfers between a user and a vault of the pool.

  The token programs are not part of the source. A mint is a parameter: the transfer fee of the
  current epoch as \<^verbatim>\<open>get_epoch_transfer_fee\<close> reads it, and the effect of a transfer on the balance
  of the vault. What the program relies on is \<open>token_law\<close>, the documented effect of a checked
  transfer: the sender pays the amount, the receiver gets it less the fee that the mint withholds.
\<close>

record transfer_fee =
  xf_calculate_fee :: "u64 \<Rightarrow> u64 option"
  xf_calculate_inverse_fee :: "u64 \<Rightarrow> u64 option"
  xf_basis_points :: u16
  xf_maximum_fee :: u64
  xf_max_fee_basis_points :: u16

record token =
  tk_epoch_transfer_fee :: "transfer_fee option result"
  tk_deposit :: "u64 \<Rightarrow> u64 \<Rightarrow> u64 result"
  tk_withdraw :: "u64 \<Rightarrow> u64 \<Rightarrow> u64 result"

record transfer_fee_excluded_amount =
  xe_amount :: u64
  xe_transfer_fee :: u64

record transfer_fee_included_amount =
  xi_amount :: u64
  xi_transfer_fee :: u64

definition calculate_transfer_fee_excluded_amount ::
  "token \<Rightarrow> u64 \<Rightarrow> transfer_fee_excluded_amount result" where
  "calculate_transfer_fee_excluded_amount mint transfer_fee_included_amount =
     rbind (tk_epoch_transfer_fee mint) (\<lambda>epoch_transfer_fee.
     case epoch_transfer_fee of
       Some f \<Rightarrow>
         rbind (ok_or (xf_calculate_fee f transfer_fee_included_amount) MathOverflow)
           (\<lambda>transfer_fee.
         rbind (ok_or (checked_sub transfer_fee_included_amount transfer_fee) MathOverflow)
           (\<lambda>amount.
         Ok \<lparr> xe_amount = amount, xe_transfer_fee = transfer_fee \<rparr>))
     | None \<Rightarrow> Ok \<lparr> xe_amount = transfer_fee_included_amount, xe_transfer_fee = 0 \<rparr>)"

definition calculate_transfer_fee_included_amount ::
  "token \<Rightarrow> u64 \<Rightarrow> transfer_fee_included_amount result" where
  "calculate_transfer_fee_included_amount mint transfer_fee_excluded_amount =
     (if transfer_fee_excluded_amount = 0 then Ok \<lparr> xi_amount = 0, xi_transfer_fee = 0 \<rparr>
      else
        rbind (tk_epoch_transfer_fee mint) (\<lambda>epoch_transfer_fee.
        case epoch_transfer_fee of
          Some f \<Rightarrow>
            rbind (if xf_basis_points f = xf_max_fee_basis_points f then Ok (xf_maximum_fee f)
                   else ok_or (xf_calculate_inverse_fee f transfer_fee_excluded_amount) MathOverflow)
              (\<lambda>transfer_fee.
            rbind (ok_or (checked_add transfer_fee_excluded_amount transfer_fee) MathOverflow)
              (\<lambda>amount.
            rbind (unwrap (xf_calculate_fee f amount)) (\<lambda>transfer_fee_verification.
            if transfer_fee \<noteq> transfer_fee_verification then Err FeeInverseIsIncorrect
            else Ok \<lparr> xi_amount = amount, xi_transfer_fee = transfer_fee \<rparr>)))
        | None \<Rightarrow> Ok \<lparr> xi_amount = transfer_fee_excluded_amount, xi_transfer_fee = 0 \<rparr>))"

text \<open>\<^verbatim>\<open>transfer_from_user\<close> and \<^verbatim>\<open>transfer_from_pool\<close>, as what they do to the balance of the vault.\<close>

definition transfer_from_user :: "token \<Rightarrow> u64 \<Rightarrow> u64 \<Rightarrow> u64 result" where
  "transfer_from_user mint vault amount = tk_deposit mint vault amount"

definition transfer_from_pool :: "token \<Rightarrow> u64 \<Rightarrow> u64 \<Rightarrow> u64 result" where
  "transfer_from_pool mint vault amount = tk_withdraw mint vault amount"

section \<open>What a transfer does\<close>

definition token_law :: "token \<Rightarrow> bool" where
  "token_law mint \<longleftrightarrow>
     (\<forall>v x v'. tk_deposit mint v x = Ok v' \<longrightarrow>
        (\<exists>e. calculate_transfer_fee_excluded_amount mint x = Ok e \<and>
             unat v' = unat v + unat (xe_amount e))) \<and>
     (\<forall>v x v'. tk_withdraw mint v x = Ok v' \<longrightarrow> unat v = unat v' + unat x)"

lemma deposit_effect:
  assumes "token_law mint" and "transfer_from_user mint v x = Ok v'"
    and "calculate_transfer_fee_excluded_amount mint x = Ok e"
  shows "unat v' = unat v + unat (xe_amount e)"
  using assms by (fastforce simp: token_law_def transfer_from_user_def)

lemma withdraw_effect:
  assumes "token_law mint" and "transfer_from_pool mint v x = Ok v'"
  shows "unat v = unat v' + unat x"
  using assms by (simp add: token_law_def transfer_from_pool_def)

lemma excluded_le:
  assumes "calculate_transfer_fee_excluded_amount mint x = Ok e"
  shows "unat x = unat (xe_amount e) + unat (xe_transfer_fee e)"
  using assms
  by (auto simp: calculate_transfer_fee_excluded_amount_def ok_iffs split: option.splits)

lemma included_excluded:
  assumes "calculate_transfer_fee_included_amount mint x = Ok i"
    and "calculate_transfer_fee_excluded_amount mint (xi_amount i) = Ok e"
  shows "xe_amount e = x"
proof (cases "x = 0")
  case True
  then have "xi_amount i = 0" using assms(1)
    by (auto simp: calculate_transfer_fee_included_amount_def)
  with excluded_le [OF assms(2)] True show ?thesis by (simp add: unat_eq_zero)
next
  case False
  show ?thesis
  proof (cases "tk_epoch_transfer_fee mint")
    case (Inr fee)
    show ?thesis
    proof (cases fee)
      case None
      then show ?thesis using assms False Inr
        by (auto simp: calculate_transfer_fee_included_amount_def
            calculate_transfer_fee_excluded_amount_def)
    next
      case (Some f)
      obtain t where a: "checked_add x t = Some (xi_amount i)"
        and t: "xf_calculate_fee f (xi_amount i) = Some t"
        using assms(1) False Inr Some
        by (fastforce simp: calculate_transfer_fee_included_amount_def rbind_Ok_iff ok_or_Ok_iff
            unwrap_Ok_iff if_Ok_iff)
      have "checked_sub (xi_amount i) t = Some (xe_amount e)"
        using assms(2) Inr Some t
        by (auto simp: calculate_transfer_fee_excluded_amount_def rbind_Ok_iff ok_or_Ok_iff)
      then show ?thesis using a unfolding checked_add_iff checked_sub_iff
        by (intro word_eqI_unat) linarith
    qed
  qed (use assms(2) in \<open>simp add: calculate_transfer_fee_excluded_amount_def\<close>)
qed

text \<open>
  The vault receives exactly the amount that the curve asks for, whatever fee the mint withholds.
\<close>

lemma deposit_included_effect:
  assumes "token_law mint" and "calculate_transfer_fee_included_amount mint x = Ok i"
    and "transfer_from_user mint v (xi_amount i) = Ok v'"
  shows "unat v' = unat v + unat x"
proof -
  obtain e where "calculate_transfer_fee_excluded_amount mint (xi_amount i) = Ok e"
    and "unat v' = unat v + unat (xe_amount e)"
    using assms(1,3) by (fastforce simp: token_law_def transfer_from_user_def)
  then show ?thesis using included_excluded [OF assms(2)] by simp
qed

text \<open>
  Two mints for which the law holds: one without the extension, and one that withholds one percent.
\<close>

definition plain_token :: token where
  "plain_token =
     \<lparr> tk_epoch_transfer_fee = Ok None, tk_deposit = safe_add, tk_withdraw = safe_sub \<rparr>"

lemma plain_token_law: "token_law plain_token"
  by (auto simp: token_law_def plain_token_def calculate_transfer_fee_excluded_amount_def ok_iffs)

definition fee_token :: token where
  "fee_token =
     \<lparr> tk_epoch_transfer_fee =
         Ok (Some \<lparr> xf_calculate_fee = \<lambda>x. Some (x div 100),
                   xf_calculate_inverse_fee = \<lambda>x. Some (x div 99),
                   xf_basis_points = 100, xf_maximum_fee = - 1, xf_max_fee_basis_points = 10000 \<rparr>),
       tk_deposit = \<lambda>v x. safe_add v (x - x div 100), tk_withdraw = safe_sub \<rparr>"

lemma fee_token_law: "token_law fee_token"
proof -
  have "x div 100 \<le> x" for x :: u64
    by (simp add: word_le_nat_alt unat_div)
  then show ?thesis
    by (auto simp: token_law_def fee_token_def calculate_transfer_fee_excluded_amount_def
        ok_or_def checked_sub_def ok_iffs)
qed

end
