(* ===== verification/Single_Swap.thy ===== *)
theory Single_Swap
  imports Amm_Prelude Byte_Layout
begin

text \<open>
  The check of \<^verbatim>\<open>ix_p_swap.rs\<close> that, while the rate limiter applies, a transaction swaps only once
  on a pool. What the program reads of the transaction is an argument: the instructions of the
  sysvar with the current index, the stack height, and the sibling instructions already processed.
  The identifiers that the build generates or that name other programs are arguments too.
\<close>

record instruction =
  in_program_id :: pubkey
  in_data :: bytes
  in_accounts :: "pubkey list"

record introspection =
  ti_remaining_accounts :: "pubkey list"
  ti_instructions :: "instruction list"
  ti_current_index :: nat
  ti_stack_height :: nat
  ti_siblings :: "instruction list"

record program_ids =
  id_program :: pubkey
  id_instructions_sysvar :: pubkey
  id_swap_discriminator :: bytes
  id_swap2_discriminator :: bytes
  id_stack_whitelist :: "pubkey list"

text \<open>
  \<^verbatim>\<open>is_instruction_include_pool_swap\<close>: the slice of the data and the index of the account panic
  when they are out of range. The version on the sysvar reports an error for the account instead.
\<close>

definition is_swap_data :: "program_ids \<Rightarrow> bytes \<Rightarrow> bool" where
  "is_swap_data ids data \<longleftrightarrow>
     take 8 data = id_swap_discriminator ids \<or> take 8 data = id_swap2_discriminator ids"

definition is_instruction_include_pool_swap ::
  "program_ids \<Rightarrow> instruction \<Rightarrow> pubkey \<Rightarrow> bool result" where
  "is_instruction_include_pool_swap ids ins pool =
     assert_panic (8 \<le> length (in_data ins))
       (if is_swap_data ids (in_data ins)
        then assert_panic (1 < length (in_accounts ins)) (Ok (in_accounts ins ! 1 = pool))
        else Ok False)"

definition is_p_instruction_include_pool_swap ::
  "program_ids \<Rightarrow> instruction \<Rightarrow> pubkey \<Rightarrow> bool result" where
  "is_p_instruction_include_pool_swap ids ins pool =
     assert_panic (8 \<le> length (in_data ins))
       (if is_swap_data ids (in_data ins)
        then if 1 < length (in_accounts ins) then Ok (in_accounts ins ! 1 = pool) else Inl Foreign
        else Ok False)"

text \<open>The loop over the siblings, and the loop over the instructions before the current one.\<close>

fun check_siblings :: "program_ids \<Rightarrow> pubkey \<Rightarrow> instruction list \<Rightarrow> unit result" where
  "check_siblings ids pool [] = Ok ()"
| "check_siblings ids pool (s # ss) =
     (if in_program_id s = id_program ids then
        rbind (is_instruction_include_pool_swap ids s pool) (\<lambda>b.
        require (\<not> b) FailToValidateSingleSwapInstruction (check_siblings ids pool ss))
      else check_siblings ids pool ss)"

fun check_previous :: "program_ids \<Rightarrow> pubkey \<Rightarrow> instruction list \<Rightarrow> unit result" where
  "check_previous ids pool [] = Ok ()"
| "check_previous ids pool (i # is) =
     (if in_program_id i \<noteq> id_program ids then
        if pool \<in> set (in_accounts i) then Err FailToValidateSingleSwapInstruction
        else check_previous ids pool is
      else
        rbind (is_p_instruction_include_pool_swap ids i pool) (\<lambda>b.
        require (\<not> b) FailToValidateSingleSwapInstruction (check_previous ids pool is)))"

definition validate_single_swap_instruction ::
  "program_ids \<Rightarrow> introspection \<Rightarrow> pubkey \<Rightarrow> unit result" where
  "validate_single_swap_instruction ids tx pool =
     (case ti_remaining_accounts tx of
        [] \<Rightarrow> Err FailToValidateSingleSwapInstruction
      | sysvar # _ \<Rightarrow>
          if sysvar \<noteq> id_instructions_sysvar ids then Inl Foreign
          else if length (ti_instructions tx) \<le> ti_current_index tx then Inl Foreign
          else
            let program = in_program_id (ti_instructions tx ! ti_current_index tx) in
            rbind (if program \<noteq> id_program ids then
                     if 2 < ti_stack_height tx \<and> program \<notin> set (id_stack_whitelist ids)
                     then Err FailToValidateSingleSwapInstruction
                     else check_siblings ids pool (ti_siblings tx)
                   else Ok ())
              (\<lambda>_. check_previous ids pool (take (ti_current_index tx) (ti_instructions tx))))"

section \<open>A transaction swaps once\<close>

text \<open>An instruction that swaps on the pool: of this program, with a swap discriminator and the
  pool as second account.\<close>

definition swaps_on :: "program_ids \<Rightarrow> pubkey \<Rightarrow> instruction \<Rightarrow> bool" where
  "swaps_on ids pool i \<longleftrightarrow> in_program_id i = id_program ids \<and> 8 \<le> length (in_data i) \<and>
     is_swap_data ids (in_data i) \<and> 1 < length (in_accounts i) \<and> in_accounts i ! 1 = pool"

lemma check_siblings_Ok:
  "check_siblings ids pool ss = Ok () \<Longrightarrow> s \<in> set ss \<Longrightarrow> \<not> swaps_on ids pool s"
  by (induction ss)
    (auto simp: ok_iffs is_instruction_include_pool_swap_def swaps_on_def split: if_splits)

lemma check_previous_Ok:
  "check_previous ids pool is = Ok () \<Longrightarrow> i \<in> set is \<Longrightarrow>
    \<not> swaps_on ids pool i \<and> (in_program_id i \<noteq> id_program ids \<longrightarrow> pool \<notin> set (in_accounts i))"
  by (induction "is")
    (auto simp: ok_iffs is_p_instruction_include_pool_swap_def swaps_on_def split: if_splits)

lemma validate_single_swap_Ok:
  assumes "validate_single_swap_instruction ids tx pool = Ok ()"
  shows "ti_current_index tx < length (ti_instructions tx)"
    and "i < ti_current_index tx \<Longrightarrow> \<not> swaps_on ids pool (ti_instructions tx ! i) \<and>
      (in_program_id (ti_instructions tx ! i) \<noteq> id_program ids \<longrightarrow>
        pool \<notin> set (in_accounts (ti_instructions tx ! i)))"
    and "in_program_id (ti_instructions tx ! ti_current_index tx) \<noteq> id_program ids \<Longrightarrow>
      s \<in> set (ti_siblings tx) \<Longrightarrow> \<not> swaps_on ids pool s"
proof -
  show l: "ti_current_index tx < length (ti_instructions tx)"
    using assms by (auto simp: validate_single_swap_instruction_def split: list.splits if_splits)
  have p: "check_previous ids pool (take (ti_current_index tx) (ti_instructions tx)) = Ok ()"
    using assms by (auto simp: validate_single_swap_instruction_def Let_def rbind_Ok_iff
        split: list.splits if_splits)
  show "\<not> swaps_on ids pool (ti_instructions tx ! i) \<and>
      (in_program_id (ti_instructions tx ! i) \<noteq> id_program ids \<longrightarrow>
        pool \<notin> set (in_accounts (ti_instructions tx ! i)))" if "i < ti_current_index tx"
  proof -
    have "ti_instructions tx ! i \<in> set (take (ti_current_index tx) (ti_instructions tx))"
      using l that by (metis in_set_conv_nth length_take min.absorb4 nth_take)
    then show ?thesis by (rule check_previous_Ok [OF p])
  qed
  show "\<not> swaps_on ids pool s" if "s \<in> set (ti_siblings tx)"
    "in_program_id (ti_instructions tx ! ti_current_index tx) \<noteq> id_program ids"
    using assms that by (auto simp: validate_single_swap_instruction_def Let_def rbind_Ok_iff
        dest: check_siblings_Ok split: list.splits if_splits)
qed

end
