(* ===== verification/Swap_Handler.thy ===== *)
theory Swap_Handler
  imports Pool_Effects Token_Transfer Single_Swap
begin

text \<open>
  The swap instruction: \<^verbatim>\<open>instructions/swap\<close>. A swap takes the amount from the user, computes the
  result on the pool (exact input, partial fill or exact output), checks the slippage bound, applies
  the result and pays the output and the referral fee from the vaults.

  The accounts that the instruction passes are arguments: the keys that the handler compares, the
  two mints as the token programs see them, and the balances of the two vaults, which the handler
  returns updated with the pool.
\<close>

datatype swap_mode = ExactIn | PartialFill | ExactOut

definition swap_mode_of_u8 :: "u8 \<Rightarrow> swap_mode option" where
  "swap_mode_of_u8 n =
     (if n = 0 then Some ExactIn else if n = 1 then Some PartialFill
      else if n = 2 then Some ExactOut else None)"

record swap_parameters =
  sw_amount_in :: u64
  sw_minimum_amount_out :: u64

record swap_parameters2 =
  sw_amount_0 :: u64
  sw_amount_1 :: u64
  sw_swap_mode :: u8

definition to_swap_parameters2 :: "swap_parameters \<Rightarrow> swap_parameters2" where
  "to_swap_parameters2 self =
     \<lparr> sw_amount_0 = sw_amount_in self, sw_amount_1 = sw_minimum_amount_out self,
       sw_swap_mode = 0 \<rparr>"

record process_swap_params =
  pp_pool :: pool
  pp_token_in_mint :: token
  pp_token_out_mint :: token
  pp_fee_mode :: fee_mode
  pp_trade_direction :: trade_direction
  pp_current_point :: u64
  pp_amount_0 :: u64
  pp_amount_1 :: u64

record process_swap_result =
  pr_swap_result :: swap_result
  pr_included_transfer_fee_amount_in :: u64
  pr_included_transfer_fee_amount_out :: u64
  pr_excluded_transfer_fee_amount_out :: u64

section \<open>The three modes\<close>

definition process_swap_exact_in :: "process_swap_params \<Rightarrow> process_swap_result result" where
  "process_swap_exact_in params =
     rbind (calculate_transfer_fee_excluded_amount (pp_token_in_mint params) (pp_amount_0 params))
       (\<lambda>excluded_in.
     require (0 < xe_amount excluded_in) AmountIsZero
       (rbind (get_swap_result_from_exact_input (pp_pool params) (xe_amount excluded_in)
         (pp_fee_mode params) (pp_trade_direction params) (pp_current_point params)) (\<lambda>swap_result.
        rbind (calculate_transfer_fee_excluded_amount (pp_token_out_mint params)
          (sr_output_amount swap_result)) (\<lambda>excluded_out.
        require (pp_amount_1 params \<le> xe_amount excluded_out) ExceededSlippage
          (Ok \<lparr> pr_swap_result = swap_result,
                pr_included_transfer_fee_amount_in = pp_amount_0 params,
                pr_included_transfer_fee_amount_out = sr_output_amount swap_result,
                pr_excluded_transfer_fee_amount_out = xe_amount excluded_out \<rparr>)))))"

definition process_swap_partial_fill :: "process_swap_params \<Rightarrow> process_swap_result result" where
  "process_swap_partial_fill params =
     rbind (calculate_transfer_fee_excluded_amount (pp_token_in_mint params) (pp_amount_0 params))
       (\<lambda>excluded_in.
     require (0 < xe_amount excluded_in) AmountIsZero
       (rbind (get_swap_result_from_partial_input (pp_pool params) (xe_amount excluded_in)
         (pp_fee_mode params) (pp_trade_direction params) (pp_current_point params)) (\<lambda>swap_result.
        require (0 < sr_included_fee_input_amount swap_result) AmountIsZero
          (rbind (calculate_transfer_fee_excluded_amount (pp_token_out_mint params)
            (sr_output_amount swap_result)) (\<lambda>excluded_out.
           require (pp_amount_1 params \<le> xe_amount excluded_out) ExceededSlippage
             (rbind (calculate_transfer_fee_included_amount (pp_token_in_mint params)
               (sr_included_fee_input_amount swap_result)) (\<lambda>consumed_in.
              Ok \<lparr> pr_swap_result = swap_result,
                   pr_included_transfer_fee_amount_in = xi_amount consumed_in,
                   pr_included_transfer_fee_amount_out = sr_output_amount swap_result,
                   pr_excluded_transfer_fee_amount_out = xe_amount excluded_out \<rparr>)))))))"

definition process_swap_exact_out :: "process_swap_params \<Rightarrow> process_swap_result result" where
  "process_swap_exact_out params =
     rbind (calculate_transfer_fee_included_amount (pp_token_out_mint params) (pp_amount_0 params))
       (\<lambda>included_out.
     require (0 < xi_amount included_out) AmountIsZero
       (rbind (get_swap_result_from_exact_output (pp_pool params) (xi_amount included_out)
         (pp_fee_mode params) (pp_trade_direction params) (pp_current_point params)) (\<lambda>swap_result.
        rbind (calculate_transfer_fee_included_amount (pp_token_in_mint params)
          (sr_included_fee_input_amount swap_result)) (\<lambda>included_in.
        require (xi_amount included_in \<le> pp_amount_1 params) ExceededSlippage
          (Ok \<lparr> pr_swap_result = swap_result,
                pr_included_transfer_fee_amount_in = xi_amount included_in,
                pr_included_transfer_fee_amount_out = xi_amount included_out,
                pr_excluded_transfer_fee_amount_out = pp_amount_0 params \<rparr>)))))"

definition process_swap :: "swap_mode \<Rightarrow> process_swap_params \<Rightarrow> process_swap_result result" where
  "process_swap swap_mode =
     (case swap_mode of
        ExactIn \<Rightarrow> process_swap_exact_in
      | PartialFill \<Rightarrow> process_swap_partial_fill
      | ExactOut \<Rightarrow> process_swap_exact_out)"

section \<open>The handler\<close>

record vaults =
  va_token_a :: u64
  va_token_b :: u64

record swap_context =
  sc_clock :: clock
  sc_ids :: program_ids
  sc_transaction :: introspection
  sc_pool_key :: pubkey
  sc_payer :: pubkey
  sc_input_token_account_mint :: "pubkey result"
  sc_token_a_mint_key :: pubkey
  sc_token_a :: token
  sc_token_b :: token
  sc_has_referral :: bool

definition get_trade_direction :: "pubkey result \<Rightarrow> pubkey \<Rightarrow> trade_direction result" where
  "get_trade_direction input_token_account_mint token_a_mint =
     rbind input_token_account_mint (\<lambda>mint.
     if mint = token_a_mint then Ok AtoB else Ok BtoA)"

text \<open>The check of the rate limiter: \<^verbatim>\<open>if let Ok(rate_limiter) = ...\<close>.\<close>

definition check_rate_limiter ::
  "swap_context \<Rightarrow> pool \<Rightarrow> u64 \<Rightarrow> trade_direction \<Rightarrow> unit result" where
  "check_rate_limiter ctx q current_point trade_direction =
     (case to_fee_rate_limiter (pf_base_fee (pl_pool_fees q)) of
        Inr rate_limiter \<Rightarrow>
          rbind (is_rate_limiter_applied rate_limiter current_point (pl_activation_point q)
            trade_direction) (\<lambda>applied.
          if applied
          then validate_single_swap_instruction (sc_ids ctx) (sc_transaction ctx) (sc_pool_key ctx)
          else Ok ())
      | Inl _ \<Rightarrow> Ok ())"

text \<open>The three transfers, on the vaults of the direction and of the token that pays the fees.\<close>

definition swap_transfers ::
  "swap_context \<Rightarrow> vaults \<Rightarrow> trade_direction \<Rightarrow> fee_mode \<Rightarrow> process_swap_result \<Rightarrow> vaults result" where
  "swap_transfers ctx v trade_direction fee_mode r =
     rbind (case trade_direction of
              AtoB \<Rightarrow>
                rbind (transfer_from_user (sc_token_a ctx) (va_token_a v)
                  (pr_included_transfer_fee_amount_in r)) (\<lambda>a.
                rbind (transfer_from_pool (sc_token_b ctx) (va_token_b v)
                  (pr_included_transfer_fee_amount_out r)) (\<lambda>b.
                Ok \<lparr> va_token_a = a, va_token_b = b \<rparr>))
            | BtoA \<Rightarrow>
                rbind (transfer_from_user (sc_token_b ctx) (va_token_b v)
                  (pr_included_transfer_fee_amount_in r)) (\<lambda>b.
                rbind (transfer_from_pool (sc_token_a ctx) (va_token_a v)
                  (pr_included_transfer_fee_amount_out r)) (\<lambda>a.
                Ok \<lparr> va_token_a = a, va_token_b = b \<rparr>))) (\<lambda>v.
     if sc_has_referral ctx then
       if fm_fees_on_token_a fee_mode then
         rbind (transfer_from_pool (sc_token_a ctx) (va_token_a v)
           (sr_referral_fee (pr_swap_result r))) (\<lambda>a. Ok (v\<lparr>va_token_a := a\<rparr>))
       else
         rbind (transfer_from_pool (sc_token_b ctx) (va_token_b v)
           (sr_referral_fee (pr_swap_result r))) (\<lambda>b. Ok (v\<lparr>va_token_b := b\<rparr>))
     else Ok v)"

definition p_handle_swap ::
  "swap_context \<Rightarrow> pool \<Rightarrow> vaults \<Rightarrow> swap_parameters2 \<Rightarrow> (pool \<times> vaults \<times> process_swap_result) result" where
  "p_handle_swap ctx q v params =
     rbind (get_pool_access_validator (sc_clock ctx) q) (\<lambda>access_validator.
     require (can_swap access_validator (sc_payer ctx)) PoolDisabled
       (rbind (ok_or (swap_mode_of_u8 (sw_swap_mode params)) InvalidInput) (\<lambda>swap_mode.
        rbind (get_trade_direction (sc_input_token_account_mint ctx) (sc_token_a_mint_key ctx))
          (\<lambda>trade_direction.
        let (token_in, token_out) =
              (case trade_direction of
                 AtoB \<Rightarrow> (sc_token_a ctx, sc_token_b ctx)
               | BtoA \<Rightarrow> (sc_token_b ctx, sc_token_a ctx)) in
        require (0 < sw_amount_0 params) AmountIsZero
          (rbind (get_current_point (sc_clock ctx) (pl_activation_type q)) (\<lambda>current_point.
           rbind (check_rate_limiter ctx q current_point trade_direction) (\<lambda>_.
           rbind (update_pre_swap q (unix_timestamp (sc_clock ctx))) (\<lambda>q.
           rbind (get_fee_mode (pl_collect_fee_mode q) trade_direction (sc_has_referral ctx))
             (\<lambda>fee_mode.
           rbind (process_swap swap_mode
             \<lparr> pp_pool = q, pp_token_in_mint = token_in, pp_token_out_mint = token_out,
               pp_fee_mode = fee_mode, pp_trade_direction = trade_direction,
               pp_current_point = current_point, pp_amount_0 = sw_amount_0 params,
               pp_amount_1 = sw_amount_1 params \<rparr>) (\<lambda>r.
           rbind (apply_swap_result q (pr_swap_result r) fee_mode (unix_timestamp (sc_clock ctx)))
             (\<lambda>q.
           rbind (swap_transfers ctx v trade_direction fee_mode r) (\<lambda>v.
           rbind (get_reserves_amount q) (\<lambda>_.
           Ok (q, v, r))))))))))))))"

definition handle_swap ::
  "swap_context \<Rightarrow> pool \<Rightarrow> vaults \<Rightarrow> swap_parameters \<Rightarrow> (pool \<times> vaults \<times> process_swap_result) result" where
  "handle_swap ctx q v params = p_handle_swap ctx q v (to_swap_parameters2 params)"

end
