(* ===== verification/Swap_Accounts.thy ===== *)
theory Swap_Accounts
  imports Swap_Handler
begin

text \<open>
  The accounts of a swap. The fast entry point does not use the account framework, so the program
  checks the accounts itself: \<^verbatim>\<open>SwapCtx::validate_p_accounts\<close> in \<^verbatim>\<open>ix_swap.rs\<close> with the helpers of
  \<^verbatim>\<open>utils/p_helper.rs\<close>. Then \<^verbatim>\<open>p_handle_swap\<close> takes the accounts by their position.

  An account is what the program reads of it. The bytes of its data may be borrowed already, which is
  an error. The content of the pool account is an argument \<open>q\<close>; a key is read from bytes as the
  number with these digits, the first byte the highest.
\<close>

record p_account =
  ac_key :: pubkey
  ac_owner :: pubkey
  ac_is_writable :: bool
  ac_is_signer :: bool
  ac_lamports :: u64
  ac_data :: "bytes result"

record account_ids =
  ai_program :: program_ids
  ai_pool_authority :: pubkey
  ai_event_authority :: pubkey
  ai_system_program :: pubkey
  ai_token_programs :: "pubkey list"
  ai_pool_discriminator :: bytes

definition SWAP_IX_ACCOUNTS :: nat where "SWAP_IX_ACCOUNTS = 14"

text \<open>The size of the pool structure, which is behind the discriminator in the data of a pool.\<close>

definition POOL_INIT_SPACE :: nat where "POOL_INIT_SPACE = 1104"

section \<open>Helpers\<close>

definition p_load_mut_checked :: "account_ids \<Rightarrow> p_account \<Rightarrow> unit result" where
  "p_load_mut_checked ids acc_info =
     (if ac_owner acc_info \<noteq> id_program (ai_program ids) then Inl Foreign
      else if \<not> ac_is_writable acc_info then Inl Foreign
      else
        rbind (ac_data acc_info) (\<lambda>data.
        if length data < length (ai_pool_discriminator ids) then Inl Foreign
        else if take (length (ai_pool_discriminator ids)) data \<noteq> ai_pool_discriminator ids
        then Inl Foreign
        else assert_panic (POOL_INIT_SPACE + length (ai_pool_discriminator ids) \<le> length data) (Ok ())))"

text \<open>The same without the checks, once they are done.\<close>

definition p_load_mut_unchecked :: "account_ids \<Rightarrow> p_account \<Rightarrow> unit result" where
  "p_load_mut_unchecked ids acc_info =
     rbind (ac_data acc_info) (\<lambda>data.
     assert_panic (POOL_INIT_SPACE + length (ai_pool_discriminator ids) \<le> length data) (Ok ()))"

definition p_accessor_mint :: "p_account \<Rightarrow> pubkey result" where
  "p_accessor_mint token_account =
     rbind (ac_data token_account) (\<lambda>data.
     assert_panic (32 \<le> length data) (Ok (word_rcat (take 32 data))))"

definition validate_mut_token_account :: "account_ids \<Rightarrow> p_account \<Rightarrow> unit result" where
  "validate_mut_token_account ids token_account =
     (if \<not> ac_is_writable token_account then Inl Foreign
      else if ac_owner token_account = ai_system_program ids \<and> ac_lamports token_account = 0
      then Inl Foreign
      else if ac_owner token_account \<notin> set (ai_token_programs ids) then Inl Foreign
      else Ok ())"

text \<open>A condition whose failure is an error of the account framework.\<close>

definition constraint :: "bool \<Rightarrow> unit result" where
  "constraint c = (if c then Ok () else Inl Foreign)"

lemma constraint_Ok_iff [ok_iffs]: "constraint c = Ok x \<longleftrightarrow> c"
  by (simp add: constraint_def)

section \<open>The checks\<close>

definition validate_p_accounts :: "account_ids \<Rightarrow> pool \<Rightarrow> p_account list \<Rightarrow> unit result" where
  "validate_p_accounts ids q accounts =
     (if length accounts < SWAP_IX_ACCOUNTS then Inl Foreign
      else
        let pool_authority = accounts ! 0; pool = accounts ! 1;
            input_token_account = accounts ! 2; output_token_account = accounts ! 3;
            token_a_vault = accounts ! 4; token_b_vault = accounts ! 5;
            token_a_mint = accounts ! 6; token_b_mint = accounts ! 7;
            payer = accounts ! 8; token_a_program = accounts ! 9; token_b_program = accounts ! 10;
            referral_token_account = accounts ! 11; event_authority = accounts ! 12 in
        rbind (constraint (ac_key pool_authority = ai_pool_authority ids)) (\<lambda>_.
        rbind (p_load_mut_checked ids pool) (\<lambda>_.
        rbind (constraint (pl_token_a_vault q = ac_key token_a_vault)) (\<lambda>_.
        rbind (constraint (pl_token_b_vault q = ac_key token_b_vault)) (\<lambda>_.
        rbind (validate_mut_token_account ids input_token_account) (\<lambda>_.
        rbind (validate_mut_token_account ids output_token_account) (\<lambda>_.
        rbind (validate_mut_token_account ids token_a_vault) (\<lambda>_.
        rbind (constraint (ac_owner token_a_vault = ac_key token_a_program)) (\<lambda>_.
        rbind (validate_mut_token_account ids token_b_vault) (\<lambda>_.
        rbind (constraint (ac_owner token_b_vault = ac_key token_b_program)) (\<lambda>_.
        rbind (p_accessor_mint token_a_vault) (\<lambda>token_a_mint_pk.
        rbind (constraint (ac_key token_a_mint = token_a_mint_pk)) (\<lambda>_.
        rbind (constraint (ac_owner token_a_mint \<in> set (ai_token_programs ids))) (\<lambda>_.
        rbind (p_accessor_mint token_b_vault) (\<lambda>token_b_mint_pk.
        rbind (constraint (ac_key token_b_mint = token_b_mint_pk)) (\<lambda>_.
        rbind (constraint (ac_owner token_b_mint \<in> set (ai_token_programs ids))) (\<lambda>_.
        rbind (constraint (ac_is_signer payer)) (\<lambda>_.
        rbind (constraint (ac_key token_a_program \<in> set (ai_token_programs ids))) (\<lambda>_.
        rbind (constraint (ac_key token_b_program \<in> set (ai_token_programs ids))) (\<lambda>_.
        rbind (constraint (ac_key event_authority = ai_event_authority ids)) (\<lambda>_.
        if ac_key referral_token_account \<noteq> id_program (ai_program ids)
        then validate_mut_token_account ids referral_token_account
        else Ok ())))))))))))))))))))))"

text \<open>What the handler takes from the accounts; the two mints act as \<open>token_a\<close> and \<open>token_b\<close>.\<close>

definition swap_context_of ::
  "account_ids \<Rightarrow> clock \<Rightarrow> introspection \<Rightarrow> token \<Rightarrow> token \<Rightarrow> p_account list \<Rightarrow> swap_context" where
  "swap_context_of ids clk tx token_a token_b accounts =
     \<lparr> sc_clock = clk, sc_ids = ai_program ids, sc_transaction = tx,
       sc_pool_key = ac_key (accounts ! 1), sc_payer = ac_key (accounts ! 8),
       sc_input_token_account_mint = p_accessor_mint (accounts ! 2),
       sc_token_a_mint_key = ac_key (accounts ! 6),
       sc_token_a = token_a, sc_token_b = token_b,
       sc_has_referral = (ac_key (accounts ! 11) \<noteq> id_program (ai_program ids)) \<rparr>"

definition swap_instruction ::
  "account_ids \<Rightarrow> clock \<Rightarrow> introspection \<Rightarrow> token \<Rightarrow> token \<Rightarrow> p_account list \<Rightarrow> pool \<Rightarrow> vaults \<Rightarrow>
   swap_parameters2 \<Rightarrow> (pool \<times> vaults \<times> process_swap_result) result" where
  "swap_instruction ids clk tx token_a token_b accounts q v params =
     rbind (validate_p_accounts ids q accounts) (\<lambda>_.
     rbind (p_load_mut_unchecked ids (accounts ! 1)) (\<lambda>_.
     p_handle_swap (swap_context_of ids clk tx token_a token_b accounts) q v params))"

section \<open>A swap uses the accounts of its pool\<close>

lemma p_load_unchecked_after_checked:
  "p_load_mut_checked ids acc_info = Ok () \<Longrightarrow> p_load_mut_unchecked ids acc_info = Ok ()"
  by (auto simp: p_load_mut_checked_def p_load_mut_unchecked_def rbind_Ok_iff assert_panic_Ok_iff
      split: if_splits)

lemma swap_instruction_validated:
  "swap_instruction ids clk tx token_a token_b accounts q v params =
     rbind (validate_p_accounts ids q accounts) (\<lambda>_.
     p_handle_swap (swap_context_of ids clk tx token_a token_b accounts) q v params)"
proof (cases "validate_p_accounts ids q accounts")
  case (Inr u)
  then have "p_load_mut_checked ids (accounts ! 1) = Ok ()"
    by (auto simp: validate_p_accounts_def Let_def rbind_Ok_iff split: if_splits)
  with Inr show ?thesis by (simp add: swap_instruction_def p_load_unchecked_after_checked)
qed (simp add: swap_instruction_def)

lemma validate_p_accounts_Ok:
  assumes "validate_p_accounts ids q accounts = Ok ()"
  shows "SWAP_IX_ACCOUNTS \<le> length accounts"
    and "ac_owner (accounts ! 1) = id_program (ai_program ids)" "ac_is_writable (accounts ! 1)"
    and "ac_key (accounts ! 4) = pl_token_a_vault q" "ac_key (accounts ! 5) = pl_token_b_vault q"
    and "p_accessor_mint (accounts ! 4) = Ok (ac_key (accounts ! 6))"
      "p_accessor_mint (accounts ! 5) = Ok (ac_key (accounts ! 7))"
    and "ac_owner (accounts ! 4) = ac_key (accounts ! 9)"
      "ac_owner (accounts ! 5) = ac_key (accounts ! 10)"
    and "ac_key (accounts ! 9) \<in> set (ai_token_programs ids)"
      "ac_key (accounts ! 10) \<in> set (ai_token_programs ids)"
    and "ac_is_signer (accounts ! 8)"
  using assms
  by (auto simp: validate_p_accounts_def Let_def rbind_Ok_iff constraint_Ok_iff
      p_load_mut_checked_def split: if_splits)

end
