(* ===== verification/Operator.thy ===== *)
theory Operator
  imports Amm_Constants
begin

text \<open>
  Who may do what: the operators with their permissions (\<^verbatim>\<open>state/operator.rs\<close>), the admins
  (\<^verbatim>\<open>instructions/admin/auth.rs\<close>) and the checks of \<^verbatim>\<open>access_control.rs\<close>.
\<close>

datatype operator_permission =
  CreateConfigKey | RemoveConfigKey | CreateTokenBadge | CloseTokenBadge | SetPoolStatus
  | InitializeReward | UpdateRewardDuration | UpdateRewardFunder | UpdatePoolFees
  | ClaimProtocolFee | ZapProtocolFee

fun nat_of_permission :: "operator_permission \<Rightarrow> nat" where
  "nat_of_permission CreateConfigKey = 0"
| "nat_of_permission RemoveConfigKey = 1"
| "nat_of_permission CreateTokenBadge = 2"
| "nat_of_permission CloseTokenBadge = 3"
| "nat_of_permission SetPoolStatus = 4"
| "nat_of_permission InitializeReward = 5"
| "nat_of_permission UpdateRewardDuration = 6"
| "nat_of_permission UpdateRewardFunder = 7"
| "nat_of_permission UpdatePoolFees = 8"
| "nat_of_permission ClaimProtocolFee = 9"
| "nat_of_permission ZapProtocolFee = 10"

record operator =
  op_whitelisted_address :: pubkey
  op_permission :: u128

definition operator_initialize :: "pubkey \<Rightarrow> u128 \<Rightarrow> operator" where
  "operator_initialize whitelisted_address permission =
     \<lparr> op_whitelisted_address = whitelisted_address, op_permission = permission \<rparr>"

definition is_permission_allow :: "operator \<Rightarrow> operator_permission \<Rightarrow> bool" where
  "is_permission_allow self permission \<longleftrightarrow>
     and (op_permission self) (push_bit (nat_of_permission permission) 1) \<noteq> 0"

text \<open>The addresses are the numbers that the base-58 literals of the source stand for.\<close>

definition ADMINS :: "pubkey list" where
  "ADMINS =
     [32998256351533825417764253663733480195709361172400272661065538267444903811895,
      82539355200100436862679245557804009291181602352806945813909493401019714209824]"

definition assert_eq_admin :: "pubkey \<Rightarrow> bool" where
  "assert_eq_admin admin \<longleftrightarrow> admin \<in> set ADMINS"

definition is_admin :: "pubkey \<Rightarrow> unit result" where
  "is_admin signer = require (assert_eq_admin signer) InvalidAdmin (Ok ())"

definition is_valid_operator_role :: "operator \<Rightarrow> pubkey \<Rightarrow> operator_permission \<Rightarrow> unit result" where
  "is_valid_operator_role oper signer permission =
     (if op_whitelisted_address oper = signer \<and> is_permission_allow oper permission
      then Ok () else Err InvalidPermission)"

text \<open>
  \<^verbatim>\<open>create_operator_account\<close>, which only an admin may call, and \<^verbatim>\<open>close_operator_account\<close>, which does
  nothing else than the check.
\<close>

definition handle_create_operator :: "pubkey \<Rightarrow> u128 \<Rightarrow> operator result" where
  "handle_create_operator whitelisted_address permission =
     require (0 < permission \<and> permission < push_bit MAX_OPERATION 1) InvalidPermission
       (Ok (operator_initialize whitelisted_address permission))"

definition create_operator_account :: "pubkey \<Rightarrow> pubkey \<Rightarrow> u128 \<Rightarrow> operator result" where
  "create_operator_account signer whitelisted_address permission =
     rbind (is_admin signer) (\<lambda>_. handle_create_operator whitelisted_address permission)"

definition close_operator_account :: "pubkey \<Rightarrow> unit result" where
  "close_operator_account signer = is_admin signer"

section \<open>Permissions\<close>

lemma nat_of_permission_less: "nat_of_permission p < 11"
  by (cases p) simp_all

lemma nat_of_permission_inj: "nat_of_permission p = nat_of_permission q \<longleftrightarrow> p = q"
  by (cases p; cases q) simp_all

lemma nat_of_permission_surj:
  assumes "k < 11"
  shows "\<exists>p. k = nat_of_permission p"
proof -
  have "k = nat_of_permission CreateConfigKey \<or> k = nat_of_permission RemoveConfigKey \<or>
    k = nat_of_permission CreateTokenBadge \<or> k = nat_of_permission CloseTokenBadge \<or>
    k = nat_of_permission SetPoolStatus \<or> k = nat_of_permission InitializeReward \<or>
    k = nat_of_permission UpdateRewardDuration \<or> k = nat_of_permission UpdateRewardFunder \<or>
    k = nat_of_permission UpdatePoolFees \<or> k = nat_of_permission ClaimProtocolFee \<or>
    k = nat_of_permission ZapProtocolFee"
    using assms unfolding nat_of_permission.simps by presburger
  then show ?thesis by blast
qed

lemma is_permission_allow_bit:
  "is_permission_allow oper p \<longleftrightarrow> bit (op_permission oper) (nat_of_permission p)"
  by (simp add: is_permission_allow_def push_bit_eq_mult and_exp_eq_0_iff_not_bit)

text \<open>
  An operator is created by an admin, for the address given, with at least one permission and
  none beyond the known ones.
\<close>

lemma create_operator_account_Ok:
  assumes "create_operator_account signer addr perm = Ok oper"
  shows "signer \<in> set ADMINS" and "op_whitelisted_address oper = addr"
    and "bit (op_permission oper) k \<Longrightarrow> \<exists>p. k = nat_of_permission p"
    and "\<exists>p. is_permission_allow oper p"
proof -
  have a: "signer \<in> set ADMINS" "0 < perm" "perm < push_bit MAX_OPERATION 1"
    "oper = operator_initialize addr perm"
    using assms by (auto simp: create_operator_account_def is_admin_def assert_eq_admin_def
        handle_create_operator_def ok_iffs)
  show "signer \<in> set ADMINS" "op_whitelisted_address oper = addr"
    using a by (simp_all add: operator_initialize_def)
  have lt: "unat perm < 2048" using a(3) by (simp add: MAX_OPERATION_def word_less_unat)
  have known: "\<exists>p. k = nat_of_permission p" if k: "bit perm k" for k
  proof -
    have "k < 11"
    proof (rule ccontr)
      assume "\<not> k < 11"
      then have "(2 :: nat) ^ 11 \<le> 2 ^ k" by (intro power_increasing) simp_all
      then have "unat perm div 2 ^ k = 0" using lt by simp
      then have "\<not> bit (unat perm) k" by (simp add: bit_iff_odd)
      moreover have "bit (unat perm) k" using k by (simp add: bit_unsigned_iff)
      ultimately show False by simp
    qed
    then show ?thesis by (rule nat_of_permission_surj)
  qed
  then show "bit (op_permission oper) k \<Longrightarrow> \<exists>p. k = nat_of_permission p"
    using a(4) by (simp add: operator_initialize_def)
  have "perm \<noteq> 0" using a(2) by simp
  then obtain k where "bit perm k" by (metis bit_0_eq bit_eqI bot_apply bot_bool_def)
  moreover from known [OF this] obtain p where "k = nat_of_permission p" by blast
  ultimately show "\<exists>p. is_permission_allow oper p"
    using a(4) by (auto simp: is_permission_allow_bit operator_initialize_def)
qed

end
