(* ===== verification/Config.thy ===== *)
theory Config
  imports Pool_Fees Activation Operator
begin

text \<open>
  The configs from which pools are created: \<^verbatim>\<open>state/config.rs\<close>, the conversions of
  \<^verbatim>\<open>params/fee_parameters.rs\<close> to and from a config, and the two instructions that create one
  (\<^verbatim>\<open>operator/ix_create_static_config.rs\<close>, \<^verbatim>\<open>operator/ix_create_dynamic_config.rs\<close>).
\<close>

datatype config_type = Static | Dynamic

fun u8_of_config_type :: "config_type \<Rightarrow> u8" where
  "u8_of_config_type Static = 0"
| "u8_of_config_type Dynamic = 1"

definition config_type_of_u8 :: "u8 \<Rightarrow> config_type option" where
  "config_type_of_u8 n = (if n = 0 then Some Static else if n = 1 then Some Dynamic else None)"

record dynamic_fee_config =
  dc_initialized :: u8
  dc_max_volatility_accumulator :: u32
  dc_variable_fee_control :: u32
  dc_bin_step :: u16
  dc_filter_period :: u16
  dc_decay_period :: u16
  dc_reduction_factor :: u16
  dc_bin_step_u128 :: u128

record pool_fees_config =
  fc_base_fee :: base_fee_info
  fc_dynamic_fee :: dynamic_fee_config
  fc_protocol_fee_percent :: u8
  fc_partner_fee_percent :: u8
  fc_referral_fee_percent :: u8

record config =
  cf_vault_config_key :: pubkey
  cf_pool_creator_authority :: pubkey
  cf_pool_fees :: pool_fees_config
  cf_activation_type :: u8
  cf_collect_fee_mode :: u8
  cf_config_type :: u8
  cf_index :: u64
  cf_sqrt_min_price :: u128
  cf_sqrt_max_price :: u128

section \<open>Fees of a config\<close>

definition dynamic_fee_config_default :: dynamic_fee_config where
  "dynamic_fee_config_default =
     \<lparr> dc_initialized = 0, dc_max_volatility_accumulator = 0, dc_variable_fee_control = 0,
       dc_bin_step = 0, dc_filter_period = 0, dc_decay_period = 0, dc_reduction_factor = 0,
       dc_bin_step_u128 = 0 \<rparr>"

definition to_dynamic_fee_config :: "dynamic_fee_parameters \<Rightarrow> dynamic_fee_config" where
  "to_dynamic_fee_config self =
     \<lparr> dc_initialized = 1,
       dc_max_volatility_accumulator = dp_max_volatility_accumulator self,
       dc_variable_fee_control = dp_variable_fee_control self,
       dc_bin_step = dp_bin_step self,
       dc_filter_period = dp_filter_period self,
       dc_decay_period = dp_decay_period self,
       dc_reduction_factor = dp_reduction_factor self,
       dc_bin_step_u128 = dp_bin_step_u128 self \<rparr>"

definition to_pool_fees_config :: "pool_fee_parameters \<Rightarrow> pool_fees_config result" where
  "to_pool_fees_config self =
     rbind (base_fee_parameters_to_base_fee_info (pp_base_fee self)) (\<lambda>base_fee.
     Ok \<lparr> fc_base_fee = base_fee,
          fc_dynamic_fee = (case pp_dynamic_fee self of
              Some dynamic_fee \<Rightarrow> to_dynamic_fee_config dynamic_fee
            | None \<Rightarrow> dynamic_fee_config_default),
          fc_protocol_fee_percent = PROTOCOL_FEE_PERCENT,
          fc_partner_fee_percent = PARTNER_FEE_PERCENT,
          fc_referral_fee_percent = HOST_FEE_PERCENT \<rparr>)"

definition to_pool_fee_parameters :: "pool_fees_config \<Rightarrow> pool_fee_parameters result" where
  "to_pool_fee_parameters self =
     (let d = fc_dynamic_fee self in
      rbind (base_fee_info_to_base_fee_parameters (fc_base_fee self)) (\<lambda>base_fee.
      if dc_initialized d = 1 then
        Ok \<lparr> pp_base_fee = base_fee,
             pp_dynamic_fee = Some
               \<lparr> dp_bin_step = dc_bin_step d,
                 dp_bin_step_u128 = dc_bin_step_u128 d,
                 dp_filter_period = dc_filter_period d,
                 dp_decay_period = dc_decay_period d,
                 dp_reduction_factor = dc_reduction_factor d,
                 dp_max_volatility_accumulator = dc_max_volatility_accumulator d,
                 dp_variable_fee_control = dc_variable_fee_control d \<rparr> \<rparr>
      else Ok \<lparr> pp_base_fee = base_fee, pp_dynamic_fee = None \<rparr>))"

definition config_to_dynamic_fee_struct :: "dynamic_fee_config \<Rightarrow> dynamic_fee" where
  "config_to_dynamic_fee_struct self =
     (if dc_initialized self = 0 then dynamic_fee_default
      else dynamic_fee_default
        \<lparr> df_initialized := 1,
          df_bin_step := dc_bin_step self,
          df_bin_step_u128 := dc_bin_step_u128 self,
          df_filter_period := dc_filter_period self,
          df_decay_period := dc_decay_period self,
          df_reduction_factor := dc_reduction_factor self,
          df_max_volatility_accumulator := dc_max_volatility_accumulator self,
          df_variable_fee_control := dc_variable_fee_control self \<rparr>)"

definition config_to_pool_fees_struct :: "pool_fees_config \<Rightarrow> u128 \<Rightarrow> pool_fees" where
  "config_to_pool_fees_struct self init_sqrt_price =
     \<lparr> pf_base_fee = fc_base_fee self,
       pf_protocol_fee_percent = fc_protocol_fee_percent self,
       pf_partner_fee_percent = fc_partner_fee_percent self,
       pf_referral_fee_percent = fc_referral_fee_percent self,
       pf_dynamic_fee = config_to_dynamic_fee_struct (fc_dynamic_fee self),
       pf_init_sqrt_price = init_sqrt_price \<rparr>"

section \<open>Operations of a config\<close>

definition init_static_config ::
  "config \<Rightarrow> u64 \<Rightarrow> pool_fee_parameters \<Rightarrow> pubkey \<Rightarrow> pubkey \<Rightarrow> u8 \<Rightarrow> u128 \<Rightarrow> u128 \<Rightarrow> u8 \<Rightarrow>
   config result" where
  "init_static_config self index pool_fees vault_config_key pool_creator_authority activation_type
     sqrt_min_price sqrt_max_price collect_fee_mode =
     rbind (to_pool_fees_config pool_fees) (\<lambda>fees.
     Ok (self\<lparr> cf_index := index, cf_pool_fees := fees, cf_vault_config_key := vault_config_key,
               cf_pool_creator_authority := pool_creator_authority,
               cf_activation_type := activation_type, cf_sqrt_min_price := sqrt_min_price,
               cf_sqrt_max_price := sqrt_max_price, cf_collect_fee_mode := collect_fee_mode,
               cf_config_type := u8_of_config_type Static \<rparr>))"

definition get_config_type :: "config \<Rightarrow> config_type result" where
  "get_config_type self = ok_or (config_type_of_u8 (cf_config_type self)) TypeCastFailed"

definition init_dynamic_config :: "config \<Rightarrow> u64 \<Rightarrow> pubkey \<Rightarrow> config" where
  "init_dynamic_config self index pool_creator_authority =
     self\<lparr> cf_index := index, cf_pool_creator_authority := pool_creator_authority,
           cf_config_type := u8_of_config_type Dynamic \<rparr>"

definition get_partner_info :: "config \<Rightarrow> partner_info" where
  "get_partner_info self =
     \<lparr> pi_fee_percent = fc_partner_fee_percent (cf_pool_fees self),
       pi_partner_authority = cf_pool_creator_authority self,
       pi_pending_fee_a = 0, pi_pending_fee_b = 0 \<rparr>"

definition has_alpha_vault :: "config \<Rightarrow> bool" where
  "has_alpha_vault self \<longleftrightarrow> cf_vault_config_key self \<noteq> 0"

text \<open>The derivation of the address of a vault is the argument \<open>derive_vault_pubkey\<close>.\<close>

definition config_get_whitelisted_alpha_vault ::
  "(pubkey \<Rightarrow> pubkey \<Rightarrow> pubkey) \<Rightarrow> config \<Rightarrow> pubkey \<Rightarrow> pubkey" where
  "config_get_whitelisted_alpha_vault derive_vault_pubkey self pool_key =
     (if cf_vault_config_key self = 0 then 0
      else derive_vault_pubkey (cf_vault_config_key self) pool_key)"

definition config_get_max_activation_point :: "config \<Rightarrow> clock \<Rightarrow> u64 result" where
  "config_get_max_activation_point self clk =
     rbind (ok_or (activation_type_of_u8 (cf_activation_type self)) InvalidActivationType) (\<lambda>t.
     get_max_activation_point_from_current_time (get_timing_constraint_by_activation_type t clk))"

section \<open>Creating a config\<close>

record static_config_parameters =
  st_pool_fees :: pool_fee_parameters
  st_sqrt_min_price :: u128
  st_sqrt_max_price :: u128
  st_vault_config_key :: pubkey
  st_pool_creator_authority :: pubkey
  st_activation_type :: u8
  st_collect_fee_mode :: u8

text \<open>The account of a new config is zero.\<close>

definition config_zero :: config where
  "config_zero =
     \<lparr> cf_vault_config_key = 0, cf_pool_creator_authority = 0,
       cf_pool_fees = \<lparr> fc_base_fee = replicate 32 0, fc_dynamic_fee = dynamic_fee_config_default,
         fc_protocol_fee_percent = 0, fc_partner_fee_percent = 0, fc_referral_fee_percent = 0 \<rparr>,
       cf_activation_type = 0, cf_collect_fee_mode = 0, cf_config_type = 0, cf_index = 0,
       cf_sqrt_min_price = 0, cf_sqrt_max_price = 0 \<rparr>"

definition handle_create_static_config ::
  "clock \<Rightarrow> u64 \<Rightarrow> static_config_parameters \<Rightarrow> config result" where
  "handle_create_static_config clk index params =
     require (MIN_SQRT_PRICE \<le> st_sqrt_min_price params \<and> st_sqrt_max_price params \<le> MAX_SQRT_PRICE)
       InvalidPriceRange
     (require (st_sqrt_min_price params < st_sqrt_max_price params) InvalidPriceRange
      (rbind (get_max_activation_point clk (st_activation_type params)) (\<lambda>activation_point.
       rbind (activation_params_validate clk
         \<lparr> ap_activation_point = Some activation_point,
           ap_has_alpha_vault = (st_vault_config_key params \<noteq> 0),
           ap_activation_type = st_activation_type params \<rparr>) (\<lambda>_.
       rbind (ok_or (activation_type_of_u8 (st_activation_type params)) InvalidActivationType)
         (\<lambda>pool_activation_type.
       rbind (ok_or (collect_fee_mode_of_u8 (st_collect_fee_mode params)) InvalidCollectFeeMode)
         (\<lambda>pool_collect_fee_mode.
       rbind (pool_fee_parameters_validate (st_pool_fees params) pool_collect_fee_mode
         pool_activation_type) (\<lambda>_.
       init_static_config config_zero index (st_pool_fees params) (st_vault_config_key params)
         (st_pool_creator_authority params) (st_activation_type params) (st_sqrt_min_price params)
         (st_sqrt_max_price params) (st_collect_fee_mode params))))))))"

definition handle_create_dynamic_config :: "u64 \<Rightarrow> pubkey \<Rightarrow> config result" where
  "handle_create_dynamic_config index pool_creator_authority =
     require (pool_creator_authority \<noteq> 0) InvalidPoolCreatorAuthority
       (Ok (init_dynamic_config config_zero index pool_creator_authority))"

definition create_config ::
  "operator \<Rightarrow> pubkey \<Rightarrow> clock \<Rightarrow> u64 \<Rightarrow> static_config_parameters \<Rightarrow> config result" where
  "create_config oper signer clk index params =
     rbind (is_valid_operator_role oper signer CreateConfigKey) (\<lambda>_.
     handle_create_static_config clk index params)"

definition create_dynamic_config ::
  "operator \<Rightarrow> pubkey \<Rightarrow> u64 \<Rightarrow> pubkey \<Rightarrow> config result" where
  "create_dynamic_config oper signer index pool_creator_authority =
     rbind (is_valid_operator_role oper signer CreateConfigKey) (\<lambda>_.
     handle_create_dynamic_config index pool_creator_authority)"

section \<open>What a config keeps\<close>

text \<open>
  A pool that is created from a config has the fees that the parameters of the config give directly.
\<close>

lemma config_fees_are_parameters:
  assumes "to_pool_fees_config pr = Ok c" and "to_pool_fees_struct pr x = Ok f"
  shows "config_to_pool_fees_struct c x = f"
  using assms
  by (auto simp: to_pool_fees_config_def to_pool_fees_struct_def rbind_Ok_iff
      config_to_pool_fees_struct_def config_to_dynamic_fee_struct_def to_dynamic_fee_config_def
      to_dynamic_fee_struct_def dynamic_fee_config_default_def split: option.splits)

lemma to_pool_fees_struct_iff:
  "(\<exists>c. to_pool_fees_config pr = Ok c) \<longleftrightarrow> (\<exists>f. to_pool_fees_struct pr x = Ok f)"
  by (auto simp: to_pool_fees_config_def to_pool_fees_struct_def rbind_Ok_iff)

text \<open>
  What a config gives back are the parameters it was made from, up to the three last bytes of the base
  fee, which no layout uses.
\<close>

lemma config_parameters:
  assumes "to_pool_fees_config pr = Ok c" and "length (pp_base_fee pr) = BASE_FEE_PARAMETERS_SPACE"
  shows "to_pool_fee_parameters c =
    Ok (pr\<lparr>pp_base_fee := take 27 (pp_base_fee pr) @ [0, 0, 0]\<rparr>)"
proof -
  obtain info where i: "base_fee_parameters_to_base_fee_info (pp_base_fee pr) = Ok info"
    and c: "fc_base_fee c = info"
      "fc_dynamic_fee c = (case pp_dynamic_fee pr of Some d \<Rightarrow> to_dynamic_fee_config d
         | None \<Rightarrow> dynamic_fee_config_default)"
    using assms(1) by (auto simp: to_pool_fees_config_def rbind_Ok_iff)
  show ?thesis
    using params_info_params(1) [OF assms(2) i]
    by (auto simp: to_pool_fee_parameters_def c to_dynamic_fee_config_def
        dynamic_fee_config_default_def Let_def split: option.splits)
qed

lemma handle_create_static_config_Ok:
  assumes "handle_create_static_config clk index params = Ok c"
  shows "MIN_SQRT_PRICE \<le> cf_sqrt_min_price c" and "cf_sqrt_max_price c \<le> MAX_SQRT_PRICE"
    and "cf_sqrt_min_price c < cf_sqrt_max_price c" and "get_config_type c = Ok Static"
    and "\<exists>m t. collect_fee_mode_of_u8 (cf_collect_fee_mode c) = Some m \<and>
      activation_type_of_u8 (cf_activation_type c) = Some t \<and>
      pool_fee_parameters_validate (st_pool_fees params) m t = Ok () \<and>
      to_pool_fees_config (st_pool_fees params) = Ok (cf_pool_fees c)"
  using assms
  by (auto simp: handle_create_static_config_def init_static_config_def ok_iffs
      get_config_type_def config_type_of_u8_def simp del: activation_type_of_u8.simps)

end
