(* ===== verification/Liquidity_Handlers.thy ===== *)
theory Liquidity_Handlers
  imports Swap_Handler
begin

text \<open>
  The instructions of a position: creating and closing it, adding and removing liquidity, claiming
  fees, locking for ever and splitting.

  An instruction of a position runs only when the constraints on its accounts hold: the position
  belongs to the pool, and the owner that signs holds the NFT of the position. They are checked
  by \<open>position_constraints\<close>, which fails with an error of the account framework.
\<close>

record position_accounts =
  pa_pool_key :: pubkey
  pa_nft_account_mint :: pubkey
  pa_nft_account_amount :: u64
  pa_nft_account_authority :: pubkey
  pa_owner :: pubkey

definition position_constraints :: "position_accounts \<Rightarrow> position \<Rightarrow> unit result" where
  "position_constraints acc p =
     (if ps_pool p = pa_pool_key acc \<and> pa_nft_account_mint acc = ps_nft_mint p \<and>
         pa_nft_account_amount acc = 1 \<and> pa_nft_account_authority acc = pa_owner acc
      then Ok () else Inl Foreign)"

record liquidity_context =
  lc_clock :: clock
  lc_accounts :: position_accounts
  lc_token_a :: token
  lc_token_b :: token

record add_liquidity_parameters =
  al_liquidity_delta :: u128
  al_token_a_amount_threshold :: u64
  al_token_b_amount_threshold :: u64

record remove_liquidity_parameters =
  rm_liquidity_delta :: u128
  rm_token_a_amount_threshold :: u64
  rm_token_b_amount_threshold :: u64

text \<open>What a change of liquidity reports: what the user pays or receives.\<close>

record liquidity_change =
  ch_liquidity_delta :: u128
  ch_token_a_amount :: u64
  ch_token_b_amount :: u64
  ch_transfer_fee_included_token_a_amount :: u64
  ch_transfer_fee_included_token_b_amount :: u64

section \<open>Adding and removing liquidity\<close>

definition handle_add_liquidity ::
  "liquidity_context \<Rightarrow> pool \<Rightarrow> vaults \<Rightarrow> position \<Rightarrow> add_liquidity_parameters \<Rightarrow>
   (pool \<times> vaults \<times> position \<times> liquidity_change) result" where
  "handle_add_liquidity ctx q v p params =
     rbind (position_constraints (lc_accounts ctx) p) (\<lambda>_.
     require (0 < al_liquidity_delta params) InvalidParameters
       (rbind (get_pool_access_validator (lc_clock ctx) q) (\<lambda>access_validator.
        require (can_add_liquidity access_validator) PoolDisabled
          (rbind (position_update_rewards p q (unix_timestamp (lc_clock ctx))) (\<lambda>(q, p).
           rbind (get_amounts_for_modify_liquidity q (al_liquidity_delta params) Up)
             (\<lambda>(token_a_amount, token_b_amount).
           require (0 < token_a_amount \<or> 0 < token_b_amount) AmountIsZero
             (rbind (apply_add_liquidity q p (al_liquidity_delta params)) (\<lambda>(q, p).
              rbind (calculate_transfer_fee_included_amount (lc_token_a ctx) token_a_amount)
                (\<lambda>total_a.
              rbind (calculate_transfer_fee_included_amount (lc_token_b ctx) token_b_amount)
                (\<lambda>total_b.
              require (xi_amount total_a \<le> al_token_a_amount_threshold params) ExceededSlippage
                (require (xi_amount total_b \<le> al_token_b_amount_threshold params) ExceededSlippage
                  (rbind (transfer_from_user (lc_token_a ctx) (va_token_a v) (xi_amount total_a))
                    (\<lambda>a.
                   rbind (transfer_from_user (lc_token_b ctx) (va_token_b v) (xi_amount total_b))
                    (\<lambda>b.
                   rbind (get_reserves_amount q) (\<lambda>_.
                   Ok (q, \<lparr> va_token_a = a, va_token_b = b \<rparr>, p,
                       \<lparr> ch_liquidity_delta = al_liquidity_delta params,
                         ch_token_a_amount = token_a_amount, ch_token_b_amount = token_b_amount,
                         ch_transfer_fee_included_token_a_amount = xi_amount total_a,
                         ch_transfer_fee_included_token_b_amount = xi_amount total_b \<rparr>))))))))))))))))"

text \<open>The delta is an option: no delta removes everything that is unlocked.\<close>

definition handle_remove_liquidity ::
  "liquidity_context \<Rightarrow> pool \<Rightarrow> vaults \<Rightarrow> position \<Rightarrow> u128 option \<Rightarrow> u64 \<Rightarrow> u64 \<Rightarrow>
   (pool \<times> vaults \<times> position \<times> liquidity_change) result" where
  "handle_remove_liquidity ctx q v p liquidity_delta token_a_amount_threshold
     token_b_amount_threshold =
     rbind (position_constraints (lc_accounts ctx) p) (\<lambda>_.
     rbind (get_pool_access_validator (lc_clock ctx) q) (\<lambda>access_validator.
     require (can_remove_liquidity access_validator) PoolDisabled
       (let delta = (case liquidity_delta of Some d \<Rightarrow> d | None \<Rightarrow> ps_unlocked_liquidity p) in
        require (delta \<le> ps_unlocked_liquidity p \<and> 0 < delta) InsufficientLiquidity
          (rbind (position_update_rewards p q (unix_timestamp (lc_clock ctx))) (\<lambda>(q, p).
           rbind (get_amounts_for_modify_liquidity q delta Down)
             (\<lambda>(token_a_amount, token_b_amount).
           require (0 < token_a_amount \<or> 0 < token_b_amount) AmountIsZero
             (rbind (calculate_transfer_fee_excluded_amount (lc_token_a ctx) token_a_amount)
               (\<lambda>excluded_a.
              rbind (calculate_transfer_fee_excluded_amount (lc_token_b ctx) token_b_amount)
                (\<lambda>excluded_b.
              require (token_a_amount_threshold \<le> xe_amount excluded_a) ExceededSlippage
                (require (token_b_amount_threshold \<le> xe_amount excluded_b) ExceededSlippage
                  (rbind (apply_remove_liquidity q p delta) (\<lambda>(q, p).
                   rbind (transfer_from_pool (lc_token_a ctx) (va_token_a v) token_a_amount) (\<lambda>a.
                   rbind (transfer_from_pool (lc_token_b ctx) (va_token_b v) token_b_amount) (\<lambda>b.
                   rbind (get_reserves_amount q) (\<lambda>_.
                   Ok (q, \<lparr> va_token_a = a, va_token_b = b \<rparr>, p,
                       \<lparr> ch_liquidity_delta = delta,
                         ch_token_a_amount = xe_amount excluded_a,
                         ch_token_b_amount = xe_amount excluded_b,
                         ch_transfer_fee_included_token_a_amount = token_a_amount,
                         ch_transfer_fee_included_token_b_amount = token_b_amount \<rparr>))))))))))))))))"

text \<open>
  \<^verbatim>\<open>lib.rs\<close>: \<^verbatim>\<open>remove_liquidity\<close> and \<^verbatim>\<open>remove_all_liquidity\<close> call the handler with and without a
  delta.
\<close>

definition remove_liquidity ::
  "liquidity_context \<Rightarrow> pool \<Rightarrow> vaults \<Rightarrow> position \<Rightarrow> remove_liquidity_parameters \<Rightarrow>
   (pool \<times> vaults \<times> position \<times> liquidity_change) result" where
  "remove_liquidity ctx q v p params =
     handle_remove_liquidity ctx q v p (Some (rm_liquidity_delta params))
       (rm_token_a_amount_threshold params) (rm_token_b_amount_threshold params)"

definition remove_all_liquidity ::
  "liquidity_context \<Rightarrow> pool \<Rightarrow> vaults \<Rightarrow> position \<Rightarrow> u64 \<Rightarrow> u64 \<Rightarrow>
   (pool \<times> vaults \<times> position \<times> liquidity_change) result" where
  "remove_all_liquidity ctx q v p token_a_amount_threshold token_b_amount_threshold =
     handle_remove_liquidity ctx q v p None token_a_amount_threshold token_b_amount_threshold"

section \<open>Claiming the fees\<close>

definition handle_claim_position_fee ::
  "liquidity_context \<Rightarrow> pool \<Rightarrow> vaults \<Rightarrow> position \<Rightarrow> (vaults \<times> position \<times> u64 \<times> u64) result" where
  "handle_claim_position_fee ctx q v p =
     rbind (position_constraints (lc_accounts ctx) p) (\<lambda>_.
     rbind (update_fee p (pl_fee_a_per_liquidity q) (pl_fee_b_per_liquidity q)) (\<lambda>p.
     let fee_a_pending = ps_fee_a_pending p; fee_b_pending = ps_fee_b_pending p in
     rbind (accumulate_claimed_fee (ps_metrics p) fee_a_pending fee_b_pending) (\<lambda>m.
     rbind (if 0 < fee_a_pending
            then transfer_from_pool (lc_token_a ctx) (va_token_a v) fee_a_pending
            else Ok (va_token_a v)) (\<lambda>a.
     rbind (if 0 < fee_b_pending
            then transfer_from_pool (lc_token_b ctx) (va_token_b v) fee_b_pending
            else Ok (va_token_b v)) (\<lambda>b.
     Ok (\<lparr> va_token_a = a, va_token_b = b \<rparr>, reset_pending_fee (p\<lparr>ps_metrics := m\<rparr>),
         fee_a_pending, fee_b_pending))))))"

section \<open>Creating and closing a position\<close>

text \<open>The mint of the NFT, its burning and the closing of its accounts are calls to the token program:
  \<open>nft\<close> is their result.\<close>

definition handle_create_position ::
  "clock \<Rightarrow> unit result \<Rightarrow> pool \<Rightarrow> pubkey \<Rightarrow> pubkey \<Rightarrow> (pool \<times> position) result" where
  "handle_create_position clk nft q pool_key position_nft_mint =
     rbind (get_pool_access_validator clk q) (\<lambda>access_validator.
     require (can_create_position access_validator) PoolDisabled
       (let (q, p) = position_initialize q pool_key position_nft_mint 0 in
        rbind nft (\<lambda>_. Ok (q, p))))"

definition handle_close_position ::
  "position_accounts \<Rightarrow> unit result \<Rightarrow> pool \<Rightarrow> position \<Rightarrow> pool result" where
  "handle_close_position acc nft q p =
     rbind (position_constraints acc p) (\<lambda>_.
     rbind (position_is_empty p) (\<lambda>empty.
     require empty PositionIsNotEmpty
       (let q = q\<lparr>pl_metrics := reduce_position (pl_metrics q)\<rparr> in
        rbind nft (\<lambda>_. Ok q))))"

section \<open>Locking for ever\<close>

definition handle_permanent_lock_position ::
  "clock \<Rightarrow> position_accounts \<Rightarrow> pool \<Rightarrow> position \<Rightarrow> u128 \<Rightarrow> (pool \<times> position) result" where
  "handle_permanent_lock_position clk acc q p liquidity =
     rbind (position_constraints acc p) (\<lambda>_.
     rbind (get_pool_access_validator clk q) (\<lambda>access_validator.
     require (can_lock_position access_validator) PoolDisabled
       (rbind (permanent_lock_liquidity p liquidity) (\<lambda>p.
        rbind (accumulate_permanent_locked_liquidity q liquidity) (\<lambda>q.
        Ok (q, p))))))"

section \<open>Splitting a position\<close>

record split_position_parameters =
  s1_unlocked_liquidity_percentage :: u8
  s1_permanent_locked_liquidity_percentage :: u8
  s1_fee_a_percentage :: u8
  s1_fee_b_percentage :: u8
  s1_reward_0_percentage :: u8
  s1_reward_1_percentage :: u8

record split_position_parameters2 =
  s2_unlocked_liquidity_numerator :: u32
  s2_permanent_locked_liquidity_numerator :: u32
  s2_fee_a_numerator :: u32
  s2_fee_b_numerator :: u32
  s2_reward_0_numerator :: u32
  s2_reward_1_numerator :: u32

definition split_position_parameters_validate :: "split_position_parameters \<Rightarrow> unit result" where
  "split_position_parameters_validate self =
     require (s1_permanent_locked_liquidity_percentage self \<le> 100) InvalidSplitPositionParameters
     (require (s1_unlocked_liquidity_percentage self \<le> 100) InvalidSplitPositionParameters
     (require (s1_fee_a_percentage self \<le> 100) InvalidSplitPositionParameters
     (require (s1_fee_b_percentage self \<le> 100) InvalidSplitPositionParameters
     (require (s1_reward_0_percentage self \<le> 100) InvalidSplitPositionParameters
     (require (s1_reward_1_percentage self \<le> 100) InvalidSplitPositionParameters
     (require (0 < s1_unlocked_liquidity_percentage self \<or>
               0 < s1_permanent_locked_liquidity_percentage self \<or>
               0 < s1_fee_a_percentage self \<or> 0 < s1_fee_b_percentage self \<or>
               0 < s1_reward_0_percentage self \<or> 0 < s1_reward_1_percentage self)
        InvalidSplitPositionParameters (Ok ())))))))"

definition split_position_parameters2_validate :: "split_position_parameters2 \<Rightarrow> unit result" where
  "split_position_parameters2_validate self =
     require (s2_unlocked_liquidity_numerator self \<le> SPLIT_POSITION_DENOMINATOR)
       InvalidSplitPositionParameters
     (require (s2_permanent_locked_liquidity_numerator self \<le> SPLIT_POSITION_DENOMINATOR)
       InvalidSplitPositionParameters
     (require (s2_fee_a_numerator self \<le> SPLIT_POSITION_DENOMINATOR)
       InvalidSplitPositionParameters
     (require (s2_fee_b_numerator self \<le> SPLIT_POSITION_DENOMINATOR)
       InvalidSplitPositionParameters
     (require (s2_reward_0_numerator self \<le> SPLIT_POSITION_DENOMINATOR)
       InvalidSplitPositionParameters
     (require (s2_reward_1_numerator self \<le> SPLIT_POSITION_DENOMINATOR)
       InvalidSplitPositionParameters
     (require (0 < s2_unlocked_liquidity_numerator self \<or>
               0 < s2_permanent_locked_liquidity_numerator self \<or>
               0 < s2_fee_a_numerator self \<or> 0 < s2_fee_b_numerator self \<or>
               0 < s2_reward_0_numerator self \<or> 0 < s2_reward_1_numerator self)
        InvalidSplitPositionParameters (Ok ())))))))"

definition get_split_position_parameters2 ::
  "split_position_parameters \<Rightarrow> split_position_parameters2 result" where
  "get_split_position_parameters2 self =
     rbind (split_position_parameters_validate self) (\<lambda>_.
     rbind (safe_div SPLIT_POSITION_DENOMINATOR 100) (\<lambda>numerator_factor.
     rbind (safe_mul numerator_factor (ucast (s1_unlocked_liquidity_percentage self))) (\<lambda>u.
     rbind (safe_mul numerator_factor (ucast (s1_permanent_locked_liquidity_percentage self))) (\<lambda>p.
     rbind (safe_mul numerator_factor (ucast (s1_fee_a_percentage self))) (\<lambda>fa.
     rbind (safe_mul numerator_factor (ucast (s1_fee_b_percentage self))) (\<lambda>fb.
     rbind (safe_mul numerator_factor (ucast (s1_reward_0_percentage self))) (\<lambda>r0.
     rbind (safe_mul numerator_factor (ucast (s1_reward_1_percentage self))) (\<lambda>r1.
     Ok \<lparr> s2_unlocked_liquidity_numerator = u, s2_permanent_locked_liquidity_numerator = p,
          s2_fee_a_numerator = fa, s2_fee_b_numerator = fb,
          s2_reward_0_numerator = r0, s2_reward_1_numerator = r1 \<rparr>))))))))"

definition handle_split_position2 ::
  "clock \<Rightarrow> pool \<Rightarrow> position \<Rightarrow> position \<Rightarrow> split_position_parameters2 \<Rightarrow>
   (pool \<times> position \<times> position \<times> split_amount_info) result" where
  "handle_split_position2 clk q first_position second_position params =
     rbind (get_pool_access_validator clk q) (\<lambda>access_validator.
     require (can_split_position access_validator) PoolDisabled
       (rbind (split_position_parameters2_validate params) (\<lambda>_.
        require (ps_vested_liquidity first_position = 0) UnsupportPositionHasVestingLock
          (rbind (pool_update_rewards q (unix_timestamp clk)) (\<lambda>q.
           rbind (update_position_reward first_position q) (\<lambda>first_position.
           rbind (update_position_reward second_position q) (\<lambda>second_position.
           rbind (apply_split_position q first_position second_position
             (s2_unlocked_liquidity_numerator params)
             (s2_permanent_locked_liquidity_numerator params)
             (s2_fee_a_numerator params) (s2_fee_b_numerator params)
             (s2_reward_0_numerator params) (s2_reward_1_numerator params))
             (\<lambda>(first_position, second_position, info).
           rbind (get_total_liquidity first_position) (\<lambda>_.
           rbind (get_total_liquidity second_position) (\<lambda>_.
           Ok (q, first_position, second_position, info)))))))))))"

text \<open>
  The constraints on the accounts, where both owners sign and \<open>same\<close> is whether the two positions are
  one account, which is checked after the pool of the first one; and the two entry points of
  \<^verbatim>\<open>lib.rs\<close>.
\<close>

definition split_position_constraints ::
  "position_accounts \<Rightarrow> position_accounts \<Rightarrow> bool \<Rightarrow> position \<Rightarrow> position \<Rightarrow> unit result" where
  "split_position_constraints first_acc second_acc same first_position second_position =
     (if ps_pool first_position \<noteq> pa_pool_key first_acc then Inl Foreign
      else
        require (\<not> same) SamePosition
          (rbind (position_constraints first_acc first_position) (\<lambda>_.
           position_constraints second_acc second_position)))"

definition split_position ::
  "clock \<Rightarrow> position_accounts \<Rightarrow> position_accounts \<Rightarrow> bool \<Rightarrow> pool \<Rightarrow> position \<Rightarrow> position \<Rightarrow>
   split_position_parameters \<Rightarrow> (pool \<times> position \<times> position \<times> split_amount_info) result" where
  "split_position clk first_acc second_acc same q first_position second_position params =
     rbind (split_position_constraints first_acc second_acc same first_position second_position)
       (\<lambda>_.
     rbind (get_split_position_parameters2 params) (\<lambda>params2.
     handle_split_position2 clk q first_position second_position params2))"

definition split_position2 ::
  "clock \<Rightarrow> position_accounts \<Rightarrow> position_accounts \<Rightarrow> bool \<Rightarrow> pool \<Rightarrow> position \<Rightarrow> position \<Rightarrow>
   u32 \<Rightarrow> (pool \<times> position \<times> position \<times> split_amount_info) result" where
  "split_position2 clk first_acc second_acc same q first_position second_position numerator =
     rbind (split_position_constraints first_acc second_acc same first_position second_position)
       (\<lambda>_.
     handle_split_position2 clk q first_position second_position
       \<lparr> s2_unlocked_liquidity_numerator = numerator,
         s2_permanent_locked_liquidity_numerator = numerator,
         s2_fee_a_numerator = numerator, s2_fee_b_numerator = numerator,
         s2_reward_0_numerator = numerator, s2_reward_1_numerator = numerator \<rparr>)"

end
