(* ===== verification/Token_Mint.thy ===== *)
theory Token_Mint
  imports Amm_Prelude
begin

text \<open>
  Which mints the program accepts: \<^verbatim>\<open>is_supported_mint\<close> and the token badges of \<^verbatim>\<open>utils/token.rs\<close> and
  \<^verbatim>\<open>state/token_badge.rs\<close>. A mint account is what the program reads of it: its owner, whether it is
  the native mint of Token-2022, and its extensions, whose decoding may fail.
\<close>

datatype extension_type =
  TransferFeeConfig | MetadataPointer | TokenMetadata
  | TransferHook "(pubkey option \<times> pubkey option) option"
  | OtherExtension

record mint_account =
  mi_key :: pubkey
  mi_owner_is_token_program :: bool
  mi_is_native_mint_2022 :: bool
  mi_extensions :: "extension_type list result"

datatype token_program_flags = TokenProgram | TokenProgram2022

definition u8_of_token_program_flags :: "token_program_flags \<Rightarrow> u8" where
  "u8_of_token_program_flags f = (case f of TokenProgram \<Rightarrow> 0 | TokenProgram2022 \<Rightarrow> 1)"

definition get_token_program_flags :: "mint_account \<Rightarrow> token_program_flags" where
  "get_token_program_flags token_mint =
     (if mi_owner_is_token_program token_mint then TokenProgram else TokenProgram2022)"

text \<open>The loop over the extensions, which returns early on one that is not supported.\<close>

fun supported_extensions :: "extension_type list \<Rightarrow> bool" where
  "supported_extensions [] = True"
| "supported_extensions (e # es) =
     (case e of
        TransferFeeConfig \<Rightarrow> supported_extensions es
      | MetadataPointer \<Rightarrow> supported_extensions es
      | TokenMetadata \<Rightarrow> supported_extensions es
      | TransferHook hook \<Rightarrow>
          (case hook of
             Some (transfer_hook_program_id, transfer_hook_authority) \<Rightarrow>
               if transfer_hook_program_id \<noteq> None \<or> transfer_hook_authority \<noteq> None then False
               else supported_extensions es
           | None \<Rightarrow> False)
      | OtherExtension \<Rightarrow> False)"

definition is_supported_mint :: "mint_account \<Rightarrow> bool result" where
  "is_supported_mint mint =
     (if mi_owner_is_token_program mint then Ok True
      else if mi_is_native_mint_2022 mint then Err UnsupportNativeMintToken2022
      else rbind (mi_extensions mint) (\<lambda>extensions. Ok (supported_extensions extensions)))"

record token_badge =
  tb_token_mint :: pubkey

definition token_badge_initialize :: "pubkey \<Rightarrow> token_badge" where
  "token_badge_initialize token_mint = \<lparr> tb_token_mint = token_mint \<rparr>"

definition is_token_badge_initialized :: "pubkey \<Rightarrow> token_badge \<Rightarrow> bool" where
  "is_token_badge_initialized mint badge \<longleftrightarrow> tb_token_mint badge = mint"

text \<open>\<^verbatim>\<open>handle_create_token_badge\<close>: a badge is for a mint that is not supported without it.\<close>

definition handle_create_token_badge :: "mint_account \<Rightarrow> token_badge result" where
  "handle_create_token_badge mint =
     rbind (is_supported_mint mint) (\<lambda>supported.
     require (\<not> supported) CannotCreateTokenBadgeOnSupportedMint
       (Ok (token_badge_initialize (mi_key mint))))"

section \<open>No transfer hook without a badge\<close>

definition harmless_extension :: "extension_type \<Rightarrow> bool" where
  "harmless_extension e \<longleftrightarrow>
     e \<in> {TransferFeeConfig, MetadataPointer, TokenMetadata, TransferHook (Some (None, None))}"

lemma supported_extensions_iff: "supported_extensions es \<longleftrightarrow> (\<forall>e\<in>set es. harmless_extension e)"
  by (induction es) (auto simp: harmless_extension_def split: extension_type.splits option.splits)

end
