(* ===== verification/Reward_Handlers.thy ===== *)
theory Reward_Handlers
  imports Liquidity_Handlers Operator Token_Mint
begin

text \<open>
  The instructions on the rewards of a pool: claiming (\<^verbatim>\<open>ix_claim_reward.rs\<close>), funding
  (\<^verbatim>\<open>ix_fund_reward.rs\<close>), withdrawing what no liquidity earned (\<^verbatim>\<open>ix_withdraw_ineligible_reward.rs\<close>),
  and the three that edit a reward (\<^verbatim>\<open>operator/ix_initialize_reward.rs\<close>,
  \<^verbatim>\<open>ix_update_reward_duration.rs\<close>, \<^verbatim>\<open>ix_update_reward_funder.rs\<close>).

  The vault of the reward is its key, whether it is frozen and its balance, which is returned.
\<close>

record reward_vault =
  rv_key :: pubkey
  rv_is_frozen :: bool
  rv_amount :: u64

text \<open>The optional accounts that an instruction reads at the end of its list.\<close>

datatype remaining_account =
  BadgeAccount token_badge | OperatorAccount operator | OtherAccount

section \<open>Claiming\<close>

definition claim_reward_validate :: "pool \<Rightarrow> reward_vault \<Rightarrow> nat \<Rightarrow> unit result" where
  "claim_reward_validate q vault reward_index =
     require (reward_index < NUM_REWARDS) InvalidRewardIndex
       (rbind (arr2_get (pl_reward_infos q) reward_index) (\<lambda>info.
        require (reward_initialized info) RewardUninitialized
          (require (rw_vault info = rv_key vault) InvalidRewardVault (Ok ()))))"

definition handle_claim_reward ::
  "clock \<Rightarrow> position_accounts \<Rightarrow> token \<Rightarrow> pool \<Rightarrow> reward_vault \<Rightarrow> position \<Rightarrow> u8 \<Rightarrow> u8 \<Rightarrow>
   (pool \<times> reward_vault \<times> position \<times> u64) result" where
  "handle_claim_reward clk acc reward_mint q vault p reward_index skip_reward =
     rbind (position_constraints acc p) (\<lambda>_.
     rbind (claim_reward_validate q vault (unat reward_index)) (\<lambda>_.
     rbind (position_update_rewards p q (unix_timestamp clk)) (\<lambda>(q, p).
     rbind (claim_reward p (unat reward_index)) (\<lambda>(p, total_reward).
     if 0 < total_reward then
       if rv_is_frozen vault then
         require (skip_reward = 1) RewardVaultFrozenSkipRequired (Ok (q, vault, p, total_reward))
       else
         rbind (transfer_from_pool reward_mint (rv_amount vault) total_reward) (\<lambda>amount.
         Ok (q, vault\<lparr>rv_amount := amount\<rparr>, p, total_reward))
     else Ok (q, vault, p, total_reward)))))"

section \<open>Funding\<close>

definition fund_reward_validate ::
  "pool \<Rightarrow> reward_vault \<Rightarrow> pubkey \<Rightarrow> nat \<Rightarrow> unit result" where
  "fund_reward_validate q vault funder reward_index =
     require (reward_index < NUM_REWARDS) InvalidRewardIndex
       (rbind (arr2_get (pl_reward_infos q) reward_index) (\<lambda>info.
        require (reward_initialized info) RewardUninitialized
          (require (rw_vault info = rv_key vault) InvalidRewardVault
            (require (is_valid_funder info funder) InvalidAdmin (Ok ())))))"

text \<open>
  The amount that is funded, and the reward with the ineligible seconds carried forward: with
  \<^verbatim>\<open>carry_forward\<close> what no liquidity earned is added, without it there must be none.
\<close>

definition funding_total :: "reward_info \<Rightarrow> u64 \<Rightarrow> bool \<Rightarrow> (reward_info \<times> u64) result" where
  "funding_total info amount_in carry_forward =
     (if carry_forward then
        rbind (safe_mul_shr_cast (rw_reward_rate info)
          (ucast (rw_cumulative_seconds_with_empty_liquidity_reward info)) REWARD_RATE_SCALE)
          (\<lambda>carry_forward_ineligible_reward.
        rbind (safe_add amount_in carry_forward_ineligible_reward) (\<lambda>total_amount.
        Ok (info\<lparr>rw_cumulative_seconds_with_empty_liquidity_reward := 0\<rparr>, total_amount)))
      else
        require (rw_cumulative_seconds_with_empty_liquidity_reward info = 0)
          MustWithdrawnIneligibleReward (Ok (info, amount_in)))"

definition handle_fund_reward ::
  "clock \<Rightarrow> token \<Rightarrow> pubkey \<Rightarrow> pool \<Rightarrow> reward_vault \<Rightarrow> u8 \<Rightarrow> u64 \<Rightarrow> bool \<Rightarrow>
   (pool \<times> reward_vault) result" where
  "handle_fund_reward clk reward_mint funder q vault reward_index amount carry_forward =
     rbind (fund_reward_validate q vault funder (unat reward_index)) (\<lambda>_.
     rbind (calculate_transfer_fee_excluded_amount reward_mint amount) (\<lambda>excluded.
     require (0 < xe_amount excluded) AmountIsZero
       (rbind (pool_update_rewards q (unix_timestamp clk)) (\<lambda>q.
        rbind (arr2_get (pl_reward_infos q) (unat reward_index)) (\<lambda>info.
        rbind (funding_total info (xe_amount excluded) carry_forward) (\<lambda>(info, total_amount).
        rbind (update_rate_after_funding info (unix_timestamp clk) total_amount) (\<lambda>info.
        rbind (transfer_from_user reward_mint (rv_amount vault) amount) (\<lambda>balance.
        Ok (q\<lparr>pl_reward_infos := arr2_set (pl_reward_infos q) (unat reward_index) info\<rparr>,
            vault\<lparr>rv_amount := balance\<rparr>)))))))))"

section \<open>Withdrawing\<close>

definition withdraw_ineligible_reward_validate ::
  "clock \<Rightarrow> pool \<Rightarrow> reward_vault \<Rightarrow> pubkey \<Rightarrow> nat \<Rightarrow> unit result" where
  "withdraw_ineligible_reward_validate clk q vault funder reward_index =
     require (reward_index < NUM_REWARDS) InvalidRewardIndex
       (rbind (arr2_get (pl_reward_infos q) reward_index) (\<lambda>info.
        require (reward_initialized info) RewardUninitialized
          (require (rw_vault info = rv_key vault) InvalidRewardVault
            (require (is_valid_funder info funder) InvalidFunder
              (require (rw_reward_duration_end info < unix_timestamp clk) RewardNotEnded
                (Ok ()))))))"

definition handle_withdraw_ineligible_reward ::
  "clock \<Rightarrow> token \<Rightarrow> pubkey \<Rightarrow> pool \<Rightarrow> reward_vault \<Rightarrow> u8 \<Rightarrow> (pool \<times> reward_vault \<times> u64) result" where
  "handle_withdraw_ineligible_reward clk reward_mint funder q vault reward_index =
     rbind (withdraw_ineligible_reward_validate clk q vault funder (unat reward_index)) (\<lambda>_.
     rbind (pool_update_rewards q (unix_timestamp clk)) (\<lambda>q.
     rbind (claim_ineligible_reward q (unat reward_index)) (\<lambda>(q, ineligible_reward).
     if 0 < ineligible_reward then
       rbind (transfer_from_pool reward_mint (rv_amount vault) ineligible_reward) (\<lambda>balance.
       Ok (q, vault\<lparr>rv_amount := balance\<rparr>, ineligible_reward))
     else Ok (q, vault, ineligible_reward))))"

section \<open>Editing a reward\<close>

text \<open>
  The creator of the pool edits reward 0; anyone else needs an operator account with the permission
  among the remaining accounts, at the position that the instruction expects.
\<close>

definition check_reward_editor ::
  "pool \<Rightarrow> nat \<Rightarrow> pubkey \<Rightarrow> remaining_account list \<Rightarrow> nat \<Rightarrow> operator_permission \<Rightarrow> unit result" where
  "check_reward_editor q reward_index signer remaining_accounts i permission =
     (if \<not> check_pool_creator_to_edit_reward q reward_index signer then
        if length remaining_accounts \<le> i then Err MissingOperatorAccount
        else
          case remaining_accounts ! i of
            OperatorAccount oper \<Rightarrow>
              require (op_whitelisted_address oper = signer \<and> is_permission_allow oper permission)
                InvalidAuthority (Ok ())
          | _ \<Rightarrow> Inl Foreign
      else Ok ())"

text \<open>
  A mint that is not supported by itself needs a badge, the remaining account with the index \<open>i\<close>.
\<close>

definition check_mint :: "mint_account \<Rightarrow> remaining_account list \<Rightarrow> nat \<Rightarrow> unit result" where
  "check_mint mint remaining_accounts i =
     rbind (is_supported_mint mint) (\<lambda>supported.
     if \<not> supported then
       if length remaining_accounts \<le> i then Err InvalidTokenBadge
       else
         case remaining_accounts ! i of
           BadgeAccount badge \<Rightarrow>
             require (is_token_badge_initialized (mi_key mint) badge) InvalidTokenBadge (Ok ())
         | _ \<Rightarrow> Inl Foreign
     else Ok ())"

definition initialize_reward_validate :: "pool \<Rightarrow> nat \<Rightarrow> u64 \<Rightarrow> unit result" where
  "initialize_reward_validate q reward_index reward_duration =
     require (reward_index < NUM_REWARDS) InvalidRewardIndex
       (require (MIN_REWARD_DURATION \<le> reward_duration \<and> reward_duration \<le> MAX_REWARD_DURATION)
         InvalidRewardDuration
         (rbind (arr2_get (pl_reward_infos q) reward_index) (\<lambda>info.
          require (\<not> reward_initialized info) RewardInitialized (Ok ()))))"

definition handle_initialize_reward ::
  "mint_account \<Rightarrow> remaining_account list \<Rightarrow> pubkey \<Rightarrow> pubkey \<Rightarrow> pool \<Rightarrow> u8 \<Rightarrow> u64 \<Rightarrow> pubkey \<Rightarrow>
   pool result" where
  "handle_initialize_reward reward_mint remaining_accounts signer vault_key q reward_index
     reward_duration funder =
     rbind (check_mint reward_mint remaining_accounts 0) (\<lambda>_.
     rbind (initialize_reward_validate q (unat reward_index) reward_duration) (\<lambda>_.
     rbind (check_reward_editor q (unat reward_index) signer remaining_accounts 1 InitializeReward)
       (\<lambda>_.
     rbind (arr2_get (pl_reward_infos q) (unat reward_index)) (\<lambda>info.
     Ok (q\<lparr>pl_reward_infos := arr2_set (pl_reward_infos q) (unat reward_index)
       (init_reward info (mi_key reward_mint) vault_key funder reward_duration
         (u8_of_token_program_flags (get_token_program_flags reward_mint)))\<rparr>)))))"

definition update_reward_duration_validate ::
  "clock \<Rightarrow> pool \<Rightarrow> nat \<Rightarrow> u64 \<Rightarrow> unit result" where
  "update_reward_duration_validate clk q reward_index new_reward_duration =
     require (reward_index < NUM_REWARDS) InvalidRewardIndex
       (require (MIN_REWARD_DURATION \<le> new_reward_duration \<and>
                 new_reward_duration \<le> MAX_REWARD_DURATION) InvalidRewardDuration
         (rbind (arr2_get (pl_reward_infos q) reward_index) (\<lambda>info.
          require (reward_initialized info) RewardInitialized
            (require (rw_reward_duration info \<noteq> new_reward_duration) IdenticalRewardDuration
              (require (rw_reward_duration_end info < unix_timestamp clk) RewardCampaignInProgress
                (Ok ()))))))"

definition handle_update_reward_duration ::
  "clock \<Rightarrow> remaining_account list \<Rightarrow> pubkey \<Rightarrow> pool \<Rightarrow> u8 \<Rightarrow> u64 \<Rightarrow> pool result" where
  "handle_update_reward_duration clk remaining_accounts signer q reward_index new_reward_duration =
     rbind (update_reward_duration_validate clk q (unat reward_index) new_reward_duration) (\<lambda>_.
     rbind (check_reward_editor q (unat reward_index) signer remaining_accounts 0
       UpdateRewardDuration) (\<lambda>_.
     rbind (arr2_get (pl_reward_infos q) (unat reward_index)) (\<lambda>info.
     Ok (q\<lparr>pl_reward_infos := arr2_set (pl_reward_infos q) (unat reward_index)
       (info\<lparr>rw_reward_duration := new_reward_duration\<rparr>)\<rparr>))))"

definition update_reward_funder_validate :: "pool \<Rightarrow> nat \<Rightarrow> pubkey \<Rightarrow> unit result" where
  "update_reward_funder_validate q reward_index new_funder =
     require (reward_index < NUM_REWARDS) InvalidRewardIndex
       (rbind (arr2_get (pl_reward_infos q) reward_index) (\<lambda>info.
        require (reward_initialized info) RewardUninitialized
          (require (rw_funder info \<noteq> new_funder) IdenticalFunder (Ok ()))))"

definition handle_update_reward_funder ::
  "remaining_account list \<Rightarrow> pubkey \<Rightarrow> pool \<Rightarrow> u8 \<Rightarrow> pubkey \<Rightarrow> pool result" where
  "handle_update_reward_funder remaining_accounts signer q reward_index new_funder =
     rbind (update_reward_funder_validate q (unat reward_index) new_funder) (\<lambda>_.
     rbind (check_reward_editor q (unat reward_index) signer remaining_accounts 0
       UpdateRewardFunder) (\<lambda>_.
     rbind (arr2_get (pl_reward_infos q) (unat reward_index)) (\<lambda>info.
     Ok (q\<lparr>pl_reward_infos := arr2_set (pl_reward_infos q) (unat reward_index)
       (info\<lparr>rw_funder := new_funder\<rparr>)\<rparr>))))"

end
