(* ===== verification/Init_Pool.thy ===== *)
theory Init_Pool
  imports Config Reward_Handlers
begin

text \<open>
  Creating a pool with its first position: \<^verbatim>\<open>instructions/initialize_pool\<close>. A pool takes its
  parameters from a static config, from the creator (customizable), or from the creator with the
  authority of a dynamic config.

  The accounts that are created are their keys, the mints are what the program reads of them, and the
  token programs are given by \<open>token\<close>. The new vaults are empty. The mint of the position NFT is the
  result \<open>ip_nft\<close> of calls to the token program.
\<close>

record init_pool_context =
  ip_clock :: clock
  ip_creator :: pubkey
  ip_payer :: pubkey
  ip_pool_key :: pubkey
  ip_position_nft_mint :: pubkey
  ip_token_a_mint :: mint_account
  ip_token_b_mint :: mint_account
  ip_token_a_vault :: pubkey
  ip_token_b_vault :: pubkey
  ip_token_a :: token
  ip_token_b :: token
  ip_remaining_accounts :: "remaining_account list"
  ip_nft :: "unit result"
  ip_derive_vault_pubkey :: "pubkey \<Rightarrow> pubkey \<Rightarrow> pubkey"

record initialize_pool_parameters =
  ii_liquidity :: u128
  ii_sqrt_price :: u128
  ii_activation_point :: "u64 option"

record initialize_customizable_pool_parameters =
  ic_pool_fees :: pool_fee_parameters
  ic_sqrt_min_price :: u128
  ic_sqrt_max_price :: u128
  ic_has_alpha_vault :: bool
  ic_liquidity :: u128
  ic_sqrt_price :: u128
  ic_activation_type :: u8
  ic_collect_fee_mode :: u8
  ic_activation_point :: "u64 option"

section \<open>Steps that the three instructions share\<close>

text \<open>\<^verbatim>\<open>activation_point.unwrap_or(...?)\<close>, which evaluates its argument in any case.\<close>

definition activation_point_or_now :: "clock \<Rightarrow> u64 option \<Rightarrow> u8 \<Rightarrow> u64 result" where
  "activation_point_or_now clk activation_point activation_type =
     rbind (get_current_point clk activation_type) (\<lambda>current_point.
     Ok (case activation_point of Some p \<Rightarrow> p | None \<Rightarrow> current_point))"

definition get_whitelisted_alpha_vault ::
  "(pubkey \<Rightarrow> pubkey \<Rightarrow> pubkey) \<Rightarrow> pubkey \<Rightarrow> pubkey \<Rightarrow> bool \<Rightarrow> pubkey" where
  "get_whitelisted_alpha_vault derive_vault_pubkey payer pool_key with_vault =
     (if with_vault then derive_vault_pubkey payer pool_key else 0)"

text \<open>The last part: the two amounts with their transfer fees are deposited in the new vaults.\<close>

definition initial_deposit ::
  "init_pool_context \<Rightarrow> u64 \<Rightarrow> u64 \<Rightarrow> vaults result" where
  "initial_deposit ctx total_amount_a total_amount_b =
     rbind (transfer_from_user (ip_token_a ctx) 0 total_amount_a) (\<lambda>a.
     rbind (transfer_from_user (ip_token_b ctx) 0 total_amount_b) (\<lambda>b.
     Ok \<lparr> va_token_a = a, va_token_b = b \<rparr>))"

section \<open>A pool from a static config\<close>

text \<open>The pool and the position of the instruction.\<close>

definition config_pool ::
  "init_pool_context \<Rightarrow> config \<Rightarrow> initialize_pool_parameters \<Rightarrow> u64 \<Rightarrow> (pool \<times> position) result" where
  "config_pool ctx cfg params activation_point =
     (let q = pool_initialize (ip_creator ctx)
        (config_to_pool_fees_struct (cf_pool_fees cfg) (ii_sqrt_price params))
        (mi_key (ip_token_a_mint ctx)) (mi_key (ip_token_b_mint ctx))
        (ip_token_a_vault ctx) (ip_token_b_vault ctx)
        (config_get_whitelisted_alpha_vault (ip_derive_vault_pubkey ctx) cfg (ip_pool_key ctx))
        (cf_pool_creator_authority cfg) (cf_sqrt_min_price cfg) (cf_sqrt_max_price cfg)
        (ii_sqrt_price params) activation_point (cf_activation_type cfg)
        (u8_of_token_program_flags (get_token_program_flags (ip_token_a_mint ctx)))
        (u8_of_token_program_flags (get_token_program_flags (ip_token_b_mint ctx)))
        (ii_liquidity params) (cf_collect_fee_mode cfg) (u8_of_pool_type Permissionless) in
      Ok (position_initialize q (ip_pool_key ctx) (ip_position_nft_mint ctx) (ii_liquidity params)))"

definition handle_initialize_pool ::
  "init_pool_context \<Rightarrow> config \<Rightarrow> initialize_pool_parameters \<Rightarrow> (pool \<times> vaults \<times> position) result" where
  "handle_initialize_pool ctx cfg params =
     rbind (check_mint (ip_token_a_mint ctx) (ip_remaining_accounts ctx) 0) (\<lambda>_.
     rbind (check_mint (ip_token_b_mint ctx) (ip_remaining_accounts ctx) 1) (\<lambda>_.
     require (0 < ii_liquidity params) InvalidMinimumLiquidity
       (rbind (get_config_type cfg) (\<lambda>t.
        require (t = Static) InvalidConfigType
         (require (cf_pool_creator_authority cfg = 0 \<or> cf_pool_creator_authority cfg = ip_payer ctx)
           InvalidAuthorityToCreateThePool
           (rbind (activation_params_validate (ip_clock ctx)
             \<lparr> ap_activation_point = ii_activation_point params,
               ap_has_alpha_vault = has_alpha_vault cfg,
               ap_activation_type = cf_activation_type cfg \<rparr>) (\<lambda>_.
            rbind (activation_point_or_now (ip_clock ctx) (ii_activation_point params)
              (cf_activation_type cfg)) (\<lambda>activation_point.
            require (cf_sqrt_min_price cfg \<le> ii_sqrt_price params \<and>
                     ii_sqrt_price params \<le> cf_sqrt_max_price cfg) InvalidPriceRange
              (rbind (get_initialize_amounts (cf_sqrt_min_price cfg) (cf_sqrt_max_price cfg)
                (ii_sqrt_price params) (ii_liquidity params)) (\<lambda>(token_a_amount, token_b_amount).
               require (0 < token_a_amount \<or> 0 < token_b_amount) AmountIsZero
                 (rbind (config_pool ctx cfg params activation_point) (\<lambda>(q, p).
                  rbind (ip_nft ctx) (\<lambda>_.
                  rbind (calculate_transfer_fee_included_amount (ip_token_a ctx) token_a_amount)
                    (\<lambda>total_a.
                  rbind (calculate_transfer_fee_included_amount (ip_token_b ctx) token_b_amount)
                    (\<lambda>total_b.
                  rbind (initial_deposit ctx (xi_amount total_a) (xi_amount total_b)) (\<lambda>v.
                  rbind (to_pool_fee_parameters (cf_pool_fees cfg)) (\<lambda>_.
                  Ok (q, v, p))))))))))))))))))"

section \<open>A pool with parameters of its creator\<close>

definition initialize_customizable_pool_parameters_validate ::
  "clock \<Rightarrow> initialize_customizable_pool_parameters \<Rightarrow> unit result" where
  "initialize_customizable_pool_parameters_validate clk self =
     require (MIN_SQRT_PRICE \<le> ic_sqrt_min_price self \<and> ic_sqrt_max_price self \<le> MAX_SQRT_PRICE)
       InvalidPriceRange
     (require (ic_sqrt_min_price self \<le> ic_sqrt_price self \<and>
               ic_sqrt_price self \<le> ic_sqrt_max_price self) InvalidPriceRange
     (require (ic_sqrt_min_price self < ic_sqrt_max_price self) InvalidPriceRange
     (require (0 < ic_liquidity self) InvalidMinimumLiquidity
      (rbind (ok_or (activation_type_of_u8 (ic_activation_type self)) InvalidActivationType)
        (\<lambda>activation_type.
       rbind (ok_or (collect_fee_mode_of_u8 (ic_collect_fee_mode self)) InvalidCollectFeeMode)
         (\<lambda>collect_fee_mode.
       rbind (pool_fee_parameters_validate (ic_pool_fees self) collect_fee_mode activation_type)
         (\<lambda>_.
       activation_params_validate clk
         \<lparr> ap_activation_point = ic_activation_point self,
           ap_has_alpha_vault = ic_has_alpha_vault self,
           ap_activation_type = ic_activation_type self \<rparr>)))))))"

text \<open>The part of the two handlers that is the same: the pool and the position of the parameters.\<close>

definition customizable_pool ::
  "init_pool_context \<Rightarrow> pubkey \<Rightarrow> initialize_customizable_pool_parameters \<Rightarrow>
   (pool \<times> position) result" where
  "customizable_pool ctx partner params =
     rbind (activation_point_or_now (ip_clock ctx) (ic_activation_point params)
       (ic_activation_type params)) (\<lambda>activation_point.
     rbind (to_pool_fees_struct (ic_pool_fees params) (ic_sqrt_price params)) (\<lambda>pool_fees.
     let q = pool_initialize (ip_creator ctx) pool_fees
       (mi_key (ip_token_a_mint ctx)) (mi_key (ip_token_b_mint ctx))
       (ip_token_a_vault ctx) (ip_token_b_vault ctx)
       (get_whitelisted_alpha_vault (ip_derive_vault_pubkey ctx) (ip_payer ctx) (ip_pool_key ctx)
         (ic_has_alpha_vault params))
       partner (ic_sqrt_min_price params) (ic_sqrt_max_price params) (ic_sqrt_price params)
       activation_point (ic_activation_type params)
       (u8_of_token_program_flags (get_token_program_flags (ip_token_a_mint ctx)))
       (u8_of_token_program_flags (get_token_program_flags (ip_token_b_mint ctx)))
       (ic_liquidity params) (ic_collect_fee_mode params) (u8_of_pool_type Customizable) in
     Ok (position_initialize q (ip_pool_key ctx) (ip_position_nft_mint ctx) (ic_liquidity params))))"

definition handle_initialize_customizable_pool ::
  "init_pool_context \<Rightarrow> initialize_customizable_pool_parameters \<Rightarrow> (pool \<times> vaults \<times> position) result" where
  "handle_initialize_customizable_pool ctx params =
     rbind (initialize_customizable_pool_parameters_validate (ip_clock ctx) params) (\<lambda>_.
     rbind (check_mint (ip_token_a_mint ctx) (ip_remaining_accounts ctx) 0) (\<lambda>_.
     rbind (check_mint (ip_token_b_mint ctx) (ip_remaining_accounts ctx) 1) (\<lambda>_.
     rbind (get_initialize_amounts (ic_sqrt_min_price params) (ic_sqrt_max_price params)
       (ic_sqrt_price params) (ic_liquidity params)) (\<lambda>(token_a_amount, token_b_amount).
     require (0 < token_a_amount \<or> 0 < token_b_amount) AmountIsZero
       (rbind (customizable_pool ctx 0 params) (\<lambda>(q, p).
        rbind (ip_nft ctx) (\<lambda>_.
        rbind (calculate_transfer_fee_included_amount (ip_token_a ctx) token_a_amount) (\<lambda>total_a.
        rbind (calculate_transfer_fee_included_amount (ip_token_b ctx) token_b_amount) (\<lambda>total_b.
        rbind (initial_deposit ctx (max (xi_amount total_a) 1) (max (xi_amount total_b) 1)) (\<lambda>v.
        Ok (q, v, p)))))))))))"

text \<open>
  With a dynamic config its authority signs, which is the constraint
  \<^verbatim>\<open>has_one = pool_creator_authority\<close>: \<open>signer\<close> is the account that does.
\<close>

definition handle_initialize_pool_with_dynamic_config ::
  "init_pool_context \<Rightarrow> pubkey \<Rightarrow> config \<Rightarrow> initialize_customizable_pool_parameters \<Rightarrow>
   (pool \<times> vaults \<times> position) result" where
  "handle_initialize_pool_with_dynamic_config ctx signer cfg params =
     (if cf_pool_creator_authority cfg \<noteq> signer then Inl Foreign
      else
        rbind (initialize_customizable_pool_parameters_validate (ip_clock ctx) params) (\<lambda>_.
        rbind (check_mint (ip_token_a_mint ctx) (ip_remaining_accounts ctx) 0) (\<lambda>_.
        rbind (check_mint (ip_token_b_mint ctx) (ip_remaining_accounts ctx) 1) (\<lambda>_.
        rbind (get_config_type cfg) (\<lambda>t.
        require (t = Dynamic) InvalidConfigType
          (rbind (get_initialize_amounts (ic_sqrt_min_price params) (ic_sqrt_max_price params)
            (ic_sqrt_price params) (ic_liquidity params)) (\<lambda>(token_a_amount, token_b_amount).
           require (0 < token_a_amount \<or> 0 < token_b_amount) AmountIsZero
             (rbind (customizable_pool ctx (cf_pool_creator_authority cfg) params) (\<lambda>(q, p).
              rbind (ip_nft ctx) (\<lambda>_.
              rbind (calculate_transfer_fee_included_amount (ip_token_a ctx) token_a_amount)
                (\<lambda>total_a.
              rbind (calculate_transfer_fee_included_amount (ip_token_b ctx) token_b_amount)
                (\<lambda>total_b.
              rbind (initial_deposit ctx (xi_amount total_a) (xi_amount total_b)) (\<lambda>v.
              Ok (q, v, p))))))))))))))"

end
