(* ===== verification/Vesting.thy ===== *)
theory Vesting
  imports Position Activation
begin

text \<open>
  \<^verbatim>\<open>state/vesting.rs\<close>, with its parameters in \<^verbatim>\<open>ix_lock_position.rs\<close> and the release of vested liquidity in
  \<^verbatim>\<open>ix_refresh_vesting.rs\<close>: a cliff, then equal amounts at regular periods.
\<close>

record vesting =
  vs_position :: pubkey
  vs_cliff_point :: u64
  vs_period_frequency :: u64
  vs_cliff_unlock_liquidity :: u128
  vs_liquidity_per_period :: u128
  vs_total_released_liquidity :: u128
  vs_number_of_period :: u16

record vesting_parameters =
  vp_cliff_point :: "u64 option"
  vp_period_frequency :: u64
  vp_cliff_unlock_liquidity :: u128
  vp_liquidity_per_period :: u128
  vp_number_of_period :: u16

text \<open>\<^verbatim>\<open>initialize\<close> on an account whose bytes are zero.\<close>

definition vesting_initialize ::
  "pubkey \<Rightarrow> u64 \<Rightarrow> u64 \<Rightarrow> u128 \<Rightarrow> u128 \<Rightarrow> u16 \<Rightarrow> vesting" where
  "vesting_initialize position_key cliff_point period_frequency cliff_unlock_liquidity
     liquidity_per_period number_of_period =
     \<lparr> vs_position = position_key, vs_cliff_point = cliff_point,
       vs_period_frequency = period_frequency,
       vs_cliff_unlock_liquidity = cliff_unlock_liquidity,
       vs_liquidity_per_period = liquidity_per_period,
       vs_total_released_liquidity = 0, vs_number_of_period = number_of_period \<rparr>"

definition vesting_get_total_lock_amount :: "vesting \<Rightarrow> u128 result" where
  "vesting_get_total_lock_amount self =
     rbind (safe_mul (vs_liquidity_per_period self) (ucast (vs_number_of_period self))) (\<lambda>m.
     safe_add (vs_cliff_unlock_liquidity self) m)"

definition get_max_unlocked_liquidity :: "vesting \<Rightarrow> u64 \<Rightarrow> u128 result" where
  "get_max_unlocked_liquidity self current_point =
     (if current_point < vs_cliff_point self then Ok 0
      else if vs_period_frequency self = 0 then Ok (vs_cliff_unlock_liquidity self)
      else
        rbind (safe_sub current_point (vs_cliff_point self)) (\<lambda>elapsed.
        rbind (safe_div elapsed (vs_period_frequency self)) (\<lambda>period0.
        let period = (ucast (min period0 (ucast (vs_number_of_period self))) :: u128) in
        rbind (safe_mul period (vs_liquidity_per_period self)) (\<lambda>m.
        safe_add (vs_cliff_unlock_liquidity self) m))))"

definition get_new_release_liquidity :: "vesting \<Rightarrow> u64 \<Rightarrow> u128 result" where
  "get_new_release_liquidity self current_point =
     rbind (get_max_unlocked_liquidity self current_point) (\<lambda>unlocked_liquidity.
     safe_sub unlocked_liquidity (vs_total_released_liquidity self))"

definition accumulate_released_liquidity :: "vesting \<Rightarrow> u128 \<Rightarrow> vesting result" where
  "accumulate_released_liquidity self released_liquidity =
     rbind (safe_add (vs_total_released_liquidity self) released_liquidity) (\<lambda>t.
     Ok (self\<lparr>vs_total_released_liquidity := t\<rparr>))"

definition vesting_done :: "vesting \<Rightarrow> bool result" where
  "vesting_done self =
     rbind (vesting_get_total_lock_amount self) (\<lambda>t. Ok (vs_total_released_liquidity self = t))"

section \<open>Parameters\<close>

definition get_cliff_point :: "vesting_parameters \<Rightarrow> u64 \<Rightarrow> u64 result" where
  "get_cliff_point self current_point =
     Ok (case vp_cliff_point self of Some c \<Rightarrow> c | None \<Rightarrow> current_point)"

definition get_total_lock_amount :: "vesting_parameters \<Rightarrow> u128 result" where
  "get_total_lock_amount self =
     rbind (safe_mul (vp_liquidity_per_period self) (ucast (vp_number_of_period self))) (\<lambda>m.
     safe_add (vp_cliff_unlock_liquidity self) m)"

definition vesting_parameters_validate :: "vesting_parameters \<Rightarrow> u64 \<Rightarrow> u64 \<Rightarrow> unit result" where
  "vesting_parameters_validate self current_point max_vesting_duration =
     rbind (get_cliff_point self current_point) (\<lambda>cliff_point.
     require (current_point \<le> cliff_point) InvalidVestingInfo
     (require (cliff_point = current_point \<longrightarrow> 0 < vp_number_of_period self) InvalidVestingInfo
     (require (0 < vp_number_of_period self \<longrightarrow>
         0 < vp_period_frequency self \<and> 0 < vp_liquidity_per_period self) InvalidVestingInfo
     (rbind (safe_sub cliff_point current_point) (\<lambda>before.
      rbind (safe_mul (vp_period_frequency self) (ucast (vp_number_of_period self))) (\<lambda>after.
      rbind (safe_add before after) (\<lambda>vesting_duration.
      require (vesting_duration \<le> max_vesting_duration) InvalidVestingInfo
        (rbind (get_total_lock_amount self) (\<lambda>t.
         require (0 < t) InvalidVestingInfo (Ok ()))))))))))"

section \<open>Locking and releasing\<close>

text \<open>The part of \<^verbatim>\<open>handle_lock_position\<close> after the check of the access to the pool.\<close>

definition lock_position ::
  "clock \<Rightarrow> u8 \<Rightarrow> pubkey \<Rightarrow> position \<Rightarrow> vesting_parameters \<Rightarrow> (position \<times> vesting) result" where
  "lock_position clk activation_type position_key p params =
     rbind (get_current_point_and_max_vesting_duration clk activation_type)
       (\<lambda>(current_point, max_vesting_duration).
     rbind (vesting_parameters_validate params current_point max_vesting_duration) (\<lambda>_.
     rbind (get_total_lock_amount params) (\<lambda>total_lock_liquidity.
     rbind (get_cliff_point params current_point) (\<lambda>cliff_point.
     let v = vesting_initialize position_key cliff_point (vp_period_frequency params)
       (vp_cliff_unlock_liquidity params) (vp_liquidity_per_period params)
       (vp_number_of_period params) in
     rbind (lock p total_lock_liquidity) (\<lambda>p. Ok (p, v))))))"

definition release_vesting_liquidity_to_position ::
  "vesting \<Rightarrow> position \<Rightarrow> u64 \<Rightarrow> (vesting \<times> position) result" where
  "release_vesting_liquidity_to_position v p current_point =
     rbind (get_new_release_liquidity v current_point) (\<lambda>released_liquidity.
     if 0 < released_liquidity then
       rbind (release_vested_liquidity p released_liquidity) (\<lambda>p.
       rbind (accumulate_released_liquidity v released_liquidity) (\<lambda>v. Ok (v, p)))
     else Ok (v, p))"

text \<open>
  The loop of \<^verbatim>\<open>handle_refresh_vesting\<close> over the remaining accounts. Each account must be a vesting of
  the position; one that is done is closed, which is \<open>None\<close>. An account that was closed can not be
  loaded again.
\<close>

definition load_and_validate :: "vesting option \<Rightarrow> pubkey \<Rightarrow> vesting result" where
  "load_and_validate account position_key =
     (case account of
        None \<Rightarrow> Inl Foreign
      | Some v \<Rightarrow> require (vs_position v = position_key) InvalidVestingAccount (Ok v))"

fun refresh_vestings ::
  "pubkey \<Rightarrow> u64 \<Rightarrow> pubkey list \<Rightarrow> (pubkey \<Rightarrow> vesting option) \<Rightarrow> position \<Rightarrow>
   ((pubkey \<Rightarrow> vesting option) \<times> position) result" where
  "refresh_vestings position_key current_point [] accounts p = Ok (accounts, p)"
| "refresh_vestings position_key current_point (k # ks) accounts p =
     rbind (load_and_validate (accounts k) position_key) (\<lambda>v.
     rbind (release_vesting_liquidity_to_position v p current_point) (\<lambda>(v, p).
     rbind (vesting_done v) (\<lambda>finished.
     refresh_vestings position_key current_point ks
       (accounts(k := (if finished then None else Some v))) p)))"

definition refresh_vesting ::
  "clock \<Rightarrow> u8 \<Rightarrow> pubkey \<Rightarrow> pubkey list \<Rightarrow> (pubkey \<Rightarrow> vesting option) \<Rightarrow> position \<Rightarrow>
   ((pubkey \<Rightarrow> vesting option) \<times> position) result" where
  "refresh_vesting clk activation_type position_key remaining_accounts accounts p =
     rbind (get_current_point_and_buffer_duration clk activation_type) (\<lambda>(current_point, _).
     refresh_vestings position_key current_point remaining_accounts accounts p)"

section \<open>The schedule\<close>

text \<open>What is unlocked at a point, and in total, as numbers.\<close>

definition vesting_total :: "vesting \<Rightarrow> nat" where
  "vesting_total v = unat (vs_cliff_unlock_liquidity v) +
     unat (vs_liquidity_per_period v) * unat (vs_number_of_period v)"

definition vesting_schedule :: "vesting \<Rightarrow> nat \<Rightarrow> nat" where
  "vesting_schedule v point =
     (if point < unat (vs_cliff_point v) then 0
      else if vs_period_frequency v = 0 then unat (vs_cliff_unlock_liquidity v)
      else unat (vs_cliff_unlock_liquidity v) +
        min ((point - unat (vs_cliff_point v)) div unat (vs_period_frequency v))
          (unat (vs_number_of_period v)) * unat (vs_liquidity_per_period v))"

lemma vesting_schedule_le: "vesting_schedule v point \<le> vesting_total v"
  by (simp add: vesting_schedule_def vesting_total_def mult.commute [of _ "unat (vs_liquidity_per_period v)"])

lemma vesting_schedule_mono:
  assumes "point \<le> point'"
  shows "vesting_schedule v point \<le> vesting_schedule v point'"
proof -
  have "min ((point - c) div f) n \<le> min ((point' - c) div f) n" for c f n
    using assms by (meson diff_le_mono div_le_mono min.mono order_refl)
  then show ?thesis using assms by (auto simp: vesting_schedule_def intro: mult_right_mono)
qed

text \<open>After the last period everything is unlocked.\<close>

lemma vesting_schedule_end:
  assumes "unat (vs_cliff_point v) + unat (vs_number_of_period v) * unat (vs_period_frequency v) \<le> point"
    and "0 < unat (vs_number_of_period v) \<Longrightarrow> 0 < unat (vs_period_frequency v)"
  shows "vesting_schedule v point = vesting_total v"
proof (cases "unat (vs_number_of_period v) = 0")
  case True
  then show ?thesis using assms(1) by (simp add: vesting_schedule_def vesting_total_def)
next
  case False
  then have f: "0 < unat (vs_period_frequency v)" using assms(2) by simp
  have "unat (vs_number_of_period v) * unat (vs_period_frequency v) \<le> point - unat (vs_cliff_point v)"
    using assms(1) by simp
  then have "unat (vs_number_of_period v) \<le>
      (point - unat (vs_cliff_point v)) div unat (vs_period_frequency v)"
    using f by (simp add: less_eq_div_iff_mult_less_eq)
  then show ?thesis using assms(1) f
    by (auto simp: vesting_schedule_def vesting_total_def min_def)
qed

text \<open>The program computes the schedule without overflow when the total fits.\<close>

lemma get_max_unlocked_liquidity_schedule:
  assumes "vesting_total v < 2 ^ 128"
  shows "\<exists>u. get_max_unlocked_liquidity v point = Ok u \<and> unat u = vesting_schedule v (unat point)"
proof (cases "point < vs_cliff_point v \<or> vs_period_frequency v = 0")
  case True
  then show ?thesis
    by (auto simp: get_max_unlocked_liquidity_def vesting_schedule_def word_less_unat)
next
  case False
  then have c: "unat (vs_cliff_point v) \<le> unat point" and f: "0 < unat (vs_period_frequency v)"
    by (simp_all add: word_less_unat unat_gt_0)
  define e where "e = point - vs_cliff_point v"
  define d where "d = e div vs_period_frequency v"
  define n :: u128 where "n = ucast (min d (ucast (vs_number_of_period v)))"
  have e: "safe_sub point (vs_cliff_point v) = Ok e" "unat e = unat point - unat (vs_cliff_point v)"
    using c by (simp_all add: safe_sub_def checked_sub_def word_le_unat e_def unat_sub)
  have d: "safe_div e (vs_period_frequency v) = Ok d"
    using f by (auto simp: safe_div_def checked_div_def d_def)
  have n: "unat n = min ((unat point - unat (vs_cliff_point v)) div unat (vs_period_frequency v))
      (unat (vs_number_of_period v))"
    by (simp add: n_def d_def unat_div e(2))
  have le: "unat n * unat (vs_liquidity_per_period v) \<le>
      unat (vs_liquidity_per_period v) * unat (vs_number_of_period v)"
    unfolding n by (subst mult.commute) (intro mult_left_mono, simp_all)
  have "unat n * unat (vs_liquidity_per_period v) < 2 ^ 128"
    using assms le unfolding vesting_total_def by linarith
  then have "unat n * unat (vs_liquidity_per_period v) < 2 ^ LENGTH(128)" by simp
  note m = safe_mul_no_overflow [OF this]
  have "unat (vs_cliff_unlock_liquidity v) + unat (n * vs_liquidity_per_period v) < 2 ^ 128"
    unfolding m(2) using assms le unfolding vesting_total_def by linarith
  then have "unat (vs_cliff_unlock_liquidity v) + unat (n * vs_liquidity_per_period v) <
    2 ^ LENGTH(128)" by simp
  note a = safe_add_no_overflow [OF this]
  have "get_max_unlocked_liquidity v point =
      Ok (vs_cliff_unlock_liquidity v + n * vs_liquidity_per_period v)"
    using False by (simp add: get_max_unlocked_liquidity_def e(1) d Let_def m(1) a(1) flip: n_def)
  moreover have "unat (vs_cliff_unlock_liquidity v + n * vs_liquidity_per_period v) =
      vesting_schedule v (unat point)"
    using False c by (simp add: a(2) m(2) n vesting_schedule_def)
  ultimately show ?thesis by blast
qed

section \<open>Releasing what is unlocked\<close>

text \<open>What a vesting of a position still holds back.\<close>

definition vesting_remaining :: "pubkey \<Rightarrow> vesting \<Rightarrow> nat" where
  "vesting_remaining position_key v =
     (if vs_position v = position_key
      then vesting_total v - unat (vs_total_released_liquidity v) else 0)"

definition wf_vesting :: "nat \<Rightarrow> vesting \<Rightarrow> bool" where
  "wf_vesting point v \<longleftrightarrow> vesting_total v < 2 ^ 128 \<and>
     unat (vs_total_released_liquidity v) \<le> vesting_schedule v point"

text \<open>
  The vestings of a position and its vested liquidity: they agree, and the liquidity of the
  position fits its type.
\<close>

definition vesting_inv ::
  "pubkey \<Rightarrow> nat \<Rightarrow> (pubkey \<Rightarrow> vesting option) \<Rightarrow> position \<Rightarrow> bool" where
  "vesting_inv position_key point accounts p \<longleftrightarrow> finite (dom accounts) \<and>
     (\<forall>k v. accounts k = Some v \<and> vs_position v = position_key \<longrightarrow> wf_vesting point v) \<and>
     total_over (vesting_remaining position_key) accounts = unat (ps_vested_liquidity p) \<and>
     liq p < 2 ^ 128"

lemma release_vesting_total:
  assumes w: "wf_vesting (unat point) v"
    and r: "vesting_total v - unat (vs_total_released_liquidity v) \<le> unat (ps_vested_liquidity p)"
    and l: "liq p < 2 ^ 128"
  shows "\<exists>v' p'. release_vesting_liquidity_to_position v p point = Ok (v', p') \<and>
    v' = v\<lparr>vs_total_released_liquidity := vs_total_released_liquidity v'\<rparr> \<and>
    unat (vs_total_released_liquidity v') = vesting_schedule v (unat point) \<and>
    unat (ps_vested_liquidity p') + vesting_schedule v (unat point) =
      unat (ps_vested_liquidity p) + unat (vs_total_released_liquidity v) \<and> liq p' = liq p"
proof -
  obtain u where u: "get_max_unlocked_liquidity v point = Ok u"
    "unat u = vesting_schedule v (unat point)"
    using get_max_unlocked_liquidity_schedule w unfolding wf_vesting_def by blast
  define d where "d = u - vs_total_released_liquidity v"
  have le: "unat (vs_total_released_liquidity v) \<le> unat u" using w u(2) by (simp add: wf_vesting_def)
  then have d: "safe_sub u (vs_total_released_liquidity v) = Ok d"
    "unat d = unat u - unat (vs_total_released_liquidity v)"
    by (simp_all add: safe_sub_def checked_sub_def word_le_unat d_def unat_sub)
  have n: "get_new_release_liquidity v point = Ok d"
    by (simp add: get_new_release_liquidity_def u(1) d(1))
  show ?thesis
  proof (cases "0 < d")
    case False
    then have "unat d = 0" by (simp add: word_less_unat)
    then show ?thesis using False d(2) le u(2)
      by (intro exI [of _ v] exI [of _ p]) (simp add: release_vesting_liquidity_to_position_def n)
  next
    case True
    have dp: "unat d \<le> unat (ps_vested_liquidity p)"
      using d(2) u(2) vesting_schedule_le [of v "unat point"] r by linarith
    define q where "q = p\<lparr>ps_vested_liquidity := ps_vested_liquidity p - d\<rparr>"
    have s: "safe_sub (ps_vested_liquidity p) d = Ok (ps_vested_liquidity p - d)"
      "unat (ps_vested_liquidity p - d) = unat (ps_vested_liquidity p) - unat d"
      using dp by (simp_all add: safe_sub_def checked_sub_def word_le_unat unat_sub)
    have "unat (ps_unlocked_liquidity p) + unat d < 2 ^ LENGTH(128)"
      using dp l unfolding liq_def by simp
    note a = safe_add_no_overflow [OF this]
    have "unat (vs_total_released_liquidity v) + unat d < 2 ^ LENGTH(128)"
      using d(2) le unat_less_pow [of u] by linarith
    note t = safe_add_no_overflow [OF this]
    have "release_vesting_liquidity_to_position v p point =
      Ok (v\<lparr>vs_total_released_liquidity := vs_total_released_liquidity v + d\<rparr>,
          q\<lparr>ps_unlocked_liquidity := ps_unlocked_liquidity p + d\<rparr>)"
      using True by (simp add: release_vesting_liquidity_to_position_def n q_def s(1) a(1) t(1)
          release_vested_liquidity_def add_liquidity_def accumulate_released_liquidity_def)
    then show ?thesis using t(2) d(2) le u(2) s(2) a(2) dp by (simp add: q_def liq_def)
  qed
qed

lemma vesting_done_iff:
  assumes "vesting_total v < 2 ^ 128"
  shows "vesting_done v = Ok (unat (vs_total_released_liquidity v) = vesting_total v)"
proof -
  have "unat (vs_liquidity_per_period v) * unat (ucast (vs_number_of_period v) :: u128) < 2 ^ 128"
    using assms unfolding vesting_total_def by simp
  then have "unat (vs_liquidity_per_period v) * unat (ucast (vs_number_of_period v) :: u128) <
    2 ^ LENGTH(128)" by simp
  note m = safe_mul_no_overflow [OF this]
  have "unat (vs_cliff_unlock_liquidity v) +
    unat (vs_liquidity_per_period v * ucast (vs_number_of_period v)) < 2 ^ 128"
    unfolding m(2) using assms unfolding vesting_total_def by simp
  then have "unat (vs_cliff_unlock_liquidity v) +
    unat (vs_liquidity_per_period v * ucast (vs_number_of_period v)) < 2 ^ LENGTH(128)" by simp
  note a = safe_add_no_overflow [OF this]
  show ?thesis
    by (simp add: vesting_done_def vesting_get_total_lock_amount_def m(1) a(1)
        word_unat_eq_iff a(2) m(2) vesting_total_def)
qed

text \<open>One account of the loop: what is unlocked is released, and the books still agree.\<close>

lemma refresh_one:
  assumes inv: "vesting_inv key (unat point) acc p" and k: "acc k = Some v" "vs_position v = key"
  obtains v' p' where "release_vesting_liquidity_to_position v p point = Ok (v', p')"
    and "vs_position v' = key" and "vesting_total v' = vesting_total v"
    and "unat (vs_total_released_liquidity v') = vesting_schedule v' (unat point)"
    and "vesting_schedule v' (unat point) = vesting_schedule v (unat point)"
    and "vesting_done v' = Ok (vesting_schedule v (unat point) = vesting_total v)"
    and "vesting_inv key (unat point)
      (acc(k := (if vesting_schedule v (unat point) = vesting_total v then None else Some v'))) p'"
    and "liq p' = liq p"
proof -
  have i: "finite (dom acc)" "\<And>j w. acc j = Some w \<Longrightarrow> vs_position w = key \<Longrightarrow> wf_vesting (unat point) w"
    "total_over (vesting_remaining key) acc = unat (ps_vested_liquidity p)" "liq p < 2 ^ 128"
    using inv by (simp_all add: vesting_inv_def)
  have w: "wf_vesting (unat point) v" using i(2) k .
  have rem: "vesting_remaining key v = vesting_total v - unat (vs_total_released_liquidity v)"
    using k(2) by (simp add: vesting_remaining_def)
  have "vesting_remaining key v \<le> unat (ps_vested_liquidity p)"
    using total_over_member [where f = "vesting_remaining key", OF i(1) k(1)] i(3) by simp
  then obtain v' p' where r: "release_vesting_liquidity_to_position v p point = Ok (v', p')"
    and v': "v' = v\<lparr>vs_total_released_liquidity := vs_total_released_liquidity v'\<rparr>"
    and s: "unat (vs_total_released_liquidity v') = vesting_schedule v (unat point)"
    and e: "unat (ps_vested_liquidity p') + vesting_schedule v (unat point) =
      unat (ps_vested_liquidity p) + unat (vs_total_released_liquidity v)"
    and l: "liq p' = liq p"
    using release_vesting_total [OF w _ i(4)] unfolding rem by blast
  have t: "vesting_total v' = vesting_total v" "vs_position v' = key"
    "vesting_schedule v' n = vesting_schedule v n" for n
    using k(2) by (subst v', simp add: vesting_total_def vesting_schedule_def)+
  have tot: "vesting_total v < 2 ^ 128" using w by (simp add: wf_vesting_def)
  have d: "vesting_done v' = Ok (vesting_schedule v (unat point) = vesting_total v)"
    using vesting_done_iff [of v'] tot s t(1) by simp
  have w': "wf_vesting (unat point) v'" using tot s t by (simp add: wf_vesting_def)
  have le: "vesting_schedule v (unat point) \<le> vesting_total v" by (rule vesting_schedule_le)
  have rel: "unat (vs_total_released_liquidity v) \<le> vesting_schedule v (unat point)"
    using w by (simp add: wf_vesting_def)
  have rem': "vesting_remaining key v' = vesting_total v - vesting_schedule v (unat point)"
    using t s by (simp add: vesting_remaining_def)
  have "vesting_inv key (unat point)
      (acc(k := (if vesting_schedule v (unat point) = vesting_total v then None else Some v'))) p'"
  proof (cases "vesting_schedule v (unat point) = vesting_total v")
    case True
    have "total_over (vesting_remaining key) (acc(k := None)) = unat (ps_vested_liquidity p')"
      using total_over_remove [where f = "vesting_remaining key", OF i(1) k(1)] i(3) e rem rel True
      by linarith
    with True i l show ?thesis by (auto simp: vesting_inv_def)
  next
    case False
    have "total_over (vesting_remaining key) (acc(k := Some v')) = unat (ps_vested_liquidity p')"
      using total_over_update [where f = "vesting_remaining key", OF i(1) k(1), of v'] i(3) e rem rem'
        rel le by linarith
    with False i l w' show ?thesis by (auto simp: vesting_inv_def)
  qed
  with that r t s d l show thesis by metis
qed

text \<open>
  The whole loop. It keeps the invariant and the liquidity of the position, and each account that
  it visits is closed or has released all that is unlocked.
\<close>

definition up_to_date :: "nat \<Rightarrow> vesting option \<Rightarrow> bool" where
  "up_to_date point account \<longleftrightarrow>
     (\<forall>v. account = Some v \<longrightarrow> unat (vs_total_released_liquidity v) = vesting_schedule v point)"

lemma refresh_vestings_inv:
  assumes "vesting_inv key (unat point) acc p" and "refresh_vestings key point ks acc p = Ok (acc', p')"
  shows "vesting_inv key (unat point) acc' p' \<and> liq p' = liq p \<and>
    (\<forall>k. k \<in> set ks \<or> up_to_date (unat point) (acc k) \<longrightarrow> up_to_date (unat point) (acc' k))"
  using assms
proof (induction ks arbitrary: acc p)
  case (Cons k ks)
  obtain v where v: "acc k = Some v" "vs_position v = key"
    using Cons.prems(2) by (auto simp: load_and_validate_def ok_iffs split: option.splits)
  obtain v1 p1 where r: "release_vesting_liquidity_to_position v p point = Ok (v1, p1)"
    "vesting_done v1 = Ok (vesting_schedule v (unat point) = vesting_total v)"
    and s: "unat (vs_total_released_liquidity v1) = vesting_schedule v1 (unat point)"
    and i: "vesting_inv key (unat point)
      (acc(k := (if vesting_schedule v (unat point) = vesting_total v then None else Some v1))) p1"
      (is "vesting_inv _ _ ?acc _") and l: "liq p1 = liq p"
    by (rule refresh_one [OF Cons.prems(1) v])
  have "refresh_vestings key point ks ?acc p1 = Ok (acc', p')"
    using Cons.prems(2) v r by (simp add: load_and_validate_def)
  note ih = Cons.IH [OF i this]
  have "up_to_date (unat point) (?acc k)" using s by (simp add: up_to_date_def)
  moreover have "?acc j = acc j" if "j \<noteq> k" for j using that by simp
  ultimately have "j \<in> set (k # ks) \<or> up_to_date (unat point) (acc j) \<Longrightarrow>
      j \<in> set ks \<or> up_to_date (unat point) (?acc j)" for j by (metis set_ConsD)
  with ih l show ?case by metis
qed simp

text \<open>The loop never gets stuck on distinct accounts of the position.\<close>

lemma refresh_vestings_total:
  assumes "vesting_inv key (unat point) acc p" and "distinct ks"
    and "\<And>k. k \<in> set ks \<Longrightarrow> \<exists>v. acc k = Some v \<and> vs_position v = key"
  shows "\<exists>acc' p'. refresh_vestings key point ks acc p = Ok (acc', p')"
  using assms
proof (induction ks arbitrary: acc p)
  case (Cons k ks)
  obtain v where v: "acc k = Some v" "vs_position v = key" using Cons.prems(3) by auto
  obtain v1 p1 where r: "release_vesting_liquidity_to_position v p point = Ok (v1, p1)"
    "vesting_done v1 = Ok (vesting_schedule v (unat point) = vesting_total v)"
    and i: "vesting_inv key (unat point)
      (acc(k := (if vesting_schedule v (unat point) = vesting_total v then None else Some v1))) p1"
      (is "vesting_inv _ _ ?acc _")
    by (rule refresh_one [OF Cons.prems(1) v])
  have "\<exists>acc' p'. refresh_vestings key point ks ?acc p1 = Ok (acc', p')"
    using Cons.prems by (intro Cons.IH [OF i]) auto
  then show ?case using v r by (simp add: load_and_validate_def)
qed simp

text \<open>What a refresh leaves alone: the accounts it is not given, and the schedule of each vesting.\<close>

definition same_schedule :: "vesting \<Rightarrow> vesting \<Rightarrow> bool" where
  "same_schedule v v' \<longleftrightarrow> (\<exists>x. v' = v\<lparr>vs_total_released_liquidity := x\<rparr>)"

lemma same_schedule_refl: "same_schedule v v"
  unfolding same_schedule_def by (rule exI [of _ "vs_total_released_liquidity v"]) simp

lemma same_schedule_trans: "same_schedule u v \<Longrightarrow> same_schedule v w \<Longrightarrow> same_schedule u w"
  by (auto simp: same_schedule_def)

lemma release_vesting_schedule:
  "release_vesting_liquidity_to_position v p point = Ok (v', p') \<Longrightarrow> same_schedule v v'"
  by (auto simp: release_vesting_liquidity_to_position_def accumulate_released_liquidity_def
      rbind_Ok_iff same_schedule_refl split: if_splits) (auto simp: same_schedule_def)

lemma refresh_vestings_frame:
  "refresh_vestings key point ks acc p = Ok (acc', p') \<Longrightarrow>
    (k \<notin> set ks \<longrightarrow> acc' k = acc k) \<and>
    (\<forall>v'. acc' k = Some v' \<longrightarrow> (\<exists>v. acc k = Some v \<and> same_schedule v v'))"
proof (induction ks arbitrary: acc p)
  case (Cons j ks)
  obtain v v1 p1 fin where l: "acc j = Some v"
    and rl: "release_vesting_liquidity_to_position v p point = Ok (v1, p1)"
    and r: "refresh_vestings key point ks (acc(j := (if fin then None else Some v1))) p1 = Ok (acc', p')"
    using Cons.prems by (auto simp: rbind_Ok_iff require_Ok_iff load_and_validate_def split: option.splits)
  have "same_schedule v1 w \<Longrightarrow> same_schedule v w" for w
    using release_vesting_schedule [OF rl] same_schedule_trans by blast
  then show ?case using Cons.IH [OF r] l by (cases "k = j"; cases fin) auto
qed (simp add: same_schedule_refl)

text \<open>At the end everything is released, and the vestings that were refreshed are closed.\<close>

definition vesting_over :: "nat \<Rightarrow> vesting \<Rightarrow> bool" where
  "vesting_over point v \<longleftrightarrow>
     unat (vs_cliff_point v) + unat (vs_number_of_period v) * unat (vs_period_frequency v) \<le> point \<and>
     (0 < unat (vs_number_of_period v) \<longrightarrow> 0 < unat (vs_period_frequency v))"

lemma vesting_over_schedule: "vesting_over point v \<Longrightarrow> vesting_schedule v point = vesting_total v"
  by (rule vesting_schedule_end) (simp_all add: vesting_over_def)

lemma refresh_after_end:
  assumes "vesting_inv key (unat point) acc p"
    and "refresh_vestings key point ks acc p = Ok (acc', p')"
    and "\<And>k v. acc k = Some v \<Longrightarrow> vs_position v = key \<Longrightarrow> k \<in> set ks \<and> vesting_over (unat point) v"
  shows "ps_vested_liquidity p' = 0 \<and> liq p' = liq p"
proof -
  note r = refresh_vestings_inv [OF assms(1,2)]
  have "vesting_remaining key v' = 0" if acc': "acc' k = Some v'" for k v'
  proof (cases "vs_position v' = key")
    case True
    obtain v x where v: "acc k = Some v" and v': "v' = v\<lparr>vs_total_released_liquidity := x\<rparr>"
      using refresh_vestings_frame [OF assms(2), of k] acc' unfolding same_schedule_def by blast
    have e: "vs_position v' = vs_position v" "vesting_schedule v' n = vesting_schedule v n"
      "vesting_total v' = vesting_total v" for n
      by (simp_all add: v' vesting_schedule_def vesting_total_def)
    have k: "k \<in> set ks" "vesting_schedule v (unat point) = vesting_total v"
      using assms(3) [OF v] True e(1) vesting_over_schedule by auto
    then have "unat (vs_total_released_liquidity v') = vesting_total v'"
      using r acc' by (auto simp: up_to_date_def e(2,3))
    then show ?thesis by (simp add: vesting_remaining_def)
  qed (simp add: vesting_remaining_def)
  then have "total_over (vesting_remaining key) acc' = 0"
    unfolding total_over_def by (intro sum.neutral) auto
  then have "unat (ps_vested_liquidity p') = 0" using r by (simp add: vesting_inv_def)
  then show ?thesis using r by (simp add: unat_eq_zero)
qed


lemma refresh_closes:
  assumes "vesting_inv key (unat point) acc p"
    and "refresh_vestings key point ks acc p = Ok (acc', p')"
    and "\<And>k v. acc k = Some v \<Longrightarrow> vs_position v = key \<Longrightarrow> vesting_over (unat point) v"
    and "k \<in> set ks"
  shows "acc' k = None"
  using assms
proof (induction ks arbitrary: acc p)
  case (Cons j ks)
  obtain v where v: "acc j = Some v" "vs_position v = key"
    using Cons.prems(2) by (auto simp: load_and_validate_def ok_iffs split: option.splits)
  have e: "vesting_schedule v (unat point) = vesting_total v"
    using vesting_over_schedule Cons.prems(3) [OF v] .
  obtain v1 p1 where r: "release_vesting_liquidity_to_position v p point = Ok (v1, p1)"
    "vesting_done v1 = Ok True" and i: "vesting_inv key (unat point) (acc(j := None)) p1"
    by (rule refresh_one [OF Cons.prems(1) v]) (simp add: e)
  have l: "refresh_vestings key point ks (acc(j := None)) p1 = Ok (acc', p')"
    using Cons.prems(2) v r by (simp add: load_and_validate_def)
  show ?case
  proof (cases "k \<in> set ks")
    case True
    show ?thesis by (rule Cons.IH [OF i l _ True]) (auto split: if_splits intro: Cons.prems(3))
  next
    case False
    then show ?thesis using Cons.prems(4) refresh_vestings_frame [OF l, of k] by auto
  qed
qed simp

section \<open>Locking\<close>

lemma wf_vesting_later: "wf_vesting m v \<Longrightarrow> m \<le> n \<Longrightarrow> wf_vesting n v"
  using vesting_schedule_mono [of m n v] by (simp add: wf_vesting_def)

lemma vesting_inv_later: "vesting_inv key m acc p \<Longrightarrow> m \<le> n \<Longrightarrow> vesting_inv key n acc p"
  unfolding vesting_inv_def using wf_vesting_later by blast

lemma get_total_lock_amount_iff:
  "get_total_lock_amount params = Ok t \<longleftrightarrow> unat t = unat (vp_cliff_unlock_liquidity params) +
    unat (vp_liquidity_per_period params) * unat (vp_number_of_period params)"
proof -
  have "(\<exists>m :: u128. unat m = a * b \<and> unat t = c + unat m) \<longleftrightarrow> unat t = c + a * b" for a b c
  proof
    assume e: "unat t = c + a * b"
    then have "a * b < 2 ^ LENGTH(128)" using unat_less_pow [of t] by linarith
    then have u: "unat (of_nat (a * b) :: u128) = a * b" by (rule unat_of_nat_small)
    show "\<exists>m :: u128. unat m = a * b \<and> unat t = c + unat m"
      by (intro exI [of _ "of_nat (a * b) :: u128"] conjI) (simp_all only: u e)
  qed auto
  then show ?thesis by (simp add: get_total_lock_amount_def rbind_Ok_iff safe_ops_iff)
qed

lemma lock_position_effect:
  assumes "lock_position clk at key p params = Ok (p', v)"
  shows "vs_position v = key" and "unat (vs_total_released_liquidity v) = 0"
    and "0 < vesting_total v" and "vesting_total v < 2 ^ 128"
    and "unat (ps_unlocked_liquidity p) = unat (ps_unlocked_liquidity p') + vesting_total v"
    and "unat (ps_vested_liquidity p') = unat (ps_vested_liquidity p) + vesting_total v"
    and "liq p' = liq p"
proof -
  obtain cp md t c where val: "vesting_parameters_validate params cp md = Ok ()"
    and t: "get_total_lock_amount params = Ok t" and l: "lock p t = Ok p'"
    and v: "v = vesting_initialize key c (vp_period_frequency params)
      (vp_cliff_unlock_liquidity params) (vp_liquidity_per_period params)
      (vp_number_of_period params)"
    using assms by (auto simp: lock_position_def rbind_Ok_iff Let_def)
  show "vs_position v = key" "unat (vs_total_released_liquidity v) = 0"
    by (simp_all add: v vesting_initialize_def)
  have tot: "vesting_total v = unat t"
    using t by (simp add: get_total_lock_amount_iff v vesting_initialize_def vesting_total_def)
  show "0 < vesting_total v"
    using val t tot by (auto simp: vesting_parameters_validate_def rbind_Ok_iff require_Ok_iff
        word_less_unat)
  show "vesting_total v < 2 ^ 128" using unat_bounds(5) [of t] by (simp add: tot)
  show "unat (ps_unlocked_liquidity p) = unat (ps_unlocked_liquidity p') + vesting_total v"
    "unat (ps_vested_liquidity p') = unat (ps_vested_liquidity p) + vesting_total v"
    "liq p' = liq p"
    using lock_effect [OF l] by (simp_all add: tot)
qed

lemma lock_position_inv:
  assumes "vesting_inv key point acc p" and "acc k = None"
    and "lock_position clk at key p params = Ok (p', v)"
  shows "vesting_inv key point (acc(k := Some v)) p'"
proof -
  note e = lock_position_effect [OF assms(3)]
  have "wf_vesting point v" using e(2,4) by (simp add: wf_vesting_def)
  moreover have "vesting_remaining key v = vesting_total v"
    using e(1,2) by (simp add: vesting_remaining_def)
  ultimately show ?thesis
    using assms(1) e(6,7) total_over_insert [of acc k "vesting_remaining key" v] assms(2)
    by (auto simp: vesting_inv_def)
qed

end
