(* ===== verification/Vesting_Handlers.thy ===== *)
theory Vesting_Handlers
  imports Liquidity_Handlers Vesting
begin

text \<open>
  The instructions that lock the liquidity of a position under a vesting and release it:
  \<^verbatim>\<open>ix_lock_position.rs\<close> and \<^verbatim>\<open>ix_refresh_vesting.rs\<close>.
\<close>

definition handle_lock_position ::
  "clock \<Rightarrow> position_accounts \<Rightarrow> pool \<Rightarrow> pubkey \<Rightarrow> position \<Rightarrow> vesting_parameters \<Rightarrow>
   (position \<times> vesting) result" where
  "handle_lock_position clk acc q position_key p params =
     rbind (position_constraints acc p) (\<lambda>_.
     rbind (get_pool_access_validator clk q) (\<lambda>access_validator.
     require (can_lock_position access_validator) PoolDisabled
       (lock_position clk (pl_activation_type q) position_key p params)))"

definition handle_refresh_vesting ::
  "clock \<Rightarrow> position_accounts \<Rightarrow> pool \<Rightarrow> pubkey \<Rightarrow> pubkey list \<Rightarrow> (pubkey \<Rightarrow> vesting option) \<Rightarrow>
   position \<Rightarrow> ((pubkey \<Rightarrow> vesting option) \<times> position) result" where
  "handle_refresh_vesting clk acc q position_key remaining_accounts accounts p =
     rbind (position_constraints acc p) (\<lambda>_.
     refresh_vesting clk (pl_activation_type q) position_key remaining_accounts accounts p)"

end
