(* ===== verification/Operator_Handlers.thy ===== *)
theory Operator_Handlers
  imports Liquidity_Handlers Operator Token_Mint
begin

text \<open>
  The instructions of the operators on a pool (\<^verbatim>\<open>instructions/operator\<close>) and the claim of the partner
  (\<^verbatim>\<open>instructions/partner\<close>), with the access control that \<^verbatim>\<open>lib.rs\<close> puts in front of each. The names
  with the prefix \<open>ix_\<close> are the entry points of \<^verbatim>\<open>lib.rs\<close>.
\<close>

section \<open>The status of a pool\<close>

definition pool_status_of_u8 :: "u8 \<Rightarrow> pool_status option" where
  "pool_status_of_u8 n = (if n = 0 then Some Enable else if n = 1 then Some Disable else None)"

definition handle_set_pool_status :: "pool \<Rightarrow> u8 \<Rightarrow> pool result" where
  "handle_set_pool_status q status =
     rbind (ok_or (pool_status_of_u8 status) TypeCastFailed) (\<lambda>new_pool_status.
     rbind (ok_or (pool_status_of_u8 (pl_pool_status q)) TypeCastFailed) (\<lambda>current_pool_status.
     require (new_pool_status \<noteq> current_pool_status) InvalidPoolStatus
       (Ok (q\<lparr>pl_pool_status := u8_of_pool_status new_pool_status\<rparr>))))"

definition ix_set_pool_status :: "operator \<Rightarrow> pubkey \<Rightarrow> pool \<Rightarrow> u8 \<Rightarrow> pool result" where
  "ix_set_pool_status oper signer q status =
     rbind (is_valid_operator_role oper signer SetPoolStatus) (\<lambda>_. handle_set_pool_status q status)"

section \<open>The fees of a pool\<close>

definition handle_update_pool_fees ::
  "clock \<Rightarrow> pool \<Rightarrow> update_pool_fees_parameters \<Rightarrow> pool result" where
  "handle_update_pool_fees clk q params =
     rbind (update_pool_fees_parameters_validate params) (\<lambda>_.
     validate_and_update_pool_fees clk q params)"

text \<open>An update of the fees changes the fees only.\<close>

lemma update_pool_fees_only_fees:
  assumes "handle_update_pool_fees clk q params = Ok q'"
  obtains f where "q' = q\<lparr>pl_pool_fees := f\<rparr>"
proof -
  obtain q1 where b: "(case get_base_fee_update_mode params of
        UpdateBaseFee c \<Rightarrow> update_base_fee clk q c | SkipBaseFee \<Rightarrow> Ok q) = Ok q1"
    and d: "(case get_dynamic_fee_update_mode params of
       DisableDynamicFee \<Rightarrow>
         require (is_dynamic_fee_enable (pf_dynamic_fee (pl_pool_fees q1))) InvalidDynamicFeeParameters
           (Ok (q1\<lparr>pl_pool_fees := (pl_pool_fees q1)\<lparr>pf_dynamic_fee := dynamic_fee_default\<rparr>\<rparr>))
     | UpdateDynamicFee f \<Rightarrow>
         Ok (q1\<lparr>pl_pool_fees := (pl_pool_fees q1)\<lparr>pf_dynamic_fee := to_dynamic_fee_struct f\<rparr>\<rparr>)
     | SkipDynamicFee \<Rightarrow> Ok q1) = Ok q'"
    using assms unfolding handle_update_pool_fees_def validate_and_update_pool_fees_def rbind_Ok_iff
    by blast
  obtain f where f: "q1 = q\<lparr>pl_pool_fees := f\<rparr>"
  proof (cases "get_base_fee_update_mode params")
    case SkipBaseFee
    then show ?thesis using b that [of "pl_pool_fees q"] by simp
  qed (use b that in \<open>auto simp: update_base_fee_def rbind_Ok_iff require_Ok_iff\<close>)
  show thesis
  proof (cases "get_dynamic_fee_update_mode params")
    case SkipDynamicFee
    then show ?thesis using d that [of f] by (simp add: f)
  qed (use d that in \<open>auto simp: require_Ok_iff f\<close>)
qed

definition ix_update_pool_fees ::
  "operator \<Rightarrow> pubkey \<Rightarrow> clock \<Rightarrow> pool \<Rightarrow> update_pool_fees_parameters \<Rightarrow> pool result" where
  "ix_update_pool_fees oper signer clk q params =
     rbind (is_valid_operator_role oper signer UpdatePoolFees) (\<lambda>_.
     handle_update_pool_fees clk q params)"

section \<open>Protocol and partner fees\<close>

text \<open>
  The token account that receives the protocol fee: its key and the owner that the token program
  reads from it. The key of the associated token account is derived by another program and is an
  argument.
\<close>

record treasury_account =
  ta_key :: pubkey
  ta_authority :: "pubkey result"

definition TREASURY_ID :: pubkey where
  "TREASURY_ID = 21727535938288308403021297414759049205188552038661585225452133841714577128533"

definition validate_ata_token :: "treasury_account \<Rightarrow> pubkey \<Rightarrow> pubkey \<Rightarrow> unit result" where
  "validate_ata_token token_account token_owner ata_address =
     require (ata_address = ta_key token_account) IncorrectATA
       (rbind (ta_authority token_account) (\<lambda>current_owner.
        require (current_owner = token_owner) IncorrectATA (Ok ())))"

record claim_context =
  cl_token_a :: token
  cl_token_b :: token
  cl_token_a_account :: treasury_account
  cl_token_b_account :: treasury_account
  cl_ata_a :: pubkey
  cl_ata_b :: pubkey

definition handle_claim_protocol_fee ::
  "claim_context \<Rightarrow> pool \<Rightarrow> vaults \<Rightarrow> u64 \<Rightarrow> u64 \<Rightarrow> (pool \<times> vaults \<times> u64 \<times> u64) result" where
  "handle_claim_protocol_fee ctx q v max_amount_a max_amount_b =
     rbind (claim_protocol_fee q max_amount_a max_amount_b) (\<lambda>(q, token_a_amount, token_b_amount).
     rbind (if 0 < token_a_amount then
              rbind (validate_ata_token (cl_token_a_account ctx) TREASURY_ID (cl_ata_a ctx)) (\<lambda>_.
              transfer_from_pool (cl_token_a ctx) (va_token_a v) token_a_amount)
            else Ok (va_token_a v)) (\<lambda>a.
     rbind (if 0 < token_b_amount then
              rbind (validate_ata_token (cl_token_b_account ctx) TREASURY_ID (cl_ata_b ctx)) (\<lambda>_.
              transfer_from_pool (cl_token_b ctx) (va_token_b v) token_b_amount)
            else Ok (va_token_b v)) (\<lambda>b.
     Ok (q, \<lparr> va_token_a = a, va_token_b = b \<rparr>, token_a_amount, token_b_amount))))"

definition ix_claim_protocol_fee ::
  "operator \<Rightarrow> pubkey \<Rightarrow> claim_context \<Rightarrow> pool \<Rightarrow> vaults \<Rightarrow> u64 \<Rightarrow> u64 \<Rightarrow>
   (pool \<times> vaults \<times> u64 \<times> u64) result" where
  "ix_claim_protocol_fee oper signer ctx q v max_amount_a max_amount_b =
     rbind (is_valid_operator_role oper signer ClaimProtocolFee) (\<lambda>_.
     handle_claim_protocol_fee ctx q v max_amount_a max_amount_b)"

text \<open>The constraint \<^verbatim>\<open>has_one = partner\<close> of the accounts comes first.\<close>

definition handle_claim_partner_fee ::
  "token \<Rightarrow> token \<Rightarrow> pubkey \<Rightarrow> pool \<Rightarrow> vaults \<Rightarrow> u64 \<Rightarrow> u64 \<Rightarrow>
   (pool \<times> vaults \<times> u64 \<times> u64) result" where
  "handle_claim_partner_fee token_a token_b partner q v max_amount_a max_amount_b =
     (if pl_partner q \<noteq> partner then Inl Foreign
      else
        rbind (claim_partner_fee q max_amount_a max_amount_b)
          (\<lambda>(q, token_a_amount, token_b_amount).
        rbind (if 0 < max_amount_a
               then transfer_from_pool token_a (va_token_a v) token_a_amount
               else Ok (va_token_a v)) (\<lambda>a.
        rbind (if 0 < max_amount_b
               then transfer_from_pool token_b (va_token_b v) token_b_amount
               else Ok (va_token_b v)) (\<lambda>b.
        Ok (q, \<lparr> va_token_a = a, va_token_b = b \<rparr>, token_a_amount, token_b_amount)))))"

section \<open>Badges\<close>

definition ix_create_token_badge ::
  "operator \<Rightarrow> pubkey \<Rightarrow> mint_account \<Rightarrow> token_badge result" where
  "ix_create_token_badge oper signer mint =
     rbind (is_valid_operator_role oper signer CreateTokenBadge) (\<lambda>_.
     handle_create_token_badge mint)"

text \<open>Closing a badge or a config does nothing else than the check of the role.\<close>

definition ix_close_token_badge :: "operator \<Rightarrow> pubkey \<Rightarrow> unit result" where
  "ix_close_token_badge oper signer = is_valid_operator_role oper signer CloseTokenBadge"

definition ix_close_config :: "operator \<Rightarrow> pubkey \<Rightarrow> unit result" where
  "ix_close_config oper signer = is_valid_operator_role oper signer RemoveConfigKey"

section \<open>What the claims take\<close>

lemma claim_protocol_fee_effect:
  assumes "claim_protocol_fee q ma mb = Ok (q', a, b)"
  shows "unat (pl_protocol_a_fee q) = unat (pl_protocol_a_fee q') + unat a"
    and "unat (pl_protocol_b_fee q) = unat (pl_protocol_b_fee q') + unat b"
    and "q' = q\<lparr>pl_protocol_a_fee := pl_protocol_a_fee q', pl_protocol_b_fee := pl_protocol_b_fee q'\<rparr>"
    and "a = min (pl_protocol_a_fee q) ma" and "b = min (pl_protocol_b_fee q) mb"
  using assms by (auto simp: claim_protocol_fee_def Let_def ok_iffs)

lemma claim_partner_fee_effect:
  assumes "claim_partner_fee q ma mb = Ok (q', a, b)"
  shows "unat (pl_partner_a_fee q) = unat (pl_partner_a_fee q') + unat a"
    and "unat (pl_partner_b_fee q) = unat (pl_partner_b_fee q') + unat b"
    and "q' = q\<lparr>pl_partner_a_fee := pl_partner_a_fee q', pl_partner_b_fee := pl_partner_b_fee q'\<rparr>"
    and "a = min (pl_partner_a_fee q) ma" and "b = min (pl_partner_b_fee q) mb"
  using assms by (auto simp: claim_partner_fee_def Let_def ok_iffs)

text \<open>A pool status that is set is one of the two, and differs from the one before.\<close>

lemma handle_set_pool_status_Ok:
  assumes "handle_set_pool_status q s = Ok q'"
  shows "q' = q\<lparr>pl_pool_status := s\<rparr>" and "s \<noteq> pl_pool_status q" and "s = 0 \<or> s = 1"
  using assms by (auto simp: handle_set_pool_status_def pool_status_of_u8_def ok_iffs split: if_splits)

end
