(* ===== verification/Zap_Protocol_Fee.thy ===== *)
theory Zap_Protocol_Fee
  imports Operator_Handlers
begin

text \<open>
  \<^verbatim>\<open>instructions/operator/zap_protocol_fee\<close>: an operator withdraws the protocol fee of one token to its
  own account, on condition that the next instruction of the transaction swaps all of it into an
  account of the treasury.

  The zap program and the aggregator are not part of the source. Their identifiers, their
  discriminators, the decoding of their parameters and the derivation of associated token accounts
  are the arguments in \<open>zap_ids\<close>; the instructions of the transaction are an argument too.
\<close>

section \<open>The swap of the next instruction\<close>

record zap_out_parameters =
  zo_percentage :: u8
  zo_offset_amount_in :: u16
  zo_pre_user_token_balance :: u64
  zo_max_swap_amount :: u64
  zo_payload_data :: bytes

datatype swap_leg =
  Meteora | MeteoraDammV2 | MeteoraDammV2WithRemainingAccounts | MeteoraDlmm | MeteoraDlmmSwapV2
  | Mercurial | Whirlpool | WhirlpoolSwapV2 | Raydium | RaydiumV2 | RaydiumCP | RaydiumClmm
  | RaydiumClmmV2 | OtherSwap

record zap_ids =
  zi_program :: pubkey
  zi_zap_program :: pubkey
  zi_zap_out_discriminator :: bytes
  zi_damm_v2_swap_discriminator :: bytes
  zi_jup_route_discriminator :: bytes
  zi_jup_shared_route_discriminator :: bytes
  zi_decode_zap_out :: "bytes \<Rightarrow> zap_out_parameters result"
  zi_decode_route :: "bytes \<Rightarrow> swap_leg list result"
  zi_decode_shared_route :: "bytes \<Rightarrow> swap_leg list result"
  zi_associated_token_address :: "pubkey \<Rightarrow> pubkey \<Rightarrow> pubkey \<Rightarrow> pubkey"
  zi_token_program :: pubkey
  zi_token_2022_program :: pubkey
  zi_treasury_usdc :: pubkey
  zi_treasury_sol :: pubkey

definition JUP_V6 :: pubkey where
  "JUP_V6 = 2024512440004304401218460610310738430137902625605816137218628783959189492623"
definition USDC_ADDRESS :: pubkey where
  "USDC_ADDRESS = 90000504370102394704099784797280792267247599056409324908524740370261802442081"
definition SOL_ADDRESS :: pubkey where
  "SOL_ADDRESS = 2988679396378646993494765771507681406623014513651778753134412041978399162369"
definition MINTS_DISALLOWED_TO_ZAP_OUT :: "pubkey list" where
  "MINTS_DISALLOWED_TO_ZAP_OUT = [USDC_ADDRESS, SOL_ADDRESS]"
definition JUP_V6_SHARED_ACCOUNT_ROUTE_AMOUNT_IN_REVERSE_OFFSET :: nat where
  "JUP_V6_SHARED_ACCOUNT_ROUTE_AMOUNT_IN_REVERSE_OFFSET = 1 + 2 + 8 + 8"
definition JUP_V6_SHARED_ACCOUNT_ROUTE_SOURCE_ACCOUNT_INDEX :: nat where
  "JUP_V6_SHARED_ACCOUNT_ROUTE_SOURCE_ACCOUNT_INDEX = 3"
definition JUP_V6_SHARED_ACCOUNT_ROUTE_DESTINATION_ACCOUNT_INDEX :: nat where
  "JUP_V6_SHARED_ACCOUNT_ROUTE_DESTINATION_ACCOUNT_INDEX = 6"
definition JUP_V6_ROUTE_AMOUNT_IN_REVERSE_OFFSET :: nat where
  "JUP_V6_ROUTE_AMOUNT_IN_REVERSE_OFFSET = 1 + 2 + 8 + 8"
definition JUP_V6_ROUTE_SOURCE_ACCOUNT_INDEX :: nat where
  "JUP_V6_ROUTE_SOURCE_ACCOUNT_INDEX = 2"
definition JUP_V6_ROUTE_DESTINATION_ACCOUNT_INDEX :: nat where
  "JUP_V6_ROUTE_DESTINATION_ACCOUNT_INDEX = 4"
definition DAMM_V2_SWAP_AMOUNT_IN_OFFSET :: u16 where
  "DAMM_V2_SWAP_AMOUNT_IN_OFFSET = 8"
definition DAMM_V2_SWAP_SOURCE_ACCOUNT_INDEX :: nat where
  "DAMM_V2_SWAP_SOURCE_ACCOUNT_INDEX = 2"
definition DAMM_V2_SWAP_DESTINATION_ACCOUNT_INDEX :: nat where
  "DAMM_V2_SWAP_DESTINATION_ACCOUNT_INDEX = 3"

record raw_zap_out_amm_info =
  ra_source_index :: nat
  ra_destination_index :: nat
  ra_amount_in_offset :: u16

record zap_out_amm_info =
  za_zap_user_token_in_address :: pubkey
  za_amm_source_token_address :: pubkey
  za_amm_destination_token_address :: pubkey
  za_amount_in_offset :: u16

text \<open>The three implementations of the trait \<^verbatim>\<open>ZapInfoProcessor\<close>.\<close>

datatype zap_processor =
  ZapDammV2InfoProcessor | ZapJupV6RouteInfoProcessor | ZapJupV6SharedRouteInfoProcessor

definition get_zap_amm_processor :: "zap_ids \<Rightarrow> bytes \<Rightarrow> pubkey \<Rightarrow> zap_processor result" where
  "get_zap_amm_processor ids amm_disc amm_program_address =
     (if amm_disc = zi_damm_v2_swap_discriminator ids \<and> amm_program_address = zi_program ids
      then Ok ZapDammV2InfoProcessor
      else if amm_disc = zi_jup_route_discriminator ids \<and> amm_program_address = JUP_V6
      then Ok ZapJupV6RouteInfoProcessor
      else if amm_disc = zi_jup_shared_route_discriminator ids \<and> amm_program_address = JUP_V6
      then Ok ZapJupV6SharedRouteInfoProcessor
      else Err InvalidZapOutParameters)"

fun ensure_whitelisted_swap_leg :: "swap_leg list \<Rightarrow> unit result" where
  "ensure_whitelisted_swap_leg [] = Ok ()"
| "ensure_whitelisted_swap_leg (step # steps) =
     (case step of
        OtherSwap \<Rightarrow> Err InvalidZapOutParameters
      | _ \<Rightarrow> ensure_whitelisted_swap_leg steps)"

definition validate_payload :: "zap_ids \<Rightarrow> zap_processor \<Rightarrow> bytes \<Rightarrow> unit result" where
  "validate_payload ids self payload =
     (case self of
        ZapDammV2InfoProcessor \<Rightarrow> Ok ()
      | ZapJupV6RouteInfoProcessor \<Rightarrow>
          rbind (zi_decode_route ids payload) ensure_whitelisted_swap_leg
      | ZapJupV6SharedRouteInfoProcessor \<Rightarrow>
          rbind (zi_decode_shared_route ids payload) ensure_whitelisted_swap_leg)"

text \<open>\<^verbatim>\<open>len().safe_sub(offset)?.safe_cast()?\<close> to 16 bits.\<close>

definition offset_from_end :: "bytes \<Rightarrow> nat \<Rightarrow> u16 result" where
  "offset_from_end payload_data reverse_offset =
     (if length payload_data < reverse_offset then Err MathOverflow
      else if 2 ^ 16 \<le> length payload_data - reverse_offset then Err TypeCastFailed
      else Ok (of_nat (length payload_data - reverse_offset)))"

definition extract_raw_zap_out_amm_info ::
  "zap_processor \<Rightarrow> zap_out_parameters \<Rightarrow> raw_zap_out_amm_info result" where
  "extract_raw_zap_out_amm_info self zap_params =
     (case self of
        ZapDammV2InfoProcessor \<Rightarrow>
          Ok \<lparr> ra_source_index = DAMM_V2_SWAP_SOURCE_ACCOUNT_INDEX,
               ra_destination_index = DAMM_V2_SWAP_DESTINATION_ACCOUNT_INDEX,
               ra_amount_in_offset = DAMM_V2_SWAP_AMOUNT_IN_OFFSET \<rparr>
      | ZapJupV6RouteInfoProcessor \<Rightarrow>
          rbind (offset_from_end (zo_payload_data zap_params) JUP_V6_ROUTE_AMOUNT_IN_REVERSE_OFFSET)
            (\<lambda>amount_in_offset.
          Ok \<lparr> ra_source_index = JUP_V6_ROUTE_SOURCE_ACCOUNT_INDEX,
               ra_destination_index = JUP_V6_ROUTE_DESTINATION_ACCOUNT_INDEX,
               ra_amount_in_offset = amount_in_offset \<rparr>)
      | ZapJupV6SharedRouteInfoProcessor \<Rightarrow>
          rbind (offset_from_end (zo_payload_data zap_params)
            JUP_V6_SHARED_ACCOUNT_ROUTE_AMOUNT_IN_REVERSE_OFFSET) (\<lambda>amount_in_offset.
          Ok \<lparr> ra_source_index = JUP_V6_SHARED_ACCOUNT_ROUTE_SOURCE_ACCOUNT_INDEX,
               ra_destination_index = JUP_V6_SHARED_ACCOUNT_ROUTE_DESTINATION_ACCOUNT_INDEX,
               ra_amount_in_offset = amount_in_offset \<rparr>))"

text \<open>\<^verbatim>\<open>.get(i)\<close> and \<^verbatim>\<open>.get(..n)\<close>, \<^verbatim>\<open>.get(n..)\<close> with \<^verbatim>\<open>.ok_or_else\<close>.\<close>

definition get_at :: "'a list \<Rightarrow> nat \<Rightarrow> pool_error \<Rightarrow> 'a result" where
  "get_at xs i e = (if i < length xs then Ok (xs ! i) else Err e)"

definition get_upto :: "'a list \<Rightarrow> nat \<Rightarrow> pool_error \<Rightarrow> 'a list result" where
  "get_upto xs n e = (if n \<le> length xs then Ok (take n xs) else Err e)"

definition get_from :: "'a list \<Rightarrow> nat \<Rightarrow> pool_error \<Rightarrow> 'a list result" where
  "get_from xs n e = (if n \<le> length xs then Ok (drop n xs) else Err e)"

definition extract_amm_accounts_and_info ::
  "zap_ids \<Rightarrow> zap_out_parameters \<Rightarrow> pubkey list \<Rightarrow> zap_out_amm_info result" where
  "extract_amm_accounts_and_info ids zap_params zap_account =
     rbind (get_at zap_account 0 InvalidZapAccounts) (\<lambda>zap_user_token_in_address.
     rbind (get_at zap_account 1 InvalidZapAccounts) (\<lambda>zap_amm_program_address.
     rbind (get_upto (zo_payload_data zap_params) 8 InvalidZapOutParameters) (\<lambda>amm_disc.
     rbind (get_zap_amm_processor ids amm_disc zap_amm_program_address) (\<lambda>zap_info_processor.
     rbind (get_from (zo_payload_data zap_params) 8 InvalidZapOutParameters) (\<lambda>amm_payload.
     rbind (validate_payload ids zap_info_processor amm_payload) (\<lambda>_.
     rbind (extract_raw_zap_out_amm_info zap_info_processor zap_params) (\<lambda>raw.
     rbind (get_from zap_account 2 InvalidZapAccounts) (\<lambda>amm_accounts.
     rbind (get_at amm_accounts (ra_source_index raw) InvalidZapAccounts) (\<lambda>source_token_address.
     rbind (get_at amm_accounts (ra_destination_index raw) InvalidZapAccounts)
       (\<lambda>destination_token_address.
     Ok \<lparr> za_zap_user_token_in_address = zap_user_token_in_address,
          za_amm_source_token_address = source_token_address,
          za_amm_destination_token_address = destination_token_address,
          za_amount_in_offset = ra_amount_in_offset raw \<rparr>))))))))))"

section \<open>The checks on the next instruction\<close>

text \<open>The account that receives the fee: its key, its owner and its balance.\<close>

record receiver_account =
  rc_account :: treasury_account
  rc_amount :: "u64 result"

definition validate_zap_parameters ::
  "zap_out_parameters \<Rightarrow> u64 \<Rightarrow> u16 \<Rightarrow> receiver_account \<Rightarrow> unit result" where
  "validate_zap_parameters zap_params max_claim_amount amount_in_offset claimer =
     require (zo_percentage zap_params = 100) InvalidZapOutParameters
     (require (zo_offset_amount_in zap_params = amount_in_offset) InvalidZapOutParameters
     (rbind (rc_amount claimer) (\<lambda>amount.
      require (zo_pre_user_token_balance zap_params = amount) InvalidZapOutParameters
      (require (zo_max_swap_amount zap_params = max_claim_amount) InvalidZapOutParameters
        (Ok ())))))"

definition search_and_validate_zap_out_instruction ::
  "zap_ids \<Rightarrow> instruction list \<Rightarrow> u16 \<Rightarrow> u64 \<Rightarrow> receiver_account \<Rightarrow> pubkey \<Rightarrow> unit result" where
  "search_and_validate_zap_out_instruction ids instructions current_index max_claim_amount claimer
     treasury_paired_destination =
     rbind (safe_add current_index 1) (\<lambda>next_index.
     if length instructions \<le> unat next_index then Inl Foreign
     else
       let ix = instructions ! unat next_index in
       require (in_program_id ix = zi_zap_program ids) MissingZapOutInstruction
       (rbind (get_upto (in_data ix) 8 InvalidZapOutParameters) (\<lambda>disc.
        require (disc = zi_zap_out_discriminator ids) MissingZapOutInstruction
        (rbind (zi_decode_zap_out ids (drop 8 (in_data ix))) (\<lambda>zap_params.
         rbind (extract_amm_accounts_and_info ids zap_params (in_accounts ix)) (\<lambda>info.
         rbind (validate_zap_parameters zap_params max_claim_amount (za_amount_in_offset info)
           claimer) (\<lambda>_.
         require (za_zap_user_token_in_address info = ta_key (rc_account claimer))
           InvalidZapAccounts
         (require (za_amm_source_token_address info = ta_key (rc_account claimer))
           InvalidZapAccounts
         (require (za_amm_destination_token_address info = treasury_paired_destination \<or>
             za_amm_destination_token_address info = zi_treasury_usdc ids \<or>
             za_amm_destination_token_address info = zi_treasury_sol ids) InvalidZapAccounts
           (Ok ())))))))))) "

definition validate_zap_out_to_treasury ::
  "zap_ids \<Rightarrow> instruction list \<Rightarrow> u16 \<Rightarrow> u64 \<Rightarrow> receiver_account \<Rightarrow> pubkey \<Rightarrow> unit result" where
  "validate_zap_out_to_treasury ids instructions current_index claimed_amount claimer
     treasury_paired_destination =
     (if length instructions \<le> unat current_index then Inl Foreign
      else
        require (in_program_id (instructions ! unat current_index) = zi_program ids) CpiDisabled
          (search_and_validate_zap_out_instruction ids instructions current_index claimed_amount
            claimer treasury_paired_destination))"

section \<open>The instruction\<close>

record zap_context =
  zc_ids :: zap_ids
  zc_instructions :: "instruction list"
  zc_current_index :: u16
  zc_token_vault :: pubkey
  zc_token_mint :: pubkey
  zc_token_mint_owner :: pubkey
  zc_token_program :: pubkey
  zc_token :: token
  zc_receiver :: receiver_account
  zc_signer :: pubkey

definition validate_accounts_and_return_withdraw_direction ::
  "zap_context \<Rightarrow> pool \<Rightarrow> bool result" where
  "validate_accounts_and_return_withdraw_direction ctx q =
     require (zc_token_mint ctx = pl_token_a_mint q \<or> zc_token_mint ctx = pl_token_b_mint q)
       InvalidWithdrawProtocolFeeZapAccounts
     (let is_withdrawing_token_a = (zc_token_mint ctx = pl_token_a_mint q) in
      require (zc_token_vault ctx =
          (if is_withdrawing_token_a then pl_token_a_vault q else pl_token_b_vault q))
        InvalidWithdrawProtocolFeeZapAccounts
      (require (zc_token_mint_owner ctx = zc_token_program ctx)
        InvalidWithdrawProtocolFeeZapAccounts (Ok is_withdrawing_token_a)))"

definition get_token_program_from_flag :: "zap_ids \<Rightarrow> u8 \<Rightarrow> pubkey result" where
  "get_token_program_from_flag ids token_program_flag =
     (if token_program_flag = 0 then Ok (zi_token_program ids)
      else if token_program_flag = 1 then Ok (zi_token_2022_program ids)
      else Err TypeCastFailed)"

text \<open>
  The claim of one of the two fees, with the account of the treasury for the other token of the
  pool.
\<close>

definition zap_claim ::
  "zap_ids \<Rightarrow> pool \<Rightarrow> bool \<Rightarrow> u64 \<Rightarrow> (pool \<times> u64 \<times> pubkey) result" where
  "zap_claim ids q is_withdrawing_a max_amount =
     (if is_withdrawing_a then
        rbind (claim_protocol_fee q max_amount 0) (\<lambda>(q', amount_a, _).
        rbind (get_token_program_from_flag ids (pl_token_b_flag q)) (\<lambda>program.
        Ok (q', amount_a, zi_associated_token_address ids TREASURY_ID (pl_token_b_mint q) program)))
      else
        rbind (claim_protocol_fee q 0 max_amount) (\<lambda>(q', _, amount_b).
        rbind (get_token_program_from_flag ids (pl_token_a_flag q)) (\<lambda>program.
        Ok (q', amount_b, zi_associated_token_address ids TREASURY_ID (pl_token_a_mint q) program))))"

definition handle_zap_protocol_fee ::
  "zap_context \<Rightarrow> pool \<Rightarrow> vaults \<Rightarrow> u64 \<Rightarrow> (pool \<times> vaults \<times> u64) result" where
  "handle_zap_protocol_fee ctx q v max_amount =
     rbind (validate_accounts_and_return_withdraw_direction ctx q) (\<lambda>is_withdrawing_a.
     require (zc_token_mint ctx \<notin> set MINTS_DISALLOWED_TO_ZAP_OUT) MintRestrictedFromZap
       (rbind (zap_claim (zc_ids ctx) q is_withdrawing_a max_amount)
         (\<lambda>(q, amount, treasury_paired_destination).
        require (0 < amount) AmountIsZero
          (rbind (validate_ata_token (rc_account (zc_receiver ctx)) (zc_signer ctx)
            (zi_associated_token_address (zc_ids ctx) (zc_signer ctx) (zc_token_mint ctx)
              (zc_token_program ctx))) (\<lambda>_.
           rbind (validate_zap_out_to_treasury (zc_ids ctx) (zc_instructions ctx)
             (zc_current_index ctx) amount (zc_receiver ctx) treasury_paired_destination) (\<lambda>_.
           rbind (transfer_from_pool (zc_token ctx)
             (if is_withdrawing_a then va_token_a v else va_token_b v) amount) (\<lambda>balance.
           Ok (q, (if is_withdrawing_a then v\<lparr>va_token_a := balance\<rparr> else v\<lparr>va_token_b := balance\<rparr>),
               amount))))))))"

definition zap_protocol_fee ::
  "operator \<Rightarrow> pubkey \<Rightarrow> zap_context \<Rightarrow> pool \<Rightarrow> vaults \<Rightarrow> u64 \<Rightarrow> (pool \<times> vaults \<times> u64) result" where
  "zap_protocol_fee oper signer ctx q v max_amount =
     rbind (is_valid_operator_role oper signer ZapProtocolFee) (\<lambda>_.
     handle_zap_protocol_fee ctx q v max_amount)"

section \<open>The fee reaches the treasury\<close>

text \<open>
  The instruction \<open>ix\<close> zaps all of \<open>amount\<close> out of the account \<open>from\<close> into an account of the
  treasury, on an exchange that the program knows.
\<close>

definition zaps_to_treasury ::
  "zap_ids \<Rightarrow> instruction \<Rightarrow> u64 \<Rightarrow> receiver_account \<Rightarrow> pubkey \<Rightarrow> bool" where
  "zaps_to_treasury ids ix amount receiver paired \<longleftrightarrow>
     in_program_id ix = zi_zap_program ids \<and> take 8 (in_data ix) = zi_zap_out_discriminator ids \<and>
     (\<exists>zp info. zi_decode_zap_out ids (drop 8 (in_data ix)) = Ok zp \<and>
        extract_amm_accounts_and_info ids zp (in_accounts ix) = Ok info \<and>
        zo_percentage zp = 100 \<and> zo_max_swap_amount zp = amount \<and>
        rc_amount receiver = Ok (zo_pre_user_token_balance zp) \<and>
        zo_offset_amount_in zp = za_amount_in_offset info \<and>
        za_zap_user_token_in_address info = ta_key (rc_account receiver) \<and>
        za_amm_source_token_address info = ta_key (rc_account receiver) \<and>
        za_amm_destination_token_address info \<in>
          {paired, zi_treasury_usdc ids, zi_treasury_sol ids})"

lemma search_zap_out_Ok:
  assumes "search_and_validate_zap_out_instruction ids ins i amount receiver paired = Ok ()"
  shows "unat i + 1 < length ins" and "zaps_to_treasury ids (ins ! (unat i + 1)) amount receiver paired"
  using assms
  by (auto simp: search_and_validate_zap_out_instruction_def Let_def ok_iffs
      zaps_to_treasury_def get_upto_def validate_zap_parameters_def)

lemma zap_claim_Ok:
  assumes "zap_claim ids q is_a m = Ok (q', amount, paired)"
  shows "unat (pl_protocol_a_fee q) = unat (pl_protocol_a_fee q') + (if is_a then unat amount else 0)"
    and "unat (pl_protocol_b_fee q) = unat (pl_protocol_b_fee q') + (if is_a then 0 else unat amount)"
    and "q' = q\<lparr>pl_protocol_a_fee := pl_protocol_a_fee q', pl_protocol_b_fee := pl_protocol_b_fee q'\<rparr>"
    and "amount \<le> m"
proof -
  obtain a b where c: "claim_protocol_fee q (if is_a then m else 0) (if is_a then 0 else m) = Ok (q', a, b)"
    and amount: "amount = (if is_a then a else b)"
    using assms by (cases is_a) (auto simp: zap_claim_def rbind_Ok_iff)
  note e = claim_protocol_fee_effect [OF c]
  have "\<not> is_a \<Longrightarrow> a = 0" "is_a \<Longrightarrow> b = 0" using e(4,5) by simp_all
  then show "unat (pl_protocol_a_fee q) = unat (pl_protocol_a_fee q') + (if is_a then unat amount else 0)"
    "unat (pl_protocol_b_fee q) = unat (pl_protocol_b_fee q') + (if is_a then 0 else unat amount)"
    using e(1,2) by (cases is_a; simp add: amount)+
  show "amount \<le> m" unfolding amount e(4,5) by (cases is_a) simp_all
  show "q' = q\<lparr>pl_protocol_a_fee := pl_protocol_a_fee q', pl_protocol_b_fee := pl_protocol_b_fee q'\<rparr>"
    by (rule e(3))
qed

lemma handle_zap_protocol_fee_Ok:
  assumes "handle_zap_protocol_fee ctx q v m = Ok (q', v', amount)"
  obtains is_a paired where
    "zap_claim (zc_ids ctx) q is_a m = Ok (q', amount, paired)" and "0 < amount"
    and "zc_token_mint ctx = (if is_a then pl_token_a_mint q else pl_token_b_mint q)"
    and "zc_token_vault ctx = (if is_a then pl_token_a_vault q else pl_token_b_vault q)"
    and "zc_token_mint ctx \<notin> set MINTS_DISALLOWED_TO_ZAP_OUT"
    and "validate_zap_out_to_treasury (zc_ids ctx) (zc_instructions ctx) (zc_current_index ctx)
      amount (zc_receiver ctx) paired = Ok ()"
    and "transfer_from_pool (zc_token ctx) (if is_a then va_token_a v else va_token_b v) amount =
      Ok (if is_a then va_token_a v' else va_token_b v')"
    and "v' = (if is_a then v\<lparr>va_token_a := va_token_a v'\<rparr> else v\<lparr>va_token_b := va_token_b v'\<rparr>)"
  using assms
  by (auto simp: handle_zap_protocol_fee_def rbind_Ok_iff require_Ok_iff Let_def
      validate_accounts_and_return_withdraw_direction_def split: prod.splits if_splits)

end
