(* ===== verification/Solvency.thy ===== *)
theory Solvency
  imports Swap_Accounts Init_Pool Vesting_Handlers Zap_Protocol_Fee
begin

text \<open>
  What a pool owes, on each of its two sides: the reserves of its liquidity at the current price, the
  fees of the protocol and of the partner, and what the positions have earned and not claimed. An
  instruction keeps a pool solvent when this never exceeds the balance of the vault.
\<close>

declare of_nat_unat [simp del]

datatype side = A | B

definition side_in :: "trade_direction \<Rightarrow> side" where
  "side_in d = (case d of AtoB \<Rightarrow> A | BtoA \<Rightarrow> B)"

definition side_out :: "trade_direction \<Rightarrow> side" where
  "side_out d = (case d of AtoB \<Rightarrow> B | BtoA \<Rightarrow> A)"

definition fee_side :: "fee_mode \<Rightarrow> side" where
  "fee_side fm = (if fm_fees_on_token_a fm then A else B)"

definition balance :: "side \<Rightarrow> vaults \<Rightarrow> nat" where
  "balance s v = (case s of A \<Rightarrow> unat (va_token_a v) | B \<Rightarrow> unat (va_token_b v))"

definition reserve :: "side \<Rightarrow> u128 \<Rightarrow> pool \<Rightarrow> real" where
  "reserve s l q = (case s of A \<Rightarrow> reserve_a l q | B \<Rightarrow> reserve_b l q)"

definition claims :: "side \<Rightarrow> pool \<Rightarrow> nat" where
  "claims s q = (case s of
     A \<Rightarrow> unat (pl_protocol_a_fee q) + unat (pl_partner_a_fee q)
   | B \<Rightarrow> unat (pl_protocol_b_fee q) + unat (pl_partner_b_fee q))"

definition fee_per_liquidity :: "side \<Rightarrow> pool \<Rightarrow> u256" where
  "fee_per_liquidity s q =
     (case s of A \<Rightarrow> pl_fee_a_per_liquidity q | B \<Rightarrow> pl_fee_b_per_liquidity q)"

definition checkpoint :: "side \<Rightarrow> position \<Rightarrow> u256" where
  "checkpoint s p =
     (case s of A \<Rightarrow> ps_fee_a_per_token_checkpoint p | B \<Rightarrow> ps_fee_b_per_token_checkpoint p)"

definition pending :: "side \<Rightarrow> position \<Rightarrow> u64" where
  "pending s p = (case s of A \<Rightarrow> ps_fee_a_pending p | B \<Rightarrow> ps_fee_b_pending p)"

text \<open>What a position has earned, in units of \<open>2 ^ -128\<close> of a token.\<close>

definition owed :: "side \<Rightarrow> pool \<Rightarrow> position \<Rightarrow> nat" where
  "owed s q p = earned (liq p) (fee_per_liquidity s q) (checkpoint s p) (pending s p)"

definition liability :: "side \<Rightarrow> pool \<Rightarrow> (pubkey \<Rightarrow> position option) \<Rightarrow> real" where
  "liability s q ps = reserve s (pl_liquidity q) q + real (claims s q) +
     real (total_over (owed s q) ps) / 2 ^ 128"

definition solvent :: "pool \<Rightarrow> vaults \<Rightarrow> (pubkey \<Rightarrow> position option) \<Rightarrow> bool" where
  "solvent q v ps \<longleftrightarrow> (\<forall>s. liability s q ps \<le> real (balance s v))"

text \<open>The books of a pool: its range, its liquidity as that of its positions, and solvency.\<close>

definition books :: "pool \<Rightarrow> vaults \<Rightarrow> (pubkey \<Rightarrow> position option) \<Rightarrow> bool" where
  "books q v ps \<longleftrightarrow> finite (dom ps) \<and> wf_prices q \<and>
     unat (pl_liquidity q) = total_over liq ps \<and> solvent q v ps"

lemmas side_defs = balance_def reserve_def claims_def fee_per_liquidity_def checkpoint_def
  pending_def side_in_def side_out_def fee_side_def

text \<open>What is owed and kept depends on these fields of the pool only.\<close>

definition same_books :: "pool \<Rightarrow> pool \<Rightarrow> bool" where
  "same_books q q' \<longleftrightarrow>
     pl_liquidity q' = pl_liquidity q \<and> pl_sqrt_price q' = pl_sqrt_price q \<and>
     pl_sqrt_min_price q' = pl_sqrt_min_price q \<and> pl_sqrt_max_price q' = pl_sqrt_max_price q \<and>
     pl_protocol_a_fee q' = pl_protocol_a_fee q \<and> pl_protocol_b_fee q' = pl_protocol_b_fee q \<and>
     pl_partner_a_fee q' = pl_partner_a_fee q \<and> pl_partner_b_fee q' = pl_partner_b_fee q \<and>
     pl_fee_a_per_liquidity q' = pl_fee_a_per_liquidity q \<and>
     pl_fee_b_per_liquidity q' = pl_fee_b_per_liquidity q"

lemma same_books_refl [simp]: "same_books q q"
  by (simp add: same_books_def)

lemma same_books_trans: "same_books q q1 \<Longrightarrow> same_books q1 q2 \<Longrightarrow> same_books q q2"
  by (simp add: same_books_def)

lemma same_books_owed: "same_books q q' \<Longrightarrow> owed s q' = owed s q"
  by (rule ext) (cases s; simp add: owed_def same_books_def side_defs)

lemma same_books_parts:
  assumes "same_books q q'"
  shows "reserve s l q' = reserve s l q" and "claims s q' = claims s q"
    and "pl_liquidity q' = pl_liquidity q" and "wf_prices q' \<longleftrightarrow> wf_prices q"
  using assms reserve_cong [of q' q]
  by (cases s; simp add: same_books_def side_defs wf_prices_def)+

lemma same_books_books:
  assumes "same_books q q'" shows "books q' v ps \<longleftrightarrow> books q v ps"
  using same_books_parts [OF assms] same_books_owed [OF assms]
  by (simp add: books_def solvent_def liability_def)

section \<open>One position changes\<close>

text \<open>
  A position is replaced by one that is owed at most \<open>x s\<close> less, its liquidity and that of the pool
  move together, and the vaults pay for what has changed.
\<close>

lemma books_update:
  assumes b: "books q v ps" and k: "ps k = Some p"
    and wf: "wf_prices q'"
    and l: "unat (pl_liquidity q') + liq p = unat (pl_liquidity q) + liq p'"
    and f: "\<And>s. fee_per_liquidity s q' = fee_per_liquidity s q"
    and s: "\<And>s. reserve s (pl_liquidity q') q' + real (claims s q') + real (owed s q p') / 2 ^ 128 +
      real (balance s v) \<le> reserve s (pl_liquidity q) q + real (claims s q) +
      real (owed s q p) / 2 ^ 128 + real (balance s v')"
  shows "books q' v' (ps(k := Some p'))"
proof -
  have fin: "finite (dom ps)" and L: "unat (pl_liquidity q) = total_over liq ps"
    and sol: "\<And>s. liability s q ps \<le> real (balance s v)"
    using b by (simp_all add: books_def solvent_def)
  have o': "owed s q' = owed s q" for s by (rule ext) (simp add: owed_def f)
  have "liability s q' (ps(k := Some p')) \<le> real (balance s v')" for s
  proof -
    have "total_over (owed s q) (ps(k := Some p')) + owed s q p = total_over (owed s q) ps + owed s q p'"
      by (rule total_over_update [OF fin k])
    then have "real (total_over (owed s q) (ps(k := Some p'))) / 2 ^ 128 + real (owed s q p) / 2 ^ 128 =
        real (total_over (owed s q) ps) / 2 ^ 128 + real (owed s q p') / 2 ^ 128"
      by (simp only: of_nat_add [symmetric] add_divide_distrib [symmetric])
    then show ?thesis using s [of s] sol [of s] unfolding liability_def o' by linarith
  qed
  moreover have "unat (pl_liquidity q') = total_over liq (ps(k := Some p'))"
    using total_over_update [where f = liq, OF fin k, of p'] l L by linarith
  ultimately show ?thesis using fin wf by (simp add: books_def solvent_def)
qed

lemma update_fee_owed:
  assumes "update_fee p (pl_fee_a_per_liquidity q) (pl_fee_b_per_liquidity q) = Ok p'"
  shows "owed s q p' \<le> owed s q p" and "liq p' = liq p"
    and "checkpoint s p' = fee_per_liquidity s q"
proof -
  have ck: "ps_fee_a_per_token_checkpoint p' = pl_fee_a_per_liquidity q"
    "ps_fee_b_per_token_checkpoint p' = pl_fee_b_per_liquidity q"
    by (subst update_fee_effect(1) [OF assms], simp)+
  show "owed s q p' \<le> owed s q p"
    using update_fee_earned [OF assms] by (cases s; simp add: owed_def side_defs)
  show "liq p' = liq p" by (rule update_fee_effect(2) [OF assms])
  show "checkpoint s p' = fee_per_liquidity s q" using ck by (cases s; simp add: side_defs)
qed

text \<open>Once its fees are up to date, a position is owed exactly what is pending.\<close>

lemma owed_up_to_date:
  "checkpoint s p = fee_per_liquidity s q \<Longrightarrow> owed s q p = unat (pending s p) * 2 ^ 128"
  by (simp add: owed_def earned_def)

section \<open>Swaps\<close>

text \<open>The three modes, what the transfers do and what the curve asks for.\<close>

lemma fee_mode_side:
  assumes "get_fee_mode m d h = Ok fm"
  shows "fee_side fm = (if fm_fees_on_input fm then side_in d else side_out d)"
    and "fm_has_referral fm = h"
proof -
  obtain cm where "collect_fee_mode_of_u8 m = Some cm"
    using assms by (auto simp: get_fee_mode_def rbind_Ok_iff ok_or_Ok_iff)
  then show "fee_side fm = (if fm_fees_on_input fm then side_in d else side_out d)"
    and "fm_has_referral fm = h"
    using assms by (cases cm; cases d; auto simp: get_fee_mode_def side_defs)+
qed

lemma process_swap_Ok:
  assumes "process_swap mode pp = Ok r" and "wf_prices (pp_pool pp)"
  shows "sound_swap (pp_pool pp) (pp_fee_mode pp) (pp_trade_direction pp) (pr_swap_result r)"
    and "pr_included_transfer_fee_amount_out r = sr_output_amount (pr_swap_result r)"
    and "token_law (pp_token_in_mint pp) \<Longrightarrow>
      transfer_from_user (pp_token_in_mint pp) w (pr_included_transfer_fee_amount_in r) = Ok w' \<Longrightarrow>
      unat w' = unat w + unat (sr_included_fee_input_amount (pr_swap_result r))"
proof -
  have "sound_swap (pp_pool pp) (pp_fee_mode pp) (pp_trade_direction pp) (pr_swap_result r) \<and>
    pr_included_transfer_fee_amount_out r = sr_output_amount (pr_swap_result r) \<and>
    (token_law (pp_token_in_mint pp) \<longrightarrow>
      transfer_from_user (pp_token_in_mint pp) w (pr_included_transfer_fee_amount_in r) = Ok w' \<longrightarrow>
      unat w' = unat w + unat (sr_included_fee_input_amount (pr_swap_result r)))"
  proof (cases mode)
    case ExactIn
    then obtain e out sr where
      e: "calculate_transfer_fee_excluded_amount (pp_token_in_mint pp) (pp_amount_0 pp) = Ok e" and
      sr: "get_swap_result_from_exact_input (pp_pool pp) (xe_amount e) (pp_fee_mode pp)
        (pp_trade_direction pp) (pp_current_point pp) = Ok sr" and
      r: "r = \<lparr> pr_swap_result = sr, pr_included_transfer_fee_amount_in = pp_amount_0 pp,
        pr_included_transfer_fee_amount_out = sr_output_amount sr,
        pr_excluded_transfer_fee_amount_out = out \<rparr>"
      using assms(1) by (auto simp: process_swap_def process_swap_exact_in_def rbind_Ok_iff require_Ok_iff)
    show ?thesis
      using sound_swap_from_exact_input [OF sr] deposit_effect [OF _ _ e] by (simp add: r)
  next
    case PartialFill
    then obtain x i out sr where
      sr: "get_swap_result_from_partial_input (pp_pool pp) x (pp_fee_mode pp)
        (pp_trade_direction pp) (pp_current_point pp) = Ok sr" and
      i: "calculate_transfer_fee_included_amount (pp_token_in_mint pp)
        (sr_included_fee_input_amount sr) = Ok i" and
      r: "r = \<lparr> pr_swap_result = sr, pr_included_transfer_fee_amount_in = xi_amount i,
        pr_included_transfer_fee_amount_out = sr_output_amount sr,
        pr_excluded_transfer_fee_amount_out = out \<rparr>"
      using assms(1) by (auto simp: process_swap_def process_swap_partial_fill_def rbind_Ok_iff
          require_Ok_iff)
    show ?thesis
      using sound_swap_from_partial_input(1) [OF assms(2) sr] deposit_included_effect [OF _ i]
      by (simp add: r)
  next
    case ExactOut
    then obtain y ii sr where
      sr: "get_swap_result_from_exact_output (pp_pool pp) y (pp_fee_mode pp)
        (pp_trade_direction pp) (pp_current_point pp) = Ok sr" and
      i: "calculate_transfer_fee_included_amount (pp_token_in_mint pp)
        (sr_included_fee_input_amount sr) = Ok ii" and
      r: "r = \<lparr> pr_swap_result = sr, pr_included_transfer_fee_amount_in = xi_amount ii,
        pr_included_transfer_fee_amount_out = y,
        pr_excluded_transfer_fee_amount_out = pp_amount_0 pp \<rparr>"
      using assms(1) by (auto simp: process_swap_def process_swap_exact_out_def rbind_Ok_iff
          require_Ok_iff)
    show ?thesis
      using sound_swap_from_exact_output [OF sr] deposit_included_effect [OF _ i] by (simp add: r)
  qed
  then show "sound_swap (pp_pool pp) (pp_fee_mode pp) (pp_trade_direction pp) (pr_swap_result r)"
    and "pr_included_transfer_fee_amount_out r = sr_output_amount (pr_swap_result r)"
    and "token_law (pp_token_in_mint pp) \<Longrightarrow>
      transfer_from_user (pp_token_in_mint pp) w (pr_included_transfer_fee_amount_in r) = Ok w' \<Longrightarrow>
      unat w' = unat w + unat (sr_included_fee_input_amount (pr_swap_result r))"
    by blast+
qed

lemma swap_transfers_effect:
  assumes t: "swap_transfers ctx v d fm r = Ok v'"
    and laws: "token_law (sc_token_a ctx)" "token_law (sc_token_b ctx)"
    and inp: "\<And>w w'. transfer_from_user (case d of AtoB \<Rightarrow> sc_token_a ctx | BtoA \<Rightarrow> sc_token_b ctx) w
      (pr_included_transfer_fee_amount_in r) = Ok w' \<Longrightarrow> unat w' = unat w + x"
  shows "balance s v' + (if s = side_in d then 0 else unat (pr_included_transfer_fee_amount_out r)) +
      (if s = fee_side fm \<and> sc_has_referral ctx then unat (sr_referral_fee (pr_swap_result r)) else 0) =
    balance s v + (if s = side_in d then x else 0)"
proof -
  define ref where "ref v = (if sc_has_referral ctx then
       if fm_fees_on_token_a fm then
         rbind (transfer_from_pool (sc_token_a ctx) (va_token_a v)
           (sr_referral_fee (pr_swap_result r))) (\<lambda>a. Ok (v\<lparr>va_token_a := a\<rparr>))
       else
         rbind (transfer_from_pool (sc_token_b ctx) (va_token_b v)
           (sr_referral_fee (pr_swap_result r))) (\<lambda>b. Ok (v\<lparr>va_token_b := b\<rparr>))
     else Ok v)" for v :: vaults
  have ref: "balance s v2 + (if s = fee_side fm \<and> sc_has_referral ctx
      then unat (sr_referral_fee (pr_swap_result r)) else 0) = balance s v1"
    if "ref v1 = Ok v2" for v1 v2
    using that laws withdraw_effect unfolding ref_def
    by (cases s; fastforce simp: rbind_Ok_iff side_defs split: if_splits)
  show ?thesis
  proof (cases d)
    case AtoB
    then obtain a b where a: "transfer_from_user (sc_token_a ctx) (va_token_a v)
        (pr_included_transfer_fee_amount_in r) = Ok a"
      and b: "transfer_from_pool (sc_token_b ctx) (va_token_b v)
        (pr_included_transfer_fee_amount_out r) = Ok b"
      and v': "ref \<lparr> va_token_a = a, va_token_b = b \<rparr> = Ok v'"
      using t by (auto simp: swap_transfers_def ref_def rbind_Ok_iff)
    have "unat a = unat (va_token_a v) + x" using inp [of "va_token_a v" a] a AtoB by simp
    then show ?thesis using ref [OF v'] withdraw_effect [OF laws(2) b] AtoB
      by (cases s) (simp_all add: balance_def side_in_def)
  next
    case BtoA
    then obtain a b where b: "transfer_from_user (sc_token_b ctx) (va_token_b v)
        (pr_included_transfer_fee_amount_in r) = Ok b"
      and a: "transfer_from_pool (sc_token_a ctx) (va_token_a v)
        (pr_included_transfer_fee_amount_out r) = Ok a"
      and v': "ref \<lparr> va_token_a = a, va_token_b = b \<rparr> = Ok v'"
      using t by (auto simp: swap_transfers_def ref_def rbind_Ok_iff)
    have "unat b = unat (va_token_b v) + x" using inp [of "va_token_b v" b] b BtoA by simp
    then show ?thesis using ref [OF v'] withdraw_effect [OF laws(1) a] BtoA
      by (cases s) (simp_all add: balance_def side_in_def)
  qed
qed

text \<open>What a move along the curve does to the reserves, and a swap result to the claims.\<close>

lemma curve_move_reserve:
  assumes "curve_move d q x y p'" and "pl_sqrt_price q' = p'"
    and "pl_sqrt_min_price q' = pl_sqrt_min_price q" "pl_sqrt_max_price q' = pl_sqrt_max_price q"
  shows "reserve s (pl_liquidity q) q' + real (if s = side_in d then 0 else y) \<le>
    reserve s (pl_liquidity q) q + real (if s = side_in d then x else 0)"
  using assms
  by (cases d; cases s) (auto simp: curve_move_def side_defs reserve_a_def reserve_b_def)

lemma apply_swap_result_claims:
  assumes "apply_swap_result q r fm t = Ok q'"
  shows "claims s q' = claims s q +
      (if s = fee_side fm then unat (sr_partner_fee r) + unat (sr_protocol_fee r) else 0)"
    and "unat (fee_per_liquidity s q') = unat (fee_per_liquidity s q) +
      (if s = fee_side fm then unat (sr_trading_fee r) * 2 ^ 128 div unat (pl_liquidity q) else 0)"
  using apply_swap_result_effect(8) [OF assms]
  by (cases s; cases "fm_fees_on_token_a fm"; simp add: side_defs)+

text \<open>The fee that liquidity providers earn is shared between the positions, rounded down.\<close>

lemma owed_after_fee:
  assumes L: "unat (pl_liquidity q) = total_over liq ps" and l: "0 < unat (pl_liquidity q)"
    and f: "unat (fee_per_liquidity s q') = unat (fee_per_liquidity s q) +
      fee * 2 ^ 128 div unat (pl_liquidity q)"
  shows "total_over (owed s q') ps \<le> total_over (owed s q) ps + fee * 2 ^ 128"
proof -
  let ?d = "fee * 2 ^ 128 div unat (pl_liquidity q)"
  have "owed s q' p \<le> owed s q p + liq p * ?d" for p
  proof -
    have "liq p * (unat (fee_per_liquidity s q) + ?d - unat (checkpoint s p)) \<le>
      liq p * (unat (fee_per_liquidity s q) - unat (checkpoint s p) + ?d)"
      by (intro mult_le_mono2) simp
    then show ?thesis by (simp add: owed_def earned_def f distrib_left)
  qed
  then have "total_over (owed s q') ps \<le> total_over (\<lambda>p. owed s q p + liq p * ?d) ps"
    by (intro total_over_mono)
  also have "\<dots> = total_over (owed s q) ps + unat (pl_liquidity q) * ?d"
    by (simp add: total_over_add total_over_mult L)
  also have "unat (pl_liquidity q) * ?d \<le> fee * 2 ^ 128"
    by (simp add: mult.commute [of "unat (pl_liquidity q)"] div_mult_le_self)
  finally show ?thesis by simp
qed

text \<open>A swap, as the handler runs it, between the update of the references and the transfers.\<close>

lemma p_handle_swap_Ok:
  assumes "p_handle_swap ctx q v params = Ok (q', v', r)"
  obtains d fm mode q1 pp where
    "get_trade_direction (sc_input_token_account_mint ctx) (sc_token_a_mint_key ctx) = Ok d"
    "swap_mode_of_u8 (sw_swap_mode params) = Some mode"
    "update_pre_swap q (unix_timestamp (sc_clock ctx)) = Ok q1"
    "get_fee_mode (pl_collect_fee_mode q1) d (sc_has_referral ctx) = Ok fm"
    "process_swap mode pp = Ok r" "pp_pool pp = q1" "pp_fee_mode pp = fm"
    "pp_trade_direction pp = d" "pp_amount_0 pp = sw_amount_0 params"
    "pp_amount_1 pp = sw_amount_1 params"
    "pp_token_in_mint pp = (case d of AtoB \<Rightarrow> sc_token_a ctx | BtoA \<Rightarrow> sc_token_b ctx)"
    "pp_token_out_mint pp = (case d of AtoB \<Rightarrow> sc_token_b ctx | BtoA \<Rightarrow> sc_token_a ctx)"
    "apply_swap_result q1 (pr_swap_result r) fm (unix_timestamp (sc_clock ctx)) = Ok q'"
    "swap_transfers ctx v d fm r = Ok v'"
proof -
  obtain d mode cp q1 fm where
    1: "get_trade_direction (sc_input_token_account_mint ctx) (sc_token_a_mint_key ctx) = Ok d"
      "swap_mode_of_u8 (sw_swap_mode params) = Some mode"
      "update_pre_swap q (unix_timestamp (sc_clock ctx)) = Ok q1"
      "get_fee_mode (pl_collect_fee_mode q1) d (sc_has_referral ctx) = Ok fm"
      "swap_transfers ctx v d fm r = Ok v'"
      "apply_swap_result q1 (pr_swap_result r) fm (unix_timestamp (sc_clock ctx)) = Ok q'" and
    2: "process_swap mode
      \<lparr> pp_pool = q1,
        pp_token_in_mint = (case d of AtoB \<Rightarrow> sc_token_a ctx | BtoA \<Rightarrow> sc_token_b ctx),
        pp_token_out_mint = (case d of AtoB \<Rightarrow> sc_token_b ctx | BtoA \<Rightarrow> sc_token_a ctx),
        pp_fee_mode = fm, pp_trade_direction = d, pp_current_point = cp,
        pp_amount_0 = sw_amount_0 params, pp_amount_1 = sw_amount_1 params \<rparr> = Ok r"
    using assms
    by (auto simp: p_handle_swap_def rbind_Ok_iff require_Ok_iff ok_or_Ok_iff Let_def
        split: prod.splits trade_direction.splits)
  show thesis by (rule that [OF 1(1-4) 2 _ _ _ _ _ _ _ 1(6,5)]) simp_all
qed

theorem swap_keeps_books:
  assumes b: "books q v ps" and h: "p_handle_swap ctx q v params = Ok (q', v', r)"
    and laws: "token_law (sc_token_a ctx)" "token_law (sc_token_b ctx)"
  shows "books q' v' ps"
proof -
  obtain d fm mode q1 pp where
    pre: "update_pre_swap q (unix_timestamp (sc_clock ctx)) = Ok q1" and
    fm: "get_fee_mode (pl_collect_fee_mode q1) d (sc_has_referral ctx) = Ok fm" and
    pr: "process_swap mode pp = Ok r" and
    pp: "pp_pool pp = q1" "pp_fee_mode pp = fm" "pp_trade_direction pp = d"
      "pp_token_in_mint pp = (case d of AtoB \<Rightarrow> sc_token_a ctx | BtoA \<Rightarrow> sc_token_b ctx)" and
    ap: "apply_swap_result q1 (pr_swap_result r) fm (unix_timestamp (sc_clock ctx)) = Ok q'" and
    tr: "swap_transfers ctx v d fm r = Ok v'"
    by (rule p_handle_swap_Ok [OF h]) blast
  have "same_books q q1" using update_pre_swap_effect(1) [OF pre] by (auto simp: same_books_def)
  then have b1: "books q1 v ps" using b same_books_books by blast
  then have wf: "wf_prices q1" and fin: "finite (dom ps)" and L: "unat (pl_liquidity q1) = total_over liq ps"
    and sol: "\<And>s. liability s q1 ps \<le> real (balance s v)" by (simp_all add: books_def solvent_def)
  let ?sr = "pr_swap_result r"
  note e = apply_swap_result_effect [OF ap]
  note snd = process_swap_Ok [OF pr, unfolded pp, OF wf]
  have range: "unat (pl_sqrt_min_price q1) \<le> unat (sr_next_sqrt_price ?sr)"
    "unat (sr_next_sqrt_price ?sr) \<le> unat (pl_sqrt_max_price q1)"
    by (rule sound_swap_price_in_range [OF wf snd(1)])+
  have law: "token_law (case d of AtoB \<Rightarrow> sc_token_a ctx | BtoA \<Rightarrow> sc_token_b ctx)"
    using laws by (cases d) simp_all
  have "liability s q' ps \<le> real (balance s v')" for s
  proof -
    let ?fee = "if s = fee_side fm then swap_fees ?sr else 0"
    let ?ref = "if s = fee_side fm then unat (sr_referral_fee ?sr) else 0"
    have bal: "balance s v + (if s = side_in d then unat (sr_included_fee_input_amount ?sr) else 0) \<le>
        balance s v' + (if s = side_in d then 0 else unat (sr_output_amount ?sr)) + ?ref"
      using swap_transfers_effect [OF tr laws snd(3) [OF law], of s] unfolding snd(2)
      by (auto split: if_splits)
    have res: "reserve s (pl_liquidity q1) q' + real (if s = side_in d then 0
          else unat (sr_output_amount ?sr) + (if fm_fees_on_input fm then 0 else swap_fees ?sr)) \<le>
        reserve s (pl_liquidity q1) q1 +
          real (if s = side_in d then unat (sr_excluded_fee_input_amount ?sr) else 0)"
      using snd(1) e(1,4,5) by (intro curve_move_reserve) (simp_all add: sound_swap_def)
    have inc: "unat (sr_included_fee_input_amount ?sr) = unat (sr_excluded_fee_input_amount ?sr) +
        (if fm_fees_on_input fm then swap_fees ?sr else 0)"
      using snd(1) by (simp add: sound_swap_def)
    have trade: "total_over (owed s q') ps \<le> total_over (owed s q1) ps +
        (if s = fee_side fm then unat (sr_trading_fee ?sr) else 0) * 2 ^ 128"
      by (rule owed_after_fee [OF L e(2)]) (simp add: apply_swap_result_claims(2) [OF ap])
    have "real (total_over (owed s q') ps) \<le> real (total_over (owed s q1) ps) +
        real (if s = fee_side fm then unat (sr_trading_fee ?sr) else 0) * 2 ^ 128"
      using of_nat_mono [OF trade, where 'a = real] by simp
    then have own: "real (total_over (owed s q') ps) / 2 ^ 128 \<le> real (total_over (owed s q1) ps) / 2 ^ 128 +
        real (if s = fee_side fm then unat (sr_trading_fee ?sr) else 0)"
      by (simp add: field_simps)
    have cl: "claims s q' + (if s = fee_side fm then unat (sr_trading_fee ?sr) else 0) + ?ref =
        claims s q1 + ?fee"
      unfolding apply_swap_result_claims(1) [OF ap] by (simp add: swap_fees_def)
    have io: "side_in d \<noteq> side_out d" "s = side_in d \<or> s = side_out d"
      by (cases d; cases s; simp add: side_in_def side_out_def)+
    note fs = fee_mode_side(1) [OF fm]
    show ?thesis
      using bal res own cl inc sol [of s] io fs e(3) unfolding liability_def
      by (cases "s = side_in d"; cases "fm_fees_on_input fm") auto
  qed
  moreover have "wf_prices q'" using wf range e(1,4,5) by (simp add: wf_prices_def)
  ultimately show ?thesis using fin L e(3) by (simp add: books_def solvent_def)
qed

end
