(* ===== verification/Solvency_Positions.thy ===== *)
theory Solvency_Positions
  imports Solvency
begin

text \<open>
  The instructions of the positions, of the operators and of the rewards keep the books of a pool.
  Each of them changes at most two positions, moves at most the amounts that it transfers, and
  leaves the price alone.
\<close>

declare of_nat_unat [simp del]

section \<open>Rewards leave the books alone\<close>

definition same_fees :: "position \<Rightarrow> position \<Rightarrow> bool" where
  "same_fees p p' \<longleftrightarrow> liq p' = liq p \<and> (\<forall>s. checkpoint s p' = checkpoint s p \<and> pending s p' = pending s p)"

lemma same_fees_refl [simp]: "same_fees p p"
  by (simp add: same_fees_def)

lemma same_fees_trans: "same_fees p p1 \<Longrightarrow> same_fees p1 p2 \<Longrightarrow> same_fees p p2"
  by (simp add: same_fees_def)

lemma same_fees_owed: "same_fees p p' \<Longrightarrow> owed s q p' = owed s q p"
  by (simp add: same_fees_def owed_def)

lemma same_fees_rewards [simp]: "same_fees p (p\<lparr>ps_reward_infos := r\<rparr>)"
  by (simp add: same_fees_def liq_def side_defs split: side.split)

lemma same_books_rewards [simp]: "same_books q (q\<lparr>pl_reward_infos := r\<rparr>)"
  by (simp add: same_books_def)

lemma pool_update_rewards_books: "pool_update_rewards q t = Ok q' \<Longrightarrow> same_books q q'"
  by (auto simp: pool_update_rewards_def rbind_Ok_iff)

lemma update_position_reward_fees: "update_position_reward p q = Ok p' \<Longrightarrow> same_fees p p'"
  by (auto simp: update_position_reward_def rbind_Ok_iff)

lemma position_update_rewards_books:
  "position_update_rewards p q t = Ok (q', p') \<Longrightarrow> same_books q q' \<and> same_fees p p'"
  by (auto simp: position_update_rewards_def rbind_Ok_iff split: if_splits
      dest: pool_update_rewards_books update_position_reward_fees)

text \<open>A position is replaced by one with the same fees: nothing changes.\<close>

lemma books_same_fees:
  assumes "books q v ps" and "ps k = Some p" and "same_fees p p'" and "same_books q q'"
  shows "books q' v (ps(k := Some p'))"
proof -
  have "books q v (ps(k := Some p'))"
    by (rule books_update [OF assms(1,2)])
      (use assms(1) assms(3) [unfolded same_fees_def] same_fees_owed [OF assms(3)] in
        \<open>simp_all add: books_def\<close>)
  then show ?thesis using same_books_books [OF assms(4)] by simp
qed

section \<open>Adding and removing liquidity\<close>

definition amount :: "side \<Rightarrow> u64 \<Rightarrow> u64 \<Rightarrow> nat" where
  "amount s a b = (case s of A \<Rightarrow> unat a | B \<Rightarrow> unat b)"

lemma reserve_change:
  assumes "get_amounts_for_modify_liquidity q d rnd = Ok (a, b)"
  shows "rnd = Up \<Longrightarrow> reserve s d q \<le> real (amount s a b)"
    and "rnd = Down \<Longrightarrow> real (amount s a b) \<le> reserve s d q"
  using modify_liquidity_amounts [OF assms] by (cases s; simp add: amount_def side_defs)+

lemma reserve_of_sum:
  "unat l'' = unat l + unat l' \<Longrightarrow> reserve s l'' q = reserve s l q + reserve s l' q"
  using reserve_add by (cases s) (simp_all add: reserve_def)

lemma same_books_liquidity:
  "reserve s l (q\<lparr>pl_liquidity := l'\<rparr>) = reserve s l q" "claims s (q\<lparr>pl_liquidity := l'\<rparr>) = claims s q"
  "fee_per_liquidity s (q\<lparr>pl_liquidity := l'\<rparr>) = fee_per_liquidity s q"
  "wf_prices (q\<lparr>pl_liquidity := l'\<rparr>) = wf_prices q"
  using reserve_cong [of "q\<lparr>pl_liquidity := l'\<rparr>" q]
  by (cases s; simp add: side_defs wf_prices_def)+

text \<open>
  After the update of its fees, what happens to the liquidity of a position does not change what it
  is owed.
\<close>

lemma paid_up_owed:
  assumes "update_fee p (pl_fee_a_per_liquidity q) (pl_fee_b_per_liquidity q) = Ok p1"
    and "checkpoint s p' = checkpoint s p1" and "pending s p' = pending s p1"
  shows "owed s q p' \<le> owed s q p"
  using assms(2,3) update_fee_owed(1,3) [OF assms(1), of s] owed_up_to_date [of s p' q]
    owed_up_to_date [of s p1 q] by simp

lemma apply_add_books:
  assumes b: "books q v ps" and k: "ps k = Some p"
    and ap: "apply_add_liquidity q p d = Ok (q', p')"
    and am: "get_amounts_for_modify_liquidity q d Up = Ok (a, b')"
    and v: "\<And>s. balance s v' = balance s v + amount s a b'"
  shows "books q' v' (ps(k := Some p'))"
proof -
  note e = apply_add_liquidity_effect [OF ap]
  obtain p1 where u: "update_fee p (pl_fee_a_per_liquidity q) (pl_fee_b_per_liquidity q) = Ok p1"
    and ad: "add_liquidity p1 d = Ok p'" using e(1) by blast
  obtain l where p': "p' = p1\<lparr>ps_unlocked_liquidity := l\<rparr>"
    using add_liquidity_effect(2) [OF ad] by blast
  obtain l' where q': "q' = q\<lparr>pl_liquidity := l'\<rparr>" using e(2) by blast
  have up: "owed s q p' \<le> owed s q p" for s
    by (rule paid_up_owed [OF u]) (cases s; simp add: p' side_defs)+
  show ?thesis
  proof (rule books_update [OF b k])
    show "wf_prices q'" using b by (simp add: q' same_books_liquidity books_def)
    show "unat (pl_liquidity q') + liq p = unat (pl_liquidity q) + liq p'"
      using e(3) add_liquidity_effect(3) [OF ad] update_fee_owed(2) [OF u] by simp
    show "fee_per_liquidity s q' = fee_per_liquidity s q" for s by (simp add: q' same_books_liquidity)
    fix s
    have "reserve s (pl_liquidity q') q' = reserve s (pl_liquidity q) q + reserve s d q"
      using reserve_of_sum [OF e(3)] by (simp add: q' same_books_liquidity)
    then show "reserve s (pl_liquidity q') q' + real (claims s q') + real (owed s q p') / 2 ^ 128 +
      real (balance s v) \<le> reserve s (pl_liquidity q) q + real (claims s q) +
      real (owed s q p) / 2 ^ 128 + real (balance s v')"
      using up [of s] reserve_change(1) [OF am refl, of s]
      by (simp add: q' same_books_liquidity v divide_right_mono add_mono)
  qed
qed

lemma apply_remove_books:
  assumes b: "books q v ps" and k: "ps k = Some p"
    and ap: "apply_remove_liquidity q p d = Ok (q', p')"
    and am: "get_amounts_for_modify_liquidity q d Down = Ok (a, b')"
    and v: "\<And>s. balance s v = balance s v' + amount s a b'"
  shows "books q' v' (ps(k := Some p'))"
proof -
  note e = apply_remove_liquidity_effect [OF ap]
  obtain p1 where u: "update_fee p (pl_fee_a_per_liquidity q) (pl_fee_b_per_liquidity q) = Ok p1"
    and ad: "remove_unlocked_liquidity p1 d = Ok p'" using e(1) by blast
  obtain l where p': "p' = p1\<lparr>ps_unlocked_liquidity := l\<rparr>"
    using remove_unlocked_effect(2) [OF ad] by blast
  obtain l' where q': "q' = q\<lparr>pl_liquidity := l'\<rparr>" using e(2) by blast
  have up: "owed s q p' \<le> owed s q p" for s
    by (rule paid_up_owed [OF u]) (cases s; simp add: p' side_defs)+
  show ?thesis
  proof (rule books_update [OF b k])
    show "wf_prices q'" using b by (simp add: q' same_books_liquidity books_def)
    show "unat (pl_liquidity q') + liq p = unat (pl_liquidity q) + liq p'"
      using e(3) remove_unlocked_effect(3) [OF ad] update_fee_owed(2) [OF u] by simp
    show "fee_per_liquidity s q' = fee_per_liquidity s q" for s by (simp add: q' same_books_liquidity)
    fix s
    have "reserve s (pl_liquidity q) q = reserve s (pl_liquidity q') q' + reserve s d q"
      using reserve_of_sum [OF e(3)] by (simp add: q' same_books_liquidity)
    then show "reserve s (pl_liquidity q') q' + real (claims s q') + real (owed s q p') / 2 ^ 128 +
      real (balance s v) \<le> reserve s (pl_liquidity q) q + real (claims s q) +
      real (owed s q p) / 2 ^ 128 + real (balance s v')"
      using up [of s] reserve_change(2) [OF am refl, of s]
      by (simp add: q' same_books_liquidity v divide_right_mono add_mono)
  qed
qed

text \<open>The two instructions, with the effect of their transfers on the vaults.\<close>

lemma add_liquidity_keeps_books:
  assumes b: "books q v ps" and k: "ps k = Some p"
    and h: "handle_add_liquidity ctx q v p params = Ok (q', v', p', ch)"
    and laws: "token_law (lc_token_a ctx)" "token_law (lc_token_b ctx)"
  shows "books q' v' (ps(k := Some p'))"
proof -
  obtain q1 p1 a b' ta tb va vb where
    r: "position_update_rewards p q (unix_timestamp (lc_clock ctx)) = Ok (q1, p1)" and
    am: "get_amounts_for_modify_liquidity q1 (al_liquidity_delta params) Up = Ok (a, b')" and
    ap: "apply_add_liquidity q1 p1 (al_liquidity_delta params) = Ok (q', p')" and
    t: "calculate_transfer_fee_included_amount (lc_token_a ctx) a = Ok ta"
      "calculate_transfer_fee_included_amount (lc_token_b ctx) b' = Ok tb" and
    va: "transfer_from_user (lc_token_a ctx) (va_token_a v) (xi_amount ta) = Ok va"
      "transfer_from_user (lc_token_b ctx) (va_token_b v) (xi_amount tb) = Ok vb" and
    v': "v' = \<lparr> va_token_a = va, va_token_b = vb \<rparr>"
    using h by (auto simp: handle_add_liquidity_def rbind_Ok_iff require_Ok_iff)
  have s: "same_books q q1" "same_fees p p1" using position_update_rewards_books [OF r] by simp_all
  have "balance s v' = balance s v + amount s a b'" for s
    using deposit_included_effect [OF laws(1) t(1) va(1)] deposit_included_effect [OF laws(2) t(2) va(2)]
    by (cases s) (simp_all add: balance_def amount_def v')
  then have "books q' v' (ps(k := Some p1, k := Some p'))"
    by (intro apply_add_books [OF books_same_fees [OF b k s(2,1)] _ ap am]) simp_all
  then show ?thesis by simp
qed

lemma remove_liquidity_keeps_books:
  assumes b: "books q v ps" and k: "ps k = Some p"
    and h: "handle_remove_liquidity ctx q v p d ma mb = Ok (q', v', p', ch)"
    and laws: "token_law (lc_token_a ctx)" "token_law (lc_token_b ctx)"
  shows "books q' v' (ps(k := Some p'))"
proof -
  obtain dl q1 p1 a b' va vb where
    r: "position_update_rewards p q (unix_timestamp (lc_clock ctx)) = Ok (q1, p1)" and
    am: "get_amounts_for_modify_liquidity q1 dl Down = Ok (a, b')" and
    ap: "apply_remove_liquidity q1 p1 dl = Ok (q', p')" and
    va: "transfer_from_pool (lc_token_a ctx) (va_token_a v) a = Ok va"
      "transfer_from_pool (lc_token_b ctx) (va_token_b v) b' = Ok vb" and
    v': "v' = \<lparr> va_token_a = va, va_token_b = vb \<rparr>"
    using h by (auto simp: handle_remove_liquidity_def rbind_Ok_iff require_Ok_iff Let_def)
  have s: "same_books q q1" "same_fees p p1" using position_update_rewards_books [OF r] by simp_all
  have "balance s v = balance s v' + amount s a b'" for s
    using withdraw_effect [OF laws(1) va(1)] withdraw_effect [OF laws(2) va(2)]
    by (cases s) (simp_all add: balance_def amount_def v')
  then have "books q' v' (ps(k := Some p1, k := Some p'))"
    by (intro apply_remove_books [OF books_same_fees [OF b k s(2,1)] _ ap am]) simp_all
  then show ?thesis by simp
qed

section \<open>Claiming the fees of a position\<close>

lemma paid_effect:
  assumes "token_law t" and "0 < x \<Longrightarrow> transfer_from_pool t w x = Ok w'" and "\<not> 0 < x \<Longrightarrow> w' = w"
  shows "unat w = unat w' + unat x"
proof (cases "0 < x")
  case True
  with assms(1,2) show ?thesis by (intro withdraw_effect)
next
  case False
  with assms(3) show ?thesis by (simp add: word_gt_0)
qed

lemma claim_position_fee_Ok:
  assumes "handle_claim_position_fee ctx q v p = Ok (v', p', a, b)"
    and laws: "token_law (lc_token_a ctx)" "token_law (lc_token_b ctx)"
  obtains p1 where "update_fee p (pl_fee_a_per_liquidity q) (pl_fee_b_per_liquidity q) = Ok p1"
    and "\<And>s. checkpoint s p' = fee_per_liquidity s q" and "\<And>s. pending s p' = 0" and "liq p' = liq p"
    and "a = ps_fee_a_pending p1" "b = ps_fee_b_pending p1"
    and "\<And>s. balance s v = balance s v' + unat (pending s p1)"
proof -
  obtain p1 m va vb where u: "update_fee p (pl_fee_a_per_liquidity q) (pl_fee_b_per_liquidity q) = Ok p1"
    and a: "a = ps_fee_a_pending p1" and b: "b = ps_fee_b_pending p1"
    and va: "(if 0 < a then transfer_from_pool (lc_token_a ctx) (va_token_a v) a
        else Ok (va_token_a v)) = Ok va"
      "(if 0 < b then transfer_from_pool (lc_token_b ctx) (va_token_b v) b
        else Ok (va_token_b v)) = Ok vb"
    and v': "v' = \<lparr> va_token_a = va, va_token_b = vb \<rparr>"
    and p': "p' = reset_pending_fee (p1\<lparr>ps_metrics := m\<rparr>)"
    using assms(1) by (auto simp: handle_claim_position_fee_def rbind_Ok_iff Let_def)
  have pay: "unat (va_token_a v) = unat va + unat a" "unat (va_token_b v) = unat vb + unat b"
    by (rule paid_effect [OF laws(1)], use va(1) in simp, use va(1) in simp)
      (rule paid_effect [OF laws(2)], use va(2) in simp, use va(2) in simp)
  have c: "checkpoint s p' = checkpoint s p1" "pending s p' = 0" for s
    by (cases s; simp add: p' reset_pending_fee_def side_defs)+
  have l: "liq p' = liq p1" by (simp add: p' reset_pending_fee_def liq_def)
  have bal: "balance s v = balance s v' + unat (pending s p1)" for s
    using pay by (cases s) (simp_all add: side_defs a b v')
  show thesis
    by (rule that [OF u _ c(2) _ a b bal]) (simp_all add: c(1) l update_fee_owed [OF u])
qed

lemma claim_position_fee_keeps_books:
  assumes b: "books q v ps" and k: "ps k = Some p"
    and h: "handle_claim_position_fee ctx q v p = Ok (v', p', a, b')"
    and laws: "token_law (lc_token_a ctx)" "token_law (lc_token_b ctx)"
  shows "books q v' (ps(k := Some p'))"
proof -
  obtain p1 where u: "update_fee p (pl_fee_a_per_liquidity q) (pl_fee_b_per_liquidity q) = Ok p1"
    and c: "\<And>s. checkpoint s p' = fee_per_liquidity s q" "\<And>s. pending s p' = 0" "liq p' = liq p"
    and v: "\<And>s. balance s v = balance s v' + unat (pending s p1)"
    by (rule claim_position_fee_Ok [OF h laws]) blast
  show ?thesis
  proof (rule books_update [OF b k])
    show "wf_prices q" using b by (simp add: books_def)
    show "unat (pl_liquidity q) + liq p = unat (pl_liquidity q) + liq p'" by (simp add: c(3))
    fix s
    have "real (unat (pending s p1) * 2 ^ 128) \<le> real (owed s q p)"
      using update_fee_owed(1) [OF u, of s] owed_up_to_date [OF update_fee_owed(3) [OF u], of s]
      by (simp only: of_nat_le_iff)
    then have "real (unat (pending s p1)) \<le> real (owed s q p) / 2 ^ 128"
      by (simp add: field_simps)
    moreover have "owed s q p' = 0" using owed_up_to_date [of s p' q] c by simp
    ultimately show "reserve s (pl_liquidity q) q + real (claims s q) + real (owed s q p') / 2 ^ 128 +
      real (balance s v) \<le> reserve s (pl_liquidity q) q + real (claims s q) +
      real (owed s q p) / 2 ^ 128 + real (balance s v')" by (simp add: v)
  qed simp
qed

section \<open>Creating and closing a position\<close>

lemma create_position_keeps_books:
  assumes b: "books q v ps" and k: "ps k = None"
    and h: "handle_create_position clk nft q pool_key mint = Ok (q', p')"
  shows "books q' v (ps(k := Some p'))"
proof -
  have e: "position_initialize q pool_key mint 0 = (q', p')"
    using h by (auto simp: handle_create_position_def rbind_Ok_iff require_Ok_iff Let_def
        split: prod.splits)
  have s: "same_books q q'" using e by (auto simp: position_initialize_def same_books_def)
  have p': "liq p' = 0" "owed s q p' = 0" for s
    using e by (auto simp: position_initialize_def position_default_def liq_def owed_def earned_def
        side_defs split: side.split)
  have fin: "finite (dom ps)" using b by (simp add: books_def)
  have "total_over f (ps(k := Some p')) = total_over f ps" if "f p' = 0" for f
    using total_over_insert [where f = f, OF fin k, of p'] that by simp
  then have "books q v (ps(k := Some p'))"
    using b p' by (simp add: books_def solvent_def liability_def)
  then show ?thesis using same_books_books [OF s] by simp
qed

lemma close_position_keeps_books:
  assumes b: "books q v ps" and k: "ps k = Some p"
    and h: "handle_close_position acc nft q p = Ok q'"
  shows "books q' v (ps(k := None))"
proof -
  have em: "position_is_empty p = Ok True" and q': "\<exists>m. q' = q\<lparr>pl_metrics := m\<rparr>"
    using h by (auto simp: handle_close_position_def rbind_Ok_iff require_Ok_iff Let_def)
  have s: "same_books q q'" using q' by (auto simp: same_books_def)
  have l: "liq p = 0"
    using em by (auto simp: position_is_empty_def rbind_Ok_iff get_total_liquidity_iff split: if_splits)
  have fin: "finite (dom ps)" using b by (simp add: books_def)
  have "total_over liq (ps(k := None)) = total_over liq ps"
    using total_over_remove [where f = liq, OF fin k] l by simp
  moreover have "liability s q (ps(k := None)) \<le> liability s q ps" for s
    using total_over_remove [where f = "owed s q", OF fin k]
    by (simp add: liability_def divide_right_mono)
  ultimately have "books q v (ps(k := None))"
    using b order_trans by (fastforce simp: books_def solvent_def)
  then show ?thesis using same_books_books [OF s] by simp
qed

section \<open>Locking and vesting\<close>

text \<open>These move liquidity between the parts of a position.\<close>

lemma same_fees_parts:
  assumes "p' = p\<lparr>ps_unlocked_liquidity := u, ps_vested_liquidity := w, ps_permanent_locked_liquidity := x\<rparr>"
    and "liq p' = liq p"
  shows "same_fees p p'"
  using assms by (simp add: same_fees_def side_defs split: side.split)

lemma lock_same_fees: "lock p x = Ok p' \<Longrightarrow> same_fees p p'"
  by (rule same_fees_parts [where u = "ps_unlocked_liquidity p'" and w = "ps_vested_liquidity p'" and
      x = "ps_permanent_locked_liquidity p'"])
    (auto simp: lock_def remove_unlocked_liquidity_def liq_def ok_iffs)

lemma permanent_lock_same_fees: "permanent_lock_liquidity p x = Ok p' \<Longrightarrow> same_fees p p'"
  by (rule same_fees_parts [where u = "ps_unlocked_liquidity p'" and w = "ps_vested_liquidity p'" and
      x = "ps_permanent_locked_liquidity p'"])
    (auto simp: permanent_lock_liquidity_def remove_unlocked_liquidity_def liq_def ok_iffs)

lemma release_same_fees: "release_vested_liquidity p x = Ok p' \<Longrightarrow> same_fees p p'"
  by (rule same_fees_parts [where u = "ps_unlocked_liquidity p'" and w = "ps_vested_liquidity p'" and
      x = "ps_permanent_locked_liquidity p'"])
    (auto simp: release_vested_liquidity_def add_liquidity_def liq_def ok_iffs)

lemma refresh_vestings_same_fees:
  "refresh_vestings key point ks acc p = Ok (acc', p') \<Longrightarrow> same_fees p p'"
proof (induction ks arbitrary: acc p)
  case (Cons k ks)
  obtain v v1 p1 fin where "release_vesting_liquidity_to_position v p point = Ok (v1, p1)"
    and r: "refresh_vestings key point ks (acc(k := (if fin then None else Some v1))) p1 = Ok (acc', p')"
    using Cons.prems by (auto simp: rbind_Ok_iff)
  then have "same_fees p p1"
    by (auto simp: release_vesting_liquidity_to_position_def rbind_Ok_iff dest: release_same_fees
        split: if_splits)
  then show ?case using Cons.IH [OF r] same_fees_trans by blast
qed simp

lemma lock_position_keeps_books:
  assumes "books q v ps" and "ps k = Some p"
    and "handle_lock_position clk acc q key p params = Ok (p', vst)"
  shows "books q v (ps(k := Some p'))"
proof -
  have "same_fees p p'"
    using assms(3) by (auto simp: handle_lock_position_def lock_position_def rbind_Ok_iff
        require_Ok_iff Let_def dest: lock_same_fees)
  then show ?thesis by (intro books_same_fees [OF assms(1,2)]) simp_all
qed

lemma refresh_vesting_keeps_books:
  assumes "books q v ps" and "ps k = Some p"
    and "handle_refresh_vesting clk acc q key ks accounts p = Ok (accounts', p')"
  shows "books q v (ps(k := Some p'))"
proof -
  have "same_fees p p'"
    using assms(3) by (auto simp: handle_refresh_vesting_def refresh_vesting_def rbind_Ok_iff
        dest: refresh_vestings_same_fees)
  then show ?thesis by (intro books_same_fees [OF assms(1,2)]) simp_all
qed

lemma permanent_lock_keeps_books:
  assumes "books q v ps" and "ps k = Some p"
    and "handle_permanent_lock_position clk acc q p x = Ok (q', p')"
  shows "books q' v (ps(k := Some p'))"
proof -
  have "same_fees p p'" and "same_books q q'"
    using assms(3) by (auto simp: handle_permanent_lock_position_def rbind_Ok_iff require_Ok_iff
        accumulate_permanent_locked_liquidity_def same_books_def dest: permanent_lock_same_fees)
  then show ?thesis by (intro books_same_fees [OF assms(1,2)])
qed

section \<open>Splitting a position\<close>

lemma books_update2:
  assumes b: "books q v ps" and k: "ps k1 = Some p1" "ps k2 = Some p2" "k1 \<noteq> k2"
    and l: "liq p1' + liq p2' = liq p1 + liq p2"
    and o: "\<And>s. owed s q p1' + owed s q p2' \<le> owed s q p1 + owed s q p2"
  shows "books q v (ps(k1 := Some p1', k2 := Some p2'))"
proof -
  have fin: "finite (dom ps)" using b by (simp add: books_def)
  have sum: "total_over f (ps(k1 := Some p1', k2 := Some p2')) + (f p1 + f p2) =
      total_over f ps + (f p1' + f p2')" for f
    using total_over_update [where f = f, OF fin k(1), of p1']
      total_over_update [where f = f and m = "ps(k1 := Some p1')" and k = k2 and v = p2 and v' = p2']
      fin k by simp
  have "liability s q (ps(k1 := Some p1', k2 := Some p2')) \<le> liability s q ps" for s
  proof -
    have "total_over (owed s q) (ps(k1 := Some p1', k2 := Some p2')) \<le> total_over (owed s q) ps"
      using sum [of "owed s q"] o [of s] by linarith
    then show ?thesis by (simp add: liability_def divide_right_mono)
  qed
  moreover have "total_over liq (ps(k1 := Some p1', k2 := Some p2')) = total_over liq ps"
    using sum [of liq] l by linarith
  ultimately show ?thesis using b order_trans by (fastforce simp: books_def solvent_def)
qed

lemma apply_split_owed:
  assumes "apply_split_position q p1 p2 nu np na nb n0 n1 = Ok (p1', p2', info)"
  shows "liq p1' + liq p2' = liq p1 + liq p2"
    and "owed s q p1' + owed s q p2' \<le> owed s q p1 + owed s q p2"
proof -
  obtain r1 r2 where u: "update_fee p1 (pl_fee_a_per_liquidity q) (pl_fee_b_per_liquidity q) = Ok r1"
    "update_fee p2 (pl_fee_a_per_liquidity q) (pl_fee_b_per_liquidity q) = Ok r2"
    and m: "moved r1 r2 p1' p2'" by (rule apply_split_position_effect [OF assms])
  have l: "liq p1' + liq p2' = liq r1 + liq r2"
    and p: "unat (pending s p1') + unat (pending s p2') = unat (pending s r1) + unat (pending s r2)"
    and c: "checkpoint s p1' = checkpoint s r1" "checkpoint s p2' = checkpoint s r2"
    using m by (cases s; simp add: moved_def combined_def same_checkpoints_def side_defs)+
  show "liq p1' + liq p2' = liq p1 + liq p2" using l update_fee_owed(2) u by simp
  have o: "owed s q r1 = unat (pending s r1) * 2 ^ 128" "owed s q r2 = unat (pending s r2) * 2 ^ 128"
    "owed s q p1' = unat (pending s p1') * 2 ^ 128" "owed s q p2' = unat (pending s p2') * 2 ^ 128"
    by (rule owed_up_to_date; simp add: c update_fee_owed(3) [OF u(1), of s]
        update_fee_owed(3) [OF u(2), of s])+
  have "owed s q p1' + owed s q p2' = owed s q r1 + owed s q r2"
    unfolding o distrib_right [symmetric] p ..
  then show "owed s q p1' + owed s q p2' \<le> owed s q p1 + owed s q p2"
    using update_fee_owed(1) [OF u(1), of s] update_fee_owed(1) [OF u(2), of s] by linarith
qed

lemma split_position_keeps_books:
  assumes b: "books q v ps" and k: "ps k1 = Some p1" "ps k2 = Some p2" "k1 \<noteq> k2"
    and h: "handle_split_position2 clk q p1 p2 params = Ok (q', p1', p2', info)"
  shows "books q' v (ps(k1 := Some p1', k2 := Some p2'))"
proof -
  obtain r1 r2 nu np na nb n0 n1 where
    q': "pool_update_rewards q (unix_timestamp clk) = Ok q'" and
    r: "update_position_reward p1 q' = Ok r1" "update_position_reward p2 q' = Ok r2" and
    sp: "apply_split_position q' r1 r2 nu np na nb n0 n1 = Ok (p1', p2', info)"
    using h by (auto simp: handle_split_position2_def rbind_Ok_iff require_Ok_iff)
  have f: "same_fees p1 r1" "same_fees p2 r2" using r update_position_reward_fees by simp_all
  have "same_books q q'" using pool_update_rewards_books [OF q'] .
  then have b': "books q' v ps" using b same_books_books by blast
  have l: "liq r1 = liq p1" "liq r2 = liq p2" using f by (simp_all add: same_fees_def)
  show ?thesis
    using apply_split_owed(2) [OF sp] unfolding same_fees_owed [OF f(1)] same_fees_owed [OF f(2)]
    by (intro books_update2 [OF b' k]) (simp_all add: apply_split_owed(1) [OF sp] l)
qed

section \<open>Claims of the protocol and the partner\<close>

lemma books_pay:
  assumes b: "books q v ps"
    and q': "same_books q (q'\<lparr>pl_protocol_a_fee := pl_protocol_a_fee q,
      pl_protocol_b_fee := pl_protocol_b_fee q, pl_partner_a_fee := pl_partner_a_fee q,
      pl_partner_b_fee := pl_partner_b_fee q\<rparr>)"
    and c: "\<And>s. claims s q' + balance s v \<le> claims s q + balance s v'"
  shows "books q' v' ps"
proof -
  have r: "pl_liquidity q' = pl_liquidity q" "pl_sqrt_price q' = pl_sqrt_price q"
    "pl_sqrt_min_price q' = pl_sqrt_min_price q" "pl_sqrt_max_price q' = pl_sqrt_max_price q"
    "fee_per_liquidity s q' = fee_per_liquidity s q" for s
    using q' by (cases s; simp add: same_books_def side_defs)+
  have res: "reserve s l q' = reserve s l q" for s l
    using reserve_cong [of q' q] r by (cases s) (simp_all add: reserve_def)
  have o: "owed s q' = owed s q" for s by (rule ext) (simp add: owed_def r)
  have "liability s q' ps \<le> real (balance s v')" for s
  proof -
    have "real (claims s q') + real (balance s v) \<le> real (claims s q) + real (balance s v')"
      using c [of s] by (simp only: of_nat_add [symmetric] of_nat_le_iff)
    moreover have "liability s q ps \<le> real (balance s v)" using b by (simp add: books_def solvent_def)
    ultimately show ?thesis by (simp add: liability_def res o r)
  qed
  then show ?thesis using b by (simp add: books_def solvent_def wf_prices_def r)
qed

lemma claim_protocol_fee_keeps_books:
  assumes b: "books q v ps"
    and h: "handle_claim_protocol_fee ctx q v ma mb = Ok (q', v', x, y)"
    and laws: "token_law (cl_token_a ctx)" "token_law (cl_token_b ctx)"
  shows "books q' v' ps"
proof -
  obtain va vb where c: "claim_protocol_fee q ma mb = Ok (q', x, y)"
    and va: "0 < x \<Longrightarrow> transfer_from_pool (cl_token_a ctx) (va_token_a v) x = Ok va"
      "\<not> 0 < x \<Longrightarrow> va = va_token_a v"
    and vb: "0 < y \<Longrightarrow> transfer_from_pool (cl_token_b ctx) (va_token_b v) y = Ok vb"
      "\<not> 0 < y \<Longrightarrow> vb = va_token_b v"
    and v': "v' = \<lparr> va_token_a = va, va_token_b = vb \<rparr>"
    using h by (auto simp: handle_claim_protocol_fee_def rbind_Ok_iff split: if_splits)
  note e = claim_protocol_fee_effect [OF c]
  have p: "unat (va_token_a v) = unat va + unat x" "unat (va_token_b v) = unat vb + unat y"
    using paid_effect [OF laws(1) va] paid_effect [OF laws(2) vb] by simp_all
  obtain a' b' where q': "q' = q\<lparr>pl_protocol_a_fee := a', pl_protocol_b_fee := b'\<rparr>" using e(3) by blast
  show ?thesis
  proof (rule books_pay [OF b])
    fix s show "claims s q' + balance s v \<le> claims s q + balance s v'"
      using e(1,2) p by (cases s) (simp_all add: claims_def balance_def q' v')
  qed (simp add: same_books_def q')
qed

lemma claim_partner_fee_keeps_books:
  assumes b: "books q v ps"
    and h: "handle_claim_partner_fee ta tb partner q v ma mb = Ok (q', v', x, y)"
    and laws: "token_law ta" "token_law tb"
  shows "books q' v' ps"
proof -
  obtain va vb where c: "claim_partner_fee q ma mb = Ok (q', x, y)"
    and va: "0 < ma \<Longrightarrow> transfer_from_pool ta (va_token_a v) x = Ok va"
      "\<not> 0 < ma \<Longrightarrow> va = va_token_a v"
    and vb: "0 < mb \<Longrightarrow> transfer_from_pool tb (va_token_b v) y = Ok vb"
      "\<not> 0 < mb \<Longrightarrow> vb = va_token_b v"
    and v': "v' = \<lparr> va_token_a = va, va_token_b = vb \<rparr>"
    using h by (auto simp: handle_claim_partner_fee_def rbind_Ok_iff split: if_splits)
  note e = claim_partner_fee_effect [OF c]
  have z: "\<not> 0 < ma \<Longrightarrow> x = 0" "\<not> 0 < mb \<Longrightarrow> y = 0" using e(4,5) by (simp_all add: word_gt_0)
  have p: "unat (va_token_a v) = unat va + unat x" "unat (va_token_b v) = unat vb + unat y"
    using va withdraw_effect [OF laws(1)] vb withdraw_effect [OF laws(2)] z
    by (cases "0 < ma"; cases "0 < mb"; simp)+
  obtain a' b' where q': "q' = q\<lparr>pl_partner_a_fee := a', pl_partner_b_fee := b'\<rparr>" using e(3) by blast
  show ?thesis
  proof (rule books_pay [OF b])
    fix s show "claims s q' + balance s v \<le> claims s q + balance s v'"
      using e(1,2) p by (cases s) (simp_all add: claims_def balance_def q' v')
  qed (simp add: same_books_def q')
qed

lemma zap_protocol_fee_keeps_books:
  assumes b: "books q v ps" and h: "handle_zap_protocol_fee ctx q v m = Ok (q', v', x)"
    and law: "token_law (zc_token ctx)"
  shows "books q' v' ps"
proof -
  obtain is_a paired where z: "zap_claim (zc_ids ctx) q is_a m = Ok (q', x, paired)"
    and t: "transfer_from_pool (zc_token ctx) (if is_a then va_token_a v else va_token_b v) x =
      Ok (if is_a then va_token_a v' else va_token_b v')"
    and v': "v' = (if is_a then v\<lparr>va_token_a := va_token_a v'\<rparr> else v\<lparr>va_token_b := va_token_b v'\<rparr>)"
    by (rule handle_zap_protocol_fee_Ok [OF h]) blast
  note e = zap_claim_Ok [OF z]
  obtain a' b' where q': "q' = q\<lparr>pl_protocol_a_fee := a', pl_protocol_b_fee := b'\<rparr>" using e(3) by blast
  have w: "balance s v = balance s v' + (if s = A \<longleftrightarrow> is_a then unat x else 0)" for s
  proof (cases is_a)
    case True
    then have "va_token_b v' = va_token_b v" using v' by (metis vaults.select_convs(2) vaults.surjective
        vaults.update_convs(1))
    then show ?thesis using True withdraw_effect [OF law t] by (cases s) (simp_all add: balance_def)
  next
    case False
    then have "va_token_a v' = va_token_a v" using v' by (metis vaults.select_convs(1) vaults.surjective
        vaults.update_convs(2))
    then show ?thesis using False withdraw_effect [OF law t] by (cases s) (simp_all add: balance_def)
  qed
  show ?thesis
  proof (rule books_pay [OF b])
    fix s show "claims s q' + balance s v \<le> claims s q + balance s v'"
      using e(1,2) w [of s] by (cases s; cases is_a) (simp_all add: claims_def q')
  qed (simp add: same_books_def q')
qed

section \<open>Status, fees and rewards\<close>

lemma set_pool_status_books: "handle_set_pool_status q s = Ok q' \<Longrightarrow> same_books q q'"
  by (drule handle_set_pool_status_Ok(1)) (simp add: same_books_def)

lemma update_pool_fees_books: "handle_update_pool_fees clk q params = Ok q' \<Longrightarrow> same_books q q'"
  by (elim update_pool_fees_only_fees) (simp add: same_books_def)

lemma claim_reward_keeps_books:
  assumes "books q v ps" and "ps k = Some p"
    and "handle_claim_reward clk acc mint q vault p i skip = Ok (q', vault', p', x)"
  shows "books q' v (ps(k := Some p'))"
proof -
  obtain p1 where u: "position_update_rewards p q (unix_timestamp clk) = Ok (q', p1)"
    and c: "claim_reward p1 (unat i) = Ok (p', x)"
    using assms(3) by (auto simp: handle_claim_reward_def rbind_Ok_iff require_Ok_iff split: if_splits)
  have "same_fees p1 p'" using c by (auto simp: claim_reward_def rbind_Ok_iff)
  then have "same_fees p p'" "same_books q q'"
    using position_update_rewards_books [OF u] same_fees_trans by blast+
  then show ?thesis by (intro books_same_fees [OF assms(1,2)])
qed

lemma reward_handlers_books:
  "handle_fund_reward clk mint funder q vault i x cf = Ok (q', vault') \<Longrightarrow> same_books q q'"
  "handle_withdraw_ineligible_reward clk mint funder q vault i = Ok (q', vault', y) \<Longrightarrow> same_books q q'"
  "handle_initialize_reward m rem signer vk q i d funder = Ok q' \<Longrightarrow> same_books q q'"
  "handle_update_reward_duration clk rem signer q i d = Ok q' \<Longrightarrow> same_books q q'"
  "handle_update_reward_funder rem signer q i funder = Ok q' \<Longrightarrow> same_books q q'"
  by (auto simp: handle_fund_reward_def handle_withdraw_ineligible_reward_def
      handle_initialize_reward_def handle_update_reward_duration_def
      handle_update_reward_funder_def claim_ineligible_reward_def rbind_Ok_iff require_Ok_iff
      dest!: pool_update_rewards_books intro: same_books_trans split: if_splits)

end
