(* ===== verification/Transition_System.thy ===== *)
theory Transition_System
  imports Main
begin

text \<open>
  Invariants of a system that starts in an initial state and takes steps. The locale is the interface
  between a machine and a property of its states: the property holds at the start and every step
  keeps it, so it holds in every state that can be reached.
\<close>

definition reachable_from :: "('s \<Rightarrow> bool) \<Rightarrow> ('s \<Rightarrow> 's \<Rightarrow> bool) \<Rightarrow> 's \<Rightarrow> bool" where
  "reachable_from init step s \<longleftrightarrow> (\<exists>s0. init s0 \<and> step\<^sup>*\<^sup>* s0 s)"

locale invariant =
  fixes init :: "'s \<Rightarrow> bool" and step :: "'s \<Rightarrow> 's \<Rightarrow> bool" and inv :: "'s \<Rightarrow> bool"
  assumes at_start: "init s \<Longrightarrow> inv s" and kept: "inv s \<Longrightarrow> step s s' \<Longrightarrow> inv s'"
begin

lemma kept_by_steps: "step\<^sup>*\<^sup>* s s' \<Longrightarrow> inv s \<Longrightarrow> inv s'"
  by (induction rule: rtranclp_induct) (auto intro: kept)

lemma always: "reachable_from init step s \<Longrightarrow> inv s"
  unfolding reachable_from_def using at_start kept_by_steps by blast

end

text \<open>
  A quantity that no step decreases: along a run from a state that satisfies the invariant, it never
  falls below its value there.
\<close>

locale growing = invariant +
  fixes quantity :: "'s \<Rightarrow> nat"
  assumes grows: "inv s \<Longrightarrow> step s s' \<Longrightarrow> quantity s \<le> quantity s'"
begin

lemma never_falls:
  assumes "step\<^sup>*\<^sup>* s s'" and "inv s" shows "quantity s \<le> quantity s'"
  using assms
proof (induction rule: rtranclp_induct)
  case (step y z)
  then show ?case using kept_by_steps grows by (meson order_trans)
qed simp

end

end
