(* ===== verification/Market.thy ===== *)
theory Market
  imports Solvency_Positions Transition_System
begin

text \<open>
  A pool over its whole life: it is created with one position, and then any instruction that the
  program accepts changes it. The books are right in every state that can be reached, so the vaults
  always cover what the pool owes.
\<close>

declare of_nat_unat [simp del]

section \<open>Creation\<close>

lemma included_at_least:
  "calculate_transfer_fee_included_amount t x = Ok i \<Longrightarrow> unat x \<le> unat (xi_amount i)"
  by (auto simp: calculate_transfer_fee_included_amount_def rbind_Ok_iff ok_or_Ok_iff unwrap_Ok_iff
      if_Ok_iff checked_add_iff split: if_splits option.splits)

lemma deposit_at_least_one:
  assumes "token_law t" and i: "calculate_transfer_fee_included_amount t x = Ok i"
    and "transfer_from_user t w (max (xi_amount i) 1) = Ok w'"
  shows "unat x \<le> unat w'"
proof (cases "xi_amount i = 0")
  case True
  then show ?thesis using included_at_least [OF i] by simp
next
  case False
  then have "1 \<le> xi_amount i" by (simp add: word_le_nat_alt unat_gt_0 Suc_leI)
  then have "max (xi_amount i) 1 = xi_amount i" by (rule max_absorb1)
  then show ?thesis using deposit_included_effect [OF assms(1) i, of w w'] assms(3) by simp
qed

text \<open>A new pool owes the reserves of its liquidity, which the two initial amounts cover.\<close>

lemma initial_books:
  assumes wf: "wf_prices q" and l: "pl_liquidity q = l"
    and am: "get_initialize_amounts (pl_sqrt_min_price q) (pl_sqrt_max_price q) (pl_sqrt_price q) l =
      Ok (a, b)"
    and z: "\<And>s. claims s q = 0" "\<And>s. fee_per_liquidity s q = 0"
    and p: "liq p = unat l" "\<And>s. pending s p = 0"
    and v: "\<And>s. amount s a b \<le> balance s v"
  shows "books q v (Map.empty(k := Some p))"
proof -
  have am': "get_amounts_for_modify_liquidity q l Up = Ok (a, b)"
    using am by (auto simp: get_initialize_amounts_def get_amounts_for_modify_liquidity_def rbind_Ok_iff)
  have one: "total_over f (Map.empty(k := Some p)) = f p" for f
    using total_over_insert [of "Map.empty" k f p] by simp
  have "owed s q p = 0" for s by (simp add: owed_def earned_def p z)
  then have "liability s q (Map.empty(k := Some p)) \<le> real (balance s v)" for s
    using reserve_change(1) [OF am' refl, of s] of_nat_mono [OF v, of s, where 'a = real]
    unfolding liability_def one by (simp add: z l)
  then show ?thesis using wf by (simp add: books_def solvent_def one p l)
qed

lemma position_initialize_Ok:
  assumes "position_initialize q0 key mint l = (q, p)"
  shows "same_books q0 q" and "liq p = unat l" and "pending s p = 0"
  using assms
  by (auto simp: position_initialize_def same_books_def position_default_def liq_def pending_def
      split: side.split)

text \<open>What the three instructions that create a pool have in common.\<close>

lemma pool_initialize_books:
  assumes q0: "q0 = pool_initialize creator fees ma mb va vb wv partner lo hi pr ap aty fa fb l cm ty"
    and i: "position_initialize q0 key mint l = (q, p)"
    and r: "MIN_SQRT_PRICE \<le> lo" "lo \<le> pr" "pr \<le> hi"
    and am: "get_initialize_amounts lo hi pr l = Ok (a, b)"
    and v: "\<And>s. amount s a b \<le> balance s v"
  shows "books q v (Map.empty(k := Some p))"
proof -
  note f = position_initialize_Ok [OF i]
  have "wf_prices q0"
    using r by (simp add: wf_prices_def q0 pool_initialize_def word_to_nat MIN_SQRT_PRICE_def)
  moreover have "claims s q0 = 0" "fee_per_liquidity s q0 = 0" for s
    by (cases s; simp add: q0 pool_initialize_def side_defs)+
  ultimately have "books q0 v (Map.empty(k := Some p))"
    by (intro initial_books [where l = l and a = a and b = b])
      (use am v f(2,3) in \<open>simp_all add: q0 pool_initialize_def\<close>)
  then show ?thesis using same_books_books [OF f(1)] by simp
qed

lemma initialize_pool_books:
  assumes h: "handle_initialize_pool ctx cfg params = Ok (q, v, p)"
    and cfg: "MIN_SQRT_PRICE \<le> cf_sqrt_min_price cfg"
    and laws: "token_law (ip_token_a ctx)" "token_law (ip_token_b ctx)"
  shows "books q v (Map.empty(k := Some p))"
proof -
  let ?l = "ii_liquidity params" and ?pr = "ii_sqrt_price params"
  obtain ap a b ia ib where
    r: "cf_sqrt_min_price cfg \<le> ?pr" "?pr \<le> cf_sqrt_max_price cfg" and
    am: "get_initialize_amounts (cf_sqrt_min_price cfg) (cf_sqrt_max_price cfg) ?pr ?l = Ok (a, b)" and
    c: "config_pool ctx cfg params ap = Ok (q, p)" and
    t: "calculate_transfer_fee_included_amount (ip_token_a ctx) a = Ok ia"
      "calculate_transfer_fee_included_amount (ip_token_b ctx) b = Ok ib" and
    d: "initial_deposit ctx (xi_amount ia) (xi_amount ib) = Ok v"
    using h unfolding handle_initialize_pool_def
    by (auto simp: rbind_Ok_iff require_Ok_iff)
  note i = c [unfolded config_pool_def Let_def sum.inject]
  obtain va vb where v: "v = \<lparr> va_token_a = va, va_token_b = vb \<rparr>"
    "transfer_from_user (ip_token_a ctx) 0 (xi_amount ia) = Ok va"
    "transfer_from_user (ip_token_b ctx) 0 (xi_amount ib) = Ok vb"
    using d by (auto simp: initial_deposit_def rbind_Ok_iff)
  have "amount s a b \<le> balance s v" for s
    using deposit_included_effect [OF laws(1) t(1) v(2)] deposit_included_effect [OF laws(2) t(2) v(3)]
    by (cases s) (simp_all add: amount_def balance_def v(1))
  then show ?thesis by (rule pool_initialize_books [OF refl i cfg r am])
qed

lemma customizable_pool_books:
  assumes c: "customizable_pool ctx partner params = Ok (q, p)"
    and val: "initialize_customizable_pool_parameters_validate clk params = Ok ()"
    and am: "get_initialize_amounts (ic_sqrt_min_price params) (ic_sqrt_max_price params)
       (ic_sqrt_price params) (ic_liquidity params) = Ok (a, b)"
    and v: "\<And>s. amount s a b \<le> balance s v"
  shows "books q v (Map.empty(k := Some p))"
proof -
  have r: "MIN_SQRT_PRICE \<le> ic_sqrt_min_price params" "ic_sqrt_min_price params \<le> ic_sqrt_price params"
    "ic_sqrt_price params \<le> ic_sqrt_max_price params"
    using val by (auto simp: initialize_customizable_pool_parameters_validate_def require_Ok_iff)
  obtain f ap wv fa fb where i: "position_initialize (pool_initialize (ip_creator ctx) f
      (mi_key (ip_token_a_mint ctx)) (mi_key (ip_token_b_mint ctx))
      (ip_token_a_vault ctx) (ip_token_b_vault ctx) wv partner (ic_sqrt_min_price params)
      (ic_sqrt_max_price params) (ic_sqrt_price params) ap (ic_activation_type params) fa fb
      (ic_liquidity params) (ic_collect_fee_mode params) (u8_of_pool_type Customizable))
      (ip_pool_key ctx) (ip_position_nft_mint ctx) (ic_liquidity params) = (q, p)"
    using c unfolding customizable_pool_def Let_def by (auto simp: rbind_Ok_iff)
  show ?thesis by (rule pool_initialize_books [OF refl i r am v])
qed

lemma initialize_customizable_pool_books:
  assumes h: "handle_initialize_customizable_pool ctx params = Ok (q, v, p)"
    and laws: "token_law (ip_token_a ctx)" "token_law (ip_token_b ctx)"
  shows "books q v (Map.empty(k := Some p))"
proof -
  obtain a b ia ib where
    val: "initialize_customizable_pool_parameters_validate (ip_clock ctx) params = Ok ()" and
    am: "get_initialize_amounts (ic_sqrt_min_price params) (ic_sqrt_max_price params)
       (ic_sqrt_price params) (ic_liquidity params) = Ok (a, b)" and
    c: "customizable_pool ctx 0 params = Ok (q, p)" and
    t: "calculate_transfer_fee_included_amount (ip_token_a ctx) a = Ok ia"
      "calculate_transfer_fee_included_amount (ip_token_b ctx) b = Ok ib" and
    d: "initial_deposit ctx (max (xi_amount ia) 1) (max (xi_amount ib) 1) = Ok v"
    using h unfolding handle_initialize_customizable_pool_def
    by (auto simp: rbind_Ok_iff require_Ok_iff)
  obtain va vb where v: "v = \<lparr> va_token_a = va, va_token_b = vb \<rparr>"
    "transfer_from_user (ip_token_a ctx) 0 (max (xi_amount ia) 1) = Ok va"
    "transfer_from_user (ip_token_b ctx) 0 (max (xi_amount ib) 1) = Ok vb"
    using d by (auto simp: initial_deposit_def rbind_Ok_iff)
  have "amount s a b \<le> balance s v" for s
    using deposit_at_least_one [OF laws(1) t(1) v(2)] deposit_at_least_one [OF laws(2) t(2) v(3)]
    by (cases s) (simp_all add: amount_def balance_def v(1))
  then show ?thesis by (rule customizable_pool_books [OF c val am])
qed

lemma initialize_dynamic_pool_books:
  assumes h: "handle_initialize_pool_with_dynamic_config ctx signer cfg params = Ok (q, v, p)"
    and laws: "token_law (ip_token_a ctx)" "token_law (ip_token_b ctx)"
  shows "books q v (Map.empty(k := Some p))"
proof -
  obtain a b ia ib where
    val: "initialize_customizable_pool_parameters_validate (ip_clock ctx) params = Ok ()" and
    am: "get_initialize_amounts (ic_sqrt_min_price params) (ic_sqrt_max_price params)
       (ic_sqrt_price params) (ic_liquidity params) = Ok (a, b)" and
    c: "customizable_pool ctx (cf_pool_creator_authority cfg) params = Ok (q, p)" and
    t: "calculate_transfer_fee_included_amount (ip_token_a ctx) a = Ok ia"
      "calculate_transfer_fee_included_amount (ip_token_b ctx) b = Ok ib" and
    d: "initial_deposit ctx (xi_amount ia) (xi_amount ib) = Ok v"
    using h unfolding handle_initialize_pool_with_dynamic_config_def
    by (auto simp: rbind_Ok_iff require_Ok_iff split: if_splits)
  obtain va vb where v: "v = \<lparr> va_token_a = va, va_token_b = vb \<rparr>"
    "transfer_from_user (ip_token_a ctx) 0 (xi_amount ia) = Ok va"
    "transfer_from_user (ip_token_b ctx) 0 (xi_amount ib) = Ok vb"
    using d by (auto simp: initial_deposit_def rbind_Ok_iff)
  have "amount s a b \<le> balance s v" for s
    using deposit_included_effect [OF laws(1) t(1) v(2)] deposit_included_effect [OF laws(2) t(2) v(3)]
    by (cases s) (simp_all add: amount_def balance_def v(1))
  then show ?thesis by (rule customizable_pool_books [OF c val am])
qed

section \<open>The life of a pool\<close>

record market =
  mk_pool :: pool
  mk_vaults :: vaults
  mk_positions :: "pubkey \<Rightarrow> position option"
  mk_vestings :: "pubkey \<Rightarrow> vesting option"
  mk_reward_vaults :: "nat \<Rightarrow> reward_vault"

text \<open>
  The vault of a reward is an account whose address is derived from the pool and the index of the
  reward: it is given by the index, and it is made, empty, by the instruction that initializes the
  reward. The issuer of its mint may freeze it and thaw it at any time.

  One step for each instruction of \<^verbatim>\<open>lib.rs\<close> that can change a pool. The accounts that a step reads
  are those of the market; whoever calls it, at whatever time, with whatever parameters, the step
  exists when the handler succeeds. The tokens may charge any transfer fee, as long as a transfer does
  what \<open>token_law\<close> says.
\<close>

inductive market_step :: "market \<Rightarrow> market \<Rightarrow> bool" where
  swap: "swap_instruction ids clk tx ta tb accounts (mk_pool m) (mk_vaults m) params = Ok (q, v, r) \<Longrightarrow>
    token_law ta \<Longrightarrow> token_law tb \<Longrightarrow> market_step m (m\<lparr>mk_pool := q, mk_vaults := v\<rparr>)"
| add: "mk_positions m k = Some p \<Longrightarrow>
    handle_add_liquidity ctx (mk_pool m) (mk_vaults m) p al = Ok (q, v, p', ch) \<Longrightarrow>
    token_law (lc_token_a ctx) \<Longrightarrow> token_law (lc_token_b ctx) \<Longrightarrow>
    market_step m (m\<lparr>mk_pool := q, mk_vaults := v, mk_positions := (mk_positions m)(k := Some p')\<rparr>)"
| remove: "mk_positions m k = Some p \<Longrightarrow>
    handle_remove_liquidity ctx (mk_pool m) (mk_vaults m) p d ma mb = Ok (q, v, p', ch) \<Longrightarrow>
    token_law (lc_token_a ctx) \<Longrightarrow> token_law (lc_token_b ctx) \<Longrightarrow>
    market_step m (m\<lparr>mk_pool := q, mk_vaults := v, mk_positions := (mk_positions m)(k := Some p')\<rparr>)"
| claim_position_fee: "mk_positions m k = Some p \<Longrightarrow>
    handle_claim_position_fee ctx (mk_pool m) (mk_vaults m) p = Ok (v, p', a, b) \<Longrightarrow>
    token_law (lc_token_a ctx) \<Longrightarrow> token_law (lc_token_b ctx) \<Longrightarrow>
    market_step m (m\<lparr>mk_vaults := v, mk_positions := (mk_positions m)(k := Some p')\<rparr>)"
| create_position: "mk_positions m k = None \<Longrightarrow>
    handle_create_position clk nft (mk_pool m) pool_key mint = Ok (q, p') \<Longrightarrow>
    market_step m (m\<lparr>mk_pool := q, mk_positions := (mk_positions m)(k := Some p')\<rparr>)"
| close_position: "mk_positions m k = Some p \<Longrightarrow>
    handle_close_position acc nft (mk_pool m) p = Ok q \<Longrightarrow>
    market_step m (m\<lparr>mk_pool := q, mk_positions := (mk_positions m)(k := None)\<rparr>)"
| lock_position: "mk_positions m k = Some p \<Longrightarrow> mk_vestings m kv = None \<Longrightarrow>
    handle_lock_position clk acc (mk_pool m) k p vp = Ok (p', vst) \<Longrightarrow>
    market_step m (m\<lparr>mk_positions := (mk_positions m)(k := Some p'),
      mk_vestings := (mk_vestings m)(kv := Some vst)\<rparr>)"
| refresh_vesting: "mk_positions m k = Some p \<Longrightarrow>
    handle_refresh_vesting clk acc (mk_pool m) k ks (mk_vestings m) p = Ok (vs, p') \<Longrightarrow>
    market_step m (m\<lparr>mk_positions := (mk_positions m)(k := Some p'), mk_vestings := vs\<rparr>)"
| permanent_lock: "mk_positions m k = Some p \<Longrightarrow>
    handle_permanent_lock_position clk acc (mk_pool m) p x = Ok (q, p') \<Longrightarrow>
    market_step m (m\<lparr>mk_pool := q, mk_positions := (mk_positions m)(k := Some p')\<rparr>)"
| split_position: "mk_positions m k1 = Some p1 \<Longrightarrow> mk_positions m k2 = Some p2 \<Longrightarrow> k1 \<noteq> k2 \<Longrightarrow>
    handle_split_position2 clk (mk_pool m) p1 p2 sp = Ok (q, p1', p2', info) \<Longrightarrow>
    market_step m (m\<lparr>mk_pool := q, mk_positions := (mk_positions m)(k1 := Some p1', k2 := Some p2')\<rparr>)"
| claim_reward: "mk_positions m k = Some p \<Longrightarrow>
    handle_claim_reward clk acc t (mk_pool m) (mk_reward_vaults m (unat i)) p i skip = Ok (q, rv', p', x) \<Longrightarrow>
    token_law t \<Longrightarrow>
    market_step m (m\<lparr>mk_pool := q, mk_positions := (mk_positions m)(k := Some p'),
      mk_reward_vaults := (mk_reward_vaults m)(unat i := rv')\<rparr>)"
| fund_reward:
    "handle_fund_reward clk t funder (mk_pool m) (mk_reward_vaults m (unat i)) i x cf = Ok (q, rv') \<Longrightarrow>
    token_law t \<Longrightarrow>
    market_step m (m\<lparr>mk_pool := q, mk_reward_vaults := (mk_reward_vaults m)(unat i := rv')\<rparr>)"
| withdraw_ineligible_reward:
    "handle_withdraw_ineligible_reward clk t funder (mk_pool m) (mk_reward_vaults m (unat i)) i =
      Ok (q, rv', x) \<Longrightarrow> token_law t \<Longrightarrow>
    market_step m (m\<lparr>mk_pool := q, mk_reward_vaults := (mk_reward_vaults m)(unat i := rv')\<rparr>)"
| initialize_reward: "handle_initialize_reward mint rem signer vk (mk_pool m) i d funder = Ok q \<Longrightarrow>
    market_step m (m\<lparr>mk_pool := q, mk_reward_vaults := (mk_reward_vaults m)
      (unat i := \<lparr> rv_key = vk, rv_is_frozen = frozen, rv_amount = 0 \<rparr>)\<rparr>)"
| freeze_reward_vault:
    "market_step m (m\<lparr>mk_reward_vaults := (mk_reward_vaults m)
      (i := (mk_reward_vaults m i)\<lparr>rv_is_frozen := frozen\<rparr>)\<rparr>)"
| update_reward_duration: "handle_update_reward_duration clk rem signer (mk_pool m) i d = Ok q \<Longrightarrow>
    market_step m (m\<lparr>mk_pool := q\<rparr>)"
| update_reward_funder: "handle_update_reward_funder rem signer (mk_pool m) i funder = Ok q \<Longrightarrow>
    market_step m (m\<lparr>mk_pool := q\<rparr>)"
| set_pool_status: "ix_set_pool_status oper signer (mk_pool m) st = Ok q \<Longrightarrow>
    market_step m (m\<lparr>mk_pool := q\<rparr>)"
| update_pool_fees: "ix_update_pool_fees oper signer clk (mk_pool m) up = Ok q \<Longrightarrow>
    market_step m (m\<lparr>mk_pool := q\<rparr>)"
| claim_protocol_fee:
    "ix_claim_protocol_fee oper signer cc (mk_pool m) (mk_vaults m) xa xb = Ok (q, v, a, b) \<Longrightarrow>
    token_law (cl_token_a cc) \<Longrightarrow> token_law (cl_token_b cc) \<Longrightarrow>
    market_step m (m\<lparr>mk_pool := q, mk_vaults := v\<rparr>)"
| claim_partner_fee:
    "handle_claim_partner_fee ta tb partner (mk_pool m) (mk_vaults m) xa xb = Ok (q, v, a, b) \<Longrightarrow>
    token_law ta \<Longrightarrow> token_law tb \<Longrightarrow> market_step m (m\<lparr>mk_pool := q, mk_vaults := v\<rparr>)"
| zap_protocol_fee:
    "zap_protocol_fee oper signer zc (mk_pool m) (mk_vaults m) xm = Ok (q, v, x) \<Longrightarrow>
    token_law (zc_token zc) \<Longrightarrow> market_step m (m\<lparr>mk_pool := q, mk_vaults := v\<rparr>)"

text \<open>The three ways to create a pool; a config is one that the program has created.\<close>

inductive market_init :: "market \<Rightarrow> bool" where
  static: "handle_create_static_config clk index sp = Ok cfg \<Longrightarrow>
    handle_initialize_pool ctx cfg params = Ok (q, v, p) \<Longrightarrow>
    token_law (ip_token_a ctx) \<Longrightarrow> token_law (ip_token_b ctx) \<Longrightarrow>
    market_init \<lparr> mk_pool = q, mk_vaults = v, mk_positions = Map.empty(k := Some p),
      mk_vestings = Map.empty, mk_reward_vaults = rvs \<rparr>"
| customizable: "handle_initialize_customizable_pool ctx cparams = Ok (q, v, p) \<Longrightarrow>
    token_law (ip_token_a ctx) \<Longrightarrow> token_law (ip_token_b ctx) \<Longrightarrow>
    market_init \<lparr> mk_pool = q, mk_vaults = v, mk_positions = Map.empty(k := Some p),
      mk_vestings = Map.empty, mk_reward_vaults = rvs \<rparr>"
| dynamic: "handle_initialize_pool_with_dynamic_config ctx signer cfg cparams = Ok (q, v, p) \<Longrightarrow>
    token_law (ip_token_a ctx) \<Longrightarrow> token_law (ip_token_b ctx) \<Longrightarrow>
    market_init \<lparr> mk_pool = q, mk_vaults = v, mk_positions = Map.empty(k := Some p),
      mk_vestings = Map.empty, mk_reward_vaults = rvs \<rparr>"

text \<open>Whichever way, a market starts with a new pool, one new position and no vesting.\<close>

lemma config_pool_new:
  assumes "config_pool ctx cfg params ap = Ok (q, p)"
  obtains creator fees ma mb va vb wv partner lo hi pr aty fa fb cm ty key mint l where
    "position_initialize (pool_initialize creator fees ma mb va vb wv partner lo hi pr ap aty fa fb l cm ty)
      key mint l = (q, p)"
  using assms unfolding config_pool_def Let_def sum.inject by blast

lemma customizable_pool_new:
  assumes "customizable_pool ctx partner params = Ok (q, p)"
  obtains creator fees ma mb va vb wv lo hi pr ap aty fa fb cm ty key mint l where
    "position_initialize (pool_initialize creator fees ma mb va vb wv partner lo hi pr ap aty fa fb l cm ty)
      key mint l = (q, p)"
  using assms unfolding customizable_pool_def Let_def rbind_Ok_iff sum.inject by blast

lemma market_init_new:
  assumes "market_init m"
  obtains creator fees ma mb va vb wv partner lo hi pr ap aty fa fb cm ty key mint l k p where
    "position_initialize (pool_initialize creator fees ma mb va vb wv partner lo hi pr ap aty fa fb l cm ty)
      key mint l = (mk_pool m, p)"
    and "mk_positions m = Map.empty(k := Some p)" and "mk_vestings m = Map.empty"
  using assms
proof cases
  case (static clk index sp cfg ctx params q v p k rvs)
  then obtain ap where "config_pool ctx cfg params ap = Ok (q, p)"
    unfolding handle_initialize_pool_def by (auto simp: rbind_Ok_iff require_Ok_iff)
  then show ?thesis by (rule config_pool_new) (rule that [of _ _ _ _ _ _ _ _ _ _ _ _ _ _ _ _ _ _ _ _ p k],
        simp_all add: static(1) del: fun_upd_apply)
next
  case (customizable ctx params q v p k rvs)
  then obtain partner where "customizable_pool ctx partner params = Ok (q, p)"
    unfolding handle_initialize_customizable_pool_def by (auto simp: rbind_Ok_iff require_Ok_iff)
  then show ?thesis by (rule customizable_pool_new) (rule that [of _ _ _ _ _ _ _ _ _ _ _ _ _ _ _ _ _ _ _ _ p k],
        simp_all add: customizable(1) del: fun_upd_apply)
next
  case (dynamic ctx signer cfg params q v p k rvs)
  then obtain partner where "customizable_pool ctx partner params = Ok (q, p)"
    unfolding handle_initialize_pool_with_dynamic_config_def
    by (auto simp: rbind_Ok_iff require_Ok_iff split: if_splits)
  then show ?thesis by (rule customizable_pool_new) (rule that [of _ _ _ _ _ _ _ _ _ _ _ _ _ _ _ _ _ _ _ _ p k],
        simp_all add: dynamic(1) del: fun_upd_apply)
qed

definition reachable :: "market \<Rightarrow> bool" where
  "reachable = reachable_from market_init market_step"

definition market_books :: "market \<Rightarrow> bool" where
  "market_books m \<longleftrightarrow> books (mk_pool m) (mk_vaults m) (mk_positions m)"

lemma market_books_pool:
  "market_books m \<Longrightarrow> same_books (mk_pool m) q \<Longrightarrow> market_books (m\<lparr>mk_pool := q\<rparr>)"
  by (simp add: market_books_def same_books_books)

lemma market_books_reward_vaults [simp]: "market_books (m\<lparr>mk_reward_vaults := rvs\<rparr>) = market_books m"
  by (simp add: market_books_def)

lemma market_step_books:
  assumes "market_step m m'" and "market_books m"
  shows "market_books m'"
  using assms
proof (induction rule: market_step.induct)
  case (swap ids clk tx ta tb accounts m params q v r)
  have "p_handle_swap (swap_context_of ids clk tx ta tb accounts) (mk_pool m) (mk_vaults m) params =
    Ok (q, v, r)" using swap(1) by (auto simp: swap_instruction_def rbind_Ok_iff)
  moreover have "token_law (sc_token_a (swap_context_of ids clk tx ta tb accounts))"
    "token_law (sc_token_b (swap_context_of ids clk tx ta tb accounts))"
    using swap(2,3) by (simp_all add: swap_context_of_def)
  ultimately show ?case using swap(4) swap_keeps_books by (simp add: market_books_def)
next
  case (set_pool_status oper signer m st q)
  then show ?case
    by (intro market_books_pool) (auto simp: ix_set_pool_status_def rbind_Ok_iff
        dest: set_pool_status_books)
next
  case (update_pool_fees oper signer clk m up q)
  then show ?case
    by (intro market_books_pool) (auto simp: ix_update_pool_fees_def rbind_Ok_iff
        dest: update_pool_fees_books)
next
  case (claim_protocol_fee oper signer cc m xa xb q v a b)
  then show ?case
    by (auto simp: ix_claim_protocol_fee_def rbind_Ok_iff market_books_def
        intro: claim_protocol_fee_keeps_books)
next
  case (zap_protocol_fee oper signer zc m xm q v x)
  then show ?case
    by (auto simp: zap_protocol_fee_def rbind_Ok_iff market_books_def
        intro: zap_protocol_fee_keeps_books)
next
  case add
  then show ?case by (auto simp: market_books_def intro: add_liquidity_keeps_books)
next
  case remove
  then show ?case by (auto simp: market_books_def intro: remove_liquidity_keeps_books)
next
  case claim_position_fee
  then show ?case by (auto simp: market_books_def intro: claim_position_fee_keeps_books)
next
  case create_position
  then show ?case by (auto simp: market_books_def intro: create_position_keeps_books)
next
  case close_position
  then show ?case by (auto simp: market_books_def intro: close_position_keeps_books)
next
  case lock_position
  then show ?case by (auto simp: market_books_def intro: lock_position_keeps_books)
next
  case refresh_vesting
  then show ?case by (auto simp: market_books_def intro: refresh_vesting_keeps_books)
next
  case permanent_lock
  then show ?case by (auto simp: market_books_def intro: permanent_lock_keeps_books)
next
  case split_position
  then show ?case by (auto simp: market_books_def intro: split_position_keeps_books)
next
  case claim_reward
  then show ?case by (auto simp: market_books_def intro: claim_reward_keeps_books)
next
  case claim_partner_fee
  then show ?case by (auto simp: market_books_def intro: claim_partner_fee_keeps_books)
next
  case fund_reward
  then show ?case unfolding market_books_reward_vaults
    by (intro market_books_pool) (auto dest: reward_handlers_books)
next
  case withdraw_ineligible_reward
  then show ?case unfolding market_books_reward_vaults
    by (intro market_books_pool) (auto dest: reward_handlers_books)
next
  case initialize_reward
  then show ?case unfolding market_books_reward_vaults
    by (intro market_books_pool) (auto dest: reward_handlers_books)
next
  case freeze_reward_vault
  then show ?case by simp
next
  case update_reward_duration
  then show ?case by (intro market_books_pool) (auto dest: reward_handlers_books)
next
  case update_reward_funder
  then show ?case by (intro market_books_pool) (auto dest: reward_handlers_books)
qed

lemma market_init_books:
  assumes "market_init m" shows "market_books m"
  using assms
proof cases
  case static
  then show ?thesis
    by (auto simp: market_books_def intro: initialize_pool_books handle_create_static_config_Ok(1))
next
  case customizable
  then show ?thesis by (auto simp: market_books_def intro: initialize_customizable_pool_books)
next
  case dynamic
  then show ?thesis by (auto simp: market_books_def intro: initialize_dynamic_pool_books)
qed

interpretation market_run: invariant market_init market_step market_books
  by unfold_locales (auto intro: market_init_books market_step_books)

lemma reachable_books: "reachable m \<Longrightarrow> market_books m"
  unfolding reachable_def by (rule market_run.always)

text \<open>In a state that can be reached the vaults cover what is owed, in particular each part of it.\<close>

lemma reachable_solvent:
  assumes "reachable m"
  shows "liability s (mk_pool m) (mk_positions m) \<le> real (balance s (mk_vaults m))"
  using reachable_books [OF assms] by (simp add: market_books_def books_def solvent_def)

lemma liability_covers:
  assumes "market_books m"
  shows "claims s (mk_pool m) \<le> balance s (mk_vaults m)"
    and "mk_positions m k = Some p \<Longrightarrow>
      owed s (mk_pool m) p div 2 ^ 128 + claims s (mk_pool m) \<le> balance s (mk_vaults m)"
proof -
  let ?q = "mk_pool m" and ?ps = "mk_positions m"
  have b: "finite (dom ?ps)" "wf_prices ?q" "liability s ?q ?ps \<le> real (balance s (mk_vaults m))"
    using assms by (simp_all add: market_books_def books_def solvent_def)
  have r: "0 \<le> reserve s (pl_liquidity ?q) ?q"
    using reserve_nonneg [OF b(2)] by (cases s) (simp_all add: reserve_def)
  have c: "real (claims s ?q) + real (total_over (owed s ?q) ?ps) / 2 ^ 128 \<le> real (balance s (mk_vaults m))"
    using b(3) r by (simp add: liability_def)
  moreover have "0 \<le> real (total_over (owed s ?q) ?ps) / 2 ^ 128" by simp
  ultimately have "real (claims s ?q) \<le> real (balance s (mk_vaults m))" by linarith
  then show "claims s ?q \<le> balance s (mk_vaults m)" by simp
  assume k: "?ps k = Some p"
  have "real (owed s ?q p div 2 ^ 128) \<le> real (owed s ?q p) / 2 ^ 128"
    using of_nat_div_le_of_nat [of "owed s ?q p" "2 ^ 128"] by simp
  also have "\<dots> \<le> real (total_over (owed s ?q) ?ps) / 2 ^ 128"
    using total_over_member [where f = "owed s ?q", OF b(1) k] by (simp add: divide_right_mono)
  finally have "real (owed s ?q p div 2 ^ 128 + claims s ?q) \<le> real (balance s (mk_vaults m))"
    using c by simp
  then show "owed s ?q p div 2 ^ 128 + claims s ?q \<le> balance s (mk_vaults m)"
    by (simp only: of_nat_le_iff)
qed

end
