(* ===== verification/Locked_Liquidity.thy ===== *)
theory Locked_Liquidity
  imports Market
begin

text \<open>
  Liquidity that is locked for ever stays. The pool counts the permanently locked liquidity of its
  positions; no instruction decreases the count, and none takes liquidity out of the pool below it.
\<close>

definition locked :: "position \<Rightarrow> nat" where
  "locked p = unat (ps_permanent_locked_liquidity p)"

text \<open>What two states of a pool and a position have in common when no liquidity is locked.\<close>

definition same_lock :: "pool \<Rightarrow> pool \<Rightarrow> bool" where
  "same_lock q q' \<longleftrightarrow> pl_permanent_lock_liquidity q' = pl_permanent_lock_liquidity q"

lemmas lock_defs = same_lock_def locked_def

lemma pool_update_rewards_lock: "pool_update_rewards q t = Ok q' \<Longrightarrow> same_lock q q'"
  by (auto simp: pool_update_rewards_def rbind_Ok_iff same_lock_def)

lemma update_position_reward_lock: "update_position_reward p q = Ok p' \<Longrightarrow> locked p' = locked p"
  by (auto simp: update_position_reward_def rbind_Ok_iff locked_def)

lemma position_update_rewards_lock:
  "position_update_rewards p q t = Ok (q', p') \<Longrightarrow> same_lock q q' \<and> locked p' = locked p"
  by (auto simp: position_update_rewards_def rbind_Ok_iff same_lock_def split: if_splits
      dest: pool_update_rewards_lock update_position_reward_lock)

lemma update_fee_lock: "update_fee p fa fb = Ok p' \<Longrightarrow> locked p' = locked p"
  by (subst update_fee_effect(1), assumption) (simp add: locked_def)

lemma apply_swap_result_lock: "apply_swap_result q r fm t = Ok q' \<Longrightarrow> same_lock q q'"
  by (simp add: apply_swap_result_effect(9) same_lock_def)

lemma swap_lock:
  assumes "p_handle_swap ctx q v params = Ok (q', v', r)"
  shows "same_lock q q'"
proof -
  obtain q1 fm where "update_pre_swap q (unix_timestamp (sc_clock ctx)) = Ok q1"
    and "apply_swap_result q1 (pr_swap_result r) fm (unix_timestamp (sc_clock ctx)) = Ok q'"
    by (rule p_handle_swap_Ok [OF assms]) blast
  then show ?thesis using apply_swap_result_lock update_pre_swap_effect(1)
    by (fastforce simp: same_lock_def)
qed

lemma add_lock:
  assumes "handle_add_liquidity ctx q v p params = Ok (q', v', p', ch)"
  shows "same_lock q q' \<and> locked p' = locked p"
proof -
  obtain q1 p1 d where r: "position_update_rewards p q (unix_timestamp (lc_clock ctx)) = Ok (q1, p1)"
    and a: "apply_add_liquidity q1 p1 d = Ok (q', p')"
    using assms by (auto simp: handle_add_liquidity_def rbind_Ok_iff require_Ok_iff)
  obtain p2 where u: "update_fee p1 (pl_fee_a_per_liquidity q1) (pl_fee_b_per_liquidity q1) = Ok p2"
    and ad: "add_liquidity p2 d = Ok p'" using apply_add_liquidity_effect(1) [OF a] by blast
  have "locked p' = locked p2" by (subst add_liquidity_effect(2) [OF ad]) (simp add: locked_def)
  moreover have "same_lock q1 q'" by (subst apply_add_liquidity_effect(2) [OF a]) (simp add: same_lock_def)
  ultimately show ?thesis using position_update_rewards_lock [OF r] update_fee_lock [OF u]
    by (simp add: same_lock_def)
qed

lemma remove_lock:
  assumes "handle_remove_liquidity ctx q v p dl ma mb = Ok (q', v', p', ch)"
  shows "same_lock q q' \<and> locked p' = locked p"
proof -
  obtain q1 p1 d where r: "position_update_rewards p q (unix_timestamp (lc_clock ctx)) = Ok (q1, p1)"
    and a: "apply_remove_liquidity q1 p1 d = Ok (q', p')"
    using assms by (auto simp: handle_remove_liquidity_def rbind_Ok_iff require_Ok_iff Let_def)
  obtain p2 where u: "update_fee p1 (pl_fee_a_per_liquidity q1) (pl_fee_b_per_liquidity q1) = Ok p2"
    and ad: "remove_unlocked_liquidity p2 d = Ok p'" using apply_remove_liquidity_effect(1) [OF a] by blast
  have "locked p' = locked p2" by (subst remove_unlocked_effect(2) [OF ad]) (simp add: locked_def)
  moreover have "same_lock q1 q'" by (subst apply_remove_liquidity_effect(2) [OF a]) (simp add: same_lock_def)
  ultimately show ?thesis using position_update_rewards_lock [OF r] update_fee_lock [OF u]
    by (simp add: same_lock_def)
qed

lemma claim_position_fee_lock:
  "handle_claim_position_fee ctx q v p = Ok (v', p', a, b) \<Longrightarrow> locked p' = locked p"
  by (auto simp: handle_claim_position_fee_def rbind_Ok_iff Let_def reset_pending_fee_def
      dest!: update_fee_lock) (simp add: locked_def)

lemma lock_position_lock:
  "handle_lock_position clk acc q key p params = Ok (p', vst) \<Longrightarrow> locked p' = locked p"
  by (auto simp: handle_lock_position_def lock_position_def rbind_Ok_iff require_Ok_iff Let_def
      lock_def remove_unlocked_liquidity_def locked_def)

lemma refresh_vestings_lock:
  "refresh_vestings key point ks acc p = Ok (acc', p') \<Longrightarrow> locked p' = locked p"
proof (induction ks arbitrary: acc p)
  case (Cons k ks)
  obtain v v1 p1 fin where "release_vesting_liquidity_to_position v p point = Ok (v1, p1)"
    and r: "refresh_vestings key point ks (acc(k := (if fin then None else Some v1))) p1 = Ok (acc', p')"
    using Cons.prems by (auto simp: rbind_Ok_iff)
  then have "locked p1 = locked p"
    by (auto simp: release_vesting_liquidity_to_position_def release_vested_liquidity_def
        add_liquidity_def rbind_Ok_iff locked_def split: if_splits)
  then show ?case using Cons.IH [OF r] by simp
qed simp

lemma refresh_vesting_lock:
  "handle_refresh_vesting clk acc q key ks accounts p = Ok (accounts', p') \<Longrightarrow> locked p' = locked p"
  by (auto simp: handle_refresh_vesting_def refresh_vesting_def rbind_Ok_iff dest: refresh_vestings_lock)

lemma permanent_lock_lock:
  assumes "handle_permanent_lock_position clk acc q p x = Ok (q', p')"
  shows "unat (pl_permanent_lock_liquidity q') = unat (pl_permanent_lock_liquidity q) + unat x"
    and "locked p' = locked p + unat x"
  using assms
  by (auto simp: handle_permanent_lock_position_def rbind_Ok_iff require_Ok_iff safe_ops_iff
      accumulate_permanent_locked_liquidity_def permanent_lock_liquidity_def
      remove_unlocked_liquidity_def locked_def)

text \<open>A split moves locked liquidity from the first position to the second.\<close>

lemma apply_split_lock:
  assumes "apply_split_position q p1 p2 nu np na nb n0 n1 = Ok (p1', p2', info)"
  shows "locked p1' + locked p2' = locked p1 + locked p2"
proof -
  obtain r1 r2 where u: "update_fee p1 (pl_fee_a_per_liquidity q) (pl_fee_b_per_liquidity q) = Ok r1"
    "update_fee p2 (pl_fee_a_per_liquidity q) (pl_fee_b_per_liquidity q) = Ok r2"
    and m: "moved r1 r2 p1' p2'" by (rule apply_split_position_effect [OF assms])
  show ?thesis using m update_fee_lock [OF u(1)] update_fee_lock [OF u(2)]
    by (simp add: moved_def combined_def locked_def)
qed

section \<open>Instructions that lock nothing\<close>

lemma split_reward_only_lock:
  "handle_split_position2 clk q p1 p2 params = Ok (q', p1', p2', info) \<Longrightarrow>
    same_lock q q' \<and> locked p1' + locked p2' = locked p1 + locked p2"
  by (auto simp: handle_split_position2_def rbind_Ok_iff require_Ok_iff
      dest!: pool_update_rewards_lock update_position_reward_lock apply_split_lock)

lemma create_position_lock:
  assumes "handle_create_position clk nft q pool_key mint = Ok (q', p')"
  shows "same_lock q q' \<and> locked p' = 0"
proof -
  have "position_initialize q pool_key mint 0 = (q', p')"
    using assms by (auto simp: handle_create_position_def rbind_Ok_iff require_Ok_iff Let_def
        split: prod.splits)
  then show ?thesis by (auto simp: position_initialize_def position_default_def lock_defs)
qed

lemma close_position_lock:
  assumes "handle_close_position acc nft q p = Ok q'"
  shows "same_lock q q' \<and> locked p = 0"
proof -
  have em: "position_is_empty p = Ok True" and q': "\<exists>m. q' = q\<lparr>pl_metrics := m\<rparr>"
    using assms by (auto simp: handle_close_position_def rbind_Ok_iff require_Ok_iff Let_def)
  then have "liq p = 0"
    by (auto simp: position_is_empty_def rbind_Ok_iff get_total_liquidity_iff split: if_splits)
  then show ?thesis using q' by (auto simp: lock_defs liq_def)
qed

lemma claim_reward_lock:
  assumes "handle_claim_reward clk acc t q rv p i skip = Ok (q', rv', p', x)"
  shows "same_lock q q' \<and> locked p' = locked p"
proof -
  obtain p1 where u: "position_update_rewards p q (unix_timestamp clk) = Ok (q', p1)"
    and c: "claim_reward p1 (unat i) = Ok (p', x)"
    using assms by (auto simp: handle_claim_reward_def rbind_Ok_iff require_Ok_iff split: if_splits)
  have "locked p' = locked p1" using c by (auto simp: claim_reward_def rbind_Ok_iff locked_def)
  then show ?thesis using position_update_rewards_lock [OF u] by simp
qed

lemma same_lock_trans: "same_lock q r \<Longrightarrow> same_lock r s \<Longrightarrow> same_lock q s"
  by (simp add: same_lock_def)

lemma same_lock_infos: "same_lock q (q\<lparr>pl_reward_infos := r\<rparr>)"
  by (simp add: same_lock_def)

lemma reward_handlers_lock:
  "handle_fund_reward clk t funder q rv i x cf = Ok (q', rv') \<Longrightarrow> same_lock q q'"
  "handle_withdraw_ineligible_reward clk t funder q rv i = Ok (q', rv', y) \<Longrightarrow> same_lock q q'"
  "handle_initialize_reward mint rem signer vk q i d funder' = Ok q' \<Longrightarrow> same_lock q q'"
  "handle_update_reward_duration clk rem signer q i d = Ok q' \<Longrightarrow> same_lock q q'"
  "handle_update_reward_funder rem signer q i funder' = Ok q' \<Longrightarrow> same_lock q q'"
  by (auto simp: handle_fund_reward_def handle_withdraw_ineligible_reward_def
      handle_initialize_reward_def handle_update_reward_duration_def
      handle_update_reward_funder_def claim_ineligible_reward_def rbind_Ok_iff require_Ok_iff
      dest!: pool_update_rewards_lock intro: same_lock_trans same_lock_infos split: if_splits)

lemma claim_fees_lock:
  "claim_protocol_fee q ma mb = Ok (q', x, y) \<Longrightarrow> same_lock q q'"
  "claim_partner_fee q ma mb = Ok (q', x, y) \<Longrightarrow> same_lock q q'"
  by (drule claim_protocol_fee_effect(3) claim_partner_fee_effect(3); erule ssubst; simp add: same_lock_def)+

lemma zap_claim_lock: "zap_claim ids q is_a m = Ok (q', x, y) \<Longrightarrow> same_lock q q'"
  by (drule zap_claim_Ok(3), erule ssubst, simp add: same_lock_def)

lemma operator_handlers_lock:
  "ix_claim_protocol_fee oper signer cc q v ma mb = Ok (q', v', x, y) \<Longrightarrow> same_lock q q'"
  "handle_claim_partner_fee ta tb partner q v ma mb = Ok (q', v', x, y) \<Longrightarrow> same_lock q q'"
  "ix_set_pool_status oper signer q st = Ok q' \<Longrightarrow> same_lock q q'"
  "ix_update_pool_fees oper signer clk q params = Ok q' \<Longrightarrow> same_lock q q'"
  "zap_protocol_fee oper signer zc q v xm = Ok (q', v', x) \<Longrightarrow> same_lock q q'"
proof -
  show "ix_claim_protocol_fee oper signer cc q v ma mb = Ok (q', v', x, y) \<Longrightarrow> same_lock q q'"
    by (auto simp: ix_claim_protocol_fee_def handle_claim_protocol_fee_def rbind_Ok_iff
        dest: claim_fees_lock)
  show "handle_claim_partner_fee ta tb partner q v ma mb = Ok (q', v', x, y) \<Longrightarrow> same_lock q q'"
    by (auto simp: handle_claim_partner_fee_def rbind_Ok_iff dest: claim_fees_lock split: if_splits)
  show "ix_set_pool_status oper signer q st = Ok q' \<Longrightarrow> same_lock q q'"
    by (auto simp: ix_set_pool_status_def rbind_Ok_iff same_lock_def dest!: handle_set_pool_status_Ok(1))
  show "ix_update_pool_fees oper signer clk q params = Ok q' \<Longrightarrow> same_lock q q'"
    by (auto simp: ix_update_pool_fees_def rbind_Ok_iff same_lock_def elim: update_pool_fees_only_fees)
  show "zap_protocol_fee oper signer zc q v xm = Ok (q', v', x) \<Longrightarrow> same_lock q q'"
    by (auto simp: zap_protocol_fee_def rbind_Ok_iff elim: handle_zap_protocol_fee_Ok
        dest: zap_claim_lock)
qed

section \<open>Every step\<close>

text \<open>The count of the pool is the sum over its positions.\<close>

definition locks_counted :: "pool \<Rightarrow> (pubkey \<Rightarrow> position option) \<Rightarrow> bool" where
  "locks_counted q ps \<longleftrightarrow>
     finite (dom ps) \<and> unat (pl_permanent_lock_liquidity q) = total_over locked ps"

lemma locks_pool: "locks_counted q ps \<Longrightarrow> same_lock q q' \<Longrightarrow> locks_counted q' ps"
  by (simp add: locks_counted_def same_lock_def)

lemma locks_position:
  assumes "locks_counted q ps" and "ps k = Some p"
    and "unat (pl_permanent_lock_liquidity q') = unat (pl_permanent_lock_liquidity q) + x"
    and "locked p' = locked p + x"
  shows "locks_counted q' (ps(k := Some p'))"
  using assms total_over_update [where f = locked and m = ps and k = k and v = p and v' = p']
  by (simp add: locks_counted_def)

lemma locks_same_position:
  "locks_counted q ps \<Longrightarrow> ps k = Some p \<Longrightarrow> same_lock q q' \<Longrightarrow> locked p' = locked p \<Longrightarrow>
    locks_counted q' (ps(k := Some p'))"
  by (rule locks_position [where x = 0]) (simp_all add: same_lock_def)

lemma locks_two_positions:
  assumes "locks_counted q ps" and k: "ps k1 = Some p1" "ps k2 = Some p2" "k1 \<noteq> k2"
    and "same_lock q q'" and "locked p1' + locked p2' = locked p1 + locked p2"
  shows "locks_counted q' (ps(k1 := Some p1', k2 := Some p2'))"
  using assms total_over_update [where f = locked and m = ps and k = k1 and v = p1 and v' = p1']
    total_over_update [where f = locked and m = "ps(k1 := Some p1')" and k = k2 and v = p2 and v' = p2']
  by (simp add: locks_counted_def same_lock_def)

definition market_locks :: "market \<Rightarrow> bool" where
  "market_locks m \<longleftrightarrow> locks_counted (mk_pool m) (mk_positions m)"

lemma market_locks_position:
  "market_locks m \<Longrightarrow> mk_positions m k = Some p \<Longrightarrow> same_lock (mk_pool m) q \<Longrightarrow> locked p' = locked p \<Longrightarrow>
    locks_counted q ((mk_positions m)(k := Some p'))"
  unfolding market_locks_def by (rule locks_same_position)

text \<open>What a step does to the count: it stays, or it grows by the amount that is locked.\<close>

lemma market_step_locks:
  assumes "market_step m m'" and "market_locks m"
  shows "market_locks m' \<and>
    unat (pl_permanent_lock_liquidity (mk_pool m)) \<le> unat (pl_permanent_lock_liquidity (mk_pool m'))"
  using assms
proof (induction rule: market_step.induct)
  case (swap ids clk tx ta tb accounts m params q v r)
  have "p_handle_swap (swap_context_of ids clk tx ta tb accounts) (mk_pool m) (mk_vaults m) params =
    Ok (q, v, r)" using swap(1) by (auto simp: swap_instruction_def rbind_Ok_iff)
  from swap_lock [OF this] swap(4) show ?case
    by (auto simp: market_locks_def same_lock_def locks_counted_def)
next
  case (add m k p ctx al q v p' ch)
  note l = add_lock [OF add(2)]
  then show ?case using market_locks_position [OF add(5) add(1)]
    by (auto simp: market_locks_def same_lock_def)
next
  case (remove m k p ctx d ma mb q v p' ch)
  note l = remove_lock [OF remove(2)]
  then show ?case using market_locks_position [OF remove(5) remove(1)]
    by (auto simp: market_locks_def same_lock_def)
next
  case (claim_position_fee m k p ctx v p' a b)
  note l = claim_position_fee_lock [OF claim_position_fee(2)]
  then show ?case using market_locks_position [OF claim_position_fee(5) claim_position_fee(1)]
    by (auto simp: market_locks_def same_lock_def)
next
  case (create_position m k clk nft pool_key mint q p')
  note l = create_position_lock [OF create_position(2)]
  then show ?case using create_position(1,3) total_over_insert [where f = locked and k = k and v = p']
    by (auto simp: market_locks_def same_lock_def locks_counted_def)
next
  case (close_position m k p acc nft q)
  note l = close_position_lock [OF close_position(2)]
  then show ?case using close_position(1,3) total_over_remove [where f = locked and k = k and v = p]
    by (auto simp: market_locks_def same_lock_def locks_counted_def)
next
  case (lock_position m k p kv clk acc vp p' vst)
  note l = lock_position_lock [OF lock_position(3)]
  then show ?case using market_locks_position [OF lock_position(4) lock_position(1)]
    by (auto simp: market_locks_def same_lock_def)
next
  case (refresh_vesting m k p clk acc ks vs p')
  note l = refresh_vesting_lock [OF refresh_vesting(2)]
  then show ?case using market_locks_position [OF refresh_vesting(3) refresh_vesting(1)]
    by (auto simp: market_locks_def same_lock_def)
next
  case (permanent_lock m k p clk acc x q p')
  note l = permanent_lock_lock [OF permanent_lock(2)]
  then show ?case 
    using locks_position [OF permanent_lock(3) [unfolded market_locks_def], OF permanent_lock(1)]
    by (auto simp: market_locks_def)
next
  case (split_position m k1 p1 k2 p2 clk sp q p1' p2' info)
  note l = split_reward_only_lock [OF split_position(4)]
  then show ?case 
    using locks_two_positions [OF split_position(5) [unfolded market_locks_def] split_position(1-3)]
    by (auto simp: market_locks_def same_lock_def)
next
  case (claim_reward m k p clk acc t i skip q rv' p' x)
  note l = claim_reward_lock [OF claim_reward(2)]
  then show ?case using market_locks_position [OF claim_reward(4) claim_reward(1)]
    by (auto simp: market_locks_def same_lock_def)
next
  case fund_reward
  then show ?case by (auto simp: market_locks_def same_lock_def dest: reward_handlers_lock locks_pool)
next
  case withdraw_ineligible_reward
  then show ?case by (auto simp: market_locks_def same_lock_def dest: reward_handlers_lock locks_pool)
next
  case initialize_reward
  then show ?case by (auto simp: market_locks_def same_lock_def dest: reward_handlers_lock locks_pool)
next
  case freeze_reward_vault
  then show ?case by (simp add: market_locks_def)
next
  case update_reward_duration
  then show ?case by (auto simp: market_locks_def same_lock_def dest: reward_handlers_lock locks_pool)
next
  case update_reward_funder
  then show ?case by (auto simp: market_locks_def same_lock_def dest: reward_handlers_lock locks_pool)
next
  case set_pool_status
  then show ?case by (auto simp: market_locks_def same_lock_def dest: operator_handlers_lock locks_pool)
next
  case update_pool_fees
  then show ?case by (auto simp: market_locks_def same_lock_def dest: operator_handlers_lock locks_pool)
next
  case claim_protocol_fee
  then show ?case by (auto simp: market_locks_def same_lock_def dest: operator_handlers_lock locks_pool)
next
  case claim_partner_fee
  then show ?case by (auto simp: market_locks_def same_lock_def dest: operator_handlers_lock locks_pool)
next
  case zap_protocol_fee
  then show ?case by (auto simp: market_locks_def same_lock_def dest: operator_handlers_lock locks_pool)
qed

lemma one_position_locks:
  assumes "q0 = pool_initialize creator fees ma mb va vb wv partner lo hi pr ap aty fa fb l cm ty"
    and "position_initialize q0 key mint l = (q, p)"
  shows "locks_counted q (Map.empty(k := Some p))"
  using assms total_over_insert [where f = locked and m = Map.empty and k = k and v = p]
  by (auto simp: position_initialize_def pool_initialize_def position_default_def locks_counted_def
      locked_def)

lemma market_init_locks:
  assumes "market_init m" shows "market_locks m"
  using assms by (rule market_init_new) (simp add: market_locks_def one_position_locks [OF refl] del: fun_upd_apply)

interpretation lock_run: growing market_init market_step market_locks
  "\<lambda>m. unat (pl_permanent_lock_liquidity (mk_pool m))"
  by unfold_locales (auto intro: market_init_locks dest: market_step_locks)

lemma reachable_locks: "reachable m \<Longrightarrow> market_locks m"
  unfolding reachable_def by (rule lock_run.always)

text \<open>What is locked is part of the liquidity of the pool.\<close>

lemma locked_below_liquidity:
  assumes "reachable m"
  shows "pl_permanent_lock_liquidity (mk_pool m) \<le> pl_liquidity (mk_pool m)"
proof -
  have "total_over locked (mk_positions m) \<le> total_over liq (mk_positions m)"
    by (rule total_over_mono) (simp add: locked_def liq_def)
  then show ?thesis using reachable_locks [OF assms] reachable_books [OF assms]
    by (simp add: market_locks_def locks_counted_def market_books_def books_def word_le_nat_alt)
qed

end
