(* ===== verification/Vested_Liquidity.thy ===== *)
theory Vested_Liquidity
  imports Locked_Liquidity
begin

text \<open>
  Vested liquidity is not lost. The vested liquidity of a position is at any time what its vestings have
  still to release, so that once their schedules are over a refresh returns all of it to the owner.

  Nothing is assumed of the clock: an instruction may see any time, also one before that of the
  instruction before it.
\<close>

definition vested :: "position \<Rightarrow> nat" where
  "vested p = unat (ps_vested_liquidity p)"

definition vested_at :: "(pubkey \<Rightarrow> position option) \<Rightarrow> pubkey \<Rightarrow> nat" where
  "vested_at ps k = (case ps k of None \<Rightarrow> 0 | Some p \<Rightarrow> vested p)"

definition wf_schedule :: "vesting \<Rightarrow> bool" where
  "wf_schedule v \<longleftrightarrow> vesting_total v < 2 ^ 128 \<and> unat (vs_total_released_liquidity v) \<le> vesting_total v \<and>
     (0 < unat (vs_number_of_period v) \<longrightarrow> 0 < unat (vs_period_frequency v))"

definition vestings_counted :: "(pubkey \<Rightarrow> nat) \<Rightarrow> (pubkey \<Rightarrow> vesting option) \<Rightarrow> bool" where
  "vestings_counted held vs \<longleftrightarrow> finite (dom vs) \<and> (\<forall>j v. vs j = Some v \<longrightarrow> wf_schedule v) \<and>
     (\<forall>k. total_over (vesting_remaining k) vs = held k)"

section \<open>The parts of the handlers\<close>

lemma update_position_reward_vested: "update_position_reward p q = Ok p' \<Longrightarrow> vested p' = vested p"
  by (auto simp: update_position_reward_def rbind_Ok_iff vested_def)

lemma position_update_rewards_vested:
  "position_update_rewards p q t = Ok (q', p') \<Longrightarrow> vested p' = vested p"
  by (auto simp: position_update_rewards_def rbind_Ok_iff split: if_splits
      dest: update_position_reward_vested)

lemma update_fee_vested: "update_fee p fa fb = Ok p' \<Longrightarrow> vested p' = vested p"
  by (subst update_fee_effect(1), assumption) (simp add: vested_def)

lemma liquidity_vested:
  "apply_add_liquidity q p d = Ok (q', p') \<Longrightarrow> vested p' = vested p"
  "apply_remove_liquidity q p d = Ok (q', p') \<Longrightarrow> vested p' = vested p"
  by (auto simp: apply_add_liquidity_def apply_remove_liquidity_def add_liquidity_def
      remove_unlocked_liquidity_def rbind_Ok_iff dest!: update_fee_vested) (simp_all add: vested_def)

lemma add_vested:
  "handle_add_liquidity ctx q v p params = Ok (q', v', p', ch) \<Longrightarrow> vested p' = vested p"
  by (auto simp: handle_add_liquidity_def rbind_Ok_iff require_Ok_iff
      dest!: position_update_rewards_vested liquidity_vested)

lemma remove_vested:
  "handle_remove_liquidity ctx q v p dl ma mb = Ok (q', v', p', ch) \<Longrightarrow> vested p' = vested p"
  by (auto simp: handle_remove_liquidity_def rbind_Ok_iff require_Ok_iff Let_def
      dest!: position_update_rewards_vested liquidity_vested)

lemma claim_position_fee_vested:
  "handle_claim_position_fee ctx q v p = Ok (v', p', a, b) \<Longrightarrow> vested p' = vested p"
  by (auto simp: handle_claim_position_fee_def rbind_Ok_iff Let_def reset_pending_fee_def
      dest!: update_fee_vested) (simp add: vested_def)

lemma permanent_lock_vested:
  "handle_permanent_lock_position clk acc q p x = Ok (q', p') \<Longrightarrow> vested p' = vested p"
  by (auto simp: handle_permanent_lock_position_def rbind_Ok_iff require_Ok_iff
      permanent_lock_liquidity_def remove_unlocked_liquidity_def vested_def)

lemma claim_reward_vested:
  "handle_claim_reward clk acc t q rv p i skip = Ok (q', rv', p', x) \<Longrightarrow> vested p' = vested p"
  by (auto simp: handle_claim_reward_def claim_reward_def rbind_Ok_iff require_Ok_iff split: if_splits
      dest!: position_update_rewards_vested) (simp_all add: vested_def)

lemma create_position_vested:
  "handle_create_position clk nft q pool_key mint = Ok (q', p') \<Longrightarrow> vested p' = 0"
  by (auto simp: handle_create_position_def rbind_Ok_iff require_Ok_iff Let_def position_initialize_def
      position_default_def vested_def)

lemma close_position_vested: "handle_close_position acc nft q p = Ok q' \<Longrightarrow> vested p = 0"
  by (auto simp: handle_close_position_def rbind_Ok_iff require_Ok_iff Let_def position_is_empty_def
      get_total_liquidity_iff vested_def liq_def split: if_splits)

lemma apply_split_vested:
  assumes "apply_split_position q p1 p2 nu np na nb n0 n1 = Ok (p1', p2', info)"
  shows "vested p1' = vested p1 \<and> vested p2' = vested p2"
proof -
  obtain r1 r2 where u: "update_fee p1 (pl_fee_a_per_liquidity q) (pl_fee_b_per_liquidity q) = Ok r1"
    "update_fee p2 (pl_fee_a_per_liquidity q) (pl_fee_b_per_liquidity q) = Ok r2"
    and m: "moved r1 r2 p1' p2'" by (rule apply_split_position_effect [OF assms])
  show ?thesis using m update_fee_vested [OF u(1)] update_fee_vested [OF u(2)]
    by (simp add: moved_def same_checkpoints_def vested_def)
qed

lemma split_vested:
  "handle_split_position2 clk q p1 p2 params = Ok (q', p1', p2', info) \<Longrightarrow>
    vested p1' = vested p1 \<and> vested p2' = vested p2"
  by (auto simp: handle_split_position2_def rbind_Ok_iff require_Ok_iff
      dest!: update_position_reward_vested apply_split_vested)

section \<open>Locking and releasing\<close>

lemma lock_position_schedule:
  assumes "handle_lock_position clk acc q key p params = Ok (p', v)"
  shows "vs_position v = key" and "wf_schedule v" and "vesting_remaining key v = vesting_total v"
    and "vested p' = vested p + vesting_total v"
proof -
  obtain ty where l: "lock_position clk ty key p params = Ok (p', v)"
    using assms by (auto simp: handle_lock_position_def rbind_Ok_iff require_Ok_iff)
  note e = lock_position_effect [OF l]
  show "vs_position v = key" by (rule e(1))
  then show "vesting_remaining key v = vesting_total v" by (simp add: vesting_remaining_def e(2))
  show "vested p' = vested p + vesting_total v" using e(6) by (simp add: vested_def)
  have "0 < unat (vs_number_of_period v) \<longrightarrow> 0 < unat (vs_period_frequency v)"
    using l by (auto simp: lock_position_def rbind_Ok_iff Let_def vesting_parameters_validate_def
        require_Ok_iff vesting_initialize_def word_less_unat)
  then show "wf_schedule v" unfolding wf_schedule_def using e(2,4) by simp
qed

lemma release_vesting_success:
  assumes "release_vesting_liquidity_to_position v p point = Ok (v', p')" and "wf_schedule v"
  shows "wf_schedule v'" and "vs_position v' = vs_position v" and "vesting_total v' = vesting_total v"
    and "vested p' + unat (vs_total_released_liquidity v') = vested p + unat (vs_total_released_liquidity v)"
proof -
  obtain d where d: "get_new_release_liquidity v point = Ok d"
    and r: "if 0 < d then \<exists>p1. release_vested_liquidity p d = Ok p' \<and> accumulate_released_liquidity v d = Ok v'
      else v' = v \<and> p' = p"
    using assms(1) by (auto simp: release_vesting_liquidity_to_position_def rbind_Ok_iff split: if_splits)
  obtain u where u: "get_max_unlocked_liquidity v point = Ok u" "unat u = vesting_schedule v (unat point)"
    using get_max_unlocked_liquidity_schedule assms(2) unfolding wf_schedule_def by blast
  have "unat d + unat (vs_total_released_liquidity v) = unat u"
    using d u(1) by (auto simp: get_new_release_liquidity_def safe_ops_iff)
  then have le: "unat d + unat (vs_total_released_liquidity v) \<le> vesting_total v"
    using vesting_schedule_le [of v "unat point"] u(2) by simp
  have "wf_schedule v' \<and> vs_position v' = vs_position v \<and> vesting_total v' = vesting_total v \<and>
    vested p' + unat (vs_total_released_liquidity v') = vested p + unat (vs_total_released_liquidity v)"
  proof (cases "0 < d")
    case True
    then obtain x where v': "v' = v\<lparr>vs_total_released_liquidity := x\<rparr>"
      and x: "unat x = unat (vs_total_released_liquidity v) + unat d" and "vested p' + unat d = vested p"
      using r by (auto simp: accumulate_released_liquidity_def release_vested_liquidity_def add_liquidity_def
          rbind_Ok_iff safe_ops_iff vested_def)
    then show ?thesis using assms(2) le by (auto simp: wf_schedule_def vesting_total_def v')
  qed (use r assms(2) in simp)
  then show "wf_schedule v'" "vs_position v' = vs_position v" "vesting_total v' = vesting_total v"
    "vested p' + unat (vs_total_released_liquidity v') = vested p + unat (vs_total_released_liquidity v)"
    by simp_all
qed

text \<open>One account of the loop, and the loop. The vestings of other positions are not touched.\<close>

lemma counted_release:
  assumes c: "vestings_counted (held(key := n)) acc" and k: "acc k = Some v" "vs_position v = key"
    and w: "wf_schedule v1" "vs_position v1 = key" "vesting_total v1 = vesting_total v"
    and n: "n1 + unat (vs_total_released_liquidity v1) = n + unat (vs_total_released_liquidity v)"
    and fin: "fin \<longleftrightarrow> unat (vs_total_released_liquidity v1) = vesting_total v1"
  shows "vestings_counted (held(key := n1)) (acc(k := (if fin then None else Some v1)))"
proof -
  let ?acc = "acc(k := (if fin then None else Some v1))"
  have f: "finite (dom acc)" and wv: "wf_schedule v"
    and t: "\<And>j. total_over (vesting_remaining j) acc = (held(key := n)) j"
    using c k(1) by (auto simp: vestings_counted_def)
  have "total_over (vesting_remaining j) ?acc = (held(key := n1)) j" for j
  proof -
    have r: "vesting_remaining j v = (if j = key then vesting_total v - unat (vs_total_released_liquidity v) else 0)"
      "vesting_remaining j v1 = (if j = key then vesting_total v - unat (vs_total_released_liquidity v1) else 0)"
      using k(2) w(2,3) by (simp_all add: vesting_remaining_def)
    have e: "total_over (vesting_remaining j) ?acc + vesting_remaining j v =
      (held(key := n)) j + (if fin then 0 else vesting_remaining j v1)"
      using total_over_remove [OF f k(1), of "vesting_remaining j"]
        total_over_update [OF f k(1), of "vesting_remaining j" v1] t [of j] by (cases fin) simp_all
    show ?thesis using e n wv w(1) w(3) fin r by (cases "j = key") (auto simp: wf_schedule_def)
  qed
  moreover have "\<forall>j w. ?acc j = Some w \<longrightarrow> wf_schedule w"
    using c w(1) by (auto simp: vestings_counted_def)
  moreover have "finite (dom ?acc)" using f by simp
  ultimately show ?thesis by (simp add: vestings_counted_def)
qed

lemma refresh_vestings_counted:
  assumes "refresh_vestings key point ks acc p = Ok (acc', p')"
    and "vestings_counted (held(key := vested p)) acc"
  shows "vestings_counted (held(key := vested p')) acc'"
  using assms
proof (induction ks arbitrary: acc p)
  case (Cons k ks)
  obtain v v1 p1 fin where v: "acc k = Some v" "vs_position v = key"
    and rl: "release_vesting_liquidity_to_position v p point = Ok (v1, p1)" and d: "vesting_done v1 = Ok fin"
    and r: "refresh_vestings key point ks (acc(k := (if fin then None else Some v1))) p1 = Ok (acc', p')"
    using Cons.prems(1) by (auto simp: rbind_Ok_iff require_Ok_iff load_and_validate_def split: option.splits)
  have "wf_schedule v" using Cons.prems(2) v(1) by (auto simp: vestings_counted_def)
  note s = release_vesting_success [OF rl this]
  have fin: "fin \<longleftrightarrow> unat (vs_total_released_liquidity v1) = vesting_total v1"
    using d vesting_done_iff [of v1] s(1) by (simp add: wf_schedule_def)
  have "vs_position v1 = key" using s(2) v(2) by simp
  from counted_release [OF Cons.prems(2) v s(1) this s(3,4) fin] show ?case by (rule Cons.IH [OF r])
qed simp

section \<open>Every step\<close>

definition market_vestings :: "market \<Rightarrow> bool" where
  "market_vestings m \<longleftrightarrow> vestings_counted (vested_at (mk_positions m)) (mk_vestings m)"

lemma vested_at_update: "vested_at (ps(k := Some p)) = (vested_at ps)(k := vested p)"
  by (auto simp: fun_eq_iff vested_at_def)

lemma vested_at_same: "ps k = Some p \<Longrightarrow> vested p' = vested p \<Longrightarrow> vested_at (ps(k := Some p')) = vested_at ps"
  by (auto simp: fun_eq_iff vested_at_def)

lemma vested_at_new: "ps k = None \<Longrightarrow> vested p = 0 \<Longrightarrow> vested_at (ps(k := Some p)) = vested_at ps"
  by (auto simp: fun_eq_iff vested_at_def)

lemma vested_at_closed: "ps k = Some p \<Longrightarrow> vested p = 0 \<Longrightarrow> vested_at (ps(k := None)) = vested_at ps"
  by (auto simp: fun_eq_iff vested_at_def)

lemmas vested_at_kept = vested_at_same vested_at_new vested_at_closed

lemma counted_new:
  assumes c: "vestings_counted held vs" and "vs j = None" and v: "vs_position v = key" "wf_schedule v"
    and r: "vesting_remaining key v = vesting_total v"
  shows "vestings_counted (held(key := held key + vesting_total v)) (vs(j := Some v))"
proof -
  have "total_over (vesting_remaining k) (vs(j := Some v)) =
      (held(key := held key + vesting_total v)) k" for k
    using total_over_insert [of vs j "vesting_remaining k" v] assms
    by (simp add: vestings_counted_def vesting_remaining_def split: if_splits)
  then show ?thesis using c v(2) by (simp add: vestings_counted_def del: fun_upd_apply) (simp add: fun_upd_apply)
qed

lemma market_step_vestings:
  assumes "market_step m m'" and "market_vestings m"
  shows "market_vestings m'"
  using assms
proof (induction rule: market_step.induct)
  case (lock_position m k p kv clk acc vp p' vst)
  note l = lock_position_schedule [OF lock_position(3)]
  have "vested_at ((mk_positions m)(k := Some p')) =
      (vested_at (mk_positions m))(k := vested_at (mk_positions m) k + vesting_total vst)"
    using lock_position(1) by (simp add: vested_at_update l(4)) (simp add: vested_at_def)
  then show ?case
    using counted_new [OF lock_position(4) [unfolded market_vestings_def] lock_position(2) l(1-3)]
    by (simp add: market_vestings_def)
next
  case (refresh_vesting m k p clk acc ks vs p')
  obtain point where r: "refresh_vestings k point ks (mk_vestings m) p = Ok (vs, p')"
    using refresh_vesting(2) by (auto simp: handle_refresh_vesting_def refresh_vesting_def rbind_Ok_iff)
  have "(vested_at (mk_positions m))(k := vested p) = vested_at (mk_positions m)"
    using refresh_vesting(1) by (simp add: fun_eq_iff vested_at_def)
  then show ?case
    using refresh_vestings_counted [OF r, of "vested_at (mk_positions m)"] refresh_vesting(3)
    by (simp add: market_vestings_def vested_at_update)
next
  case (split_position m k1 p1 k2 p2 clk sp q p1' p2' info)
  then show ?case using split_vested [OF split_position(4)]
    by (simp add: market_vestings_def vested_at_same)
qed (simp_all add: market_vestings_def add_vested remove_vested claim_position_fee_vested
    permanent_lock_vested claim_reward_vested create_position_vested close_position_vested
    vested_at_kept del: fun_upd_apply)

lemma one_position_vestings:
  assumes "position_initialize q0 key mint l = (q, p)"
  shows "vestings_counted (vested_at (Map.empty(k := Some p))) Map.empty"
  using assms
  by (auto simp: position_initialize_def position_default_def vestings_counted_def total_over_def vested_at_def
      vested_def)

lemma market_init_vestings:
  assumes "market_init m" shows "market_vestings m"
  using assms by (rule market_init_new)
    (simp add: market_vestings_def one_position_vestings del: fun_upd_apply)

interpretation vesting_run: invariant market_init market_step market_vestings
  by unfold_locales (auto intro: market_init_vestings market_step_vestings)

lemma reachable_vestings: "reachable m \<Longrightarrow> market_vestings m"
  unfolding reachable_def by (rule vesting_run.always)

text \<open>
  When the schedules of all vestings of a position are over, its owner gets all vested liquidity with
  one refresh, which closes the vestings.
\<close>

lemma reachable_vesting_inv:
  assumes m: "reachable m" and k: "mk_positions m k = Some p"
    and over: "\<And>j v. mk_vestings m j = Some v \<Longrightarrow> vs_position v = k \<Longrightarrow>
      unat (vs_cliff_point v) + unat (vs_number_of_period v) * unat (vs_period_frequency v) \<le> point"
  shows "vesting_inv k point (mk_vestings m) p"
    and "mk_vestings m j = Some v \<Longrightarrow> vs_position v = k \<Longrightarrow> vesting_over point v"
proof -
  have c: "finite (dom (mk_vestings m))" "\<And>j v. mk_vestings m j = Some v \<Longrightarrow> wf_schedule v"
    "total_over (vesting_remaining k) (mk_vestings m) = vested p"
    using reachable_vestings [OF m] k by (auto simp: market_vestings_def vestings_counted_def vested_at_def)
  show o: "vesting_over point v" if "mk_vestings m j = Some v" "vs_position v = k" for j v
    using over [OF that] c(2) [OF that(1)] by (simp add: vesting_over_def wf_schedule_def)
  have "wf_vesting point v" if "mk_vestings m j = Some v" "vs_position v = k" for j v
    using c(2) [OF that(1)] vesting_over_schedule [OF o [OF that]] by (simp add: wf_vesting_def wf_schedule_def)
  moreover have "liq p < 2 ^ 128"
    using reachable_books [OF m] total_over_member [where m = "mk_positions m" and k = k and v = p and f = liq] k unat_bounds(5) [of "pl_liquidity (mk_pool m)"]
    by (simp add: market_books_def books_def)
  ultimately show "vesting_inv k point (mk_vestings m) p"
    using c by (auto simp: vesting_inv_def vested_def)
qed

lemma refresh_recovers:
  assumes m: "reachable m" and k: "mk_positions m k = Some p"
    and "position_constraints acc p = Ok ()"
    and pt: "get_current_point_and_buffer_duration clk (pl_activation_type (mk_pool m)) = Ok (point, d)"
    and ks: "distinct ks" "set ks = {j. \<exists>v. mk_vestings m j = Some v \<and> vs_position v = k}"
    and over: "\<And>j v. mk_vestings m j = Some v \<Longrightarrow> vs_position v = k \<Longrightarrow>
      unat (vs_cliff_point v) + unat (vs_number_of_period v) * unat (vs_period_frequency v) \<le> unat point"
  shows "\<exists>vs p'. handle_refresh_vesting clk acc (mk_pool m) k ks (mk_vestings m) p = Ok (vs, p') \<and>
    ps_vested_liquidity p' = 0 \<and>
    unat (ps_unlocked_liquidity p') = unat (ps_unlocked_liquidity p) + unat (ps_vested_liquidity p) \<and>
    (\<forall>j\<in>set ks. vs j = None)"
proof -
  have inv: "vesting_inv k (unat point) (mk_vestings m) p"
    by (rule reachable_vesting_inv(1) [OF m k over])
  have ov: "vesting_over (unat point) v" if "mk_vestings m j = Some v" "vs_position v = k" for j v
    by (rule reachable_vesting_inv(2) [OF m k over that])
  obtain vs p' where r: "refresh_vestings k point ks (mk_vestings m) p = Ok (vs, p')"
    using refresh_vestings_total [OF inv ks(1)] ks(2) by blast
  have z: "ps_vested_liquidity p' = 0 \<and> liq p' = liq p"
    by (rule refresh_after_end [OF inv r]) (use ks(2) ov in blast)
  have "locked p' = locked p" by (rule refresh_vestings_lock [OF r])
  moreover have "vs j = None" if "j \<in> set ks" for j
    by (rule refresh_closes [OF inv r ov that])
  ultimately show ?thesis using z r assms(3) pt
    by (intro exI [of _ vs] exI [of _ p'])
      (auto simp: handle_refresh_vesting_def refresh_vesting_def liq_def locked_def)
qed

end
