(* ===== verification/Reward_Solvency.thy ===== *)
theory Reward_Solvency
  imports Market
begin

text \<open>
  The vaults of the rewards. What a reward owes is what its rate has still to pay out, what it set
  aside while there was no liquidity, and what the positions have earned and not claimed. No
  instruction lets this exceed the balance of the vault of the reward.

  All amounts are natural numbers, in units of \<open>2 ^ -192\<close> tokens: a rate has 64 fractional bits, and
  the reward of a unit of liquidity 128 more.
\<close>

declare of_nat_unat [simp del]

definition reward_at :: "pool \<Rightarrow> nat \<Rightarrow> reward_info" where
  "reward_at q i = (if i = 0 then slot0 (pl_reward_infos q) else slot1 (pl_reward_infos q))"

definition user_reward_at :: "position \<Rightarrow> nat \<Rightarrow> user_reward_info" where
  "user_reward_at p i = (if i = 0 then slot0 (ps_reward_infos p) else slot1 (ps_reward_infos p))"

definition reward_unspent :: "reward_info \<Rightarrow> nat" where
  "reward_unspent r = unat (rw_reward_rate r) *
     (unat (rw_reward_duration_end r) - unat (rw_last_update_time r) +
      unat (rw_cumulative_seconds_with_empty_liquidity_reward r))"

definition reward_owed :: "nat \<Rightarrow> pool \<Rightarrow> position \<Rightarrow> nat" where
  "reward_owed i q p =
     unat (ur_reward_pendings (user_reward_at p i)) * 2 ^ 192 +
     liq p * (unat (rw_reward_per_token_stored (reward_at q i)) -
       unat (ur_reward_per_token_checkpoint (user_reward_at p i)))"

definition reward_liability :: "nat \<Rightarrow> pool \<Rightarrow> (pubkey \<Rightarrow> position option) \<Rightarrow> nat" where
  "reward_liability i q ps =
     reward_unspent (reward_at q i) * 2 ^ 128 + total_over (reward_owed i q) ps"

text \<open>Before a reward is initialized it has no vault, and nothing to pay.\<close>

definition reward_funds :: "nat \<Rightarrow> pool \<Rightarrow> reward_vault \<Rightarrow> nat" where
  "reward_funds i q rv =
     (if reward_initialized (reward_at q i) then unat (rv_amount rv) * 2 ^ 192 else 0)"

definition dormant :: "pool \<Rightarrow> bool" where
  "dormant q \<longleftrightarrow>
     (\<forall>i. \<not> reward_initialized (reward_at q i) \<longrightarrow> rw_reward_per_token_stored (reward_at q i) = 0)"

definition rewards_covered ::
  "pool \<Rightarrow> (nat \<Rightarrow> reward_vault) \<Rightarrow> (pubkey \<Rightarrow> position option) \<Rightarrow> bool" where
  "rewards_covered q rvs ps \<longleftrightarrow>
     finite (dom ps) \<and> dormant q \<and> (\<forall>i<2. reward_liability i q ps \<le> reward_funds i q (rvs i))"

section \<open>A reward and its liquidity\<close>

lemma reward_update_unspent:
  assumes "reward_update_rewards r l t = Ok r'"
  shows "reward_initialized r' = reward_initialized r"
    and "\<not> reward_initialized r \<Longrightarrow> r' = r"
    and "unat (rw_reward_per_token_stored r) \<le> unat (rw_reward_per_token_stored r')"
    and "reward_unspent r' * 2 ^ 128 +
      (unat (rw_reward_per_token_stored r') - unat (rw_reward_per_token_stored r)) * unat l \<le>
      reward_unspent r * 2 ^ 128"
proof -
  show u: "\<not> reward_initialized r \<Longrightarrow> r' = r" using assms by (simp add: reward_update_rewards_def)
  show "reward_initialized r' = reward_initialized r"
    using u reward_update_effect(7) [OF assms] by (cases "reward_initialized r") (auto simp: reward_initialized_def)
  let ?R = "unat (rw_reward_rate r)" and ?E = "unat (rw_reward_duration_end r)"
    and ?L = "unat (rw_last_update_time r)"
    and ?C = "unat (rw_cumulative_seconds_with_empty_liquidity_reward r)"
  let ?s = "min (unat t) ?E - ?L" and ?d = "unat (rw_reward_per_token_stored r') - unat (rw_reward_per_token_stored r)"
  have "unat (rw_reward_per_token_stored r) \<le> unat (rw_reward_per_token_stored r') \<and>
    reward_unspent r' * 2 ^ 128 + ?d * unat l \<le> reward_unspent r * 2 ^ 128"
  proof (cases "reward_initialized r")
    case True
    note e = reward_update_effect [OF assms True]
    have E: "?E - ?L + ?C = ?E - min (unat t) ?E + (?C + ?s)" using e(1) by linarith
    show ?thesis
    proof (cases "unat l = 0")
      case True
      have "reward_unspent r' = reward_unspent r"
        unfolding reward_unspent_def e(2,6,8) conjunct2 [OF e(4) [OF True]] E ..
      with True show ?thesis using e(4) by simp
    next
      case False
      then have pos: "0 < unat l" by simp
      have "?d * unat l \<le> ?s * ?R * 2 ^ 128"
        using False reward_update_paid [OF assms \<open>reward_initialized r\<close>] by simp
      moreover have "reward_unspent r = reward_unspent r' + ?s * ?R"
        unfolding reward_unspent_def e(2,6,8) E e(5) [OF pos] by (simp only: distrib_left ac_simps)
      ultimately show ?thesis using e(3) False by (simp add: algebra_simps)
    qed
  qed (simp add: u)
  then show "unat (rw_reward_per_token_stored r) \<le> unat (rw_reward_per_token_stored r')"
    and "reward_unspent r' * 2 ^ 128 + ?d * unat l \<le> reward_unspent r * 2 ^ 128" by simp_all
qed

text \<open>
  The update of a pool moves what the rate pays to the positions: together they get no more than the
  reward spends.
\<close>

lemma pool_update_rewards_at:
  assumes "pool_update_rewards q t = Ok q'"
  shows "reward_update_rewards (reward_at q i) (pl_liquidity q) t = Ok (reward_at q' i)"
  using assms by (auto simp: pool_update_rewards_def rbind_Ok_iff reward_at_def)

lemma pool_update_rewards_initialized:
  "pool_update_rewards q t = Ok q' \<Longrightarrow>
    reward_initialized (reward_at q' i) = reward_initialized (reward_at q i)"
  using reward_update_unspent(1) [OF pool_update_rewards_at] .

lemma pool_update_rewards_dormant:
  assumes "pool_update_rewards q t = Ok q'" and "dormant q" shows "dormant q'"
  using assms(2) reward_update_unspent(1,2) [OF pool_update_rewards_at [OF assms(1)]]
  unfolding dormant_def by metis

lemma pool_update_rewards_liability:
  assumes u: "pool_update_rewards q t = Ok q'" and L: "unat (pl_liquidity q) = total_over liq ps"
  shows "reward_liability i q' ps \<le> reward_liability i q ps"
proof -
  note e = reward_update_unspent(3,4) [OF pool_update_rewards_at [OF u, of i]]
  let ?d = "unat (rw_reward_per_token_stored (reward_at q' i)) - unat (rw_reward_per_token_stored (reward_at q i))"
  have "total_over (reward_owed i q') ps \<le> total_over (\<lambda>p. reward_owed i q p + liq p * ?d) ps"
  proof (rule total_over_mono)
    fix k p
    have "unat (rw_reward_per_token_stored (reward_at q' i)) - c \<le>
      unat (rw_reward_per_token_stored (reward_at q i)) - c + ?d" for c using e(1) by linarith
    from mult_left_mono [OF this, of "liq p"]
    show "reward_owed i q' p \<le> reward_owed i q p + liq p * ?d"
      by (simp add: reward_owed_def distrib_left)
  qed
  also have "\<dots> = total_over (reward_owed i q) ps + ?d * unat (pl_liquidity q)"
    by (simp add: total_over_add total_over_mult L)
  finally show ?thesis using e(2) by (simp add: reward_liability_def)
qed

section \<open>A position and its rewards\<close>

definition settled :: "pool \<Rightarrow> position \<Rightarrow> bool" where
  "settled q p \<longleftrightarrow> (\<forall>i. unat (rw_reward_per_token_stored (reward_at q i)) \<le>
     unat (ur_reward_per_token_checkpoint (user_reward_at p i)))"

lemma settled_owed:
  "settled q p \<Longrightarrow> reward_owed i q p = unat (ur_reward_pendings (user_reward_at p i)) * 2 ^ 192"
  by (simp add: settled_def reward_owed_def)

lemma update_one_position_reward_effect:
  assumes "update_one_position_reward l r u = Ok u'"
    and "\<not> reward_initialized r \<Longrightarrow> rw_reward_per_token_stored r = 0"
  shows "unat (rw_reward_per_token_stored r) \<le> unat (ur_reward_per_token_checkpoint u')"
    and "unat (ur_reward_pendings u') * 2 ^ 192 \<le> unat (ur_reward_pendings u) * 2 ^ 192 +
      unat l * (unat (rw_reward_per_token_stored r) - unat (ur_reward_per_token_checkpoint u))"
proof -
  let ?S = "unat (rw_reward_per_token_stored r)" and ?c = "unat (ur_reward_per_token_checkpoint u)"
  have "?S \<le> unat (ur_reward_per_token_checkpoint u') \<and>
    unat (ur_reward_pendings u') * 2 ^ 192 \<le> unat (ur_reward_pendings u) * 2 ^ 192 + unat l * (?S - ?c)"
  proof (cases "reward_initialized r")
    case True
    then obtain d :: u256 and n :: u64 where d: "?S = unat d + ?c" and n: "unat n = unat l * unat d div 2 ^ 192"
      and u': "unat (ur_reward_pendings u') = unat n + unat (ur_reward_pendings u)"
        "ur_reward_per_token_checkpoint u' = rw_reward_per_token_stored r"
      using assms(1)
      by (auto simp: update_one_position_reward_def user_update_rewards_def ok_iffs
          TOTAL_REWARD_SCALE_def)
    have "unat l * unat d div 2 ^ 192 * 2 ^ 192 \<le> unat l * unat d" by (rule div_mult_le_self)
    then show ?thesis using d by (simp add: u' n distrib_right)
  qed (use assms in \<open>simp add: update_one_position_reward_def\<close>)
  then show "?S \<le> unat (ur_reward_per_token_checkpoint u')"
    and "unat (ur_reward_pendings u') * 2 ^ 192 \<le> unat (ur_reward_pendings u) * 2 ^ 192 + unat l * (?S - ?c)"
    by simp_all
qed

lemma update_position_reward_owed:
  assumes "update_position_reward p q = Ok p'" and "dormant q"
  shows "settled q p'" and "reward_owed i q p' \<le> reward_owed i q p" and "liq p' = liq p"
proof -
  obtain l where l: "unat l = liq p"
    and u: "update_one_position_reward l (reward_at q j) (user_reward_at p j) = Ok (user_reward_at p' j)"
    for j
    using assms(1)
    by (auto simp: update_position_reward_def rbind_Ok_iff get_total_liquidity_iff reward_at_def
        user_reward_at_def)
  note e = update_one_position_reward_effect [OF u assms(2) [unfolded dormant_def, rule_format]]
  show s: "settled q p'" using e(1) by (simp add: settled_def)
  show "reward_owed i q p' \<le> reward_owed i q p"
    unfolding settled_owed [OF s] using e(2) [of i] by (simp add: reward_owed_def l)
  show "liq p' = liq p" using assms(1) by (auto simp: update_position_reward_def rbind_Ok_iff liq_def)
qed

section \<open>Instructions that do not touch the vault of a reward\<close>

text \<open>What an instruction may do to the rewards without a transfer: nothing more is owed.\<close>

definition rewards_kept ::
  "pool \<Rightarrow> (pubkey \<Rightarrow> position option) \<Rightarrow> pool \<Rightarrow> (pubkey \<Rightarrow> position option) \<Rightarrow> bool" where
  "rewards_kept q ps q' ps' \<longleftrightarrow> finite (dom ps') \<and> dormant q' \<and>
     (\<forall>i. reward_initialized (reward_at q' i) = reward_initialized (reward_at q i) \<and>
          reward_liability i q' ps' \<le> reward_liability i q ps)"

lemma kept_covered:
  assumes "rewards_covered q rvs ps" and k: "rewards_kept q ps q' ps'"
  shows "rewards_covered q' rvs ps'"
proof -
  have "reward_funds i q' rv = reward_funds i q rv" for i rv
    using k by (simp add: rewards_kept_def reward_funds_def)
  then show ?thesis using assms unfolding rewards_covered_def rewards_kept_def by (metis order_trans)
qed

lemma kept_trans:
  "rewards_kept q ps q1 ps1 \<Longrightarrow> rewards_kept q1 ps1 q2 ps2 \<Longrightarrow> rewards_kept q ps q2 ps2"
  unfolding rewards_kept_def by (meson order_trans)

lemma same_infos:
  assumes "pl_reward_infos q' = pl_reward_infos q"
  shows "reward_at q' = reward_at q" and "reward_owed i q' = reward_owed i q"
    and "reward_liability i q' = reward_liability i q" and "dormant q' = dormant q"
    and "settled q' = settled q"
proof -
  show r: "reward_at q' = reward_at q" using assms by (simp add: fun_eq_iff reward_at_def)
  then show o: "reward_owed j q' = reward_owed j q" for j by (simp add: fun_eq_iff reward_owed_def)
  show "reward_liability i q' = reward_liability i q" by (simp add: fun_eq_iff reward_liability_def r o)
  show "dormant q' = dormant q" by (simp add: dormant_def r)
  show "settled q' = settled q" by (simp add: fun_eq_iff settled_def r)
qed

lemma kept_pool:
  assumes "finite (dom ps)" "dormant q" and "pl_reward_infos q' = pl_reward_infos q"
  shows "rewards_kept q ps q' ps"
  using assms same_infos [OF assms(3)] by (simp add: rewards_kept_def)

lemma kept_position:
  assumes "finite (dom ps)" "dormant q" and "ps k = Some p"
    and i: "pl_reward_infos q' = pl_reward_infos q"
    and o: "\<And>i. reward_owed i q p' \<le> reward_owed i q p"
  shows "rewards_kept q ps q' (ps(k := Some p'))"
proof -
  have "total_over (reward_owed i q) (ps(k := Some p')) \<le> total_over (reward_owed i q) ps" for i
    using total_over_update [OF assms(1,3), of "reward_owed i q" p'] o [of i] by linarith
  then show ?thesis using assms(1,2) same_infos [OF i] by (simp add: rewards_kept_def reward_liability_def)
qed

lemma kept_update:
  assumes "finite (dom ps)" "dormant q" and u: "pool_update_rewards q t = Ok q'"
    and "unat (pl_liquidity q) = total_over liq ps"
  shows "rewards_kept q ps q' ps"
  using assms pool_update_rewards_liability [OF u] pool_update_rewards_dormant [OF u]
    pool_update_rewards_initialized [OF u] by (simp add: rewards_kept_def)

lemma kept_position_update:
  assumes "finite (dom ps)" "dormant q" and k: "ps k = Some p"
    and "unat (pl_liquidity q) = total_over liq ps" and r: "position_update_rewards p q t = Ok (q', p')"
  shows "rewards_kept q ps q' (ps(k := Some p'))" and "settled q' p'"
proof -
  have "rewards_kept q ps q' (ps(k := Some p')) \<and> settled q' p'"
  proof (cases "pool_reward_initialized q")
    case True
    then obtain u: "pool_update_rewards q t = Ok q'" and v: "update_position_reward p q' = Ok p'"
      using r by (auto simp: position_update_rewards_def rbind_Ok_iff)
    have d: "dormant q'" using pool_update_rewards_dormant [OF u] assms(2) .
    note e = update_position_reward_owed [OF v d]
    show ?thesis
      using kept_trans [OF kept_update [OF assms(1,2) u assms(4)]
          kept_position [OF assms(1) d k refl e(2)]] e(1) by blast
  next
    case False
    then have "q' = q" "p' = p" using r by (simp_all add: position_update_rewards_def)
    moreover have "\<not> reward_initialized (reward_at q i)" for i
      using False by (simp add: pool_reward_initialized_def reward_at_def)
    then have "settled q p" using assms(2) by (simp add: settled_def dormant_def)
    ultimately show ?thesis using kept_position [OF assms(1,2) k refl, of p] by simp
  qed
  then show "rewards_kept q ps q' (ps(k := Some p'))" and "settled q' p'" by simp_all
qed

text \<open>Once a position is settled, a change of its liquidity earns nothing after the fact.\<close>

lemma settled_change:
  assumes s: "settled q p1" and "ps_reward_infos p' = ps_reward_infos p1"
  shows "reward_owed i q p' \<le> reward_owed i q p1"
proof -
  have "user_reward_at p' = user_reward_at p1" using assms(2) by (simp add: fun_eq_iff user_reward_at_def)
  then have "settled q p'" using s by (simp add: settled_def)
  then show ?thesis using assms(2) by (simp add: settled_owed s user_reward_at_def)
qed

lemma same_claims:
  assumes "liq p' = liq p" and "ps_reward_infos p' = ps_reward_infos p"
  shows "reward_owed i q p' \<le> reward_owed i q p"
  using assms by (simp add: reward_owed_def user_reward_at_def)

text \<open>The rewards are settled before the liquidity of a position changes.\<close>

lemma kept_settled_change:
  assumes "finite (dom ps)" "dormant q" and k: "ps k = Some p"
    and L: "unat (pl_liquidity q) = total_over liq ps"
    and r: "position_update_rewards p q t = Ok (q1, p1)"
    and q': "pl_reward_infos q' = pl_reward_infos q1" and p': "ps_reward_infos p' = ps_reward_infos p1"
  shows "rewards_kept q ps q' (ps(k := Some p'))"
proof -
  note u = kept_position_update [OF assms(1,2) k L r]
  have "finite (dom (ps(k := Some p1)))" "dormant q1" using u(1) by (simp_all add: rewards_kept_def)
  then have "rewards_kept q1 (ps(k := Some p1)) q' (ps(k := Some p1, k := Some p'))"
    by (rule kept_position) (use settled_change [OF u(2) p'] q' in simp_all)
  with u(1) show ?thesis by (auto intro: kept_trans)
qed

lemma update_pre_swap_infos: "update_pre_swap q t = Ok q' \<Longrightarrow> pl_reward_infos q' = pl_reward_infos q"
  by (auto simp: update_pre_swap_def rbind_Ok_iff split: if_splits)

lemma apply_swap_result_infos:
  assumes "apply_swap_result q r fm t = Ok q'"
  shows "pl_reward_infos q' = pl_reward_infos q"
proof -
  have post: "update_post_swap s x t = Ok s' \<Longrightarrow> pl_reward_infos s' = pl_reward_infos s" for s x s'
    by (auto simp: update_post_swap_def rbind_Ok_iff Let_def split: if_splits)
  show ?thesis using assms unfolding apply_swap_result_def Let_def
    by (auto simp: rbind_Ok_iff dest!: post split: if_splits)
qed

lemma swap_infos:
  assumes "p_handle_swap ctx q v params = Ok (q', v', r)"
  shows "pl_reward_infos q' = pl_reward_infos q"
proof -
  obtain q1 fm where "update_pre_swap q (unix_timestamp (sc_clock ctx)) = Ok q1"
    and "apply_swap_result q1 (pr_swap_result r) fm (unix_timestamp (sc_clock ctx)) = Ok q'"
    by (rule p_handle_swap_Ok [OF assms]) blast
  then show ?thesis using update_pre_swap_infos apply_swap_result_infos by simp
qed

lemma update_fee_infos:
  assumes "update_fee p fa fb = Ok p'"
  shows "ps_reward_infos p' = ps_reward_infos p \<and> liq p' = liq p"
proof
  show "ps_reward_infos p' = ps_reward_infos p" by (subst update_fee_effect(1) [OF assms]) simp
  show "liq p' = liq p" by (subst update_fee_effect(1) [OF assms]) (simp add: liq_def)
qed

lemma add_kept:
  assumes "finite (dom ps)" "dormant q" "ps k = Some p" "unat (pl_liquidity q) = total_over liq ps"
    and "handle_add_liquidity ctx q v p params = Ok (q', v', p', ch)"
  shows "rewards_kept q ps q' (ps(k := Some p'))"
proof -
  obtain q1 p1 d where r: "position_update_rewards p q (unix_timestamp (lc_clock ctx)) = Ok (q1, p1)"
    and a: "apply_add_liquidity q1 p1 d = Ok (q', p')"
    using assms(5) by (auto simp: handle_add_liquidity_def rbind_Ok_iff require_Ok_iff)
  have "pl_reward_infos q' = pl_reward_infos q1" "ps_reward_infos p' = ps_reward_infos p1"
    using a by (auto simp: apply_add_liquidity_def add_liquidity_def rbind_Ok_iff dest: update_fee_infos)
  then show ?thesis by (rule kept_settled_change [OF assms(1-4) r])
qed

lemma remove_kept:
  assumes "finite (dom ps)" "dormant q" "ps k = Some p" "unat (pl_liquidity q) = total_over liq ps"
    and "handle_remove_liquidity ctx q v p dl ma mb = Ok (q', v', p', ch)"
  shows "rewards_kept q ps q' (ps(k := Some p'))"
proof -
  obtain q1 p1 d where r: "position_update_rewards p q (unix_timestamp (lc_clock ctx)) = Ok (q1, p1)"
    and a: "apply_remove_liquidity q1 p1 d = Ok (q', p')"
    using assms(5) by (auto simp: handle_remove_liquidity_def rbind_Ok_iff require_Ok_iff Let_def)
  have "pl_reward_infos q' = pl_reward_infos q1" "ps_reward_infos p' = ps_reward_infos p1"
    using a by (auto simp: apply_remove_liquidity_def remove_unlocked_liquidity_def rbind_Ok_iff
        dest: update_fee_infos)
  then show ?thesis by (rule kept_settled_change [OF assms(1-4) r])
qed

lemma claim_position_fee_infos:
  "handle_claim_position_fee ctx q v p = Ok (v', p', a, b) \<Longrightarrow>
    liq p' = liq p \<and> ps_reward_infos p' = ps_reward_infos p"
  by (auto simp: handle_claim_position_fee_def rbind_Ok_iff Let_def reset_pending_fee_def
      dest!: update_fee_infos) (simp_all add: liq_def)

lemma lock_position_infos:
  "handle_lock_position clk acc q key p params = Ok (p', vst) \<Longrightarrow>
    liq p' = liq p \<and> ps_reward_infos p' = ps_reward_infos p"
  by (auto simp: handle_lock_position_def lock_position_def rbind_Ok_iff require_Ok_iff Let_def
      lock_def remove_unlocked_liquidity_def liq_def safe_ops_iff)

lemma refresh_vestings_infos:
  "refresh_vestings key point ks acc p = Ok (acc', p') \<Longrightarrow> ps_reward_infos p' = ps_reward_infos p"
proof (induction ks arbitrary: acc p)
  case (Cons k ks)
  obtain v v1 p1 fin where "release_vesting_liquidity_to_position v p point = Ok (v1, p1)"
    and r: "refresh_vestings key point ks (acc(k := (if fin then None else Some v1))) p1 = Ok (acc', p')"
    using Cons.prems by (auto simp: rbind_Ok_iff)
  then have "ps_reward_infos p1 = ps_reward_infos p"
    by (auto simp: release_vesting_liquidity_to_position_def release_vested_liquidity_def
        add_liquidity_def rbind_Ok_iff split: if_splits)
  then show ?case using Cons.IH [OF r] by simp
qed simp

lemma refresh_vesting_infos:
  "handle_refresh_vesting clk acc q key ks accounts p = Ok (accounts', p') \<Longrightarrow>
    liq p' = liq p \<and> ps_reward_infos p' = ps_reward_infos p"
  by (auto simp: handle_refresh_vesting_def refresh_vesting_def rbind_Ok_iff same_fees_def
      dest: refresh_vestings_infos refresh_vestings_same_fees)

lemma permanent_lock_infos:
  "handle_permanent_lock_position clk acc q p x = Ok (q', p') \<Longrightarrow>
    pl_reward_infos q' = pl_reward_infos q \<and> liq p' = liq p \<and> ps_reward_infos p' = ps_reward_infos p"
  by (auto simp: handle_permanent_lock_position_def rbind_Ok_iff require_Ok_iff safe_ops_iff
      accumulate_permanent_locked_liquidity_def permanent_lock_liquidity_def
      remove_unlocked_liquidity_def liq_def)

lemma create_kept:
  assumes "finite (dom ps)" "dormant q" "ps k = None"
    and h: "handle_create_position clk nft q pool_key mint = Ok (q', p')"
  shows "rewards_kept q ps q' (ps(k := Some p'))"
proof -
  have "position_initialize q pool_key mint 0 = (q', p')"
    using h by (auto simp: handle_create_position_def rbind_Ok_iff require_Ok_iff Let_def
        split: prod.splits)
  then have i: "pl_reward_infos q' = pl_reward_infos q" and p': "liq p' = 0"
    "\<And>i. ur_reward_pendings (user_reward_at p' i) = 0"
    by (auto simp: position_initialize_def position_default_def liq_def user_reward_at_def
        user_reward_info_default_def)
  have "total_over (reward_owed i q) (ps(k := Some p')) = total_over (reward_owed i q) ps" for i
    using total_over_insert [OF assms(1,3), of "reward_owed i q" p'] by (simp add: reward_owed_def p')
  then show ?thesis using assms(1,2) same_infos [OF i] by (simp add: rewards_kept_def reward_liability_def)
qed

lemma close_kept:
  assumes "finite (dom ps)" "dormant q" "ps k = Some p"
    and h: "handle_close_position acc nft q p = Ok q'"
  shows "rewards_kept q ps q' (ps(k := None))"
proof -
  have i: "pl_reward_infos q' = pl_reward_infos q"
    using h by (auto simp: handle_close_position_def rbind_Ok_iff require_Ok_iff Let_def)
  have "total_over (reward_owed i q) (ps(k := None)) \<le> total_over (reward_owed i q) ps" for i
    using total_over_remove [OF assms(1,3), of "reward_owed i q"] by simp
  then show ?thesis using assms(1,2) same_infos [OF i] by (simp add: rewards_kept_def reward_liability_def)
qed

text \<open>A split moves rewards from the first position to the second, after both are settled.\<close>

lemma two_positions_kept:
  assumes fin: "finite (dom ps)" "dormant q" and k: "ps k1 = Some p1" "ps k2 = Some p2" "k1 \<noteq> k2"
    and o: "\<And>i. reward_owed i q p1' + reward_owed i q p2' \<le> reward_owed i q p1 + reward_owed i q p2"
  shows "rewards_kept q ps q (ps(k1 := Some p1', k2 := Some p2'))"
proof -
  have "total_over (reward_owed i q) (ps(k1 := Some p1', k2 := Some p2')) \<le>
    total_over (reward_owed i q) ps" for i
    using total_over_update [OF fin(1) k(1), of "reward_owed i q" p1'] o [of i] k(2,3) fin(1)
      total_over_update [of "ps(k1 := Some p1')" k2 p2 "reward_owed i q" p2'] by simp
  then show ?thesis using fin by (simp add: rewards_kept_def reward_liability_def)
qed

lemma settled_split:
  assumes s: "settled q s1" "settled q s2" and m: "moved r1 r2 p1' p2'"
    and r: "ps_reward_infos r1 = ps_reward_infos s1" "ps_reward_infos r2 = ps_reward_infos s2"
  shows "reward_owed i q p1' + reward_owed i q p2' = reward_owed i q s1 + reward_owed i q s2"
proof -
  have c: "ur_reward_per_token_checkpoint (user_reward_at p1' j) = ur_reward_per_token_checkpoint (user_reward_at s1 j)"
    "ur_reward_per_token_checkpoint (user_reward_at p2' j) = ur_reward_per_token_checkpoint (user_reward_at s2 j)"
    "unat (ur_reward_pendings (user_reward_at p1' j)) + unat (ur_reward_pendings (user_reward_at p2' j)) =
     unat (ur_reward_pendings (user_reward_at s1 j)) + unat (ur_reward_pendings (user_reward_at s2 j))" for j
    using m r by (simp_all add: moved_def combined_def same_checkpoints_def user_reward_at_def)
  have "settled q p1'" "settled q p2'" using s by (simp_all add: settled_def c)
  note o = this [THEN settled_owed] s [THEN settled_owed]
  show ?thesis unfolding o distrib_right [symmetric] c(3) ..
qed

lemma split_kept:
  assumes fin: "finite (dom ps)" "dormant q" and k: "ps k1 = Some p1" "ps k2 = Some p2" "k1 \<noteq> k2"
    and L: "unat (pl_liquidity q) = total_over liq ps"
    and h: "handle_split_position2 clk q p1 p2 sp = Ok (q', p1', p2', info)"
  shows "rewards_kept q ps q' (ps(k1 := Some p1', k2 := Some p2'))"
proof -
  obtain s1 s2 nu np na nb n0 n1 where
    u: "pool_update_rewards q (unix_timestamp clk) = Ok q'" and
    s: "update_position_reward p1 q' = Ok s1" "update_position_reward p2 q' = Ok s2" and
    a: "apply_split_position q' s1 s2 nu np na nb n0 n1 = Ok (p1', p2', info)"
    using h by (auto simp: handle_split_position2_def rbind_Ok_iff require_Ok_iff)
  obtain r1 r2 where r: "update_fee s1 (pl_fee_a_per_liquidity q') (pl_fee_b_per_liquidity q') = Ok r1"
    "update_fee s2 (pl_fee_a_per_liquidity q') (pl_fee_b_per_liquidity q') = Ok r2"
    and m: "moved r1 r2 p1' p2'" by (rule apply_split_position_effect [OF a])
  have d: "dormant q'" by (rule pool_update_rewards_dormant [OF u fin(2)])
  note e1 = update_position_reward_owed [OF s(1) d] and e2 = update_position_reward_owed [OF s(2) d]
  have "reward_owed i q' p1' + reward_owed i q' p2' \<le> reward_owed i q' p1 + reward_owed i q' p2" for i
    using settled_split [OF e1(1) e2(1) m, of i] update_fee_infos [OF r(1)] update_fee_infos [OF r(2)]
      add_mono [OF e1(2) [of i] e2(2) [of i]] by simp
  then show ?thesis
    using kept_trans [OF kept_update [OF fin u L] two_positions_kept [OF fin(1) d k]] by blast
qed

lemma claim_fees_infos:
  "claim_protocol_fee q ma mb = Ok (q', x, y) \<Longrightarrow> pl_reward_infos q' = pl_reward_infos q"
  "claim_partner_fee q ma mb = Ok (q', x, y) \<Longrightarrow> pl_reward_infos q' = pl_reward_infos q"
  by (auto simp: claim_protocol_fee_def claim_partner_fee_def rbind_Ok_iff Let_def)

lemma zap_claim_infos: "zap_claim ids q is_a m = Ok (q', x, y) \<Longrightarrow> pl_reward_infos q' = pl_reward_infos q"
  by (drule zap_claim_Ok(3), erule ssubst, simp)

lemma operator_handlers_infos:
  "ix_claim_protocol_fee oper signer cc q v ma mb = Ok (q', v', x, y) \<Longrightarrow> pl_reward_infos q' = pl_reward_infos q"
  "handle_claim_partner_fee ta tb partner q v ma mb = Ok (q', v', x, y) \<Longrightarrow> pl_reward_infos q' = pl_reward_infos q"
  "ix_set_pool_status oper signer q st = Ok q' \<Longrightarrow> pl_reward_infos q' = pl_reward_infos q"
  "ix_update_pool_fees oper signer clk q params = Ok q' \<Longrightarrow> pl_reward_infos q' = pl_reward_infos q"
  "zap_protocol_fee oper signer zc q v xm = Ok (q', v', z) \<Longrightarrow> pl_reward_infos q' = pl_reward_infos q"
proof -
  show "ix_claim_protocol_fee oper signer cc q v ma mb = Ok (q', v', x, y) \<Longrightarrow>
    pl_reward_infos q' = pl_reward_infos q"
    by (auto simp: ix_claim_protocol_fee_def handle_claim_protocol_fee_def rbind_Ok_iff
        dest: claim_fees_infos)
  show "handle_claim_partner_fee ta tb partner q v ma mb = Ok (q', v', x, y) \<Longrightarrow>
    pl_reward_infos q' = pl_reward_infos q"
    by (auto simp: handle_claim_partner_fee_def rbind_Ok_iff dest: claim_fees_infos split: if_splits)
  show "ix_set_pool_status oper signer q st = Ok q' \<Longrightarrow> pl_reward_infos q' = pl_reward_infos q"
    by (auto simp: ix_set_pool_status_def rbind_Ok_iff dest!: handle_set_pool_status_Ok(1))
  show "ix_update_pool_fees oper signer clk q params = Ok q' \<Longrightarrow> pl_reward_infos q' = pl_reward_infos q"
    by (auto simp: ix_update_pool_fees_def rbind_Ok_iff elim: update_pool_fees_only_fees)
  show "zap_protocol_fee oper signer zc q v xm = Ok (q', v', z) \<Longrightarrow> pl_reward_infos q' = pl_reward_infos q"
    by (auto simp: zap_protocol_fee_def rbind_Ok_iff elim: handle_zap_protocol_fee_Ok
        dest: zap_claim_infos)
qed

section \<open>Instructions on the vault of a reward\<close>

lemma arr2_get_reward: "arr2_get (pl_reward_infos q) i = Ok x \<longleftrightarrow> i < 2 \<and> x = reward_at q i"
  by (auto simp: arr2_get_def reward_at_def)

lemma reward_at_set:
  "i < 2 \<Longrightarrow> reward_at (q\<lparr>pl_reward_infos := arr2_set (pl_reward_infos q) i x\<rparr>) j =
    (if (j = 0) = (i = 0) then x else reward_at q j)"
  by (auto simp: reward_at_def arr2_set_def)

text \<open>The step of one vault: what is owed grows at most by what the vault receives.\<close>

lemma covered_vault:
  assumes c: "rewards_covered q rvs ps" and i: "i < 2" "reward_initialized (reward_at q i)"
    and fin: "finite (dom ps')" "dormant q'"
    and init: "\<And>j. reward_initialized (reward_at q' j) = reward_initialized (reward_at q j)"
    and other: "\<And>j. j < 2 \<Longrightarrow> j \<noteq> i \<Longrightarrow> reward_liability j q' ps' \<le> reward_liability j q ps"
    and owes: "reward_liability i q' ps' + unat (rv_amount (rvs i)) * 2 ^ 192 \<le>
      reward_liability i q ps + unat (rv_amount rv) * 2 ^ 192"
  shows "rewards_covered q' (rvs(i := rv)) ps'"
proof -
  have "reward_liability j q' ps' \<le> reward_funds j q' ((rvs(i := rv)) j)" if j: "j < 2" for j
  proof (cases "j = i")
    case True
    have "reward_liability i q ps \<le> unat (rv_amount (rvs i)) * 2 ^ 192"
      using c i unfolding rewards_covered_def reward_funds_def by metis
    then show ?thesis using owes True i by (simp add: reward_funds_def init)
  next
    case False
    have "reward_liability j q ps \<le> reward_funds j q (rvs j)" using c j by (simp add: rewards_covered_def)
    then show ?thesis using other [OF j False] False by (simp add: reward_funds_def init)
  qed
  then show ?thesis using fin by (simp add: rewards_covered_def)
qed

text \<open>The change of one reward that leaves what it has paid out.\<close>

lemma reward_edit:
  assumes i: "i < 2" and q': "q' = q\<lparr>pl_reward_infos := arr2_set (pl_reward_infos q) i x\<rparr>"
    and x: "rw_reward_per_token_stored x = rw_reward_per_token_stored (reward_at q i)"
  shows "reward_liability i q' ps + reward_unspent (reward_at q i) * 2 ^ 128 =
      reward_liability i q ps + reward_unspent x * 2 ^ 128"
    and "j < 2 \<Longrightarrow> j \<noteq> i \<Longrightarrow> reward_liability j q' ps = reward_liability j q ps"
    and "reward_initialized x = reward_initialized (reward_at q i) \<Longrightarrow>
      reward_initialized (reward_at q' m) = reward_initialized (reward_at q m)"
    and "dormant q \<Longrightarrow> (reward_initialized (reward_at q i) \<Longrightarrow> reward_initialized x) \<Longrightarrow> dormant q'"
proof -
  note r = reward_at_set [OF i, of q x, folded q']
  have e: "reward_at q j = reward_at q i" if "(j = 0) = (i = 0)" for j
    using that by (simp add: reward_at_def)
  have s: "rw_reward_per_token_stored (reward_at q' j) = rw_reward_per_token_stored (reward_at q j)" for j
    using x e [of j] by (simp add: r)
  have o: "reward_owed j q' = reward_owed j q" for j by (simp add: fun_eq_iff reward_owed_def s)
  show "reward_liability i q' ps + reward_unspent (reward_at q i) * 2 ^ 128 =
      reward_liability i q ps + reward_unspent x * 2 ^ 128"
    by (simp add: reward_liability_def o r)
  show "reward_liability j q' ps = reward_liability j q ps" if "j < 2" "j \<noteq> i"
    using that i by (auto simp: reward_liability_def o r)
  show "reward_initialized (reward_at q' m) = reward_initialized (reward_at q m)"
    if "reward_initialized x = reward_initialized (reward_at q i)"
    using that e [of m] by (simp add: r)
  show "dormant q'" if "dormant q" and u: "reward_initialized (reward_at q i) \<Longrightarrow> reward_initialized x"
  proof -
    have "rw_reward_per_token_stored (reward_at q m) = 0" if "\<not> reward_initialized (reward_at q' m)" for m
      using that \<open>dormant q\<close> u e [of m] by (auto simp: r dormant_def split: if_splits)
    then show ?thesis by (simp add: dormant_def s)
  qed
qed

text \<open>Claiming: the vault pays what was pending, or nothing when it is frozen.\<close>

lemma claim_reward_owed:
  assumes "claim_reward p i = Ok (p', x)"
  shows "reward_owed i q p' + unat x * 2 ^ 192 = reward_owed i q p"
    and "j < 2 \<Longrightarrow> j \<noteq> i \<Longrightarrow> reward_owed j q p' = reward_owed j q p" and "i < 2"
  using assms
  by (auto simp: claim_reward_def get_total_reward_def rbind_Ok_iff arr2_get_Ok_iff reward_owed_def
      user_reward_at_def liq_def)

lemma claim_reward_covered:
  assumes c: "rewards_covered q rvs ps" and k: "ps k = Some p"
    and L: "unat (pl_liquidity q) = total_over liq ps" and t: "token_law t"
    and h: "handle_claim_reward clk acc t q (rvs (unat i)) p i skip = Ok (q', rv, p', x)"
  shows "rewards_covered q' (rvs(unat i := rv)) (ps(k := Some p'))"
proof -
  let ?i = "unat i"
  obtain p1 where init: "reward_initialized (reward_at q ?i)"
    and u: "position_update_rewards p q (unix_timestamp clk) = Ok (q', p1)"
    and cl: "claim_reward p1 ?i = Ok (p', x)"
    and v: "unat (rv_amount (rvs ?i)) \<le> unat (rv_amount rv) + unat x"
    using h by (auto simp: handle_claim_reward_def claim_reward_validate_def rbind_Ok_iff require_Ok_iff
        arr2_get_reward dest!: withdraw_effect [OF t] split: if_splits)
  have fin: "finite (dom ps)" "dormant q" using c by (simp_all add: rewards_covered_def)
  let ?ps = "ps(k := Some p1)"
  note up = kept_position_update(1) [OF fin k L u]
  have c1: "rewards_covered q' rvs ?ps" by (rule kept_covered [OF c up])
  have tot: "total_over f (ps(k := Some p')) + f p1 = total_over f ?ps + f p'" for f
    using total_over_update [of ?ps k p1 f p'] fin by simp
  note o = claim_reward_owed(1,2) [OF cl, where q = q'] claim_reward_owed(3) [OF cl]
  have "rewards_covered q' (rvs(?i := rv)) (ps(k := Some p'))"
  proof (rule covered_vault [OF c1 o(3)])
    show "reward_initialized (reward_at q' ?i)" using init up by (simp add: rewards_kept_def)
    show "finite (dom (ps(k := Some p')))" using fin by simp
    show "dormant q'" using up by (simp add: rewards_kept_def)
    show "reward_liability j q' (ps(k := Some p')) \<le> reward_liability j q' ?ps" if "j < 2" "j \<noteq> ?i" for j
      using tot [of "reward_owed j q'"] o(2) [OF that] by (simp add: reward_liability_def)
    have "reward_liability ?i q' (ps(k := Some p')) + unat x * 2 ^ 192 = reward_liability ?i q' ?ps"
      using tot [of "reward_owed ?i q'"] o(1) by (simp add: reward_liability_def)
    then show "reward_liability ?i q' (ps(k := Some p')) + unat (rv_amount (rvs ?i)) * 2 ^ 192 \<le>
      reward_liability ?i q' ?ps + unat (rv_amount rv) * 2 ^ 192"
      using v by simp
  qed simp
  then show ?thesis .
qed

text \<open>Funding: the new rate commits no more than what arrives, what is left and what was set aside.\<close>

lemma funding_unspent:
  assumes f: "funding_total r amt cf = Ok (r1, am)" and u: "update_rate_after_funding r1 t am = Ok r2"
    and L: "unat (rw_last_update_time r) = min (unat t) (unat (rw_reward_duration_end r))"
  shows "reward_unspent r2 \<le> reward_unspent r + unat amt * 2 ^ 64"
    and "rw_reward_per_token_stored r2 = rw_reward_per_token_stored r"
    and "reward_initialized r2 = reward_initialized r"
proof -
  let ?R = "unat (rw_reward_rate r)" and ?C = "unat (rw_cumulative_seconds_with_empty_liquidity_reward r)"
  have r1: "rw_reward_rate r1 = rw_reward_rate r" "rw_reward_duration_end r1 = rw_reward_duration_end r"
    "rw_reward_per_token_stored r1 = rw_reward_per_token_stored r"
    "reward_initialized r1 = reward_initialized r"
    "unat (rw_cumulative_seconds_with_empty_liquidity_reward r1) = 0"
    and bound: "unat am * 2 ^ 64 \<le> unat amt * 2 ^ 64 + ?R * ?C"
    using f div_mult_le_self [of "?R * ?C" "2 ^ 64"]
    by (auto simp: funding_total_def ok_iffs REWARD_RATE_SCALE_def reward_initialized_def
        split: if_splits)
  note e = funding_covers_rate [OF u]
  have r2: "rw_reward_per_token_stored r2 = rw_reward_per_token_stored r1"
    "reward_initialized r2 = reward_initialized r1"
    "rw_cumulative_seconds_with_empty_liquidity_reward r2 = rw_cumulative_seconds_with_empty_liquidity_reward r1"
    using u by (auto simp: update_rate_after_funding_def rbind_Ok_iff reward_initialized_def)
  have "reward_unspent r2 = reward_committed r2 t"
    by (simp add: reward_unspent_def reward_committed_def e(2) r2(3) r1(5))
  also have "\<dots> \<le> unat am * 2 ^ 64 + ?R * (unat (rw_reward_duration_end r) - unat t)"
    using e(1) by (simp add: reward_committed_def r1)
  also have "unat (rw_reward_duration_end r) - unat t =
    unat (rw_reward_duration_end r) - unat (rw_last_update_time r)" using L by linarith
  finally show "reward_unspent r2 \<le> reward_unspent r + unat amt * 2 ^ 64"
    using bound by (simp add: reward_unspent_def distrib_left)
  show "rw_reward_per_token_stored r2 = rw_reward_per_token_stored r"
    and "reward_initialized r2 = reward_initialized r" by (simp_all add: r1 r2)
qed

text \<open>What the other instructions on a reward do when they succeed.\<close>

lemma handle_fund_reward_Ok:
  assumes "handle_fund_reward clk t funder q rv0 i x cf = Ok (q', rv)"
  obtains e q1 r1 am r2 w where "unat i < 2" and "reward_initialized (reward_at q (unat i))"
    and "calculate_transfer_fee_excluded_amount t x = Ok e"
    and "pool_update_rewards q (unix_timestamp clk) = Ok q1"
    and "funding_total (reward_at q1 (unat i)) (xe_amount e) cf = Ok (r1, am)"
    and "update_rate_after_funding r1 (unix_timestamp clk) am = Ok r2"
    and "transfer_from_user t (rv_amount rv0) x = Ok w" and "rv = rv0\<lparr>rv_amount := w\<rparr>"
    and "q' = q1\<lparr>pl_reward_infos := arr2_set (pl_reward_infos q1) (unat i) r2\<rparr>"
  using assms
  by (simp only: handle_fund_reward_def fund_reward_validate_def rbind_Ok_iff require_Ok_iff
        arr2_get_reward split_paired_Ex prod.case sum.inject prod.inject) blast

lemma handle_withdraw_ineligible_reward_Ok:
  assumes "handle_withdraw_ineligible_reward clk t funder q rv0 i = Ok (q', rv, x)"
  obtains q1 where "unat i < 2" and "reward_initialized (reward_at q (unat i))"
    and "pool_update_rewards q (unix_timestamp clk) = Ok q1"
    and "claim_ineligible_reward q1 (unat i) = Ok (q', x)"
    and "0 < x \<Longrightarrow> transfer_from_pool t (rv_amount rv0) x = Ok (rv_amount rv)"
    and "\<not> 0 < x \<Longrightarrow> rv_amount rv = rv_amount rv0"
proof -
  obtain q1 u where v: "withdraw_ineligible_reward_validate clk q rv0 funder (unat i) = Ok u"
    and u: "pool_update_rewards q (unix_timestamp clk) = Ok q1"
    and b: "rbind (claim_ineligible_reward q1 (unat i)) (\<lambda>(q, x).
      if 0 < x then rbind (transfer_from_pool t (rv_amount rv0) x) (\<lambda>w. Ok (q, rv0\<lparr>rv_amount := w\<rparr>, x))
      else Ok (q, rv0, x)) = Ok (q', rv, x)"
    using assms unfolding handle_withdraw_ineligible_reward_def
      rbind_Ok_iff [of "withdraw_ineligible_reward_validate clk q rv0 funder (unat i)"]
      rbind_Ok_iff [of "pool_update_rewards q (unix_timestamp clk)"] by blast
  have a: "unat i < 2" "reward_initialized (reward_at q (unat i))"
    using v by (simp_all only: withdraw_ineligible_reward_validate_def rbind_Ok_iff require_Ok_iff
        arr2_get_reward) blast+
  have c: "claim_ineligible_reward q1 (unat i) = Ok (q', x)"
    using b by (auto simp: rbind_Ok_iff split: if_splits)
  have r: "(if 0 < x then rbind (transfer_from_pool t (rv_amount rv0) x) (\<lambda>w. Ok (rv0\<lparr>rv_amount := w\<rparr>))
      else Ok rv0) = Ok rv"
    using b by (cases "0 < x") (auto simp: c rbind_Ok_iff)
  show thesis
    by (rule that [OF a u c]) (use r in \<open>auto simp: rbind_Ok_iff\<close>)
qed

lemma claim_ineligible_reward_Ok:
  assumes "claim_ineligible_reward q i = Ok (q', x)"
  shows "unat x = unat (rw_cumulative_seconds_with_empty_liquidity_reward (reward_at q i)) *
      unat (rw_reward_rate (reward_at q i)) div 2 ^ 64"
    and "q' = q\<lparr>pl_reward_infos := arr2_set (pl_reward_infos q) i
      ((reward_at q i)\<lparr>rw_cumulative_seconds_with_empty_liquidity_reward := 0\<rparr>)\<rparr>"
  using assms
  by (auto simp: claim_ineligible_reward_def ok_iffs REWARD_RATE_SCALE_def reward_at_def)

lemma handle_initialize_reward_Ok:
  assumes "handle_initialize_reward mint rem signer vk q i d funder = Ok q'"
  obtains "unat i < 2" and "\<not> reward_initialized (reward_at q (unat i))"
    and "q' = q\<lparr>pl_reward_infos := arr2_set (pl_reward_infos q) (unat i)
      (init_reward (reward_at q (unat i)) (mi_key mint) vk funder d
         (u8_of_token_program_flags (get_token_program_flags mint)))\<rparr>"
  using assms
  by (simp only: handle_initialize_reward_def initialize_reward_validate_def rbind_Ok_iff require_Ok_iff
        arr2_get_reward split_paired_Ex prod.case sum.inject prod.inject) blast

lemma fund_reward_covered:
  assumes c: "rewards_covered q rvs ps" and L: "unat (pl_liquidity q) = total_over liq ps"
    and t: "token_law t"
    and h: "handle_fund_reward clk t funder q (rvs (unat i)) i x cf = Ok (q', rv)"
  shows "rewards_covered q' (rvs(unat i := rv)) ps"
proof -
  let ?i = "unat i" and ?t = "unix_timestamp clk"
  obtain e q1 r1 am r2 w where i: "?i < 2" and init: "reward_initialized (reward_at q ?i)"
    and e: "calculate_transfer_fee_excluded_amount t x = Ok e"
    and u: "pool_update_rewards q ?t = Ok q1"
    and f: "funding_total (reward_at q1 ?i) (xe_amount e) cf = Ok (r1, am)"
    and r: "update_rate_after_funding r1 ?t am = Ok r2"
    and w: "transfer_from_user t (rv_amount (rvs ?i)) x = Ok w" "rv = (rvs ?i)\<lparr>rv_amount := w\<rparr>"
    and q': "q' = q1\<lparr>pl_reward_infos := arr2_set (pl_reward_infos q1) ?i r2\<rparr>"
    by (rule handle_fund_reward_Ok [OF h])
  have fin: "finite (dom ps)" "dormant q" using c by (simp_all add: rewards_covered_def)
  note up = kept_update [OF fin u L]
  have init1: "reward_initialized (reward_at q1 ?i)" and d: "dormant q1"
    using init up by (simp_all add: rewards_kept_def)
  note eff = reward_update_effect [OF pool_update_rewards_at [OF u] init]
  note g = funding_unspent [OF f r eff(2) [folded eff(8)]]
  note edit = reward_edit [OF i q' g(2)]
  show ?thesis
  proof (rule covered_vault [OF kept_covered [OF c up] i init1 fin(1)])
    show "dormant q'" using edit(4) d g(3) by simp
    show "reward_initialized (reward_at q' j) = reward_initialized (reward_at q1 j)" for j
      by (rule edit(3) [OF g(3)])
    show "reward_liability j q' ps \<le> reward_liability j q1 ps" if "j < 2" "j \<noteq> ?i" for j
      using edit(2) [OF that] by simp
    have "unat (rv_amount rv) = unat (rv_amount (rvs ?i)) + unat (xe_amount e)"
      using deposit_effect [OF t w(1) e] by (simp add: w(2))
    then show "reward_liability ?i q' ps + unat (rv_amount (rvs ?i)) * 2 ^ 192 \<le>
      reward_liability ?i q1 ps + unat (rv_amount rv) * 2 ^ 192"
      using edit(1) [of ps] g(1) by simp
  qed
qed

lemma withdraw_ineligible_covered:
  assumes c: "rewards_covered q rvs ps" and L: "unat (pl_liquidity q) = total_over liq ps"
    and t: "token_law t"
    and h: "handle_withdraw_ineligible_reward clk t funder q (rvs (unat i)) i = Ok (q', rv, x)"
  shows "rewards_covered q' (rvs(unat i := rv)) ps"
proof -
  let ?i = "unat i" and ?t = "unix_timestamp clk"
  obtain q1 where i: "?i < 2" and init: "reward_initialized (reward_at q ?i)"
    and u: "pool_update_rewards q ?t = Ok q1"
    and cl: "claim_ineligible_reward q1 ?i = Ok (q', x)"
    and w: "0 < x \<Longrightarrow> transfer_from_pool t (rv_amount (rvs ?i)) x = Ok (rv_amount rv)"
      "\<not> 0 < x \<Longrightarrow> rv_amount rv = rv_amount (rvs ?i)"
    by (rule handle_withdraw_ineligible_reward_Ok [OF h]) blast
  define r2 where "r2 = (reward_at q1 ?i)\<lparr>rw_cumulative_seconds_with_empty_liquidity_reward := 0\<rparr>"
  have v: "unat (rv_amount (rvs ?i)) = unat (rv_amount rv) + unat x" by (rule paid_effect [OF t w])
  note x = claim_ineligible_reward_Ok(1) [OF cl] and q' = claim_ineligible_reward_Ok(2) [OF cl, folded r2_def]
  have fin: "finite (dom ps)" "dormant q" using c by (simp_all add: rewards_covered_def)
  note up = kept_update [OF fin u L]
  have init1: "reward_initialized (reward_at q1 ?i)" and d: "dormant q1"
    using init up by (simp_all add: rewards_kept_def)
  have g: "rw_reward_per_token_stored r2 = rw_reward_per_token_stored (reward_at q1 ?i)"
    "reward_initialized r2 = reward_initialized (reward_at q1 ?i)"
    by (simp_all add: r2_def reward_initialized_def)
  have s: "reward_unspent r2 + unat x * 2 ^ 64 \<le> reward_unspent (reward_at q1 ?i)"
    using div_mult_le_self [of "unat (rw_cumulative_seconds_with_empty_liquidity_reward (reward_at q1 ?i)) *
          unat (rw_reward_rate (reward_at q1 ?i))" "2 ^ 64"]
    by (simp add: reward_unspent_def r2_def x distrib_left mult.commute)
  note edit = reward_edit [OF i q' g(1)]
  show ?thesis
  proof (rule covered_vault [OF kept_covered [OF c up] i init1 fin(1)])
    show "dormant q'" using edit(4) d g(2) by simp
    show "reward_initialized (reward_at q' j) = reward_initialized (reward_at q1 j)" for j
      by (rule edit(3) [OF g(2)])
    show "reward_liability j q' ps \<le> reward_liability j q1 ps" if "j < 2" "j \<noteq> ?i" for j
      using edit(2) [OF that] by simp
    show "reward_liability ?i q' ps + unat (rv_amount (rvs ?i)) * 2 ^ 192 \<le>
      reward_liability ?i q1 ps + unat (rv_amount rv) * 2 ^ 192"
      using edit(1) [of ps] s v by simp
  qed
qed

text \<open>A reward that is initialized starts with nothing to pay, and with an empty vault.\<close>

lemma initialize_reward_covered:
  assumes c: "rewards_covered q rvs ps"
    and h: "handle_initialize_reward mint rem signer vk q i d funder = Ok q'"
  shows "rewards_covered q' (rvs(unat i := rv)) ps"
proof -
  let ?i = "unat i"
  define r where "r = init_reward (reward_at q ?i) (mi_key mint) vk funder d
    (u8_of_token_program_flags (get_token_program_flags mint))"
  obtain i: "?i < 2" and init: "\<not> reward_initialized (reward_at q ?i)"
    and q': "q' = q\<lparr>pl_reward_infos := arr2_set (pl_reward_infos q) ?i r\<rparr>"
    unfolding r_def by (rule handle_initialize_reward_Ok [OF h])
  have r: "rw_reward_per_token_stored r = rw_reward_per_token_stored (reward_at q ?i)"
    "reward_unspent r = reward_unspent (reward_at q ?i)" "reward_initialized r"
    by (simp_all add: r_def init_reward_def reward_unspent_def reward_initialized_def)
  note edit = reward_edit [OF i q' r(1)]
  have "reward_liability j q' ps \<le> reward_funds j q' ((rvs(?i := rv)) j)" if j: "j < 2" for j
  proof (cases "j = ?i")
    case True
    have "reward_liability ?i q ps \<le> reward_funds ?i q (rvs ?i)"
      using c i by (simp add: rewards_covered_def)
    then have "reward_liability ?i q ps = 0" using init by (simp add: reward_funds_def)
    then show ?thesis using edit(1) [of ps] r(2) True by simp
  next
    case False
    then have "reward_at q' j = reward_at q j" using reward_at_set [OF i, of q r j] i j q' by auto
    then show ?thesis using c j False edit(2) [OF j False] by (simp add: rewards_covered_def reward_funds_def)
  qed
  moreover have "dormant q'" using c edit(4) r(3) by (simp add: rewards_covered_def)
  ultimately show ?thesis using c by (simp add: rewards_covered_def)
qed

lemma edit_reward_kept:
  assumes fin: "finite (dom ps)" "dormant q" and i: "i < 2"
    and q': "q' = q\<lparr>pl_reward_infos := arr2_set (pl_reward_infos q) i x\<rparr>"
    and x: "rw_reward_per_token_stored x = rw_reward_per_token_stored (reward_at q i)"
      "reward_unspent x = reward_unspent (reward_at q i)"
      "reward_initialized x = reward_initialized (reward_at q i)"
  shows "rewards_covered q rvs ps \<Longrightarrow> rewards_covered q' rvs ps"
proof -
  note edit = reward_edit [OF i q' x(1)]
  assume c: "rewards_covered q rvs ps"
  have "reward_liability j q' ps \<le> reward_funds j q' (rvs j)" if j: "j < 2" for j
  proof -
    have "reward_liability j q' ps = reward_liability j q ps"
      using edit(1) [of ps] edit(2) [OF j, of ps] x(2) by (cases "j = i") simp_all
    then show ?thesis using c j edit(3) [OF x(3)] by (simp add: rewards_covered_def reward_funds_def)
  qed
  then show "rewards_covered q' rvs ps" using fin edit(4) x(3) by (simp add: rewards_covered_def)
qed

lemma update_reward_duration_covered:
  assumes c: "rewards_covered q rvs ps"
    and h: "handle_update_reward_duration clk rem signer q i d = Ok q'"
  shows "rewards_covered q' rvs ps"
proof -
  have i: "unat i < 2" and q': "q' = q\<lparr>pl_reward_infos := arr2_set (pl_reward_infos q) (unat i)
      ((reward_at q (unat i))\<lparr>rw_reward_duration := d\<rparr>)\<rparr>"
    using h by (simp_all only: handle_update_reward_duration_def rbind_Ok_iff arr2_get_reward sum.inject)
      blast+
  show ?thesis using c
    by (intro edit_reward_kept [OF _ _ i q'])
      (simp_all add: rewards_covered_def reward_unspent_def reward_initialized_def)
qed

lemma update_reward_funder_covered:
  assumes c: "rewards_covered q rvs ps"
    and h: "handle_update_reward_funder rem signer q i f = Ok q'"
  shows "rewards_covered q' rvs ps"
proof -
  have i: "unat i < 2" and q': "q' = q\<lparr>pl_reward_infos := arr2_set (pl_reward_infos q) (unat i)
      ((reward_at q (unat i))\<lparr>rw_funder := f\<rparr>)\<rparr>"
    using h by (simp_all only: handle_update_reward_funder_def rbind_Ok_iff arr2_get_reward sum.inject)
      blast+
  show ?thesis using c
    by (intro edit_reward_kept [OF _ _ i q'])
      (simp_all add: rewards_covered_def reward_unspent_def reward_initialized_def)
qed

lemma freeze_covered:
  assumes "rewards_covered q rvs ps"
  shows "rewards_covered q (rvs(i := (rvs i)\<lparr>rv_is_frozen := frozen\<rparr>)) ps"
proof -
  have "reward_funds j q ((rvs(i := (rvs i)\<lparr>rv_is_frozen := frozen\<rparr>)) j) = reward_funds j q (rvs j)" for j
    by (simp add: reward_funds_def)
  then show ?thesis using assms unfolding rewards_covered_def by metis
qed

section \<open>Every step\<close>

definition market_rewards :: "market \<Rightarrow> bool" where
  "market_rewards m \<longleftrightarrow>
     market_books m \<and> rewards_covered (mk_pool m) (mk_reward_vaults m) (mk_positions m)"

lemma rewards_step:
  assumes "market_rewards m"
  shows "finite (dom (mk_positions m))" and "dormant (mk_pool m)"
    and "unat (pl_liquidity (mk_pool m)) = total_over liq (mk_positions m)"
    and "rewards_covered (mk_pool m) (mk_reward_vaults m) (mk_positions m)"
  using assms by (simp_all add: market_rewards_def market_books_def books_def rewards_covered_def)

lemma step_covered_kept:
  "market_rewards m \<Longrightarrow> rewards_kept (mk_pool m) (mk_positions m) q ps \<Longrightarrow>
    rewards_covered q (mk_reward_vaults m) ps"
  by (rule kept_covered [OF rewards_step(4)])

lemma step_covered_pool:
  "market_rewards m \<Longrightarrow> pl_reward_infos q = pl_reward_infos (mk_pool m) \<Longrightarrow>
    rewards_covered q (mk_reward_vaults m) (mk_positions m)"
  by (rule step_covered_kept, assumption, rule kept_pool [OF rewards_step(1,2)])

lemma step_covered_position:
  assumes "market_rewards m" and "mk_positions m k = Some p"
    and "pl_reward_infos q = pl_reward_infos (mk_pool m)" and "liq p' = liq p \<and> ps_reward_infos p' = ps_reward_infos p"
  shows "rewards_covered q (mk_reward_vaults m) ((mk_positions m)(k := Some p'))"
  by (rule step_covered_kept [OF assms(1)], rule kept_position [OF rewards_step(1,2) [OF assms(1)] assms(2,3)],
      rule same_claims) (use assms(4) in simp_all)

lemma market_step_covered:
  assumes "market_step m m'" and "market_rewards m"
  shows "rewards_covered (mk_pool m') (mk_reward_vaults m') (mk_positions m')"
  using assms
proof (induction rule: market_step.induct)
  case (swap ids clk tx ta tb accounts m params q v r)
  have "p_handle_swap (swap_context_of ids clk tx ta tb accounts) (mk_pool m) (mk_vaults m) params =
    Ok (q, v, r)" using swap(1) by (auto simp: swap_instruction_def rbind_Ok_iff)
  from step_covered_pool [OF swap(4) swap_infos [OF this]] show ?case by simp
next
  case (add m k p ctx al q v p' ch)
  show ?case using step_covered_kept [OF add(5) add_kept [OF rewards_step(1,2) [OF add(5)] add(1)
        rewards_step(3) [OF add(5)] add(2)]]
    by (simp del: fun_upd_apply)
next
  case (remove m k p ctx d ma mb q v p' ch)
  show ?case using step_covered_kept [OF remove(5) remove_kept [OF rewards_step(1,2) [OF remove(5)]
        remove(1) rewards_step(3) [OF remove(5)] remove(2)]]
    by (simp del: fun_upd_apply)
next
  case (claim_position_fee m k p ctx v p' a b)
  show ?case using step_covered_position [OF claim_position_fee(5,1) refl
        claim_position_fee_infos [OF claim_position_fee(2)]]
    by (simp del: fun_upd_apply)
next
  case (create_position m k clk nft pool_key mint q p')
  show ?case using step_covered_kept [OF create_position(3) create_kept [OF
        rewards_step(1,2) [OF create_position(3)] create_position(1,2)]]
    by (simp del: fun_upd_apply)
next
  case (close_position m k p acc nft q)
  show ?case using step_covered_kept [OF close_position(3) close_kept [OF
        rewards_step(1,2) [OF close_position(3)] close_position(1,2)]]
    by (simp del: fun_upd_apply)
next
  case (lock_position m k p kv clk acc vp p' vst)
  show ?case using step_covered_position [OF lock_position(4,1) refl
        lock_position_infos [OF lock_position(3)]]
    by (simp del: fun_upd_apply)
next
  case (refresh_vesting m k p clk acc ks vs p')
  show ?case using step_covered_position [OF refresh_vesting(3,1) refl
        refresh_vesting_infos [OF refresh_vesting(2)]]
    by (simp del: fun_upd_apply)
next
  case (permanent_lock m k p clk acc x q p')
  note i = permanent_lock_infos [OF permanent_lock(2)]
  show ?case using step_covered_position [OF permanent_lock(3,1) conjunct1 [OF i] conjunct2 [OF i]]
    by (simp del: fun_upd_apply)
next
  case (split_position m k1 p1 k2 p2 clk sp q p1' p2' info)
  show ?case using step_covered_kept [OF split_position(5) split_kept [OF
        rewards_step(1,2) [OF split_position(5)] split_position(1-3)
        rewards_step(3) [OF split_position(5)] split_position(4)]]
    by (simp del: fun_upd_apply)
next
  case (claim_reward m k p clk acc t i skip q rv' p' x)
  show ?case using claim_reward_covered [OF rewards_step(4) [OF claim_reward(4)] claim_reward(1)
        rewards_step(3) [OF claim_reward(4)] claim_reward(3,2)] by (simp del: fun_upd_apply)
next
  case (fund_reward clk t funder m i x cf q rv')
  show ?case using fund_reward_covered [OF rewards_step(4,3) [OF fund_reward(3)] fund_reward(2,1)]
    by (simp del: fun_upd_apply)
next
  case (withdraw_ineligible_reward clk t funder m i q rv' x)
  show ?case using withdraw_ineligible_covered [OF rewards_step(4,3) [OF withdraw_ineligible_reward(3)]
        withdraw_ineligible_reward(2,1)] by (simp del: fun_upd_apply)
next
  case (initialize_reward mint rem signer vk m i d funder q frozen)
  show ?case using initialize_reward_covered [OF rewards_step(4) [OF initialize_reward(2)]
        initialize_reward(1)] by (simp del: fun_upd_apply)
next
  case (freeze_reward_vault m i frozen)
  show ?case using freeze_covered [OF rewards_step(4) [OF freeze_reward_vault]]
    by (simp del: fun_upd_apply)
next
  case (update_reward_duration clk rem signer m i d q)
  show ?case using update_reward_duration_covered [OF rewards_step(4) [OF update_reward_duration(2)]
        update_reward_duration(1)] by simp
next
  case (update_reward_funder rem signer m i funder q)
  show ?case using update_reward_funder_covered [OF rewards_step(4) [OF update_reward_funder(2)]
        update_reward_funder(1)] by simp
next
  case set_pool_status
  then show ?case by (simp add: step_covered_pool operator_handlers_infos)
next
  case update_pool_fees
  then show ?case by (simp add: step_covered_pool operator_handlers_infos)
next
  case claim_protocol_fee
  then show ?case by (simp add: step_covered_pool operator_handlers_infos)
next
  case claim_partner_fee
  then show ?case by (simp add: step_covered_pool operator_handlers_infos)
next
  case zap_protocol_fee
  then show ?case by (simp add: step_covered_pool operator_handlers_infos)
qed

lemma one_position_rewards:
  assumes q0: "q0 = pool_initialize creator fees ma mb va vb wv partner lo hi pr ap aty fa fb l cm ty"
    and p: "position_initialize q0 key mint l = (q, p)"
  shows "rewards_covered q rvs (Map.empty(k := Some p))"
proof -
  have r: "reward_at q i = reward_info_default" for i
    using p by (auto simp: q0 position_initialize_def pool_initialize_def reward_at_def)
  have "reward_owed i q p = 0" for i
    using p by (auto simp: reward_owed_def r position_initialize_def position_default_def user_reward_at_def
        user_reward_info_default_def reward_info_default_def)
  then have "total_over (reward_owed i q) (Map.empty(k := Some p)) = 0" for i
    using total_over_insert [where f = "reward_owed i q" and m = Map.empty and k = k and v = p] by simp
  then have "reward_liability i q (Map.empty(k := Some p)) = 0" for i
    by (simp add: reward_liability_def r reward_unspent_def reward_info_default_def del: fun_upd_apply)
  then show ?thesis by (simp add: rewards_covered_def dormant_def r reward_info_default_def)
qed

lemma market_init_rewards:
  assumes "market_init m" shows "market_rewards m"
proof -
  have "rewards_covered (mk_pool m) (mk_reward_vaults m) (mk_positions m)"
    using assms by (rule market_init_new) (simp add: one_position_rewards [OF refl] del: fun_upd_apply)
  then show ?thesis using market_init_books [OF assms] by (simp add: market_rewards_def)
qed

interpretation reward_run: invariant market_init market_step market_rewards
proof
  show "market_rewards m'" if "market_rewards m" "market_step m m'" for m m'
    using market_step_covered [OF that(2,1)] market_step_books [OF that(2)] that(1)
    by (simp add: market_rewards_def)
qed (rule market_init_rewards)

lemma reachable_rewards: "reachable m \<Longrightarrow> market_rewards m"
  unfolding reachable_def by (rule reward_run.always)

text \<open>
  In a state that can be reached the vault of a reward holds what is owed, in particular what any one
  position can claim at any time.
\<close>

lemma reward_vault_covers:
  assumes "reachable m" and "i < 2" and "reward_initialized (reward_at (mk_pool m) i)"
  shows "reward_liability i (mk_pool m) (mk_positions m) \<le> unat (rv_amount (mk_reward_vaults m i)) * 2 ^ 192"
proof -
  have "reward_liability i (mk_pool m) (mk_positions m) \<le>
      reward_funds i (mk_pool m) (mk_reward_vaults m i)"
    using rewards_step(4) [OF reachable_rewards [OF assms(1)]] assms(2) by (simp add: rewards_covered_def)
  then show ?thesis unfolding reward_funds_def if_P [OF assms(3)] .
qed

lemma reward_claim_covered:
  assumes m: "reachable m" and i: "reward_initialized (reward_at (mk_pool m) i)"
    and k: "mk_positions m k = Some p"
    and u: "position_update_rewards p (mk_pool m) t = Ok (q, p1)" and c: "claim_reward p1 i = Ok (p2, x)"
  shows "unat x \<le> unat (rv_amount (mk_reward_vaults m i))"
proof -
  note s = rewards_step [OF reachable_rewards [OF m]] and o = claim_reward_owed(1) [OF c, of q]
  let ?ps = "(mk_positions m)(k := Some p1)"
  note up = kept_position_update(1) [OF s(1,2) k s(3) u]
  have "unat x * 2 ^ 192 \<le> reward_owed i q p1" using o by linarith
  also have "\<dots> \<le> reward_liability i q ?ps"
    using total_over_member [of ?ps k p1 "reward_owed i q"] s(1) unfolding reward_liability_def by simp
  also have "\<dots> \<le> reward_liability i (mk_pool m) (mk_positions m)" using up by (simp add: rewards_kept_def)
  also have "\<dots> \<le> unat (rv_amount (mk_reward_vaults m i)) * 2 ^ 192"
    by (rule reward_vault_covers [OF m claim_reward_owed(3) [OF c] i])
  finally show ?thesis by simp
qed

end
