(* ===== verification/Checkpoints.thy ===== *)
theory Checkpoints
  imports Reward_Solvency
begin

text \<open>
  The accumulators of a pool only grow, and the checkpoints of its positions never run ahead of them.
  So the difference that \<^verbatim>\<open>update_fee\<close> and \<^verbatim>\<open>update_rewards\<close> subtract never underflows, in no state
  that can be reached.
\<close>

declare of_nat_unat [simp del]

definition stored_at :: "pool \<Rightarrow> nat \<Rightarrow> nat" where
  "stored_at q i = unat (rw_reward_per_token_stored (reward_at q i))"

definition reward_checkpoint :: "position \<Rightarrow> nat \<Rightarrow> nat" where
  "reward_checkpoint p i = unat (ur_reward_per_token_checkpoint (user_reward_at p i))"

definition behind :: "pool \<Rightarrow> position \<Rightarrow> bool" where
  "behind q p \<longleftrightarrow> (\<forall>s. unat (checkpoint s p) \<le> unat (fee_per_liquidity s q)) \<and>
     (\<forall>i. reward_checkpoint p i \<le> stored_at q i)"

definition grows :: "pool \<Rightarrow> pool \<Rightarrow> bool" where
  "grows q q' \<longleftrightarrow> (\<forall>s. unat (fee_per_liquidity s q) \<le> unat (fee_per_liquidity s q')) \<and>
     (\<forall>i. stored_at q i \<le> stored_at q' i)"

lemma grows_refl [simp]: "grows q q"
  by (simp add: grows_def)

lemma grows_trans: "grows q q1 \<Longrightarrow> grows q1 q2 \<Longrightarrow> grows q q2"
  unfolding grows_def by (meson order_trans)

lemma behind_grows: "behind q p \<Longrightarrow> grows q q' \<Longrightarrow> behind q' p"
  unfolding grows_def behind_def by (meson order_trans)

section \<open>The pool\<close>

lemma same_books_fee: "same_books q q' \<Longrightarrow> fee_per_liquidity s q' = fee_per_liquidity s q"
  by (cases s) (simp_all add: same_books_def side_defs)

lemma grows_books:
  "same_books q q' \<Longrightarrow> (\<And>i. stored_at q i \<le> stored_at q' i) \<Longrightarrow> grows q q'"
  by (simp add: grows_def same_books_fee)

lemma grows_infos:
  assumes "\<And>s. fee_per_liquidity s q' = fee_per_liquidity s q" and "pl_reward_infos q' = pl_reward_infos q"
  shows "grows q q'"
  using assms by (simp add: grows_def stored_at_def reward_at_def)

lemma grows_update: "pool_update_rewards q t = Ok q' \<Longrightarrow> grows q q'"
  by (intro grows_books pool_update_rewards_books)
    (simp_all add: stored_at_def reward_update_unspent(3) [OF pool_update_rewards_at])

lemma grows_edit:
  assumes "i < 2" and "rw_reward_per_token_stored x = rw_reward_per_token_stored (reward_at q i)"
  shows "grows q (q\<lparr>pl_reward_infos := arr2_set (pl_reward_infos q) i x\<rparr>)"
proof (rule grows_books)
  show "stored_at q j \<le> stored_at (q\<lparr>pl_reward_infos := arr2_set (pl_reward_infos q) i x\<rparr>) j" for j
    using assms(2) unfolding stored_at_def reward_at_set [OF assms(1)]
    by (simp add: reward_at_def split: if_splits)
qed simp

lemma grows_swap:
  assumes "p_handle_swap ctx q v params = Ok (q', v', r)"
  shows "grows q q'"
proof -
  obtain q1 fm where p: "update_pre_swap q (unix_timestamp (sc_clock ctx)) = Ok q1"
    and a: "apply_swap_result q1 (pr_swap_result r) fm (unix_timestamp (sc_clock ctx)) = Ok q'"
    by (rule p_handle_swap_Ok [OF assms]) blast
  have "same_books q q1" using update_pre_swap_effect(1) [OF p] by (auto simp: same_books_def)
  then have "grows q q1" by (intro grows_infos same_books_fee update_pre_swap_infos [OF p])
  moreover have "stored_at q1 = stored_at q'"
    using apply_swap_result_infos [OF a] by (simp add: fun_eq_iff stored_at_def reward_at_def)
  then have "grows q1 q'" by (simp add: grows_def apply_swap_result_claims(2) [OF a])
  ultimately show ?thesis by (rule grows_trans)
qed

section \<open>One position\<close>

lemma reward_checkpoint_cong:
  "ps_reward_infos p' = ps_reward_infos p \<Longrightarrow> reward_checkpoint p' = reward_checkpoint p"
  by (simp add: fun_eq_iff reward_checkpoint_def user_reward_at_def)

lemma behind_same:
  assumes "behind q p" and "\<And>s. checkpoint s p' = checkpoint s p" and "ps_reward_infos p' = ps_reward_infos p"
  shows "behind q p'"
  using assms(1,2) reward_checkpoint_cong [OF assms(3)] by (simp add: behind_def)

lemma same_fees_checkpoint: "same_fees p p' \<Longrightarrow> checkpoint s p' = checkpoint s p"
  by (simp add: same_fees_def)

lemma behind_update_fee:
  assumes "behind q p" and u: "update_fee p (pl_fee_a_per_liquidity q) (pl_fee_b_per_liquidity q) = Ok p'"
  shows "behind q p'"
  using assms(1) update_fee_owed(3) [OF u] reward_checkpoint_cong [OF conjunct1 [OF update_fee_infos [OF u]]]
  by (simp add: behind_def)

lemma update_one_checkpoint:
  assumes "update_one_position_reward l r u = Ok u'"
    and "unat (ur_reward_per_token_checkpoint u) \<le> unat (rw_reward_per_token_stored r)"
  shows "unat (ur_reward_per_token_checkpoint u') \<le> unat (rw_reward_per_token_stored r)"
  using assms
  by (auto simp: update_one_position_reward_def user_update_rewards_def rbind_Ok_iff split: if_splits)

lemma behind_position_reward:
  assumes "behind q p" and u: "update_position_reward p q = Ok p'"
  shows "behind q p'"
proof -
  have "reward_checkpoint p' i \<le> stored_at q i" for i
  proof -
    obtain l where "update_one_position_reward l (reward_at q i) (user_reward_at p i) = Ok (user_reward_at p' i)"
      using u by (cases "i = 0") (auto simp: update_position_reward_def rbind_Ok_iff reward_at_def user_reward_at_def)
    from update_one_checkpoint [OF this] show ?thesis using assms(1)
      by (simp add: behind_def reward_checkpoint_def stored_at_def)
  qed
  then show ?thesis
    using assms(1) same_fees_checkpoint [OF update_position_reward_fees [OF u]] by (simp add: behind_def)
qed

lemma behind_position_update:
  assumes "behind q p" and r: "position_update_rewards p q t = Ok (q', p')"
  shows "grows q q'" and "behind q' p'"
proof -
  have "grows q q' \<and> behind q' p'"
  proof (cases "pool_reward_initialized q")
    case True
    then obtain u: "pool_update_rewards q t = Ok q'" and v: "update_position_reward p q' = Ok p'"
      using r by (auto simp: position_update_rewards_def rbind_Ok_iff)
    note g = grows_update [OF u]
    show ?thesis using g behind_position_reward [OF behind_grows [OF assms(1) g] v] by blast
  qed (use assms in \<open>auto simp: position_update_rewards_def\<close>)
  then show "grows q q'" and "behind q' p'" by simp_all
qed

lemma behind_moved:
  assumes "moved r1 r2 p1 p2"
  shows "behind q r1 \<Longrightarrow> behind q p1" and "behind q r2 \<Longrightarrow> behind q p2"
proof -
  have r: "reward_checkpoint p1 = reward_checkpoint r1" "reward_checkpoint p2 = reward_checkpoint r2"
    using assms by (simp_all add: fun_eq_iff moved_def same_checkpoints_def reward_checkpoint_def user_reward_at_def)
  have c: "checkpoint s p1 = checkpoint s r1" "checkpoint s p2 = checkpoint s r2" for s
    using assms by (cases s; simp add: moved_def same_checkpoints_def side_defs)+
  show "behind q r1 \<Longrightarrow> behind q p1" and "behind q r2 \<Longrightarrow> behind q p2"
    by (simp_all add: behind_def r c)
qed

section \<open>The market\<close>

definition market_behind :: "market \<Rightarrow> bool" where
  "market_behind m \<longleftrightarrow> (\<forall>k p. mk_positions m k = Some p \<longrightarrow> behind (mk_pool m) p)"

lemma market_behind_at: "market_behind m \<Longrightarrow> mk_positions m k = Some p \<Longrightarrow> behind (mk_pool m) p"
  by (simp add: market_behind_def)

text \<open>An instruction that makes the pool grow and leaves every position as it is, or behind the pool.\<close>

lemma market_behind_step:
  assumes "market_behind m" and "grows (mk_pool m) (mk_pool m')"
    and "\<And>j p. mk_positions m' j = Some p \<Longrightarrow> mk_positions m j = Some p \<or> behind (mk_pool m') p"
  shows "market_behind m'"
  using assms behind_grows unfolding market_behind_def by blast

lemma market_behind_pool:
  assumes "market_behind m" and "grows (mk_pool m) (mk_pool m')" and "mk_positions m' = mk_positions m"
  shows "market_behind m'"
  by (rule market_behind_step [OF assms(1,2)]) (simp add: assms(3))

lemma market_behind_position:
  assumes "market_behind m" and "grows (mk_pool m) (mk_pool m')"
    and "mk_positions m' = (mk_positions m)(k := Some p')" and "behind (mk_pool m') p'"
  shows "market_behind m'"
  by (rule market_behind_step [OF assms(1,2)]) (use assms(3,4) in \<open>auto split: if_splits\<close>)

text \<open>The instructions of a position.\<close>

lemma behind_change_liquidity:
  assumes "behind q p" and r: "position_update_rewards p q t = Ok (q1, p1)"
    and u: "update_fee p1 (pl_fee_a_per_liquidity q1) (pl_fee_b_per_liquidity q1) = Ok p2"
    and p': "p' = p2\<lparr>ps_unlocked_liquidity := l\<rparr>" and q': "q' = q1\<lparr>pl_liquidity := l'\<rparr>"
  shows "grows q q' \<and> behind q' p'"
proof -
  note b = behind_position_update [OF assms(1) r]
  have "grows q1 q'" unfolding q' by (rule grows_infos) (simp_all add: same_books_liquidity)
  moreover have "behind q1 p'"
    unfolding p' by (rule behind_same [OF behind_update_fee [OF b(2) u]]) (simp_all add: checkpoint_def split: side.split)
  ultimately show ?thesis using grows_trans [OF b(1)] behind_grows by blast
qed

lemma behind_add:
  assumes "behind q p" and h: "handle_add_liquidity ctx q v p params = Ok (q', v', p', ch)"
  shows "grows q q' \<and> behind q' p'"
proof -
  obtain q1 p1 d where r: "position_update_rewards p q (unix_timestamp (lc_clock ctx)) = Ok (q1, p1)"
    and a: "apply_add_liquidity q1 p1 d = Ok (q', p')"
    using h by (auto simp: handle_add_liquidity_def rbind_Ok_iff require_Ok_iff)
  note e = apply_add_liquidity_effect [OF a]
  obtain p2 where u: "update_fee p1 (pl_fee_a_per_liquidity q1) (pl_fee_b_per_liquidity q1) = Ok p2"
    and ad: "add_liquidity p2 d = Ok p'" using e(1) by blast
  show ?thesis by (rule behind_change_liquidity [OF assms(1) r u add_liquidity_effect(2) [OF ad] e(2)])
qed

lemma behind_remove:
  assumes "behind q p" and h: "handle_remove_liquidity ctx q v p dl ma mb = Ok (q', v', p', ch)"
  shows "grows q q' \<and> behind q' p'"
proof -
  obtain q1 p1 d where r: "position_update_rewards p q (unix_timestamp (lc_clock ctx)) = Ok (q1, p1)"
    and a: "apply_remove_liquidity q1 p1 d = Ok (q', p')"
    using h by (auto simp: handle_remove_liquidity_def rbind_Ok_iff require_Ok_iff Let_def)
  note e = apply_remove_liquidity_effect [OF a]
  obtain p2 where u: "update_fee p1 (pl_fee_a_per_liquidity q1) (pl_fee_b_per_liquidity q1) = Ok p2"
    and ad: "remove_unlocked_liquidity p2 d = Ok p'" using e(1) by blast
  show ?thesis by (rule behind_change_liquidity [OF assms(1) r u remove_unlocked_effect(2) [OF ad] e(2)])
qed

lemma behind_claim_fee:
  assumes "behind q p" and "handle_claim_position_fee ctx q v p = Ok (v', p', a, b)"
    and "token_law (lc_token_a ctx)" "token_law (lc_token_b ctx)"
  shows "behind q p'"
proof -
  have "\<And>s. checkpoint s p' = fee_per_liquidity s q"
    using claim_position_fee_Ok [OF assms(2-4)] by metis
  then show ?thesis
    using assms(1) reward_checkpoint_cong [OF conjunct2 [OF claim_position_fee_infos [OF assms(2)]]]
    by (simp add: behind_def)
qed

lemma new_position_behind:
  assumes "position_initialize q0 key mint l = (q, p)"
  shows "behind q p"
proof -
  have "p = position_default\<lparr>ps_pool := key, ps_nft_mint := mint, ps_unlocked_liquidity := l\<rparr>"
    using assms by (simp add: position_initialize_def)
  then have "reward_checkpoint p i = 0" "checkpoint s p = 0" for i s
    by (simp_all add: reward_checkpoint_def user_reward_at_def user_reward_info_default_def
        position_default_def checkpoint_def split: side.split)
  then show ?thesis by (simp add: behind_def)
qed

lemma behind_create:
  assumes "handle_create_position clk nft q pool_key mint = Ok (q', p')"
  shows "grows q q' \<and> behind q' p'"
proof -
  have i: "position_initialize q pool_key mint 0 = (q', p')"
    using assms by (auto simp: handle_create_position_def rbind_Ok_iff require_Ok_iff Let_def
        split: prod.splits)
  have "grows q q'"
    using i by (intro grows_infos same_books_fee position_initialize_Ok(1)) (auto simp: position_initialize_def)
  with new_position_behind [OF i] show ?thesis by blast
qed

lemma close_grows:
  assumes "handle_close_position acc nft q p = Ok q'" shows "grows q q'"
proof -
  have "\<exists>m. q' = q\<lparr>pl_metrics := m\<rparr>"
    using assms by (auto simp: handle_close_position_def rbind_Ok_iff require_Ok_iff Let_def)
  then show ?thesis by (auto intro!: grows_infos simp: side_defs split: side.split)
qed

lemma behind_split:
  assumes b: "behind q p1" "behind q p2"
    and h: "handle_split_position2 clk q p1 p2 params = Ok (q', p1', p2', info)"
  shows "grows q q' \<and> behind q' p1' \<and> behind q' p2'"
proof -
  obtain r1 r2 nu np na nb n0 n1 where
    q': "pool_update_rewards q (unix_timestamp clk) = Ok q'" and
    r: "update_position_reward p1 q' = Ok r1" "update_position_reward p2 q' = Ok r2" and
    sp: "apply_split_position q' r1 r2 nu np na nb n0 n1 = Ok (p1', p2', info)"
    using h by (auto simp: handle_split_position2_def rbind_Ok_iff require_Ok_iff)
  obtain s1 s2 where u: "update_fee r1 (pl_fee_a_per_liquidity q') (pl_fee_b_per_liquidity q') = Ok s1"
    "update_fee r2 (pl_fee_a_per_liquidity q') (pl_fee_b_per_liquidity q') = Ok s2"
    and m: "moved s1 s2 p1' p2'" by (rule apply_split_position_effect [OF sp])
  note g = grows_update [OF q']
  have "behind q' s1" "behind q' s2"
    using behind_update_fee [OF _ u(1)] behind_update_fee [OF _ u(2)]
      behind_position_reward [OF behind_grows [OF b(1) g] r(1)]
      behind_position_reward [OF behind_grows [OF b(2) g] r(2)] by blast+
  then show ?thesis using behind_moved [OF m] g by blast
qed

lemma behind_claim_reward:
  assumes "behind q p" and h: "handle_claim_reward clk acc mint q vault p i skip = Ok (q', vault', p', x)"
  shows "grows q q' \<and> behind q' p'"
proof -
  obtain p1 where u: "position_update_rewards p q (unix_timestamp clk) = Ok (q', p1)"
    and c: "claim_reward p1 (unat i) = Ok (p', x)"
    using h by (auto simp: handle_claim_reward_def rbind_Ok_iff require_Ok_iff split: if_splits)
  note b = behind_position_update [OF assms(1) u]
  have "reward_checkpoint p' j = reward_checkpoint p1 j" "checkpoint s p' = checkpoint s p1" for j s
    using c by (auto simp: claim_reward_def get_total_reward_def rbind_Ok_iff arr2_get_Ok_iff
        reward_checkpoint_def user_reward_at_def checkpoint_def split: side.split)
  then show ?thesis using b by (simp add: behind_def)
qed

text \<open>The instructions of a reward.\<close>

lemma funding_keeps_stored:
  "funding_total r amt cf = Ok (r1, am) \<Longrightarrow> update_rate_after_funding r1 t am = Ok r2 \<Longrightarrow>
    rw_reward_per_token_stored r2 = rw_reward_per_token_stored r"
  by (auto simp: funding_total_def update_rate_after_funding_def rbind_Ok_iff require_Ok_iff
      split: if_splits)

lemma reward_handlers_grow:
  "handle_fund_reward clk t funder q rv0 i x cf = Ok (q', rv) \<Longrightarrow> grows q q'"
  "handle_withdraw_ineligible_reward clk t funder q rv0 i = Ok (q', rv, y) \<Longrightarrow> grows q q'"
  "handle_initialize_reward mint rem signer vk q i d funder = Ok q' \<Longrightarrow> grows q q'"
  "handle_update_reward_duration clk rem signer q i d = Ok q' \<Longrightarrow> grows q q'"
  "handle_update_reward_funder rem signer q i funder = Ok q' \<Longrightarrow> grows q q'"
proof -
  show "grows q q'" if h: "handle_fund_reward clk t funder q rv0 i x cf = Ok (q', rv)"
  proof -
    obtain e q1 r1 am r2 w where i: "unat i < 2" and "reward_initialized (reward_at q (unat i))"
      and "calculate_transfer_fee_excluded_amount t x = Ok e" and u: "pool_update_rewards q (unix_timestamp clk) = Ok q1"
      and f: "funding_total (reward_at q1 (unat i)) (xe_amount e) cf = Ok (r1, am)"
      and r: "update_rate_after_funding r1 (unix_timestamp clk) am = Ok r2"
      and "transfer_from_user t (rv_amount rv0) x = Ok w" and "rv = rv0\<lparr>rv_amount := w\<rparr>"
      and q': "q' = q1\<lparr>pl_reward_infos := arr2_set (pl_reward_infos q1) (unat i) r2\<rparr>"
      by (rule handle_fund_reward_Ok [OF h])
    show ?thesis unfolding q'
      by (rule grows_trans [OF grows_update [OF u] grows_edit [OF i funding_keeps_stored [OF f r]]])
  qed
  show "grows q q'" if h: "handle_withdraw_ineligible_reward clk t funder q rv0 i = Ok (q', rv, y)"
  proof -
    obtain q1 where i: "unat i < 2" and u: "pool_update_rewards q (unix_timestamp clk) = Ok q1"
      and c: "claim_ineligible_reward q1 (unat i) = Ok (q', y)"
      by (rule handle_withdraw_ineligible_reward_Ok [OF h])
    show ?thesis unfolding claim_ineligible_reward_Ok(2) [OF c]
      by (rule grows_trans [OF grows_update [OF u] grows_edit [OF i]]) simp
  qed
  show "grows q q'" if h: "handle_initialize_reward mint rem signer vk q i d funder = Ok q'"
    by (rule handle_initialize_reward_Ok [OF h]) (simp add: grows_edit init_reward_def)
  show "grows q q'" if h: "handle_update_reward_duration clk rem signer q i d = Ok q'"
  proof -
    have "unat i < 2" and q': "q' = q\<lparr>pl_reward_infos := arr2_set (pl_reward_infos q) (unat i)
        ((reward_at q (unat i))\<lparr>rw_reward_duration := d\<rparr>)\<rparr>"
      using h by (simp_all only: handle_update_reward_duration_def rbind_Ok_iff arr2_get_reward sum.inject)
        blast+
    then show ?thesis by (simp add: grows_edit)
  qed
  show "grows q q'" if h: "handle_update_reward_funder rem signer q i funder = Ok q'"
  proof -
    have "unat i < 2" and q': "q' = q\<lparr>pl_reward_infos := arr2_set (pl_reward_infos q) (unat i)
        ((reward_at q (unat i))\<lparr>rw_funder := funder\<rparr>)\<rparr>"
      using h by (simp_all only: handle_update_reward_funder_def rbind_Ok_iff arr2_get_reward sum.inject)
        blast+
    then show ?thesis by (simp add: grows_edit)
  qed
qed

text \<open>The instructions of operators and of the partner leave the accumulators alone.\<close>

lemma operator_handlers_grow:
  "ix_claim_protocol_fee oper signer cc q v ma mb = Ok (q', v', x, y) \<Longrightarrow> grows q q'"
  "handle_claim_partner_fee ta tb partner q v ma mb = Ok (q', v', x, y) \<Longrightarrow> grows q q'"
  "ix_set_pool_status oper signer q st = Ok q' \<Longrightarrow> grows q q'"
  "ix_update_pool_fees oper signer clk q params = Ok q' \<Longrightarrow> grows q q'"
  "zap_protocol_fee oper signer zc q v xm = Ok (q', v', z) \<Longrightarrow> grows q q'"
proof -
  have claims: "fee_per_liquidity s q1 = fee_per_liquidity s q"
    if "claim_protocol_fee q ma mb = Ok (q1, x, y) \<or> claim_partner_fee q ma mb = Ok (q1, x, y)" for s q1 ma mb x y
    using that by (cases s) (auto simp: claim_protocol_fee_def claim_partner_fee_def rbind_Ok_iff Let_def side_defs)
  show "grows q q'" if h: "ix_claim_protocol_fee oper signer cc q v ma mb = Ok (q', v', x, y)"
  proof -
    have "claim_protocol_fee q ma mb = Ok (q', x, y)"
      using h by (auto simp: ix_claim_protocol_fee_def handle_claim_protocol_fee_def rbind_Ok_iff split: if_splits)
    then show ?thesis by (intro grows_infos operator_handlers_infos(1) [OF h] claims) blast
  qed
  show "grows q q'" if h: "handle_claim_partner_fee ta tb partner q v ma mb = Ok (q', v', x, y)"
  proof -
    have "claim_partner_fee q ma mb = Ok (q', x, y)"
      using h by (auto simp: handle_claim_partner_fee_def rbind_Ok_iff split: if_splits)
    then show ?thesis by (intro grows_infos operator_handlers_infos(2) [OF h] claims) blast
  qed
  show "grows q q'" if h: "ix_set_pool_status oper signer q st = Ok q'"
    using h by (intro grows_infos same_books_fee operator_handlers_infos(3) [OF h])
      (auto simp: ix_set_pool_status_def rbind_Ok_iff dest: set_pool_status_books)
  show "grows q q'" if h: "ix_update_pool_fees oper signer clk q params = Ok q'"
    using h by (intro grows_infos same_books_fee operator_handlers_infos(4) [OF h])
      (auto simp: ix_update_pool_fees_def rbind_Ok_iff dest: update_pool_fees_books)
  show "grows q q'" if h: "zap_protocol_fee oper signer zc q v xm = Ok (q', v', z)"
  proof -
    obtain is_a m x paired where c: "zap_claim (zc_ids zc) q is_a m = Ok (q', x, paired)"
      using h by (auto simp: zap_protocol_fee_def rbind_Ok_iff elim: handle_zap_protocol_fee_Ok)
    obtain a b where "q' = q\<lparr>pl_protocol_a_fee := a, pl_protocol_b_fee := b\<rparr>" using zap_claim_Ok(3) [OF c] by blast
    then show ?thesis by (auto intro!: grows_infos simp: side_defs split: side.split)
  qed
qed

section \<open>Every step\<close>

lemma market_step_behind:
  assumes "market_step m m'" and "market_behind m"
  shows "market_behind m'"
  using assms
proof (induction rule: market_step.induct)
  case (swap ids clk tx ta tb accounts m params q v r)
  have "p_handle_swap (swap_context_of ids clk tx ta tb accounts) (mk_pool m) (mk_vaults m) params =
    Ok (q, v, r)" using swap(1) by (auto simp: swap_instruction_def rbind_Ok_iff)
  then show ?case by (intro market_behind_pool [OF swap(4)]) (simp_all add: grows_swap)
next
  case (add m k p ctx al q v p' ch)
  note b = behind_add [OF market_behind_at [OF add(5,1)] add(2)]
  show ?case by (rule market_behind_position [OF add(5), where k = k and p' = p'])
      (use b in \<open>simp_all del: fun_upd_apply\<close>)
next
  case (remove m k p ctx d ma mb q v p' ch)
  note b = behind_remove [OF market_behind_at [OF remove(5,1)] remove(2)]
  show ?case by (rule market_behind_position [OF remove(5), where k = k and p' = p'])
      (use b in \<open>simp_all del: fun_upd_apply\<close>)
next
  case (claim_position_fee m k p ctx v p' a b)
  note b = behind_claim_fee [OF market_behind_at [OF claim_position_fee(5,1)] claim_position_fee(2-4)]
  show ?case by (rule market_behind_position [OF claim_position_fee(5), where k = k and p' = p'])
      (use b in \<open>simp_all del: fun_upd_apply\<close>)
next
  case (create_position m k clk nft pool_key mint q p')
  note b = behind_create [OF create_position(2)]
  show ?case by (rule market_behind_position [OF create_position(3), where k = k and p' = p'])
      (use b in \<open>simp_all del: fun_upd_apply\<close>)
next
  case (close_position m k p acc nft q)
  note g = close_grows [OF close_position(2)]
  show ?case by (rule market_behind_step [OF close_position(3)]) (use g in \<open>auto split: if_splits\<close>)
next
  case (lock_position m k p kv clk acc vp p' vst)
  have "same_fees p p'"
    using lock_position(3) by (auto simp: handle_lock_position_def lock_position_def rbind_Ok_iff
        require_Ok_iff Let_def dest: lock_same_fees)
  from behind_same [OF market_behind_at [OF lock_position(4,1)] same_fees_checkpoint [OF this]
      conjunct2 [OF lock_position_infos [OF lock_position(3)]]]
  show ?case by (intro market_behind_position [OF lock_position(4), where k = k and p' = p'])
      (simp_all del: fun_upd_apply)
next
  case (refresh_vesting m k p clk acc ks vs p')
  have "same_fees p p'"
    using refresh_vesting(2) by (auto simp: handle_refresh_vesting_def refresh_vesting_def rbind_Ok_iff
        dest: refresh_vestings_same_fees)
  from behind_same [OF market_behind_at [OF refresh_vesting(3,1)] same_fees_checkpoint [OF this]
      conjunct2 [OF refresh_vesting_infos [OF refresh_vesting(2)]]]
  show ?case by (intro market_behind_position [OF refresh_vesting(3), where k = k and p' = p'])
      (simp_all del: fun_upd_apply)
next
  case (permanent_lock m k p clk acc x q p')
  have f: "same_fees p p'" and s: "same_books (mk_pool m) q"
    using permanent_lock(2) by (auto simp: handle_permanent_lock_position_def rbind_Ok_iff require_Ok_iff
        accumulate_permanent_locked_liquidity_def same_books_def dest: permanent_lock_same_fees)
  note i = permanent_lock_infos [OF permanent_lock(2)]
  have g: "grows (mk_pool m) q" by (rule grows_infos) (use s i in \<open>simp_all add: same_books_fee\<close>)
  have "behind (mk_pool m) p'"
    by (rule behind_same [OF market_behind_at [OF permanent_lock(3,1)] same_fees_checkpoint [OF f]])
      (simp add: i)
  from behind_grows [OF this g] show ?case
    by (intro market_behind_position [OF permanent_lock(3), where k = k and p' = p'])
      (simp_all add: g del: fun_upd_apply)
next
  case (split_position m k1 p1 k2 p2 clk sp q p1' p2' info)
  note b = behind_split [OF market_behind_at [OF split_position(5,1)]
      market_behind_at [OF split_position(5,2)] split_position(4)]
  show ?case by (rule market_behind_step [OF split_position(5)]) (use b in \<open>auto split: if_splits\<close>)
next
  case (claim_reward m k p clk acc t i skip q rv' p' x)
  note b = behind_claim_reward [OF market_behind_at [OF claim_reward(4,1)] claim_reward(2)]
  show ?case by (rule market_behind_position [OF claim_reward(4), where k = k and p' = p'])
      (use b in \<open>simp_all del: fun_upd_apply\<close>)
next
  case (fund_reward clk t funder m i x cf q rv')
  show ?case by (rule market_behind_pool [OF fund_reward(3)])
      (simp_all add: reward_handlers_grow(1) [OF fund_reward(1)])
next
  case (withdraw_ineligible_reward clk t funder m i q rv' x)
  show ?case by (rule market_behind_pool [OF withdraw_ineligible_reward(3)])
      (simp_all add: reward_handlers_grow(2) [OF withdraw_ineligible_reward(1)])
next
  case (initialize_reward mint rem signer vk m i d funder q frozen)
  show ?case by (rule market_behind_pool [OF initialize_reward(2)])
      (simp_all add: reward_handlers_grow(3) [OF initialize_reward(1)])
next
  case (freeze_reward_vault m i frozen)
  show ?case by (rule market_behind_pool [OF freeze_reward_vault]) simp_all
next
  case (update_reward_duration clk rem signer m i d q)
  show ?case by (rule market_behind_pool [OF update_reward_duration(2)])
      (simp_all add: reward_handlers_grow(4) [OF update_reward_duration(1)])
next
  case (update_reward_funder rem signer m i funder q)
  show ?case by (rule market_behind_pool [OF update_reward_funder(2)])
      (simp_all add: reward_handlers_grow(5) [OF update_reward_funder(1)])
next
  case (set_pool_status oper signer m st q)
  show ?case by (rule market_behind_pool [OF set_pool_status(2)])
      (simp_all add: operator_handlers_grow(3) [OF set_pool_status(1)])
next
  case (update_pool_fees oper signer clk m up q)
  show ?case by (rule market_behind_pool [OF update_pool_fees(2)])
      (simp_all add: operator_handlers_grow(4) [OF update_pool_fees(1)])
next
  case (claim_protocol_fee oper signer cc m xa xb q v a b)
  show ?case by (rule market_behind_pool [OF claim_protocol_fee(4)])
      (simp_all add: operator_handlers_grow(1) [OF claim_protocol_fee(1)])
next
  case (claim_partner_fee ta tb partner m xa xb q v a b)
  show ?case by (rule market_behind_pool [OF claim_partner_fee(4)])
      (simp_all add: operator_handlers_grow(2) [OF claim_partner_fee(1)])
next
  case (zap_protocol_fee oper signer zc m xm q v x)
  show ?case by (rule market_behind_pool [OF zap_protocol_fee(3)])
      (simp_all add: operator_handlers_grow(5) [OF zap_protocol_fee(1)])
qed

lemma market_init_behind:
  assumes "market_init m" shows "market_behind m"
  using assms
proof (rule market_init_new)
  fix q0 key mint l k p
  assume "position_initialize q0 key mint l = (mk_pool m, p)" and "mk_positions m = Map.empty(k := Some p)"
  then show ?thesis using new_position_behind by (simp add: market_behind_def)
qed

interpretation checkpoint_run: invariant market_init market_step market_behind
  by unfold_locales (auto intro: market_init_behind market_step_behind)

lemma reachable_behind: "reachable m \<Longrightarrow> mk_positions m k = Some p \<Longrightarrow> behind (mk_pool m) p"
  using checkpoint_run.always unfolding reachable_def by (auto simp: market_behind_def)

end
