(* ===== verification/Withdrawal.thy ===== *)
theory Withdrawal
  imports Checkpoints
begin

text \<open>
  Progress: in every state that can be reached, the owner of a position can take out its unlocked
  liquidity and collect its fees. None of the checked operations on the way fails: what the amounts are
  computed from is covered by the vaults, so it fits into 64 bits, and no checkpoint is ahead of its
  accumulator.

  Tokens are outside of the program; what is relied on is \<open>pays_out\<close>: a transfer of what the vault
  holds succeeds, and the transfer fee can be computed.
\<close>

declare of_nat_unat [simp del]

definition pays_out :: "token \<Rightarrow> bool" where
  "pays_out t \<longleftrightarrow> (\<forall>v x. unat x \<le> unat v \<longrightarrow> (\<exists>v'. transfer_from_pool t v x = Ok v')) \<and>
     (\<forall>x. \<exists>e. calculate_transfer_fee_excluded_amount t x = Ok e)"

lemma safe_sub_total: "unat x \<le> unat v \<Longrightarrow> \<exists>v'. safe_sub v x = Ok v'"
  by (simp add: safe_sub_def checked_sub_def word_le_nat_alt)

lemma plain_token_pays_out: "pays_out plain_token"
  by (auto simp: safe_sub_total pays_out_def plain_token_def transfer_from_pool_def
      calculate_transfer_fee_excluded_amount_def)

lemma fee_token_pays_out: "pays_out fee_token"
proof -
  have "x div 100 \<le> x" for x :: u64 by (simp add: word_le_nat_alt unat_div)
  then show ?thesis
    by (auto simp: safe_sub_total pays_out_def fee_token_def transfer_from_pool_def ok_or_def checked_sub_def
        calculate_transfer_fee_excluded_amount_def)
qed

lemma ex_word: "n < 2 ^ LENGTH('a::len) \<Longrightarrow> \<exists>z :: 'a word. unat z = n"
  using unat_of_nat_small by blast

section \<open>Accruing fees and rewards\<close>

lemma accrued:
  "(x * 2 ^ k + y) div 2 ^ k = x + y div 2 ^ k" for x y k :: nat
  by (simp add: div_add1_eq)

lemma accrue_fee_total:
  assumes "unat c \<le> unat st" and "(unat pend * 2 ^ 128 + unat l * (unat st - unat c)) div 2 ^ 128 < 2 ^ 64"
  shows "\<exists>z. accrue_fee l st c pend = Ok z"
proof -
  have "unat pend + unat l * (unat st - unat c) div 2 ^ 128 < 2 ^ LENGTH(64)"
    using assms(2) unfolding accrued by simp
  then obtain z :: u64 where "unat z = unat pend + unat l * (unat st - unat c) div 2 ^ 128"
    using ex_word by blast
  then show ?thesis using assms(1) by (auto simp: accrue_fee_iff)
qed

lemma update_fee_total:
  assumes b: "behind q p" and l: "liq p < 2 ^ 128" and o: "\<And>s. owed s q p div 2 ^ 128 < 2 ^ 64"
  obtains p' where "update_fee p (pl_fee_a_per_liquidity q) (pl_fee_b_per_liquidity q) = Ok p'"
    and "\<And>s. unat (pending s p') = owed s q p div 2 ^ 128"
proof -
  obtain n :: u128 where n: "unat n = liq p" using ex_word [where 'a = 128] l by auto
  have t: "get_total_liquidity p = Ok n" by (simp add: get_total_liquidity_iff n)
  have c: "unat (ps_fee_a_per_token_checkpoint p) \<le> unat (pl_fee_a_per_liquidity q)"
    "unat (ps_fee_b_per_token_checkpoint p) \<le> unat (pl_fee_b_per_liquidity q)"
    using b [unfolded behind_def, THEN conjunct1, rule_format, of A]
      b [unfolded behind_def, THEN conjunct1, rule_format, of B] by (simp_all add: side_defs)
  obtain x y where "accrue_fee n (pl_fee_a_per_liquidity q) (ps_fee_a_per_token_checkpoint p)
      (ps_fee_a_pending p) = Ok x"
    and "accrue_fee n (pl_fee_b_per_liquidity q) (ps_fee_b_per_token_checkpoint p)
      (ps_fee_b_pending p) = Ok y"
    using accrue_fee_total [OF c(1), of "ps_fee_a_pending p" n] accrue_fee_total [OF c(2), of "ps_fee_b_pending p" n]
      o [of A] o [of B] by (auto simp: n owed_def earned_def side_defs)
  then have "\<exists>p'. update_fee p (pl_fee_a_per_liquidity q) (pl_fee_b_per_liquidity q) = Ok p'"
    by (cases "0 < n") (auto simp: update_fee_def t)
  then obtain p' where u: "update_fee p (pl_fee_a_per_liquidity q) (pl_fee_b_per_liquidity q) = Ok p'"
    by blast
  have "unat (pending s p') = owed s q p div 2 ^ 128" for s
    using update_fee_effect(4-6) [OF u]
    by (cases s; cases "liq p = 0") (simp_all add: owed_def earned_def side_defs accrued)
  with u show thesis by (rule that)
qed

lemma update_one_reward_total:
  assumes "unat (ur_reward_per_token_checkpoint u) \<le> unat (rw_reward_per_token_stored r)"
    and "reward_initialized r \<Longrightarrow> (unat (ur_reward_pendings u) * 2 ^ 192 +
      unat l * (unat (rw_reward_per_token_stored r) - unat (ur_reward_per_token_checkpoint u))) div 2 ^ 192 < 2 ^ 64"
  shows "\<exists>u'. update_one_position_reward l r u = Ok u'"
proof (cases "reward_initialized r")
  case True
  let ?d = "unat (rw_reward_per_token_stored r) - unat (ur_reward_per_token_checkpoint u)"
  have f: "unat (ur_reward_pendings u) + unat l * ?d div 2 ^ 192 < 2 ^ LENGTH(64)"
    using assms(2) [OF True] unfolding accrued by simp
  obtain z :: u64 where z: "unat z = unat (ur_reward_pendings u) + unat l * ?d div 2 ^ 192"
    using ex_word [OF f] by blast
  obtain d :: u256 and n :: u64 where "unat (rw_reward_per_token_stored r) = unat d + unat (ur_reward_per_token_checkpoint u)"
    and "unat n = unat l * unat d div 2 ^ 192" and "unat z = unat n + unat (ur_reward_pendings u)"
    using accrue_iff [of "rw_reward_per_token_stored r" "ur_reward_per_token_checkpoint u"
        "\<lambda>d. unat l * d div 2 ^ 192" z "ur_reward_pendings u"] z assms(1) by blast
  then have "safe_sub (rw_reward_per_token_stored r) (ur_reward_per_token_checkpoint u) = Ok d"
    and "safe_mul_shr_256_cast (ucast l) d TOTAL_REWARD_SCALE = Ok n" and "safe_add n (ur_reward_pendings u) = Ok z"
    by (simp_all add: ok_iffs TOTAL_REWARD_SCALE_def)
  then show ?thesis using True by (simp add: update_one_position_reward_def user_update_rewards_def)
qed (simp add: update_one_position_reward_def)

lemma update_position_reward_total:
  assumes b: "behind q p" and l: "liq p < 2 ^ 128"
    and o: "\<And>i. i < 2 \<Longrightarrow> reward_initialized (reward_at q i) \<Longrightarrow> reward_owed i q p div 2 ^ 192 < 2 ^ 64"
  shows "\<exists>p'. update_position_reward p q = Ok p'"
proof -
  obtain n :: u128 where n: "unat n = liq p" using ex_word [where 'a = 128] l by auto
  have t: "get_total_liquidity p = Ok n" by (simp add: get_total_liquidity_iff n)
  have "\<exists>u. update_one_position_reward n (reward_at q i) (user_reward_at p i) = Ok u" if "i < 2" for i
  proof (rule update_one_reward_total)
    show "unat (ur_reward_per_token_checkpoint (user_reward_at p i)) \<le> unat (rw_reward_per_token_stored (reward_at q i))"
      using b by (simp add: behind_def reward_checkpoint_def stored_at_def)
  qed (use o [OF that] in \<open>simp add: reward_owed_def n\<close>)
  from this [of 0] this [of 1] show ?thesis
    by (auto simp: update_position_reward_def t reward_at_def user_reward_at_def)
qed

section \<open>What a state that can be reached allows\<close>

lemma reachable_sizes:
  assumes m: "reachable m" and k: "mk_positions m k = Some p"
  shows "liq p \<le> unat (pl_liquidity (mk_pool m))" and "liq p < 2 ^ 128"
    and "owed s (mk_pool m) p div 2 ^ 128 \<le> balance s (mk_vaults m)"
    and "reserve s (pl_liquidity (mk_pool m)) (mk_pool m) \<le> real (balance s (mk_vaults m))"
    and "wf_prices (mk_pool m)"
proof -
  have b: "finite (dom (mk_positions m))" "unat (pl_liquidity (mk_pool m)) = total_over liq (mk_positions m)"
    "wf_prices (mk_pool m)"
    using reachable_books [OF m] by (simp_all add: market_books_def books_def)
  show l: "liq p \<le> unat (pl_liquidity (mk_pool m))" using total_over_member [OF b(1) k, of liq] b(2) by simp
  then show "liq p < 2 ^ 128" using unat_bounds(5) [of "pl_liquidity (mk_pool m)"] by simp
  show "owed s (mk_pool m) p div 2 ^ 128 \<le> balance s (mk_vaults m)"
    using liability_covers(2) [OF reachable_books [OF m] k, of s] by linarith
  have "0 \<le> real (total_over (owed s (mk_pool m)) (mk_positions m)) / 2 ^ 128" by simp
  then show "reserve s (pl_liquidity (mk_pool m)) (mk_pool m) \<le> real (balance s (mk_vaults m))"
    using reachable_solvent [OF m, of s] unfolding liability_def by linarith
  show "wf_prices (mk_pool m)" by (rule b(3))
qed

lemma balance_fits: "balance s v < 2 ^ 64"
  using unat_bounds(4) [of "va_token_a v"] unat_bounds(4) [of "va_token_b v"]
  by (cases s) (simp_all add: balance_def)

lemma reachable_update_rewards:
  assumes m: "reachable m" and k: "mk_positions m k = Some p"
    and u: "pool_update_rewards (mk_pool m) t = Ok q"
  shows "\<exists>r. position_update_rewards p (mk_pool m) t = Ok r"
proof (cases "pool_reward_initialized (mk_pool m)")
  case True
  note s = rewards_step [OF reachable_rewards [OF m]]
  have kept: "rewards_kept (mk_pool m) (mk_positions m) q (mk_positions m)" by (rule kept_update [OF s(1,2) u s(3)])
  have "reward_owed i q p div 2 ^ 192 < 2 ^ 64" if i: "i < 2" "reward_initialized (reward_at q i)" for i
  proof -
    have "reward_owed i q p \<le> reward_liability i q (mk_positions m)"
      using total_over_member [OF s(1) k, of "reward_owed i q"] by (simp add: reward_liability_def)
    also have "\<dots> \<le> reward_liability i (mk_pool m) (mk_positions m)" using kept by (simp add: rewards_kept_def)
    also have "\<dots> \<le> unat (rv_amount (mk_reward_vaults m i)) * 2 ^ 192"
      by (rule reward_vault_covers [OF m i(1)]) (use i(2) kept in \<open>simp add: rewards_kept_def\<close>)
    finally have "reward_owed i q p div 2 ^ 192 \<le> unat (rv_amount (mk_reward_vaults m i))"
      using div_le_mono [of "reward_owed i q p" "unat (rv_amount (mk_reward_vaults m i)) * 2 ^ 192" "2 ^ 192"]
      by simp
    then show ?thesis using unat_bounds(4) [of "rv_amount (mk_reward_vaults m i)"] by simp
  qed
  from update_position_reward_total [OF behind_grows [OF reachable_behind [OF m k] grows_update [OF u]]
      reachable_sizes(2) [OF m k] this]
  show ?thesis using u True by (auto simp: position_update_rewards_def)
qed (simp add: position_update_rewards_def)

section \<open>The amounts of a change of liquidity\<close>

lemma floor_of_quotient: "\<lfloor>real m / real n\<rfloor> = int (m div n)"
  by (simp add: floor_divide_of_nat_eq)

lemma floor_fits:
  assumes "real m / real n < 2 ^ 64" obtains z :: u64 where "unat z = m div n" and "int (unat z) = \<lfloor>real m / real n\<rfloor>"
proof -
  have "real (m div n) \<le> real m / real n" by (rule of_nat_div_le_of_nat)
  then have "real (m div n) < real (2 ^ 64)" using assms by simp
  then have "m div n < 2 ^ LENGTH(64)" by (simp only: of_nat_less_iff) simp
  then obtain z :: u64 where z: "unat z = m div n" using ex_word by blast
  show thesis by (rule that [OF z]) (simp add: z floor_of_quotient)
qed

lemma modify_liquidity_total:
  assumes wf: "wf_prices q" and r: "\<And>s. reserve s l q < 2 ^ 64"
  obtains a b where "get_delta_amount_a_unsigned (pl_sqrt_price q) (pl_sqrt_max_price q) l Down = Ok a"
    and "get_delta_amount_b_unsigned (pl_sqrt_min_price q) (pl_sqrt_price q) l Down = Ok b"
    and "\<And>s. int (amount s a b) = \<lfloor>reserve s l q\<rfloor>"
proof -
  let ?p = "unat (pl_sqrt_price q)" and ?lo = "unat (pl_sqrt_min_price q)" and ?hi = "unat (pl_sqrt_max_price q)"
  have p: "0 < ?p" "?p \<le> ?hi" "?lo \<le> ?p" using wf by (simp_all add: wf_prices_def)
  have ra: "reserve A l q = real (unat l * (?hi - ?p)) / real (?p * ?hi)"
    by (simp only: reserve_def side.case reserve_a_def virtual_a_diff [OF p(1,2)])
  have rb: "reserve B l q = real (unat l * (?p - ?lo)) / real (2 ^ 128)"
    by (simp only: reserve_def side.case reserve_b_def virtual_b_diff [OF p(3)])
  obtain a :: u64 where a: "unat a = unat l * (?hi - ?p) div (?p * ?hi)" "int (unat a) = \<lfloor>reserve A l q\<rfloor>"
    unfolding ra by (rule floor_fits [OF r [of A, unfolded ra]])
  obtain b :: u64 where b: "unat b = unat l * (?p - ?lo) div 2 ^ 128" "int (unat b) = \<lfloor>reserve B l q\<rfloor>"
    unfolding rb by (rule floor_fits [OF r [of B, unfolded rb]])
  have "get_delta_amount_a_unsigned (pl_sqrt_price q) (pl_sqrt_max_price q) l Down = Ok a"
    using a(1) p by (simp add: delta_a_iff)
  moreover have "get_delta_amount_b_unsigned (pl_sqrt_min_price q) (pl_sqrt_price q) l Down = Ok b"
    using b(1) p by (simp add: delta_b_iff)
  moreover have "int (amount s a b) = \<lfloor>reserve s l q\<rfloor>" for s
    using a(2) b(2) by (cases s) (simp_all add: amount_def)
  ultimately show thesis by (rule that)
qed

lemma reserve_mono:
  assumes "wf_prices q" and "unat l \<le> unat l'" shows "reserve s l q \<le> reserve s l' q"
proof -
  have "unat l' = unat l + unat (l' - l)" using assms(2) by (simp add: unat_sub word_le_unat)
  from reserve_of_sum [OF this, of s q] show ?thesis
    using reserve_nonneg [OF assms(1), of "l' - l"] by (cases s) (simp_all add: reserve_def)
qed

section \<open>Taking out liquidity\<close>

lemma access_total:
  assumes "get_current_point clk (pl_activation_type q) = Ok point" and "pl_activation_point q \<le> point"
  shows "\<exists>av. get_pool_access_validator clk q = Ok av \<and> can_remove_liquidity av"
proof -
  obtain t where t: "activation_type_of_u8 (pl_activation_type q) = Some t"
    and pt: "point = (case t of Slot \<Rightarrow> slot clk | Timestamp \<Rightarrow> unix_timestamp clk)"
    using assms(1) by (auto simp: get_current_point_def ok_iffs)
  have s: "\<exists>z. (if b \<le> pl_activation_point q then safe_sub (pl_activation_point q) b else Ok 0) = Ok z" for b
    using safe_sub_total [of b "pl_activation_point q"] by (simp add: word_le_unat)
  show ?thesis
    unfolding get_pool_access_validator_def t ok_or_simps rbind_simps Let_def can_remove_liquidity_def
    using assms(2) s [of SLOT_BUFFER] s [of TIME_BUFFER] by (cases t) (auto simp: pt)
qed

lemma remove_total:
  assumes "update_fee p (pl_fee_a_per_liquidity q) (pl_fee_b_per_liquidity q) = Ok p1"
    and "d \<le> ps_unlocked_liquidity p" and "d \<le> pl_liquidity q"
  shows "apply_remove_liquidity q p d =
    Ok (q\<lparr>pl_liquidity := pl_liquidity q - d\<rparr>, p1\<lparr>ps_unlocked_liquidity := ps_unlocked_liquidity p - d\<rparr>)"
proof -
  have "ps_unlocked_liquidity p1 = ps_unlocked_liquidity p"
    by (subst update_fee_effect(1) [OF assms(1)]) simp
  then show ?thesis using assms
    by (simp add: apply_remove_liquidity_def remove_unlocked_liquidity_def safe_sub_def checked_sub_def)
qed

lemma position_update_rewards_unlocked:
  "position_update_rewards p q t = Ok (q', p') \<Longrightarrow> ps_unlocked_liquidity p' = ps_unlocked_liquidity p"
  by (auto simp: position_update_rewards_def update_position_reward_def rbind_Ok_iff split: if_splits)

lemma covered_amount:
  assumes "int (amount s a b) = \<lfloor>r\<rfloor>" and "r \<le> real (balance s v)"
  shows "amount s a b \<le> balance s v"
proof -
  have "\<lfloor>r\<rfloor> \<le> int (balance s v)" using assms(2) floor_mono [of r "real (balance s v)"] by simp
  then show ?thesis using assms(1) by linarith
qed

lemma transfers_total:
  assumes "pays_out ta" "pays_out tb" and "\<And>s. amount s a b \<le> balance s v"
  obtains va vb where "transfer_from_pool ta (va_token_a v) a = Ok va"
    and "transfer_from_pool tb (va_token_b v) b = Ok vb"
proof -
  have "unat a \<le> unat (va_token_a v)" "unat b \<le> unat (va_token_b v)"
    using assms(3) [of A] assms(3) [of B] by (simp_all add: amount_def balance_def)
  then show thesis using assms(1,2) that unfolding pays_out_def by blast
qed

text \<open>The position is brought up to date, and the amounts of any part of its liquidity are covered.\<close>

lemma reachable_settle:
  assumes m: "reachable m" and k: "mk_positions m k = Some p" and rew: "pool_update_rewards (mk_pool m) t = Ok q0"
  obtains q1 p1 p2 where "position_update_rewards p (mk_pool m) t = Ok (q1, p1)" and "same_books (mk_pool m) q1"
    and "update_fee p1 (pl_fee_a_per_liquidity q1) (pl_fee_b_per_liquidity q1) = Ok p2"
    and "ps_unlocked_liquidity p1 = ps_unlocked_liquidity p"
proof -
  obtain q1 p1 where r: "position_update_rewards p (mk_pool m) t = Ok (q1, p1)"
    using reachable_update_rewards [OF m k rew] by (metis prod.exhaust)
  have sb: "same_books (mk_pool m) q1" and sf: "same_fees p p1" using position_update_rewards_books [OF r] by simp_all
  have "owed s q1 p1 = owed s (mk_pool m) p" for s using same_books_owed [OF sb] same_fees_owed [OF sf] by simp
  then have fits: "owed s q1 p1 div 2 ^ 128 < 2 ^ 64" for s
    using order.strict_trans1 [OF reachable_sizes(3) [OF m k] balance_fits] by simp
  obtain p2 where "update_fee p1 (pl_fee_a_per_liquidity q1) (pl_fee_b_per_liquidity q1) = Ok p2"
    by (rule update_fee_total [OF behind_position_update(2) [OF reachable_behind [OF m k] r] _ fits])
      (use reachable_sizes(2) [OF m k] sf in \<open>simp add: same_fees_def\<close>)
  with r sb show thesis by (rule that) (rule position_update_rewards_unlocked [OF r])
qed

lemma reachable_amounts:
  assumes m: "reachable m" and k: "mk_positions m k = Some p" and sb: "same_books (mk_pool m) q"
    and l: "unat l \<le> unat (pl_liquidity (mk_pool m))"
  obtains a b where "get_delta_amount_a_unsigned (pl_sqrt_price q) (pl_sqrt_max_price q) l Down = Ok a"
    and "get_delta_amount_b_unsigned (pl_sqrt_min_price q) (pl_sqrt_price q) l Down = Ok b"
    and "\<And>s. int (amount s a b) = \<lfloor>reserve s l (mk_pool m)\<rfloor>"
    and "\<And>s. amount s a b \<le> balance s (mk_vaults m)"
proof -
  note z = reachable_sizes [OF m k]
  have q: "wf_prices q" "reserve s l q = reserve s l (mk_pool m)" for s
    using same_books_parts [OF sb] z(5) by simp_all
  have le: "reserve s l q \<le> real (balance s (mk_vaults m))" for s
    using reserve_mono [OF z(5) l, of s] z(4) [of s] by (simp add: q)
  have "real (balance s (mk_vaults m)) < real (2 ^ 64)" for s by (simp only: of_nat_less_iff balance_fits)
  then have "reserve s l q < 2 ^ 64" for s using order.strict_trans1 [OF le [of s]] by simp
  then obtain a b where
    ab: "get_delta_amount_a_unsigned (pl_sqrt_price q) (pl_sqrt_max_price q) l Down = Ok a"
      "get_delta_amount_b_unsigned (pl_sqrt_min_price q) (pl_sqrt_price q) l Down = Ok b"
    and am: "\<And>s. int (amount s a b) = \<lfloor>reserve s l q\<rfloor>"
    by (rule modify_liquidity_total [OF q(1)]) blast
  show thesis by (rule that [OF ab am [unfolded q(2)] covered_amount [OF am le]])
qed

theorem withdrawal_succeeds:
  assumes m: "reachable m" and k: "mk_positions m k = Some p"
    and own: "position_constraints (lc_accounts ctx) p = Ok ()"
    and now: "get_current_point (lc_clock ctx) (pl_activation_type (mk_pool m)) = Ok point"
      "pl_activation_point (mk_pool m) \<le> point"
    and pays: "pays_out (lc_token_a ctx)" "pays_out (lc_token_b ctx)"
    and rew: "pool_update_rewards (mk_pool m) (unix_timestamp (lc_clock ctx)) = Ok q0"
    and d: "0 < d" "d \<le> ps_unlocked_liquidity p" "dl = Some d \<or> dl = None \<and> d = ps_unlocked_liquidity p"
    and worth: "1 \<le> reserve w d (mk_pool m)"
  shows "\<exists>q v p' ch. handle_remove_liquidity ctx (mk_pool m) (mk_vaults m) p dl 0 0 = Ok (q, v, p', ch) \<and>
    ps_unlocked_liquidity p' = ps_unlocked_liquidity p - d \<and>
    (\<forall>s. int (amount s (ch_transfer_fee_included_token_a_amount ch) (ch_transfer_fee_included_token_b_amount ch)) =
      \<lfloor>reserve s d (mk_pool m)\<rfloor>)"
proof -
  let ?q = "mk_pool m" and ?v = "mk_vaults m"
  obtain q1 p1 p2 where r: "position_update_rewards p ?q (unix_timestamp (lc_clock ctx)) = Ok (q1, p1)"
    and sb: "same_books ?q q1"
    and u: "update_fee p1 (pl_fee_a_per_liquidity q1) (pl_fee_b_per_liquidity q1) = Ok p2"
    and p1: "ps_unlocked_liquidity p1 = ps_unlocked_liquidity p"
    by (rule reachable_settle [OF m k rew])
  have L: "pl_liquidity q1 = pl_liquidity ?q" by (rule same_books_parts(3) [OF sb])
  have dL: "unat d \<le> unat (pl_liquidity ?q)" using d(2) reachable_sizes(1) [OF m k] by (simp add: word_le_unat liq_def)
  have rm: "apply_remove_liquidity q1 p1 d = Ok (q1\<lparr>pl_liquidity := pl_liquidity q1 - d\<rparr>,
      p2\<lparr>ps_unlocked_liquidity := ps_unlocked_liquidity p - d\<rparr>)"
    using remove_total [OF u, of d] d(2) dL p1 by (simp add: L word_le_unat)
  obtain a b where ab: "get_delta_amount_a_unsigned (pl_sqrt_price q1) (pl_sqrt_max_price q1) d Down = Ok a"
      "get_delta_amount_b_unsigned (pl_sqrt_min_price q1) (pl_sqrt_price q1) d Down = Ok b"
    and am: "\<And>s. int (amount s a b) = \<lfloor>reserve s d ?q\<rfloor>" and cov: "\<And>s. amount s a b \<le> balance s ?v"
    by (rule reachable_amounts [OF m k sb dL]) blast
  have rest: "unat (pl_liquidity q1 - d) \<le> unat (pl_liquidity ?q)" using dL by (simp add: L unat_sub word_le_unat)
  obtain ra rb where
    "get_delta_amount_a_unsigned (pl_sqrt_price q1) (pl_sqrt_max_price q1) (pl_liquidity q1 - d) Down = Ok ra"
    "get_delta_amount_b_unsigned (pl_sqrt_min_price q1) (pl_sqrt_price q1) (pl_liquidity q1 - d) Down = Ok rb"
    by (rule reachable_amounts [OF m k sb rest]) blast
  then have rs: "get_reserves_amount (q1\<lparr>pl_liquidity := pl_liquidity q1 - d\<rparr>) = Ok (ra, rb)"
    by (simp add: get_reserves_amount_def)
  obtain va vb where tr: "transfer_from_pool (lc_token_a ctx) (va_token_a ?v) a = Ok va"
    "transfer_from_pool (lc_token_b ctx) (va_token_b ?v) b = Ok vb"
    by (rule transfers_total [OF pays cov])
  obtain ea eb where ex: "calculate_transfer_fee_excluded_amount (lc_token_a ctx) a = Ok ea"
    "calculate_transfer_fee_excluded_amount (lc_token_b ctx) b = Ok eb"
    using pays unfolding pays_out_def by blast
  obtain av where av: "get_pool_access_validator (lc_clock ctx) ?q = Ok av" "can_remove_liquidity av"
    using access_total [OF now] by blast
  have "1 \<le> \<lfloor>reserve w d ?q\<rfloor>" using worth by (simp add: le_floor_iff)
  then have "1 \<le> amount w a b" unfolding am [symmetric] by linarith
  then have pos: "0 < a \<or> 0 < b" by (cases w) (auto simp: amount_def word_less_unat)
  have dl: "(case dl of Some x \<Rightarrow> x | None \<Rightarrow> ps_unlocked_liquidity p) = d" using d(3) by auto
  show ?thesis
    unfolding handle_remove_liquidity_def dl Let_def
    by (simp add: own av d(1,2) r get_amounts_for_modify_liquidity_def ab pos ex rm tr rs am)
qed

section \<open>Collecting the fees\<close>

text \<open>
  The statistics of what a position has claimed are checked sums of 64 bits; apart from them nothing can
  stand in the way.
\<close>

definition claimed :: "side \<Rightarrow> position \<Rightarrow> nat" where
  "claimed s p = amount s (pm_total_claimed_a_fee (ps_metrics p)) (pm_total_claimed_b_fee (ps_metrics p))"

lemma accumulate_claimed_total:
  assumes "\<And>s. amount s (pm_total_claimed_a_fee m) (pm_total_claimed_b_fee m) + amount s a b < 2 ^ 64"
  shows "\<exists>m'. accumulate_claimed_fee m a b = Ok m'"
proof -
  have "unat (pm_total_claimed_a_fee m) + unat a < 2 ^ LENGTH(64)"
    "unat (pm_total_claimed_b_fee m) + unat b < 2 ^ LENGTH(64)"
    using assms [of A] assms [of B] by (simp_all add: amount_def)
  then show ?thesis by (simp add: accumulate_claimed_fee_def safe_add_no_overflow(1))
qed

theorem fee_collection_succeeds:
  assumes m: "reachable m" and k: "mk_positions m k = Some p"
    and own: "position_constraints (lc_accounts ctx) p = Ok ()"
    and pays: "pays_out (lc_token_a ctx)" "pays_out (lc_token_b ctx)"
    and room: "\<And>s. claimed s p + owed s (mk_pool m) p div 2 ^ 128 < 2 ^ 64"
  shows "\<exists>v p' a b. handle_claim_position_fee ctx (mk_pool m) (mk_vaults m) p = Ok (v, p', a, b) \<and>
    (\<forall>s. amount s a b = owed s (mk_pool m) p div 2 ^ 128 \<and> owed s (mk_pool m) p' = 0)"
proof -
  let ?q = "mk_pool m"
  note z = reachable_sizes [OF m k]
  obtain p1 where u: "update_fee p (pl_fee_a_per_liquidity ?q) (pl_fee_b_per_liquidity ?q) = Ok p1"
    and pend: "\<And>s. unat (pending s p1) = owed s ?q p div 2 ^ 128"
    by (rule update_fee_total [OF reachable_behind [OF m k] z(2) order.strict_trans1 [OF z(3) balance_fits]]) blast
  let ?a = "ps_fee_a_pending p1" and ?b = "ps_fee_b_pending p1"
  have am: "amount s ?a ?b = owed s ?q p div 2 ^ 128" for s
    using pend [of s] by (cases s) (simp_all add: amount_def pending_def)
  have met: "ps_metrics p1 = ps_metrics p" by (subst update_fee_effect(1) [OF u]) simp
  obtain mt where mt: "accumulate_claimed_fee (ps_metrics p1) ?a ?b = Ok mt"
    using accumulate_claimed_total [of "ps_metrics p1" ?a ?b] room by (auto simp: am met claimed_def)
  have "amount s ?a ?b \<le> balance s (mk_vaults m)" for s unfolding am by (rule z(3))
  then obtain va vb where tr: "transfer_from_pool (lc_token_a ctx) (va_token_a (mk_vaults m)) ?a = Ok va"
    "transfer_from_pool (lc_token_b ctx) (va_token_b (mk_vaults m)) ?b = Ok vb"
    by (rule transfers_total [OF pays])
  let ?p' = "reset_pending_fee (p1\<lparr>ps_metrics := mt\<rparr>)"
  have "checkpoint s ?p' = fee_per_liquidity s ?q" "pending s ?p' = 0" for s
    using update_fee_owed(3) [OF u, of s] by (cases s; simp add: reset_pending_fee_def side_defs)+
  then have "owed s ?q ?p' = 0" for s by (simp add: owed_up_to_date)
  then show ?thesis
    by (auto simp: handle_claim_position_fee_def own u mt tr am Let_def)
qed

section \<open>Claims of the protocol and of the partner\<close>

lemma payment_total:
  assumes "pays_out t" and "token_law t" and "unat x \<le> unat v"
  obtains v' where "transfer_from_pool t v x = Ok v'" and "unat v = unat v' + unat x"
  using assms withdraw_effect unfolding pays_out_def by blast

lemma word_difference:
  fixes fee :: "'a::len word"
  assumes "unat fee = unat fee' + unat x"
  shows "fee' = fee - x"
proof -
  have "of_nat (unat fee) = (of_nat (unat fee') + of_nat (unat x) :: 'a word)" by (simp only: assms of_nat_add)
  then have "fee = fee' + x" by (simp add: of_nat_unat)
  then show ?thesis by simp
qed

lemma claims_covered:
  assumes "reachable m"
  shows "unat (pl_protocol_a_fee (mk_pool m)) + unat (pl_partner_a_fee (mk_pool m)) \<le> unat (va_token_a (mk_vaults m))"
    and "unat (pl_protocol_b_fee (mk_pool m)) + unat (pl_partner_b_fee (mk_pool m)) \<le> unat (va_token_b (mk_vaults m))"
  using liability_covers(1) [OF reachable_books [OF assms], of A]
    liability_covers(1) [OF reachable_books [OF assms], of B]
  by (simp_all add: claims_def balance_def)

lemma unat_min_le: "unat (min x y :: 'a::len word) \<le> unat x"
  by (simp add: min_def word_le_nat_alt)

lemma claim_protocol_fee_total: "\<exists>q a b. claim_protocol_fee q0 xa xb = Ok (q, a, b)"
  using safe_sub_total [OF unat_min_le [of "pl_protocol_a_fee q0" xa]]
    safe_sub_total [OF unat_min_le [of "pl_protocol_b_fee q0" xb]]
  by (auto simp: claim_protocol_fee_def Let_def)

lemma claim_partner_fee_total: "\<exists>q a b. claim_partner_fee q0 xa xb = Ok (q, a, b)"
  using safe_sub_total [OF unat_min_le [of "pl_partner_a_fee q0" xa]]
    safe_sub_total [OF unat_min_le [of "pl_partner_b_fee q0" xb]]
  by (auto simp: claim_partner_fee_def Let_def)

lemma protocol_claim_succeeds:
  assumes m: "reachable m"
    and role: "is_valid_operator_role oper signer ClaimProtocolFee = Ok ()"
    and tokens: "pays_out (cl_token_a cc)" "token_law (cl_token_a cc)" "pays_out (cl_token_b cc)"
      "token_law (cl_token_b cc)"
    and dest: "validate_ata_token (cl_token_a_account cc) TREASURY_ID (cl_ata_a cc) = Ok ()"
      "validate_ata_token (cl_token_b_account cc) TREASURY_ID (cl_ata_b cc) = Ok ()"
  obtains q v a b where "ix_claim_protocol_fee oper signer cc (mk_pool m) (mk_vaults m) xa xb = Ok (q, v, a, b)"
    and "a = min (pl_protocol_a_fee (mk_pool m)) xa" "b = min (pl_protocol_b_fee (mk_pool m)) xb"
    and "unat (va_token_a (mk_vaults m)) = unat (va_token_a v) + unat a"
      "unat (va_token_b (mk_vaults m)) = unat (va_token_b v) + unat b"
    and "q = (mk_pool m)\<lparr>pl_protocol_a_fee := pl_protocol_a_fee (mk_pool m) - a,
      pl_protocol_b_fee := pl_protocol_b_fee (mk_pool m) - b\<rparr>"
    and "reachable (m\<lparr>mk_pool := q, mk_vaults := v\<rparr>)"
proof -
  obtain q a b where c: "claim_protocol_fee (mk_pool m) xa xb = Ok (q, a, b)"
    using claim_protocol_fee_total by blast
  note e = claim_protocol_fee_effect [OF c]
  have le: "unat a \<le> unat (va_token_a (mk_vaults m))" "unat b \<le> unat (va_token_b (mk_vaults m))"
    using e(1,2) claims_covered [OF m] by linarith+
  obtain va where va: "transfer_from_pool (cl_token_a cc) (va_token_a (mk_vaults m)) a = Ok va"
    "unat (va_token_a (mk_vaults m)) = unat va + unat a" using payment_total [OF tokens(1,2) le(1)] by blast
  obtain vb where vb: "transfer_from_pool (cl_token_b cc) (va_token_b (mk_vaults m)) b = Ok vb"
    "unat (va_token_b (mk_vaults m)) = unat vb + unat b" using payment_total [OF tokens(3,4) le(2)] by blast
  obtain va' where va': "(if 0 < a then rbind (validate_ata_token (cl_token_a_account cc) TREASURY_ID (cl_ata_a cc))
      (\<lambda>_. transfer_from_pool (cl_token_a cc) (va_token_a (mk_vaults m)) a) else Ok (va_token_a (mk_vaults m))) = Ok va'"
    "unat (va_token_a (mk_vaults m)) = unat va' + unat a"
    using va dest(1) by (cases "0 < a") (simp_all add: word_greater_zero_iff)
  obtain vb' where vb': "(if 0 < b then rbind (validate_ata_token (cl_token_b_account cc) TREASURY_ID (cl_ata_b cc))
      (\<lambda>_. transfer_from_pool (cl_token_b cc) (va_token_b (mk_vaults m)) b) else Ok (va_token_b (mk_vaults m))) = Ok vb'"
    "unat (va_token_b (mk_vaults m)) = unat vb' + unat b"
    using vb dest(2) by (cases "0 < b") (simp_all add: word_greater_zero_iff)
  have h: "ix_claim_protocol_fee oper signer cc (mk_pool m) (mk_vaults m) xa xb =
      Ok (q, \<lparr> va_token_a = va', va_token_b = vb' \<rparr>, a, b)"
    unfolding ix_claim_protocol_fee_def handle_claim_protocol_fee_def role rbind_simps c prod.case va'(1) vb'(1) ..
  have "reachable (m\<lparr>mk_pool := q, mk_vaults := \<lparr> va_token_a = va', va_token_b = vb' \<rparr>\<rparr>)"
    using market_step.claim_protocol_fee [OF h tokens(2,4)] m unfolding reachable_def reachable_from_def
    by (meson rtranclp.rtrancl_into_rtrancl)
  moreover have "q = (mk_pool m)\<lparr>pl_protocol_a_fee := pl_protocol_a_fee (mk_pool m) - a,
      pl_protocol_b_fee := pl_protocol_b_fee (mk_pool m) - b\<rparr>"
    using e(3) unfolding word_difference [OF e(1)] word_difference [OF e(2)] .
  ultimately show thesis using that [OF h e(4,5)] va'(2) vb'(2) by simp
qed

lemma partner_claim_succeeds:
  assumes m: "reachable m"
    and tokens: "pays_out ta" "token_law ta" "pays_out tb" "token_law tb"
  obtains q v a b where
    "handle_claim_partner_fee ta tb (pl_partner (mk_pool m)) (mk_pool m) (mk_vaults m) xa xb = Ok (q, v, a, b)"
    and "a = min (pl_partner_a_fee (mk_pool m)) xa" "b = min (pl_partner_b_fee (mk_pool m)) xb"
    and "unat (va_token_a (mk_vaults m)) = unat (va_token_a v) + unat a"
      "unat (va_token_b (mk_vaults m)) = unat (va_token_b v) + unat b"
    and "q = (mk_pool m)\<lparr>pl_partner_a_fee := pl_partner_a_fee (mk_pool m) - a,
      pl_partner_b_fee := pl_partner_b_fee (mk_pool m) - b\<rparr>"
    and "reachable (m\<lparr>mk_pool := q, mk_vaults := v\<rparr>)"
proof -
  obtain q a b where c: "claim_partner_fee (mk_pool m) xa xb = Ok (q, a, b)"
    using claim_partner_fee_total by blast
  note e = claim_partner_fee_effect [OF c]
  have le: "unat a \<le> unat (va_token_a (mk_vaults m))" "unat b \<le> unat (va_token_b (mk_vaults m))"
    using e(1,2) claims_covered [OF m] by linarith+
  obtain va where va: "(if 0 < xa then transfer_from_pool ta (va_token_a (mk_vaults m)) a
      else Ok (va_token_a (mk_vaults m))) = Ok va" "unat (va_token_a (mk_vaults m)) = unat va + unat a"
  proof (cases "0 < xa")
    case True
    then show thesis using payment_total [OF tokens(1,2) le(1)] that by auto
  next
    case False
    then have "a = 0" using e(4) by (simp add: word_greater_zero_iff)
    then show thesis using False that by simp
  qed
  obtain vb where vb: "(if 0 < xb then transfer_from_pool tb (va_token_b (mk_vaults m)) b
      else Ok (va_token_b (mk_vaults m))) = Ok vb" "unat (va_token_b (mk_vaults m)) = unat vb + unat b"
  proof (cases "0 < xb")
    case True
    then show thesis using payment_total [OF tokens(3,4) le(2)] that by auto
  next
    case False
    then have "b = 0" using e(5) by (simp add: word_greater_zero_iff)
    then show thesis using False that by simp
  qed
  have h: "handle_claim_partner_fee ta tb (pl_partner (mk_pool m)) (mk_pool m) (mk_vaults m) xa xb =
      Ok (q, \<lparr> va_token_a = va, va_token_b = vb \<rparr>, a, b)"
    by (simp only: handle_claim_partner_fee_def rbind_simps c prod.case va(1) vb(1) simp_thms if_False)
  have "reachable (m\<lparr>mk_pool := q, mk_vaults := \<lparr> va_token_a = va, va_token_b = vb \<rparr>\<rparr>)"
    using market_step.claim_partner_fee [OF h tokens(2,4)] m unfolding reachable_def reachable_from_def
    by (meson rtranclp.rtrancl_into_rtrancl)
  moreover have "q = (mk_pool m)\<lparr>pl_partner_a_fee := pl_partner_a_fee (mk_pool m) - a,
      pl_partner_b_fee := pl_partner_b_fee (mk_pool m) - b\<rparr>"
    using e(3) unfolding word_difference [OF e(1)] word_difference [OF e(2)] .
  ultimately show thesis using that [OF h e(4,5)] va(2) vb(2) by simp
qed

end
