(* ===== verification/Quote_Sdk.thy ===== *)
theory Quote_Sdk
  imports Swap_Handler Operator_Handlers
begin

text \<open>
  The off-chain library \<^verbatim>\<open>rust-sdk\<close>: quotes for the three kinds of swap, computed with the
  functions of the program on a copy of the pool, and the price at which a new pool takes two given
  amounts. Its errors are not those of the program, and appear as \<open>Foreign\<close>; an error of a
  function of the program is passed on.
\<close>

section \<open>Quotes\<close>

definition sdk_get_current_point :: "u8 \<Rightarrow> u64 \<Rightarrow> u64 \<Rightarrow> u64 result" where
  "sdk_get_current_point activation_type current_slot current_timestamp =
     (case activation_type_of_u8 activation_type of
        None \<Rightarrow> Inl Foreign
      | Some Slot \<Rightarrow> Ok current_slot
      | Some Timestamp \<Rightarrow> Ok current_timestamp)"

definition is_swap_enable :: "pool \<Rightarrow> u64 \<Rightarrow> bool result" where
  "is_swap_enable q current_point =
     (case pool_status_of_u8 (pl_pool_status q) of
        None \<Rightarrow> Inl Foreign
      | Some st \<Rightarrow> Ok (st = Enable \<and> pl_activation_point q \<le> current_point))"

definition ensure :: "bool \<Rightarrow> 'a result \<Rightarrow> 'a result" where
  "ensure c k = (if c then k else Inl Foreign)"

lemma ensure_Ok_iff [ok_iffs]: "ensure c k = Ok z \<longleftrightarrow> c \<and> k = Ok z"
  by (simp add: ensure_def)

definition quote_exact_in :: "pool \<Rightarrow> u64 \<Rightarrow> u64 \<Rightarrow> u64 \<Rightarrow> bool \<Rightarrow> bool \<Rightarrow> swap_result result" where
  "quote_exact_in q current_timestamp current_slot actual_amount_in a_to_b has_referral =
     ensure (0 < actual_amount_in)
       (rbind (sdk_get_current_point (pl_activation_type q) current_slot current_timestamp)
         (\<lambda>current_point.
        rbind (is_swap_enable q current_point) (\<lambda>enabled.
        ensure enabled
          (let trade_direction = (if a_to_b then AtoB else BtoA) in
           rbind (get_fee_mode (pl_collect_fee_mode q) trade_direction has_referral) (\<lambda>fee_mode.
           get_swap_result_from_exact_input q actual_amount_in fee_mode trade_direction
             current_point)))))"

definition quote_exact_out :: "pool \<Rightarrow> u64 \<Rightarrow> u64 \<Rightarrow> u64 \<Rightarrow> bool \<Rightarrow> bool \<Rightarrow> swap_result result" where
  "quote_exact_out q current_timestamp current_slot actual_amount_out a_to_b has_referral =
     ensure (0 < actual_amount_out)
       (rbind (sdk_get_current_point (pl_activation_type q) current_slot current_timestamp)
         (\<lambda>current_point.
        rbind (is_swap_enable q current_point) (\<lambda>enabled.
        ensure enabled
          (let trade_direction = (if a_to_b then AtoB else BtoA) in
           rbind (get_fee_mode (pl_collect_fee_mode q) trade_direction has_referral) (\<lambda>fee_mode.
           get_swap_result_from_exact_output q actual_amount_out fee_mode trade_direction
             current_point)))))"

definition quote_partial_fill_in ::
  "pool \<Rightarrow> u64 \<Rightarrow> u64 \<Rightarrow> u64 \<Rightarrow> bool \<Rightarrow> bool \<Rightarrow> swap_result result" where
  "quote_partial_fill_in q current_timestamp current_slot actual_amount_in a_to_b has_referral =
     ensure (0 < actual_amount_in)
       (rbind (sdk_get_current_point (pl_activation_type q) current_slot current_timestamp)
         (\<lambda>current_point.
        rbind (is_swap_enable q current_point) (\<lambda>enabled.
        ensure enabled
          (let trade_direction = (if a_to_b then AtoB else BtoA) in
           rbind (get_fee_mode (pl_collect_fee_mode q) trade_direction has_referral) (\<lambda>fee_mode.
           get_swap_result_from_partial_input q actual_amount_in fee_mode trade_direction
             current_point)))))"

section \<open>The initial price\<close>

text \<open>
  The arithmetic operators of the 256-bit integers wrap around; a division by zero panics.
\<close>

definition calculate_init_price :: "u64 \<Rightarrow> u64 \<Rightarrow> u128 \<Rightarrow> u128 \<Rightarrow> u128 result" where
  "calculate_init_price token_a_amount token_b_amount min_sqrt_price max_sqrt_price =
     ensure (token_a_amount \<noteq> 0 \<and> token_b_amount \<noteq> 0)
       (let a = ucast token_a_amount :: u256 in
        case u256_safe_shl (ucast token_b_amount) 128 of
          Inl _ \<Rightarrow> Inl Foreign
        | Inr b \<Rightarrow>
            let pa = ucast min_sqrt_price; pb = ucast max_sqrt_price in
            rbind (if pa * pb < b div a then
                     assert_panic (pb \<noteq> 0)
                       (let delta = b div a div pb - pa in
                        case sqrt_u256 (delta * delta + 4 * b div a) of
                          None \<Rightarrow> Inl Foreign
                        | Some sqrt_value \<Rightarrow> Ok ((sqrt_value - delta) div 2))
                   else
                     assert_panic (pb \<noteq> 0)
                       (let delta = pa - b div a div pb in
                        case sqrt_u256 (delta * delta + 4 * b div a) of
                          None \<Rightarrow> Inl Foreign
                        | Some sqrt_value \<Rightarrow> Ok ((sqrt_value + delta) div 2))) (\<lambda>s.
            case try_narrow s of None \<Rightarrow> Inl Foreign | Some x \<Rightarrow> Ok x))"

section \<open>The price is the floor of the root\<close>

declare of_nat_unat [simp del]

lemma quadratic_floor:
  fixes A B d n r :: int
  assumes A: "0 < A" and B: "0 \<le> B" and r: "0 \<le> r" "r\<^sup>2 \<le> d\<^sup>2 + 4 * B div A"
    "d\<^sup>2 + 4 * B div A < (r + 1)\<^sup>2" and n: "n = (r - d) div 2"
  shows "A * (n\<^sup>2 + d * n) \<le> B" and "B < A * ((n + 1)\<^sup>2 + d * (n + 1))"
proof -
  define Y where "Y = 4 * B div A"
  have Y: "0 \<le> Y" "A * Y \<le> 4 * B" "4 * B < A * (Y + 1)"
    using A B by (simp_all add: Y_def pos_imp_zdiv_nonneg_iff mult_div_mod_eq [symmetric] distrib_left
        mult.commute [of A])
      (smt (verit, best) pos_mod_sign mult.commute mult_div_mod_eq,
       smt (verit, best) pos_mod_bound mult.commute mult_div_mod_eq)
  have r': "r\<^sup>2 \<le> d\<^sup>2 + Y" "d\<^sup>2 + Y < (r + 1)\<^sup>2" using r by (simp_all only: Y_def)
  have b: "2 * n + d \<le> r" "r \<le> 2 * n + d + 1" using n by linarith+
  have "\<bar>2 * n + d\<bar> \<le> r"
  proof (cases "r = 0")
    case True
    then have "d\<^sup>2 < 1" using r'(2) Y(1) by simp
    then have "d = 0" by (simp add: power2_less_1_iff)
    then show ?thesis using True n by simp
  qed (use b r(1) in linarith)
  then have "(2 * n + d)\<^sup>2 \<le> r\<^sup>2" using r(1) by (simp add: abs_le_square_iff [symmetric])
  then have "4 * (n\<^sup>2 + d * n) \<le> Y"
    using r'(1) by (simp add: power2_eq_square algebra_simps)
  then have "A * (4 * (n\<^sup>2 + d * n)) \<le> A * Y" using A by (intro mult_left_mono) simp_all
  then have "4 * (A * (n\<^sup>2 + d * n)) \<le> 4 * B" using Y(2) by (simp only: mult.left_commute [of A 4])
  then show "A * (n\<^sup>2 + d * n) \<le> B" by simp
  have "(r + 1)\<^sup>2 \<le> (2 * (n + 1) + d)\<^sup>2" using b(2) r(1) by (intro power_mono) simp_all
  then have "Y + 1 \<le> 4 * ((n + 1)\<^sup>2 + d * (n + 1))"
    using r'(2) by (simp add: power2_eq_square algebra_simps)
  then have "A * (Y + 1) \<le> A * (4 * ((n + 1)\<^sup>2 + d * (n + 1)))" using A by (intro mult_left_mono) simp_all
  then have "4 * B < 4 * (A * ((n + 1)\<^sup>2 + d * (n + 1)))" using Y(3) by (simp only: mult.left_commute [of A 4])
  then show "B < A * ((n + 1)\<^sup>2 + d * (n + 1))" by simp
qed

text \<open>The distance that the square root is taken of, as an integer.\<close>

definition price_delta :: "u64 \<Rightarrow> u64 \<Rightarrow> u128 \<Rightarrow> u128 \<Rightarrow> int" where
  "price_delta ta tb lo hi =
     int (unat tb * 2 ^ 128 div unat ta div unat hi) - int (unat lo)"

lemma sqrt_of_sum:
  fixes dw y rw :: u256
  assumes "sqrt_u256 (dw * dw + y) = Some rw" and d: "unat dw < 2 ^ 127" and y: "unat y < 2 ^ 200"
  shows "(int (unat rw))\<^sup>2 \<le> (int (unat dw))\<^sup>2 + int (unat y)"
    and "(int (unat dw))\<^sup>2 + int (unat y) < (int (unat rw) + 1)\<^sup>2"
    and "unat dw \<le> unat rw"
    and "unat rw < 2 ^ 128"
proof -
  have "unat dw * unat dw < 2 ^ 127 * 2 ^ 127" using d by (intro mult_strict_mono) simp_all
  then have s: "unat dw * unat dw + unat y < 2 ^ 255" using y by simp
  have m: "unat (dw * dw) = unat dw * unat dw"
    using s by (intro unat_mult_lem [THEN iffD1]) simp
  have e: "unat (dw * dw + y) = (unat dw)\<^sup>2 + unat y"
    using s by (simp add: unat_plus_if' m power2_eq_square)
  have r: "(unat rw)\<^sup>2 \<le> (unat dw)\<^sup>2 + unat y" "(unat dw)\<^sup>2 + unat y < (unat rw + 1)\<^sup>2"
    using sqrt_u256_correct [of "dw * dw + y"] assms(1) e by auto
  show "(int (unat rw))\<^sup>2 \<le> (int (unat dw))\<^sup>2 + int (unat y)"
    using r(1) by (simp only: of_nat_power [symmetric] of_nat_add [symmetric] of_nat_le_iff)
  show "(int (unat dw))\<^sup>2 + int (unat y) < (int (unat rw) + 1)\<^sup>2"
    using r(2) by (metis of_nat_1 of_nat_add of_nat_less_iff of_nat_power)
  have "(unat dw)\<^sup>2 < (unat rw + 1)\<^sup>2" using r(2) by linarith
  then show "unat dw \<le> unat rw" using power2_less_imp_less by fastforce
  have "(unat rw)\<^sup>2 < (2 ^ 128)\<^sup>2" using r(1) s by (simp add: power2_eq_square)
  then show "unat rw < 2 ^ 128" by (rule power2_less_imp_less) simp
qed

lemma calculate_init_price_root:
  assumes h: "calculate_init_price ta tb lo hi = Ok s" and small: "\<bar>price_delta ta tb lo hi\<bar> < 2 ^ 127"
  defines "n \<equiv> int (unat s)" and "d \<equiv> price_delta ta tb lo hi"
    and "A \<equiv> int (unat ta)" and "B \<equiv> int (unat tb) * 2 ^ 128"
  shows "0 < A" and "A * (n\<^sup>2 + d * n) \<le> B" and "B < A * ((n + 1)\<^sup>2 + d * (n + 1))"
proof -
  let ?a = "ucast ta :: u256" and ?pa = "ucast lo :: u256" and ?pb = "ucast hi :: u256"
  obtain b sw where nz: "ta \<noteq> 0" and b: "u256_safe_shl (ucast tb) 128 = Ok b"
    and br: "(if ?pa * ?pb < b div ?a then
         assert_panic (?pb \<noteq> 0)
           (let delta = b div ?a div ?pb - ?pa in
            case sqrt_u256 (delta * delta + 4 * b div ?a) of
              None \<Rightarrow> Inl Foreign
            | Some r \<Rightarrow> Ok ((r - delta) div 2))
       else
         assert_panic (?pb \<noteq> 0)
           (let delta = ?pa - b div ?a div ?pb in
            case sqrt_u256 (delta * delta + 4 * b div ?a) of
              None \<Rightarrow> Inl Foreign
            | Some r \<Rightarrow> Ok ((r + delta) div 2))) = Ok sw"
    and s: "try_narrow sw = Some s"
    using h unfolding calculate_init_price_def Let_def ensure_Ok_iff
    by (auto simp: rbind_Ok_iff split: sum.splits option.splits if_splits)
  have bv: "unat b = unat tb * 2 ^ 128" using b by (simp add: u256_safe_shl_def ok_iffs)
  show A: "0 < A" using nz unfolding A_def by (simp add: unat_gt_0)
  have tb: "unat tb < 2 ^ 64" using unat_bounds(4) [of tb] by simp
  define N where "N = unat tb * 2 ^ 128 div unat ta"
  have X: "unat (b div ?a) = N" by (simp add: unat_div bv N_def)
  have Q: "unat (b div ?a div ?pb) = N div unat hi" by (subst unat_div) (simp add: X)
  have b4: "unat (4 * b) = 4 * unat b" using tb bv by (subst unat_mult_lem [THEN iffD1]) simp_all
  have y: "int (unat (4 * b div ?a)) = 4 * B div A"
    by (simp add: unat_div b4 bv B_def A_def zdiv_int)
  have ys: "unat (4 * b div ?a) < 2 ^ 200"
  proof -
    have "unat (4 * b div ?a) \<le> 4 * unat b" by (simp add: unat_div b4)
    then show ?thesis using tb bv by simp
  qed
  have lt: "?pa * ?pb < b div ?a \<longleftrightarrow> unat lo * unat hi < N"
  proof -
    have "unat lo * unat hi < 2 ^ 128 * 2 ^ 128" 
      using unat_bounds(5) [of lo] unat_bounds(5) [of hi] by (intro mult_strict_mono) simp_all
    then have "unat (?pa * ?pb) = unat lo * unat hi" by (subst unat_mult_lem [THEN iffD1]) simp_all
    then show ?thesis by (simp add: word_less_nat_alt X)
  qed
  have d: "d = int (N div unat hi) - int (unat lo)" by (simp add: d_def price_delta_def N_def)
  have n: "n = int (unat sw)" using s by (simp add: n_def ok_iffs)
  have B: "0 \<le> B" by (simp add: B_def)
  have "\<exists>rw. (int (unat rw))\<^sup>2 \<le> d\<^sup>2 + 4 * B div A \<and> d\<^sup>2 + 4 * B div A < (int (unat (rw :: u256)) + 1)\<^sup>2 \<and>
    n = (int (unat rw) - d) div 2"
  proof (cases "unat lo * unat hi < N")
    case True
    define dw where "dw = b div ?a div ?pb - ?pa"
    obtain rw where rw: "sqrt_u256 (dw * dw + 4 * b div ?a) = Some rw" and sw: "sw = (rw - dw) div 2"
      and hi: "?pb \<noteq> 0"
      using br True lt by (auto simp: dw_def Let_def ok_iffs split: option.splits)
    have le: "unat lo \<le> N div unat hi"
      using True unat_gt_0 [of ?pb, THEN iffD2, OF hi] by (simp add: less_eq_div_iff_mult_less_eq)
    then have dv: "unat dw = N div unat hi - unat lo" unfolding dw_def by (subst unat_sub) (simp_all add: word_le_nat_alt Q)
    then have dd: "d = int (unat dw)" using le by (simp add: d)
    then have "unat dw < 2 ^ 127" using small unfolding d_def by simp
    note q = sqrt_of_sum [OF rw this ys]
    have "unat sw = (unat rw - unat dw) div 2" using q(3) by (simp add: sw unat_div unat_sub word_le_nat_alt)
    then have "n = (int (unat rw) - d) div 2" using q(3) by (simp add: n dd zdiv_int of_nat_diff)
    then show ?thesis using q(1,2) unfolding y dd by blast
  next
    case False
    define dw where "dw = ?pa - b div ?a div ?pb"
    obtain rw where rw: "sqrt_u256 (dw * dw + 4 * b div ?a) = Some rw" and sw: "sw = (rw + dw) div 2"
      and hi: "?pb \<noteq> 0"
      using br False lt by (auto simp: dw_def Let_def ok_iffs split: option.splits)
    have le: "N div unat hi \<le> unat lo"
      using False div_le_mono [of N "unat lo * unat hi" "unat hi"] unat_gt_0 [of ?pb, THEN iffD2, OF hi]
      by simp
    then have dv: "unat dw = unat lo - N div unat hi" unfolding dw_def by (subst unat_sub) (simp_all add: word_le_nat_alt Q)
    then have dd: "d = - int (unat dw)" using le by (simp add: d)
    then have ds: "unat dw < 2 ^ 127" using small unfolding d_def by simp
    note q = sqrt_of_sum [OF rw this ys]
    have "unat (rw + dw) = unat rw + unat dw" using q(4) ds by (simp add: unat_plus_if')
    then have "unat sw = (unat rw + unat dw) div 2" by (simp add: sw unat_div)
    then have "n = (int (unat rw) - d) div 2" by (simp add: n dd zdiv_int)
    then show ?thesis using q(1,2) unfolding y dd by (metis power2_minus)
  qed
  then obtain rw :: u256 where r: "(int (unat rw))\<^sup>2 \<le> d\<^sup>2 + 4 * B div A"
    "d\<^sup>2 + 4 * B div A < (int (unat rw) + 1)\<^sup>2" "n = (int (unat rw) - d) div 2" by blast
  show "A * (n\<^sup>2 + d * n) \<le> B" "B < A * ((n + 1)\<^sup>2 + d * (n + 1))"
    using quadratic_floor [OF A B _ r] by simp_all
qed

section \<open>A quote is the result of the swap\<close>

text \<open>
  The references of the dynamic fee are updated before the swap is computed, but the variable fee depends
  on the accumulator, which is only updated after the swap: the result on the stored pool is the same.
\<close>

lemma update_references_variable_fee:
  assumes "update_references f p t = Ok f'"
  shows "get_variable_fee f' = get_variable_fee f"
proof -
  have "df_initialized f' = df_initialized f" "df_volatility_accumulator f' = df_volatility_accumulator f"
    "df_bin_step f' = df_bin_step f" "df_variable_fee_control f' = df_variable_fee_control f"
    using assms by (auto simp: update_references_def Let_def rbind_Ok_iff split: if_splits)
  then show ?thesis by (simp add: get_variable_fee_def is_dynamic_fee_enable_def)
qed

lemma swap_result_of_variable_fee:
  assumes "get_variable_fee df = get_variable_fee (pf_dynamic_fee (pl_pool_fees q))"
  defines "q1 \<equiv> q\<lparr>pl_pool_fees := (pl_pool_fees q)\<lparr>pf_dynamic_fee := df\<rparr>\<rparr>"
  shows "get_swap_result_from_exact_input q1 = get_swap_result_from_exact_input q"
    and "get_swap_result_from_partial_input q1 = get_swap_result_from_partial_input q"
    and "get_swap_result_from_exact_output q1 = get_swap_result_from_exact_output q"
proof -
  have fields: "pl_version q1 = pl_version q" "pl_activation_point q1 = pl_activation_point q"
    "pl_sqrt_price q1 = pl_sqrt_price q" "pl_liquidity q1 = pl_liquidity q"
    "pl_sqrt_min_price q1 = pl_sqrt_min_price q" "pl_sqrt_max_price q1 = pl_sqrt_max_price q"
    "has_partner q1 = has_partner q"
    by (simp_all add: q1_def has_partner_def)
  have fee_fields: "pf_base_fee (pl_pool_fees q1) = pf_base_fee (pl_pool_fees q)"
    "pf_init_sqrt_price (pl_pool_fees q1) = pf_init_sqrt_price (pl_pool_fees q)"
    "pf_protocol_fee_percent (pl_pool_fees q1) = pf_protocol_fee_percent (pl_pool_fees q)"
    "pf_referral_fee_percent (pl_pool_fees q1) = pf_referral_fee_percent (pl_pool_fees q)"
    "pf_partner_fee_percent (pl_pool_fees q1) = pf_partner_fee_percent (pl_pool_fees q)"
    "get_variable_fee (pf_dynamic_fee (pl_pool_fees q1)) = get_variable_fee (pf_dynamic_fee (pl_pool_fees q))"
    by (simp_all add: q1_def assms(1))
  have "get_total_fee_numerator (pl_pool_fees q1) = get_total_fee_numerator (pl_pool_fees q)"
    by (intro ext) (simp only: get_total_fee_numerator_def fee_fields)
  then have fees: "get_total_trading_fee_from_included_fee_amount (pl_pool_fees q1) =
      get_total_trading_fee_from_included_fee_amount (pl_pool_fees q)"
    "get_total_trading_fee_from_excluded_fee_amount (pl_pool_fees q1) =
      get_total_trading_fee_from_excluded_fee_amount (pl_pool_fees q)"
    by (intro ext; simp only: get_total_trading_fee_from_included_fee_amount_def
        get_total_trading_fee_from_excluded_fee_amount_def fee_fields)+
  have split: "split_fees (pl_pool_fees q1) = split_fees (pl_pool_fees q)"
    unfolding fun_eq_iff split_fees_def fee_fields by (intro allI refl)
  have on: "get_fee_on_amount (pl_pool_fees q1) = get_fee_on_amount (pl_pool_fees q)"
    unfolding fun_eq_iff get_fee_on_amount_def split by (intro allI refl)
  have amounts: "exclude_fee q1 = exclude_fee q" "include_fee q1 = include_fee q"
    unfolding fun_eq_iff exclude_fee_def include_fee_def fees split on fields by (intro allI refl)+
  have curve: "calculate_a_to_b_from_amount_in q1 = calculate_a_to_b_from_amount_in q"
    "calculate_b_to_a_from_amount_in q1 = calculate_b_to_a_from_amount_in q"
    "calculate_a_to_b_from_partial_amount_in q1 = calculate_a_to_b_from_partial_amount_in q"
    "calculate_b_to_a_from_partial_amount_in q1 = calculate_b_to_a_from_partial_amount_in q"
    "calculate_a_to_b_from_amount_out q1 = calculate_a_to_b_from_amount_out q"
    "calculate_b_to_a_from_amount_out q1 = calculate_b_to_a_from_amount_out q"
    unfolding fun_eq_iff calculate_a_to_b_from_amount_in_def
      calculate_b_to_a_from_amount_in_def calculate_a_to_b_from_partial_amount_in_def
      calculate_b_to_a_from_partial_amount_in_def calculate_a_to_b_from_amount_out_def
      calculate_b_to_a_from_amount_out_def fields by (intro allI refl)+
  show "get_swap_result_from_exact_input q1 = get_swap_result_from_exact_input q"
    "get_swap_result_from_partial_input q1 = get_swap_result_from_partial_input q"
    "get_swap_result_from_exact_output q1 = get_swap_result_from_exact_output q"
    unfolding fun_eq_iff get_swap_result_from_exact_input_def
      get_swap_result_from_partial_input_def get_swap_result_from_exact_output_def
      fees amounts curve fields by (intro allI refl)+
qed

text \<open>The update before a swap, seen from the fee.\<close>

lemma update_pre_swap_variable_fee:
  assumes "update_pre_swap q t = Ok q1"
  obtains df where "q1 = q\<lparr>pl_pool_fees := (pl_pool_fees q)\<lparr>pf_dynamic_fee := df\<rparr>\<rparr>"
    and "get_variable_fee df = get_variable_fee (pf_dynamic_fee (pl_pool_fees q))"
proof (cases "is_dynamic_fee_enable (pf_dynamic_fee (pl_pool_fees q))")
  case True
  then obtain df where "update_references (pf_dynamic_fee (pl_pool_fees q)) (pl_sqrt_price q) t = Ok df"
    and "q1 = q\<lparr>pl_pool_fees := (pl_pool_fees q)\<lparr>pf_dynamic_fee := df\<rparr>\<rparr>"
    using assms by (auto simp: update_pre_swap_def rbind_Ok_iff)
  then show thesis using that update_references_variable_fee by blast
next
  case False
  then show thesis using assms that [of "pf_dynamic_fee (pl_pool_fees q)"] by (simp add: update_pre_swap_def)
qed

text \<open>
  On the stored pool, for a payer that is not the alpha vault, the quote for the amount that reaches (or leaves) the pool is the result of the swap.
\<close>

lemma swap_is_quoted:
  assumes h: "p_handle_swap ctx q v params = Ok (q', v', r)"
    and payer: "sc_payer ctx \<noteq> pl_whitelisted_vault q"
    and dir: "get_trade_direction (sc_input_token_account_mint ctx) (sc_token_a_mint_key ctx) = Ok d"
  defines "tin \<equiv> (case d of AtoB \<Rightarrow> sc_token_a ctx | BtoA \<Rightarrow> sc_token_b ctx)"
    and "tout \<equiv> (case d of AtoB \<Rightarrow> sc_token_b ctx | BtoA \<Rightarrow> sc_token_a ctx)"
    and "t \<equiv> unix_timestamp (sc_clock ctx)" and "n \<equiv> slot (sc_clock ctx)"
  shows "sw_swap_mode params = 0 \<Longrightarrow>
      \<exists>e. calculate_transfer_fee_excluded_amount tin (sw_amount_0 params) = Ok e \<and>
      quote_exact_in q t n (xe_amount e) (d = AtoB) (sc_has_referral ctx) = Ok (pr_swap_result r)"
    and "sw_swap_mode params = 1 \<Longrightarrow>
      \<exists>e. calculate_transfer_fee_excluded_amount tin (sw_amount_0 params) = Ok e \<and>
      quote_partial_fill_in q t n (xe_amount e) (d = AtoB) (sc_has_referral ctx) = Ok (pr_swap_result r)"
    and "sw_swap_mode params = 2 \<Longrightarrow>
      \<exists>i. calculate_transfer_fee_included_amount tout (sw_amount_0 params) = Ok i \<and>
      quote_exact_out q t n (xi_amount i) (d = AtoB) (sc_has_referral ctx) = Ok (pr_swap_result r)"
proof -
  obtain acc mode cp fm q1 where acc: "get_pool_access_validator (sc_clock ctx) q = Ok acc"
    "can_swap acc (sc_payer ctx)"
    and mode: "swap_mode_of_u8 (sw_swap_mode params) = Some mode"
    and cp: "get_current_point (sc_clock ctx) (pl_activation_type q) = Ok cp"
    and pre: "update_pre_swap q (unix_timestamp (sc_clock ctx)) = Ok q1"
    and fm1: "get_fee_mode (pl_collect_fee_mode q1) d (sc_has_referral ctx) = Ok fm"
    and ps: "process_swap mode
      \<lparr> pp_pool = q1, pp_token_in_mint = tin, pp_token_out_mint = tout, pp_fee_mode = fm,
        pp_trade_direction = d, pp_current_point = cp, pp_amount_0 = sw_amount_0 params,
        pp_amount_1 = sw_amount_1 params \<rparr> = Ok r"
    using h dir unfolding p_handle_swap_def tin_def tout_def
    by (auto simp: ok_iffs rbind_Ok_iff require_Ok_iff Let_def split: trade_direction.splits)
  obtain df where q1: "q1 = q\<lparr>pl_pool_fees := (pl_pool_fees q)\<lparr>pf_dynamic_fee := df\<rparr>\<rparr>"
    and vf: "get_variable_fee df = get_variable_fee (pf_dynamic_fee (pl_pool_fees q))"
    by (rule update_pre_swap_variable_fee [OF pre])
  have fm: "get_fee_mode (pl_collect_fee_mode q) d (sc_has_referral ctx) = Ok fm"
    using fm1 by (simp add: q1)
  note same = swap_result_of_variable_fee [OF vf, folded q1]
  obtain ty where at: "activation_type_of_u8 (pl_activation_type q) = Some ty"
    and cpv: "cp = (case ty of Slot \<Rightarrow> n | Timestamp \<Rightarrow> t)"
    using cp unfolding n_def t_def by (auto simp: get_current_point_def rbind_Ok_iff ok_or_Ok_iff)
  have cpe: "sdk_get_current_point (pl_activation_type q) n t = Ok cp"
    using at by (cases ty) (auto simp: sdk_get_current_point_def cpv split: if_splits)
  have en: "is_swap_enable q cp = Ok True"
    using acc payer at unfolding cpv n_def t_def
    by (cases ty) (auto simp: get_pool_access_validator_def can_swap_def
        is_swap_enable_def pool_status_of_u8_def rbind_Ok_iff Let_def split: if_splits)
  note u = quote_exact_in_def quote_exact_out_def quote_partial_fill_in_def ensure_def Let_def
  have dd: "(if d = AtoB then AtoB else BtoA) = d" by (cases d) simp_all
  show "\<exists>e. calculate_transfer_fee_excluded_amount tin (sw_amount_0 params) = Ok e \<and>
      quote_exact_in q t n (xe_amount e) (d = AtoB) (sc_has_referral ctx) = Ok (pr_swap_result r)"
    if "sw_swap_mode params = 0"
    using that mode ps cpe en fm
    by (auto simp: u dd swap_mode_of_u8_def process_swap_def process_swap_exact_in_def rbind_Ok_iff require_Ok_iff same)
  show "\<exists>e. calculate_transfer_fee_excluded_amount tin (sw_amount_0 params) = Ok e \<and>
      quote_partial_fill_in q t n (xe_amount e) (d = AtoB) (sc_has_referral ctx) = Ok (pr_swap_result r)"
    if "sw_swap_mode params = 1"
    using that mode ps cpe en fm
    by (auto simp: u dd swap_mode_of_u8_def process_swap_def process_swap_partial_fill_def rbind_Ok_iff require_Ok_iff same)
  show "\<exists>i. calculate_transfer_fee_included_amount tout (sw_amount_0 params) = Ok i \<and>
      quote_exact_out q t n (xi_amount i) (d = AtoB) (sc_has_referral ctx) = Ok (pr_swap_result r)"
    if "sw_swap_mode params = 2"
    using that mode ps cpe en fm
    by (auto simp: u dd swap_mode_of_u8_def process_swap_def process_swap_exact_out_def rbind_Ok_iff require_Ok_iff same)
qed

end
