(* ===== verification/Entrypoint.thy ===== *)
theory Entrypoint
  imports Swap_Accounts
begin

text \<open>
  The entry point of the program, \<^verbatim>\<open>entrypoint.rs\<close>: the fast path for the two swap instructions and
  for the events that the program sends to itself; everything else goes to the entry point of the
  account framework, which is a parameter (its code is generated).

  The runtime has already taken the input apart: the program's address, the accounts and the data of
  the instruction are arguments. An instruction acts on a pool and its vaults, and an error undoes
  what it did, so that its result is the new state or an error.
\<close>

section \<open>The parameters in the data\<close>

definition swap_parameters_deserialize :: "bytes \<Rightarrow> swap_parameters result" where
  "swap_parameters_deserialize data =
     (if length data < 16 then Inl Foreign
      else Ok \<lparr> sw_amount_in = get 0 8 data, sw_minimum_amount_out = get 8 8 data \<rparr>)"

definition swap_parameters_serialize :: "swap_parameters \<Rightarrow> bytes" where
  "swap_parameters_serialize p = put 8 (sw_amount_in p) @ put 8 (sw_minimum_amount_out p)"

definition swap_parameters2_deserialize :: "bytes \<Rightarrow> swap_parameters2 result" where
  "swap_parameters2_deserialize data =
     (if length data < 17 then Inl Foreign
      else Ok \<lparr> sw_amount_0 = get 0 8 data, sw_amount_1 = get 8 8 data, sw_swap_mode = get 16 1 data \<rparr>)"

definition swap_parameters2_serialize :: "swap_parameters2 \<Rightarrow> bytes" where
  "swap_parameters2_serialize p =
     put 8 (sw_amount_0 p) @ put 8 (sw_amount_1 p) @ put 1 (sw_swap_mode p)"

section \<open>The dispatch\<close>

definition p_event_dispatch :: "account_ids \<Rightarrow> p_account list \<Rightarrow> unit result" where
  "p_event_dispatch ids accounts =
     assert_panic (0 < length accounts)
       (let given_event_authority = accounts ! 0 in
        if \<not> ac_is_signer given_event_authority then Inl Foreign
        else if ac_key given_event_authority \<noteq> ai_event_authority ids then Inl Foreign
        else Ok ())"

definition starts_with :: "bytes \<Rightarrow> bytes \<Rightarrow> bool" where
  "starts_with data tag \<longleftrightarrow> take (length tag) data = tag"

text \<open>What the environment gives to an instruction besides the accounts and the data.\<close>

record entry_context =
  ec_ids :: account_ids
  ec_event_tag :: bytes
  ec_clock :: clock
  ec_transaction :: introspection
  ec_token_a :: token
  ec_token_b :: token

definition p_entrypoint ::
  "entry_context \<Rightarrow> pubkey \<Rightarrow> p_account list \<Rightarrow> bytes \<Rightarrow> pool \<Rightarrow> vaults \<Rightarrow>
   (pool \<times> vaults) result option" where
  "p_entrypoint ctx program_id accounts instruction_data q v =
     (let ids = ec_ids ctx; swap_tag = id_swap_discriminator (ai_program ids);
          swap2_tag = id_swap2_discriminator (ai_program ids) in
      if program_id \<noteq> id_program (ai_program ids) then None
      else
        case (starts_with instruction_data swap_tag, starts_with instruction_data swap2_tag,
              starts_with instruction_data (ec_event_tag ctx)) of
          (is_swap, is_swap2, is_event) \<Rightarrow>
            if \<not> is_event \<and> is_swap \<noteq> is_swap2 then
              if length accounts < SWAP_IX_ACCOUNTS then Some (Inl Foreign)
              else
                let left = take SWAP_IX_ACCOUNTS accounts;
                    remaining_accounts = drop SWAP_IX_ACCOUNTS accounts;
                    params =
                      (if is_swap then
                         rbind (swap_parameters_deserialize (drop (length swap_tag) instruction_data))
                           (\<lambda>p. Ok (to_swap_parameters2 p))
                       else swap_parameters2_deserialize (drop (length swap2_tag) instruction_data)) in
                (case params of
                   Inl e \<Rightarrow> Some (Inl Foreign)
                 | Inr params \<Rightarrow>
                     Some (rbind (swap_instruction ids (ec_clock ctx)
                         ((ec_transaction ctx)\<lparr>ti_remaining_accounts := map ac_key remaining_accounts\<rparr>)
                         (ec_token_a ctx) (ec_token_b ctx) left q v params)
                       (\<lambda>(q, v, r). Ok (q, v))))
            else if \<not> is_swap \<and> \<not> is_swap2 \<and> is_event then
              Some (rbind (p_event_dispatch ids accounts) (\<lambda>_. Ok (q, v)))
            else None)"

definition entrypoint ::
  "(pubkey \<Rightarrow> p_account list \<Rightarrow> bytes \<Rightarrow> pool \<Rightarrow> vaults \<Rightarrow> (pool \<times> vaults) result) \<Rightarrow>
   entry_context \<Rightarrow> pubkey \<Rightarrow> p_account list \<Rightarrow> bytes \<Rightarrow> pool \<Rightarrow> vaults \<Rightarrow> (pool \<times> vaults) result" where
  "entrypoint anchor_entry ctx program_id accounts instruction_data q v =
     (case p_entrypoint ctx program_id accounts instruction_data q v of
        Some r \<Rightarrow> r
      | None \<Rightarrow> anchor_entry program_id accounts instruction_data q v)"

text \<open>
  The event at the end of a swap, \<^verbatim>\<open>p_emit_cpi\<close>: an instruction of the program itself, with the tag
  before the data and the event authority as signer.
\<close>

definition emit_data :: "entry_context \<Rightarrow> bytes \<Rightarrow> bytes" where
  "emit_data ctx inner_data = ec_event_tag ctx @ inner_data"

section \<open>Round trips and dispatch\<close>

lemma swap_parameters_round_trip:
  "swap_parameters_deserialize (swap_parameters_serialize p @ post) = Ok p"
  using get_put [of "[]" 0 8 "sw_amount_in p"] get_put [of "put 8 (sw_amount_in p)" 8 8 "sw_minimum_amount_out p"]
  by (simp add: swap_parameters_deserialize_def swap_parameters_serialize_def)

lemma swap_parameters2_round_trip:
  "swap_parameters2_deserialize (swap_parameters2_serialize p @ post) = Ok p"
  using get_put [of "[]" 0 8 "sw_amount_0 p"] get_put [of "put 8 (sw_amount_0 p)" 8 8 "sw_amount_1 p"]
    get_put [of "put 8 (sw_amount_0 p) @ put 8 (sw_amount_1 p)" 16 1 "sw_swap_mode p"]
  by (simp add: swap_parameters2_deserialize_def swap_parameters2_serialize_def)

text \<open>The three tags are different and have the same length, so that at most one starts the data.\<close>

definition wf_tags :: "entry_context \<Rightarrow> bool" where
  "wf_tags ctx \<longleftrightarrow>
     (let s = id_swap_discriminator (ai_program (ec_ids ctx));
          s2 = id_swap2_discriminator (ai_program (ec_ids ctx)); e = ec_event_tag ctx in
      length s = 8 \<and> length s2 = 8 \<and> length e = 8 \<and> s \<noteq> s2 \<and> s \<noteq> e \<and> s2 \<noteq> e)"

lemma starts_with_tag:
  "length tag = length tag' \<Longrightarrow> starts_with (tag @ post) tag' \<longleftrightarrow> tag = tag'"
  by (auto simp: starts_with_def)

text \<open>The swap that the entry point runs on the accounts that it is given.\<close>

definition dispatched_swap ::
  "entry_context \<Rightarrow> p_account list \<Rightarrow> pool \<Rightarrow> vaults \<Rightarrow> swap_parameters2 \<Rightarrow>
   (pool \<times> vaults \<times> process_swap_result) result" where
  "dispatched_swap ctx accounts q v params =
     swap_instruction (ec_ids ctx) (ec_clock ctx)
       ((ec_transaction ctx)\<lparr>ti_remaining_accounts := map ac_key (drop SWAP_IX_ACCOUNTS accounts)\<rparr>)
       (ec_token_a ctx) (ec_token_b ctx) (take SWAP_IX_ACCOUNTS accounts) q v params"

lemma wf_tagsD:
  assumes "wf_tags ctx"
  shows "length (id_swap_discriminator (ai_program (ec_ids ctx))) = 8"
    "length (id_swap2_discriminator (ai_program (ec_ids ctx))) = 8" "length (ec_event_tag ctx) = 8"
    "id_swap_discriminator (ai_program (ec_ids ctx)) \<noteq> id_swap2_discriminator (ai_program (ec_ids ctx))"
    "id_swap_discriminator (ai_program (ec_ids ctx)) \<noteq> ec_event_tag ctx"
    "id_swap2_discriminator (ai_program (ec_ids ctx)) \<noteq> ec_event_tag ctx"
  using assms by (simp_all add: wf_tags_def Let_def)

lemma entry_swap:
  assumes "wf_tags ctx" and "pid = id_program (ai_program (ec_ids ctx))"
    and "SWAP_IX_ACCOUNTS \<le> length accounts"
  shows "p_entrypoint ctx pid accounts
      (id_swap_discriminator (ai_program (ec_ids ctx)) @ swap_parameters_serialize p @ post) q v =
    Some (rbind (dispatched_swap ctx accounts q v (to_swap_parameters2 p)) (\<lambda>(q, v, r). Ok (q, v)))"
  using assms(2,3) wf_tagsD [OF assms(1)]
  by (simp add: p_entrypoint_def Let_def starts_with_tag swap_parameters_round_trip dispatched_swap_def)

lemma entry_swap2:
  assumes "wf_tags ctx" and "pid = id_program (ai_program (ec_ids ctx))"
    and "SWAP_IX_ACCOUNTS \<le> length accounts"
  shows "p_entrypoint ctx pid accounts
      (id_swap2_discriminator (ai_program (ec_ids ctx)) @ swap_parameters2_serialize p @ post) q v =
    Some (rbind (dispatched_swap ctx accounts q v p) (\<lambda>(q, v, r). Ok (q, v)))"
  using assms(2,3) wf_tagsD [OF assms(1)]
  by (simp add: p_entrypoint_def Let_def starts_with_tag swap_parameters2_round_trip dispatched_swap_def
      eq_commute [of "id_swap2_discriminator (ai_program (ec_ids ctx))"])

lemma entry_event:
  assumes "wf_tags ctx" and "pid = id_program (ai_program (ec_ids ctx))"
  shows "p_entrypoint ctx pid accounts (emit_data ctx inner) q v =
    Some (rbind (p_event_dispatch (ec_ids ctx) accounts) (\<lambda>_. Ok (q, v)))"
  using assms(2) wf_tagsD [OF assms(1)]
  by (simp add: p_entrypoint_def Let_def starts_with_tag emit_data_def
      eq_commute [of "ec_event_tag ctx"])

text \<open>Whatever the data is, the fast path runs one swap or leaves the state as it is.\<close>

lemma p_entrypoint_Ok:
  assumes "p_entrypoint ctx pid accounts data q v = Some (Ok (q', v'))"
  shows "(q', v') = (q, v) \<or> (\<exists>params r. dispatched_swap ctx accounts q v params = Ok (q', v', r))"
  using assms
  by (auto simp: p_entrypoint_def Let_def dispatched_swap_def rbind_Ok_iff
      split: if_splits prod.splits sum.splits)

text \<open>
  What the fast path has accepted when it succeeds: the event of the program itself, or a swap with the
  parameters that the data hold, on accounts that passed the checks.
\<close>

definition swap_data :: "entry_context \<Rightarrow> bytes \<Rightarrow> swap_parameters2 \<Rightarrow> bool" where
  "swap_data ctx data params \<longleftrightarrow>
     (let tag = id_swap_discriminator (ai_program (ec_ids ctx));
          tag2 = id_swap2_discriminator (ai_program (ec_ids ctx)) in
      starts_with data tag \<and>
        (\<exists>p. swap_parameters_deserialize (drop (length tag) data) = Ok p \<and> params = to_swap_parameters2 p) \<or>
      starts_with data tag2 \<and> swap_parameters2_deserialize (drop (length tag2) data) = Ok params)"

lemma p_entrypoint_accepts:
  assumes "p_entrypoint ctx pid accounts data q v = Some (Ok (q', v'))"
  shows "pid = id_program (ai_program (ec_ids ctx)) \<and>
    (starts_with data (ec_event_tag ctx) \<and> (q', v') = (q, v) \<and> accounts \<noteq> [] \<and>
       ac_is_signer (accounts ! 0) \<and> ac_key (accounts ! 0) = ai_event_authority (ec_ids ctx) \<or>
     SWAP_IX_ACCOUNTS \<le> length accounts \<and>
       (\<exists>params r. swap_data ctx data params \<and> dispatched_swap ctx accounts q v params = Ok (q', v', r)))"
  using assms
  by (auto simp: p_entrypoint_def p_event_dispatch_def Let_def dispatched_swap_def swap_data_def
      rbind_Ok_iff assert_panic_Ok_iff split: if_splits prod.splits sum.splits)

end
