(* ===== verification/Examples.thy ===== *)
theory Examples
  imports Evaluation Vested_Liquidity Withdrawal Quote_Sdk Entrypoint
begin

text \<open>
  A small market on which the properties of the instructions are evaluated: a pool that its creator
  makes with two plain tokens, and the first swap on it. More definitions become rewrite rules.
\<close>

lemmas handler_eval =
  validate_single_swap_instruction_def is_swap_data_def check_rate_limiter_def
  get_trade_direction_def swap_mode_of_u8_def process_swap_def process_swap_exact_in_def
  process_swap_partial_fill_def process_swap_exact_out_def swap_transfers_def p_handle_swap_def
  calculate_transfer_fee_excluded_amount_def calculate_transfer_fee_included_amount_def
  transfer_from_user_def transfer_from_pool_def plain_token_def
  schedule_fee_def

lemmas creation_eval =
  activation_point_or_now_def get_whitelisted_alpha_vault_def initial_deposit_def
  initialize_customizable_pool_parameters_validate_def customizable_pool_def
  handle_initialize_customizable_pool_def check_mint_def is_supported_mint_def
  get_token_program_flags_def u8_of_token_program_flags_def to_pool_fees_struct_def
  activation_params_validate_def

section \<open>Creating a pool\<close>

definition example_clock :: clock where
  "example_clock = \<lparr> slot = 1000, unix_timestamp = 500, epoch = 1 \<rparr>"

definition example_mint :: "pubkey \<Rightarrow> mint_account" where
  "example_mint key =
     \<lparr> mi_key = key, mi_owner_is_token_program = True, mi_is_native_mint_2022 = False,
       mi_extensions = Ok [] \<rparr>"

definition example_creation :: init_pool_context where
  "example_creation =
     \<lparr> ip_clock = example_clock, ip_creator = 1, ip_payer = 1, ip_pool_key = 10,
       ip_position_nft_mint = 11, ip_token_a_mint = example_mint 2, ip_token_b_mint = example_mint 3,
       ip_token_a_vault = 4, ip_token_b_vault = 5, ip_token_a = plain_token, ip_token_b = plain_token,
       ip_remaining_accounts = [], ip_nft = Ok (), ip_derive_vault_pubkey = (\<lambda>a b. a + b) \<rparr>"

definition example_parameters :: initialize_customizable_pool_parameters where
  "example_parameters =
     \<lparr> ic_pool_fees = \<lparr> pp_base_fee = ts_to_borsh_bytes example_scheduler, pp_dynamic_fee = None \<rparr>,
       ic_sqrt_min_price = 4295048016, ic_sqrt_max_price = 79226673521066979257578248091,
       ic_has_alpha_vault = False, ic_liquidity = 18446744073709551616000000,
       ic_sqrt_price = 18446744073709551616, ic_activation_type = 0, ic_collect_fee_mode = 0,
       ic_activation_point = None \<rparr>"

definition start_pool :: pool where
  "start_pool =
     (pool_initialize 1 example_fees 2 3 4 5 0 0 4295048016 79226673521066979257578248091
        18446744073709551616 1000 0 0 0 18446744073709551616000000 0 1)
       \<lparr>pl_metrics := increase_position pool_metrics_default\<rparr>"

definition start_position :: position where
  "start_position = position_default\<lparr>ps_pool := 10, ps_nft_mint := 11,
     ps_unlocked_liquidity := 18446744073709551616000000\<rparr>"

definition start_vaults :: vaults where
  "start_vaults = \<lparr> va_token_a = 1000000, va_token_b = 1000000 \<rparr>"

lemma example_base_fee:
  "base_fee_parameters_to_base_fee_info (ts_to_borsh_bytes example_scheduler) = Ok example_info"
proof -
  have l: "length (ts_to_borsh_bytes example_scheduler) = 30" by (simp add: ts_to_borsh_bytes_def)
  have "params_get_base_fee_mode (ts_to_borsh_bytes example_scheduler) = Ok FeeTimeSchedulerLinear"
    unfolding params_mode [OF l]
    by (simp add: ts_to_borsh_bytes_def get_skip get_here example_scheduler_def base_fee_mode_of_u8_def)
  then show ?thesis
    by (simp add: base_fee_parameters_to_base_fee_info_def borsh_round_trip example_info_def)
qed

lemma example_scheduler_validates: "ts_validate example_scheduler BothToken Slot = Ok ()"
  by (simp add: example_scheduler_def evaluation handler_eval cong: evaluation_cong)

lemma example_fees_validate:
  "pool_fee_parameters_validate \<lparr> pp_base_fee = ts_to_borsh_bytes example_scheduler,
    pp_dynamic_fee = None \<rparr> BothToken Slot = Ok ()"
  by (simp add: pool_fee_parameters_validate_def base_fee_parameters_validate_def
      params_get_base_fee_handler_def example_base_fee example_handler example_scheduler_validates)

lemma example_pool_created:
  "handle_initialize_customizable_pool example_creation example_parameters =
    Ok (start_pool, start_vaults, start_position)"
  by (simp add: example_creation_def example_parameters_def example_clock_def example_mint_def
      start_pool_def start_vaults_def start_position_def example_base_fee example_fees_validate
      example_fees_def creation_eval handler_eval
      pool_ops_eval position_eval pool_eval curve_eval amm_math_eval amm_constants_eval activation_eval
      rewards_eval amm_prelude_eval dynamic_fee_eval fee_amounts_eval
      ucast_max cong: evaluation_cong)

section \<open>Swapping\<close>

definition example_program :: program_ids where
  "example_program =
     \<lparr> id_program = 100, id_instructions_sysvar = 101, id_swap_discriminator = [1, 2, 3, 4, 5, 6, 7, 8],
       id_swap2_discriminator = [2, 2, 3, 4, 5, 6, 7, 8], id_stack_whitelist = [] \<rparr>"

definition example_ids :: account_ids where
  "example_ids =
     \<lparr> ai_program = example_program, ai_pool_authority = 20, ai_event_authority = 60,
       ai_system_program = 0, ai_token_programs = [50], ai_pool_discriminator = [9, 9, 9, 9] \<rparr>"

definition token_data :: "u8 \<Rightarrow> bytes" where
  "token_data mint = replicate 31 0 @ [mint]"

definition some_account :: "pubkey \<Rightarrow> pubkey \<Rightarrow> bool \<Rightarrow> bytes \<Rightarrow> p_account" where
  "some_account key owner signer data =
     \<lparr> ac_key = key, ac_owner = owner, ac_is_writable = True, ac_is_signer = signer, ac_lamports = 1,
       ac_data = Ok data \<rparr>"

definition example_accounts :: "p_account list" where
  "example_accounts =
     [some_account 20 0 False [], some_account 10 100 False ([9, 9, 9, 9] @ replicate 1104 0),
      some_account 30 50 False (token_data 2), some_account 31 50 False (token_data 3),
      some_account 4 50 False (token_data 2), some_account 5 50 False (token_data 3),
      some_account 2 50 False [], some_account 3 50 False [], some_account 40 0 True [],
      some_account 50 0 False [], some_account 50 0 False [], some_account 100 0 False [],
      some_account 60 0 False [], some_account 100 0 False []]"

definition example_transaction :: introspection where
  "example_transaction =
     \<lparr> ti_remaining_accounts = [], ti_instructions = [], ti_current_index = 0, ti_stack_height = 1,
       ti_siblings = [] \<rparr>"

definition example_swap :: swap_parameters2 where
  "example_swap = \<lparr> sw_amount_0 = 1000, sw_amount_1 = 900, sw_swap_mode = 0 \<rparr>"

lemma token_data_mint: "length (token_data m) = 32" "word_rcat (token_data m) = (ucast m :: pubkey)"
  by (simp_all add: token_data_def word_rcat_def numeral_eq_Suc)

lemma example_accounts_mints:
  "p_accessor_mint (some_account key owner signer (token_data m)) = Ok (ucast m)"
  by (simp add: p_accessor_mint_def some_account_def token_data_mint)

lemma example_accounts_validate: "validate_p_accounts example_ids start_pool example_accounts = Ok ()"
proof -
  have v: "pl_token_a_vault start_pool = 4" "pl_token_b_vault start_pool = 5"
    by (simp_all add: start_pool_def pool_initialize_def)
  show ?thesis
    by (simp add: validate_p_accounts_def Let_def SWAP_IX_ACCOUNTS_def example_accounts_def
        example_accounts_mints v)
      (simp add: constraint_def some_account_def example_ids_def example_program_def
        p_load_mut_checked_def POOL_INIT_SPACE_def assert_panic_def validate_mut_token_account_def)
qed

definition example_context :: swap_context where
  "example_context =
     \<lparr> sc_clock = example_clock, sc_ids = example_program, sc_transaction = example_transaction,
       sc_pool_key = 10, sc_payer = 40, sc_input_token_account_mint = Ok 2, sc_token_a_mint_key = 2,
       sc_token_a = plain_token, sc_token_b = plain_token, sc_has_referral = False \<rparr>"

lemma example_context_of:
  "swap_context_of example_ids example_clock example_transaction plain_token plain_token
    example_accounts = example_context"
  by (simp add: swap_context_of_def example_accounts_def example_accounts_mints example_context_def)
    (simp add: some_account_def example_ids_def example_program_def)

lemma example_not_limited: "to_fee_rate_limiter example_info = Err InvalidBaseFeeMode"
  by (simp add: to_fee_rate_limiter_def example_info_def pod_mode example_scheduler_def
      base_fee_mode_of_u8_def)

lemma example_swap_Ok: "\<exists>r. p_handle_swap example_context start_pool start_vaults example_swap = Ok r"
  by (simp add: example_context_def example_clock_def example_transaction_def example_program_def
      start_pool_def start_vaults_def example_swap_def example_not_limited example_fees_def
      example_handler example_scheduler_def evaluation handler_eval
      cong: evaluation_cong)

lemma example_swap_instruction:
  "swap_instruction example_ids example_clock example_transaction plain_token plain_token
    example_accounts start_pool start_vaults params =
   p_handle_swap example_context start_pool start_vaults params"
  by (simp add: swap_instruction_validated example_accounts_validate example_context_of)

section \<open>The market\<close>

definition example_market :: market where
  "example_market =
     \<lparr> mk_pool = start_pool, mk_vaults = start_vaults, mk_positions = Map.empty(7 := Some start_position),
       mk_vestings = Map.empty,
       mk_reward_vaults = (\<lambda>_. \<lparr> rv_key = 0, rv_is_frozen = False, rv_amount = 0 \<rparr>) \<rparr>"

lemma example_market_init: "market_init example_market"
  unfolding example_market_def
  by (rule market_init.customizable [OF example_pool_created])
    (simp_all add: example_creation_def plain_token_law)

lemma example_market_reachable: "reachable example_market"
  using example_market_init by (auto simp: reachable_def reachable_from_def)

lemma example_market_swaps:
  obtains q v r where "p_handle_swap example_context start_pool start_vaults example_swap = Ok (q, v, r)"
    and "market_step example_market (example_market\<lparr>mk_pool := q, mk_vaults := v\<rparr>)"
proof -
  obtain q v r where h: "p_handle_swap example_context start_pool start_vaults example_swap = Ok (q, v, r)"
    using example_swap_Ok by (metis prod_cases3)
  have "market_step example_market (example_market\<lparr>mk_pool := q, mk_vaults := v\<rparr>)"
    by (rule market_step.swap [where ids = example_ids and clk = example_clock
          and tx = example_transaction and ta = plain_token and tb = plain_token
          and accounts = example_accounts and params = example_swap and r = r])
      (simp_all add: example_market_def example_swap_instruction h plain_token_law)
  with h show thesis by (rule that)
qed

lemma example_market_step:
  obtains m where "market_step example_market m" and "reachable m"
proof (rule example_market_swaps)
  fix q v assume s: "market_step example_market (example_market\<lparr>mk_pool := q, mk_vaults := v\<rparr>)"
  then have "market_step\<^sup>*\<^sup>* example_market (example_market\<lparr>mk_pool := q, mk_vaults := v\<rparr>)"
    by (rule r_into_rtranclp)
  then have "reachable (example_market\<lparr>mk_pool := q, mk_vaults := v\<rparr>)"
    using example_market_init by (auto simp: reachable_def reachable_from_def)
  with s show thesis by (rule that)
qed

text \<open>The owner locks half of the first position for ever.\<close>

definition example_owner :: position_accounts where
  "example_owner =
     \<lparr> pa_pool_key = 10, pa_nft_account_mint = 11, pa_nft_account_amount = 1,
       pa_nft_account_authority = 1, pa_owner = 1 \<rparr>"

lemma example_market_lock:
  obtains m where "market_step example_market m"
    and "pl_permanent_lock_liquidity (mk_pool m) = 9223372036854775808000000"
proof -
  have "\<exists>q p. handle_permanent_lock_position example_clock example_owner start_pool start_position
      9223372036854775808000000 = Ok (q, p) \<and> pl_permanent_lock_liquidity q = 9223372036854775808000000"
    by (simp add: handle_permanent_lock_position_def position_constraints_def example_owner_def
        example_clock_def start_pool_def start_position_def evaluation cong: evaluation_cong)
  then obtain q p where h: "handle_permanent_lock_position example_clock example_owner start_pool
      start_position 9223372036854775808000000 = Ok (q, p)"
    and l: "pl_permanent_lock_liquidity q = 9223372036854775808000000" by blast
  have "market_step example_market
    (example_market\<lparr>mk_pool := q, mk_positions := (mk_positions example_market)(7 := Some p)\<rparr>)"
    by (rule market_step.permanent_lock [where k = 7 and p = start_position and clk = example_clock
          and acc = example_owner and x = 9223372036854775808000000])
      (simp_all add: example_market_def h)
  then show thesis by (rule that) (simp add: l)
qed

text \<open>The owner locks the same half under a vesting of two periods of ten slots each.\<close>

definition example_vesting_parameters :: vesting_parameters where
  "example_vesting_parameters =
     \<lparr> vp_cliff_point = None, vp_period_frequency = 10, vp_cliff_unlock_liquidity = 0,
       vp_liquidity_per_period = 4611686018427387904000000, vp_number_of_period = 2 \<rparr>"

definition example_vesting_account :: vesting where
  "example_vesting_account = vesting_initialize 7 1000 10 0 4611686018427387904000000 2"

definition example_vested_position :: position where
  "example_vested_position = start_position\<lparr>ps_unlocked_liquidity := 9223372036854775808000000,
     ps_vested_liquidity := 9223372036854775808000000\<rparr>"

definition example_vested_market :: market where
  "example_vested_market = example_market
     \<lparr>mk_positions := Map.empty(7 := Some example_vested_position),
      mk_vestings := Map.empty(9 := Some example_vesting_account)\<rparr>"

lemma example_lock:
  "handle_lock_position example_clock example_owner start_pool 7 start_position example_vesting_parameters =
    Ok (example_vested_position, example_vesting_account)"
  by (simp add: handle_lock_position_def position_constraints_def example_owner_def lock_position_def
      vesting_parameters_validate_def get_cliff_point_def get_total_lock_amount_def
      example_vesting_parameters_def example_vesting_account_def example_vested_position_def
      example_clock_def start_pool_def start_position_def evaluation cong: evaluation_cong)

lemma example_vested_reachable: "reachable example_vested_market"
proof -
  have "market_step example_market (example_market
      \<lparr>mk_positions := (mk_positions example_market)(7 := Some example_vested_position),
       mk_vestings := (mk_vestings example_market)(9 := Some example_vesting_account)\<rparr>)"
    by (rule market_step.lock_position [where p = start_position and clk = example_clock
          and acc = example_owner and vp = example_vesting_parameters])
      (simp_all add: example_market_def example_lock)
  then have "market_step example_market example_vested_market"
    by (simp add: example_vested_market_def example_market_def)
  then show ?thesis using example_market_init by (auto simp: reachable_def reachable_from_def)
qed

text \<open>The creator initializes the first reward, for a day, and funds it.\<close>

lemmas reward_handler_eval =
  check_mint_def is_supported_mint_def get_token_program_flags_def u8_of_token_program_flags_def
  initialize_reward_validate_def check_reward_editor_def handle_initialize_reward_def
  fund_reward_validate_def funding_total_def handle_fund_reward_def
  calculate_transfer_fee_excluded_amount_def transfer_from_user_def

definition reward_mint :: mint_account where
  "reward_mint = example_mint 70"

lemma example_market_reward:
  obtains m where "reachable m" and "reward_initialized (reward_at (mk_pool m) 0)"
    and "mk_positions m 7 = Some start_position"
    and "rv_amount (mk_reward_vaults m 0) = 1000000"
proof -
  have "\<exists>q q' rv. handle_initialize_reward reward_mint [] 1 71 start_pool 0 86400 1 = Ok q \<and>
    handle_fund_reward example_clock plain_token 1 q \<lparr> rv_key = 71, rv_is_frozen = False, rv_amount = 0 \<rparr> 0
      1000000 False = Ok (q', rv) \<and> reward_initialized (slot0 (pl_reward_infos q')) \<and> rv_amount rv = 1000000"
    by (simp add: reward_mint_def example_mint_def example_clock_def start_pool_def plain_token_def
        reward_handler_eval evaluation cong: evaluation_cong)
  then obtain q q' rv where
    h: "handle_initialize_reward reward_mint [] 1 71 start_pool 0 86400 1 = Ok q"
    "handle_fund_reward example_clock plain_token 1 q \<lparr> rv_key = 71, rv_is_frozen = False, rv_amount = 0 \<rparr> 0
      1000000 False = Ok (q', rv)"
    and r: "reward_initialized (slot0 (pl_reward_infos q'))" "rv_amount rv = 1000000" by blast
  let ?m = "example_market\<lparr>mk_pool := q, mk_reward_vaults := (mk_reward_vaults example_market)
    (unat (0 :: u8) := \<lparr> rv_key = 71, rv_is_frozen = False, rv_amount = 0 \<rparr>)\<rparr>"
  let ?m' = "?m\<lparr>mk_pool := q', mk_reward_vaults := (mk_reward_vaults ?m)(unat (0 :: u8) := rv)\<rparr>"
  have "market_step example_market ?m"
    by (rule market_step.initialize_reward [where mint = reward_mint and rem = "[]" and signer = 1
          and d = 86400 and funder = 1]) (simp add: example_market_def h(1))
  moreover have "market_step ?m ?m'"
    by (rule market_step.fund_reward [OF _ plain_token_law, where clk = example_clock and funder = 1
          and x = 1000000 and cf = False]) (simp add: h(2))
  ultimately have "market_step\<^sup>*\<^sup>* example_market ?m'" by (meson r_into_rtranclp rtranclp.rtrancl_into_rtrancl)
  then have "reachable ?m'" using example_market_init by (auto simp: reachable_def reachable_from_def)
  then show thesis
    by (rule that) (simp_all add: example_market_def reward_at_def r)
qed

section \<open>The entry point\<close>

definition example_entry :: entry_context where
  "example_entry =
     \<lparr> ec_ids = example_ids, ec_event_tag = [7, 7, 7, 7, 7, 7, 7, 7], ec_clock = example_clock,
       ec_transaction = example_transaction, ec_token_a = plain_token, ec_token_b = plain_token \<rparr>"

lemma example_entry_tags: "wf_tags example_entry"
  by (simp add: wf_tags_def example_entry_def example_ids_def example_program_def)

lemma example_dispatch:
  "dispatched_swap example_entry example_accounts start_pool start_vaults params =
    p_handle_swap example_context start_pool start_vaults params"
proof -
  have l: "take SWAP_IX_ACCOUNTS example_accounts = example_accounts"
    "drop SWAP_IX_ACCOUNTS example_accounts = []"
    by (simp_all add: SWAP_IX_ACCOUNTS_def example_accounts_def)
  have "example_transaction\<lparr>ti_remaining_accounts := []\<rparr> = example_transaction"
    by (simp add: example_transaction_def)
  then show ?thesis
    by (simp add: dispatched_swap_def l example_entry_def example_swap_instruction)
qed

lemma example_entry_values:
  "100 = id_program (ai_program (ec_ids example_entry))"
  "id_swap_discriminator (ai_program (ec_ids example_entry)) = [1, 2, 3, 4, 5, 6, 7, 8]"
  "id_swap2_discriminator (ai_program (ec_ids example_entry)) = [2, 2, 3, 4, 5, 6, 7, 8]"
  "ec_token_a example_entry = plain_token" "ec_token_b example_entry = plain_token"
  "SWAP_IX_ACCOUNTS \<le> length example_accounts"
  by (simp_all add: example_entry_def example_ids_def example_program_def SWAP_IX_ACCOUNTS_def
      example_accounts_def)

section \<open>Leaving the pool\<close>

text \<open>The owner of the first position leaves, with tokens of which one withholds a transfer fee.\<close>

definition example_withdrawal :: liquidity_context where
  "example_withdrawal =
     \<lparr> lc_clock = example_clock, lc_accounts = example_owner, lc_token_a = fee_token, lc_token_b = plain_token \<rparr>"

lemma example_withdrawal_owner: "position_constraints (lc_accounts example_withdrawal) start_position = Ok ()"
  by (simp add: position_constraints_def example_owner_def example_withdrawal_def start_position_def)

lemma example_withdrawal_allowed:
  "get_current_point (lc_clock example_withdrawal) (pl_activation_type start_pool) = Ok 1000"
  "pl_activation_point start_pool = 1000"
  "pays_out (lc_token_a example_withdrawal)" "pays_out (lc_token_b example_withdrawal)"
  "pool_update_rewards start_pool t = Ok start_pool"
  by (simp_all add: example_withdrawal_def fee_token_pays_out plain_token_pays_out example_clock_def
      start_pool_def pool_initialize_def get_current_point_def pool_update_rewards_def
      reward_update_rewards_def reward_initialized_def reward_info_default_def)

lemma example_withdrawal_worth: "1 \<le> reserve A 18446744073709551616000000 start_pool"
  by (simp add: reserve_def reserve_a_def virtual_a_def start_pool_def pool_initialize_def)

lemma example_swapped_market:
  obtains m where "market_step example_market m" and "reachable m" and "mk_positions m 7 = Some start_position"
proof -
  obtain q v r where s: "market_step example_market (example_market\<lparr>mk_pool := q, mk_vaults := v\<rparr>)"
    by (rule example_market_swaps) blast
  have "mk_positions (example_market\<lparr>mk_pool := q, mk_vaults := v\<rparr>) 7 = Some start_position"
    by (simp add: example_market_def)
  moreover have "reachable (example_market\<lparr>mk_pool := q, mk_vaults := v\<rparr>)"
    using example_market_reachable s unfolding reachable_def reachable_from_def
    by (meson rtranclp.rtrancl_into_rtrancl)
  ultimately show thesis using s that by blast
qed

end
