(* ===== verification/Transaction_Swaps.thy ===== *)
theory Transaction_Swaps
  imports Swap_Handler
begin

text \<open>
  The swaps of a whole transaction, for the check of \<^verbatim>\<open>validate_single_swap_instruction\<close>: what each
  instruction of a transaction reads of it while it runs, and that at most one of the swaps on a pool
  to which the rate limiter applies can succeed.

  The runtime that executes transactions is not part of the source. A transaction is a forest of
  calls, and the runtime's documented rules for it are \<open>runtime_rules\<close>.
\<close>

section \<open>Transactions\<close>

text \<open>An instruction and the calls that it makes while it runs, in their order.\<close>

datatype call = Call (call_instruction: instruction) (call_inner: "call list")

text \<open>
  The calls of a forest in the order in which they start, each with its stack height and the siblings
  already processed: the earlier calls of the same parent, the last one first, as
  \<^verbatim>\<open>get_processed_sibling_instruction\<close> numbers them.
\<close>

fun started :: "nat \<Rightarrow> instruction list \<Rightarrow> call list \<Rightarrow> (instruction \<times> nat \<times> instruction list) list" where
  "started h siblings [] = []"
| "started h siblings (Call i inner # rest) =
     (i, h, siblings) # started (Suc h) [] inner @ started h (i # siblings) rest"

text \<open>All calls of a transaction, each with the index of the instruction of the transaction it is part of.\<close>

fun executed_from ::
  "nat \<Rightarrow> instruction list \<Rightarrow> call list \<Rightarrow> (nat \<times> instruction \<times> nat \<times> instruction list) list" where
  "executed_from k siblings [] = []"
| "executed_from k siblings (c # rest) =
     (k, call_instruction c, 1, siblings) # map (Pair k) (started 2 [] (call_inner c)) @
       executed_from (Suc k) (call_instruction c # siblings) rest"

definition executed :: "call list \<Rightarrow> (nat \<times> instruction \<times> nat \<times> instruction list) list" where
  "executed txn = executed_from 0 [] txn"

text \<open>What a call reads of the transaction: the sysvar lists the instructions of the transaction.\<close>

definition introspection_of ::
  "pubkey list \<Rightarrow> call list \<Rightarrow> nat \<Rightarrow> nat \<Rightarrow> instruction list \<Rightarrow> introspection" where
  "introspection_of remaining txn k h siblings =
     \<lparr> ti_remaining_accounts = remaining, ti_instructions = map call_instruction txn,
       ti_current_index = k, ti_stack_height = h, ti_siblings = siblings \<rparr>"

text \<open>
  The rules of the runtime: a call can only name accounts of the instruction of the transaction that it
  is part of, and a program is entered again only by itself, so that an instruction of this
  program reaches it only by the calls it makes to itself, which log events and do not swap.
\<close>

definition runtime_rules :: "program_ids \<Rightarrow> call list \<Rightarrow> bool" where
  "runtime_rules ids txn \<longleftrightarrow>
     (\<forall>c\<in>set txn. \<forall>(i, h, siblings)\<in>set (started 2 [] (call_inner c)).
        set (in_accounts i) \<subseteq> set (in_accounts (call_instruction c)) \<and>
        (in_program_id (call_instruction c) = id_program ids \<and> in_program_id i = id_program ids \<longrightarrow>
           \<not> is_swap_data ids (in_data i)))"

text \<open>
  A call of the transaction is a limited swap on a pool when it is a swap on it, the handler succeeds
  on what it reads of the transaction, and the rate limiter of the pool applies to it.
\<close>

definition limited_swap ::
  "program_ids \<Rightarrow> pubkey \<Rightarrow> call list \<Rightarrow> nat \<times> instruction \<times> nat \<times> instruction list \<Rightarrow> bool" where
  "limited_swap ids pool txn = (\<lambda>(k, i, h, siblings). swaps_on ids pool i \<and>
     (\<exists>ctx q v params s remaining cp d limiter.
        sc_ids ctx = ids \<and> sc_pool_key ctx = pool \<and>
        sc_transaction ctx = introspection_of remaining txn k h siblings \<and>
        p_handle_swap ctx q v params = Ok s \<and>
        get_current_point (sc_clock ctx) (pl_activation_type q) = Ok cp \<and>
        get_trade_direction (sc_input_token_account_mint ctx) (sc_token_a_mint_key ctx) = Ok d \<and>
        to_fee_rate_limiter (pf_base_fee (pl_pool_fees q)) = Ok limiter \<and>
        is_rate_limiter_applied limiter cp (pl_activation_point q) d = Ok True))"

section \<open>What the check sees\<close>

lemma started_height: "(i, h', siblings') \<in> set (started h siblings cs) \<Longrightarrow> h \<le> h'"
  by (induction h siblings cs rule: started.induct) auto

lemma started_siblings:
  "(i, h, siblings') \<in> set (started h siblings cs) \<Longrightarrow> set siblings \<subseteq> set siblings'"
  by (induction h siblings cs rule: started.induct) (auto dest: started_height)

text \<open>Of two calls of the same parent, the later one has the earlier one among its siblings.\<close>

lemma started_pairs:
  "sorted_wrt (\<lambda>(i, h1, s1) (j, h2, s2). h1 = h \<and> h2 = h \<longrightarrow> i \<in> set s2) (started h siblings cs)"
proof (induction h siblings cs rule: started.induct)
  case (2 h siblings i inner rest)
  have deep: "h1 \<noteq> h" if "(j, h1, s1) \<in> set (started (Suc h) [] inner)" for j h1 s1
    using started_height [OF that] by simp
  have later: "i \<in> set s1" if "(j, h, s1) \<in> set (started h (i # siblings) rest)" for j s1
    using started_siblings [OF that] by simp
  have "sorted_wrt (\<lambda>(i, h1, s1) (j, h2, s2). h1 = h \<and> h2 = h \<longrightarrow> i \<in> set s2) (started (Suc h) [] inner)"
    using 2(1) by (rule sorted_wrt_mono_rel [rotated]) (use deep in auto)
  then show ?case using 2(2) deep later by (fastforce simp: sorted_wrt_append)
qed simp

lemma filter_at_most_one:
  "sorted_wrt (\<lambda>x y. \<not> (P x \<and> P y)) xs \<Longrightarrow> length (filter P xs) \<le> 1"
  by (induction xs) (auto simp: filter_empty_conv)

lemma limited_swap_checked:
  assumes "limited_swap ids pool txn (k, i, h, siblings)"
  obtains remaining where
    "validate_single_swap_instruction ids (introspection_of remaining txn k h siblings) pool = Ok ()"
    and "swaps_on ids pool i"
proof -
  obtain ctx q v params s remaining cp d limiter where
    ctx: "sc_ids ctx = ids" "sc_pool_key ctx = pool"
      "sc_transaction ctx = introspection_of remaining txn k h siblings"
    and h: "p_handle_swap ctx q v params = Ok s"
    and l: "get_current_point (sc_clock ctx) (pl_activation_type q) = Ok cp"
      "get_trade_direction (sc_input_token_account_mint ctx) (sc_token_a_mint_key ctx) = Ok d"
      "to_fee_rate_limiter (pf_base_fee (pl_pool_fees q)) = Ok limiter"
      "is_rate_limiter_applied limiter cp (pl_activation_point q) d = Ok True"
    and on: "swaps_on ids pool i"
    using assms unfolding limited_swap_def by blast
  have "check_rate_limiter ctx q cp d = Ok ()"
    using h l(1,2) by (cases d) (auto simp: p_handle_swap_def rbind_Ok_iff require_Ok_iff Let_def split: prod.splits)
  then have "validate_single_swap_instruction ids (introspection_of remaining txn k h siblings) pool = Ok ()"
    using ctx l(3,4) by (simp add: check_rate_limiter_def)
  then show thesis using on that by blast
qed

text \<open>
  The check on a call, read on the transaction: no earlier instruction of the transaction swaps on the pool
  or, from another program, names it; and inside the instruction of another program the
  call is made by that program itself, unless the program is whitelisted, and none of its siblings
  swaps on the pool.
\<close>

lemma validated_introspection:
  assumes "validate_single_swap_instruction ids (introspection_of remaining txn k h siblings) pool = Ok ()"
    and "k < length txn"
  shows "l < k \<Longrightarrow> \<not> swaps_on ids pool (call_instruction (txn ! l)) \<and>
      (in_program_id (call_instruction (txn ! l)) \<noteq> id_program ids \<longrightarrow>
        pool \<notin> set (in_accounts (call_instruction (txn ! l))))"
    and "in_program_id (call_instruction (txn ! k)) \<noteq> id_program ids \<Longrightarrow>
      h \<le> 2 \<or> in_program_id (call_instruction (txn ! k)) \<in> set (id_stack_whitelist ids)"
    and "in_program_id (call_instruction (txn ! k)) \<noteq> id_program ids \<Longrightarrow>
      s \<in> set siblings \<Longrightarrow> \<not> swaps_on ids pool s"
proof -
  note v = validate_single_swap_Ok [OF assms(1), unfolded introspection_of_def introspection.simps]
  show "\<not> swaps_on ids pool (call_instruction (txn ! l)) \<and>
      (in_program_id (call_instruction (txn ! l)) \<noteq> id_program ids \<longrightarrow>
        pool \<notin> set (in_accounts (call_instruction (txn ! l))))" if "l < k"
    using v(2) [OF that] that assms(2) by simp
  show "\<not> swaps_on ids pool s" if "in_program_id (call_instruction (txn ! k)) \<noteq> id_program ids"
    "s \<in> set siblings" using v(3) [OF _ that(2)] that assms(2) by simp
  show "h \<le> 2 \<or> in_program_id (call_instruction (txn ! k)) \<in> set (id_stack_whitelist ids)"
    if "in_program_id (call_instruction (txn ! k)) \<noteq> id_program ids"
    using assms that by (auto simp: validate_single_swap_instruction_def introspection_of_def Let_def
        rbind_Ok_iff split: list.splits if_splits)
qed

section \<open>One limited swap\<close>

text \<open>The calls of an instruction of the transaction: the instruction itself, or one it leads to.\<close>

definition calls_of :: "call list \<Rightarrow> nat \<Rightarrow> (nat \<times> instruction \<times> nat \<times> instruction list) set" where
  "calls_of txn k = {(k', i, h, siblings). k' = k \<and> k < length txn \<and>
     (i = call_instruction (txn ! k) \<and> h = 1 \<or>
      (i, h, siblings) \<in> set (started 2 [] (call_inner (txn ! k))))}"

lemma executed_from_calls:
  assumes "x \<in> set (executed_from (length done) siblings cs)" and "txn = done @ cs"
  shows "length done \<le> fst x \<and> x \<in> calls_of txn (fst x)"
  using assms
proof (induction cs arbitrary: "done" siblings)
  case (Cons c cs)
  have "x = (length done, call_instruction c, 1, siblings) \<or>
      x \<in> Pair (length done) ` set (started 2 [] (call_inner c)) \<or>
      x \<in> set (executed_from (length (done @ [c])) (call_instruction c # siblings) cs)"
    using Cons.prems(1) by auto
  then show ?case
  proof (elim disjE)
    assume "x \<in> set (executed_from (length (done @ [c])) (call_instruction c # siblings) cs)"
    from Cons.IH [OF this] show ?thesis using Cons.prems(2) by simp
  qed (auto simp: calls_of_def Cons.prems(2))
qed simp

lemma swap_inside:
  assumes rules: "runtime_rules ids txn" and x: "(k, i, h, siblings) \<in> calls_of txn k"
    and on: "swaps_on ids pool i"
  shows "swaps_on ids pool (call_instruction (txn ! k)) \<and> h = 1 \<or>
    in_program_id (call_instruction (txn ! k)) \<noteq> id_program ids \<and>
      pool \<in> set (in_accounts (call_instruction (txn ! k))) \<and>
      (i, h, siblings) \<in> set (started 2 [] (call_inner (txn ! k)))"
proof (cases "(i, h, siblings) \<in> set (started 2 [] (call_inner (txn ! k)))")
  case True
  have mem: "txn ! k \<in> set txn" using x by (simp add: calls_of_def)
  have "set (in_accounts i) \<subseteq> set (in_accounts (call_instruction (txn ! k))) \<and>
      (in_program_id (call_instruction (txn ! k)) = id_program ids \<and> in_program_id i = id_program ids \<longrightarrow>
        \<not> is_swap_data ids (in_data i))"
    using rules mem True unfolding runtime_rules_def by blast
  moreover have "pool \<in> set (in_accounts i)" using on unfolding swaps_on_def by (metis nth_mem)
  ultimately show ?thesis using on True by (auto simp: swaps_on_def)
next
  case False
  then show ?thesis using x on by (simp add: calls_of_def)
qed

lemma no_two_instructions:
  assumes "runtime_rules ids txn" and "x \<in> calls_of txn k" and "y \<in> calls_of txn k'" and "k < k'"
  shows "\<not> (limited_swap ids pool txn x \<and> limited_swap ids pool txn y)"
proof
  assume l: "limited_swap ids pool txn x \<and> limited_swap ids pool txn y"
  obtain i h s i' h' s' where x: "x = (k, i, h, s)" and y: "y = (k', i', h', s')" and k': "k' < length txn"
    using assms(2,3) by (auto simp: calls_of_def)
  obtain remaining where v: "validate_single_swap_instruction ids
      (introspection_of remaining txn k' h' s') pool = Ok ()"
    using l limited_swap_checked unfolding y by blast
  have on: "swaps_on ids pool i" using l limited_swap_checked unfolding x by blast
  from validated_introspection(1) [OF v k' assms(4)] swap_inside [OF assms(1) assms(2) [unfolded x] on]
  show False by blast
qed

text \<open>Inside the instruction of a program that is not whitelisted, both would be calls of that program itself.\<close>

lemma started_once:
  assumes rules: "runtime_rules ids txn" and k: "k < length txn"
    and other: "in_program_id (call_instruction (txn ! k)) \<noteq> id_program ids"
    and white: "in_program_id (call_instruction (txn ! k)) \<notin> set (id_stack_whitelist ids)"
  shows "sorted_wrt (\<lambda>x y. \<not> (limited_swap ids pool txn x \<and> limited_swap ids pool txn y))
    (map (Pair k) (started 2 [] (call_inner (txn ! k))))"
proof -
  let ?xs = "started 2 [] (call_inner (txn ! k))"
  have two: "h = 2" if l: "limited_swap ids pool txn (k, i, h, s)" and mem: "(i, h, s) \<in> set ?xs" for i h s
  proof -
    obtain remaining where "validate_single_swap_instruction ids (introspection_of remaining txn k h s) pool = Ok ()"
      using limited_swap_checked [OF l] by blast
    from validated_introspection(2) [OF this k other] white started_height [OF mem] show ?thesis by simp
  qed
  have "\<not> (limited_swap ids pool txn (k, x) \<and> limited_swap ids pool txn (k, y))"
    if xy: "x \<in> set ?xs" "y \<in> set ?xs"
      and p: "(\<lambda>(i, h1, s1) (j, h2, s2). h1 = 2 \<and> h2 = 2 \<longrightarrow> i \<in> set s2) x y" for x y
  proof
    assume l: "limited_swap ids pool txn (k, x) \<and> limited_swap ids pool txn (k, y)"
    obtain i h s i' h' s' where e: "x = (i, h, s)" "y = (i', h', s')" by (cases x; cases y) auto
    obtain remaining where v: "validate_single_swap_instruction ids
        (introspection_of remaining txn k h' s') pool = Ok ()"
      using l limited_swap_checked unfolding e by blast
    have "i \<in> set s'" using p two l xy unfolding e by auto
    moreover have "swaps_on ids pool i" using l limited_swap_checked unfolding e by blast
    ultimately show False using validated_introspection(3) [OF v k other] by blast
  qed
  then show ?thesis
    unfolding sorted_wrt_map using started_pairs [of 2 "[]" "call_inner (txn ! k)"]
    by (rule sorted_wrt_mono_rel)
qed

lemma executed_once:
  assumes rules: "runtime_rules ids txn"
    and white: "\<forall>c\<in>set txn. in_program_id (call_instruction c) \<notin> set (id_stack_whitelist ids)"
    and "txn = done @ cs"
  shows "sorted_wrt (\<lambda>x y. \<not> (limited_swap ids pool txn x \<and> limited_swap ids pool txn y))
    (executed_from (length done) siblings cs)"
  using assms(3)
proof (induction cs arbitrary: "done" siblings)
  case (Cons c cs)
  let ?L = "limited_swap ids pool txn" and ?k = "length done"
  let ?x = "(?k, call_instruction c, 1 :: nat, siblings)" and ?inner = "map (Pair ?k) (started 2 [] (call_inner c))"
  let ?rest = "executed_from (length (done @ [c])) (call_instruction c # siblings) cs"
  have c: "txn ! ?k = c" and k: "?k < length txn" using Cons.prems by simp_all
  have x: "?x \<in> calls_of txn ?k" using c k by (simp add: calls_of_def)
  have inner: "y \<in> calls_of txn ?k" if "y \<in> set ?inner" for y using that c k by (auto simp: calls_of_def)
  have rest: "\<not> (?L z \<and> ?L y)" if "z \<in> calls_of txn ?k" "y \<in> set ?rest" for z y
    using executed_from_calls [OF that(2)] Cons.prems no_two_instructions [OF rules that(1)] by fastforce
  have head: "\<not> (?L ?x \<and> ?L y)" if mem: "y \<in> set ?inner" for y
  proof
    assume l: "?L ?x \<and> ?L y"
    then have "swaps_on ids pool (call_instruction c)" using limited_swap_checked by blast
    then have own: "in_program_id (call_instruction c) = id_program ids" by (simp add: swaps_on_def)
    obtain i h s where y: "y = (?k, i, h, s)" "(i, h, s) \<in> set (started 2 [] (call_inner c))"
      using mem by auto
    have "swaps_on ids pool i" using l limited_swap_checked unfolding y by blast
    from swap_inside [OF rules inner [OF mem, unfolded y(1)] this] own y(2) started_height [OF y(2)]
    show False by (simp add: c)
  qed
  have once: "sorted_wrt (\<lambda>x y. \<not> (?L x \<and> ?L y)) ?inner"
  proof (cases "in_program_id (call_instruction c) = id_program ids")
    case False
    then show ?thesis using started_once [OF rules k, of pool] white c Cons.prems by simp
  next
    case own: True
    have "\<not> ?L y" if mem: "y \<in> set ?inner" for y
    proof
      assume l: "?L y"
      obtain i h s where y: "y = (?k, i, h, s)" "(i, h, s) \<in> set (started 2 [] (call_inner c))"
        using mem by auto
      have "swaps_on ids pool i" using l limited_swap_checked unfolding y by blast
      from swap_inside [OF rules inner [OF mem, unfolded y(1)] this] own started_height [OF y(2)]
      show False by (simp add: c)
    qed
    then show ?thesis by (auto simp: sorted_wrt_iff_nth_less)
  qed
  have "sorted_wrt (\<lambda>x y. \<not> (?L x \<and> ?L y)) ?rest" by (rule Cons.IH) (simp add: Cons.prems)
  then have rec: "sorted_wrt (\<lambda>x y. \<not> (?L x \<and> ?L y)) (executed_from (Suc ?k) (call_instruction c # siblings) cs)"
    by simp
  have tail: "\<not> (?L z \<and> ?L y)" if "z = ?x \<or> z \<in> set ?inner"
    "y \<in> set (executed_from (Suc ?k) (call_instruction c # siblings) cs)" for z y
    using that x inner rest [of z y] by (metis length_append_singleton)
  show ?case unfolding executed_from.simps sorted_wrt.simps(2) sorted_wrt_append
    using once rec head tail by (metis (no_types, lifting) Un_iff set_append)
qed simp

lemma at_most_one_limited_swap:
  assumes "runtime_rules ids txn"
  shows "\<exists>k. \<forall>x\<in>set (executed txn). limited_swap ids pool txn x \<longrightarrow> fst x = k"
    and "\<forall>c\<in>set txn. in_program_id (call_instruction c) \<notin> set (id_stack_whitelist ids) \<Longrightarrow>
      length (filter (limited_swap ids pool txn) (executed txn)) \<le> 1"
proof -
  have calls: "x \<in> calls_of txn (fst x)" if "x \<in> set (executed txn)" for x
    using executed_from_calls [of x "[]" "[]" txn txn] that by (simp add: executed_def)
  have "fst x = fst y" if "x \<in> set (executed txn)" "y \<in> set (executed txn)"
    "limited_swap ids pool txn x" "limited_swap ids pool txn y" for x y
    using no_two_instructions [OF assms calls [OF that(1)] calls [OF that(2)]]
      no_two_instructions [OF assms calls [OF that(2)] calls [OF that(1)]] that(3,4)
    by (meson linorder_neqE_nat)
  then show "\<exists>k. \<forall>x\<in>set (executed txn). limited_swap ids pool txn x \<longrightarrow> fst x = k" by metis
  show "length (filter (limited_swap ids pool txn) (executed txn)) \<le> 1"
    if "\<forall>c\<in>set txn. in_program_id (call_instruction c) \<notin> set (id_stack_whitelist ids)"
    using executed_once [OF assms that, of "[]" txn pool "[]"]
    by (intro filter_at_most_one) (simp add: executed_def)
qed

end
