(* ===== verification/Swap_Correct.thy ===== *)
theory Swap_Correct
  imports Examples Fees_Correct Transaction_Swaps
begin

text \<open>
  The properties of swaps, from the curve to the bytes of the instruction, each with an instance on
  the example market.
\<close>

section \<open>The computation\<close>

text \<open>
  C18. An exact-output swap is sound: it pays exactly the amount asked for, the price stays in the range
  of the pool, and what the trader pays covers the move of the curve and the fees.
\<close>

theorem exact_output_swap_sound:
  assumes "wf_prices q" and "get_swap_result_from_exact_output q y fm d cp = Ok r"
  shows "sound_swap q fm d r \<and> sr_output_amount r = y \<and> sr_amount_left r = 0 \<and>
    unat (pl_sqrt_min_price q) \<le> unat (sr_next_sqrt_price r) \<and>
    unat (sr_next_sqrt_price r) \<le> unat (pl_sqrt_max_price q)"
  using sound_swap_from_exact_output [OF assms(2)] sound_swap_price_in_range [OF assms(1)] by blast

theorem exact_output_swap_sound_witness:
  "\<exists>r. get_swap_result_from_exact_output example_pool 1000 example_mode AtoB 10 = Ok r \<and>
    sound_swap example_pool example_mode AtoB r \<and> sr_output_amount r = 1000"
  using example_exact_output exact_output_swap_sound [OF example_pool_wf(1)] by blast

text \<open>The price at which a swap in a direction has to stop.\<close>

definition price_bound :: "trade_direction \<Rightarrow> pool \<Rightarrow> u128" where
  "price_bound d q = (case d of AtoB \<Rightarrow> pl_sqrt_min_price q | BtoA \<Rightarrow> pl_sqrt_max_price q)"

lemma partial_fill_stops_at_bound:
  "calculate_a_to_b_from_partial_amount_in q x = Ok s \<Longrightarrow> si_amount_left s \<noteq> 0 \<Longrightarrow>
    si_next_sqrt_price s = price_bound AtoB q"
  "calculate_b_to_a_from_partial_amount_in q x = Ok s \<Longrightarrow> si_amount_left s \<noteq> 0 \<Longrightarrow>
    si_next_sqrt_price s = price_bound BtoA q"
  by (auto simp: calculate_a_to_b_from_partial_amount_in_def
      calculate_b_to_a_from_partial_amount_in_def price_bound_def rbind_Ok_iff safe_ops_iff unat_eq_zero
      split: if_splits)

lemma partial_fill_accounts_for_input:
  assumes wf: "wf_prices q" and g: "get_swap_result_from_partial_input q x fm d cp = Ok r"
  shows "sr_amount_left r \<noteq> 0 \<Longrightarrow> sr_next_sqrt_price r = price_bound d q"
    and "\<exists>mx n. get_max_fee_numerator (pl_version q) = Ok mx \<and>
      get_total_trading_fee_from_included_fee_amount (pl_pool_fees q) cp (pl_activation_point q) x d mx
        (pl_sqrt_price q) = Ok n \<and>
      unat x = unat (sr_excluded_fee_input_amount r) + unat (sr_amount_left r) +
        (if fm_fees_on_input fm then div_up (unat x * unat n) 1000000000 else 0)"
proof -
  obtain mx n x' fees s inc x'' fees' out fees'' where
    n: "get_max_fee_numerator (pl_version q) = Ok mx"
      "get_total_trading_fee_from_included_fee_amount (pl_pool_fees q) cp (pl_activation_point q) x d mx
        (pl_sqrt_price q) = Ok n" and
    i: "(if fm_fees_on_input fm then exclude_fee q x n fm else Ok (x, no_fees)) = Ok (x', fees)" and
    c: "(case d of AtoB \<Rightarrow> calculate_a_to_b_from_partial_amount_in q x'
          | BtoA \<Rightarrow> calculate_b_to_a_from_partial_amount_in q x') = Ok s" and
    k: "(if 0 < si_amount_left s then
           rbind (safe_sub x' (si_amount_left s)) (\<lambda>x'.
           if fm_fees_on_input fm then
             rbind (include_fee q x' fm d cp mx) (\<lambda>(inc, fees). Ok (inc, x', fees))
           else Ok (x', x', fees))
         else Ok (x, x', fees)) = Ok (inc, x'', fees')" and
    r: "sr_excluded_fee_input_amount r = x''" "sr_amount_left r = si_amount_left s"
      "sr_next_sqrt_price r = si_next_sqrt_price s"
    using g by (auto simp: get_swap_result_from_partial_input_def rbind_Ok_iff)
  show "sr_next_sqrt_price r = price_bound d q" if "sr_amount_left r \<noteq> 0"
    using c that partial_fill_stops_at_bound by (cases d) (simp_all add: r)
  have x'': "unat x' = unat x'' + unat (si_amount_left s)"
    using k by (cases "si_amount_left s = 0")
      (auto simp: rbind_Ok_iff safe_ops_iff word_less_unat unat_gt_0 split: if_splits)
  have "unat x = unat x' + (if fm_fees_on_input fm then div_up (unat x * unat n) 1000000000 else 0)"
    using i by (auto simp: exclude_fee_def rbind_Ok_iff dest: get_fee_on_amount_total(2)
        split: if_splits)
  then show "\<exists>mx n. get_max_fee_numerator (pl_version q) = Ok mx \<and>
      get_total_trading_fee_from_included_fee_amount (pl_pool_fees q) cp (pl_activation_point q) x d mx
        (pl_sqrt_price q) = Ok n \<and>
      unat x = unat (sr_excluded_fee_input_amount r) + unat (sr_amount_left r) +
        (if fm_fees_on_input fm then div_up (unat x * unat n) 1000000000 else 0)"
    using n x'' by (intro exI [of _ mx] exI [of _ n] conjI) (simp_all add: r)
qed

text \<open>
  C19. A partial fill is sound: it moves along the curve within the range of the pool, and it leaves
  something only when it has gone to the end of the range. What it consumes and what it leaves make up
  the amount offered: all of it when the fees are on the output; when they are on the input, what
  remains of it after the fee at the rate of the amount offered, and if nothing is left the
  trader pays exactly the amount offered.
\<close>

theorem partial_fill_swap_sound:
  assumes "wf_prices q" and "get_swap_result_from_partial_input q x fm d cp = Ok r"
  shows "sound_swap q fm d r \<and>
    (sr_amount_left r = 0 \<longrightarrow> sr_included_fee_input_amount r = x) \<and>
    (sr_amount_left r \<noteq> 0 \<longrightarrow> sr_next_sqrt_price r =
      (case d of AtoB \<Rightarrow> pl_sqrt_min_price q | BtoA \<Rightarrow> pl_sqrt_max_price q)) \<and>
    (\<not> fm_fees_on_input fm \<longrightarrow>
      unat x = unat (sr_included_fee_input_amount r) + unat (sr_amount_left r)) \<and>
    (\<exists>mx n. get_max_fee_numerator (pl_version q) = Ok mx \<and>
      get_total_trading_fee_from_included_fee_amount (pl_pool_fees q) cp (pl_activation_point q) x d mx
        (pl_sqrt_price q) = Ok n \<and>
      unat x = unat (sr_excluded_fee_input_amount r) + unat (sr_amount_left r) +
        (if fm_fees_on_input fm then div_up (unat x * unat n) 1000000000 else 0)) \<and>
    unat (pl_sqrt_min_price q) \<le> unat (sr_next_sqrt_price r) \<and>
    unat (sr_next_sqrt_price r) \<le> unat (pl_sqrt_max_price q)"
  using sound_swap_from_partial_input [OF assms] sound_swap_price_in_range [OF assms(1)]
    partial_fill_accounts_for_input [OF assms] unfolding price_bound_def by blast

theorem partial_fill_swap_sound_witness:
  "\<exists>r. get_swap_result_from_partial_input example_pool 100000 example_mode AtoB 10 = Ok r \<and>
    sound_swap example_pool example_mode AtoB r"
  using example_partial_input partial_fill_swap_sound [OF example_pool_wf(1)] by blast

text \<open>
  C20. Nobody gains on the curve by trading there and back: selling an amount and then selling at most
  the proceeds in the other direction returns at most the amount, for every price, liquidity and
  direction, although each computation rounds.
\<close>

theorem no_gain_there_and_back:
  assumes "curve_sell d p l x = Ok (p', y)" and "curve_sell (\<not> d) p' l y' = Ok (p'', x')"
    and "unat y' \<le> unat y"
  shows "unat x' \<le> unat x"
  by (rule curve_sell_no_gain [OF assms])

theorem no_gain_there_and_back_witness:
  "\<exists>p' y p'' x'. curve_sell True 18446744073709551616 18446744073709551616000000 1000 = Ok (p', y) \<and>
    curve_sell False p' 18446744073709551616000000 y = Ok (p'', x') \<and> unat x' \<le> unat (1000 :: u64)"
proof -
  have "\<exists>p' y p'' x'. curve_sell True 18446744073709551616 18446744073709551616000000 1000 = Ok (p', y) \<and>
    curve_sell False p' 18446744073709551616000000 y = Ok (p'', x')"
    by (simp add: curve_sell_def evaluation cong: evaluation_cong)
  then obtain p' y p'' x' where
    c: "curve_sell True 18446744073709551616 18446744073709551616000000 1000 = Ok (p', y)"
    "curve_sell False p' 18446744073709551616000000 y = Ok (p'', x')" by blast
  have "unat x' \<le> unat (1000 :: u64)"
    by (rule no_gain_there_and_back [OF c(1) _ order_refl]) (simp add: c(2))
  with c show ?thesis by blast
qed

section \<open>The instruction\<close>

text \<open>
  A swap acts on the accounts of its pool only: when the instruction succeeds, the pool account
  belongs to the program and is writable, the two vaults are those that the pool names, they hold the
  mints that are passed and belong to the token programs that are passed, and the payer has signed.
\<close>

theorem swap_uses_accounts_of_pool:
  assumes "swap_instruction ids clk tx ta tb accounts q v params = Ok s"
  shows "14 \<le> length accounts \<and>
    ac_owner (accounts ! 1) = id_program (ai_program ids) \<and> ac_is_writable (accounts ! 1) \<and>
    ac_key (accounts ! 4) = pl_token_a_vault q \<and> ac_key (accounts ! 5) = pl_token_b_vault q \<and>
    p_accessor_mint (accounts ! 4) = Ok (ac_key (accounts ! 6)) \<and>
    p_accessor_mint (accounts ! 5) = Ok (ac_key (accounts ! 7)) \<and>
    ac_owner (accounts ! 4) = ac_key (accounts ! 9) \<and> ac_owner (accounts ! 5) = ac_key (accounts ! 10) \<and>
    ac_key (accounts ! 9) \<in> set (ai_token_programs ids) \<and>
    ac_key (accounts ! 10) \<in> set (ai_token_programs ids) \<and> ac_is_signer (accounts ! 8)"
proof -
  have "validate_p_accounts ids q accounts = Ok ()"
    using assms by (auto simp: swap_instruction_def rbind_Ok_iff)
  from validate_p_accounts_Ok [OF this] show ?thesis unfolding SWAP_IX_ACCOUNTS_def by blast
qed

theorem swap_uses_accounts_of_pool_witness:
  "ac_key (example_accounts ! 4) = pl_token_a_vault start_pool \<and>
   ac_key (example_accounts ! 5) = pl_token_b_vault start_pool \<and> ac_is_signer (example_accounts ! 8)"
proof -
  obtain s where "swap_instruction example_ids example_clock example_transaction plain_token plain_token
    example_accounts start_pool start_vaults example_swap = Ok s"
    using example_swap_Ok unfolding example_swap_instruction by blast
  from swap_uses_accounts_of_pool [OF this] show ?thesis by blast
qed

text \<open>
  C34. While the rate limiter applies, a transaction swaps on the pool once: of all calls of a transaction,
  those that its instructions lead to included, at most one is a swap on the pool that the handler
  accepts while the limiter applies to it. The program of a whitelisted wallet may nest its calls deeper
  than the check looks; even then all such swaps are part of one instruction of the transaction.
\<close>

theorem limited_pool_swaps_once:
  assumes "runtime_rules ids txn"
  shows "((\<forall>c\<in>set txn. in_program_id (call_instruction c) \<notin> set (id_stack_whitelist ids)) \<longrightarrow>
      length (filter (limited_swap ids pool txn) (executed txn)) \<le> 1) \<and>
    (\<exists>k. \<forall>x\<in>set (executed txn). limited_swap ids pool txn x \<longrightarrow> fst x = k)"
  using at_most_one_limited_swap [OF assms] by blast

definition limited_pool :: pool where
  "limited_pool = start_pool\<lparr>pl_pool_fees :=
     example_fees\<lparr>pf_base_fee := rl_to_pod_aligned_bytes example_limiter\<rparr>\<rparr>"

text \<open>A transaction whose second instruction, of another program, calls the swap.\<close>

definition limited_instruction :: instruction where
  "limited_instruction =
     \<lparr> in_program_id = 100, in_data = [1, 2, 3, 4, 5, 6, 7, 8], in_accounts = [20, 10] \<rparr>"

definition limited_transaction :: "call list" where
  "limited_transaction =
     [Call \<lparr> in_program_id = 77, in_data = [], in_accounts = [5] \<rparr> [],
      Call \<lparr> in_program_id = 78, in_data = [], in_accounts = [10, 20, 30] \<rparr> [Call limited_instruction []]]"

definition limited_context :: swap_context where
  "limited_context = example_context\<lparr>sc_input_token_account_mint := Ok 3,
     sc_transaction := introspection_of [101] limited_transaction 1 2 []\<rparr>"

lemma limited_pool_facts:
  "to_fee_rate_limiter (pf_base_fee (pl_pool_fees limited_pool)) = Ok example_limiter"
  "get_current_point (sc_clock limited_context) (pl_activation_type limited_pool) = Ok 1000"
  "get_trade_direction (sc_input_token_account_mint limited_context) (sc_token_a_mint_key limited_context) =
    Ok BtoA"
  "is_rate_limiter_applied example_limiter 1000 (pl_activation_point limited_pool) BtoA = Ok True"
  "validate_single_swap_instruction (sc_ids limited_context) (sc_transaction limited_context)
    (sc_pool_key limited_context) = Ok ()"
proof -
  show "to_fee_rate_limiter (pf_base_fee (pl_pool_fees limited_pool)) = Ok example_limiter"
    by (simp add: limited_pool_def to_fee_rate_limiter_def pod_mode example_limiter_def
        base_fee_mode_of_u8_def pod_round_trip)
  show "validate_single_swap_instruction (sc_ids limited_context) (sc_transaction limited_context)
    (sc_pool_key limited_context) = Ok ()"
    by (simp add: validate_single_swap_instruction_def limited_context_def example_context_def
        example_program_def introspection_of_def limited_transaction_def)
qed (simp_all add: limited_pool_def limited_context_def example_context_def start_pool_def
    example_limiter_def example_clock_def get_trade_direction_def evaluation cong: evaluation_cong)

lemma limited_pool_swaps:
  "\<exists>s. p_handle_swap limited_context limited_pool start_vaults (example_swap\<lparr>sw_amount_1 := 1\<rparr>) = Ok s"
proof -
  have l: "check_rate_limiter limited_context limited_pool 1000 BtoA = Ok ()"
    by (simp add: check_rate_limiter_def limited_pool_facts)
  have h: "info_get_base_fee_handler (rl_to_pod_aligned_bytes example_limiter) =
      Ok (LimiterHandler example_limiter)"
    by (simp add: info_get_base_fee_handler_def pod_mode pod_round_trip example_limiter_def
        base_fee_mode_of_u8_def)
  show ?thesis
    by (simp add: p_handle_swap_def limited_pool_facts l)
      (simp add: limited_context_def example_context_def example_clock_def
      limited_pool_def start_pool_def start_vaults_def example_swap_def example_fees_def
      h [unfolded example_limiter_def] example_limiter_def evaluation handler_eval
      cong: evaluation_cong)
qed

theorem limited_pool_swaps_once_witness:
  "length (filter (limited_swap example_program 10 limited_transaction) (executed limited_transaction)) = 1"
proof -
  let ?x = "(1 :: nat, limited_instruction, 2 :: nat, [] :: instruction list)"
  have rules: "runtime_rules example_program limited_transaction"
    by (simp add: runtime_rules_def limited_transaction_def limited_instruction_def example_program_def)
  have c: "sc_ids limited_context = example_program" "sc_pool_key limited_context = 10"
    "sc_transaction limited_context = introspection_of [101] limited_transaction 1 2 []"
    by (simp_all add: limited_context_def example_context_def)
  have on: "swaps_on example_program 10 limited_instruction"
    by (simp add: swaps_on_def limited_instruction_def example_program_def is_swap_data_def)
  obtain s where "p_handle_swap limited_context limited_pool start_vaults
      (example_swap\<lparr>sw_amount_1 := 1\<rparr>) = Ok s"
    using limited_pool_swaps by blast
  with on c limited_pool_facts(1-4) have "limited_swap example_program 10 limited_transaction ?x"
    unfolding limited_swap_def prod.case by blast
  then have "?x \<in> set (filter (limited_swap example_program 10 limited_transaction)
      (executed limited_transaction))"
    by (simp add: executed_def limited_transaction_def)
  moreover have "length (filter (limited_swap example_program 10 limited_transaction)
      (executed limited_transaction)) \<le> 1"
    using limited_pool_swaps_once [OF rules, of 10] by (simp add: example_program_def)
  ultimately show ?thesis by (cases "filter (limited_swap example_program 10 limited_transaction)
      (executed limited_transaction)") auto
qed

section \<open>The bytes of the instruction\<close>

text \<open>
  The two swap instructions agree: the data of the first, with an amount and a minimum, does on the
  same accounts exactly what the data of the second does with the same numbers in the mode of exact
  input, whatever bytes follow.
\<close>

theorem legacy_swap_is_exact_input:
  assumes "wf_tags ctx" and "pid = id_program (ai_program (ec_ids ctx))" and "14 \<le> length accounts"
  shows "p_entrypoint ctx pid accounts
      (id_swap_discriminator (ai_program (ec_ids ctx)) @ swap_parameters_serialize p @ post) q v =
    p_entrypoint ctx pid accounts
      (id_swap2_discriminator (ai_program (ec_ids ctx)) @
        swap_parameters2_serialize \<lparr> sw_amount_0 = sw_amount_in p, sw_amount_1 = sw_minimum_amount_out p,
          sw_swap_mode = 0 \<rparr> @ post') q v"
  using assms(3) entry_swap [OF assms(1,2)] entry_swap2 [OF assms(1,2)]
  by (simp add: SWAP_IX_ACCOUNTS_def to_swap_parameters2_def)

theorem legacy_swap_is_exact_input_witness:
  "p_entrypoint example_entry 100 example_accounts
    ([1, 2, 3, 4, 5, 6, 7, 8] @ swap_parameters_serialize
      \<lparr> sw_amount_in = 1000, sw_minimum_amount_out = 900 \<rparr> @ []) start_pool start_vaults =
   p_entrypoint example_entry 100 example_accounts
    ([2, 2, 3, 4, 5, 6, 7, 8] @ swap_parameters2_serialize example_swap @ []) start_pool start_vaults"
  using legacy_swap_is_exact_input [OF example_entry_tags, of 100 example_accounts
      "\<lparr> sw_amount_in = 1000, sw_minimum_amount_out = 900 \<rparr>" "[]" start_pool start_vaults "[]"]
  by (simp add: example_entry_def example_ids_def example_program_def example_accounts_def
      example_swap_def)

section \<open>Quotes\<close>

text \<open>
  C22. The quote of the SDK is the result of the swap: for a payer that is not the alpha vault, the quote
  on the pool as it is stored before the swap, at the time of the swap and for the amount that
  reaches the pool (with exact output: leaves it), is the result that the instruction applies, in all
  three modes, although the instruction first updates the references of the dynamic fee and the SDK
  does not.
\<close>

theorem quote_is_result_of_swap:
  assumes "p_handle_swap ctx q v params = Ok (q', v', r)"
    and "sc_payer ctx \<noteq> pl_whitelisted_vault q"
    and "get_trade_direction (sc_input_token_account_mint ctx) (sc_token_a_mint_key ctx) = Ok d"
  shows "(sw_swap_mode params = 0 \<longrightarrow>
      (\<exists>e. calculate_transfer_fee_excluded_amount
          (case d of AtoB \<Rightarrow> sc_token_a ctx | BtoA \<Rightarrow> sc_token_b ctx) (sw_amount_0 params) = Ok e \<and>
        quote_exact_in q (unix_timestamp (sc_clock ctx)) (slot (sc_clock ctx)) (xe_amount e) (d = AtoB)
          (sc_has_referral ctx) = Ok (pr_swap_result r))) \<and>
    (sw_swap_mode params = 1 \<longrightarrow>
      (\<exists>e. calculate_transfer_fee_excluded_amount
          (case d of AtoB \<Rightarrow> sc_token_a ctx | BtoA \<Rightarrow> sc_token_b ctx) (sw_amount_0 params) = Ok e \<and>
        quote_partial_fill_in q (unix_timestamp (sc_clock ctx)) (slot (sc_clock ctx)) (xe_amount e)
          (d = AtoB) (sc_has_referral ctx) = Ok (pr_swap_result r))) \<and>
    (sw_swap_mode params = 2 \<longrightarrow>
      (\<exists>i. calculate_transfer_fee_included_amount
          (case d of AtoB \<Rightarrow> sc_token_b ctx | BtoA \<Rightarrow> sc_token_a ctx) (sw_amount_0 params) = Ok i \<and>
        quote_exact_out q (unix_timestamp (sc_clock ctx)) (slot (sc_clock ctx)) (xi_amount i) (d = AtoB)
          (sc_has_referral ctx) = Ok (pr_swap_result r)))"
  using swap_is_quoted [OF assms] by blast

theorem quote_is_result_of_swap_witness:
  "\<exists>q v r. p_handle_swap example_context start_pool start_vaults example_swap = Ok (q, v, r) \<and>
    quote_exact_in start_pool 500 1000 1000 True False = Ok (pr_swap_result r)"
proof (rule example_market_swaps)
  fix q v r assume h: "p_handle_swap example_context start_pool start_vaults example_swap = Ok (q, v, r)"
  have dir: "get_trade_direction (sc_input_token_account_mint example_context)
      (sc_token_a_mint_key example_context) = Ok AtoB"
    by (simp add: example_context_def get_trade_direction_def)
  have payer: "sc_payer example_context \<noteq> pl_whitelisted_vault start_pool"
    by (simp add: example_context_def start_pool_def pool_initialize_def)
  show ?thesis
    using quote_is_result_of_swap [OF h payer dir] h
    by (simp add: example_context_def example_swap_def example_clock_def plain_token_def
        calculate_transfer_fee_excluded_amount_def calculate_transfer_fee_included_amount_def)
qed

text \<open>
  The initial price of the SDK is the floor of the root: with d the distance price_delta
  between the quotient of the amounts divided by the upper price and the lower price, it is the greatest integer s
  at which ta times (s * s + d * s) does not exceed tb times 2 to the power 128, as long as d has less
  than 128 bits; no rounding of the intermediate steps is lost.
\<close>

theorem initial_price_is_floor_of_root:
  assumes "calculate_init_price ta tb lo hi = Ok s" and "\<bar>price_delta ta tb lo hi\<bar> < 2 ^ 127"
  shows "int (unat ta) * ((int (unat s))\<^sup>2 + price_delta ta tb lo hi * int (unat s)) \<le>
      int (unat tb) * 2 ^ 128 \<and>
    int (unat tb) * 2 ^ 128 <
      int (unat ta) * ((int (unat s) + 1)\<^sup>2 + price_delta ta tb lo hi * (int (unat s) + 1))"
  using calculate_init_price_root [OF assms] by blast

theorem initial_price_is_floor_of_root_witness:
  "\<exists>s. calculate_init_price 1000 3000 4295048016 79226673521066979257578248091 = Ok s \<and>
    1000 * ((int (unat s))\<^sup>2 + price_delta 1000 3000 4295048016 79226673521066979257578248091 *
      int (unat s)) \<le> 3000 * 2 ^ 128"
proof -
  let ?n = "4083388403051261561634285039020200682496 :: u256"
  obtain r where r: "sqrt_u256 ?n = Some r" "(unat r)\<^sup>2 \<le> unat ?n" "unat ?n < (unat r + 1)\<^sup>2"
    using sqrt_u256_correct [of ?n] by blast
  have up: "unat r < 2 ^ 128"
    by (rule power2_less_imp_less [of _ "2 ^ 128"]) (use r(2) in simp_all)
  have "2 ^ 64 < unat r + 1"
    by (rule power2_less_imp_less) (use r(3) in simp_all)
  then have "unat (r - 8590096032) = unat r - 8590096032" by (simp add: unat_sub word_le_nat_alt)
  then have "unat ((r - 8590096032) div 2) < 2 ^ 128" using up by (simp add: unat_div)
  then obtain s where s: "calculate_init_price 1000 3000 4295048016 79226673521066979257578248091 = Ok s"
    by (simp add: calculate_init_price_def ensure_def evaluation r(1) del: sqrt_u256_def
        cong: evaluation_cong)
  have "\<bar>price_delta 1000 3000 4295048016 79226673521066979257578248091\<bar> < 2 ^ 127"
    by (simp add: price_delta_def)
  from initial_price_is_floor_of_root [OF s this] s show ?thesis by (intro exI [of _ s]) simp
qed

end
