(* ===== verification/Positions_Correct.thy ===== *)
theory Positions_Correct
  imports Examples Withdrawal
begin

text \<open>
  The properties of positions: vesting, fees, splitting and rewards, each with an instance on
  concrete values.
\<close>

section \<open>Vesting\<close>

text \<open>
  C30. Refreshing the vestings of a position always succeeds, releases to the position exactly what the
  schedule of each vesting has unlocked, and keeps the books: the vested liquidity of the position is
  what its vestings have still to release, and its total liquidity stays the same.
\<close>

theorem refresh_releases_the_schedule:
  assumes "vesting_inv key (unat point) acc p" and "distinct ks"
    and "\<And>k. k \<in> set ks \<Longrightarrow> \<exists>v. acc k = Some v \<and> vs_position v = key"
  shows "\<exists>acc' p'. refresh_vestings key point ks acc p = Ok (acc', p') \<and>
    vesting_inv key (unat point) acc' p' \<and> liq p' = liq p \<and>
    (\<forall>k\<in>set ks. up_to_date (unat point) (acc' k))"
proof -
  obtain acc' p' where r: "refresh_vestings key point ks acc p = Ok (acc', p')"
    using refresh_vestings_total [OF assms] by blast
  from refresh_vestings_inv [OF assms(1) r] r show ?thesis by blast
qed

definition example_vesting :: vesting where
  "example_vesting = vesting_initialize 7 1000 10 500 25 20"

definition vesting_position :: position where
  "vesting_position = position_default\<lparr>ps_unlocked_liquidity := 3000, ps_vested_liquidity := 1000\<rparr>"

lemma example_vesting_inv:
  "vesting_inv 7 n (Map.empty(9 := Some example_vesting)) vesting_position"
  using total_over_insert [of Map.empty 9 "vesting_remaining 7" example_vesting]
  by (auto simp: vesting_inv_def wf_vesting_def vesting_remaining_def vesting_total_def
      example_vesting_def vesting_initialize_def vesting_position_def position_default_def liq_def)

theorem refresh_releases_the_schedule_witness:
  "\<exists>acc' p'. refresh_vestings 7 1055 [9] (Map.empty(9 := Some example_vesting)) vesting_position =
      Ok (acc', p') \<and> liq p' = 4000 \<and> up_to_date 1055 (acc' 9)"
proof -
  have l: "liq vesting_position = 4000"
    by (simp add: liq_def vesting_position_def position_default_def)
  show ?thesis
    using refresh_releases_the_schedule [OF example_vesting_inv, of "[9]" 1055] l
    by (auto simp: example_vesting_def vesting_initialize_def)
qed

text \<open>
  C31. Vested liquidity comes back: in every state that can be reached, whatever the times its instructions
  saw, when the schedules of all vestings of a position are over, its owner can refresh them all at
  once; the refresh succeeds, all vested liquidity of the position becomes unlocked, and the
  vestings are closed.
\<close>

theorem vested_liquidity_is_recoverable:
  assumes "reachable m" and "mk_positions m k = Some p" and "position_constraints acc p = Ok ()"
    and "get_current_point_and_buffer_duration clk (pl_activation_type (mk_pool m)) = Ok (point, d)"
    and "distinct ks" and "set ks = {j. \<exists>v. mk_vestings m j = Some v \<and> vs_position v = k}"
    and "\<And>j v. mk_vestings m j = Some v \<Longrightarrow> vs_position v = k \<Longrightarrow>
      unat (vs_cliff_point v) + unat (vs_number_of_period v) * unat (vs_period_frequency v) \<le> unat point"
  shows "\<exists>vs p'. handle_refresh_vesting clk acc (mk_pool m) k ks (mk_vestings m) p = Ok (vs, p') \<and>
    ps_vested_liquidity p' = 0 \<and>
    unat (ps_unlocked_liquidity p') = unat (ps_unlocked_liquidity p) + unat (ps_vested_liquidity p) \<and>
    (\<forall>j\<in>set ks. vs j = None)"
  by (rule refresh_recovers [OF assms])

theorem vested_liquidity_is_recoverable_witness:
  "\<exists>vs p'. handle_refresh_vesting (example_clock\<lparr>slot := 1020\<rparr>) example_owner start_pool 7 [9]
      (mk_vestings example_vested_market) example_vested_position = Ok (vs, p') \<and>
    unat (ps_unlocked_liquidity p') = 18446744073709551616000000 \<and> vs 9 = None"
proof -
  have v: "mk_pool example_vested_market = start_pool"
    "mk_positions example_vested_market 7 = Some example_vested_position"
    "mk_vestings example_vested_market = Map.empty(9 := Some example_vesting_account)"
    by (simp_all add: example_vested_market_def example_market_def)
  have pt: "get_current_point_and_buffer_duration (example_clock\<lparr>slot := 1020\<rparr>) (pl_activation_type start_pool) =
      Ok (1020, SLOT_BUFFER)"
    by (simp add: start_pool_def pool_initialize_def example_clock_def evaluation cong: evaluation_cong)
  have c: "position_constraints example_owner example_vested_position = Ok ()"
    by (simp add: position_constraints_def example_owner_def example_vested_position_def start_position_def)
  have "\<exists>vs p'. handle_refresh_vesting (example_clock\<lparr>slot := 1020\<rparr>) example_owner
      (mk_pool example_vested_market) 7 [9] (mk_vestings example_vested_market) example_vested_position =
      Ok (vs, p') \<and> ps_vested_liquidity p' = 0 \<and>
    unat (ps_unlocked_liquidity p') = unat (ps_unlocked_liquidity example_vested_position) +
      unat (ps_vested_liquidity example_vested_position) \<and> (\<forall>j\<in>set [9]. vs j = None)"
    by (rule vested_liquidity_is_recoverable [OF example_vested_reachable v(2) c pt [folded v(1)]])
      (auto simp: v(3) example_vesting_account_def vesting_initialize_def split: if_splits)
  then show ?thesis by (auto simp: v(1) example_vested_position_def)
qed

section \<open>Fees and splits\<close>

text \<open>
  C33. Earned fees can always be collected: in every state that can be reached, whatever the status of the
  pool, the owner of a position can claim its fees. The vaults pay on each side exactly what the position has
  earned, rounded down, and it is owed nothing afterwards. The tokens have to pay out what the vaults
  hold, and the statistics of claimed fees must have room for the amounts.
\<close>

theorem earned_fees_can_be_collected:
  assumes "reachable m" and "mk_positions m k = Some p"
    and "position_constraints (lc_accounts ctx) p = Ok ()"
    and "pays_out (lc_token_a ctx)" and "pays_out (lc_token_b ctx)"
    and "\<And>s. claimed s p + owed s (mk_pool m) p div 2 ^ 128 < 2 ^ 64"
  shows "\<exists>v p' a b. handle_claim_position_fee ctx (mk_pool m) (mk_vaults m) p = Ok (v, p', a, b) \<and>
    (\<forall>s. amount s a b = owed s (mk_pool m) p div 2 ^ 128 \<and> owed s (mk_pool m) p' = 0)"
  by (rule fee_collection_succeeds [OF assms])

theorem earned_fees_can_be_collected_witness:
  "\<exists>m v p' a b. market_step example_market m \<and>
    handle_claim_position_fee example_withdrawal (mk_pool m) (mk_vaults m) start_position = Ok (v, p', a, b) \<and>
    unat b = owed B (mk_pool m) start_position div 2 ^ 128 \<and> owed B (mk_pool m) p' = 0"
proof -
  obtain m where s: "market_step example_market m" and m: "reachable m"
    and k: "mk_positions m 7 = Some start_position"
    by (rule example_swapped_market)
  have c: "claimed s start_position = 0" for s
    by (cases s) (simp_all add: claimed_def amount_def start_position_def position_default_def)
  have o: "claimed s start_position + owed s (mk_pool m) start_position div 2 ^ 128 < 2 ^ 64" for s
    using order.strict_trans1 [OF reachable_sizes(3) [OF m k] balance_fits] by (simp add: c)
  have pays: "pays_out (lc_token_a example_withdrawal)" "pays_out (lc_token_b example_withdrawal)"
    by (simp_all add: example_withdrawal_allowed)
  obtain v p' a b where h: "handle_claim_position_fee example_withdrawal (mk_pool m) (mk_vaults m)
      start_position = Ok (v, p', a, b)"
    and e: "\<And>s. amount s a b = owed s (mk_pool m) start_position div 2 ^ 128 \<and> owed s (mk_pool m) p' = 0"
    using earned_fees_can_be_collected [OF m k example_withdrawal_owner pays o] by blast
  have "unat b = owed B (mk_pool m) start_position div 2 ^ 128 \<and> owed B (mk_pool m) p' = 0"
    using e [of B] by (simp add: amount_def)
  then show ?thesis using s h by blast
qed

text \<open>
  C32. A split moves and creates nothing: the two positions have together the same liquidity and the same
  permanently locked liquidity as before, the pool the same liquidity, and on each side the pool owes
  them together at most the fees that it owed them.
\<close>

theorem split_conserves:
  assumes "handle_split_position2 clk q p1 p2 params = Ok (q', p1', p2', info)"
  shows "liq p1' + liq p2' = liq p1 + liq p2 \<and> locked p1' + locked p2' = locked p1 + locked p2 \<and>
    pl_liquidity q' = pl_liquidity q \<and>
    owed s q' p1' + owed s q' p2' \<le> owed s q p1 + owed s q p2"
proof -
  obtain r1 r2 nu np na nb n0 n1 where
    q': "pool_update_rewards q (unix_timestamp clk) = Ok q'" and
    r: "update_position_reward p1 q' = Ok r1" "update_position_reward p2 q' = Ok r2" and
    sp: "apply_split_position q' r1 r2 nu np na nb n0 n1 = Ok (p1', p2', info)"
    using assms by (auto simp: handle_split_position2_def rbind_Ok_iff require_Ok_iff)
  have f: "same_fees p1 r1" "same_fees p2 r2" using r update_position_reward_fees by simp_all
  have b: "same_books q q'" using pool_update_rewards_books [OF q'] .
  have "liq p1' + liq p2' = liq p1 + liq p2"
    using apply_split_owed(1) [OF sp] f by (simp add: same_fees_def)
  moreover have "owed s q' p1' + owed s q' p2' \<le> owed s q p1 + owed s q p2"
    using apply_split_owed(2) [OF sp, of s] unfolding same_fees_owed [OF f(1)] same_fees_owed [OF f(2)]
      same_books_owed [OF b] .
  moreover have "pl_liquidity q' = pl_liquidity q" using b by (simp add: same_books_def)
  ultimately show ?thesis using split_reward_only_lock [OF assms] by blast
qed

definition example_split :: split_position_parameters2 where
  "example_split =
     \<lparr> s2_unlocked_liquidity_numerator = 400000000, s2_permanent_locked_liquidity_numerator = 400000000,
       s2_fee_a_numerator = 1000000000, s2_fee_b_numerator = 1000000000, s2_reward_0_numerator = 0,
       s2_reward_1_numerator = 0 \<rparr>"

theorem split_conserves_witness:
  "\<exists>q p1 p2 i. handle_split_position2 example_clock start_pool start_position position_default
      example_split = Ok (q, p1, p2, i) \<and> liq p1 + liq p2 = liq start_position"
proof -
  have "\<exists>r. handle_split_position2 example_clock start_pool start_position position_default
      example_split = Ok r"
    by (simp add: handle_split_position2_def split_position_parameters2_validate_def example_clock_def
        start_pool_def start_position_def example_split_def example_fees_def evaluation
        cong: evaluation_cong)
  then obtain q p1 p2 i where h: "handle_split_position2 example_clock start_pool start_position
      position_default example_split = Ok (q, p1, p2, i)" by (metis prod_cases4)
  have "liq position_default = 0" by (simp add: liq_def position_default_def)
  then show ?thesis using split_conserves [OF h, THEN conjunct1] h by auto
qed

section \<open>Rewards\<close>

text \<open>
  Funding covers the rate: after an amount is added to a reward, what the new rate commits to pay
  until the new end is at most the amount and what was still committed before, in fixed point, and
  the campaign runs for its full duration from now on.
\<close>

theorem funding_covers_the_rate:
  assumes "update_rate_after_funding r t x = Ok r'"
  shows "reward_committed r' t \<le> unat x * 2 ^ 64 + reward_committed r t \<and>
    unat (rw_reward_duration_end r') = unat t + unat (rw_reward_duration r) \<and>
    rw_last_update_time r' = t"
  using funding_covers_rate [OF assms] by blast

definition example_reward :: reward_info where
  "example_reward = reward_info_default\<lparr>rw_initialized := 1, rw_reward_duration := 86400\<rparr>"

theorem funding_covers_the_rate_witness:
  "\<exists>r. update_rate_after_funding example_reward 1000 5000000 = Ok r \<and>
    reward_committed r 1000 \<le> 5000000 * 2 ^ 64 + reward_committed example_reward 1000"
proof -
  obtain r where r: "update_rate_after_funding example_reward 1000 5000000 = Ok r"
    by (simp add: example_reward_def evaluation cong: evaluation_cong)
  show ?thesis using r funding_covers_the_rate [OF r, THEN conjunct1] by (intro exI [of _ r]) simp
qed

text \<open>
  The accumulator of a reward never credits more than the rate pays: its growth times the liquidity
  is at most the rate times the seconds that have passed since the last update and before the end, and
  these seconds are never counted again.
\<close>

theorem reward_accumulator_is_covered:
  assumes "reward_update_rewards r l t = Ok r'" and "reward_initialized r" and "0 < unat l"
  shows "(unat (rw_reward_per_token_stored r') - unat (rw_reward_per_token_stored r)) * unat l \<le>
      (min (unat t) (unat (rw_reward_duration_end r)) - unat (rw_last_update_time r)) *
        unat (rw_reward_rate r) * 2 ^ 128 \<and>
    unat (rw_last_update_time r') = min (unat t) (unat (rw_reward_duration_end r))"
  using reward_update_paid [OF assms] reward_update_effect(2) [OF assms(1,2)] by blast

theorem reward_accumulator_is_covered_witness:
  "\<exists>r. reward_update_rewards
      (example_reward\<lparr>rw_reward_rate := 1000000000000000000, rw_last_update_time := 1000,
        rw_reward_duration_end := 87400\<rparr>) 18446744073709551616000000 2000 = Ok r \<and>
    unat (rw_last_update_time r) = 2000"
proof -
  let ?r = "example_reward\<lparr>rw_reward_rate := 1000000000000000000, rw_last_update_time := 1000,
        rw_reward_duration_end := 87400\<rparr>"
  obtain r where r: "reward_update_rewards ?r 18446744073709551616000000 2000 = Ok r"
    by (simp add: example_reward_def evaluation cong: evaluation_cong)
  have "reward_initialized ?r" by (simp add: example_reward_def evaluation)
  from reward_accumulator_is_covered [OF r this] r show ?thesis by (intro exI [of _ r]) simp
qed

end
