(* ===== verification/Account_Framework.thy ===== *)
theory Account_Framework
  imports Entrypoint Init_Pool Vesting_Handlers Operator_Handlers
begin

text \<open>
  The accounts of an instruction. The source declares them as a structure with \<^verbatim>\<open>derive(Accounts)\<close>:
  one field per account, with a type and the attributes of \<^verbatim>\<open>#[account(...)]\<close>. A declaration is data
  here, a list of fields in the order of the source (theory \<open>Account_Contexts\<close>), and this theory gives
  the types and the attributes the meaning that the account framework documents. The runtime passes a
  list of accounts; \<open>try_accounts\<close> binds them to the fields in order, checks the types, creates the
  accounts declared \<^verbatim>\<open>init\<close> and then checks the attributes of the others.

  An error of the framework is \<open>Foreign\<close>. The lamports are not part of the state, so neither the
  rent that the payer of a new account pays nor the lamports of a closed one.
\<close>

section \<open>Accounts\<close>

text \<open>The types that the program stores itself, and what an account holds of them or of a token program.\<close>

datatype zero_copy =
  Pool_State | Position_State | Vesting_State | Config_State | Operator_State | Token_Badge_State

record token_account =
  ta_mint :: pubkey
  ta_authority :: pubkey
  ta_amount :: u64

record token_mint =
  tm_decimals :: u8
  tm_supply :: u64
  tm_authority :: "pubkey option"
  tm_freeze_authority :: "pubkey option"
  tm_metadata_pointer_authority :: "pubkey option"
  tm_metadata_address :: "pubkey option"
  tm_close_authority :: "pubkey option"

datatype account_data =
  No_Data | Zeroed zero_copy
  | Pool_Data pool | Position_Data position | Vesting_Data vesting | Config_Data config
  | Operator_Data operator | Token_Badge_Data token_badge
  | Token_Account_Data token_account | Mint_Data token_mint | Other_Data

record account_info =
  info_key :: pubkey
  info_owner :: pubkey
  info_is_signer :: bool
  info_is_writable :: bool
  info_executable :: bool
  info_data :: account_data

text \<open>
  The addresses that the program knows and the derivation of addresses. \<open>ad_derive\<close> is the derivation
  of an address and its bump from seeds and a program (\<^verbatim>\<open>find_program_address\<close>), \<open>ad_create\<close> the
  address for which seeds sign, where there is one (\<^verbatim>\<open>create_program_address\<close>).
\<close>

record addresses =
  ad_programs :: program_ids
  ad_system_program :: pubkey
  ad_token_programs :: "pubkey list"
  ad_token_2022_program :: pubkey
  ad_sysvar_instructions :: pubkey
  ad_pool_discriminator :: bytes
  ad_derive :: "bytes list \<Rightarrow> pubkey \<Rightarrow> pubkey \<times> u8"
  ad_create :: "bytes list \<Rightarrow> pubkey \<Rightarrow> pubkey option"

abbreviation program_id :: "addresses \<Rightarrow> pubkey" where
  "program_id ad \<equiv> id_program (ad_programs ad)"

type_synonym environment = "string \<Rightarrow> account_info"

text \<open>
  The bytes of a string literal and of an address, the first byte the highest digit. The order of two
  addresses is that of their bytes: \<^verbatim>\<open>max_key\<close> and \<^verbatim>\<open>min_key\<close> of \<^verbatim>\<open>ix_initialize_pool.rs\<close>.
\<close>

definition ascii :: "string \<Rightarrow> bytes" where
  "ascii s = List.map of_char s"

definition key_bytes :: "pubkey \<Rightarrow> bytes" where
  "key_bytes k = rev (put 32 k)"

definition max_key :: "pubkey \<Rightarrow> pubkey \<Rightarrow> bytes" where
  "max_key left right = key_bytes (max left right)"

definition min_key :: "pubkey \<Rightarrow> pubkey \<Rightarrow> bytes" where
  "min_key left right = key_bytes (min left right)"

section \<open>Declarations\<close>

datatype account_type =
  AccountLoader zero_copy | InterfaceTokenAccount | InterfaceMint | TokenInterface
  | Token2022Program | SystemProgram | Signer | UncheckedAccount | OptionTokenAccount

datatype seed = Bytes bytes | Key string | MaxKey string string | MinKey string string

text \<open>The addresses that conditions compare: of an account, in its content, or a constant.\<close>

datatype key_expr = KeyOf string | MintOf string | NftMintOf string | Constant pubkey

datatype account_attribute =
  Mut | Signer_Attribute | HasOne string | Address key_expr
  | KeysEqual key_expr key_expr | KeysDiffer key_expr key_expr error | AmountIs string u64
  | Token_Mint string | Token_Authority string | Token_Token_Program string
  | Mint_Token_Program string | Mint_Decimals u8 | Mint_Authority string
  | Mint_Freeze_Authority string | Metadata_Pointer_Authority string
  | Metadata_Pointer_Address string | Close_Authority string
  | Init_Attribute | Seeds "seed list" | Bump | Payer string | Space nat | Close string

datatype account_field = Field string account_type "account_attribute list"

type_synonym account_context = "account_field list"

fun field_name :: "account_field \<Rightarrow> string" where
  "field_name (Field x t attrs) = x"

fun is_init :: "account_field \<Rightarrow> bool" where
  "is_init (Field x t attrs) \<longleftrightarrow> Init_Attribute \<in> set attrs"

text \<open>The value of an attribute that says how to create an account.\<close>

fun attribute_of :: "(account_attribute \<Rightarrow> 'v option) \<Rightarrow> account_attribute list \<Rightarrow> 'v option" where
  "attribute_of f [] = None"
| "attribute_of f (a # attrs) = (case f a of None \<Rightarrow> attribute_of f attrs | Some v \<Rightarrow> Some v)"

section \<open>Types\<close>

fun has_data :: "zero_copy \<Rightarrow> account_data \<Rightarrow> bool" where
  "has_data Pool_State (Pool_Data q) \<longleftrightarrow> True"
| "has_data Position_State (Position_Data p) \<longleftrightarrow> True"
| "has_data Vesting_State (Vesting_Data vs) \<longleftrightarrow> True"
| "has_data Config_State (Config_Data c) \<longleftrightarrow> True"
| "has_data Operator_State (Operator_Data x) \<longleftrightarrow> True"
| "has_data Token_Badge_State (Token_Badge_Data b) \<longleftrightarrow> True"
| "has_data t d \<longleftrightarrow> False"

definition token_account_of :: "account_info \<Rightarrow> token_account option" where
  "token_account_of a = (case info_data a of Token_Account_Data t \<Rightarrow> Some t | _ \<Rightarrow> None)"

definition mint_of :: "account_info \<Rightarrow> token_mint option" where
  "mint_of a = (case info_data a of Mint_Data t \<Rightarrow> Some t | _ \<Rightarrow> None)"

definition position_of :: "account_info \<Rightarrow> position option" where
  "position_of a = (case info_data a of Position_Data p \<Rightarrow> Some p | _ \<Rightarrow> None)"

definition pool_of :: "account_info \<Rightarrow> pool option" where
  "pool_of a = (case info_data a of Pool_Data q \<Rightarrow> Some q | _ \<Rightarrow> None)"

definition token_account_checks :: "addresses \<Rightarrow> account_info \<Rightarrow> bool" where
  "token_account_checks ad a \<longleftrightarrow>
     info_owner a \<in> set (ad_token_programs ad) \<and> token_account_of a \<noteq> None"

fun type_checks :: "addresses \<Rightarrow> account_type \<Rightarrow> account_info \<Rightarrow> bool" where
  "type_checks ad (AccountLoader t) a \<longleftrightarrow> info_owner a = program_id ad \<and> has_data t (info_data a)"
| "type_checks ad InterfaceTokenAccount a \<longleftrightarrow> token_account_checks ad a"
| "type_checks ad InterfaceMint a \<longleftrightarrow>
     info_owner a \<in> set (ad_token_programs ad) \<and> mint_of a \<noteq> None"
| "type_checks ad TokenInterface a \<longleftrightarrow>
     info_key a \<in> set (ad_token_programs ad) \<and> info_executable a"
| "type_checks ad Token2022Program a \<longleftrightarrow>
     info_key a = ad_token_2022_program ad \<and> info_executable a"
| "type_checks ad SystemProgram a \<longleftrightarrow> info_key a = ad_system_program ad \<and> info_executable a"
| "type_checks ad Signer a \<longleftrightarrow> info_is_signer a"
| "type_checks ad UncheckedAccount a \<longleftrightarrow> True"
| "type_checks ad OptionTokenAccount a \<longleftrightarrow>
     info_key a = program_id ad \<or> token_account_checks ad a"

text \<open>An optional account that is absent: the address of the program stands in its place.\<close>

fun is_absent :: "addresses \<Rightarrow> account_type \<Rightarrow> account_info \<Rightarrow> bool" where
  "is_absent ad OptionTokenAccount a \<longleftrightarrow> info_key a = program_id ad"
| "is_absent ad t a \<longleftrightarrow> False"

section \<open>Attributes\<close>

text \<open>The field of a stored type that \<^verbatim>\<open>has_one\<close> compares with the account of the same name.\<close>

fun has_one_key :: "account_data \<Rightarrow> string \<Rightarrow> pubkey option" where
  "has_one_key (Pool_Data q) x =
     (if x = ''token_a_vault'' then Some (pl_token_a_vault q)
      else if x = ''token_b_vault'' then Some (pl_token_b_vault q)
      else if x = ''token_a_mint'' then Some (pl_token_a_mint q)
      else if x = ''token_b_mint'' then Some (pl_token_b_mint q)
      else if x = ''partner'' then Some (pl_partner q)
      else None)"
| "has_one_key (Position_Data p) x = (if x = ''pool'' then Some (ps_pool p) else None)"
| "has_one_key (Config_Data c) x =
     (if x = ''pool_creator_authority'' then Some (cf_pool_creator_authority c) else None)"
| "has_one_key d x = None"

fun key_of_expr :: "environment \<Rightarrow> key_expr \<Rightarrow> pubkey option" where
  "key_of_expr env (KeyOf x) = Some (info_key (env x))"
| "key_of_expr env (MintOf x) = map_option ta_mint (token_account_of (env x))"
| "key_of_expr env (NftMintOf x) = map_option ps_nft_mint (position_of (env x))"
| "key_of_expr env (Constant k) = Some k"

fun seed_bytes :: "environment \<Rightarrow> seed \<Rightarrow> bytes" where
  "seed_bytes env (Bytes bs) = bs"
| "seed_bytes env (Key x) = key_bytes (info_key (env x))"
| "seed_bytes env (MaxKey x y) = max_key (info_key (env x)) (info_key (env y))"
| "seed_bytes env (MinKey x y) = min_key (info_key (env x)) (info_key (env y))"

definition derived_key :: "addresses \<Rightarrow> environment \<Rightarrow> seed list \<Rightarrow> pubkey" where
  "derived_key ad env seeds = fst (ad_derive ad (List.map (seed_bytes env) seeds) (program_id ad))"

text \<open>An attribute of an account that exists; those that say how to create one check nothing.\<close>

fun check_attribute :: "addresses \<Rightarrow> environment \<Rightarrow> string \<Rightarrow> account_attribute \<Rightarrow> unit result" where
  "check_attribute ad env x Mut = constraint (info_is_writable (env x))"
| "check_attribute ad env x Signer_Attribute = constraint (info_is_signer (env x))"
| "check_attribute ad env x (HasOne y) =
     constraint (has_one_key (info_data (env x)) y = Some (info_key (env y)))"
| "check_attribute ad env x (Address e) =
     constraint (key_of_expr env e = Some (info_key (env x)))"
| "check_attribute ad env x (KeysEqual e e') =
     constraint (key_of_expr env e \<noteq> None \<and> key_of_expr env e = key_of_expr env e')"
| "check_attribute ad env x (KeysDiffer e e' error) =
     (if key_of_expr env e \<noteq> key_of_expr env e' then Ok () else Inl error)"
| "check_attribute ad env x (AmountIs y n) =
     constraint (map_option ta_amount (token_account_of (env y)) = Some n)"
| "check_attribute ad env x (Token_Mint y) =
     constraint (map_option ta_mint (token_account_of (env x)) = Some (info_key (env y)))"
| "check_attribute ad env x (Token_Authority y) =
     constraint (map_option ta_authority (token_account_of (env x)) = Some (info_key (env y)))"
| "check_attribute ad env x (Token_Token_Program y) =
     constraint (info_owner (env x) = info_key (env y))"
| "check_attribute ad env x (Mint_Token_Program y) =
     constraint (info_owner (env x) = info_key (env y))"
| "check_attribute ad env x (Seeds seeds) =
     constraint (info_key (env x) = derived_key ad env seeds)"
| "check_attribute ad env x (Close y) = constraint (info_key (env x) \<noteq> info_key (env y))"
| "check_attribute ad env x attr = Ok ()"

section \<open>Creation\<close>

text \<open>
  An account declared \<^verbatim>\<open>init\<close> belongs to the system program and is empty. It has the address derived
  from its seeds, for which the program signs, or has signed itself. Afterwards it belongs to the
  program, with zero content and no discriminator yet, or to the token program that the declaration
  names (\<^verbatim>\<open>token_program\<close> when it names none), initialised with the declared mint and authorities. Every
  name bound to this address sees the new account.
\<close>

definition update_account ::
  "environment \<Rightarrow> pubkey \<Rightarrow> (account_info \<Rightarrow> account_info) \<Rightarrow> environment" where
  "update_account env k f = (\<lambda>y. if info_key (env y) = k then f (env y) else env y)"

definition seeds_of :: "account_attribute list \<Rightarrow> seed list option" where
  "seeds_of = attribute_of (\<lambda>a. case a of Seeds s \<Rightarrow> Some s | _ \<Rightarrow> None)"

definition payer_of :: "account_attribute list \<Rightarrow> string option" where
  "payer_of = attribute_of (\<lambda>a. case a of Payer x \<Rightarrow> Some x | _ \<Rightarrow> None)"

definition token_program_of :: "account_attribute list \<Rightarrow> string" where
  "token_program_of attrs =
     (case attribute_of (\<lambda>a. case a of Token_Token_Program x \<Rightarrow> Some x
                               | Mint_Token_Program x \<Rightarrow> Some x | _ \<Rightarrow> None) attrs of
        Some x \<Rightarrow> x | None \<Rightarrow> ''token_program'')"

definition key_attribute ::
  "environment \<Rightarrow> (account_attribute \<Rightarrow> string option) \<Rightarrow> account_attribute list \<Rightarrow> pubkey option" where
  "key_attribute env f attrs = map_option (\<lambda>x. info_key (env x)) (attribute_of f attrs)"

definition new_token_account :: "environment \<Rightarrow> account_attribute list \<Rightarrow> token_account result" where
  "new_token_account env attrs =
     (case (key_attribute env (\<lambda>a. case a of Token_Mint x \<Rightarrow> Some x | _ \<Rightarrow> None) attrs,
            key_attribute env (\<lambda>a. case a of Token_Authority x \<Rightarrow> Some x | _ \<Rightarrow> None) attrs) of
        (Some m, Some authority) \<Rightarrow> Ok \<lparr> ta_mint = m, ta_authority = authority, ta_amount = 0 \<rparr>
      | _ \<Rightarrow> Inl Foreign)"

definition new_mint :: "environment \<Rightarrow> account_attribute list \<Rightarrow> token_mint result" where
  "new_mint env attrs =
     (case (attribute_of (\<lambda>a. case a of Mint_Decimals n \<Rightarrow> Some n | _ \<Rightarrow> None) attrs,
            key_attribute env (\<lambda>a. case a of Mint_Authority x \<Rightarrow> Some x | _ \<Rightarrow> None) attrs) of
        (Some n, Some authority) \<Rightarrow> Ok \<lparr>
          tm_decimals = n, tm_supply = 0, tm_authority = Some authority,
          tm_freeze_authority =
            key_attribute env (\<lambda>a. case a of Mint_Freeze_Authority x \<Rightarrow> Some x | _ \<Rightarrow> None) attrs,
          tm_metadata_pointer_authority =
            key_attribute env (\<lambda>a. case a of Metadata_Pointer_Authority x \<Rightarrow> Some x | _ \<Rightarrow> None) attrs,
          tm_metadata_address =
            key_attribute env (\<lambda>a. case a of Metadata_Pointer_Address x \<Rightarrow> Some x | _ \<Rightarrow> None) attrs,
          tm_close_authority =
            key_attribute env (\<lambda>a. case a of Close_Authority x \<Rightarrow> Some x | _ \<Rightarrow> None) attrs \<rparr>
      | _ \<Rightarrow> Inl Foreign)"

text \<open>The owner and the content of the new account.\<close>

fun new_content ::
  "addresses \<Rightarrow> environment \<Rightarrow> account_type \<Rightarrow> account_attribute list \<Rightarrow> (pubkey \<times> account_data) result" where
  "new_content ad env (AccountLoader t) attrs = Ok (program_id ad, Zeroed t)"
| "new_content ad env InterfaceTokenAccount attrs =
     rbind (new_token_account env attrs) (\<lambda>t.
     Ok (info_key (env (token_program_of attrs)), Token_Account_Data t))"
| "new_content ad env InterfaceMint attrs =
     rbind (new_mint env attrs) (\<lambda>m.
     Ok (info_key (env (token_program_of attrs)), Mint_Data m))"
| "new_content ad env t attrs = Inl Foreign"

fun init_account :: "addresses \<Rightarrow> account_field \<Rightarrow> environment \<Rightarrow> environment result" where
  "init_account ad (Field x t attrs) env =
     rbind (constraint (Signer_Attribute \<in> set attrs \<longrightarrow> info_is_signer (env x))) (\<lambda>_.
     rbind (constraint (case seeds_of attrs of
         Some seeds \<Rightarrow> info_key (env x) = derived_key ad env seeds
       | None \<Rightarrow> info_is_signer (env x))) (\<lambda>_.
     rbind (constraint (info_is_writable (env x))) (\<lambda>_.
     rbind (constraint (info_owner (env x) = ad_system_program ad \<and> info_data (env x) = No_Data)) (\<lambda>_.
     rbind (constraint (case payer_of attrs of
         Some y \<Rightarrow> info_is_signer (env y) \<and> info_is_writable (env y)
       | None \<Rightarrow> False)) (\<lambda>_.
     rbind (new_content ad env t attrs) (\<lambda>(owner, data).
     Ok (update_account env (info_key (env x))
       (\<lambda>a. a\<lparr>info_owner := owner, info_data := data\<rparr>))))))))"

fun init_accounts :: "addresses \<Rightarrow> account_context \<Rightarrow> environment \<Rightarrow> environment result" where
  "init_accounts ad [] env = Ok env"
| "init_accounts ad (f # fs) env =
     rbind (if is_init f then init_account ad f env else Ok env) (\<lambda>env. init_accounts ad fs env)"

section \<open>The checks of an instruction\<close>

fun for_each :: "('a \<Rightarrow> unit result) \<Rightarrow> 'a list \<Rightarrow> unit result" where
  "for_each f [] = Ok ()"
| "for_each f (x # xs) = rbind (f x) (\<lambda>_. for_each f xs)"

fun load_field :: "addresses \<Rightarrow> environment \<Rightarrow> account_field \<Rightarrow> unit result" where
  "load_field ad env (Field x t attrs) =
     constraint (Init_Attribute \<in> set attrs \<or> type_checks ad t (env x))"

fun check_field :: "addresses \<Rightarrow> environment \<Rightarrow> account_field \<Rightarrow> unit result" where
  "check_field ad env (Field x t attrs) =
     (if Init_Attribute \<in> set attrs \<or> is_absent ad t (env x) then Ok ()
      else for_each (check_attribute ad env x) attrs)"

definition no_account :: account_info where
  "no_account =
     \<lparr> info_key = 0, info_owner = 0, info_is_signer = False, info_is_writable = False,
       info_executable = False, info_data = No_Data \<rparr>"

text \<open>The accounts by the names of the fields; other names do not occur in a declaration.\<close>

definition bind_accounts :: "account_context \<Rightarrow> account_info list \<Rightarrow> environment" where
  "bind_accounts ctx accounts =
     (\<lambda>x. case map_of (zip (List.map field_name ctx) accounts) x of
        Some a \<Rightarrow> a | None \<Rightarrow> no_account)"

definition try_accounts ::
  "addresses \<Rightarrow> account_context \<Rightarrow> account_info list \<Rightarrow> environment result" where
  "try_accounts ad ctx accounts =
     (if length accounts < length ctx then Inl Foreign
      else
        let env = bind_accounts ctx accounts in
        rbind (for_each (load_field ad env) ctx) (\<lambda>_.
        rbind (init_accounts ad ctx env) (\<lambda>env.
        rbind (for_each (check_field ad env) ctx) (\<lambda>_. Ok env))))"

section \<open>What accepted accounts satisfy\<close>

lemma for_each_Ok_iff [ok_iffs]: "for_each f xs = Ok u \<longleftrightarrow> (\<forall>x\<in>set xs. f x = Ok ())"
  by (induction xs) (simp_all add: rbind_Ok_iff)

text \<open>A field of this type that is not created, and one with this attribute.\<close>

fun declares_type :: "account_context \<Rightarrow> string \<Rightarrow> account_type \<Rightarrow> bool" where
  "declares_type [] x t \<longleftrightarrow> False"
| "declares_type (Field y t' attrs # fs) x t \<longleftrightarrow>
     (x = y \<and> t = t' \<and> Init_Attribute \<notin> set attrs) \<or> declares_type fs x t"

fun declares :: "account_context \<Rightarrow> string \<Rightarrow> account_attribute \<Rightarrow> bool" where
  "declares [] x a \<longleftrightarrow> False"
| "declares (Field y t attrs # fs) x a \<longleftrightarrow>
     (x = y \<and> t \<noteq> OptionTokenAccount \<and> Init_Attribute \<notin> set attrs \<and> a \<in> set attrs) \<or> declares fs x a"

lemma declares_type_field:
  "declares_type ctx x t \<Longrightarrow> \<exists>attrs. Field x t attrs \<in> set ctx \<and> Init_Attribute \<notin> set attrs"
  by (induction ctx x t rule: declares_type.induct) auto

lemma declares_field:
  "declares ctx x a \<Longrightarrow>
   \<exists>t attrs. Field x t attrs \<in> set ctx \<and> t \<noteq> OptionTokenAccount \<and> Init_Attribute \<notin> set attrs \<and>
     a \<in> set attrs"
  by (induction ctx x a rule: declares.induct) auto

lemma is_absent_iff: "is_absent ad t a \<longleftrightarrow> t = OptionTokenAccount \<and> info_key a = program_id ad"
  by (cases t) simp_all

text \<open>The creation of accounts changes neither addresses nor flags.\<close>

lemma update_account_flags:
  assumes "\<And>a. info_key (f a) = info_key a" "\<And>a. info_is_signer (f a) = info_is_signer a"
    "\<And>a. info_is_writable (f a) = info_is_writable a"
  shows "info_key (update_account env k f x) = info_key (env x)"
    "info_is_signer (update_account env k f x) = info_is_signer (env x)"
    "info_is_writable (update_account env k f x) = info_is_writable (env x)"
  using assms by (simp_all add: update_account_def)

lemma init_account_flags:
  assumes "init_account ad fd env = Ok env'"
  shows "info_key (env' x) = info_key (env x) \<and> info_is_signer (env' x) = info_is_signer (env x) \<and>
    info_is_writable (env' x) = info_is_writable (env x)"
  using assms by (cases fd) (auto simp: rbind_Ok_iff update_account_flags split: prod.splits)

lemma init_accounts_flags:
  "init_accounts ad ctx env = Ok env' \<Longrightarrow>
   info_key (env' x) = info_key (env x) \<and> info_is_signer (env' x) = info_is_signer (env x) \<and>
   info_is_writable (env' x) = info_is_writable (env x)"
  by (induction ctx arbitrary: env)
    (auto simp: rbind_Ok_iff split: if_splits dest!: init_account_flags [where x = x])

lemma try_accounts_init:
  assumes "try_accounts ad ctx accounts = Ok env"
  shows "init_accounts ad ctx (bind_accounts ctx accounts) = Ok env"
    and "length ctx \<le> length accounts"
  using assms by (auto simp: try_accounts_def Let_def rbind_Ok_iff split: if_splits)

lemma try_accounts_flags:
  assumes "try_accounts ad ctx accounts = Ok env"
  shows "info_key (env x) = info_key (bind_accounts ctx accounts x)"
    and "info_is_signer (env x) = info_is_signer (bind_accounts ctx accounts x)"
    and "info_is_writable (env x) = info_is_writable (bind_accounts ctx accounts x)"
  using init_accounts_flags [OF try_accounts_init(1) [OF assms]] by simp_all

lemma try_accounts_type:
  assumes "try_accounts ad ctx accounts = Ok env" "declares_type ctx x t"
  shows "type_checks ad t (bind_accounts ctx accounts x)"
proof -
  obtain attrs where "Field x t attrs \<in> set ctx" "Init_Attribute \<notin> set attrs"
    using declares_type_field [OF assms(2)] by blast
  with assms(1) show ?thesis
    by (auto simp: try_accounts_def Let_def rbind_Ok_iff for_each_Ok_iff constraint_Ok_iff
        split: if_splits)
qed

lemma try_accounts_attribute:
  assumes "try_accounts ad ctx accounts = Ok env" "declares ctx x a"
  shows "check_attribute ad env x a = Ok ()"
proof -
  obtain t attrs where "Field x t attrs \<in> set ctx" "t \<noteq> OptionTokenAccount"
      "Init_Attribute \<notin> set attrs" "a \<in> set attrs"
    using declares_field [OF assms(2)] by blast
  moreover have "for_each (check_field ad env) ctx = Ok ()"
    using assms(1) by (auto simp: try_accounts_def Let_def rbind_Ok_iff split: if_splits)
  ultimately show ?thesis by (fastforce simp: for_each_Ok_iff is_absent_iff)
qed

lemma no_init_unchanged:
  "list_all (\<lambda>f. \<not> is_init f) ctx \<Longrightarrow> init_accounts ad ctx env = Ok env"
  by (induction ctx) simp_all

lemma try_accounts_no_init:
  assumes "list_all (\<lambda>f. \<not> is_init f) ctx"
  shows "try_accounts ad ctx accounts = Ok env \<longleftrightarrow>
    length ctx \<le> length accounts \<and> env = bind_accounts ctx accounts \<and>
    list_all (\<lambda>f. load_field ad env f = Ok () \<and> check_field ad env f = Ok ()) ctx"
  using no_init_unchanged [OF assms]
  by (auto simp: try_accounts_def Let_def rbind_Ok_iff for_each_Ok_iff list_all_iff)

end
