(* ===== verification/Program_Addresses.thy ===== *)
theory Program_Addresses
  imports Account_Framework
begin

text \<open>
  The addresses of the program: the seeds of \<^verbatim>\<open>constants.rs\<close>, the authority of the vaults and of the
  events (\<^verbatim>\<open>const_pda.rs\<close>), the seeds with which the program signs (\<^verbatim>\<open>macros.rs\<close>), the vault of an
  alpha launch (\<^verbatim>\<open>utils/alpha_vault.rs\<close>) and the order of two mints in the address of a pool. The
  derivation itself is the runtime's (\<open>ad_derive\<close>, \<open>ad_create\<close>).
\<close>

section \<open>Seeds\<close>

definition CONFIG_PREFIX :: bytes where "CONFIG_PREFIX = ascii ''config''"

definition CUSTOMIZABLE_POOL_PREFIX :: bytes where "CUSTOMIZABLE_POOL_PREFIX = ascii ''cpool''"

definition POOL_PREFIX :: bytes where "POOL_PREFIX = ascii ''pool''"

definition TOKEN_VAULT_PREFIX :: bytes where "TOKEN_VAULT_PREFIX = ascii ''token_vault''"

definition POOL_AUTHORITY_PREFIX :: bytes where "POOL_AUTHORITY_PREFIX = ascii ''pool_authority''"

definition POSITION_PREFIX :: bytes where "POSITION_PREFIX = ascii ''position''"

definition POSITION_NFT_ACCOUNT_PREFIX :: bytes where
  "POSITION_NFT_ACCOUNT_PREFIX = ascii ''position_nft_account''"

definition TOKEN_BADGE_PREFIX :: bytes where "TOKEN_BADGE_PREFIX = ascii ''token_badge''"

definition REWARD_VAULT_PREFIX :: bytes where "REWARD_VAULT_PREFIX = ascii ''reward_vault''"

definition CLAIM_FEE_OPERATOR_PREFIX :: bytes where "CLAIM_FEE_OPERATOR_PREFIX = ascii ''cf_operator''"

definition OPERATOR_PREFIX :: bytes where "OPERATOR_PREFIX = ascii ''operator''"

definition EVENT_AUTHORITY_SEEDS :: bytes where "EVENT_AUTHORITY_SEEDS = ascii ''__event_authority''"

lemmas prefix_defs =
  CONFIG_PREFIX_def CUSTOMIZABLE_POOL_PREFIX_def POOL_PREFIX_def TOKEN_VAULT_PREFIX_def
  POOL_AUTHORITY_PREFIX_def POSITION_PREFIX_def POSITION_NFT_ACCOUNT_PREFIX_def
  TOKEN_BADGE_PREFIX_def REWARD_VAULT_PREFIX_def CLAIM_FEE_OPERATOR_PREFIX_def OPERATOR_PREFIX_def
  EVENT_AUTHORITY_SEEDS_def

text \<open>No two kinds of derived accounts share their first seed.\<close>

lemma prefixes_distinct:
  "distinct [CONFIG_PREFIX, CUSTOMIZABLE_POOL_PREFIX, POOL_PREFIX, TOKEN_VAULT_PREFIX,
     POOL_AUTHORITY_PREFIX, POSITION_PREFIX, POSITION_NFT_ACCOUNT_PREFIX, TOKEN_BADGE_PREFIX,
     REWARD_VAULT_PREFIX, CLAIM_FEE_OPERATOR_PREFIX, OPERATOR_PREFIX, EVENT_AUTHORITY_SEEDS]"
  by (simp add: prefix_defs ascii_def)

section \<open>Constant addresses\<close>

text \<open>The numbers that the base-58 literals of the source stand for.\<close>

definition cp_amm_ID :: pubkey where
  "cp_amm_ID = 4150552952357806311296800041893419763326785395543983333600872279026800614125"

definition alpha_vault_ID :: pubkey where
  "alpha_vault_ID = 6208036947187363750393221798732628851745607255039390379502822465845937953077"

definition EVENT_AUTHORITY_AND_BUMP :: "addresses \<Rightarrow> pubkey \<times> u8" where
  "EVENT_AUTHORITY_AND_BUMP ad = ad_derive ad [EVENT_AUTHORITY_SEEDS] (program_id ad)"

definition POOL_AUTHORITY_AND_BUMP :: "addresses \<Rightarrow> pubkey \<times> u8" where
  "POOL_AUTHORITY_AND_BUMP ad = ad_derive ad [POOL_AUTHORITY_PREFIX] (program_id ad)"

definition pool_authority_ID :: "addresses \<Rightarrow> pubkey" where
  "pool_authority_ID ad = fst (POOL_AUTHORITY_AND_BUMP ad)"

definition pool_authority_BUMP :: "addresses \<Rightarrow> u8" where
  "pool_authority_BUMP ad = snd (POOL_AUTHORITY_AND_BUMP ad)"

definition pool_authority_seeds :: "addresses \<Rightarrow> bytes list" where
  "pool_authority_seeds ad = [POOL_AUTHORITY_PREFIX, [pool_authority_BUMP ad]]"

definition derive_vault_pubkey :: "addresses \<Rightarrow> pubkey \<Rightarrow> pubkey \<Rightarrow> pubkey" where
  "derive_vault_pubkey ad vault_base pool =
     fst (ad_derive ad [ascii ''vault'', key_bytes vault_base, key_bytes pool] alpha_vault_ID)"

text \<open>The constants that the fast entry point compares with (theory \<open>Swap_Accounts\<close>).\<close>

definition account_ids_of :: "addresses \<Rightarrow> account_ids" where
  "account_ids_of ad =
     \<lparr> ai_program = ad_programs ad, ai_pool_authority = pool_authority_ID ad,
       ai_event_authority = fst (EVENT_AUTHORITY_AND_BUMP ad),
       ai_system_program = ad_system_program ad, ai_token_programs = ad_token_programs ad,
       ai_pool_discriminator = ad_pool_discriminator ad \<rparr>"

section \<open>The order of two mints\<close>

lemma max_key_commute: "max_key x y = max_key y x"
  by (simp add: max_key_def max.commute)

lemma min_key_commute: "min_key x y = min_key y x"
  by (simp add: min_key_def min.commute)

text \<open>The bytes of an address determine it, so the two keys determine the pair of mints.\<close>

lemma key_bytes_inject: "key_bytes k = key_bytes k' \<longleftrightarrow> k = k'"
proof
  assume "key_bytes k = key_bytes k'"
  then have "put 32 k = put 32 k'" by (simp add: key_bytes_def)
  then show "k = k'" using get_put [of "[]" 0 32 k "[]"] get_put [of "[]" 0 32 k' "[]"] by simp
qed simp

lemma mint_keys_determine_pair:
  assumes "max_key x y = max_key x' y'" "min_key x y = min_key x' y'"
  shows "{x, y} = {x', y'}"
proof -
  have "max x y = max x' y'" "min x y = min x' y'"
    using assms by (simp_all add: max_key_def min_key_def key_bytes_inject)
  then show ?thesis by (auto simp: max_def min_def split: if_splits)
qed

section \<open>What the derivation of addresses promises\<close>

text \<open>The seeds of a derived address with its bump sign for it; seeds are short and few.\<close>

definition derivation_law :: "addresses \<Rightarrow> bool" where
  "derivation_law ad \<longleftrightarrow>
     (\<forall>seeds program. length seeds < 16 \<longrightarrow> list_all (\<lambda>s. length s \<le> 32) seeds \<longrightarrow>
        (case ad_derive ad seeds program of (k, bump) \<Rightarrow>
           ad_create ad (seeds @ [[bump]]) program = Some k))"

lemma pool_authority_seeds_sign:
  assumes "derivation_law ad"
  shows "ad_create ad (pool_authority_seeds ad) (program_id ad) = Some (pool_authority_ID ad)"
proof -
  have "list_all (\<lambda>s. length s \<le> 32) [POOL_AUTHORITY_PREFIX]"
    by (simp add: POOL_AUTHORITY_PREFIX_def ascii_def)
  moreover have "length [POOL_AUTHORITY_PREFIX] < 16" by simp
  ultimately have "case ad_derive ad [POOL_AUTHORITY_PREFIX] (program_id ad) of (k, bump) \<Rightarrow>
      ad_create ad ([POOL_AUTHORITY_PREFIX] @ [[bump]]) (program_id ad) = Some k"
    using assms [unfolded derivation_law_def, rule_format, of "[POOL_AUTHORITY_PREFIX]"] by simp
  then show ?thesis
    by (simp add: pool_authority_seeds_def pool_authority_ID_def pool_authority_BUMP_def
        POOL_AUTHORITY_AND_BUMP_def split: prod.splits)
qed

end
