(* ===== verification/Account_Contexts.thy ===== *)
theory Account_Contexts
  imports Program_Addresses
begin

text \<open>
  The accounts of every instruction as the source declares them, one definition per structure with
  \<^verbatim>\<open>derive(Accounts)\<close>, field by field and attribute by attribute. Theory \<open>Account_Framework\<close> gives
  them their meaning. A structure with \<^verbatim>\<open>event_cpi\<close> has two more fields, with which the program calls
  itself to log an event. Arguments of an instruction that occur in the seeds are arguments of the
  definition.
\<close>

definition event_cpi :: "account_context \<Rightarrow> account_context" where
  "event_cpi ctx = ctx @ [
    Field ''event_authority'' UncheckedAccount [Seeds [Bytes EVENT_AUTHORITY_SEEDS], Bump],
    Field ''program'' UncheckedAccount []]"

text \<open>The sizes of the stored types, which the source asserts at compile time.\<close>

definition POSITION_INIT_SPACE :: nat where "POSITION_INIT_SPACE = 400"

definition VESTING_INIT_SPACE :: nat where "VESTING_INIT_SPACE = 176"

definition CONFIG_INIT_SPACE :: nat where "CONFIG_INIT_SPACE = 320"

definition OPERATOR_INIT_SPACE :: nat where "OPERATOR_INIT_SPACE = 64"

definition TOKEN_BADGE_INIT_SPACE :: nat where "TOKEN_BADGE_INIT_SPACE = 160"

section \<open>Instructions on a position\<close>

definition AddLiquidityCtx :: "account_context" where
  "AddLiquidityCtx = event_cpi [
    Field ''pool'' (AccountLoader Pool_State)
      [Mut, HasOne ''token_a_vault'', HasOne ''token_b_vault'', HasOne ''token_a_mint'',
       HasOne ''token_b_mint''],
    Field ''position'' (AccountLoader Position_State) [Mut, HasOne ''pool''],
    Field ''token_a_account'' InterfaceTokenAccount [Mut],
    Field ''token_b_account'' InterfaceTokenAccount [Mut],
    Field ''token_a_vault'' InterfaceTokenAccount
      [Mut, Token_Token_Program ''token_a_program'', Token_Mint ''token_a_mint''],
    Field ''token_b_vault'' InterfaceTokenAccount
      [Mut, Token_Token_Program ''token_b_program'', Token_Mint ''token_b_mint''],
    Field ''token_a_mint'' InterfaceMint [],
    Field ''token_b_mint'' InterfaceMint [],
    Field ''position_nft_account'' InterfaceTokenAccount
      [KeysEqual (MintOf ''position_nft_account'') (NftMintOf ''position''),
       AmountIs ''position_nft_account'' 1, Token_Authority ''owner''],
    Field ''owner'' Signer [],
    Field ''token_a_program'' TokenInterface [],
    Field ''token_b_program'' TokenInterface []]"

definition RemoveLiquidityCtx :: "addresses \<Rightarrow> account_context" where
  "RemoveLiquidityCtx ad = event_cpi [
    Field ''pool_authority'' UncheckedAccount [Address (Constant (pool_authority_ID ad))],
    Field ''pool'' (AccountLoader Pool_State)
      [Mut, HasOne ''token_a_vault'', HasOne ''token_b_vault'', HasOne ''token_a_mint'',
       HasOne ''token_b_mint''],
    Field ''position'' (AccountLoader Position_State) [Mut, HasOne ''pool''],
    Field ''token_a_account'' InterfaceTokenAccount [Mut],
    Field ''token_b_account'' InterfaceTokenAccount [Mut],
    Field ''token_a_vault'' InterfaceTokenAccount
      [Mut, Token_Token_Program ''token_a_program'', Token_Mint ''token_a_mint''],
    Field ''token_b_vault'' InterfaceTokenAccount
      [Mut, Token_Token_Program ''token_b_program'', Token_Mint ''token_b_mint''],
    Field ''token_a_mint'' InterfaceMint [],
    Field ''token_b_mint'' InterfaceMint [],
    Field ''position_nft_account'' InterfaceTokenAccount
      [KeysEqual (MintOf ''position_nft_account'') (NftMintOf ''position''),
       AmountIs ''position_nft_account'' 1, Token_Authority ''owner''],
    Field ''owner'' Signer [],
    Field ''token_a_program'' TokenInterface [],
    Field ''token_b_program'' TokenInterface []]"

definition ClaimPositionFeeCtx :: "addresses \<Rightarrow> account_context" where
  "ClaimPositionFeeCtx ad = event_cpi [
    Field ''pool_authority'' UncheckedAccount [Address (Constant (pool_authority_ID ad))],
    Field ''pool'' (AccountLoader Pool_State)
      [HasOne ''token_a_mint'', HasOne ''token_b_mint'', HasOne ''token_a_vault'',
       HasOne ''token_b_vault''],
    Field ''position'' (AccountLoader Position_State) [Mut, HasOne ''pool''],
    Field ''token_a_account'' InterfaceTokenAccount [Mut],
    Field ''token_b_account'' InterfaceTokenAccount [Mut],
    Field ''token_a_vault'' InterfaceTokenAccount
      [Mut, Token_Token_Program ''token_a_program'', Token_Mint ''token_a_mint''],
    Field ''token_b_vault'' InterfaceTokenAccount
      [Mut, Token_Token_Program ''token_b_program'', Token_Mint ''token_b_mint''],
    Field ''token_a_mint'' InterfaceMint [],
    Field ''token_b_mint'' InterfaceMint [],
    Field ''position_nft_account'' InterfaceTokenAccount
      [KeysEqual (MintOf ''position_nft_account'') (NftMintOf ''position''),
       AmountIs ''position_nft_account'' 1, Token_Authority ''owner''],
    Field ''owner'' Signer [],
    Field ''token_a_program'' TokenInterface [],
    Field ''token_b_program'' TokenInterface []]"

definition ClaimRewardCtx :: "addresses \<Rightarrow> account_context" where
  "ClaimRewardCtx ad = event_cpi [
    Field ''pool_authority'' UncheckedAccount [Address (Constant (pool_authority_ID ad))],
    Field ''pool'' (AccountLoader Pool_State) [Mut],
    Field ''position'' (AccountLoader Position_State) [Mut, HasOne ''pool''],
    Field ''reward_vault'' InterfaceTokenAccount [Mut],
    Field ''reward_mint'' InterfaceMint [],
    Field ''user_token_account'' InterfaceTokenAccount [Mut],
    Field ''position_nft_account'' InterfaceTokenAccount
      [KeysEqual (MintOf ''position_nft_account'') (NftMintOf ''position''),
       AmountIs ''position_nft_account'' 1, Token_Authority ''owner''],
    Field ''owner'' Signer [],
    Field ''token_program'' TokenInterface []]"

definition PermanentLockPositionCtx :: "account_context" where
  "PermanentLockPositionCtx = event_cpi [
    Field ''pool'' (AccountLoader Pool_State) [Mut],
    Field ''position'' (AccountLoader Position_State) [Mut, HasOne ''pool''],
    Field ''position_nft_account'' InterfaceTokenAccount
      [KeysEqual (MintOf ''position_nft_account'') (NftMintOf ''position''),
       AmountIs ''position_nft_account'' 1, Token_Authority ''owner''],
    Field ''owner'' Signer []]"

definition LockPositionCtx :: "account_context" where
  "LockPositionCtx = event_cpi [
    Field ''pool'' (AccountLoader Pool_State) [],
    Field ''position'' (AccountLoader Position_State) [Mut, HasOne ''pool''],
    Field ''vesting'' (AccountLoader Vesting_State)
      [Init_Attribute, Payer ''payer'', Space (8 + VESTING_INIT_SPACE)],
    Field ''position_nft_account'' InterfaceTokenAccount
      [KeysEqual (MintOf ''position_nft_account'') (NftMintOf ''position''),
       AmountIs ''position_nft_account'' 1, Token_Authority ''owner''],
    Field ''owner'' Signer [],
    Field ''payer'' Signer [Mut],
    Field ''system_program'' SystemProgram []]"

definition ClosePositionCtx :: "addresses \<Rightarrow> account_context" where
  "ClosePositionCtx ad = event_cpi [
    Field ''position_nft_mint'' InterfaceMint [Mut, Address (NftMintOf ''position'')],
    Field ''position_nft_account'' InterfaceTokenAccount
      [Mut, KeysEqual (MintOf ''position_nft_account'') (NftMintOf ''position''),
       AmountIs ''position_nft_account'' 1, Token_Authority ''owner''],
    Field ''pool'' (AccountLoader Pool_State) [Mut],
    Field ''position'' (AccountLoader Position_State)
      [Mut, HasOne ''pool'', Close ''rent_receiver''],
    Field ''pool_authority'' UncheckedAccount [Address (Constant (pool_authority_ID ad))],
    Field ''rent_receiver'' UncheckedAccount [Mut],
    Field ''owner'' Signer [],
    Field ''token_program'' Token2022Program []]"

definition SplitPositionCtx :: "account_context" where
  "SplitPositionCtx = event_cpi [
    Field ''pool'' (AccountLoader Pool_State) [Mut],
    Field ''first_position'' (AccountLoader Position_State)
      [Mut, HasOne ''pool'',
       KeysDiffer (KeyOf ''first_position'') (KeyOf ''second_position'') (PoolErr SamePosition)],
    Field ''first_position_nft_account'' InterfaceTokenAccount
      [KeysEqual (MintOf ''first_position_nft_account'') (NftMintOf ''first_position''),
       AmountIs ''first_position_nft_account'' 1, Token_Authority ''first_owner''],
    Field ''second_position'' (AccountLoader Position_State) [Mut, HasOne ''pool''],
    Field ''second_position_nft_account'' InterfaceTokenAccount
      [KeysEqual (MintOf ''second_position_nft_account'') (NftMintOf ''second_position''),
       AmountIs ''second_position_nft_account'' 1, Token_Authority ''second_owner''],
    Field ''first_owner'' Signer [],
    Field ''second_owner'' Signer []]"

definition RefreshVestingCtx :: "account_context" where
  "RefreshVestingCtx = [
    Field ''pool'' (AccountLoader Pool_State) [],
    Field ''position'' (AccountLoader Position_State) [Mut, HasOne ''pool''],
    Field ''position_nft_account'' InterfaceTokenAccount
      [KeysEqual (MintOf ''position_nft_account'') (NftMintOf ''position''),
       AmountIs ''position_nft_account'' 1, Token_Authority ''owner''],
    Field ''owner'' UncheckedAccount []]"

definition VestingRemainingCtx :: "account_context" where
  "VestingRemainingCtx = [
    Field ''vesting'' (AccountLoader Vesting_State) [Mut]]"

definition CreatePositionCtx :: "addresses \<Rightarrow> account_context" where
  "CreatePositionCtx ad = event_cpi [
    Field ''owner'' UncheckedAccount [],
    Field ''position_nft_mint'' InterfaceMint
      [Init_Attribute, Signer_Attribute, Payer ''payer'', Mint_Token_Program ''token_program'',
       Mint_Decimals 0, Mint_Authority ''pool_authority'', Mint_Freeze_Authority ''pool'',
       Metadata_Pointer_Authority ''pool_authority'',
       Metadata_Pointer_Address ''position_nft_mint'', Close_Authority ''pool_authority''],
    Field ''position_nft_account'' InterfaceTokenAccount
      [Init_Attribute, Seeds [Bytes POSITION_NFT_ACCOUNT_PREFIX, Key ''position_nft_mint''],
       Token_Mint ''position_nft_mint'', Token_Authority ''owner'',
       Token_Token_Program ''token_program'', Payer ''payer'', Bump],
    Field ''pool'' (AccountLoader Pool_State) [Mut],
    Field ''position'' (AccountLoader Position_State)
      [Init_Attribute, Seeds [Bytes POSITION_PREFIX, Key ''position_nft_mint''], Bump,
       Payer ''payer'', Space (8 + POSITION_INIT_SPACE)],
    Field ''pool_authority'' UncheckedAccount [Address (Constant (pool_authority_ID ad))],
    Field ''payer'' Signer [Mut],
    Field ''token_program'' Token2022Program [],
    Field ''system_program'' SystemProgram []]"

section \<open>Swaps\<close>

definition SwapCtx :: "addresses \<Rightarrow> account_context" where
  "SwapCtx ad = event_cpi [
    Field ''pool_authority'' UncheckedAccount [Address (Constant (pool_authority_ID ad))],
    Field ''pool'' (AccountLoader Pool_State)
      [Mut, HasOne ''token_a_vault'', HasOne ''token_b_vault''],
    Field ''input_token_account'' InterfaceTokenAccount [Mut],
    Field ''output_token_account'' InterfaceTokenAccount [Mut],
    Field ''token_a_vault'' InterfaceTokenAccount
      [Mut, Token_Token_Program ''token_a_program'', Token_Mint ''token_a_mint''],
    Field ''token_b_vault'' InterfaceTokenAccount
      [Mut, Token_Token_Program ''token_b_program'', Token_Mint ''token_b_mint''],
    Field ''token_a_mint'' InterfaceMint [],
    Field ''token_b_mint'' InterfaceMint [],
    Field ''payer'' Signer [],
    Field ''token_a_program'' TokenInterface [],
    Field ''token_b_program'' TokenInterface [],
    Field ''referral_token_account'' OptionTokenAccount [Mut]]"

section \<open>Creation of pools\<close>

definition InitializePoolCtx :: "addresses \<Rightarrow> account_context" where
  "InitializePoolCtx ad = event_cpi [
    Field ''creator'' UncheckedAccount [],
    Field ''position_nft_mint'' InterfaceMint
      [Init_Attribute, Signer_Attribute, Payer ''payer'',
       Mint_Token_Program ''token_2022_program'', Mint_Decimals 0,
       Mint_Authority ''pool_authority'', Mint_Freeze_Authority ''pool'',
       Metadata_Pointer_Authority ''pool_authority'',
       Metadata_Pointer_Address ''position_nft_mint'', Close_Authority ''pool_authority''],
    Field ''position_nft_account'' InterfaceTokenAccount
      [Init_Attribute, Seeds [Bytes POSITION_NFT_ACCOUNT_PREFIX, Key ''position_nft_mint''],
       Token_Mint ''position_nft_mint'', Token_Authority ''creator'',
       Token_Token_Program ''token_2022_program'', Payer ''payer'', Bump],
    Field ''payer'' Signer [Mut],
    Field ''config'' (AccountLoader Config_State) [],
    Field ''pool_authority'' UncheckedAccount [Address (Constant (pool_authority_ID ad))],
    Field ''pool'' (AccountLoader Pool_State)
      [Init_Attribute,
       Seeds [Bytes POOL_PREFIX, Key ''config'', MaxKey ''token_a_mint'' ''token_b_mint'',
         MinKey ''token_a_mint'' ''token_b_mint''],
       Bump, Payer ''payer'', Space (8 + POOL_INIT_SPACE)],
    Field ''position'' (AccountLoader Position_State)
      [Init_Attribute, Seeds [Bytes POSITION_PREFIX, Key ''position_nft_mint''], Bump,
       Payer ''payer'', Space (8 + POSITION_INIT_SPACE)],
    Field ''token_a_mint'' InterfaceMint
      [KeysDiffer (KeyOf ''token_a_mint'') (KeyOf ''token_b_mint'') Foreign,
       Mint_Token_Program ''token_a_program''],
    Field ''token_b_mint'' InterfaceMint [Mint_Token_Program ''token_b_program''],
    Field ''token_a_vault'' InterfaceTokenAccount
      [Init_Attribute, Seeds [Bytes TOKEN_VAULT_PREFIX, Key ''token_a_mint'', Key ''pool''],
       Token_Mint ''token_a_mint'', Token_Authority ''pool_authority'',
       Token_Token_Program ''token_a_program'', Payer ''payer'', Bump],
    Field ''token_b_vault'' InterfaceTokenAccount
      [Init_Attribute, Seeds [Bytes TOKEN_VAULT_PREFIX, Key ''token_b_mint'', Key ''pool''],
       Token_Mint ''token_b_mint'', Token_Authority ''pool_authority'',
       Token_Token_Program ''token_b_program'', Payer ''payer'', Bump],
    Field ''payer_token_a'' InterfaceTokenAccount [Mut],
    Field ''payer_token_b'' InterfaceTokenAccount [Mut],
    Field ''token_a_program'' TokenInterface [],
    Field ''token_b_program'' TokenInterface [],
    Field ''token_2022_program'' Token2022Program [],
    Field ''system_program'' SystemProgram []]"

definition InitializePoolWithDynamicConfigCtx :: "addresses \<Rightarrow> account_context" where
  "InitializePoolWithDynamicConfigCtx ad = event_cpi [
    Field ''creator'' UncheckedAccount [],
    Field ''position_nft_mint'' InterfaceMint
      [Init_Attribute, Signer_Attribute, Payer ''payer'',
       Mint_Token_Program ''token_2022_program'', Mint_Decimals 0,
       Mint_Authority ''pool_authority'', Mint_Freeze_Authority ''pool'',
       Metadata_Pointer_Authority ''pool_authority'',
       Metadata_Pointer_Address ''position_nft_mint'', Close_Authority ''pool_authority''],
    Field ''position_nft_account'' InterfaceTokenAccount
      [Init_Attribute, Seeds [Bytes POSITION_NFT_ACCOUNT_PREFIX, Key ''position_nft_mint''],
       Token_Mint ''position_nft_mint'', Token_Authority ''creator'',
       Token_Token_Program ''token_2022_program'', Payer ''payer'', Bump],
    Field ''payer'' Signer [Mut],
    Field ''pool_creator_authority'' Signer [],
    Field ''config'' (AccountLoader Config_State) [HasOne ''pool_creator_authority''],
    Field ''pool_authority'' UncheckedAccount [Address (Constant (pool_authority_ID ad))],
    Field ''pool'' (AccountLoader Pool_State)
      [Init_Attribute,
       Seeds [Bytes POOL_PREFIX, Key ''config'', MaxKey ''token_a_mint'' ''token_b_mint'',
         MinKey ''token_a_mint'' ''token_b_mint''],
       Bump, Payer ''payer'', Space (8 + POOL_INIT_SPACE)],
    Field ''position'' (AccountLoader Position_State)
      [Init_Attribute, Seeds [Bytes POSITION_PREFIX, Key ''position_nft_mint''], Bump,
       Payer ''payer'', Space (8 + POSITION_INIT_SPACE)],
    Field ''token_a_mint'' InterfaceMint
      [KeysDiffer (KeyOf ''token_a_mint'') (KeyOf ''token_b_mint'') Foreign,
       Mint_Token_Program ''token_a_program''],
    Field ''token_b_mint'' InterfaceMint [Mint_Token_Program ''token_b_program''],
    Field ''token_a_vault'' InterfaceTokenAccount
      [Init_Attribute, Seeds [Bytes TOKEN_VAULT_PREFIX, Key ''token_a_mint'', Key ''pool''],
       Token_Mint ''token_a_mint'', Token_Authority ''pool_authority'',
       Token_Token_Program ''token_a_program'', Payer ''payer'', Bump],
    Field ''token_b_vault'' InterfaceTokenAccount
      [Init_Attribute, Seeds [Bytes TOKEN_VAULT_PREFIX, Key ''token_b_mint'', Key ''pool''],
       Token_Mint ''token_b_mint'', Token_Authority ''pool_authority'',
       Token_Token_Program ''token_b_program'', Payer ''payer'', Bump],
    Field ''payer_token_a'' InterfaceTokenAccount [Mut],
    Field ''payer_token_b'' InterfaceTokenAccount [Mut],
    Field ''token_a_program'' TokenInterface [],
    Field ''token_b_program'' TokenInterface [],
    Field ''token_2022_program'' Token2022Program [],
    Field ''system_program'' SystemProgram []]"

definition InitializeCustomizablePoolCtx :: "addresses \<Rightarrow> account_context" where
  "InitializeCustomizablePoolCtx ad = event_cpi [
    Field ''creator'' UncheckedAccount [],
    Field ''position_nft_mint'' InterfaceMint
      [Init_Attribute, Signer_Attribute, Payer ''payer'',
       Mint_Token_Program ''token_2022_program'', Mint_Decimals 0,
       Mint_Authority ''pool_authority'', Mint_Freeze_Authority ''pool'',
       Metadata_Pointer_Authority ''pool_authority'',
       Metadata_Pointer_Address ''position_nft_mint'', Close_Authority ''pool_authority''],
    Field ''position_nft_account'' InterfaceTokenAccount
      [Init_Attribute, Seeds [Bytes POSITION_NFT_ACCOUNT_PREFIX, Key ''position_nft_mint''],
       Token_Mint ''position_nft_mint'', Token_Authority ''creator'',
       Token_Token_Program ''token_2022_program'', Payer ''payer'', Bump],
    Field ''payer'' Signer [Mut],
    Field ''pool_authority'' UncheckedAccount [Address (Constant (pool_authority_ID ad))],
    Field ''pool'' (AccountLoader Pool_State)
      [Init_Attribute,
       Seeds [Bytes CUSTOMIZABLE_POOL_PREFIX, MaxKey ''token_a_mint'' ''token_b_mint'',
         MinKey ''token_a_mint'' ''token_b_mint''],
       Bump, Payer ''payer'', Space (8 + POOL_INIT_SPACE)],
    Field ''position'' (AccountLoader Position_State)
      [Init_Attribute, Seeds [Bytes POSITION_PREFIX, Key ''position_nft_mint''], Bump,
       Payer ''payer'', Space (8 + POSITION_INIT_SPACE)],
    Field ''token_a_mint'' InterfaceMint
      [KeysDiffer (KeyOf ''token_a_mint'') (KeyOf ''token_b_mint'') Foreign,
       Mint_Token_Program ''token_a_program''],
    Field ''token_b_mint'' InterfaceMint [Mint_Token_Program ''token_b_program''],
    Field ''token_a_vault'' InterfaceTokenAccount
      [Init_Attribute, Seeds [Bytes TOKEN_VAULT_PREFIX, Key ''token_a_mint'', Key ''pool''],
       Token_Mint ''token_a_mint'', Token_Authority ''pool_authority'',
       Token_Token_Program ''token_a_program'', Payer ''payer'', Bump],
    Field ''token_b_vault'' InterfaceTokenAccount
      [Init_Attribute, Seeds [Bytes TOKEN_VAULT_PREFIX, Key ''token_b_mint'', Key ''pool''],
       Token_Mint ''token_b_mint'', Token_Authority ''pool_authority'',
       Token_Token_Program ''token_b_program'', Payer ''payer'', Bump],
    Field ''payer_token_a'' InterfaceTokenAccount [Mut],
    Field ''payer_token_b'' InterfaceTokenAccount [Mut],
    Field ''token_a_program'' TokenInterface [],
    Field ''token_b_program'' TokenInterface [],
    Field ''token_2022_program'' Token2022Program [],
    Field ''system_program'' SystemProgram []]"

section \<open>Rewards\<close>

definition FundRewardCtx :: "account_context" where
  "FundRewardCtx = event_cpi [
    Field ''pool'' (AccountLoader Pool_State) [Mut],
    Field ''reward_vault'' InterfaceTokenAccount [Mut],
    Field ''reward_mint'' InterfaceMint [],
    Field ''funder_token_account'' InterfaceTokenAccount [Mut],
    Field ''funder'' Signer [],
    Field ''token_program'' TokenInterface []]"

definition WithdrawIneligibleRewardCtx :: "addresses \<Rightarrow> account_context" where
  "WithdrawIneligibleRewardCtx ad = event_cpi [
    Field ''pool_authority'' UncheckedAccount [Address (Constant (pool_authority_ID ad))],
    Field ''pool'' (AccountLoader Pool_State) [Mut],
    Field ''reward_vault'' InterfaceTokenAccount [Mut],
    Field ''reward_mint'' InterfaceMint [],
    Field ''funder_token_account'' InterfaceTokenAccount [Mut],
    Field ''funder'' Signer [],
    Field ''token_program'' TokenInterface []]"

definition InitializeRewardCtx :: "addresses \<Rightarrow> u8 \<Rightarrow> account_context" where
  "InitializeRewardCtx ad reward_index = event_cpi [
    Field ''pool_authority'' UncheckedAccount [Address (Constant (pool_authority_ID ad))],
    Field ''pool'' (AccountLoader Pool_State) [Mut],
    Field ''reward_vault'' InterfaceTokenAccount
      [Init_Attribute, Seeds [Bytes REWARD_VAULT_PREFIX, Key ''pool'', Bytes (put 1 reward_index)],
       Bump, Payer ''payer'', Token_Mint ''reward_mint'', Token_Authority ''pool_authority''],
    Field ''reward_mint'' InterfaceMint [],
    Field ''signer'' Signer [],
    Field ''payer'' Signer [Mut],
    Field ''token_program'' TokenInterface [],
    Field ''system_program'' SystemProgram []]"

definition UpdateRewardDurationCtx :: "account_context" where
  "UpdateRewardDurationCtx = event_cpi [
    Field ''pool'' (AccountLoader Pool_State) [Mut],
    Field ''signer'' Signer []]"

definition UpdateRewardFunderCtx :: "account_context" where
  "UpdateRewardFunderCtx = event_cpi [
    Field ''pool'' (AccountLoader Pool_State) [Mut],
    Field ''signer'' Signer []]"

section \<open>Fees of the protocol and the partner, settings of a pool\<close>

definition ClaimProtocolFeesCtx :: "addresses \<Rightarrow> account_context" where
  "ClaimProtocolFeesCtx ad = event_cpi [
    Field ''pool_authority'' UncheckedAccount [Address (Constant (pool_authority_ID ad))],
    Field ''pool'' (AccountLoader Pool_State)
      [Mut, HasOne ''token_a_vault'', HasOne ''token_b_vault'', HasOne ''token_a_mint'',
       HasOne ''token_b_mint''],
    Field ''token_a_vault'' InterfaceTokenAccount
      [Mut, Token_Token_Program ''token_a_program'', Token_Mint ''token_a_mint''],
    Field ''token_b_vault'' InterfaceTokenAccount
      [Mut, Token_Token_Program ''token_b_program'', Token_Mint ''token_b_mint''],
    Field ''token_a_mint'' InterfaceMint [],
    Field ''token_b_mint'' InterfaceMint [],
    Field ''token_a_account'' UncheckedAccount [Mut],
    Field ''token_b_account'' UncheckedAccount [Mut],
    Field ''operator'' (AccountLoader Operator_State) [],
    Field ''signer'' Signer [],
    Field ''token_a_program'' TokenInterface [],
    Field ''token_b_program'' TokenInterface []]"

definition ClaimPartnerFeesCtx :: "addresses \<Rightarrow> account_context" where
  "ClaimPartnerFeesCtx ad = event_cpi [
    Field ''pool_authority'' UncheckedAccount [Address (Constant (pool_authority_ID ad))],
    Field ''pool'' (AccountLoader Pool_State)
      [Mut, HasOne ''token_a_vault'', HasOne ''token_b_vault'', HasOne ''token_a_mint'',
       HasOne ''token_b_mint'', HasOne ''partner''],
    Field ''token_a_account'' InterfaceTokenAccount [Mut],
    Field ''token_b_account'' InterfaceTokenAccount [Mut],
    Field ''token_a_vault'' InterfaceTokenAccount
      [Mut, Token_Token_Program ''token_a_program'', Token_Mint ''token_a_mint''],
    Field ''token_b_vault'' InterfaceTokenAccount
      [Mut, Token_Token_Program ''token_b_program'', Token_Mint ''token_b_mint''],
    Field ''token_a_mint'' InterfaceMint [],
    Field ''token_b_mint'' InterfaceMint [],
    Field ''partner'' Signer [],
    Field ''token_a_program'' TokenInterface [],
    Field ''token_b_program'' TokenInterface []]"

definition ZapProtocolFeeCtx :: "addresses \<Rightarrow> account_context" where
  "ZapProtocolFeeCtx ad = [
    Field ''pool_authority'' UncheckedAccount [Address (Constant (pool_authority_ID ad))],
    Field ''pool'' (AccountLoader Pool_State) [Mut],
    Field ''token_vault'' InterfaceTokenAccount [Mut],
    Field ''token_mint'' InterfaceMint [],
    Field ''receiver_token'' UncheckedAccount [Mut],
    Field ''operator'' (AccountLoader Operator_State) [],
    Field ''signer'' Signer [],
    Field ''token_program'' TokenInterface [],
    Field ''sysvar_instructions'' UncheckedAccount
      [Address (Constant (ad_sysvar_instructions ad))]]"

definition SetPoolStatusCtx :: "account_context" where
  "SetPoolStatusCtx = event_cpi [
    Field ''pool'' (AccountLoader Pool_State) [Mut],
    Field ''operator'' (AccountLoader Operator_State) [],
    Field ''signer'' Signer []]"

definition UpdatePoolFeesCtx :: "account_context" where
  "UpdatePoolFeesCtx = event_cpi [
    Field ''pool'' (AccountLoader Pool_State) [Mut],
    Field ''operator'' (AccountLoader Operator_State) [],
    Field ''signer'' Signer []]"

section \<open>Configs, badges and operators\<close>

definition CreateConfigCtx :: "u64 \<Rightarrow> account_context" where
  "CreateConfigCtx index = event_cpi [
    Field ''config'' (AccountLoader Config_State)
      [Init_Attribute, Seeds [Bytes CONFIG_PREFIX, Bytes (put 8 index)], Bump, Payer ''payer'',
       Space (8 + CONFIG_INIT_SPACE)],
    Field ''operator'' (AccountLoader Operator_State) [],
    Field ''signer'' Signer [],
    Field ''payer'' Signer [Mut],
    Field ''system_program'' SystemProgram []]"

definition CloseConfigCtx :: "account_context" where
  "CloseConfigCtx = event_cpi [
    Field ''config'' (AccountLoader Config_State) [Mut, Close ''rent_receiver''],
    Field ''operator'' (AccountLoader Operator_State) [],
    Field ''signer'' Signer [],
    Field ''rent_receiver'' UncheckedAccount [Mut]]"

definition CreateTokenBadgeCtx :: "account_context" where
  "CreateTokenBadgeCtx = event_cpi [
    Field ''token_badge'' (AccountLoader Token_Badge_State)
      [Init_Attribute, Payer ''payer'', Seeds [Bytes TOKEN_BADGE_PREFIX, Key ''token_mint''], Bump,
       Space (8 + TOKEN_BADGE_INIT_SPACE)],
    Field ''token_mint'' InterfaceMint [],
    Field ''operator'' (AccountLoader Operator_State) [],
    Field ''signer'' Signer [],
    Field ''payer'' Signer [Mut],
    Field ''system_program'' SystemProgram []]"

definition CloseTokenBadgeCtx :: "account_context" where
  "CloseTokenBadgeCtx = event_cpi [
    Field ''token_badge'' (AccountLoader Token_Badge_State) [Mut, Close ''rent_receiver''],
    Field ''operator'' (AccountLoader Operator_State) [],
    Field ''signer'' Signer [],
    Field ''rent_receiver'' UncheckedAccount [Mut]]"

definition CreateOperatorAccountCtx :: "account_context" where
  "CreateOperatorAccountCtx = event_cpi [
    Field ''operator'' (AccountLoader Operator_State)
      [Init_Attribute, Payer ''payer'', Seeds [Bytes OPERATOR_PREFIX, Key ''whitelisted_address''],
       Bump, Space (8 + OPERATOR_INIT_SPACE)],
    Field ''whitelisted_address'' UncheckedAccount [],
    Field ''signer'' Signer [],
    Field ''payer'' Signer [Mut],
    Field ''system_program'' SystemProgram []]"

definition CloseOperatorAccountCtx :: "account_context" where
  "CloseOperatorAccountCtx = event_cpi [
    Field ''operator'' (AccountLoader Operator_State) [Mut, Close ''rent_receiver''],
    Field ''signer'' Signer [],
    Field ''rent_receiver'' UncheckedAccount [Mut]]"

end
