(* ===== verification/Account_Creation.thy ===== *)
theory Account_Creation
  imports Account_Checks
begin

text \<open>
  The accounts that an instruction creates: each was empty before, stands at the address of its seeds
  and has the content that its declaration says, whatever else the instruction creates. So an address
  is created once; a pool has one address for a config and two mints in either order.
\<close>

section \<open>Created accounts\<close>

lemma key_attribute_keys:
  "(\<And>x. info_key (env x) = info_key (env' x)) \<Longrightarrow> key_attribute env = key_attribute env'"
  by (intro ext) (simp add: key_attribute_def)

lemma new_content_keys:
  assumes "\<And>x. info_key (env x) = info_key (env' x)"
  shows "new_content ad env t attrs = new_content ad env' t attrs"
proof -
  have keys: "key_attribute env = key_attribute env'" using assms by (rule key_attribute_keys)
  have "new_token_account env attrs = new_token_account env' attrs"
      "new_mint env attrs = new_mint env' attrs"
    unfolding new_token_account_def new_mint_def keys by (rule refl)+
  then show ?thesis using assms by (cases t) simp_all
qed

lemma seed_bytes_keys:
  "(\<And>x. info_key (env x) = info_key (env' x)) \<Longrightarrow> seed_bytes env s = seed_bytes env' s"
  by (cases s) simp_all

lemma derived_key_keys:
  assumes "\<And>x. info_key (env x) = info_key (env' x)"
  shows "derived_key ad env seeds = derived_key ad env' seeds"
  using seed_bytes_keys [OF assms] by (simp add: derived_key_def cong: map_cong)

lemma new_content_has_data: "new_content ad env t attrs = Ok (owner, data) \<Longrightarrow> data \<noteq> No_Data"
  by (cases t) (auto simp: rbind_Ok_iff)

text \<open>An address at which every name sees an account in use.\<close>

definition occupied :: "pubkey \<Rightarrow> environment \<Rightarrow> bool" where
  "occupied k env \<longleftrightarrow> (\<forall>y. info_key (env y) = k \<longrightarrow> info_data (env y) \<noteq> No_Data)"

text \<open>What one creation does.\<close>

lemma init_account_Ok:
  assumes "init_account ad (Field x t attrs) env = Ok env'"
  obtains owner data where "new_content ad env t attrs = Ok (owner, data)"
    "env' = update_account env (info_key (env x)) (\<lambda>a. a\<lparr>info_owner := owner, info_data := data\<rparr>)"
    "info_owner (env x) = ad_system_program ad" "info_data (env x) = No_Data"
    "case seeds_of attrs of Some seeds \<Rightarrow> info_key (env x) = derived_key ad env seeds
       | None \<Rightarrow> info_is_signer (env x)"
  using assms by (auto simp: rbind_Ok_iff constraint_Ok_iff split: prod.splits)

lemma init_account_unchanged:
  assumes "init_account ad f env = Ok env'" "info_data (env' x) = No_Data"
  shows "env' x = env x"
proof (cases f)
  case (Field y t attrs)
  with assms(1) obtain owner data where c: "new_content ad env t attrs = Ok (owner, data)"
      "env' = update_account env (info_key (env y)) (\<lambda>a. a\<lparr>info_owner := owner, info_data := data\<rparr>)"
    by (blast elim: init_account_Ok)
  show ?thesis using assms(2) new_content_has_data [OF c(1)] c(2)
    by (auto simp: update_account_def split: if_splits)
qed

lemma init_account_occupied:
  assumes "init_account ad f env = Ok env'" "occupied k env"
  shows "occupied k env'" and "info_key (env x) = k \<Longrightarrow> env' x = env x"
proof -
  obtain y t attrs where f: "f = Field y t attrs" by (cases f)
  obtain owner data where c: "new_content ad env t attrs = Ok (owner, data)"
      "env' = update_account env (info_key (env y)) (\<lambda>a. a\<lparr>info_owner := owner, info_data := data\<rparr>)"
      "info_data (env y) = No_Data"
    using assms(1) unfolding f by (rule init_account_Ok) blast
  show "occupied k env'"
    using assms(2) new_content_has_data [OF c(1)] c(2) by (auto simp: occupied_def update_account_def)
  show "env' x = env x" if "info_key (env x) = k"
    using that assms(2) c(2,3) by (auto simp: occupied_def update_account_def)
qed

lemma init_accounts_occupied:
  "init_accounts ad ctx env = Ok env' \<Longrightarrow> occupied k env \<Longrightarrow> info_key (env x) = k \<Longrightarrow> env' x = env x"
proof (induction ctx arbitrary: env)
  case (Cons f fs)
  from Cons.prems(1) obtain env1 where step:
      "(if is_init f then init_account ad f env else Ok env) = Ok env1" "init_accounts ad fs env1 = Ok env'"
    by (auto simp: rbind_Ok_iff)
  have "occupied k env1 \<and> env1 x = env x"
  proof (cases "is_init f")
    case True
    with step(1) have "init_account ad f env = Ok env1" by simp
    from init_account_occupied [OF this Cons.prems(2)] Cons.prems(3) show ?thesis by simp
  next
    case False
    with step(1) Cons.prems(2) show ?thesis by simp
  qed
  with Cons.IH [OF step(2)] Cons.prems(3) show ?case by simp
qed simp

lemma init_accounts_field:
  assumes "init_accounts ad ctx env = Ok env'" "Field x t attrs \<in> set ctx" "Init_Attribute \<in> set attrs"
  shows "info_owner (env x) = ad_system_program ad" "info_data (env x) = No_Data"
    and "new_content ad env t attrs = Ok (info_owner (env' x), info_data (env' x))"
    and "case seeds_of attrs of Some seeds \<Rightarrow> info_key (env x) = derived_key ad env seeds
       | None \<Rightarrow> info_is_signer (env x)"
  using assms(1,2)
proof (atomize (full), induction ctx arbitrary: env)
  case (Cons f fs)
  from Cons.prems(1) obtain env1 where step:
      "(if is_init f then init_account ad f env else Ok env) = Ok env1" "init_accounts ad fs env1 = Ok env'"
    by (auto simp: rbind_Ok_iff)
  show ?case
  proof (cases "f = Field x t attrs")
    case True
    with step(1) assms(3) have "init_account ad (Field x t attrs) env = Ok env1" by simp
    then obtain owner data where c: "new_content ad env t attrs = Ok (owner, data)"
        "env1 = update_account env (info_key (env x)) (\<lambda>a. a\<lparr>info_owner := owner, info_data := data\<rparr>)"
        "info_owner (env x) = ad_system_program ad" "info_data (env x) = No_Data"
        "case seeds_of attrs of Some seeds \<Rightarrow> info_key (env x) = derived_key ad env seeds
           | None \<Rightarrow> info_is_signer (env x)"
      by (rule init_account_Ok) blast
    have "occupied (info_key (env x)) env1"
      using c(2) new_content_has_data [OF c(1)] by (auto simp: occupied_def update_account_def)
    moreover have "info_key (env1 x) = info_key (env x)" using c(2) by (simp add: update_account_def)
    ultimately have "env' x = env1 x" using init_accounts_occupied [OF step(2)] by blast
    with c show ?thesis by (simp add: update_account_def)
  next
    case False
    with Cons.prems(2) have mem: "Field x t attrs \<in> set fs" by auto
    note ih = Cons.IH [OF step(2) mem]
    have flags: "info_key (env1 y) = info_key (env y) \<and> info_is_signer (env1 y) = info_is_signer (env y)" for y
      using step(1) init_account_flags [of ad f env env1 y] by (cases "is_init f") auto
    have "env1 x = env x"
      using ih step(1) init_account_unchanged [of ad f env env1 x] by (cases "is_init f") auto
    with ih flags show ?thesis
      using new_content_keys [of env1 env ad t attrs] derived_key_keys [of env1 env ad]
      by (simp split: option.splits)
  qed
qed simp

text \<open>Other names bound to the address of a new account see the same content.\<close>

lemma init_accounts_shared:
  assumes "init_accounts ad ctx env = Ok env'" "Field x t attrs \<in> set ctx" "Init_Attribute \<in> set attrs"
    and "info_key (env y) = info_key (env x)"
  shows "info_data (env' y) = info_data (env' x)"
  using assms(1,2,4)
proof (induction ctx arbitrary: env)
  case (Cons f fs)
  from Cons.prems(1) obtain env1 where step:
      "(if is_init f then init_account ad f env else Ok env) = Ok env1" "init_accounts ad fs env1 = Ok env'"
    by (auto simp: rbind_Ok_iff)
  have keys: "info_key (env1 z) = info_key (env z)" for z
    using step(1) init_account_flags [of ad f env env1 z] by (cases "is_init f") auto
  show ?case
  proof (cases "f = Field x t attrs")
    case True
    with step(1) assms(3) have "init_account ad (Field x t attrs) env = Ok env1" by simp
    then obtain owner data where c: "new_content ad env t attrs = Ok (owner, data)"
        "env1 = update_account env (info_key (env x)) (\<lambda>a. a\<lparr>info_owner := owner, info_data := data\<rparr>)"
      by (rule init_account_Ok) blast
    have occ: "occupied (info_key (env x)) env1"
      using c(2) new_content_has_data [OF c(1)] by (auto simp: occupied_def update_account_def)
    have "env' x = env1 x" "env' y = env1 y"
      using init_accounts_occupied [OF step(2) occ] keys Cons.prems(3) by metis+
    moreover have "info_data (env1 x) = data" "info_data (env1 y) = data"
      using Cons.prems(3) c(2) by (simp_all add: update_account_def)
    ultimately show ?thesis by simp
  next
    case False
    with Cons.prems(2) have "Field x t attrs \<in> set fs" by auto
    then show ?thesis using Cons.IH [OF step(2)] keys Cons.prems(3) by simp
  qed
qed simp

text \<open>The same for an instruction whose accounts are accepted.\<close>

fun creates :: "account_context \<Rightarrow> string \<Rightarrow> account_type \<Rightarrow> account_attribute list \<Rightarrow> bool" where
  "creates ctx x t attrs \<longleftrightarrow> Field x t attrs \<in> set ctx \<and> Init_Attribute \<in> set attrs"

lemma created_account:
  assumes "try_accounts ad ctx accounts = Ok env" "creates ctx x t attrs"
  shows "info_owner (bind_accounts ctx accounts x) = ad_system_program ad"
    and "info_data (bind_accounts ctx accounts x) = No_Data"
    and "new_content ad env t attrs = Ok (info_owner (env x), info_data (env x))"
    and "\<And>seeds. seeds_of attrs = Some seeds \<Longrightarrow> info_key (env x) = derived_key ad env seeds"
    and "seeds_of attrs = None \<Longrightarrow> info_is_signer (env x)"
    and "\<And>y. info_key (env y) = info_key (env x) \<Longrightarrow> info_data (env y) = info_data (env x)"
proof -
  have mem: "Field x t attrs \<in> set ctx" "Init_Attribute \<in> set attrs" using assms(2) by simp_all
  note field = init_accounts_field [OF try_accounts_init(1) [OF assms(1)] mem]
  note flags = try_accounts_flags [OF assms(1)]
  show "info_owner (bind_accounts ctx accounts x) = ad_system_program ad"
      "info_data (bind_accounts ctx accounts x) = No_Data"
    using field(1,2) .
  show "new_content ad env t attrs = Ok (info_owner (env x), info_data (env x))"
    using field(3) new_content_keys [OF flags(1)] by simp
  show "info_key (env x) = derived_key ad env seeds" if "seeds_of attrs = Some seeds" for seeds
    using field(4) that flags(1) derived_key_keys [OF flags(1)] by simp
  show "info_is_signer (env x)" if "seeds_of attrs = None"
    using field(4) that flags(2) by simp
  show "info_data (env y) = info_data (env x)" if "info_key (env y) = info_key (env x)" for y
    using init_accounts_shared [OF try_accounts_init(1) [OF assms(1)] mem, of y] that flags(1) by simp
qed

lemma creates_bound:
  assumes "try_accounts ad ctx accounts = Ok env" "creates ctx x t attrs"
  shows "bind_accounts ctx accounts x \<in> set accounts"
proof -
  have "x \<in> set (List.map field_name ctx)" using assms(2) by force
  moreover have "length (List.map field_name ctx) \<le> length accounts"
    using try_accounts_init(2) [OF assms(1)] by simp
  ultimately have "x \<in> fst ` set (zip (List.map field_name ctx) accounts)"
    by (simp add: map_fst_zip_take flip: set_map)
  then obtain a where "map_of (zip (List.map field_name ctx) accounts) x = Some a"
    by (meson map_of_eq_None_iff not_None_eq)
  moreover from this have "a \<in> set accounts" by (meson map_of_SomeD set_zip_rightD)
  ultimately show ?thesis by (simp add: bind_accounts_def)
qed

text \<open>An address is created once: where an account is in use, its creation fails.\<close>

lemma created_once:
  assumes "creates ctx x t attrs" "info_owner (bind_accounts ctx accounts x) \<noteq> ad_system_program ad"
  shows "\<not> is_ok (try_accounts ad ctx accounts)"
  using created_account(1) [OF _ assms(1)] assms(2) by (auto simp: is_ok_iff)

section \<open>Pools\<close>

text \<open>The address of a pool: from a config and two mints, or from two mints alone.\<close>

definition pool_address :: "addresses \<Rightarrow> pubkey \<Rightarrow> pubkey \<Rightarrow> pubkey \<Rightarrow> pubkey" where
  "pool_address ad config token_a_mint token_b_mint =
     fst (ad_derive ad [POOL_PREFIX, key_bytes config, max_key token_a_mint token_b_mint,
       min_key token_a_mint token_b_mint] (program_id ad))"

definition customizable_pool_address :: "addresses \<Rightarrow> pubkey \<Rightarrow> pubkey \<Rightarrow> pubkey" where
  "customizable_pool_address ad token_a_mint token_b_mint =
     fst (ad_derive ad [CUSTOMIZABLE_POOL_PREFIX, max_key token_a_mint token_b_mint,
       min_key token_a_mint token_b_mint] (program_id ad))"

definition config_pool_seeds :: "seed list" where
  "config_pool_seeds =
     [Bytes POOL_PREFIX, Key ''config'', MaxKey ''token_a_mint'' ''token_b_mint'',
      MinKey ''token_a_mint'' ''token_b_mint'']"

definition customizable_pool_seeds :: "seed list" where
  "customizable_pool_seeds =
     [Bytes CUSTOMIZABLE_POOL_PREFIX, MaxKey ''token_a_mint'' ''token_b_mint'',
      MinKey ''token_a_mint'' ''token_b_mint'']"

text \<open>The three instructions with the seeds of their pools.\<close>

definition pool_creations :: "addresses \<Rightarrow> (account_context \<times> seed list) list" where
  "pool_creations ad =
     [(InitializePoolCtx ad, config_pool_seeds),
      (InitializePoolWithDynamicConfigCtx ad, config_pool_seeds),
      (InitializeCustomizablePoolCtx ad, customizable_pool_seeds)]"

definition pool_attributes :: "seed list \<Rightarrow> account_attribute list" where
  "pool_attributes seeds =
     [Init_Attribute, Seeds seeds, Bump, Payer ''payer'', Space (8 + POOL_INIT_SPACE)]"

definition vault_attributes :: "string \<Rightarrow> string \<Rightarrow> account_attribute list" where
  "vault_attributes mint program =
     [Init_Attribute, Seeds [Bytes TOKEN_VAULT_PREFIX, Key mint, Key ''pool''], Token_Mint mint,
      Token_Authority ''pool_authority'', Token_Token_Program program, Payer ''payer'', Bump]"

definition nft_account_attributes :: "string \<Rightarrow> string \<Rightarrow> account_attribute list" where
  "nft_account_attributes owner program =
     [Init_Attribute, Seeds [Bytes POSITION_NFT_ACCOUNT_PREFIX, Key ''position_nft_mint''],
      Token_Mint ''position_nft_mint'', Token_Authority owner, Token_Token_Program program,
      Payer ''payer'', Bump]"

lemma pool_creations_create:
  assumes "(ctx, seeds) \<in> set (pool_creations ad)"
  shows "creates ctx ''pool'' (AccountLoader Pool_State) (pool_attributes seeds)"
    and "creates ctx ''token_a_vault'' InterfaceTokenAccount (vault_attributes ''token_a_mint'' ''token_a_program'')"
    and "creates ctx ''token_b_vault'' InterfaceTokenAccount (vault_attributes ''token_b_mint'' ''token_b_program'')"
    and "creates ctx ''position_nft_account'' InterfaceTokenAccount
      (nft_account_attributes ''creator'' ''token_2022_program'')"
    and "declares ctx ''token_a_mint'' (KeysDiffer (KeyOf ''token_a_mint'') (KeyOf ''token_b_mint'') Foreign)"
    and "declares ctx ''pool_authority'' (Address (Constant (pool_authority_ID ad)))"
    and "declares_type ctx ''token_a_program'' TokenInterface"
    and "declares_type ctx ''token_b_program'' TokenInterface"
  using assms
  by (auto simp: pool_creations_def pool_attributes_def vault_attributes_def nft_account_attributes_def
      config_pool_seeds_def customizable_pool_seeds_def context_defs)

lemma pool_seeds: "seeds_of (pool_attributes seeds) = Some seeds"
  by (simp add: pool_attributes_def seeds_of_def)

lemma derived_pool_address:
  "derived_key ad env config_pool_seeds = pool_address ad (info_key (env ''config''))
     (info_key (env ''token_a_mint'')) (info_key (env ''token_b_mint''))"
  "derived_key ad env customizable_pool_seeds = customizable_pool_address ad
     (info_key (env ''token_a_mint'')) (info_key (env ''token_b_mint''))"
  by (simp_all add: derived_key_def config_pool_seeds_def customizable_pool_seeds_def
      pool_address_def customizable_pool_address_def)

lemma pool_address_commute:
  "pool_address ad config x y = pool_address ad config y x"
  "customizable_pool_address ad x y = customizable_pool_address ad y x"
  by (simp_all add: pool_address_def customizable_pool_address_def max_key_commute [of x] min_key_commute [of x])

text \<open>A second pool for the same config and pair of mints, in either order, is refused.\<close>

lemma created_pool_key:
  assumes "(ctx, seeds) \<in> set (pool_creations ad)" "try_accounts ad ctx accounts = Ok env"
  shows "info_key (env ''pool'') = derived_key ad env seeds"
  using created_account(4) [OF assms(2) pool_creations_create(1) [OF assms(1)] pool_seeds] .

lemma same_pool_key:
  assumes "(ctx, seeds) \<in> set (pool_creations ad)" "(ctx', seeds) \<in> set (pool_creations ad)"
    and "try_accounts ad ctx accounts = Ok env" "try_accounts ad ctx' accounts' = Ok env'"
    and "info_key (env' ''config'') = info_key (env ''config'')"
    and "{info_key (env' ''token_a_mint''), info_key (env' ''token_b_mint'')} =
      {info_key (env ''token_a_mint''), info_key (env ''token_b_mint'')}"
  shows "info_key (env' ''pool'') = info_key (env ''pool'')"
proof -
  have "seeds = config_pool_seeds \<or> seeds = customizable_pool_seeds"
    using assms(1) by (auto simp: pool_creations_def)
  moreover have "derived_key ad env' config_pool_seeds = derived_key ad env config_pool_seeds"
      "derived_key ad env' customizable_pool_seeds = derived_key ad env customizable_pool_seeds"
    using assms(5,6) pool_address_commute unfolding derived_pool_address doubleton_eq_iff by metis+
  ultimately show ?thesis
    using created_pool_key [OF assms(1,3)] created_pool_key [OF assms(2,4)] by auto
qed

text \<open>The vaults of a new pool are empty and obey the authority for which the program signs.\<close>

definition is_new_vault :: "addresses \<Rightarrow> account_info \<Rightarrow> pubkey \<Rightarrow> bool" where
  "is_new_vault ad vault mint \<longleftrightarrow>
     token_account_of vault =
       Some \<lparr> ta_mint = mint, ta_authority = pool_authority_ID ad, ta_amount = 0 \<rparr> \<and>
     info_owner vault \<in> set (ad_token_programs ad)"

lemma new_token_account_created:
  assumes "try_accounts ad ctx accounts = Ok env" "creates ctx x InterfaceTokenAccount attrs"
  shows "\<exists>t. new_token_account env attrs = Ok t \<and> token_account_of (env x) = Some t \<and>
    info_owner (env x) = info_key (env (token_program_of attrs))"
  using created_account(3) [OF assms]
  by (auto simp: rbind_Ok_iff token_account_of_def split: account_data.splits)

lemma new_vault:
  "new_token_account env (vault_attributes mint program) =
     Ok \<lparr> ta_mint = info_key (env mint), ta_authority = info_key (env ''pool_authority''), ta_amount = 0 \<rparr>"
  "token_program_of (vault_attributes mint program) = program"
  by (simp_all add: new_token_account_def key_attribute_def vault_attributes_def token_program_of_def)

lemma new_nft_account:
  "new_token_account env (nft_account_attributes owner program) =
     Ok \<lparr> ta_mint = info_key (env ''position_nft_mint''), ta_authority = info_key (env owner),
          ta_amount = 0 \<rparr>"
  by (simp add: new_token_account_def key_attribute_def nft_account_attributes_def)

lemma vault_of_new_pool:
  assumes "try_accounts ad ctx accounts = Ok env"
    and "creates ctx x InterfaceTokenAccount (vault_attributes mint program)"
    and "declares_type ctx program TokenInterface"
    and "declares ctx ''pool_authority'' (Address (Constant (pool_authority_ID ad)))"
  shows "is_new_vault ad (env x) (info_key (env mint))"
proof -
  have "info_key (env program) \<in> set (ad_token_programs ad)"
    using try_accounts_type [OF assms(1,3)] try_accounts_flags(1) [OF assms(1)] by simp
  moreover have "info_key (env ''pool_authority'') = pool_authority_ID ad"
    using try_accounts_attribute [OF assms(1,4)] by (simp add: constraint_Ok_iff)
  ultimately show ?thesis
    using new_token_account_created [OF assms(1,2)] by (simp add: new_vault is_new_vault_def)
qed

lemma accounts_of_new_pool:
  assumes "(ctx, seeds) \<in> set (pool_creations ad)" "try_accounts ad ctx accounts = Ok env"
  shows "is_new_vault ad (env ''token_a_vault'') (info_key (env ''token_a_mint''))"
    and "is_new_vault ad (env ''token_b_vault'') (info_key (env ''token_b_mint''))"
    and "info_key (env ''token_a_mint'') \<noteq> info_key (env ''token_b_mint'')"
    and "token_account_of (env ''position_nft_account'') =
      Some \<lparr> ta_mint = info_key (env ''position_nft_mint''),
             ta_authority = info_key (env ''creator''), ta_amount = 0 \<rparr>"
proof -
  note c = pool_creations_create [OF assms(1)]
  show "is_new_vault ad (env ''token_a_vault'') (info_key (env ''token_a_mint''))"
    by (rule vault_of_new_pool [OF assms(2) c(2,7,6)])
  show "is_new_vault ad (env ''token_b_vault'') (info_key (env ''token_b_mint''))"
    by (rule vault_of_new_pool [OF assms(2) c(3,8,6)])
  show "info_key (env ''token_a_mint'') \<noteq> info_key (env ''token_b_mint'')"
    using try_accounts_attribute [OF assms(2) c(5)] by (simp split: if_splits)
  show "token_account_of (env ''position_nft_account'') =
      Some \<lparr> ta_mint = info_key (env ''position_nft_mint''),
             ta_authority = info_key (env ''creator''), ta_amount = 0 \<rparr>"
    using new_token_account_created [OF assms(2) c(4)] by (simp add: new_nft_account)
qed

section \<open>The NFT of a position\<close>

text \<open>
  The calls to the token program and the system program that \<^verbatim>\<open>create_position_nft\<close> makes are
  parameters: the metadata of a mint (its address, the authority that signs, name, symbol and link),
  the minimum balance for the data of an account and its balance, a transfer of lamports, and the
  minting of tokens (signer seeds, mint, account, authority, amount).
\<close>

record token_calls =
  tc_metadata_initialize ::
    "bytes list \<Rightarrow> pubkey \<Rightarrow> pubkey \<Rightarrow> string \<Rightarrow> string \<Rightarrow> string \<Rightarrow> environment \<Rightarrow> environment result"
  tc_minimum_balance :: "environment \<Rightarrow> pubkey \<Rightarrow> u64"
  tc_lamports :: "environment \<Rightarrow> pubkey \<Rightarrow> u64"
  tc_transfer :: "pubkey \<Rightarrow> pubkey \<Rightarrow> u64 \<Rightarrow> environment \<Rightarrow> environment result"
  tc_mint_to ::
    "bytes list \<Rightarrow> pubkey \<Rightarrow> pubkey \<Rightarrow> pubkey \<Rightarrow> u64 \<Rightarrow> environment \<Rightarrow> environment result"

definition update_account_lamports_to_minimum_balance ::
  "token_calls \<Rightarrow> pubkey \<Rightarrow> pubkey \<Rightarrow> environment \<Rightarrow> environment result" where
  "update_account_lamports_to_minimum_balance tc account payer env =
     (let minimum_balance = tc_minimum_balance tc env account;
          current_lamport = tc_lamports tc env account in
      if current_lamport < minimum_balance then
        rbind (safe_sub minimum_balance current_lamport) (\<lambda>extra_lamports.
        tc_transfer tc payer account extra_lamports env)
      else Ok env)"

definition create_position_nft ::
  "token_calls \<Rightarrow> addresses \<Rightarrow> pubkey \<Rightarrow> pubkey \<Rightarrow> pubkey \<Rightarrow> pubkey \<Rightarrow> environment \<Rightarrow>
   environment result" where
  "create_position_nft tc ad payer position_nft_mint pool_authority position_nft_account env =
     (let seeds = pool_authority_seeds ad in
      rbind (tc_metadata_initialize tc seeds position_nft_mint pool_authority
        ''Meteora Position NFT'' ''MPN''
        ''https://raw.githubusercontent.com/MeteoraAg/token-metadata/main/meteora_position_nft.png''
        env) (\<lambda>env.
      rbind (update_account_lamports_to_minimum_balance tc position_nft_mint payer env) (\<lambda>env.
      tc_mint_to tc seeds position_nft_mint position_nft_account pool_authority 1 env)))"

text \<open>
  What the program relies on: metadata and lamports leave the token accounts as they are, and minting
  adds the amount to an account of the mint; no call changes an address or a position.
\<close>

definition keeps_accounts :: "environment \<Rightarrow> environment \<Rightarrow> bool" where
  "keeps_accounts env env' \<longleftrightarrow>
     (\<forall>x. info_key (env' x) = info_key (env x) \<and> info_owner (env' x) = info_owner (env x) \<and>
          position_of (env' x) = position_of (env x))"

definition token_calls_law :: "token_calls \<Rightarrow> bool" where
  "token_calls_law tc \<longleftrightarrow>
     (\<forall>seeds m authority name symbol link env env'.
        tc_metadata_initialize tc seeds m authority name symbol link env = Ok env' \<longrightarrow>
        keeps_accounts env env' \<and> (\<forall>x. token_account_of (env' x) = token_account_of (env x))) \<and>
     (\<forall>payer account n env env'. tc_transfer tc payer account n env = Ok env' \<longrightarrow>
        keeps_accounts env env' \<and> (\<forall>x. token_account_of (env' x) = token_account_of (env x))) \<and>
     (\<forall>seeds m k authority n env env'. tc_mint_to tc seeds m k authority n env = Ok env' \<longrightarrow>
        keeps_accounts env env' \<and>
        (\<forall>x t. info_key (env x) = k \<longrightarrow> token_account_of (env x) = Some t \<longrightarrow>
           token_account_of (env' x) = Some (t\<lparr>ta_amount := ta_amount t + n\<rparr>)))"

lemma keeps_accounts_trans:
  "keeps_accounts env env' \<Longrightarrow> keeps_accounts env' env'' \<Longrightarrow> keeps_accounts env env''"
  by (simp add: keeps_accounts_def)

lemma keeps_accounts_refl: "keeps_accounts env env"
  by (simp add: keeps_accounts_def)

lemma update_account_lamports:
  assumes "token_calls_law tc"
    and "update_account_lamports_to_minimum_balance tc account payer env = Ok env'"
  shows "keeps_accounts env env'" "token_account_of (env' x) = token_account_of (env x)"
  using assms keeps_accounts_refl
  by (auto simp: update_account_lamports_to_minimum_balance_def Let_def token_calls_law_def rbind_Ok_iff
      split: if_splits)

text \<open>The balance is brought to the minimum without an overflow.\<close>

lemma update_account_lamports_pays_difference:
  assumes "tc_lamports tc env account < tc_minimum_balance tc env account"
  shows "update_account_lamports_to_minimum_balance tc account payer env =
    tc_transfer tc payer account (tc_minimum_balance tc env account - tc_lamports tc env account) env"
  using assms
  by (simp add: update_account_lamports_to_minimum_balance_def Let_def safe_sub_def checked_sub_def
      word_less_nat_alt word_le_nat_alt)

lemma nft_is_minted:
  assumes "token_calls_law tc"
    and "create_position_nft tc ad payer m authority (info_key (env x)) env = Ok env'"
    and "token_account_of (env x) = Some t"
  shows "keeps_accounts env env'" "token_account_of (env' x) = Some (t\<lparr>ta_amount := ta_amount t + 1\<rparr>)"
proof -
  obtain env1 env2 where steps:
      "tc_metadata_initialize tc (pool_authority_seeds ad) m authority ''Meteora Position NFT'' ''MPN''
        ''https://raw.githubusercontent.com/MeteoraAg/token-metadata/main/meteora_position_nft.png''
        env = Ok env1"
      "update_account_lamports_to_minimum_balance tc m payer env1 = Ok env2"
      "tc_mint_to tc (pool_authority_seeds ad) m (info_key (env x)) authority 1 env2 = Ok env'"
    using assms(2) by (auto simp: create_position_nft_def Let_def rbind_Ok_iff)
  have 1: "keeps_accounts env env1" "token_account_of (env1 x) = Some t"
    using steps(1) assms(1,3) by (auto simp: token_calls_law_def)
  have 2: "keeps_accounts env1 env2" "token_account_of (env2 x) = Some t"
    using update_account_lamports [OF assms(1) steps(2)] 1(2) by simp_all
  have k: "info_key (env2 x) = info_key (env x)"
    using 1(1) 2(1) by (simp add: keeps_accounts_def)
  have 3: "keeps_accounts env2 env'" "token_account_of (env' x) = Some (t\<lparr>ta_amount := ta_amount t + 1\<rparr>)"
    using steps(3) assms(1) 2(2) k unfolding token_calls_law_def by blast+
  show "keeps_accounts env env'" using 1(1) 2(1) 3(1) keeps_accounts_trans by blast
  show "token_account_of (env' x) = Some (t\<lparr>ta_amount := ta_amount t + 1\<rparr>)" by (rule 3(2))
qed

end
