(* ===== verification/Creation_Instructions.thy ===== *)
theory Creation_Instructions
  imports Account_Creation
begin

text \<open>
  The accounts of an instruction together with its handler, for the instructions that create: a new
  position with its NFT (\<^verbatim>\<open>create_position\<close>) and a new pool with its vaults and its first position.
\<close>

section \<open>A new position\<close>

text \<open>The handler writes the pool and the new position back to their accounts.\<close>

definition store_account :: "environment \<Rightarrow> string \<Rightarrow> account_data \<Rightarrow> environment" where
  "store_account env x data = update_account env (info_key (env x)) (\<lambda>a. a\<lparr>info_data := data\<rparr>)"

definition create_position_instruction ::
  "addresses \<Rightarrow> token_calls \<Rightarrow> clock \<Rightarrow> account_info list \<Rightarrow> environment result" where
  "create_position_instruction ad tc clk accounts =
     rbind (try_accounts ad (CreatePositionCtx ad) accounts) (\<lambda>env.
     case pool_of (env ''pool'') of None \<Rightarrow> Inl Foreign
     | Some q \<Rightarrow>
        let nft = create_position_nft tc ad (info_key (env ''payer''))
          (info_key (env ''position_nft_mint'')) (info_key (env ''pool_authority''))
          (info_key (env ''position_nft_account'')) env in
        rbind (handle_create_position clk (rbind nft (\<lambda>_. Ok ())) q (info_key (env ''pool''))
          (info_key (env ''position_nft_mint''))) (\<lambda>(q, p).
        rbind nft (\<lambda>env.
        Ok (store_account (store_account env ''pool'' (Pool_Data q)) ''position'' (Position_Data p)))))"

lemma create_position_creates:
  "creates (CreatePositionCtx ad) ''position_nft_account'' InterfaceTokenAccount
     (nft_account_attributes ''owner'' ''token_program'')"
  "creates (CreatePositionCtx ad) ''position'' (AccountLoader Position_State)
     [Init_Attribute, Seeds [Bytes POSITION_PREFIX, Key ''position_nft_mint''], Bump,
      Payer ''payer'', Space (8 + POSITION_INIT_SPACE)]"
  by (simp_all add: CreatePositionCtx_def event_cpi_def nft_account_attributes_def)

lemma handle_create_position_Ok:
  assumes "handle_create_position clk nft q pool_key mint = Ok (q', p)"
  shows "q' = q\<lparr>pl_metrics := increase_position (pl_metrics q)\<rparr>"
    and "p = position_default\<lparr>ps_pool := pool_key, ps_nft_mint := mint, ps_unlocked_liquidity := 0\<rparr>"
  using assms
  by (auto simp: handle_create_position_def rbind_Ok_iff require_Ok_iff position_initialize_def)

lemma store_account_keys [simp]: "info_key (store_account env y data x) = info_key (env x)"
  by (simp add: store_account_def update_account_def)

lemma store_account_owner [simp]: "info_owner (store_account env y data x) = info_owner (env x)"
  by (simp add: store_account_def update_account_def)

lemma store_account_data:
  "info_data (store_account env y data x) =
     (if info_key (env x) = info_key (env y) then data else info_data (env x))"
  by (simp add: store_account_def update_account_def)

text \<open>The NFT account, the pool and the new position are different accounts.\<close>

lemma created_nft_account:
  assumes "try_accounts ad (CreatePositionCtx ad) accounts = Ok env"
    and "pool_of (env ''pool'') = Some q"
  shows "info_data (env ''position_nft_account'') = Token_Account_Data
      \<lparr> ta_mint = info_key (env ''position_nft_mint''), ta_authority = info_key (env ''owner''),
        ta_amount = 0 \<rparr>"
    and "info_owner (env ''position'') = program_id ad"
    and "info_key (env ''position'') = fst (ad_derive ad
      [POSITION_PREFIX, key_bytes (info_key (env ''position_nft_mint''))] (program_id ad))"
    and "info_key (env ''pool'') \<noteq> info_key (env ''position_nft_account'')"
    and "info_key (env ''position'') \<noteq> info_key (env ''position_nft_account'')"
proof -
  note nft = created_account [OF assms(1) create_position_creates(1)]
    and pos = created_account [OF assms(1) create_position_creates(2)]
  show token: "info_data (env ''position_nft_account'') = Token_Account_Data
      \<lparr> ta_mint = info_key (env ''position_nft_mint''), ta_authority = info_key (env ''owner''),
        ta_amount = 0 \<rparr>"
    using nft(3) by (simp add: new_nft_account)
  show "info_owner (env ''position'') = program_id ad" using pos(3) by simp
  show "info_key (env ''position'') = fst (ad_derive ad
      [POSITION_PREFIX, key_bytes (info_key (env ''position_nft_mint''))] (program_id ad))"
    using pos(4) by (simp add: seeds_of_def derived_key_def)
  show "info_key (env ''pool'') \<noteq> info_key (env ''position_nft_account'')"
    using nft(6) [of "''pool''"] token assms(2) by (auto simp: pool_of_def)
  show "info_key (env ''position'') \<noteq> info_key (env ''position_nft_account'')"
    using nft(6) [of "''position''"] token pos(3) by auto
qed

lemma created_position_belongs_to_owner:
  assumes "token_calls_law tc" "create_position_instruction ad tc clk accounts = Ok env"
  shows "\<exists>p. position_of (env ''position'') = Some p \<and>
    position_constraints (position_accounts_of env ''position_nft_account'' ''owner'') p = Ok () \<and>
    info_owner (env ''position'') = program_id ad \<and>
    info_key (env ''position'') = fst (ad_derive ad
      [POSITION_PREFIX, key_bytes (ps_nft_mint p)] (program_id ad)) \<and>
    p = position_default\<lparr>ps_pool := info_key (env ''pool''),
      ps_nft_mint := info_key (env ''position_nft_mint'')\<rparr>"
proof -
  obtain env0 q where e0: "try_accounts ad (CreatePositionCtx ad) accounts = Ok env0"
      "pool_of (env0 ''pool'') = Some q"
    using assms(2) by (auto simp: create_position_instruction_def rbind_Ok_iff split: option.splits)
  let ?k = "\<lambda>x. info_key (env0 x)"
  let ?nft = "create_position_nft tc ad (?k ''payer'') (?k ''position_nft_mint'')
    (?k ''pool_authority'') (?k ''position_nft_account'') env0"
  obtain q' p env1 where h: "handle_create_position clk (rbind ?nft (\<lambda>_. Ok ())) q (?k ''pool'')
        (?k ''position_nft_mint'') = Ok (q', p)" "?nft = Ok env1"
      "env = store_account (store_account env1 ''pool'' (Pool_Data q')) ''position'' (Position_Data p)"
    using assms(2) e0 by (auto simp: create_position_instruction_def Let_def rbind_Ok_iff)
  note p = handle_create_position_Ok(2) [OF h(1)] and created = created_nft_account [OF e0]
  have "token_account_of (env0 ''position_nft_account'') = Some
      \<lparr> ta_mint = ?k ''position_nft_mint'', ta_authority = ?k ''owner'', ta_amount = 0 \<rparr>"
    using created(1) by (simp add: token_account_of_def)
  note minted = nft_is_minted [OF assms(1) h(2) this]
  have keys: "info_key (env1 x) = ?k x" "info_owner (env1 x) = info_owner (env0 x)" for x
    using minted(1) by (simp_all add: keeps_accounts_def)
  have "token_account_of (env ''position_nft_account'') = token_account_of (env1 ''position_nft_account'')"
    using created(4,5) by (simp add: h(3) token_account_of_def store_account_data keys)
  moreover have "position_of (env ''position'') = Some p"
    by (simp add: h(3) position_of_def store_account_data)
  ultimately show ?thesis
    using minted(2) created(2,3) p
    by (simp add: position_constraints_def position_accounts_of_def token_field_def keys h(3)
        position_default_def)
qed

section \<open>A new pool\<close>

text \<open>The keys that the handlers of pool creation take from the accounts.\<close>

definition pool_context_of :: "init_pool_context \<Rightarrow> environment \<Rightarrow> bool" where
  "pool_context_of ictx env \<longleftrightarrow>
     ip_creator ictx = info_key (env ''creator'') \<and> ip_payer ictx = info_key (env ''payer'') \<and>
     ip_pool_key ictx = info_key (env ''pool'') \<and>
     ip_position_nft_mint ictx = info_key (env ''position_nft_mint'') \<and>
     mi_key (ip_token_a_mint ictx) = info_key (env ''token_a_mint'') \<and>
     mi_key (ip_token_b_mint ictx) = info_key (env ''token_b_mint'') \<and>
     ip_token_a_vault ictx = info_key (env ''token_a_vault'') \<and>
     ip_token_b_vault ictx = info_key (env ''token_b_vault'')"

text \<open>A pool as one of the three handlers returns it.\<close>

definition pool_created_by :: "init_pool_context \<Rightarrow> pool \<Rightarrow> vaults \<Rightarrow> position \<Rightarrow> bool" where
  "pool_created_by ictx q v p \<longleftrightarrow>
     (\<exists>cfg params. handle_initialize_pool ictx cfg params = Ok (q, v, p)) \<or>
     (\<exists>params. handle_initialize_customizable_pool ictx params = Ok (q, v, p)) \<or>
     (\<exists>signer cfg params. handle_initialize_pool_with_dynamic_config ictx signer cfg params = Ok (q, v, p))"

lemma pool_created_by_keys:
  assumes "pool_created_by ictx q v p"
  shows "pl_token_a_vault q = ip_token_a_vault ictx" "pl_token_b_vault q = ip_token_b_vault ictx"
    and "pl_token_a_mint q = mi_key (ip_token_a_mint ictx)" "pl_token_b_mint q = mi_key (ip_token_b_mint ictx)"
    and "pl_creator q = ip_creator ictx"
    and "ps_pool p = ip_pool_key ictx" "ps_nft_mint p = ip_position_nft_mint ictx"
  using assms
  by (auto simp: pool_created_by_def handle_initialize_pool_def handle_initialize_customizable_pool_def
      handle_initialize_pool_with_dynamic_config_def config_pool_def customizable_pool_def Let_def
      rbind_Ok_iff require_Ok_iff position_initialize_def pool_initialize_def split: if_splits)

end
