(* ===== verification/Swap_Context.thy ===== *)
theory Swap_Context
  imports Account_Checks
begin

text \<open>
  The fast path of the swap checks its accounts by hand (\<^verbatim>\<open>SwapCtx::validate_p_accounts\<close>, theory
  \<open>Swap_Accounts\<close>); the same structure declares the checks of the account framework. Here the two are
  compared, over two views of the same accounts: the bytes that the fast path reads and the parsed
  content of the framework.
\<close>

section \<open>Two views of an account\<close>

definition views_content :: "addresses \<Rightarrow> p_account \<Rightarrow> account_info \<Rightarrow> bool" where
  "views_content ad p a \<longleftrightarrow>
     (\<exists>data. ac_data p = Ok data \<and>
        (info_owner a = program_id ad \<longrightarrow>
          (POOL_INIT_SPACE + length (ad_pool_discriminator ad) \<le> length data \<and>
           take (length (ad_pool_discriminator ad)) data = ad_pool_discriminator ad) =
          has_data Pool_State (info_data a)) \<and>
        (\<forall>t. token_account_of a = Some t \<longrightarrow> p_accessor_mint p = Ok (ta_mint t)))"

definition views :: "addresses \<Rightarrow> p_account \<Rightarrow> account_info \<Rightarrow> bool" where
  "views ad p a \<longleftrightarrow>
     info_key a = ac_key p \<and> info_owner a = ac_owner p \<and> info_is_signer a = ac_is_signer p \<and>
     info_is_writable a = ac_is_writable p \<and> views_content ad p a"

text \<open>What the fast path leaves to the called token programs: that the accounts parse, and that the
  programs can be executed.\<close>

definition swap_contents_parse :: "addresses \<Rightarrow> account_info list \<Rightarrow> bool" where
  "swap_contents_parse ad infos \<longleftrightarrow>
     list_all (\<lambda>i. token_account_of (infos ! i) \<noteq> None) [2, 3, 4, 5] \<and>
     list_all (\<lambda>i. mint_of (infos ! i) \<noteq> None) [6, 7] \<and>
     list_all (\<lambda>i. info_executable (infos ! i)) [9, 10] \<and>
     (info_key (infos ! 11) = program_id ad \<or> token_account_of (infos ! 11) \<noteq> None)"

section \<open>The fast checks\<close>

lemma has_pool_data: "has_data Pool_State d \<longleftrightarrow> (\<exists>q. d = Pool_Data q)"
  by (cases d) simp_all

lemma p_load_mut_checked_view:
  assumes "views ad p a"
  shows "p_load_mut_checked (account_ids_of ad) p = Ok () \<longleftrightarrow>
    info_owner a = program_id ad \<and> info_is_writable a \<and> has_data Pool_State (info_data a)"
  using assms
  by (auto simp: p_load_mut_checked_def assert_panic_def account_ids_of_def views_def views_content_def split: if_splits)

lemma validate_mut_view:
  assumes "views ad p a" "ad_system_program ad \<notin> set (ad_token_programs ad)"
  shows "validate_mut_token_account (account_ids_of ad) p = Ok () \<longleftrightarrow>
    info_is_writable a \<and> info_owner a \<in> set (ad_token_programs ad)"
  using assms by (auto simp: validate_mut_token_account_def account_ids_of_def views_def)

lemma p_accessor_mint_view:
  assumes "views ad p a" "token_account_of a = Some t"
  shows "p_accessor_mint p = Ok (ta_mint t)"
  using assms by (auto simp: views_def views_content_def)

section \<open>The declared checks\<close>

lemma SwapCtx_names:
  "List.map field_name (SwapCtx ad) =
     [''pool_authority'', ''pool'', ''input_token_account'', ''output_token_account'',
      ''token_a_vault'', ''token_b_vault'', ''token_a_mint'', ''token_b_mint'', ''payer'',
      ''token_a_program'', ''token_b_program'', ''referral_token_account'', ''event_authority'',
      ''program'']"
  by (simp add: SwapCtx_def event_cpi_def)

lemma SwapCtx_fields:
  assumes "14 \<le> length infos"
  shows "bind_accounts (SwapCtx ad) infos ''pool_authority'' = infos ! 0"
    "bind_accounts (SwapCtx ad) infos ''pool'' = infos ! 1"
    "bind_accounts (SwapCtx ad) infos ''input_token_account'' = infos ! 2"
    "bind_accounts (SwapCtx ad) infos ''output_token_account'' = infos ! 3"
    "bind_accounts (SwapCtx ad) infos ''token_a_vault'' = infos ! 4"
    "bind_accounts (SwapCtx ad) infos ''token_b_vault'' = infos ! 5"
    "bind_accounts (SwapCtx ad) infos ''token_a_mint'' = infos ! 6"
    "bind_accounts (SwapCtx ad) infos ''token_b_mint'' = infos ! 7"
    "bind_accounts (SwapCtx ad) infos ''payer'' = infos ! 8"
    "bind_accounts (SwapCtx ad) infos ''token_a_program'' = infos ! 9"
    "bind_accounts (SwapCtx ad) infos ''token_b_program'' = infos ! 10"
    "bind_accounts (SwapCtx ad) infos ''referral_token_account'' = infos ! 11"
    "bind_accounts (SwapCtx ad) infos ''event_authority'' = infos ! 12"
  using assms
  by (intro bind_accounts_nth; simp add: SwapCtx_names)+

lemma SwapCtx_checks:
  "list_all (\<lambda>f. load_field ad env f = Ok () \<and> check_field ad env f = Ok ()) (SwapCtx ad) \<longleftrightarrow>
    info_key (env ''pool_authority'') = pool_authority_ID ad \<and>
    info_owner (env ''pool'') = program_id ad \<and> info_is_writable (env ''pool'') \<and>
    (\<exists>q. info_data (env ''pool'') = Pool_Data q \<and> pl_token_a_vault q = info_key (env ''token_a_vault'') \<and>
       pl_token_b_vault q = info_key (env ''token_b_vault'')) \<and>
    token_account_checks ad (env ''input_token_account'') \<and> info_is_writable (env ''input_token_account'') \<and>
    token_account_checks ad (env ''output_token_account'') \<and> info_is_writable (env ''output_token_account'') \<and>
    token_account_checks ad (env ''token_a_vault'') \<and> info_is_writable (env ''token_a_vault'') \<and>
    token_account_checks ad (env ''token_b_vault'') \<and> info_is_writable (env ''token_b_vault'') \<and>
    info_owner (env ''token_a_vault'') = info_key (env ''token_a_program'') \<and>
    map_option ta_mint (token_account_of (env ''token_a_vault'')) = Some (info_key (env ''token_a_mint'')) \<and>
    info_owner (env ''token_b_vault'') = info_key (env ''token_b_program'') \<and>
    map_option ta_mint (token_account_of (env ''token_b_vault'')) = Some (info_key (env ''token_b_mint'')) \<and>
    info_owner (env ''token_a_mint'') \<in> set (ad_token_programs ad) \<and> mint_of (env ''token_a_mint'') \<noteq> None \<and>
    info_owner (env ''token_b_mint'') \<in> set (ad_token_programs ad) \<and> mint_of (env ''token_b_mint'') \<noteq> None \<and>
    info_is_signer (env ''payer'') \<and>
    info_key (env ''token_a_program'') \<in> set (ad_token_programs ad) \<and> info_executable (env ''token_a_program'') \<and>
    info_key (env ''token_b_program'') \<in> set (ad_token_programs ad) \<and> info_executable (env ''token_b_program'') \<and>
    (info_key (env ''referral_token_account'') = program_id ad \<or>
       token_account_checks ad (env ''referral_token_account'') \<and> info_is_writable (env ''referral_token_account'')) \<and>
    info_key (env ''event_authority'') = fst (EVENT_AUTHORITY_AND_BUMP ad)"
  by (simp add: SwapCtx_def event_cpi_def constraint_Ok_iff rbind_Ok_iff has_pool_data derived_key_def
      EVENT_AUTHORITY_AND_BUMP_def) auto

lemma SwapCtx_accepts:
  assumes "14 \<le> length infos"
  shows "is_ok (try_accounts ad (SwapCtx ad) infos) \<longleftrightarrow>
    info_key (infos ! 0) = pool_authority_ID ad \<and>
    info_owner (infos ! 1) = program_id ad \<and> info_is_writable (infos ! 1) \<and>
    (\<exists>q. info_data (infos ! 1) = Pool_Data q \<and> pl_token_a_vault q = info_key (infos ! 4) \<and>
       pl_token_b_vault q = info_key (infos ! 5)) \<and>
    token_account_checks ad (infos ! 2) \<and> info_is_writable (infos ! 2) \<and>
    token_account_checks ad (infos ! 3) \<and> info_is_writable (infos ! 3) \<and>
    token_account_checks ad (infos ! 4) \<and> info_is_writable (infos ! 4) \<and>
    token_account_checks ad (infos ! 5) \<and> info_is_writable (infos ! 5) \<and>
    info_owner (infos ! 4) = info_key (infos ! 9) \<and>
    map_option ta_mint (token_account_of (infos ! 4)) = Some (info_key (infos ! 6)) \<and>
    info_owner (infos ! 5) = info_key (infos ! 10) \<and>
    map_option ta_mint (token_account_of (infos ! 5)) = Some (info_key (infos ! 7)) \<and>
    info_owner (infos ! 6) \<in> set (ad_token_programs ad) \<and> mint_of (infos ! 6) \<noteq> None \<and>
    info_owner (infos ! 7) \<in> set (ad_token_programs ad) \<and> mint_of (infos ! 7) \<noteq> None \<and>
    info_is_signer (infos ! 8) \<and>
    info_key (infos ! 9) \<in> set (ad_token_programs ad) \<and> info_executable (infos ! 9) \<and>
    info_key (infos ! 10) \<in> set (ad_token_programs ad) \<and> info_executable (infos ! 10) \<and>
    (info_key (infos ! 11) = program_id ad \<or>
       token_account_checks ad (infos ! 11) \<and> info_is_writable (infos ! 11)) \<and>
    info_key (infos ! 12) = fst (EVENT_AUTHORITY_AND_BUMP ad)"
proof -
  have "length (SwapCtx ad) = 14" "list_all (\<lambda>f. \<not> is_init f) (SwapCtx ad)"
    by (simp_all add: SwapCtx_def event_cpi_def)
  with assms have "is_ok (try_accounts ad (SwapCtx ad) infos) \<longleftrightarrow>
      list_all (\<lambda>f. load_field ad (bind_accounts (SwapCtx ad) infos) f = Ok () \<and>
        check_field ad (bind_accounts (SwapCtx ad) infos) f = Ok ()) (SwapCtx ad)"
    by (simp add: is_ok_iff try_accounts_no_init)
  then show ?thesis unfolding SwapCtx_checks SwapCtx_fields [OF assms] .
qed

section \<open>The comparison\<close>

lemma vault_mint_check:
  assumes "views ad p a" "token_account_of a = Some t"
  shows "rbind (p_accessor_mint p) f = Ok u \<longleftrightarrow> f (ta_mint t) = Ok u"
  using p_accessor_mint_view [OF assms] by simp

lemma rbind_check: "rbind (m :: unit result) f = Ok u \<longleftrightarrow> m = Ok () \<and> f () = Ok u"
  by (auto simp: rbind_Ok_iff)

lemma if_Ok: "(if k \<noteq> k' then m else Ok ()) = Ok () \<longleftrightarrow> k = k' \<or> m = Ok ()"
  by simp

lemma fast_path_accepts:
  assumes "list_all2 (views ad) accounts infos" "14 \<le> length infos"
    and "ad_system_program ad \<notin> set (ad_token_programs ad)"
    and "token_account_of (infos ! 4) = Some ta" "token_account_of (infos ! 5) = Some tb"
  shows "validate_p_accounts (account_ids_of ad) q accounts = Ok () \<longleftrightarrow>
    info_key (infos ! 0) = pool_authority_ID ad \<and>
    info_owner (infos ! 1) = program_id ad \<and> info_is_writable (infos ! 1) \<and>
    has_data Pool_State (info_data (infos ! 1)) \<and>
    pl_token_a_vault q = info_key (infos ! 4) \<and> pl_token_b_vault q = info_key (infos ! 5) \<and>
    info_is_writable (infos ! 2) \<and> info_owner (infos ! 2) \<in> set (ad_token_programs ad) \<and>
    info_is_writable (infos ! 3) \<and> info_owner (infos ! 3) \<in> set (ad_token_programs ad) \<and>
    info_is_writable (infos ! 4) \<and> info_owner (infos ! 4) \<in> set (ad_token_programs ad) \<and>
    info_owner (infos ! 4) = info_key (infos ! 9) \<and>
    info_is_writable (infos ! 5) \<and> info_owner (infos ! 5) \<in> set (ad_token_programs ad) \<and>
    info_owner (infos ! 5) = info_key (infos ! 10) \<and>
    info_key (infos ! 6) = ta_mint ta \<and> info_owner (infos ! 6) \<in> set (ad_token_programs ad) \<and>
    info_key (infos ! 7) = ta_mint tb \<and> info_owner (infos ! 7) \<in> set (ad_token_programs ad) \<and> info_is_signer (infos ! 8) \<and>
    info_key (infos ! 9) \<in> set (ad_token_programs ad) \<and>
    info_key (infos ! 10) \<in> set (ad_token_programs ad) \<and>
    info_key (infos ! 12) = fst (EVENT_AUTHORITY_AND_BUMP ad) \<and>
    (info_key (infos ! 11) = program_id ad \<or>
       info_is_writable (infos ! 11) \<and> info_owner (infos ! 11) \<in> set (ad_token_programs ad))"
proof -
  have len: "length accounts = length infos" using assms(1) by (rule list_all2_lengthD)
  have v: "views ad (accounts ! i) (infos ! i)" if "i < 14" for i
    using assms(1,2) that len by (simp add: list_all2_nthD)
  then have same: "ac_key (accounts ! i) = info_key (infos ! i)"
      "ac_owner (accounts ! i) = info_owner (infos ! i)"
      "ac_is_signer (accounts ! i) = info_is_signer (infos ! i)" if "i < 14" for i
    using that by (simp_all add: views_def)
  note mut = validate_mut_view [OF v assms(3)]
  have ids: "ai_pool_authority (account_ids_of ad) = pool_authority_ID ad"
      "ai_event_authority (account_ids_of ad) = fst (EVENT_AUTHORITY_AND_BUMP ad)"
      "ai_token_programs (account_ids_of ad) = ad_token_programs ad"
      "ai_program (account_ids_of ad) = ad_programs ad"
    by (simp_all add: account_ids_of_def)
  have enough: "\<not> length accounts < SWAP_IX_ACCOUNTS"
    using assms(2) len by (simp add: SWAP_IX_ACCOUNTS_def)
  note mint = vault_mint_check [OF v [of 4, simplified] assms(4)]
    vault_mint_check [OF v [of 5, simplified] assms(5)]
  show ?thesis
    unfolding validate_p_accounts_def Let_def if_not_P [OF enough]
    by (simp only: rbind_check if_Ok ids mint)
      (simp add: constraint_Ok_iff p_load_mut_checked_view [OF v] mut same)
qed

theorem fast_checks_are_declared:
  assumes "list_all2 (views ad) accounts infos"
    and "ad_system_program ad \<notin> set (ad_token_programs ad)"
    and "\<forall>q'. info_data (infos ! 1) = Pool_Data q' \<longrightarrow> q' = q"
  shows "is_ok (try_accounts ad (SwapCtx ad) infos) \<longleftrightarrow>
    validate_p_accounts (account_ids_of ad) q accounts = Ok () \<and> swap_contents_parse ad infos"
proof (cases "14 \<le> length infos \<and> token_account_of (infos ! 4) \<noteq> None \<and>
    token_account_of (infos ! 5) \<noteq> None")
  case True
  then obtain ta tb where t: "token_account_of (infos ! 4) = Some ta" "token_account_of (infos ! 5) = Some tb"
    by blast
  have len: "14 \<le> length infos" using True by simp
  show ?thesis
    unfolding SwapCtx_accepts [OF len] fast_path_accepts [OF assms(1) len assms(2) t]
      swap_contents_parse_def token_account_checks_def has_pool_data
    using t assms(3) by auto
next
  case False
  have len: "length accounts = length infos" using assms(1) by (rule list_all2_lengthD)
  show ?thesis
  proof (cases "14 \<le> length infos")
    case True
    with False have "token_account_of (infos ! 4) = None \<or> token_account_of (infos ! 5) = None" by simp
    then show ?thesis
      unfolding SwapCtx_accepts [OF True] swap_contents_parse_def token_account_checks_def by auto
  next
    case False
    moreover have "length (SwapCtx ad) = 14" by (simp add: SwapCtx_def event_cpi_def)
    ultimately show ?thesis
      using len by (simp add: try_accounts_def validate_p_accounts_def SWAP_IX_ACCOUNTS_def)
  qed
qed

end
