(* ===== verification/Swap_Calls.thy ===== *)
theory Swap_Calls
  imports Solvency Program_Addresses
begin

text \<open>
  The calls to the token program that a swap makes (\<^verbatim>\<open>p_transfer_from_user\<close> and
  \<^verbatim>\<open>p_transfer_from_pool\<close> of \<^verbatim>\<open>utils/p_helper.rs\<close>), on the balances of all token accounts. The handler
  of theory \<open>Swap_Handler\<close> sees the balances of the two vaults only. Here the calls on the accounts
  that the instruction passes are shown to do to the vaults what the handler says.

  The token program is a parameter: what a checked transfer with some signer seeds does to the
  balances. \<open>transfer_law\<close> is its documented behaviour.
\<close>

type_synonym balances = "pubkey \<Rightarrow> u64"

record transfer_checked =
  xc_from :: pubkey
  xc_mint :: pubkey
  xc_to :: pubkey
  xc_authority :: pubkey
  xc_amount :: u64
  xc_decimals :: u8
  xc_token_program :: pubkey

type_synonym invocation = "bytes list list \<Rightarrow> transfer_checked \<Rightarrow> balances \<Rightarrow> balances result"

section \<open>The calls\<close>

definition p_accessor_decimals :: "p_account \<Rightarrow> u8 result" where
  "p_accessor_decimals token_mint =
     rbind (ac_data token_mint) (\<lambda>data. assert_panic (45 \<le> length data) (Ok (data ! 44)))"

definition p_transfer_from_user ::
  "invocation \<Rightarrow> p_account \<Rightarrow> p_account \<Rightarrow> p_account \<Rightarrow> p_account \<Rightarrow> p_account \<Rightarrow> u64 \<Rightarrow> balances \<Rightarrow>
   balances result" where
  "p_transfer_from_user invoke authority token_mint token_owner_account destination_token_account
     token_program amount b =
     rbind (p_accessor_decimals token_mint) (\<lambda>decimals.
     invoke []
       \<lparr> xc_from = ac_key token_owner_account, xc_mint = ac_key token_mint,
         xc_to = ac_key destination_token_account, xc_authority = ac_key authority,
         xc_amount = amount, xc_decimals = decimals, xc_token_program = ac_key token_program \<rparr> b)"

definition p_transfer_from_pool ::
  "addresses \<Rightarrow> invocation \<Rightarrow> p_account \<Rightarrow> p_account \<Rightarrow> p_account \<Rightarrow> p_account \<Rightarrow> p_account \<Rightarrow> u64 \<Rightarrow>
   balances \<Rightarrow> balances result" where
  "p_transfer_from_pool ad invoke pool_authority token_mint token_vault token_owner_account
     token_program amount b =
     (let signers = [[POOL_AUTHORITY_PREFIX, [pool_authority_BUMP ad]]] in
      rbind (p_accessor_decimals token_mint) (\<lambda>decimals.
      invoke signers
        \<lparr> xc_from = ac_key token_vault, xc_mint = ac_key token_mint,
          xc_to = ac_key token_owner_account, xc_authority = ac_key pool_authority,
          xc_amount = amount, xc_decimals = decimals, xc_token_program = ac_key token_program \<rparr> b))"

text \<open>The three transfers of \<^verbatim>\<open>p_handle_swap\<close>, on the accounts by their position.\<close>

definition p_swap_transfers ::
  "addresses \<Rightarrow> invocation \<Rightarrow> p_account list \<Rightarrow> bool \<Rightarrow> trade_direction \<Rightarrow> fee_mode \<Rightarrow>
   process_swap_result \<Rightarrow> balances \<Rightarrow> balances result" where
  "p_swap_transfers ad invoke accounts has_referral trade_direction fee_mode r b =
     (let pool_authority = accounts ! 0;
          input_token_account = accounts ! 2; output_token_account = accounts ! 3;
          token_a_vault = accounts ! 4; token_b_vault = accounts ! 5;
          token_a_mint = accounts ! 6; token_b_mint = accounts ! 7;
          payer = accounts ! 8; token_a_program = accounts ! 9; token_b_program = accounts ! 10;
          referral_token_account = accounts ! 11;
          (token_in_mint, token_out_mint, input_vault_account, output_vault_account,
           input_program, output_program) =
            (case trade_direction of
               AtoB \<Rightarrow> (token_a_mint, token_b_mint, token_a_vault, token_b_vault,
                 token_a_program, token_b_program)
             | BtoA \<Rightarrow> (token_b_mint, token_a_mint, token_b_vault, token_a_vault,
                 token_b_program, token_a_program)) in
      rbind (p_transfer_from_user invoke payer token_in_mint input_token_account input_vault_account
        input_program (pr_included_transfer_fee_amount_in r) b) (\<lambda>b.
      rbind (p_transfer_from_pool ad invoke pool_authority token_out_mint output_vault_account
        output_token_account output_program (pr_included_transfer_fee_amount_out r) b) (\<lambda>b.
      if has_referral then
        if fm_fees_on_token_a fee_mode then
          p_transfer_from_pool ad invoke pool_authority token_a_mint token_a_vault
            referral_token_account token_a_program (sr_referral_fee (pr_swap_result r)) b
        else
          p_transfer_from_pool ad invoke pool_authority token_b_mint token_b_vault
            referral_token_account token_b_program (sr_referral_fee (pr_swap_result r)) b
      else Ok b)))"

section \<open>What a checked transfer does\<close>

text \<open>
  A transfer needs the authority of the account that pays, and a program signs for an authority only
  with seeds that derive it. Both balances change as the mint says, no other balance changes.
  \<open>authority\<close> is the authority of each token account, \<open>is_signer\<close> says who signed the transaction.
\<close>

definition transfer_law ::
  "addresses \<Rightarrow> invocation \<Rightarrow> (pubkey \<Rightarrow> pubkey) \<Rightarrow> (pubkey \<Rightarrow> bool) \<Rightarrow> pubkey \<Rightarrow> token \<Rightarrow> bool" where
  "transfer_law ad invoke authority is_signer m t \<longleftrightarrow>
     (\<forall>signers c b b'. invoke signers c b = Ok b' \<longrightarrow> xc_mint c = m \<longrightarrow>
        xc_authority c = authority (xc_from c) \<and>
        (is_signer (xc_authority c) \<or>
         (\<exists>seeds \<in> set signers. ad_create ad seeds (program_id ad) = Some (xc_authority c))) \<and>
        (\<forall>k. k \<noteq> xc_from c \<longrightarrow> k \<noteq> xc_to c \<longrightarrow> b' k = b k) \<and>
        (xc_from c \<noteq> xc_to c \<longrightarrow>
           transfer_from_pool t (b (xc_from c)) (xc_amount c) = Ok (b' (xc_from c)) \<and>
           transfer_from_user t (b (xc_to c)) (xc_amount c) = Ok (b' (xc_to c))))"

lemma p_transfer_from_user_effect:
  assumes "transfer_law ad invoke authority is_signer (ac_key m) t"
    and "p_transfer_from_user invoke payer m source dest program x b = Ok b'"
  shows "authority (ac_key source) = ac_key payer" "is_signer (ac_key payer)"
    and "k \<noteq> ac_key source \<Longrightarrow> k \<noteq> ac_key dest \<Longrightarrow> b' k = b k"
    and "ac_key source \<noteq> ac_key dest \<Longrightarrow>
      transfer_from_user t (b (ac_key dest)) x = Ok (b' (ac_key dest))"
  using assms by (fastforce simp: transfer_law_def p_transfer_from_user_def rbind_Ok_iff)+

lemma p_transfer_from_pool_effect:
  assumes "transfer_law ad invoke authority is_signer (ac_key m) t"
    and "p_transfer_from_pool ad invoke pool_authority m vault dest program x b = Ok b'"
  shows "authority (ac_key vault) = ac_key pool_authority"
    and "k \<noteq> ac_key vault \<Longrightarrow> k \<noteq> ac_key dest \<Longrightarrow> b' k = b k"
    and "ac_key vault \<noteq> ac_key dest \<Longrightarrow>
      transfer_from_pool t (b (ac_key vault)) x = Ok (b' (ac_key vault))"
  using assms by (fastforce simp: transfer_law_def p_transfer_from_pool_def Let_def rbind_Ok_iff)+

section \<open>The calls do what the handler says\<close>

definition vaults_of :: "pool \<Rightarrow> balances \<Rightarrow> vaults" where
  "vaults_of q b = \<lparr> va_token_a = b (pl_token_a_vault q), va_token_b = b (pl_token_b_vault q) \<rparr>"

text \<open>The accounts that a swap pays to, and all that it may change.\<close>

definition paid_accounts :: "p_account list \<Rightarrow> bool \<Rightarrow> pubkey set" where
  "paid_accounts accounts has_referral =
     {ac_key (accounts ! 3)} \<union> (if has_referral then {ac_key (accounts ! 11)} else {})"

definition moved_accounts :: "pool \<Rightarrow> p_account list \<Rightarrow> bool \<Rightarrow> pubkey set" where
  "moved_accounts q accounts has_referral =
     {ac_key (accounts ! 2), pl_token_a_vault q, pl_token_b_vault q} \<union>
     paid_accounts accounts has_referral"

text \<open>The transfer to the referral, and the two transfers of a direction.\<close>

definition referral_transfer ::
  "addresses \<Rightarrow> invocation \<Rightarrow> p_account list \<Rightarrow> bool \<Rightarrow> fee_mode \<Rightarrow> u64 \<Rightarrow> balances \<Rightarrow> balances result" where
  "referral_transfer ad invoke accounts has_referral fm fee b =
     (if has_referral then
        if fm_fees_on_token_a fm
        then p_transfer_from_pool ad invoke (accounts ! 0) (accounts ! 6) (accounts ! 4) (accounts ! 11)
          (accounts ! 9) fee b
        else p_transfer_from_pool ad invoke (accounts ! 0) (accounts ! 7) (accounts ! 5) (accounts ! 11)
          (accounts ! 10) fee b
      else Ok b)"

lemma p_swap_transfers_cases:
  "p_swap_transfers ad invoke accounts has_referral AtoB fm r b =
     rbind (p_transfer_from_user invoke (accounts ! 8) (accounts ! 6) (accounts ! 2) (accounts ! 4)
       (accounts ! 9) (pr_included_transfer_fee_amount_in r) b) (\<lambda>b.
     rbind (p_transfer_from_pool ad invoke (accounts ! 0) (accounts ! 7) (accounts ! 5) (accounts ! 3)
       (accounts ! 10) (pr_included_transfer_fee_amount_out r) b)
     (referral_transfer ad invoke accounts has_referral fm (sr_referral_fee (pr_swap_result r))))"
  "p_swap_transfers ad invoke accounts has_referral BtoA fm r b =
     rbind (p_transfer_from_user invoke (accounts ! 8) (accounts ! 7) (accounts ! 2) (accounts ! 5)
       (accounts ! 10) (pr_included_transfer_fee_amount_in r) b) (\<lambda>b.
     rbind (p_transfer_from_pool ad invoke (accounts ! 0) (accounts ! 6) (accounts ! 4) (accounts ! 3)
       (accounts ! 9) (pr_included_transfer_fee_amount_out r) b)
     (referral_transfer ad invoke accounts has_referral fm (sr_referral_fee (pr_swap_result r))))"
  by (simp_all add: p_swap_transfers_def referral_transfer_def [abs_def] Let_def)

lemma referral_transfer_effect:
  assumes "referral_transfer ad invoke accounts has_referral fm fee b = Ok b'"
    and "transfer_law ad invoke authority is_signer (ac_key (accounts ! 6)) ta"
      "transfer_law ad invoke authority is_signer (ac_key (accounts ! 7)) tb"
    and "ac_key (accounts ! 4) = ka" "ac_key (accounts ! 5) = kb" "ka \<noteq> kb"
    and "has_referral \<Longrightarrow> ac_key (accounts ! 11) \<noteq> ka" "has_referral \<Longrightarrow> ac_key (accounts ! 11) \<noteq> kb"
  shows "if has_referral then
      if fm_fees_on_token_a fm then transfer_from_pool ta (b ka) fee = Ok (b' ka) \<and> b' kb = b kb
      else transfer_from_pool tb (b kb) fee = Ok (b' kb) \<and> b' ka = b ka
    else b' = b"
    and "k \<noteq> ka \<Longrightarrow> k \<noteq> kb \<Longrightarrow> (has_referral \<Longrightarrow> k \<noteq> ac_key (accounts ! 11)) \<Longrightarrow> b' k = b k"
proof -
  note pool = p_transfer_from_pool_effect [OF assms(2)] p_transfer_from_pool_effect [OF assms(3)]
  show "if has_referral then
      if fm_fees_on_token_a fm then transfer_from_pool ta (b ka) fee = Ok (b' ka) \<and> b' kb = b kb
      else transfer_from_pool tb (b kb) fee = Ok (b' kb) \<and> b' ka = b ka
    else b' = b"
    using assms(1,4-8) pool(2,3,5,6) by (auto simp: referral_transfer_def split: if_splits)
  show "b' k = b k" if "k \<noteq> ka" "k \<noteq> kb" "has_referral \<Longrightarrow> k \<noteq> ac_key (accounts ! 11)"
    using assms(1,4-8) pool(2,5) that by (auto simp: referral_transfer_def split: if_splits)
qed

lemma p_swap_transfers_refine:
  assumes calls: "p_swap_transfers ad invoke accounts has_referral d fm r b = Ok b'"
    and laws: "transfer_law ad invoke authority is_signer (ac_key (accounts ! 6)) (sc_token_a ctx)"
      "transfer_law ad invoke authority is_signer (ac_key (accounts ! 7)) (sc_token_b ctx)"
    and vaults: "ac_key (accounts ! 4) = pl_token_a_vault q" "ac_key (accounts ! 5) = pl_token_b_vault q"
      "pl_token_a_vault q \<noteq> pl_token_b_vault q"
    and referral: "sc_has_referral ctx = has_referral"
    and source: "ac_key (accounts ! 2) \<noteq> pl_token_a_vault q" "ac_key (accounts ! 2) \<noteq> pl_token_b_vault q"
    and dest: "pl_token_a_vault q \<notin> paid_accounts accounts has_referral"
      "pl_token_b_vault q \<notin> paid_accounts accounts has_referral"
  shows "swap_transfers ctx (vaults_of q b) d fm r = Ok (vaults_of q b')"
    and "k \<notin> moved_accounts q accounts has_referral \<Longrightarrow> b' k = b k"
proof -
  let ?ka = "pl_token_a_vault q" and ?kb = "pl_token_b_vault q"
  let ?ref = "referral_transfer ad invoke accounts has_referral fm (sr_referral_fee (pr_swap_result r))"
  have paid: "ac_key (accounts ! 3) \<noteq> ?ka" "ac_key (accounts ! 3) \<noteq> ?kb"
      "has_referral \<Longrightarrow> ac_key (accounts ! 11) \<noteq> ?ka" "has_referral \<Longrightarrow> ac_key (accounts ! 11) \<noteq> ?kb"
    using dest by (auto simp: paid_accounts_def)
  note user = p_transfer_from_user_effect(3,4) [OF laws(1)] p_transfer_from_user_effect(3,4) [OF laws(2)]
  note pool = p_transfer_from_pool_effect(2,3) [OF laws(1)] p_transfer_from_pool_effect(2,3) [OF laws(2)]
  note last = referral_transfer_effect [OF _ laws vaults paid(3,4)]
  have "swap_transfers ctx (vaults_of q b) d fm r = Ok (vaults_of q b') \<and>
    (k \<notin> moved_accounts q accounts has_referral \<longrightarrow> b' k = b k)"
  proof (cases d)
    case AtoB
    then obtain b1 b2 where 1: "p_transfer_from_user invoke (accounts ! 8) (accounts ! 6) (accounts ! 2)
        (accounts ! 4) (accounts ! 9) (pr_included_transfer_fee_amount_in r) b = Ok b1"
      and 2: "p_transfer_from_pool ad invoke (accounts ! 0) (accounts ! 7) (accounts ! 5) (accounts ! 3)
        (accounts ! 10) (pr_included_transfer_fee_amount_out r) b1 = Ok b2"
      and 3: "?ref b2 = Ok b'"
      using calls by (auto simp: p_swap_transfers_cases rbind_Ok_iff)
    have "transfer_from_user (sc_token_a ctx) (b ?ka) (pr_included_transfer_fee_amount_in r) = Ok (b2 ?ka)"
      "transfer_from_pool (sc_token_b ctx) (b ?kb) (pr_included_transfer_fee_amount_out r) = Ok (b2 ?kb)"
      using user(1,2) [OF 1] pool(3,4) [OF 2] vaults source paid(1,2) by metis+
    moreover have "b' k = b k" if "k \<notin> moved_accounts q accounts has_referral"
      using that user(1) [OF 1] pool(3) [OF 2] last(2) [OF 3] vaults(1,2)
      by (auto simp: moved_accounts_def paid_accounts_def split: if_splits)
    ultimately show ?thesis using last(1) [OF 3] referral AtoB
      by (auto simp: swap_transfers_def vaults_of_def split: if_splits)
  next
    case BtoA
    then obtain b1 b2 where 1: "p_transfer_from_user invoke (accounts ! 8) (accounts ! 7) (accounts ! 2)
        (accounts ! 5) (accounts ! 10) (pr_included_transfer_fee_amount_in r) b = Ok b1"
      and 2: "p_transfer_from_pool ad invoke (accounts ! 0) (accounts ! 6) (accounts ! 4) (accounts ! 3)
        (accounts ! 9) (pr_included_transfer_fee_amount_out r) b1 = Ok b2"
      and 3: "?ref b2 = Ok b'"
      using calls by (auto simp: p_swap_transfers_cases rbind_Ok_iff)
    have "transfer_from_user (sc_token_b ctx) (b ?kb) (pr_included_transfer_fee_amount_in r) = Ok (b2 ?kb)"
      "transfer_from_pool (sc_token_a ctx) (b ?ka) (pr_included_transfer_fee_amount_out r) = Ok (b2 ?ka)"
      using user(3,4) [OF 1] pool(1,2) [OF 2] vaults source paid(1,2) by metis+
    moreover have "b' k = b k" if "k \<notin> moved_accounts q accounts has_referral"
      using that user(3) [OF 1] pool(1) [OF 2] last(2) [OF 3] vaults(1,2)
      by (auto simp: moved_accounts_def paid_accounts_def split: if_splits)
    ultimately show ?thesis using last(1) [OF 3] referral BtoA
      by (auto simp: swap_transfers_def vaults_of_def split: if_splits)
  qed
  then show "swap_transfers ctx (vaults_of q b) d fm r = Ok (vaults_of q b')"
    and "k \<notin> moved_accounts q accounts has_referral \<Longrightarrow> b' k = b k" by blast+
qed

text \<open>
  The payer signs for the first account that pays, the seeds of the program for the vaults. As the
  authority of the pool is not the payer, a vault cannot pay for the trader.
\<close>

lemma p_swap_transfers_authorities:
  assumes "p_swap_transfers ad invoke accounts has_referral d fm r b = Ok b'"
    and "transfer_law ad invoke authority is_signer (ac_key (accounts ! 6)) ta"
      "transfer_law ad invoke authority is_signer (ac_key (accounts ! 7)) tb"
  shows "authority (ac_key (accounts ! 2)) = ac_key (accounts ! 8)" "is_signer (ac_key (accounts ! 8))"
proof -
  note user = p_transfer_from_user_effect(1,2) [OF assms(2)] p_transfer_from_user_effect(1,2) [OF assms(3)]
  show "authority (ac_key (accounts ! 2)) = ac_key (accounts ! 8)" "is_signer (ac_key (accounts ! 8))"
    using assms(1) user by (cases d; auto simp: p_swap_transfers_cases rbind_Ok_iff)+
qed

lemma swap_instruction_balances:
  assumes swap: "swap_instruction (account_ids_of ad) clk tx ta tb accounts q (vaults_of q b) params =
      Ok (q', v', r)"
    and d: "get_trade_direction (p_accessor_mint (accounts ! 2)) (ac_key (accounts ! 6)) = Ok d"
    and fm: "get_fee_mode (pl_collect_fee_mode q) d has_referral = Ok fm"
    and has_referral: "has_referral = (ac_key (accounts ! 11) \<noteq> program_id ad)"
    and calls: "p_swap_transfers ad invoke accounts has_referral d fm r b = Ok b'"
    and laws: "transfer_law ad invoke authority is_signer (ac_key (accounts ! 6)) ta"
      "transfer_law ad invoke authority is_signer (ac_key (accounts ! 7)) tb"
    and vaults: "pl_token_a_vault q \<noteq> pl_token_b_vault q"
      "authority (pl_token_a_vault q) = pool_authority_ID ad"
      "authority (pl_token_b_vault q) = pool_authority_ID ad"
      "\<not> is_signer (pool_authority_ID ad)"
    and dest: "pl_token_a_vault q \<notin> paid_accounts accounts has_referral"
      "pl_token_b_vault q \<notin> paid_accounts accounts has_referral"
  shows "v' = vaults_of q b'"
    and "k \<notin> moved_accounts q accounts has_referral \<Longrightarrow> b' k = b k"
    and "authority (ac_key (accounts ! 2)) = ac_key (accounts ! 8) \<and> is_signer (ac_key (accounts ! 8))"
proof -
  let ?ctx = "swap_context_of (account_ids_of ad) clk tx ta tb accounts"
  have valid: "validate_p_accounts (account_ids_of ad) q accounts = Ok ()"
    and h: "p_handle_swap ?ctx q (vaults_of q b) params = Ok (q', v', r)"
    using swap by (auto simp: swap_instruction_validated rbind_Ok_iff)
  have ctx: "sc_input_token_account_mint ?ctx = p_accessor_mint (accounts ! 2)"
      "sc_token_a_mint_key ?ctx = ac_key (accounts ! 6)" "sc_token_a ?ctx = ta" "sc_token_b ?ctx = tb"
      "sc_has_referral ?ctx = has_referral"
    by (simp_all add: swap_context_of_def account_ids_of_def has_referral)
  have t: "swap_transfers ?ctx (vaults_of q b) d fm r = Ok v'"
  proof (rule p_handle_swap_Ok [OF h])
    fix d' fm' q1
    assume 1: "get_trade_direction (sc_input_token_account_mint ?ctx) (sc_token_a_mint_key ?ctx) = Ok d'"
      "update_pre_swap q (unix_timestamp (sc_clock ?ctx)) = Ok q1"
      "get_fee_mode (pl_collect_fee_mode q1) d' (sc_has_referral ?ctx) = Ok fm'"
      and 2: "swap_transfers ?ctx (vaults_of q b) d' fm' r = Ok v'"
    have "pl_collect_fee_mode q1 = pl_collect_fee_mode q"
      using update_pre_swap_effect(1) [OF 1(2)] by auto
    then have "d' = d" "fm' = fm" using 1 d fm by (simp_all add: ctx)
    then show ?thesis using 2 by simp
  qed
  note auth = p_swap_transfers_authorities [OF calls laws]
  have source: "ac_key (accounts ! 2) \<noteq> pl_token_a_vault q" "ac_key (accounts ! 2) \<noteq> pl_token_b_vault q"
    using auth vaults(2-4) by metis+
  note refine = p_swap_transfers_refine [of ad invoke accounts has_referral d fm r b b' authority is_signer ?ctx q,
      OF calls _ _ validate_p_accounts_Ok(4,5) [OF valid] vaults(1) ctx(5) source dest, unfolded ctx(3,4), OF laws]
  show "v' = vaults_of q b'" using refine(1) t by simp
  show "b' k = b k" if "k \<notin> moved_accounts q accounts has_referral" using refine(2) [OF that] .
  show "authority (ac_key (accounts ! 2)) = ac_key (accounts ! 8) \<and> is_signer (ac_key (accounts ! 8))"
    using auth by simp
qed

section \<open>What the trader pays and receives\<close>

text \<open>The limit of each mode, with the amount that reaches the trader when the output is transferred.\<close>

lemma process_swap_limits:
  assumes "process_swap mode pp = Ok r"
    and "calculate_transfer_fee_excluded_amount (pp_token_out_mint pp)
      (pr_included_transfer_fee_amount_out r) = Ok e"
  shows "case mode of
      ExactIn \<Rightarrow> pr_included_transfer_fee_amount_in r = pp_amount_0 pp \<and> pp_amount_1 pp \<le> xe_amount e
    | PartialFill \<Rightarrow> pp_amount_1 pp \<le> xe_amount e
    | ExactOut \<Rightarrow> xe_amount e = pp_amount_0 pp \<and> pr_included_transfer_fee_amount_in r \<le> pp_amount_1 pp"
proof (cases mode)
  case ExactOut
  then obtain i where "calculate_transfer_fee_included_amount (pp_token_out_mint pp) (pp_amount_0 pp) = Ok i"
    and "pr_included_transfer_fee_amount_out r = xi_amount i"
    and "pr_included_transfer_fee_amount_in r \<le> pp_amount_1 pp"
    using assms(1) by (auto simp: process_swap_def process_swap_exact_out_def rbind_Ok_iff require_Ok_iff)
  then show ?thesis using ExactOut assms(2) included_excluded by auto
qed (use assms in \<open>auto simp: process_swap_def process_swap_exact_in_def process_swap_partial_fill_def
      rbind_Ok_iff require_Ok_iff\<close>)

text \<open>A transfer takes the amount from the account that pays and the mint's fee from what arrives.\<close>

lemma p_transfer_source:
  assumes "transfer_law ad invoke authority is_signer (ac_key m) t" and "token_law t"
    and "p_transfer_from_user invoke payer m source dest program x b = Ok b'"
    and "ac_key source \<noteq> ac_key dest"
  shows "unat (b (ac_key source)) = unat (b' (ac_key source)) + unat x"
proof -
  have "transfer_from_pool t (b (ac_key source)) x = Ok (b' (ac_key source))"
    using assms(1,3,4) by (fastforce simp: transfer_law_def p_transfer_from_user_def rbind_Ok_iff)
  then show ?thesis by (rule withdraw_effect [OF assms(2)])
qed

lemma p_transfer_dest:
  assumes "transfer_law ad invoke authority is_signer (ac_key m) t" and "token_law t"
    and "p_transfer_from_pool ad invoke pool_authority m vault dest program x b = Ok b'"
    and "ac_key vault \<noteq> ac_key dest"
  obtains e where "calculate_transfer_fee_excluded_amount t x = Ok e"
    and "unat (b' (ac_key dest)) = unat (b (ac_key dest)) + unat (xe_amount e)"
proof -
  have "transfer_from_user t (b (ac_key dest)) x = Ok (b' (ac_key dest))"
    using assms(1,3,4) by (fastforce simp: transfer_law_def p_transfer_from_pool_def Let_def rbind_Ok_iff)
  then have "\<exists>e. calculate_transfer_fee_excluded_amount t x = Ok e \<and>
      unat (b' (ac_key dest)) = unat (b (ac_key dest)) + unat (xe_amount e)"
    using assms(2) unfolding token_law_def transfer_from_user_def by blast
  then show thesis using that by blast
qed

lemma p_swap_transfers_trader:
  assumes calls: "p_swap_transfers ad invoke accounts has_referral d fm r b = Ok b'"
    and laws: "transfer_law ad invoke authority is_signer (ac_key (accounts ! 6)) ta" "token_law ta"
      "transfer_law ad invoke authority is_signer (ac_key (accounts ! 7)) tb" "token_law tb"
    and vaults: "ac_key (accounts ! 4) = ka" "ac_key (accounts ! 5) = kb" "ka \<noteq> kb"
    and source: "ac_key (accounts ! 2) \<noteq> ka" "ac_key (accounts ! 2) \<noteq> kb"
    and dest: "ka \<notin> paid_accounts accounts has_referral" "kb \<notin> paid_accounts accounts has_referral"
    and others: "ac_key (accounts ! 2) \<notin> paid_accounts accounts has_referral"
      "has_referral \<Longrightarrow> ac_key (accounts ! 11) \<noteq> ac_key (accounts ! 3)"
  obtains e where "calculate_transfer_fee_excluded_amount (case d of AtoB \<Rightarrow> tb | BtoA \<Rightarrow> ta)
      (pr_included_transfer_fee_amount_out r) = Ok e"
    and "unat (b (ac_key (accounts ! 2))) =
      unat (b' (ac_key (accounts ! 2))) + unat (pr_included_transfer_fee_amount_in r)"
    and "unat (b' (ac_key (accounts ! 3))) = unat (b (ac_key (accounts ! 3))) + unat (xe_amount e)"
proof -
  let ?in = "ac_key (accounts ! 2)" and ?out = "ac_key (accounts ! 3)"
  let ?ref = "referral_transfer ad invoke accounts has_referral fm (sr_referral_fee (pr_swap_result r))"
  have paid: "?out \<noteq> ka" "?out \<noteq> kb" "?in \<noteq> ?out"
      "has_referral \<Longrightarrow> ac_key (accounts ! 11) \<noteq> ka" "has_referral \<Longrightarrow> ac_key (accounts ! 11) \<noteq> kb"
      "has_referral \<Longrightarrow> ?in \<noteq> ac_key (accounts ! 11)"
    using dest others by (auto simp: paid_accounts_def)
  note last = referral_transfer_effect(2) [OF _ laws(1,3) vaults paid(4,5)]
  have step: "b' ?in = b1 ?in \<and> b' ?out = b2 ?out \<and> b1 ?out = b ?out"
    if t1: "\<And>k. k \<noteq> ?in \<Longrightarrow> k \<noteq> v1 \<Longrightarrow> b1 k = b k" and t2: "\<And>k. k \<noteq> v2 \<Longrightarrow> k \<noteq> ?out \<Longrightarrow> b2 k = b1 k"
      and t3: "?ref b2 = Ok b'" and v: "v1 \<in> {ka, kb}" "v2 \<in> {ka, kb}" for b1 b2 v1 v2
  proof -
    have "?in \<notin> {v2, ?out}" "?out \<notin> {?in, v1}" using v paid source by auto
    then have "b2 ?in = b1 ?in" "b1 ?out = b ?out" using t1 t2 by auto
    moreover have "b' ?in = b2 ?in" "b' ?out = b2 ?out"
      using last [OF t3, of ?in] last [OF t3, of ?out] paid source others(2) by metis+
    ultimately show ?thesis by simp
  qed
  show thesis
  proof (cases d)
    case AtoB
    then obtain b1 b2 where 1: "p_transfer_from_user invoke (accounts ! 8) (accounts ! 6) (accounts ! 2)
        (accounts ! 4) (accounts ! 9) (pr_included_transfer_fee_amount_in r) b = Ok b1"
      and 2: "p_transfer_from_pool ad invoke (accounts ! 0) (accounts ! 7) (accounts ! 5) (accounts ! 3)
        (accounts ! 10) (pr_included_transfer_fee_amount_out r) b1 = Ok b2"
      and 3: "?ref b2 = Ok b'"
      using calls by (auto simp: p_swap_transfers_cases rbind_Ok_iff)
    obtain e where e: "calculate_transfer_fee_excluded_amount tb (pr_included_transfer_fee_amount_out r) = Ok e"
      "unat (b2 ?out) = unat (b1 ?out) + unat (xe_amount e)"
      by (rule p_transfer_dest [OF laws(3,4) 2]) (use paid vaults in auto)
    have "unat (b ?in) = unat (b1 ?in) + unat (pr_included_transfer_fee_amount_in r)"
      by (rule p_transfer_source [OF laws(1,2) 1]) (use source vaults in auto)
    moreover have "b' ?in = b1 ?in \<and> b' ?out = b2 ?out \<and> b1 ?out = b ?out"
      by (rule step [OF p_transfer_from_user_effect(3) [OF laws(1) 1]
            p_transfer_from_pool_effect(2) [OF laws(3) 2] 3]) (use vaults in auto)
    ultimately show thesis using that [of e] e AtoB by simp
  next
    case BtoA
    then obtain b1 b2 where 1: "p_transfer_from_user invoke (accounts ! 8) (accounts ! 7) (accounts ! 2)
        (accounts ! 5) (accounts ! 10) (pr_included_transfer_fee_amount_in r) b = Ok b1"
      and 2: "p_transfer_from_pool ad invoke (accounts ! 0) (accounts ! 6) (accounts ! 4) (accounts ! 3)
        (accounts ! 9) (pr_included_transfer_fee_amount_out r) b1 = Ok b2"
      and 3: "?ref b2 = Ok b'"
      using calls by (auto simp: p_swap_transfers_cases rbind_Ok_iff)
    obtain e where e: "calculate_transfer_fee_excluded_amount ta (pr_included_transfer_fee_amount_out r) = Ok e"
      "unat (b2 ?out) = unat (b1 ?out) + unat (xe_amount e)"
      by (rule p_transfer_dest [OF laws(1,2) 2]) (use paid vaults in auto)
    have "unat (b ?in) = unat (b1 ?in) + unat (pr_included_transfer_fee_amount_in r)"
      by (rule p_transfer_source [OF laws(3,4) 1]) (use source vaults in auto)
    moreover have "b' ?in = b1 ?in \<and> b' ?out = b2 ?out \<and> b1 ?out = b ?out"
      by (rule step [OF p_transfer_from_user_effect(3) [OF laws(3) 1]
            p_transfer_from_pool_effect(2) [OF laws(1) 2] 3]) (use vaults in auto)
    ultimately show thesis using that [of e] e BtoA by simp
  qed
qed

text \<open>
  The instruction as a whole: what leaves the account that the trader pays from, and what arrives at
  the account the trader named for the output.
\<close>

lemma swap_instruction_limits:
  assumes swap: "swap_instruction (account_ids_of ad) clk tx ta tb accounts q v params = Ok (q', v', r)"
    and d: "get_trade_direction (p_accessor_mint (accounts ! 2)) (ac_key (accounts ! 6)) = Ok d"
    and calls: "p_swap_transfers ad invoke accounts has_referral d fm r b = Ok b'"
    and laws: "transfer_law ad invoke authority is_signer (ac_key (accounts ! 6)) ta" "token_law ta"
      "transfer_law ad invoke authority is_signer (ac_key (accounts ! 7)) tb" "token_law tb"
    and vaults: "pl_token_a_vault q \<noteq> pl_token_b_vault q"
      "authority (pl_token_a_vault q) = pool_authority_ID ad"
      "authority (pl_token_b_vault q) = pool_authority_ID ad"
      "\<not> is_signer (pool_authority_ID ad)"
    and dest: "pl_token_a_vault q \<notin> paid_accounts accounts has_referral"
      "pl_token_b_vault q \<notin> paid_accounts accounts has_referral"
    and others: "ac_key (accounts ! 2) \<notin> paid_accounts accounts has_referral"
      "has_referral \<Longrightarrow> ac_key (accounts ! 11) \<noteq> ac_key (accounts ! 3)"
  obtains mode paid received where "swap_mode_of_u8 (sw_swap_mode params) = Some mode"
    and "unat (b (ac_key (accounts ! 2))) = unat (b' (ac_key (accounts ! 2))) + paid"
    and "unat (b' (ac_key (accounts ! 3))) = unat (b (ac_key (accounts ! 3))) + received"
    and "case mode of
        ExactIn \<Rightarrow> paid = unat (sw_amount_0 params) \<and> unat (sw_amount_1 params) \<le> received
      | PartialFill \<Rightarrow> unat (sw_amount_1 params) \<le> received
      | ExactOut \<Rightarrow> received = unat (sw_amount_0 params) \<and> paid \<le> unat (sw_amount_1 params)"
proof -
  let ?ctx = "swap_context_of (account_ids_of ad) clk tx ta tb accounts"
  have valid: "validate_p_accounts (account_ids_of ad) q accounts = Ok ()"
    and h: "p_handle_swap ?ctx q v params = Ok (q', v', r)"
    using swap by (auto simp: swap_instruction_validated rbind_Ok_iff)
  have ctx: "sc_input_token_account_mint ?ctx = p_accessor_mint (accounts ! 2)"
      "sc_token_a_mint_key ?ctx = ac_key (accounts ! 6)" "sc_token_a ?ctx = ta" "sc_token_b ?ctx = tb"
    by (simp_all add: swap_context_of_def)
  obtain mode pp where m: "swap_mode_of_u8 (sw_swap_mode params) = Some mode" "process_swap mode pp = Ok r"
      "pp_amount_0 pp = sw_amount_0 params" "pp_amount_1 pp = sw_amount_1 params"
      "pp_token_out_mint pp = (case d of AtoB \<Rightarrow> tb | BtoA \<Rightarrow> ta)"
  proof (rule p_handle_swap_Ok [OF h])
    fix d' mode pp
    assume "get_trade_direction (sc_input_token_account_mint ?ctx) (sc_token_a_mint_key ?ctx) = Ok d'"
      and p: "swap_mode_of_u8 (sw_swap_mode params) = Some mode" "process_swap mode pp = Ok r"
        "pp_amount_0 pp = sw_amount_0 params" "pp_amount_1 pp = sw_amount_1 params"
        "pp_token_out_mint pp = (case d' of AtoB \<Rightarrow> sc_token_b ?ctx | BtoA \<Rightarrow> sc_token_a ?ctx)"
    then have "d' = d" using d by (simp add: ctx)
    then have "pp_token_out_mint pp = (case d of AtoB \<Rightarrow> tb | BtoA \<Rightarrow> ta)"
      using p(5) ctx(3,4) by (cases d) simp_all
    then show thesis by (rule that [OF p(1-4)])
  qed
  have auth: "authority (ac_key (accounts ! 2)) = ac_key (accounts ! 8)" "is_signer (ac_key (accounts ! 8))"
    using p_swap_transfers_authorities [OF calls laws(1,3)] by blast+
  have source: "ac_key (accounts ! 2) \<noteq> pl_token_a_vault q" "ac_key (accounts ! 2) \<noteq> pl_token_b_vault q"
    using auth vaults(2-4) by metis+
  obtain e where e: "calculate_transfer_fee_excluded_amount (case d of AtoB \<Rightarrow> tb | BtoA \<Rightarrow> ta)
      (pr_included_transfer_fee_amount_out r) = Ok e"
    and paid: "unat (b (ac_key (accounts ! 2))) =
      unat (b' (ac_key (accounts ! 2))) + unat (pr_included_transfer_fee_amount_in r)"
    and received: "unat (b' (ac_key (accounts ! 3))) = unat (b (ac_key (accounts ! 3))) + unat (xe_amount e)"
    by (rule p_swap_transfers_trader [OF calls laws validate_p_accounts_Ok(4,5) [OF valid] vaults(1)
          source dest others])
  have "case mode of
        ExactIn \<Rightarrow> unat (pr_included_transfer_fee_amount_in r) = unat (sw_amount_0 params) \<and>
          unat (sw_amount_1 params) \<le> unat (xe_amount e)
      | PartialFill \<Rightarrow> unat (sw_amount_1 params) \<le> unat (xe_amount e)
      | ExactOut \<Rightarrow> unat (xe_amount e) = unat (sw_amount_0 params) \<and>
          unat (pr_included_transfer_fee_amount_in r) \<le> unat (sw_amount_1 params)"
    using process_swap_limits [OF m(2), of e] e m(3-5) by (cases mode) (auto simp: word_le_nat_alt)
  then show thesis by (rule that [OF m(1) paid received])
qed

end
