(* ===== verification/Account_Examples.thy ===== *)
theory Account_Examples
  imports Creation_Instructions Swap_Context Swap_Calls Examples
begin

text \<open>
  Concrete accounts that the declared checks accept: of an instruction on a position, of a swap, of the
  creation of a pool and of a position. The derivation of addresses is a small table.
\<close>

definition example_derive :: "bytes list \<Rightarrow> pubkey \<Rightarrow> pubkey \<times> u8" where
  "example_derive seeds program =
     (if hd seeds = POOL_AUTHORITY_PREFIX then 20
      else if hd seeds = EVENT_AUTHORITY_SEEDS then 60
      else if hd seeds = CUSTOMIZABLE_POOL_PREFIX then 10
      else if hd seeds = TOKEN_VAULT_PREFIX then (if seeds ! 1 = key_bytes 2 then 4 else 5)
      else if hd seeds = POSITION_PREFIX then 12
      else 13, 255)"

definition example_addresses :: addresses where
  "example_addresses =
     \<lparr> ad_programs = example_program, ad_system_program = 0, ad_token_programs = [50, 51],
       ad_token_2022_program = 51, ad_sysvar_instructions = 101,
       ad_pool_discriminator = [9, 9, 9, 9], ad_derive = example_derive,
       ad_create = (\<lambda>seeds program. Some (fst (example_derive (butlast seeds) program))) \<rparr>"

lemma example_derivation_law: "derivation_law example_addresses"
  by (simp add: derivation_law_def example_addresses_def example_derive_def)

lemma prefix_neq:
  "EVENT_AUTHORITY_SEEDS \<noteq> POOL_AUTHORITY_PREFIX"
  "CUSTOMIZABLE_POOL_PREFIX \<noteq> POOL_AUTHORITY_PREFIX" "CUSTOMIZABLE_POOL_PREFIX \<noteq> EVENT_AUTHORITY_SEEDS"
  "TOKEN_VAULT_PREFIX \<noteq> POOL_AUTHORITY_PREFIX" "TOKEN_VAULT_PREFIX \<noteq> EVENT_AUTHORITY_SEEDS"
  "TOKEN_VAULT_PREFIX \<noteq> CUSTOMIZABLE_POOL_PREFIX"
  "POSITION_PREFIX \<noteq> POOL_AUTHORITY_PREFIX" "POSITION_PREFIX \<noteq> EVENT_AUTHORITY_SEEDS"
  "POSITION_PREFIX \<noteq> CUSTOMIZABLE_POOL_PREFIX" "POSITION_PREFIX \<noteq> TOKEN_VAULT_PREFIX"
  "POSITION_NFT_ACCOUNT_PREFIX \<noteq> POOL_AUTHORITY_PREFIX"
  "POSITION_NFT_ACCOUNT_PREFIX \<noteq> EVENT_AUTHORITY_SEEDS"
  "POSITION_NFT_ACCOUNT_PREFIX \<noteq> CUSTOMIZABLE_POOL_PREFIX"
  "POSITION_NFT_ACCOUNT_PREFIX \<noteq> TOKEN_VAULT_PREFIX" "POSITION_NFT_ACCOUNT_PREFIX \<noteq> POSITION_PREFIX"
  using prefixes_distinct by auto

lemma example_ids:
  "program_id example_addresses = 100" "ad_system_program example_addresses = 0"
  "ad_token_programs example_addresses = [50, 51]" "ad_token_2022_program example_addresses = 51"
  "ad_derive example_addresses = example_derive" "pool_authority_ID example_addresses = 20"
  "fst (EVENT_AUTHORITY_AND_BUMP example_addresses) = 60"
  by (simp_all add: example_addresses_def example_program_def pool_authority_ID_def
      POOL_AUTHORITY_AND_BUMP_def EVENT_AUTHORITY_AND_BUMP_def example_derive_def prefix_neq)

definition plain_info :: "pubkey \<Rightarrow> pubkey \<Rightarrow> account_data \<Rightarrow> account_info" where
  "plain_info key owner data =
     \<lparr> info_key = key, info_owner = owner, info_is_signer = False, info_is_writable = True,
       info_executable = False, info_data = data \<rparr>"

definition signer_info :: "pubkey \<Rightarrow> account_info" where
  "signer_info key = (plain_info key 0 No_Data)\<lparr>info_is_signer := True\<rparr>"

definition program_info :: "pubkey \<Rightarrow> account_info" where
  "program_info key = (plain_info key 0 Other_Data)\<lparr>info_executable := True\<rparr>"

definition token_info :: "pubkey \<Rightarrow> pubkey \<Rightarrow> pubkey \<Rightarrow> pubkey \<Rightarrow> u64 \<Rightarrow> account_info" where
  "token_info key program mint authority held =
     plain_info key program
       (Token_Account_Data \<lparr> ta_mint = mint, ta_authority = authority, ta_amount = held \<rparr>)"

definition mint_info :: "pubkey \<Rightarrow> account_info" where
  "mint_info key = plain_info key 50 (Mint_Data
     \<lparr> tm_decimals = 6, tm_supply = 0, tm_authority = None, tm_freeze_authority = None,
       tm_metadata_pointer_authority = None, tm_metadata_address = None, tm_close_authority = None \<rparr>)"

lemmas info_defs =
  plain_info_def signer_info_def program_info_def token_info_def mint_info_def

lemmas checks_eval =
  info_defs example_ids example_derive_def prefix_neq key_bytes_inject derived_key_def
  bind_accounts_def context_defs constraint_def token_account_checks_def token_account_of_def
  mint_of_def position_of_def pool_of_def

definition lock_infos :: "account_info list" where
  "lock_infos =
     [plain_info 10 100 (Pool_Data start_pool), plain_info 12 100 (Position_Data start_position),
      token_info 13 51 11 1 1, signer_info 1, plain_info 60 0 No_Data, program_info 100]"

lemma lock_infos_accepted: "is_ok (try_accounts example_addresses PermanentLockPositionCtx lock_infos)"
  by (simp add: try_accounts_def lock_infos_def checks_eval start_position_def)

definition swap_infos :: "account_info list" where
  "swap_infos =
     [plain_info 20 0 No_Data, plain_info 10 100 (Pool_Data start_pool),
      token_info 30 50 2 1 9, token_info 31 50 3 1 9, token_info 4 50 2 20 1000000,
      token_info 5 50 3 20 1000000, mint_info 2, mint_info 3, signer_info 40,
      program_info 50, program_info 50, program_info 100, plain_info 60 0 No_Data, program_info 100]"

lemma swap_infos_accepted: "is_ok (try_accounts example_addresses (SwapCtx example_addresses) swap_infos)"
proof -
  have "14 \<le> length swap_infos" by (simp add: swap_infos_def)
  then show ?thesis
    unfolding SwapCtx_accepts [OF \<open>14 \<le> length swap_infos\<close>]
    by (simp add: swap_infos_def checks_eval start_pool_def pool_initialize_def)
qed

definition create_position_infos :: "account_info list" where
  "create_position_infos =
     [plain_info 1 0 No_Data, signer_info 11, plain_info 13 0 No_Data,
      plain_info 10 100 (Pool_Data start_pool), plain_info 12 0 No_Data, plain_info 20 0 No_Data,
      signer_info 7, program_info 51, program_info 0, plain_info 60 0 No_Data, program_info 100]"

text \<open>For the evaluation of creations the environment is kept as a list.\<close>

definition list_env :: "(string \<times> account_info) list \<Rightarrow> environment" where
  "list_env xs x = (case map_of xs x of Some a \<Rightarrow> a | None \<Rightarrow> no_account)"

lemma list_env_simps:
  "list_env [] x = no_account"
  "list_env ((y, a) # xs) x = (if x = y then a else list_env xs x)"
  by (simp_all add: list_env_def)

lemma bind_list_env: "bind_accounts ctx accounts = list_env (zip (List.map field_name ctx) accounts)"
  by (intro ext) (simp add: bind_accounts_def list_env_def)

lemma update_list_env:
  assumes "k \<noteq> 0"
  shows "update_account (list_env xs) k f =
    list_env (List.map (\<lambda>(x, a). (x, if info_key a = k then f a else a)) xs)"
proof
  fix y
  show "update_account (list_env xs) k f y =
      list_env (List.map (\<lambda>(x, a). (x, if info_key a = k then f a else a)) xs) y"
    using assms by (induction xs) (auto simp: update_account_def list_env_def no_account_def)
qed

lemmas init_eval =
  seeds_of_def payer_of_def token_program_of_def new_token_account_def new_mint_def
  key_attribute_def list_env_simps bind_list_env update_list_env

lemmas creation_checks_eval =
  info_defs example_ids example_derive_def prefix_neq key_bytes_inject derived_key_def
  context_defs constraint_def token_account_checks_def token_account_of_def
  mint_of_def position_of_def pool_of_def init_eval

lemma create_position_infos_accepted:
  "is_ok (try_accounts example_addresses (CreatePositionCtx example_addresses) create_position_infos)"
  by (simp add: try_accounts_def create_position_infos_def creation_checks_eval Let_def
      cong: rbind_weak_cong if_weak_cong)

definition create_pool_infos :: "account_info list" where
  "create_pool_infos =
     [plain_info 1 0 No_Data, signer_info 11, plain_info 13 0 No_Data, signer_info 1,
      plain_info 20 0 No_Data, plain_info 10 0 No_Data, plain_info 12 0 No_Data, mint_info 2,
      mint_info 3, plain_info 4 0 No_Data, plain_info 5 0 No_Data, token_info 30 50 2 1 9,
      token_info 31 50 3 1 9, program_info 50, program_info 50, program_info 51, program_info 0,
      plain_info 60 0 No_Data, program_info 100]"

lemma create_pool_infos_accepted:
  "is_ok (try_accounts example_addresses (InitializeCustomizablePoolCtx example_addresses)
     create_pool_infos)"
  by (simp add: try_accounts_def create_pool_infos_def creation_checks_eval Let_def
      cong: rbind_weak_cong if_weak_cong)

text \<open>The same mints in the other order, when the pool exists.\<close>

definition second_pool_infos :: "account_info list" where
  "second_pool_infos =
     [plain_info 1 0 No_Data, signer_info 21, plain_info 23 0 No_Data, signer_info 1,
      plain_info 20 0 No_Data, plain_info 10 100 (Pool_Data start_pool), plain_info 22 0 No_Data,
      mint_info 3, mint_info 2, plain_info 24 0 No_Data, plain_info 25 0 No_Data,
      token_info 31 50 3 1 9, token_info 30 50 2 1 9, program_info 50, program_info 50,
      program_info 51, program_info 0, plain_info 60 0 No_Data, program_info 100]"

lemma create_pool_keys:
  "info_key (bind_accounts (InitializeCustomizablePoolCtx ad) create_pool_infos ''creator'') = 1"
  "info_key (bind_accounts (InitializeCustomizablePoolCtx ad) create_pool_infos ''payer'') = 1"
  "info_key (bind_accounts (InitializeCustomizablePoolCtx ad) create_pool_infos ''pool'') = 10"
  "info_key (bind_accounts (InitializeCustomizablePoolCtx ad) create_pool_infos ''position_nft_mint'') = 11"
  "info_key (bind_accounts (InitializeCustomizablePoolCtx ad) create_pool_infos ''token_a_mint'') = 2"
  "info_key (bind_accounts (InitializeCustomizablePoolCtx ad) create_pool_infos ''token_b_mint'') = 3"
  "info_key (bind_accounts (InitializeCustomizablePoolCtx ad) create_pool_infos ''token_a_vault'') = 4"
  "info_key (bind_accounts (InitializeCustomizablePoolCtx ad) create_pool_infos ''token_b_vault'') = 5"
  "info_key (bind_accounts (InitializeCustomizablePoolCtx ad) create_pool_infos ''config'') = 0"
  by (simp_all add: create_pool_infos_def creation_checks_eval no_account_def)

lemma second_pool_keys:
  "info_key (bind_accounts (InitializeCustomizablePoolCtx ad) second_pool_infos ''config'') =
   info_key (bind_accounts (InitializeCustomizablePoolCtx ad) create_pool_infos ''config'')"
  "{info_key (bind_accounts (InitializeCustomizablePoolCtx ad) second_pool_infos ''token_a_mint''),
    info_key (bind_accounts (InitializeCustomizablePoolCtx ad) second_pool_infos ''token_b_mint'')} =
   {info_key (bind_accounts (InitializeCustomizablePoolCtx ad) create_pool_infos ''token_a_mint''),
    info_key (bind_accounts (InitializeCustomizablePoolCtx ad) create_pool_infos ''token_b_mint'')}"
  "\<forall>a\<in>set second_pool_infos.
     info_key a = info_key (bind_accounts (InitializeCustomizablePoolCtx ad) create_pool_infos ''pool'') \<longrightarrow>
     info_owner a = 100"
  unfolding create_pool_keys
  by (auto simp: second_pool_infos_def creation_checks_eval no_account_def)

section \<open>Two views of the accounts of a swap\<close>

lemma example_system_program:
  "ad_system_program example_addresses \<notin> set (ad_token_programs example_addresses)"
  by (simp add: example_ids)

lemma example_pool_content: "\<forall>q'. info_data (swap_infos ! 1) = Pool_Data q' \<longrightarrow> q' = start_pool"
  by (simp add: swap_infos_def info_defs)

lemma example_views: "list_all2 (views example_addresses) example_accounts swap_infos"
  by (simp add: example_accounts_def swap_infos_def views_def views_content_def POOL_INIT_SPACE_def some_account_def
      info_defs example_ids token_account_of_def p_accessor_mint_def token_data_mint)
    (simp add: example_addresses_def)

section \<open>Calls to the token program\<close>

definition example_token_calls :: token_calls where
  "example_token_calls =
     \<lparr> tc_metadata_initialize = (\<lambda>seeds m authority name symbol link env. Ok env),
       tc_minimum_balance = (\<lambda>env k. 3000), tc_lamports = (\<lambda>env k. 1000),
       tc_transfer = (\<lambda>payer account n env. Ok env),
       tc_mint_to = (\<lambda>seeds m k authority n env. Ok (update_account env k (\<lambda>a.
         case info_data a of
           Token_Account_Data t \<Rightarrow> a\<lparr>info_data := Token_Account_Data (t\<lparr>ta_amount := ta_amount t + n\<rparr>)\<rparr>
         | _ \<Rightarrow> a))) \<rparr>"

lemma example_token_calls_law: "token_calls_law example_token_calls"
  by (auto simp: token_calls_law_def example_token_calls_def keeps_accounts_def update_account_def
      position_of_def token_account_of_def split: account_data.splits)

lemma example_nft_created:
  "is_ok (create_position_nft example_token_calls ad payer m authority k env)"
  by (simp add: create_position_nft_def Let_def example_token_calls_def
      update_account_lamports_to_minimum_balance_def safe_sub_def checked_sub_def)

lemma create_position_infos_succeed:
  "is_ok (create_position_instruction example_addresses example_token_calls example_clock
     create_position_infos)"
proof -
  obtain env where env: "try_accounts example_addresses (CreatePositionCtx example_addresses)
      create_position_infos = Ok env"
    using create_position_infos_accepted by (auto simp: is_ok_iff)
  then have pool: "pool_of (env ''pool'') = Some start_pool"
    by (simp add: try_accounts_def create_position_infos_def creation_checks_eval Let_def
      cong: rbind_weak_cong if_weak_cong) (auto simp: creation_checks_eval)
  let ?nft = "create_position_nft example_token_calls example_addresses (info_key (env ''payer''))
    (info_key (env ''position_nft_mint'')) (info_key (env ''pool_authority''))
    (info_key (env ''position_nft_account'')) env"
  obtain env' where nft: "?nft = Ok env'" using example_nft_created unfolding is_ok_iff by blast
  obtain q p where "handle_create_position example_clock (Ok ()) start_pool (info_key (env ''pool''))
      (info_key (env ''position_nft_mint'')) = Ok (q, p)"
    by (simp add: handle_create_position_def position_initialize_def start_pool_def example_clock_def
        handler_eval pool_ops_eval pool_eval activation_eval amm_prelude_eval amm_math_eval
        amm_constants_eval cong: evaluation_cong)
  then show ?thesis
    by (simp add: create_position_instruction_def env pool nft Let_def)
qed

section \<open>The transfers of a swap\<close>

text \<open>
  The accounts of the swap with the data of the two mints, and a token program that checks the authority
  and moves the amount.
\<close>

definition transfer_accounts :: "p_account list" where
  "transfer_accounts =
     [some_account 20 0 False [], some_account 10 100 False ([9, 9, 9, 9] @ replicate 1104 0),
      some_account 30 50 False (token_data 2), some_account 31 50 False (token_data 3),
      some_account 4 50 False (token_data 2), some_account 5 50 False (token_data 3),
      some_account 2 50 False (replicate 82 6), some_account 3 50 False (replicate 82 6),
      some_account 40 0 True [], some_account 50 0 False [], some_account 50 0 False [],
      some_account 100 0 False [], some_account 60 0 False [], some_account 100 0 False []]"

definition example_authority :: "pubkey \<Rightarrow> pubkey" where
  "example_authority k = (if k = 4 \<or> k = 5 then 20 else 40)"

definition example_signer :: "pubkey \<Rightarrow> bool" where
  "example_signer k \<longleftrightarrow> k = 40"

definition example_invoke :: invocation where
  "example_invoke signers c b =
     (if xc_authority c = example_authority (xc_from c) \<and>
         (example_signer (xc_authority c) \<or>
          list_ex (\<lambda>seeds. ad_create example_addresses seeds (program_id example_addresses) =
            Some (xc_authority c)) signers)
      then rbind (safe_sub (b (xc_from c)) (xc_amount c)) (\<lambda>x.
        let b = b(xc_from c := x) in
        rbind (safe_add (b (xc_to c)) (xc_amount c)) (\<lambda>y. Ok (b(xc_to c := y))))
      else Inl Foreign)"

definition example_balances :: balances where
  "example_balances k = (if k = 4 \<or> k = 5 then 1000000 else if k = 30 then - 1 else 0)"

lemma example_invoke_Ok:
  assumes "example_invoke signers c b = Ok b'"
  obtains x y where "b' = b(xc_from c := x, xc_to c := y)"
    and "safe_sub (b (xc_from c)) (xc_amount c) = Ok x"
    and "safe_add ((b(xc_from c := x)) (xc_to c)) (xc_amount c) = Ok y"
    and "xc_authority c = example_authority (xc_from c)"
    and "example_signer (xc_authority c) \<or> (\<exists>seeds \<in> set signers.
      ad_create example_addresses seeds (program_id example_addresses) = Some (xc_authority c))"
  using assms unfolding example_invoke_def Let_def list_ex_iff if_Ok_iff rbind_Ok_iff sum.inject
  by blast

lemma example_transfer_law:
  "transfer_law example_addresses example_invoke example_authority example_signer m plain_token"
  unfolding transfer_law_def
proof (intro allI impI)
  fix signers c b b' assume "example_invoke signers c b = Ok b'"
  then show "xc_authority c = example_authority (xc_from c) \<and>
      (example_signer (xc_authority c) \<or> (\<exists>seeds \<in> set signers.
        ad_create example_addresses seeds (program_id example_addresses) = Some (xc_authority c))) \<and>
      (\<forall>k. k \<noteq> xc_from c \<longrightarrow> k \<noteq> xc_to c \<longrightarrow> b' k = b k) \<and>
      (xc_from c \<noteq> xc_to c \<longrightarrow>
        transfer_from_pool plain_token (b (xc_from c)) (xc_amount c) = Ok (b' (xc_from c)) \<and>
        transfer_from_user plain_token (b (xc_to c)) (xc_amount c) = Ok (b' (xc_to c)))"
    by (rule example_invoke_Ok)
      (auto simp: plain_token_def transfer_from_pool_def transfer_from_user_def split: if_splits)
qed

lemma transfer_accounts_validate:
  "validate_p_accounts (account_ids_of example_addresses) start_pool transfer_accounts = Ok ()"
proof -
  have v: "pl_token_a_vault start_pool = 4" "pl_token_b_vault start_pool = 5"
    by (simp_all add: start_pool_def pool_initialize_def)
  show ?thesis
    by (simp add: validate_p_accounts_def Let_def SWAP_IX_ACCOUNTS_def transfer_accounts_def
        example_accounts_mints v)
      (simp add: constraint_def some_account_def account_ids_of_def example_ids
        p_load_mut_checked_def POOL_INIT_SPACE_def assert_panic_def validate_mut_token_account_def,
       simp add: example_addresses_def example_program_def)
qed

lemma transfer_context_of:
  "swap_context_of (account_ids_of example_addresses) example_clock example_transaction plain_token
     plain_token transfer_accounts = example_context"
  by (simp add: swap_context_of_def transfer_accounts_def example_accounts_mints example_context_def)
    (simp add: some_account_def account_ids_of_def example_addresses_def example_program_def)

lemma example_balances_vaults: "vaults_of start_pool example_balances = start_vaults"
  by (simp add: vaults_of_def start_pool_def pool_initialize_def example_balances_def start_vaults_def)

lemma transfer_accounts_facts:
  "get_trade_direction (p_accessor_mint (transfer_accounts ! 2)) (ac_key (transfer_accounts ! 6)) = Ok AtoB"
  "ac_key (transfer_accounts ! 11) = 100"
  "pl_token_a_vault start_pool = 4" "pl_token_b_vault start_pool = 5"
  "4 \<notin> paid_accounts transfer_accounts False" "5 \<notin> paid_accounts transfer_accounts False"
  by (simp_all add: transfer_accounts_def example_accounts_mints get_trade_direction_def paid_accounts_def
      start_pool_def pool_initialize_def) (simp_all add: some_account_def example_ids)

lemma example_transfers_succeed:
  assumes "p_handle_swap example_context start_pool start_vaults example_swap = Ok (q, v, r)"
  obtains fm b' where "get_fee_mode (pl_collect_fee_mode start_pool) AtoB False = Ok fm"
    and "p_swap_transfers example_addresses example_invoke transfer_accounts False AtoB fm r
      example_balances = Ok b'"
proof (rule p_handle_swap_Ok [OF assms])
  fix d fm q1
  assume 1: "get_trade_direction (sc_input_token_account_mint example_context)
      (sc_token_a_mint_key example_context) = Ok d"
    "update_pre_swap start_pool (unix_timestamp (sc_clock example_context)) = Ok q1"
    "get_fee_mode (pl_collect_fee_mode q1) d (sc_has_referral example_context) = Ok fm"
    and 2: "swap_transfers example_context start_vaults d fm r = Ok v"
  let ?x = "pr_included_transfer_fee_amount_in r" and ?y = "pr_included_transfer_fee_amount_out r"
  have d: "d = AtoB" using 1(1) by (simp add: example_context_def get_trade_direction_def)
  have fm: "get_fee_mode (pl_collect_fee_mode start_pool) AtoB False = Ok fm"
    using 1(3) update_pre_swap_effect(1) [OF 1(2)] d by (auto simp: example_context_def)
  obtain a b where a: "safe_add 1000000 ?x = Ok a" and b: "safe_sub 1000000 ?y = Ok b"
    using 2 d by (auto simp: swap_transfers_def example_context_def start_vaults_def plain_token_def
        transfer_from_user_def transfer_from_pool_def rbind_Ok_iff split: if_splits)
  obtain c where c: "safe_sub (- 1) ?x = Ok c"
    using safe_sub_total [of ?x "- 1"] by (auto simp: word_le_nat_alt [symmetric])
  obtain e where e: "safe_add 0 ?y = Ok e"
    using safe_add_is_ok [of 0 ?y] unsigned_less [of ?y] by (auto simp: is_ok_iff)
  have "\<exists>b'. p_swap_transfers example_addresses example_invoke transfer_accounts False AtoB fm r
      example_balances = Ok b'"
    by (simp add: p_swap_transfers_cases p_transfer_from_user_def
        p_transfer_from_pool_def p_accessor_decimals_def transfer_accounts_def)
      (simp add: referral_transfer_def some_account_def example_invoke_def example_authority_def example_signer_def
        example_addresses_def example_derive_def example_balances_def a b c e)
  then show thesis using that fm by blast
qed

end
