(* ===== verification/Treasury_Accounts.thy ===== *)
theory Treasury_Accounts
  imports Program_Addresses Zap_Protocol_Fee
begin

text \<open>
  The accounts of the treasury into which a protocol fee may be zapped. \<^verbatim>\<open>constants.rs\<close> derives two of
  them itself, for USDC and SOL, from the treasury, the token program and the mint; the handler asks the
  library of associated token accounts for the third. The identifiers of the two programs are arguments.
\<close>

definition TREASURY_USDC_ADDRESS :: "addresses \<Rightarrow> pubkey \<Rightarrow> pubkey \<Rightarrow> pubkey" where
  "TREASURY_USDC_ADDRESS ad token_program associated_token_program =
     fst (ad_derive ad [key_bytes TREASURY_ID, key_bytes token_program, key_bytes USDC_ADDRESS]
       associated_token_program)"

definition TREASURY_SOL_ADDRESS :: "addresses \<Rightarrow> pubkey \<Rightarrow> pubkey \<Rightarrow> pubkey" where
  "TREASURY_SOL_ADDRESS ad token_program associated_token_program =
     fst (ad_derive ad [key_bytes TREASURY_ID, key_bytes token_program, key_bytes SOL_ADDRESS]
       associated_token_program)"

text \<open>The identifiers of a zap with these constants; the library derives from the same seeds.\<close>

definition treasury_ids :: "addresses \<Rightarrow> pubkey \<Rightarrow> zap_ids \<Rightarrow> bool" where
  "treasury_ids ad associated_token_program ids \<longleftrightarrow>
     zi_treasury_usdc ids = TREASURY_USDC_ADDRESS ad (zi_token_program ids) associated_token_program \<and>
     zi_treasury_sol ids = TREASURY_SOL_ADDRESS ad (zi_token_program ids) associated_token_program \<and>
     (\<forall>owner m program. zi_associated_token_address ids owner m program =
        fst (ad_derive ad [key_bytes owner, key_bytes program, key_bytes m] associated_token_program))"

lemma zap_claim_paired:
  assumes "zap_claim ids q is_a m = Ok (q', x, paired)"
  obtains program where "program \<in> {zi_token_program ids, zi_token_2022_program ids}"
    and "paired = zi_associated_token_address ids TREASURY_ID
      (if is_a then pl_token_b_mint q else pl_token_a_mint q) program"
  using assms
  by (auto simp: zap_claim_def rbind_Ok_iff get_token_program_from_flag_def split: if_splits)

text \<open>
  So the account that receives the swapped fee is, in each of the three cases, an associated account of
  the treasury: of the other mint of the pool, of USDC or of SOL.
\<close>

definition treasury_account_for :: "addresses \<Rightarrow> pubkey \<Rightarrow> pubkey \<Rightarrow> pubkey \<Rightarrow> pubkey" where
  "treasury_account_for ad associated_token_program program mint =
     fst (ad_derive ad [key_bytes TREASURY_ID, key_bytes program, key_bytes mint] associated_token_program)"

lemma zap_destination_is_of_treasury:
  assumes "zap_claim ids q is_a m = Ok (q', x, paired)" and "treasury_ids ad associated_token_program ids"
    and "destination \<in> {paired, zi_treasury_usdc ids, zi_treasury_sol ids}"
  shows "\<exists>mint program. program \<in> {zi_token_program ids, zi_token_2022_program ids} \<and>
    mint \<in> {if is_a then pl_token_b_mint q else pl_token_a_mint q, USDC_ADDRESS, SOL_ADDRESS} \<and>
    destination = treasury_account_for ad associated_token_program program mint"
proof -
  obtain program where program: "program \<in> {zi_token_program ids, zi_token_2022_program ids}"
      "paired = zi_associated_token_address ids TREASURY_ID
        (if is_a then pl_token_b_mint q else pl_token_a_mint q) program"
    by (rule zap_claim_paired [OF assms(1)])
  consider "destination = paired" | "destination = zi_treasury_usdc ids" | "destination = zi_treasury_sol ids"
    using assms(3) by blast
  then show ?thesis
  proof cases
    case 1
    then show ?thesis using assms(2) program
      by (intro exI [of _ "if is_a then pl_token_b_mint q else pl_token_a_mint q"] exI [of _ program])
        (simp add: treasury_ids_def treasury_account_for_def)
  next
    case 2
    then show ?thesis using assms(2)
      by (intro exI [of _ USDC_ADDRESS] exI [of _ "zi_token_program ids"])
        (simp add: treasury_ids_def treasury_account_for_def TREASURY_USDC_ADDRESS_def)
  next
    case 3
    then show ?thesis using assms(2)
      by (intro exI [of _ SOL_ADDRESS] exI [of _ "zi_token_program ids"])
        (simp add: treasury_ids_def treasury_account_for_def TREASURY_SOL_ADDRESS_def)
  qed
qed

end
