(* ===== verification/Governance_Correct.thy ===== *)
theory Governance_Correct
  imports Account_Examples Treasury_Accounts
begin

text \<open>
  The properties of operators, configs and the zap of the protocol fee, each with an instance on
  concrete values.
\<close>

section \<open>Operators\<close>

text \<open>
  The rights of an operator come from an admin: when an operator account that was created may set
  the status of a pool, an admin created it, for the address that signs, with the bit of this
  permission; the instruction then changes the status only, to one of the two known values and never
  to the current one.
\<close>

theorem status_is_set_by_appointed_operator:
  assumes "create_operator_account admin addr perm = Ok oper"
    and "ix_set_pool_status oper signer q st = Ok q'"
  shows "admin \<in> set ADMINS \<and> signer = addr \<and> bit perm (nat_of_permission SetPoolStatus) \<and>
    q' = q\<lparr>pl_pool_status := st\<rparr> \<and> st \<noteq> pl_pool_status q \<and> (st = 0 \<or> st = 1)"
proof -
  have o: "admin \<in> set ADMINS" "op_whitelisted_address oper = addr"
    by (rule create_operator_account_Ok [OF assms(1)])+
  have p: "op_permission oper = perm"
    using assms(1) by (auto simp: create_operator_account_def handle_create_operator_def
        operator_initialize_def rbind_Ok_iff require_Ok_iff)
  have h: "handle_set_pool_status q st = Ok q'"
    and r: "is_valid_operator_role oper signer SetPoolStatus = Ok ()"
    using assms(2) by (auto simp: ix_set_pool_status_def rbind_Ok_iff)
  have "op_whitelisted_address oper = signer" "is_permission_allow oper SetPoolStatus"
    using r by (auto simp: is_valid_operator_role_def split: if_splits)
  then show ?thesis using o p handle_set_pool_status_Ok [OF h] by (simp add: is_permission_allow_bit)
qed

theorem status_is_set_by_appointed_operator_witness:
  "\<exists>oper q. create_operator_account (hd ADMINS) 33 16 = Ok oper \<and>
    ix_set_pool_status oper 33 start_pool 1 = Ok q \<and> q = start_pool\<lparr>pl_pool_status := 1\<rparr>"
proof -
  obtain oper where o: "create_operator_account (hd ADMINS) 33 16 = Ok oper"
    and e: "oper = operator_initialize 33 16"
    by (simp add: create_operator_account_def is_admin_def assert_eq_admin_def ADMINS_def
        handle_create_operator_def MAX_OPERATION_def)
  have "\<exists>q. ix_set_pool_status oper 33 start_pool 1 = Ok q"
    by (simp add: e ix_set_pool_status_def is_valid_operator_role_def operator_initialize_def
        is_permission_allow_def handle_set_pool_status_def pool_status_of_u8_def start_pool_def
        pool_initialize_def)
  then obtain q where q: "ix_set_pool_status oper 33 start_pool 1 = Ok q" by blast
  from status_is_set_by_appointed_operator [OF o q] o q show ?thesis by blast
qed

section \<open>Configs\<close>

text \<open>
  C38. A config keeps the fee parameters it was made from: they can be read back from it, in the 27
  bytes that the layout has, and a pool of the config gets exactly the fees that the same parameters
  give to a customizable pool.
\<close>

theorem config_keeps_fee_parameters:
  assumes "to_pool_fees_config pr = Ok c" and "length (pp_base_fee pr) = BASE_FEE_PARAMETERS_SPACE"
  shows "to_pool_fee_parameters c = Ok (pr\<lparr>pp_base_fee := take 27 (pp_base_fee pr) @ [0, 0, 0]\<rparr>) \<and>
    to_pool_fees_struct pr x = Ok (config_to_pool_fees_struct c x)"
proof -
  obtain f where f: "to_pool_fees_struct pr x = Ok f"
    using to_pool_fees_struct_iff [of pr x] assms(1) by blast
  then show ?thesis
    using config_parameters [OF assms] config_fees_are_parameters [OF assms(1) f] by simp
qed

theorem config_keeps_fee_parameters_witness:
  "\<exists>c. to_pool_fees_config (ic_pool_fees example_parameters) = Ok c \<and>
    to_pool_fees_struct (ic_pool_fees example_parameters) 18446744073709551616 =
      Ok (config_to_pool_fees_struct c 18446744073709551616)"
proof -
  obtain c where c: "to_pool_fees_config (ic_pool_fees example_parameters) = Ok c"
    by (simp add: to_pool_fees_config_def example_parameters_def example_base_fee)
  have "length (pp_base_fee (ic_pool_fees example_parameters)) = BASE_FEE_PARAMETERS_SPACE"
    by (simp add: example_parameters_def ts_to_borsh_bytes_def BASE_FEE_PARAMETERS_SPACE_def)
  from config_keeps_fee_parameters [OF c this] c show ?thesis by blast
qed

section \<open>The zap of the protocol fee\<close>

text \<open>
  C36. A zapped protocol fee reaches the treasury: when the instruction succeeds, an operator with the
  permission signed it, it took at most the maximum from the fee of one token and nothing else from
  the pool, and the next instruction of the transaction is a call of the zap program that swaps all of the
  amount, out of the account that received it, into the account that the treasury has for the other
  mint of the pool, for USDC or for SOL. The library of associated accounts derives an account from its
  owner, token program and mint.
\<close>

theorem zapped_fee_reaches_treasury:
  assumes "zap_protocol_fee oper signer ctx q v m = Ok (q', v', x)"
    and "treasury_ids ad associated_token_program (zc_ids ctx)"
  shows "op_whitelisted_address oper = signer \<and> is_permission_allow oper ZapProtocolFee \<and>
    0 < x \<and> x \<le> m \<and>
    unat (pl_protocol_a_fee q) + unat (pl_protocol_b_fee q) =
      unat (pl_protocol_a_fee q') + unat (pl_protocol_b_fee q') + unat x \<and>
    q' = q\<lparr>pl_protocol_a_fee := pl_protocol_a_fee q', pl_protocol_b_fee := pl_protocol_b_fee q'\<rparr> \<and>
    unat (zc_current_index ctx) + 1 < length (zc_instructions ctx) \<and>
    (let ids = zc_ids ctx; receiver = zc_receiver ctx;
         ix = zc_instructions ctx ! (unat (zc_current_index ctx) + 1) in
     in_program_id ix = zi_zap_program ids \<and> take 8 (in_data ix) = zi_zap_out_discriminator ids \<and>
     (\<exists>zp info other mint program. zi_decode_zap_out ids (drop 8 (in_data ix)) = Ok zp \<and>
        extract_amm_accounts_and_info ids zp (in_accounts ix) = Ok info \<and>
        zo_percentage zp = 100 \<and> zo_max_swap_amount zp = x \<and>
        rc_amount receiver = Ok (zo_pre_user_token_balance zp) \<and>
        zo_offset_amount_in zp = za_amount_in_offset info \<and>
        za_zap_user_token_in_address info = ta_key (rc_account receiver) \<and>
        za_amm_source_token_address info = ta_key (rc_account receiver) \<and>
        {zc_token_mint ctx, other} = {pl_token_a_mint q, pl_token_b_mint q} \<and>
        mint \<in> {other, USDC_ADDRESS, SOL_ADDRESS} \<and>
        program \<in> {zi_token_program ids, zi_token_2022_program ids} \<and>
        za_amm_destination_token_address info =
          treasury_account_for ad associated_token_program program mint))"
proof -
  have r: "is_valid_operator_role oper signer ZapProtocolFee = Ok ()"
    and h: "handle_zap_protocol_fee ctx q v m = Ok (q', v', x)"
    using assms(1) by (auto simp: zap_protocol_fee_def rbind_Ok_iff)
  have o: "op_whitelisted_address oper = signer" "is_permission_allow oper ZapProtocolFee"
    using r by (auto simp: is_valid_operator_role_def split: if_splits)
  obtain is_a paired where c: "zap_claim (zc_ids ctx) q is_a m = Ok (q', x, paired)" "0 < x"
    and mint: "zc_token_mint ctx = (if is_a then pl_token_a_mint q else pl_token_b_mint q)"
    and z: "validate_zap_out_to_treasury (zc_ids ctx) (zc_instructions ctx) (zc_current_index ctx)
      x (zc_receiver ctx) paired = Ok ()"
    by (rule handle_zap_protocol_fee_Ok [OF h]) blast
  have "search_and_validate_zap_out_instruction (zc_ids ctx) (zc_instructions ctx)
      (zc_current_index ctx) x (zc_receiver ctx) paired = Ok ()"
    using z by (auto simp: validate_zap_out_to_treasury_def require_Ok_iff split: if_splits)
  note s = search_zap_out_Ok [OF this]
  let ?other = "if is_a then pl_token_b_mint q else pl_token_a_mint q"
  have other: "{zc_token_mint ctx, ?other} = {pl_token_a_mint q, pl_token_b_mint q}"
    using mint by auto
  have fees: "unat (pl_protocol_a_fee q) + unat (pl_protocol_b_fee q) =
      unat (pl_protocol_a_fee q') + unat (pl_protocol_b_fee q') + unat x"
    using zap_claim_Ok(1,2) [OF c(1)] by (cases is_a) simp_all
  show ?thesis
    unfolding Let_def
    using o c(2) fees zap_claim_Ok(3,4) [OF c(1)] s other
      zap_destination_is_of_treasury [OF c(1) assms(2)]
    unfolding zaps_to_treasury_def by metis
qed

text \<open>The accounts of the treasury for three mints, and a zap that swaps into one of them.\<close>

definition example_treasury :: addresses where
  "example_treasury = example_addresses\<lparr>ad_derive := (\<lambda>seeds program.
     (if seeds ! 2 = key_bytes 2 then 1002 else if seeds ! 2 = key_bytes 3 then 1003 else 90, 255))\<rparr>"

definition example_zap_ids :: zap_ids where
  "example_zap_ids =
     \<lparr> zi_program = 100, zi_zap_program = 200, zi_zap_out_discriminator = [3, 3, 3, 3, 3, 3, 3, 3],
       zi_damm_v2_swap_discriminator = [1, 2, 3, 4, 5, 6, 7, 8],
       zi_jup_route_discriminator = [4, 4, 4, 4, 4, 4, 4, 4],
       zi_jup_shared_route_discriminator = [5, 5, 5, 5, 5, 5, 5, 5],
       zi_decode_zap_out = (\<lambda>data. Ok \<lparr> zo_percentage = 100, zo_offset_amount_in = 8,
         zo_pre_user_token_balance = 5, zo_max_swap_amount = 300,
         zo_payload_data = [1, 2, 3, 4, 5, 6, 7, 8] \<rparr>),
       zi_decode_route = (\<lambda>data. Ok []), zi_decode_shared_route = (\<lambda>data. Ok []),
       zi_associated_token_address = (\<lambda>owner mint program.
         if mint = 2 then 1002 else if mint = 3 then 1003 else 90), zi_token_program = 50,
       zi_token_2022_program = 51, zi_treasury_usdc = 90, zi_treasury_sol = 90 \<rparr>"

lemma example_treasury_ids: "treasury_ids example_treasury 7 example_zap_ids"
  by (simp add: treasury_ids_def example_treasury_def example_zap_ids_def TREASURY_USDC_ADDRESS_def
      TREASURY_SOL_ADDRESS_def key_bytes_inject USDC_ADDRESS_def SOL_ADDRESS_def)

definition example_zap :: zap_context where
  "example_zap =
     \<lparr> zc_ids = example_zap_ids,
       zc_instructions = [\<lparr> in_program_id = 100, in_data = [], in_accounts = [] \<rparr>,
         \<lparr> in_program_id = 200, in_data = [3, 3, 3, 3, 3, 3, 3, 3],
           in_accounts = [1002, 100, 0, 0, 1002, 1003] \<rparr>],
       zc_current_index = 0, zc_token_vault = 4, zc_token_mint = 2, zc_token_mint_owner = 50,
       zc_token_program = 50, zc_token = plain_token,
       zc_receiver = \<lparr> rc_account = \<lparr> ta_key = 1002, ta_authority = Ok 33 \<rparr>, rc_amount = Ok 5 \<rparr>,
       zc_signer = 33 \<rparr>"

theorem zapped_fee_reaches_treasury_witness:
  "\<exists>q v x. zap_protocol_fee (operator_initialize 33 1024) 33 example_zap
      (start_pool\<lparr>pl_protocol_a_fee := 300\<rparr>) start_vaults 500 = Ok (q, v, x) \<and> 0 < x \<and> x \<le> 500"
proof -
  have "\<exists>r. zap_protocol_fee (operator_initialize 33 1024) 33 example_zap
      (start_pool\<lparr>pl_protocol_a_fee := 300\<rparr>) start_vaults 500 = Ok r"
    by (simp add: zap_protocol_fee_def is_valid_operator_role_def operator_initialize_def
        is_permission_allow_def handle_zap_protocol_fee_def validate_accounts_and_return_withdraw_direction_def
        MINTS_DISALLOWED_TO_ZAP_OUT_def USDC_ADDRESS_def SOL_ADDRESS_def zap_claim_def
        get_token_program_from_flag_def validate_ata_token_def validate_zap_out_to_treasury_def
        search_and_validate_zap_out_instruction_def extract_amm_accounts_and_info_def get_at_def
        get_upto_def get_from_def get_zap_amm_processor_def validate_payload_def
        extract_raw_zap_out_amm_info_def DAMM_V2_SWAP_SOURCE_ACCOUNT_INDEX_def
        DAMM_V2_SWAP_DESTINATION_ACCOUNT_INDEX_def DAMM_V2_SWAP_AMOUNT_IN_OFFSET_def
        validate_zap_parameters_def example_zap_def example_zap_ids_def start_pool_def start_vaults_def
        evaluation handler_eval cong: evaluation_cong)
  then obtain q v x where h: "zap_protocol_fee (operator_initialize 33 1024) 33 example_zap
      (start_pool\<lparr>pl_protocol_a_fee := 300\<rparr>) start_vaults 500 = Ok (q, v, x)" by (metis prod_cases3)
  have "treasury_ids example_treasury 7 (zc_ids example_zap)"
    by (simp add: example_zap_def example_treasury_ids)
  from zapped_fee_reaches_treasury [OF h this] h show ?thesis by blast
qed

section \<open>The creation of a pool\<close>

text \<open>A mint that the program accepts: of the first token program, harmless, or with a badge.\<close>

definition accepted_mint :: "mint_account \<Rightarrow> remaining_account list \<Rightarrow> nat \<Rightarrow> bool" where
  "accepted_mint mint rem i \<longleftrightarrow> mi_owner_is_token_program mint \<or>
     (\<not> mi_is_native_mint_2022 mint \<and>
       ((\<exists>es. mi_extensions mint = Ok es \<and> (\<forall>e\<in>set es. harmless_extension e)) \<or>
        (\<exists>badge. i < length rem \<and> rem ! i = BadgeAccount badge \<and> tb_token_mint badge = mi_key mint)))"

lemma check_mint_accepted: "check_mint mint rem i = Ok () \<Longrightarrow> accepted_mint mint rem i"
  by (auto simp: check_mint_def is_supported_mint_def accepted_mint_def rbind_Ok_iff require_Ok_iff
      supported_extensions_iff is_token_badge_initialized_def split: if_splits remaining_account.splits)

text \<open>What is promised of the pool that an instruction creates.\<close>

definition well_formed_pool :: "init_pool_context \<Rightarrow> pool \<Rightarrow> bool" where
  "well_formed_pool ctx q \<longleftrightarrow>
    accepted_mint (ip_token_a_mint ctx) (ip_remaining_accounts ctx) 0 \<and>
    accepted_mint (ip_token_b_mint ctx) (ip_remaining_accounts ctx) 1 \<and>
    MIN_SQRT_PRICE \<le> pl_sqrt_min_price q \<and> pl_sqrt_min_price q < pl_sqrt_max_price q \<and>
    pl_sqrt_max_price q \<le> MAX_SQRT_PRICE \<and>
    pl_sqrt_min_price q \<le> pl_sqrt_price q \<and> pl_sqrt_price q \<le> pl_sqrt_max_price q \<and>
    0 < pl_liquidity q \<and> wf_pool_fees (pl_pool_fees q) \<and>
    (\<exists>h m t. info_get_base_fee_handler (pf_base_fee (pl_pool_fees q)) = Ok h \<and>
      collect_fee_mode_of_u8 (pl_collect_fee_mode q) = Some m \<and>
      activation_type_of_u8 (pl_activation_type q) = Some t \<and> handler_validate h m t = Ok ())"

lemma customizable_parameters_well_formed:
  assumes "initialize_customizable_pool_parameters_validate clk params = Ok ()"
    and "check_mint (ip_token_a_mint ctx) (ip_remaining_accounts ctx) 0 = Ok ()"
      "check_mint (ip_token_b_mint ctx) (ip_remaining_accounts ctx) 1 = Ok ()"
    and "customizable_pool ctx partner params = Ok (q, p)"
  shows "well_formed_pool ctx q"
proof -
  obtain m t where
    val: "MIN_SQRT_PRICE \<le> ic_sqrt_min_price params" "ic_sqrt_max_price params \<le> MAX_SQRT_PRICE"
      "ic_sqrt_min_price params \<le> ic_sqrt_price params" "ic_sqrt_price params \<le> ic_sqrt_max_price params"
      "ic_sqrt_min_price params < ic_sqrt_max_price params" "0 < ic_liquidity params" and
    mt: "collect_fee_mode_of_u8 (ic_collect_fee_mode params) = Some m"
      "activation_type_of_u8 (ic_activation_type params) = Some t" and
    fees: "pool_fee_parameters_validate (ic_pool_fees params) m t = Ok ()"
    using assms(1) unfolding initialize_customizable_pool_parameters_validate_def
    by (auto simp: rbind_Ok_iff require_Ok_iff ok_or_Ok_iff)
  obtain f where f: "to_pool_fees_struct (ic_pool_fees params) (ic_sqrt_price params) = Ok f"
    and q: "pl_pool_fees q = f" "pl_sqrt_min_price q = ic_sqrt_min_price params"
      "pl_sqrt_max_price q = ic_sqrt_max_price params" "pl_sqrt_price q = ic_sqrt_price params"
      "pl_liquidity q = ic_liquidity params" "pl_collect_fee_mode q = ic_collect_fee_mode params"
      "pl_activation_type q = ic_activation_type params"
    using assms(4) by (auto simp: customizable_pool_def Let_def rbind_Ok_iff position_initialize_def
        pool_initialize_def)
  show ?thesis
    using val mt assms(2,3) [THEN check_mint_accepted] to_pool_fees_struct_wf [OF fees f]
    unfolding well_formed_pool_def q by blast
qed

lemma config_pool_well_formed:
  assumes "handle_create_static_config clk index st = Ok cfg"
    and "handle_initialize_pool ctx cfg params = Ok (q, v, p)"
  shows "well_formed_pool ctx q"
proof -
  note c = handle_create_static_config_Ok [OF assms(1)]
  obtain m t where mt: "collect_fee_mode_of_u8 (cf_collect_fee_mode cfg) = Some m"
      "activation_type_of_u8 (cf_activation_type cfg) = Some t"
    and fees: "pool_fee_parameters_validate (st_pool_fees st) m t = Ok ()"
      "to_pool_fees_config (st_pool_fees st) = Ok (cf_pool_fees cfg)"
    using c(5) by blast
  obtain point where
    mints: "check_mint (ip_token_a_mint ctx) (ip_remaining_accounts ctx) 0 = Ok ()"
      "check_mint (ip_token_b_mint ctx) (ip_remaining_accounts ctx) 1 = Ok ()" and
    val: "0 < ii_liquidity params" "cf_sqrt_min_price cfg \<le> ii_sqrt_price params"
      "ii_sqrt_price params \<le> cf_sqrt_max_price cfg" and
    created: "config_pool ctx cfg params point = Ok (q, p)"
    using assms(2) by (auto simp: handle_initialize_pool_def rbind_Ok_iff require_Ok_iff)
  obtain f where f: "to_pool_fees_struct (st_pool_fees st) (ii_sqrt_price params) = Ok f"
    using to_pool_fees_struct_iff fees(2) by blast
  have q: "pl_pool_fees q = f" "pl_sqrt_min_price q = cf_sqrt_min_price cfg"
      "pl_sqrt_max_price q = cf_sqrt_max_price cfg" "pl_sqrt_price q = ii_sqrt_price params"
      "pl_liquidity q = ii_liquidity params" "pl_collect_fee_mode q = cf_collect_fee_mode cfg"
      "pl_activation_type q = cf_activation_type cfg"
    using created config_fees_are_parameters [OF fees(2) f]
    by (auto simp: config_pool_def Let_def position_initialize_def pool_initialize_def)
  show ?thesis
    using c(1-3) val mt mints [THEN check_mint_accepted] to_pool_fees_struct_wf [OF fees(1) f]
    unfolding well_formed_pool_def q by blast
qed

text \<open>
  C37. A created pool is well formed, whichever of the three instructions creates it, from a static config
  that an operator created, from the parameters of its creator or from these under a dynamic config:
  both mints are accepted, the price range is not empty, lies in the global one and
  contains the price, the liquidity is positive, the fees are well formed, and the bytes of the base
  fee hold a handler that validates for the modes of the pool, so that every swap has a fee rate.
\<close>

theorem created_pool_is_well_formed:
  assumes "(\<exists>oper signer clk index st cfg params. create_config oper signer clk index st = Ok cfg \<and>
      handle_initialize_pool ctx cfg params = Ok (q, v, p)) \<or>
    (\<exists>params. handle_initialize_customizable_pool ctx params = Ok (q, v, p)) \<or>
    (\<exists>signer cfg params. handle_initialize_pool_with_dynamic_config ctx signer cfg params = Ok (q, v, p))"
  shows "well_formed_pool ctx q"
  using assms
proof (elim disjE exE conjE)
  fix oper signer clk index st cfg params
  assume "create_config oper signer clk index st = Ok cfg"
    and h: "handle_initialize_pool ctx cfg params = Ok (q, v, p)"
  then have "handle_create_static_config clk index st = Ok cfg"
    by (auto simp: create_config_def rbind_Ok_iff)
  from config_pool_well_formed [OF this h] show ?thesis .
next
  fix params assume "handle_initialize_customizable_pool ctx params = Ok (q, v, p)"
  then show ?thesis
    by (auto simp: handle_initialize_customizable_pool_def rbind_Ok_iff require_Ok_iff
        intro: customizable_parameters_well_formed)
next
  fix signer cfg params
  assume "handle_initialize_pool_with_dynamic_config ctx signer cfg params = Ok (q, v, p)"
  then show ?thesis
    by (auto simp: handle_initialize_pool_with_dynamic_config_def rbind_Ok_iff require_Ok_iff
        intro: customizable_parameters_well_formed split: if_splits)
qed

theorem created_pool_is_well_formed_witness:
  "handle_initialize_customizable_pool example_creation example_parameters =
      Ok (start_pool, start_vaults, start_position) \<and> well_formed_pool example_creation start_pool"
  using example_pool_created created_pool_is_well_formed [of example_creation start_pool] by blast

end
