(* ===== verification/Ledger.thy ===== *)
theory Ledger
  imports Reward_Solvency Entrypoint
begin

text \<open>
  The whole program: the accounts it owns, and its table of instructions in \<^verbatim>\<open>lib.rs\<close>. An instruction
  names the accounts it uses by their addresses; the addresses that are derived from a seed are given by the seed
  (an operator by the address it is for, a config by its index, a badge by its mint). What comes
  from outside the program (the clock, the mints, who signs, the results of calls to other
  programs) is part of the instruction.

  An account that does not exist, or that exists already when it is to be created, is an error of
  the account framework.
\<close>

record ledger =
  lg_operators :: "pubkey \<Rightarrow> operator option"
  lg_configs :: "u64 \<Rightarrow> config option"
  lg_badges :: "pubkey \<Rightarrow> token_badge option"
  lg_markets :: "pubkey \<Rightarrow> market option"

definition empty_ledger :: ledger where
  "empty_ledger =
     \<lparr> lg_operators = Map.empty, lg_configs = Map.empty, lg_badges = Map.empty, lg_markets = Map.empty \<rparr>"

definition load :: "('k \<Rightarrow> 'a option) \<Rightarrow> 'k \<Rightarrow> 'a result" where
  "load accounts k = (case accounts k of None \<Rightarrow> Inl Foreign | Some x \<Rightarrow> Ok x)"

definition create :: "('k \<Rightarrow> 'a option) \<Rightarrow> 'k \<Rightarrow> 'a \<Rightarrow> ('k \<Rightarrow> 'a option) result" where
  "create accounts k x = (case accounts k of None \<Rightarrow> Ok (accounts(k := Some x)) | Some _ \<Rightarrow> Inl Foreign)"

lemma load_Ok_iff [ok_iffs]: "load accounts k = Ok x \<longleftrightarrow> accounts k = Some x"
  by (simp add: load_def split: option.splits)

lemma create_Ok_iff [ok_iffs]:
  "create accounts k x = Ok accounts' \<longleftrightarrow> accounts k = None \<and> accounts' = accounts(k := Some x)"
  by (auto simp: create_def split: option.splits)

text \<open>The optional accounts of an instruction, by address.\<close>

datatype account_ref = BadgeRef pubkey | OperatorRef pubkey | OtherRef

definition load_remaining :: "ledger \<Rightarrow> account_ref list \<Rightarrow> remaining_account list" where
  "load_remaining L refs =
     List.map (\<lambda>r. case r of
         BadgeRef k \<Rightarrow> (case lg_badges L k of Some b \<Rightarrow> BadgeAccount b | None \<Rightarrow> OtherAccount)
       | OperatorRef k \<Rightarrow> (case lg_operators L k of Some x \<Rightarrow> OperatorAccount x | None \<Rightarrow> OtherAccount)
       | OtherRef \<Rightarrow> OtherAccount) refs"

section \<open>Instructions on the rewards of a pool\<close>

datatype reward_call =
  IxInitializeReward mint_account "account_ref list" pubkey pubkey u8 u64 pubkey
| IxFundReward clock token pubkey u8 u64 bool
| IxWithdrawIneligibleReward clock token pubkey u8
| IxUpdateRewardFunder "account_ref list" pubkey u8 pubkey
| IxUpdateRewardDuration clock "account_ref list" pubkey u8 u64

fun reward_tokens :: "reward_call \<Rightarrow> token list" where
  "reward_tokens (IxFundReward clk t funder i x carry_forward) = [t]"
| "reward_tokens (IxWithdrawIneligibleReward clk t funder i) = [t]"
| "reward_tokens _ = []"

fun execute_reward :: "ledger \<Rightarrow> reward_call \<Rightarrow> market \<Rightarrow> market result" where
  "execute_reward L (IxInitializeReward mint refs signer vault_key reward_index reward_duration funder) m =
     rbind (handle_initialize_reward mint (load_remaining L refs) signer vault_key (mk_pool m) reward_index
       reward_duration funder) (\<lambda>q.
     Ok (m\<lparr>mk_pool := q, mk_reward_vaults := (mk_reward_vaults m)
       (unat reward_index := \<lparr> rv_key = vault_key, rv_is_frozen = False, rv_amount = 0 \<rparr>)\<rparr>))"
| "execute_reward L (IxFundReward clk t funder reward_index x carry_forward) m =
     rbind (handle_fund_reward clk t funder (mk_pool m) (mk_reward_vaults m (unat reward_index))
       reward_index x carry_forward) (\<lambda>(q, rv).
     Ok (m\<lparr>mk_pool := q, mk_reward_vaults := (mk_reward_vaults m)(unat reward_index := rv)\<rparr>))"
| "execute_reward L (IxWithdrawIneligibleReward clk t funder reward_index) m =
     rbind (handle_withdraw_ineligible_reward clk t funder (mk_pool m)
       (mk_reward_vaults m (unat reward_index)) reward_index) (\<lambda>(q, rv, _).
     Ok (m\<lparr>mk_pool := q, mk_reward_vaults := (mk_reward_vaults m)(unat reward_index := rv)\<rparr>))"
| "execute_reward L (IxUpdateRewardFunder refs signer reward_index new_funder) m =
     rbind (handle_update_reward_funder (load_remaining L refs) signer (mk_pool m) reward_index
       new_funder) (\<lambda>q. Ok (m\<lparr>mk_pool := q\<rparr>))"
| "execute_reward L (IxUpdateRewardDuration clk refs signer reward_index new_duration) m =
     rbind (handle_update_reward_duration clk (load_remaining L refs) signer (mk_pool m) reward_index
       new_duration) (\<lambda>q. Ok (m\<lparr>mk_pool := q\<rparr>))"

section \<open>Instructions of the operators and the partner on a pool\<close>

datatype operator_call =
  IxSetPoolStatus u8
| IxClaimProtocolFee claim_context u64 u64
| IxZapProtocolFee zap_context u64
| IxUpdatePoolFees clock update_pool_fees_parameters

fun operator_tokens :: "operator_call \<Rightarrow> token list" where
  "operator_tokens (IxClaimProtocolFee cc max_amount_a max_amount_b) = [cl_token_a cc, cl_token_b cc]"
| "operator_tokens (IxZapProtocolFee zc max_amount) = [zc_token zc]"
| "operator_tokens _ = []"

fun execute_operator :: "operator \<Rightarrow> pubkey \<Rightarrow> operator_call \<Rightarrow> market \<Rightarrow> market result" where
  "execute_operator oper signer (IxSetPoolStatus status) m =
     rbind (ix_set_pool_status oper signer (mk_pool m) status) (\<lambda>q. Ok (m\<lparr>mk_pool := q\<rparr>))"
| "execute_operator oper signer (IxClaimProtocolFee cc max_amount_a max_amount_b) m =
     rbind (ix_claim_protocol_fee oper signer cc (mk_pool m) (mk_vaults m) max_amount_a max_amount_b)
       (\<lambda>(q, v, _, _). Ok (m\<lparr>mk_pool := q, mk_vaults := v\<rparr>))"
| "execute_operator oper signer (IxZapProtocolFee zc max_amount) m =
     rbind (zap_protocol_fee oper signer zc (mk_pool m) (mk_vaults m) max_amount)
       (\<lambda>(q, v, _). Ok (m\<lparr>mk_pool := q, mk_vaults := v\<rparr>))"
| "execute_operator oper signer (IxUpdatePoolFees clk params) m =
     rbind (ix_update_pool_fees oper signer clk (mk_pool m) params) (\<lambda>q. Ok (m\<lparr>mk_pool := q\<rparr>))"

section \<open>Instructions of the users on a pool\<close>

text \<open>
  \<open>IxFastSwap\<close> is what reaches the fast entry point of the program; \<^verbatim>\<open>swap\<close> and \<^verbatim>\<open>swap2\<close> of the
  table of \<^verbatim>\<open>lib.rs\<close> do nothing, because the fast entry point takes their data first. The claim of
  the partner, deprecated but there, is signed by the partner and has no other access control.
\<close>

datatype user_call =
  IxClaimPartnerFee token token pubkey u64 u64
| IxCreatePosition clock "unit result" pubkey pubkey
| IxAddLiquidity liquidity_context pubkey add_liquidity_parameters
| IxRemoveLiquidity liquidity_context pubkey remove_liquidity_parameters
| IxRemoveAllLiquidity liquidity_context pubkey u64 u64
| IxClosePosition position_accounts "unit result" pubkey
| IxFastSwap entry_context pubkey "p_account list" bytes
| IxSwap
| IxSwap2
| IxClaimPositionFee liquidity_context pubkey
| IxLockPosition clock position_accounts pubkey pubkey vesting_parameters
| IxRefreshVesting clock position_accounts pubkey "pubkey list"
| IxPermanentLockPosition clock position_accounts pubkey u128
| IxClaimReward clock position_accounts token pubkey u8 u8
| IxSplitPosition clock position_accounts position_accounts pubkey pubkey split_position_parameters
| IxSplitPosition2 clock position_accounts position_accounts pubkey pubkey u32

fun user_tokens :: "user_call \<Rightarrow> token list" where
  "user_tokens (IxClaimPartnerFee ta tb partner max_amount_a max_amount_b) = [ta, tb]"
| "user_tokens (IxAddLiquidity ctx k params) = [lc_token_a ctx, lc_token_b ctx]"
| "user_tokens (IxRemoveLiquidity ctx k rparams) = [lc_token_a ctx, lc_token_b ctx]"
| "user_tokens (IxRemoveAllLiquidity ctx k ta_threshold tb_threshold) = [lc_token_a ctx, lc_token_b ctx]"
| "user_tokens (IxFastSwap ec program_id accounts data) = [ec_token_a ec, ec_token_b ec]"
| "user_tokens (IxClaimPositionFee ctx k) = [lc_token_a ctx, lc_token_b ctx]"
| "user_tokens (IxClaimReward clk acc t k i skip) = [t]"
| "user_tokens _ = []"

definition update_position :: "market \<Rightarrow> pubkey \<Rightarrow> position \<Rightarrow> market" where
  "update_position m k p = m\<lparr>mk_positions := (mk_positions m)(k := Some p)\<rparr>"

fun execute_user :: "pubkey \<Rightarrow> user_call \<Rightarrow> market \<Rightarrow> market result" where
  "execute_user pool_key (IxClaimPartnerFee ta tb partner max_amount_a max_amount_b) m =
     rbind (handle_claim_partner_fee ta tb partner (mk_pool m) (mk_vaults m) max_amount_a max_amount_b)
       (\<lambda>(q, v, _, _). Ok (m\<lparr>mk_pool := q, mk_vaults := v\<rparr>))"
| "execute_user pool_key (IxCreatePosition clk nft k mint) m =
     rbind (handle_create_position clk nft (mk_pool m) pool_key mint) (\<lambda>(q, p).
     rbind (create (mk_positions m) k p) (\<lambda>ps. Ok (m\<lparr>mk_pool := q, mk_positions := ps\<rparr>)))"
| "execute_user pool_key (IxAddLiquidity ctx k params) m =
     rbind (load (mk_positions m) k) (\<lambda>p.
     rbind (handle_add_liquidity ctx (mk_pool m) (mk_vaults m) p params) (\<lambda>(q, v, p, _).
     Ok (update_position (m\<lparr>mk_pool := q, mk_vaults := v\<rparr>) k p)))"
| "execute_user pool_key (IxRemoveLiquidity ctx k rparams) m =
     rbind (load (mk_positions m) k) (\<lambda>p.
     rbind (remove_liquidity ctx (mk_pool m) (mk_vaults m) p rparams) (\<lambda>(q, v, p, _).
     Ok (update_position (m\<lparr>mk_pool := q, mk_vaults := v\<rparr>) k p)))"
| "execute_user pool_key (IxRemoveAllLiquidity ctx k ta_threshold tb_threshold) m =
     rbind (load (mk_positions m) k) (\<lambda>p.
     rbind (remove_all_liquidity ctx (mk_pool m) (mk_vaults m) p ta_threshold tb_threshold)
       (\<lambda>(q, v, p, _).
     Ok (update_position (m\<lparr>mk_pool := q, mk_vaults := v\<rparr>) k p)))"
| "execute_user pool_key (IxClosePosition acc nft k) m =
     rbind (load (mk_positions m) k) (\<lambda>p.
     rbind (handle_close_position acc nft (mk_pool m) p) (\<lambda>q.
     Ok (m\<lparr>mk_pool := q, mk_positions := (mk_positions m)(k := None)\<rparr>)))"
| "execute_user pool_key (IxFastSwap ec program_id accounts data) m =
     (if SWAP_IX_ACCOUNTS \<le> length accounts \<and> ac_key (accounts ! 1) \<noteq> pool_key then Inl Foreign
      else
        case p_entrypoint ec program_id accounts data (mk_pool m) (mk_vaults m) of
          None \<Rightarrow> Inl Foreign
        | Some r \<Rightarrow> rbind r (\<lambda>(q, v). Ok (m\<lparr>mk_pool := q, mk_vaults := v\<rparr>)))"
| "execute_user pool_key IxSwap m = Ok m"
| "execute_user pool_key IxSwap2 m = Ok m"
| "execute_user pool_key (IxClaimPositionFee ctx k) m =
     rbind (load (mk_positions m) k) (\<lambda>p.
     rbind (handle_claim_position_fee ctx (mk_pool m) (mk_vaults m) p) (\<lambda>(v, p, _, _).
     Ok (update_position (m\<lparr>mk_vaults := v\<rparr>) k p)))"
| "execute_user pool_key (IxLockPosition clk acc k kv vparams) m =
     rbind (load (mk_positions m) k) (\<lambda>p.
     rbind (handle_lock_position clk acc (mk_pool m) k p vparams) (\<lambda>(p, vst).
     rbind (create (mk_vestings m) kv vst) (\<lambda>vs.
     Ok ((update_position m k p)\<lparr>mk_vestings := vs\<rparr>))))"
| "execute_user pool_key (IxRefreshVesting clk acc k ks) m =
     rbind (load (mk_positions m) k) (\<lambda>p.
     rbind (handle_refresh_vesting clk acc (mk_pool m) k ks (mk_vestings m) p) (\<lambda>(vs, p).
     Ok ((update_position m k p)\<lparr>mk_vestings := vs\<rparr>)))"
| "execute_user pool_key (IxPermanentLockPosition clk acc k liquidity) m =
     rbind (load (mk_positions m) k) (\<lambda>p.
     rbind (handle_permanent_lock_position clk acc (mk_pool m) p liquidity) (\<lambda>(q, p).
     Ok (update_position (m\<lparr>mk_pool := q\<rparr>) k p)))"
| "execute_user pool_key (IxClaimReward clk acc t k reward_index skip_reward) m =
     rbind (load (mk_positions m) k) (\<lambda>p.
     rbind (handle_claim_reward clk acc t (mk_pool m) (mk_reward_vaults m (unat reward_index)) p
       reward_index skip_reward) (\<lambda>(q, rv, p, _).
     Ok ((update_position (m\<lparr>mk_pool := q\<rparr>) k p)
       \<lparr>mk_reward_vaults := (mk_reward_vaults m)(unat reward_index := rv)\<rparr>)))"
| "execute_user pool_key (IxSplitPosition clk acc1 acc2 k1 k2 sparams) m =
     rbind (load (mk_positions m) k1) (\<lambda>p1.
     rbind (load (mk_positions m) k2) (\<lambda>p2.
     rbind (split_position clk acc1 acc2 (k1 = k2) (mk_pool m) p1 p2 sparams) (\<lambda>(q, p1, p2, _).
     Ok (update_position (update_position (m\<lparr>mk_pool := q\<rparr>) k1 p1) k2 p2))))"
| "execute_user pool_key (IxSplitPosition2 clk acc1 acc2 k1 k2 numerator) m =
     rbind (load (mk_positions m) k1) (\<lambda>p1.
     rbind (load (mk_positions m) k2) (\<lambda>p2.
     rbind (split_position2 clk acc1 acc2 (k1 = k2) (mk_pool m) p1 p2 numerator) (\<lambda>(q, p1, p2, _).
     Ok (update_position (update_position (m\<lparr>mk_pool := q\<rparr>) k1 p1) k2 p2))))"

section \<open>The table of instructions\<close>

datatype program_call =
  IxCreateOperatorAccount pubkey pubkey u128
| IxCloseOperatorAccount pubkey pubkey
| IxCreateConfig pubkey pubkey clock u64 static_config_parameters
| IxCreateDynamicConfig pubkey pubkey u64 pubkey
| IxCreateTokenBadge pubkey pubkey mint_account
| IxCloseConfig pubkey pubkey u64
| IxCloseTokenBadge pubkey pubkey pubkey
| IxInitializePool init_pool_context "account_ref list" u64 pubkey initialize_pool_parameters
| IxInitializePoolWithDynamicConfig init_pool_context "account_ref list" pubkey u64 pubkey
    initialize_customizable_pool_parameters
| IxInitializeCustomizablePool init_pool_context "account_ref list" pubkey
    initialize_customizable_pool_parameters
| OnReward pubkey reward_call
| OnOperator pubkey pubkey pubkey operator_call
| OnUser pubkey user_call

fun call_tokens :: "program_call \<Rightarrow> token list" where
  "call_tokens (IxInitializePool ctx refs index k iparams) = [ip_token_a ctx, ip_token_b ctx]"
| "call_tokens (IxInitializePoolWithDynamicConfig ctx refs signer index k cparams) =
     [ip_token_a ctx, ip_token_b ctx]"
| "call_tokens (IxInitializeCustomizablePool ctx refs k cparams) = [ip_token_a ctx, ip_token_b ctx]"
| "call_tokens (OnReward pool_key c) = reward_tokens c"
| "call_tokens (OnOperator oper_key signer pool_key oc) = operator_tokens oc"
| "call_tokens (OnUser pool_key uc) = user_tokens uc"
| "call_tokens _ = []"

definition on_market :: "ledger \<Rightarrow> pubkey \<Rightarrow> (market \<Rightarrow> market result) \<Rightarrow> ledger result" where
  "on_market L pool_key f =
     rbind (load (lg_markets L) pool_key) (\<lambda>m.
     rbind (f m) (\<lambda>m'. Ok (L\<lparr>lg_markets := (lg_markets L)(pool_key := Some m')\<rparr>)))"

definition new_market :: "ledger \<Rightarrow> pubkey \<Rightarrow> pubkey \<Rightarrow> (pool \<times> vaults \<times> position) result \<Rightarrow> ledger result" where
  "new_market L pool_key position_key r =
     rbind r (\<lambda>(q, v, p).
     rbind (create (lg_markets L) pool_key
       \<lparr> mk_pool = q, mk_vaults = v, mk_positions = Map.empty(position_key := Some p),
         mk_vestings = Map.empty,
         mk_reward_vaults = (\<lambda>_. \<lparr> rv_key = 0, rv_is_frozen = False, rv_amount = 0 \<rparr>) \<rparr>) (\<lambda>ms.
     Ok (L\<lparr>lg_markets := ms\<rparr>)))"

fun execute_program :: "ledger \<Rightarrow> program_call \<Rightarrow> ledger result" where
  "execute_program L (IxCreateOperatorAccount signer address permission) =
     rbind (create_operator_account signer address permission) (\<lambda>x.
     rbind (create (lg_operators L) address x) (\<lambda>xs. Ok (L\<lparr>lg_operators := xs\<rparr>)))"
| "execute_program L (IxCloseOperatorAccount signer address) =
     rbind (load (lg_operators L) address) (\<lambda>_.
     rbind (close_operator_account signer) (\<lambda>_.
     Ok (L\<lparr>lg_operators := (lg_operators L)(address := None)\<rparr>)))"
| "execute_program L (IxCreateConfig oper_key signer clk index sparams) =
     rbind (load (lg_operators L) oper_key) (\<lambda>oper.
     rbind (create_config oper signer clk index sparams) (\<lambda>c.
     rbind (create (lg_configs L) index c) (\<lambda>cs. Ok (L\<lparr>lg_configs := cs\<rparr>))))"
| "execute_program L (IxCreateDynamicConfig oper_key signer index authority) =
     rbind (load (lg_operators L) oper_key) (\<lambda>oper.
     rbind (create_dynamic_config oper signer index authority) (\<lambda>c.
     rbind (create (lg_configs L) index c) (\<lambda>cs. Ok (L\<lparr>lg_configs := cs\<rparr>))))"
| "execute_program L (IxCreateTokenBadge oper_key signer mint) =
     rbind (load (lg_operators L) oper_key) (\<lambda>oper.
     rbind (ix_create_token_badge oper signer mint) (\<lambda>b.
     rbind (create (lg_badges L) (mi_key mint) b) (\<lambda>bs. Ok (L\<lparr>lg_badges := bs\<rparr>))))"
| "execute_program L (IxCloseConfig oper_key signer index) =
     rbind (load (lg_operators L) oper_key) (\<lambda>oper.
     rbind (load (lg_configs L) index) (\<lambda>_.
     rbind (ix_close_config oper signer) (\<lambda>_.
     Ok (L\<lparr>lg_configs := (lg_configs L)(index := None)\<rparr>))))"
| "execute_program L (IxCloseTokenBadge oper_key signer mint_key) =
     rbind (load (lg_operators L) oper_key) (\<lambda>oper.
     rbind (load (lg_badges L) mint_key) (\<lambda>_.
     rbind (ix_close_token_badge oper signer) (\<lambda>_.
     Ok (L\<lparr>lg_badges := (lg_badges L)(mint_key := None)\<rparr>))))"
| "execute_program L (IxInitializePool ctx refs index k iparams) =
     rbind (load (lg_configs L) index) (\<lambda>c.
     new_market L (ip_pool_key ctx) k
       (handle_initialize_pool (ctx\<lparr>ip_remaining_accounts := load_remaining L refs\<rparr>) c iparams))"
| "execute_program L (IxInitializePoolWithDynamicConfig ctx refs signer index k cparams) =
     rbind (load (lg_configs L) index) (\<lambda>c.
     new_market L (ip_pool_key ctx) k
       (handle_initialize_pool_with_dynamic_config (ctx\<lparr>ip_remaining_accounts := load_remaining L refs\<rparr>)
         signer c cparams))"
| "execute_program L (IxInitializeCustomizablePool ctx refs k cparams) =
     new_market L (ip_pool_key ctx) k
       (handle_initialize_customizable_pool (ctx\<lparr>ip_remaining_accounts := load_remaining L refs\<rparr>) cparams)"
| "execute_program L (OnReward pool_key c) = on_market L pool_key (execute_reward L c)"
| "execute_program L (OnOperator oper_key signer pool_key oc) =
     rbind (load (lg_operators L) oper_key) (\<lambda>oper.
     on_market L pool_key (execute_operator oper signer oc))"
| "execute_program L (OnUser pool_key uc) = on_market L pool_key (execute_user pool_key uc)"

text \<open>
  A run of the program. A call that fails leaves the ledger as it was. Besides the calls, the issuer of a mint
  may freeze or thaw the vault of a reward.
\<close>

datatype ledger_event = Call program_call | Freeze pubkey nat bool

fun apply_event :: "ledger \<Rightarrow> ledger_event \<Rightarrow> ledger" where
  "apply_event L (Call c) = (case execute_program L c of Inl _ \<Rightarrow> L | Inr L' \<Rightarrow> L')"
| "apply_event L (Freeze pool_key i frozen) =
     (case lg_markets L pool_key of
        None \<Rightarrow> L
      | Some m \<Rightarrow> L\<lparr>lg_markets := (lg_markets L)(pool_key := Some (m\<lparr>mk_reward_vaults :=
          (mk_reward_vaults m)(i := (mk_reward_vaults m i)\<lparr>rv_is_frozen := frozen\<rparr>)\<rparr>))\<rparr>)"

fun run :: "ledger_event list \<Rightarrow> ledger \<Rightarrow> ledger" where
  "run [] L = L"
| "run (e # es) L = run es (apply_event L e)"

fun lawful :: "ledger_event \<Rightarrow> bool" where
  "lawful (Call c) \<longleftrightarrow> list_all token_law (call_tokens c)"
| "lawful (Freeze pool_key i frozen) \<longleftrightarrow> True"

section \<open>A call on a pool is a step of its market\<close>

lemma execute_reward_step:
  assumes "execute_reward L c m = Ok m'" and "list_all token_law (reward_tokens c)"
  shows "market_step m m'"
  using assms
  by (cases c) (auto simp: rbind_Ok_iff intro: market_step.intros)

lemma execute_operator_step:
  assumes "execute_operator x signer c m = Ok m'" and "list_all token_law (operator_tokens c)"
  shows "market_step m m'"
  using assms
  by (cases c) (auto simp: rbind_Ok_iff intro: market_step.intros)

text \<open>The calls of the users, those that carry more than one handler first.\<close>

lemma fast_swap_step:
  assumes "execute_user pool_key (IxFastSwap ec program_id accounts data) m = Ok m'"
    and laws: "token_law (ec_token_a ec)" "token_law (ec_token_b ec)"
  shows "market_step\<^sup>=\<^sup>= m m'"
proof -
  obtain q v where p: "p_entrypoint ec program_id accounts data (mk_pool m) (mk_vaults m) = Some (Ok (q, v))"
    and m': "m' = m\<lparr>mk_pool := q, mk_vaults := v\<rparr>"
    using assms(1) by (auto simp: rbind_Ok_iff split: if_splits option.splits)
  show ?thesis
    using p_entrypoint_Ok [OF p]
  proof
    assume "(q, v) = (mk_pool m, mk_vaults m)"
    then show ?thesis by (simp add: m')
  next
    assume "\<exists>params r. dispatched_swap ec accounts (mk_pool m) (mk_vaults m) params = Ok (q, v, r)"
    then obtain params r where "dispatched_swap ec accounts (mk_pool m) (mk_vaults m) params = Ok (q, v, r)"
      by blast
    then have "market_step m m'" unfolding dispatched_swap_def m' by (rule market_step.swap [OF _ laws])
    then show ?thesis by simp
  qed
qed

lemma split_step:
  assumes "mk_positions m k1 = Some p1" "mk_positions m k2 = Some p2"
    and "split_position_constraints acc1 acc2 (k1 = k2) p1 p2 = Ok u"
    and "handle_split_position2 clk (mk_pool m) p1 p2 sp = Ok (q, p1', p2', info)"
  shows "market_step m (update_position (update_position (m\<lparr>mk_pool := q\<rparr>) k1 p1') k2 p2')"
proof -
  have "k1 \<noteq> k2" using assms(3) by (auto simp: split_position_constraints_def require_Ok_iff split: if_splits)
  from market_step.split_position [OF assms(1,2) this assms(4)] show ?thesis
    by (simp add: update_position_def del: fun_upd_apply)
qed

lemma execute_user_step:
  assumes "execute_user pool_key c m = Ok m'" and "list_all token_law (user_tokens c)"
  shows "market_step\<^sup>=\<^sup>= m m'"
proof (cases c)
  case (IxFastSwap ec program_id accounts data)
  show ?thesis
    by (rule fast_swap_step [OF assms(1) [unfolded IxFastSwap]]) (use assms(2) IxFastSwap in simp_all)
next
  case (IxSplitPosition clk acc1 acc2 k1 k2 sp)
  then show ?thesis using assms(1)
    by (auto simp: ok_iffs split_position_def rbind_Ok_iff simp del: fun_upd_apply intro: split_step)
next
  case (IxSplitPosition2 clk acc1 acc2 k1 k2 n)
  then show ?thesis using assms(1)
    by (auto simp: ok_iffs split_position2_def rbind_Ok_iff simp del: fun_upd_apply intro: split_step)
next
  case (IxRemoveLiquidity ctx k params)
  then show ?thesis using assms
    by (auto simp: ok_iffs remove_liquidity_def update_position_def simp del: fun_upd_apply
        intro: market_step.remove)
next
  case (IxRemoveAllLiquidity ctx k a b)
  then show ?thesis using assms
    by (auto simp: ok_iffs remove_all_liquidity_def update_position_def simp del: fun_upd_apply
        intro: market_step.remove)
qed (use assms in \<open>auto simp: ok_iffs update_position_def simp del: fun_upd_apply intro: market_step.intros\<close>)

section \<open>What every run keeps\<close>

text \<open>
  The markets of the ledger can be reached by the steps of a market, its configs come from the two
  instructions that create them, and an operator and a badge are for the address they are stored under.
\<close>

definition known_config :: "config \<Rightarrow> bool" where
  "known_config c \<longleftrightarrow>
     (\<exists>clk index sp. handle_create_static_config clk index sp = Ok c) \<or>
     (\<exists>index authority. handle_create_dynamic_config index authority = Ok c)"

definition wf_ledger :: "ledger \<Rightarrow> bool" where
  "wf_ledger L \<longleftrightarrow>
     (\<forall>k m. lg_markets L k = Some m \<longrightarrow> reachable m) \<and>
     (\<forall>i c. lg_configs L i = Some c \<longrightarrow> known_config c) \<and>
     (\<forall>a x. lg_operators L a = Some x \<longrightarrow> op_whitelisted_address x = a) \<and>
     (\<forall>k b. lg_badges L k = Some b \<longrightarrow> tb_token_mint b = k)"

lemma wf_ledger_config: "wf_ledger L \<Longrightarrow> lg_configs L i = Some c \<Longrightarrow> known_config c"
  by (simp add: wf_ledger_def)

lemma wf_ledger_operator: "wf_ledger L \<Longrightarrow> lg_operators L a = Some x \<Longrightarrow> op_whitelisted_address x = a"
  by (simp add: wf_ledger_def)

lemma wf_empty_ledger: "wf_ledger empty_ledger"
  by (simp add: wf_ledger_def empty_ledger_def)

lemma reachable_step:
  assumes "reachable m" and "market_step\<^sup>=\<^sup>= m m'" shows "reachable m'"
  using assms unfolding reachable_def reachable_from_def
  by (auto intro: rtranclp.rtrancl_into_rtrancl)

lemma wf_ledger_market:
  "wf_ledger L \<Longrightarrow> reachable m \<Longrightarrow> wf_ledger (L\<lparr>lg_markets := (lg_markets L)(k := Some m)\<rparr>)"
  by (simp add: wf_ledger_def)

lemma wf_ledger_accounts:
  assumes "wf_ledger L"
  shows "op_whitelisted_address x = a \<Longrightarrow> wf_ledger (L\<lparr>lg_operators := (lg_operators L)(a := Some x)\<rparr>)"
    and "wf_ledger (L\<lparr>lg_operators := (lg_operators L)(a := None)\<rparr>)"
    and "known_config c \<Longrightarrow> wf_ledger (L\<lparr>lg_configs := (lg_configs L)(i := Some c)\<rparr>)"
    and "wf_ledger (L\<lparr>lg_configs := (lg_configs L)(i := None)\<rparr>)"
    and "tb_token_mint b = k \<Longrightarrow> wf_ledger (L\<lparr>lg_badges := (lg_badges L)(k := Some b)\<rparr>)"
    and "wf_ledger (L\<lparr>lg_badges := (lg_badges L)(k := None)\<rparr>)"
  using assms by (simp_all add: wf_ledger_def)

lemma created_accounts:
  "create_operator_account signer a permission = Ok x \<Longrightarrow> op_whitelisted_address x = a"
  "create_config oper signer clk index params = Ok c \<Longrightarrow> known_config c"
  "create_dynamic_config oper signer index authority = Ok c \<Longrightarrow> known_config c"
  "ix_create_token_badge oper signer mint = Ok b \<Longrightarrow> tb_token_mint b = mi_key mint"
  by (auto simp: ok_iffs known_config_def create_operator_account_def handle_create_operator_def
      operator_initialize_def create_config_def create_dynamic_config_def ix_create_token_badge_def
      handle_create_token_badge_def token_badge_initialize_def)

lemma on_market_wf:
  assumes "on_market L k f = Ok L'" and "wf_ledger L"
    and "\<And>m m'. f m = Ok m' \<Longrightarrow> market_step\<^sup>=\<^sup>= m m'"
  shows "wf_ledger L'"
proof -
  obtain m m' where m: "lg_markets L k = Some m" and f: "f m = Ok m'"
    and L': "L' = L\<lparr>lg_markets := (lg_markets L)(k := Some m')\<rparr>"
    using assms(1) by (auto simp: on_market_def ok_iffs simp del: fun_upd_apply)
  have "reachable m" using assms(2) m by (auto simp: wf_ledger_def)
  then have "reachable m'" using reachable_step assms(3) [OF f] by blast
  then show ?thesis unfolding L' by (rule wf_ledger_market [OF assms(2)])
qed

lemma dynamic_config_type:
  "handle_create_dynamic_config index authority = Ok c \<Longrightarrow> get_config_type c = Ok Dynamic"
  by (auto simp: handle_create_dynamic_config_def require_Ok_iff init_dynamic_config_def get_config_type_def
      config_type_of_u8_def)

lemma init_reachable: "market_init m \<Longrightarrow> reachable m"
  by (auto simp: reachable_def reachable_from_def)

lemma new_market_wf:
  assumes "new_market L pool_key k r = Ok L'" and "wf_ledger L"
    and "\<And>q v p rvs. r = Ok (q, v, p) \<Longrightarrow> reachable \<lparr> mk_pool = q, mk_vaults = v,
      mk_positions = Map.empty(k := Some p), mk_vestings = Map.empty, mk_reward_vaults = rvs \<rparr>"
  shows "wf_ledger L'"
proof -
  obtain q v p where r: "r = Ok (q, v, p)"
    and L': "L' = L\<lparr>lg_markets := (lg_markets L)(pool_key := Some
      \<lparr> mk_pool = q, mk_vaults = v, mk_positions = Map.empty(k := Some p), mk_vestings = Map.empty,
        mk_reward_vaults = (\<lambda>_. \<lparr> rv_key = 0, rv_is_frozen = False, rv_amount = 0 \<rparr>) \<rparr>)\<rparr>"
    using assms(1) by (auto simp: new_market_def ok_iffs simp del: fun_upd_apply)
  show ?thesis unfolding L' by (rule wf_ledger_market [OF assms(2) assms(3) [OF r]])
qed

lemma initialize_pool_reachable:
  assumes "known_config c" and "handle_initialize_pool ctx c params = Ok (q, v, p)"
    and "token_law (ip_token_a ctx)" "token_law (ip_token_b ctx)"
  shows "reachable \<lparr> mk_pool = q, mk_vaults = v, mk_positions = Map.empty(k := Some p),
    mk_vestings = Map.empty, mk_reward_vaults = rvs \<rparr>"
proof -
  have "get_config_type c = Ok Static"
    using assms(2) by (auto simp: handle_initialize_pool_def rbind_Ok_iff require_Ok_iff)
  then obtain clk index sp where "handle_create_static_config clk index sp = Ok c"
    using assms(1) dynamic_config_type by (fastforce simp: known_config_def)
  from init_reachable [OF market_init.static [OF this assms(2-4)]] show ?thesis .
qed

lemma load_remaining_tokens [simp]:
  "ip_token_a (ctx\<lparr>ip_remaining_accounts := r\<rparr>) = ip_token_a ctx"
  "ip_token_b (ctx\<lparr>ip_remaining_accounts := r\<rparr>) = ip_token_b ctx"
  by simp_all

lemma execute_program_wf:
  assumes "execute_program L c = Ok L'" and "wf_ledger L" and "list_all token_law (call_tokens c)"
  shows "wf_ledger L'"
proof (cases c)
  case (IxInitializePool ctx refs index k iparams)
  then obtain cfg where c: "known_config cfg" and n: "new_market L (ip_pool_key ctx) k
      (handle_initialize_pool (ctx\<lparr>ip_remaining_accounts := load_remaining L refs\<rparr>) cfg iparams) = Ok L'"
    using assms(1) wf_ledger_config [OF assms(2)] by (auto simp: ok_iffs)
  show ?thesis
    by (rule new_market_wf [OF n assms(2)], rule initialize_pool_reachable [OF c])
      (use assms(3) IxInitializePool in auto)
next
  case (IxInitializePoolWithDynamicConfig ctx refs signer index k cparams)
  then obtain cfg where n: "new_market L (ip_pool_key ctx) k
      (handle_initialize_pool_with_dynamic_config (ctx\<lparr>ip_remaining_accounts := load_remaining L refs\<rparr>)
        signer cfg cparams) = Ok L'"
    using assms(1) by (auto simp: ok_iffs)
  show ?thesis
    by (rule new_market_wf [OF n assms(2)], rule init_reachable, rule market_init.dynamic)
      (use assms(3) IxInitializePoolWithDynamicConfig in auto)
next
  case (IxInitializeCustomizablePool ctx refs k cparams)
  then have n: "new_market L (ip_pool_key ctx) k
      (handle_initialize_customizable_pool (ctx\<lparr>ip_remaining_accounts := load_remaining L refs\<rparr>)
        cparams) = Ok L'"
    using assms(1) by simp
  show ?thesis
    by (rule new_market_wf [OF n assms(2)], rule init_reachable, rule market_init.customizable)
      (use assms(3) IxInitializeCustomizablePool in auto)
next
  case (OnReward k rc)
  then show ?thesis using assms
    by (auto intro!: on_market_wf [OF _ assms(2)] dest: execute_reward_step)
next
  case (OnOperator a s k oc)
  then obtain x where "on_market L k (execute_operator x s oc) = Ok L'" using assms(1) by (auto simp: ok_iffs)
  then show ?thesis using assms(2,3) OnOperator
    by (elim on_market_wf) (auto dest: execute_operator_step)
next
  case (OnUser k uc)
  then show ?thesis using assms
    by (auto elim!: on_market_wf dest!: execute_user_step)
qed (use assms(1,2) in \<open>auto simp: ok_iffs simp del: fun_upd_apply intro: wf_ledger_accounts
  dest: created_accounts\<close>)

lemma apply_event_wf:
  assumes "wf_ledger L" and "lawful e" shows "wf_ledger (apply_event L e)"
proof (cases e)
  case (Call c)
  then show ?thesis using assms execute_program_wf [of L c] by (auto split: sum.split)
next
  case (Freeze k i frozen)
  show ?thesis
  proof (cases "lg_markets L k")
    case None
    then show ?thesis using assms(1) Freeze by simp
  next
    case (Some m)
    then have "reachable m" using assms(1) by (auto simp: wf_ledger_def)
    then have "reachable (m\<lparr>mk_reward_vaults := (mk_reward_vaults m)
        (i := (mk_reward_vaults m i)\<lparr>rv_is_frozen := frozen\<rparr>)\<rparr>)"
      by (rule reachable_step) (simp add: market_step.freeze_reward_vault)
    then show ?thesis using Freeze Some wf_ledger_market [OF assms(1)] by (simp del: fun_upd_apply)
  qed
qed

lemma run_wf:
  "wf_ledger L \<Longrightarrow> list_all lawful es \<Longrightarrow> wf_ledger (run es L)"
  by (induction es arbitrary: L) (simp_all add: apply_event_wf)

lemma run_append: "run (es @ es') L = run es' (run es L)"
  by (induction es arbitrary: L) simp_all

section \<open>Who may do what\<close>

text \<open>
  The permission that \<^verbatim>\<open>lib.rs\<close> asks for, and who signs. The first two instructions ask for an admin.
\<close>

fun required_permission :: "program_call \<Rightarrow> (pubkey \<times> operator_permission) option" where
  "required_permission (IxCreateConfig oper_key signer clk index sparams) = Some (signer, CreateConfigKey)"
| "required_permission (IxCreateDynamicConfig oper_key signer index authority) = Some (signer, CreateConfigKey)"
| "required_permission (IxCreateTokenBadge oper_key signer mint) = Some (signer, CreateTokenBadge)"
| "required_permission (IxCloseConfig oper_key signer index) = Some (signer, RemoveConfigKey)"
| "required_permission (IxCloseTokenBadge oper_key signer mint_key) = Some (signer, CloseTokenBadge)"
| "required_permission (OnOperator oper_key signer pool_key oc) = Some (signer,
     case oc of
       IxSetPoolStatus status \<Rightarrow> SetPoolStatus
     | IxClaimProtocolFee cc max_amount_a max_amount_b \<Rightarrow> ClaimProtocolFee
     | IxZapProtocolFee zc max_amount \<Rightarrow> ZapProtocolFee
     | IxUpdatePoolFees clk params \<Rightarrow> UpdatePoolFees)"
| "required_permission _ = None"

lemma is_valid_operator_role_Ok_iff [ok_iffs]:
  "is_valid_operator_role x s p = Ok u \<longleftrightarrow> op_whitelisted_address x = s \<and> is_permission_allow x p"
  by (simp add: is_valid_operator_role_def)

lemma execute_operator_role:
  assumes "execute_operator x s oc m = Ok m'"
    and "required_permission (OnOperator a s k oc) = Some (s, p)"
  shows "op_whitelisted_address x = s \<and> is_permission_allow x p"
  using assms
  by (cases oc) (auto simp: ok_iffs ix_set_pool_status_def ix_claim_protocol_fee_def zap_protocol_fee_def
      ix_update_pool_fees_def)

text \<open>An operator that exists was appointed by an admin, with the permissions it has.\<close>

definition appointed :: "ledger_event list \<Rightarrow> pubkey \<Rightarrow> u128 \<Rightarrow> bool" where
  "appointed es a permission \<longleftrightarrow>
     (\<exists>s. Call (IxCreateOperatorAccount s a permission) \<in> set es \<and> s \<in> set ADMINS)"

definition appointed_operator :: "ledger_event list \<Rightarrow> pubkey \<Rightarrow> operator \<Rightarrow> bool" where
  "appointed_operator es a x \<longleftrightarrow> op_whitelisted_address x = a \<and> appointed es a (op_permission x)"

lemma execute_program_operators:
  assumes "execute_program L c = Ok L'" and "lg_operators L' a = Some x"
  shows "lg_operators L a = Some x \<or> appointed_operator [Call c] a x"
  using assms
  by (cases c)
    (auto simp: ok_iffs on_market_def new_market_def create_operator_account_def is_admin_def assert_eq_admin_def
      handle_create_operator_def operator_initialize_def appointed_def appointed_operator_def split: if_splits)

lemma apply_event_operators:
  assumes "lg_operators (apply_event L e) a = Some x"
  shows "lg_operators L a = Some x \<or> appointed_operator [e] a x"
  using assms execute_program_operators
  by (cases e) (auto split: sum.splits option.splits)

lemma run_operators:
  "lg_operators (run es L) a = Some x \<Longrightarrow> lg_operators L a = Some x \<or> appointed_operator es a x"
proof (induction es arbitrary: L)
  case (Cons e es)
  from Cons.IH [of "apply_event L e"] Cons.prems apply_event_operators [of L e a x]
  show ?case by (auto simp: appointed_def appointed_operator_def)
qed simp

lemma privileged_call_role:
  assumes "execute_program L c = Ok L'" and "required_permission c = Some (s, p)"
  shows "\<exists>a x. lg_operators L a = Some x \<and> op_whitelisted_address x = s \<and> is_permission_allow x p"
proof (cases c)
  case (OnOperator a t k oc)
  then obtain x m m' where "lg_operators L a = Some x" "execute_operator x t oc m = Ok m'"
    using assms(1) by (auto simp: ok_iffs on_market_def)
  moreover have "t = s" using assms(2) OnOperator by simp
  ultimately show ?thesis using execute_operator_role [of x s oc m m' a k p] assms(2) OnOperator by blast
qed (use assms in \<open>auto simp: ok_iffs create_config_def create_dynamic_config_def
  ix_create_token_badge_def ix_close_config_def ix_close_token_badge_def\<close>)

text \<open>The chain of authority: from the call to the operator to the admin.\<close>

lemma privileged_call_appointed:
  assumes "execute_program (run es empty_ledger) c = Ok L'" and "required_permission c = Some (s, p)"
  shows "\<exists>permission. appointed es s permission \<and> bit permission (nat_of_permission p)"
proof -
  obtain a x where x: "lg_operators (run es empty_ledger) a = Some x"
    and s: "op_whitelisted_address x = s" "is_permission_allow x p"
    using privileged_call_role [OF assms] by blast
  have "appointed_operator es a x" using run_operators [OF x] by (simp add: empty_ledger_def)
  then show ?thesis using s is_permission_allow_bit [of x p]
    by (auto simp: appointed_operator_def)
qed

lemma unprivileged_call_changes:
  assumes "execute_program L c = Ok L'" and "required_permission c = None"
  shows "lg_configs L' = lg_configs L" and "lg_badges L' = lg_badges L"
  using assms by (cases c; auto simp: ok_iffs on_market_def new_market_def)+

end
