(* ===== verification/Pool_Settings.thy ===== *)
theory Pool_Settings
  imports Ledger
begin

text \<open>
  What of a pool is fixed at its creation, and what only an operator changes. The identity of a pool
  (its mints, vaults, price range, activation and modes) is never changed; its settings (the status,
  the base fee and the shares of the fee) are changed by the instructions of the operators only.
\<close>

definition identity :: "pool \<Rightarrow> pubkey list \<times> u128 list \<times> u64 \<times> u8 list" where
  "identity q =
     ([pl_token_a_mint q, pl_token_b_mint q, pl_token_a_vault q, pl_token_b_vault q, pl_whitelisted_vault q,
       pl_partner q, pl_creator q],
      [pl_sqrt_min_price q, pl_sqrt_max_price q], pl_activation_point q,
      [pl_activation_type q, pl_token_a_flag q, pl_token_b_flag q, pl_collect_fee_mode q, pl_pool_type q,
       pl_version q])"

definition settings :: "pool \<Rightarrow> u8 list \<times> base_fee_info \<times> u128" where
  "settings q =
     ([pl_pool_status q, pf_protocol_fee_percent (pl_pool_fees q), pf_partner_fee_percent (pl_pool_fees q),
       pf_referral_fee_percent (pl_pool_fees q)],
      pf_base_fee (pl_pool_fees q), pf_init_sqrt_price (pl_pool_fees q))"

definition same_settings :: "pool \<Rightarrow> pool \<Rightarrow> bool" where
  "same_settings q q' \<longleftrightarrow> identity q' = identity q \<and> settings q' = settings q"

lemmas settings_defs = same_settings_def identity_def settings_def

lemma same_settings_refl [simp]: "same_settings q q"
  by (simp add: same_settings_def)

lemma same_settings_trans: "same_settings q r \<Longrightarrow> same_settings r s \<Longrightarrow> same_settings q s"
  by (simp add: same_settings_def)

section \<open>The parts of the handlers\<close>

text \<open>Every other field of a pool may change.\<close>

lemma same_settings_after [simp]:
  "same_settings q (r\<lparr>pl_sqrt_price := x_sqrt_price\<rparr>) = same_settings q r"
  "same_settings q (r\<lparr>pl_liquidity := x_liquidity\<rparr>) = same_settings q r"
  "same_settings q (r\<lparr>pl_fee_a_per_liquidity := x_fee_a_per_liquidity\<rparr>) = same_settings q r"
  "same_settings q (r\<lparr>pl_fee_b_per_liquidity := x_fee_b_per_liquidity\<rparr>) = same_settings q r"
  "same_settings q (r\<lparr>pl_protocol_a_fee := x_protocol_a_fee\<rparr>) = same_settings q r"
  "same_settings q (r\<lparr>pl_protocol_b_fee := x_protocol_b_fee\<rparr>) = same_settings q r"
  "same_settings q (r\<lparr>pl_partner_a_fee := x_partner_a_fee\<rparr>) = same_settings q r"
  "same_settings q (r\<lparr>pl_partner_b_fee := x_partner_b_fee\<rparr>) = same_settings q r"
  "same_settings q (r\<lparr>pl_metrics := x_metrics\<rparr>) = same_settings q r"
  "same_settings q (r\<lparr>pl_reward_infos := x_reward_infos\<rparr>) = same_settings q r"
  "same_settings q (r\<lparr>pl_permanent_lock_liquidity := x_permanent_lock_liquidity\<rparr>) = same_settings q r"
  by (simp_all add: settings_defs)

lemma same_settings_before [simp]:
  "same_settings (r\<lparr>pl_sqrt_price := x_sqrt_price\<rparr>) q = same_settings r q"
  "same_settings (r\<lparr>pl_liquidity := x_liquidity\<rparr>) q = same_settings r q"
  "same_settings (r\<lparr>pl_fee_a_per_liquidity := x_fee_a_per_liquidity\<rparr>) q = same_settings r q"
  "same_settings (r\<lparr>pl_fee_b_per_liquidity := x_fee_b_per_liquidity\<rparr>) q = same_settings r q"
  "same_settings (r\<lparr>pl_protocol_a_fee := x_protocol_a_fee\<rparr>) q = same_settings r q"
  "same_settings (r\<lparr>pl_protocol_b_fee := x_protocol_b_fee\<rparr>) q = same_settings r q"
  "same_settings (r\<lparr>pl_partner_a_fee := x_partner_a_fee\<rparr>) q = same_settings r q"
  "same_settings (r\<lparr>pl_partner_b_fee := x_partner_b_fee\<rparr>) q = same_settings r q"
  "same_settings (r\<lparr>pl_metrics := x_metrics\<rparr>) q = same_settings r q"
  "same_settings (r\<lparr>pl_reward_infos := x_reward_infos\<rparr>) q = same_settings r q"
  "same_settings (r\<lparr>pl_permanent_lock_liquidity := x_permanent_lock_liquidity\<rparr>) q = same_settings r q"
  by (simp_all add: settings_defs)

lemma same_settings_dynamic_fee [simp]:
  "pl_pool_fees s = pl_pool_fees r \<Longrightarrow>
    same_settings q (r\<lparr>pl_pool_fees := (pl_pool_fees s)\<lparr>pf_dynamic_fee := df\<rparr>\<rparr>) = same_settings q r"
  by (simp add: settings_defs)

lemma pool_update_rewards_settings: "pool_update_rewards q t = Ok q' \<Longrightarrow> same_settings q q'"
  by (auto simp: pool_update_rewards_def rbind_Ok_iff)

lemma position_update_rewards_settings:
  "position_update_rewards p q t = Ok (q', p') \<Longrightarrow> same_settings q q'"
  by (auto simp: position_update_rewards_def rbind_Ok_iff dest: pool_update_rewards_settings split: if_splits)

lemma update_pre_swap_settings: "update_pre_swap q t = Ok q' \<Longrightarrow> same_settings q q'"
  by (auto simp: update_pre_swap_def rbind_Ok_iff split: if_splits)

lemma update_post_swap_settings:
  assumes "update_post_swap q x t = Ok q'" shows "same_settings q q'"
proof -
  obtain df where "q' = q\<lparr>pl_pool_fees := (pl_pool_fees q)\<lparr>pf_dynamic_fee := df\<rparr>\<rparr>"
    using update_post_swap_effect(1) [OF assms] by blast
  then show ?thesis by (simp only: same_settings_dynamic_fee same_settings_refl)
qed

lemma apply_swap_result_settings: "apply_swap_result q r fm t = Ok q' \<Longrightarrow> same_settings q q'"
  unfolding apply_swap_result_def Let_def
  by (auto simp: rbind_Ok_iff dest!: update_post_swap_settings split: if_splits)

lemma swap_settings:
  assumes "p_handle_swap ctx q v params = Ok (q', v', r)"
  shows "same_settings q q'"
proof -
  obtain q1 fm where "update_pre_swap q (unix_timestamp (sc_clock ctx)) = Ok q1"
    and "apply_swap_result q1 (pr_swap_result r) fm (unix_timestamp (sc_clock ctx)) = Ok q'"
    by (rule p_handle_swap_Ok [OF assms]) blast
  then show ?thesis
    using update_pre_swap_settings apply_swap_result_settings same_settings_trans by blast
qed

lemma claim_fees_settings:
  "claim_protocol_fee q ma mb = Ok (q', x, y) \<Longrightarrow> same_settings q q'"
  "claim_partner_fee q ma mb = Ok (q', x, y) \<Longrightarrow> same_settings q q'"
  by (auto simp: claim_protocol_fee_def claim_partner_fee_def rbind_Ok_iff Let_def)

section \<open>The instructions\<close>

lemma reward_settings:
  assumes "execute_reward L c m = Ok m'"
  shows "same_settings (mk_pool m) (mk_pool m')"
  using assms
proof (cases c)
  case (IxFundReward clk t funder i x cf)
  then show ?thesis using assms
    by (auto simp: rbind_Ok_iff require_Ok_iff handle_fund_reward_def intro: same_settings_trans
        dest!: pool_update_rewards_settings)
next
  case (IxWithdrawIneligibleReward clk t funder i)
  then show ?thesis using assms
    by (auto simp: rbind_Ok_iff require_Ok_iff handle_withdraw_ineligible_reward_def
        claim_ineligible_reward_def intro: same_settings_trans split: if_splits
        dest!: pool_update_rewards_settings)
qed (auto simp: rbind_Ok_iff handle_initialize_reward_def handle_update_reward_funder_def
    handle_update_reward_duration_def)

lemma split_settings:
  "handle_split_position2 clk q p1 p2 sp = Ok (q', p1', p2', info) \<Longrightarrow> same_settings q q'"
  by (auto simp: handle_split_position2_def rbind_Ok_iff require_Ok_iff dest: pool_update_rewards_settings)

lemma create_settings: "handle_create_position clk nft q key mint = Ok (q', p) \<Longrightarrow> same_settings q q'"
  by (auto simp: handle_create_position_def position_initialize_def rbind_Ok_iff require_Ok_iff Let_def)

lemma close_settings: "handle_close_position acc nft q p = Ok q' \<Longrightarrow> same_settings q q'"
  by (auto simp: handle_close_position_def rbind_Ok_iff require_Ok_iff)

lemma liquidity_settings:
  "handle_add_liquidity ctx q v p params = Ok (q', v', p', ch) \<Longrightarrow> same_settings q q'"
  "handle_remove_liquidity ctx q v p d ma mb = Ok (q', v', p', ch) \<Longrightarrow> same_settings q q'"
  by (auto simp: handle_add_liquidity_def handle_remove_liquidity_def apply_add_liquidity_def
      apply_remove_liquidity_def rbind_Ok_iff require_Ok_iff Let_def dest: position_update_rewards_settings)

lemma permanent_lock_settings:
  "handle_permanent_lock_position clk acc q p x = Ok (q', p') \<Longrightarrow> same_settings q q'"
  by (auto simp: handle_permanent_lock_position_def accumulate_permanent_locked_liquidity_def rbind_Ok_iff
      require_Ok_iff)

lemma claim_reward_settings:
  "handle_claim_reward clk acc t q rv p i skip = Ok (q', rv', p', x) \<Longrightarrow> same_settings q q'"
  by (auto simp: handle_claim_reward_def rbind_Ok_iff require_Ok_iff split: if_splits
      dest: position_update_rewards_settings)

lemma claim_partner_settings:
  "handle_claim_partner_fee ta tb partner q v ma mb = Ok (q', v', x, y) \<Longrightarrow> same_settings q q'"
  by (auto simp: handle_claim_partner_fee_def rbind_Ok_iff split: if_splits dest: claim_fees_settings)

lemma market_pool_update [simp]: "mk_pool (update_position m k p) = mk_pool m"
  by (simp add: update_position_def)

lemma fast_swap_settings:
  assumes "execute_user pool_key (IxFastSwap ec program_id accounts data) m = Ok m'"
  shows "same_settings (mk_pool m) (mk_pool m')"
proof -
  obtain q v where p: "p_entrypoint ec program_id accounts data (mk_pool m) (mk_vaults m) = Some (Ok (q, v))"
    and m': "m' = m\<lparr>mk_pool := q, mk_vaults := v\<rparr>"
    using assms(1) by (auto simp: rbind_Ok_iff split: if_splits option.splits)
  show ?thesis
    using p_entrypoint_Ok [OF p]
    by (auto simp: m' dispatched_swap_def swap_instruction_def rbind_Ok_iff dest: swap_settings)
qed

lemma user_settings:
  assumes "execute_user pool_key c m = Ok m'"
  shows "same_settings (mk_pool m) (mk_pool m')"
proof (cases c)
  case (IxFastSwap ec program_id accounts data)
  then show ?thesis using fast_swap_settings assms by blast
qed (use assms in \<open>auto simp: ok_iffs remove_liquidity_def remove_all_liquidity_def split_position_def
  split_position2_def dest: split_settings create_settings close_settings liquidity_settings
  permanent_lock_settings claim_reward_settings claim_partner_settings\<close>)

text \<open>An operator changes the settings, and the identity of the pool stays.\<close>

lemma same_settings_identity: "same_settings q q' \<Longrightarrow> identity q' = identity q"
  by (simp add: same_settings_def)

lemma operator_identity:
  assumes "execute_operator x signer c m = Ok m'"
  shows "identity (mk_pool m') = identity (mk_pool m)"
proof (cases c)
  case (IxUpdatePoolFees clk params)
  then obtain q where h: "handle_update_pool_fees clk (mk_pool m) params = Ok q" and m': "m' = m\<lparr>mk_pool := q\<rparr>"
    using assms by (auto simp: ix_update_pool_fees_def ok_iffs)
  obtain f where "q = (mk_pool m)\<lparr>pl_pool_fees := f\<rparr>" by (rule update_pool_fees_only_fees [OF h])
  then show ?thesis by (simp add: m' identity_def)
next
  case (IxSetPoolStatus s)
  then show ?thesis using assms
    by (auto simp: ix_set_pool_status_def handle_set_pool_status_def ok_iffs identity_def)
next
  case (IxClaimProtocolFee cc ma mb)
  then show ?thesis using assms
    by (auto simp: ix_claim_protocol_fee_def handle_claim_protocol_fee_def ok_iffs
        dest!: claim_fees_settings same_settings_identity)
next
  case (IxZapProtocolFee zc n)
  then show ?thesis using assms
    by (auto simp: zap_protocol_fee_def handle_zap_protocol_fee_def zap_claim_def ok_iffs Let_def split: if_splits
        dest!: claim_fees_settings same_settings_identity)
qed

text \<open>Of the calls of an operator, two change the settings.\<close>

definition sets_pool :: "operator_permission \<Rightarrow> bool" where
  "sets_pool p \<longleftrightarrow> p = SetPoolStatus \<or> p = UpdatePoolFees"

lemma operator_settings:
  assumes "execute_operator x signer c m = Ok m'"
  shows "settings (mk_pool m') = settings (mk_pool m) \<or>
    (\<exists>p. required_permission (OnOperator a signer k c) = Some (signer, p) \<and> sets_pool p)"
proof (cases c)
  case (IxClaimProtocolFee cc ma mb)
  then show ?thesis using assms
    by (auto simp: ix_claim_protocol_fee_def handle_claim_protocol_fee_def ok_iffs same_settings_def
        dest!: claim_fees_settings)
next
  case (IxZapProtocolFee zc n)
  then show ?thesis using assms
    by (auto simp: zap_protocol_fee_def handle_zap_protocol_fee_def zap_claim_def ok_iffs Let_def
        same_settings_def split: if_splits dest!: claim_fees_settings)
qed (simp_all add: sets_pool_def)

section \<open>Every call\<close>

text \<open>
  A pool that exists stays. A call changes its settings only if it is a call of an operator to
  that pool, with one of the two permissions.
\<close>

definition settings_call :: "pubkey \<Rightarrow> program_call \<Rightarrow> bool" where
  "settings_call k c \<longleftrightarrow>
     (\<exists>a s oc p. c = OnOperator a s k oc \<and> required_permission c = Some (s, p) \<and> sets_pool p)"

lemma on_market_pool:
  assumes "on_market L k' f = Ok L'" and "lg_markets L k = Some m"
    and "\<And>m m'. f m = Ok m' \<Longrightarrow> P (mk_pool m) (mk_pool m')" and "P (mk_pool m) (mk_pool m)"
  shows "\<exists>m'. lg_markets L' k = Some m' \<and> P (mk_pool m) (mk_pool m')"
  using assms by (auto simp: on_market_def ok_iffs)

lemma new_market_pool:
  "new_market L k' pk r = Ok L' \<Longrightarrow> lg_markets L k = Some m \<Longrightarrow> lg_markets L' k = Some m"
  by (auto simp: new_market_def ok_iffs)

definition pool_kept :: "bool \<Rightarrow> pool \<Rightarrow> pool \<Rightarrow> bool" where
  "pool_kept change q q' \<longleftrightarrow> identity q' = identity q \<and> (change \<or> settings q' = settings q)"

lemma pool_kept_refl [simp]: "pool_kept change q q"
  by (simp add: pool_kept_def)

lemma pool_kept_mono: "pool_kept c q q' \<Longrightarrow> (c \<Longrightarrow> c') \<Longrightarrow> pool_kept c' q q'"
  by (auto simp: pool_kept_def)

lemma pool_kept_trans: "pool_kept c q r \<Longrightarrow> pool_kept c r s \<Longrightarrow> pool_kept c q s"
  by (auto simp: pool_kept_def)

lemma same_settings_kept: "same_settings q q' \<Longrightarrow> pool_kept change q q'"
  by (simp add: same_settings_def pool_kept_def)

lemma execute_program_settings:
  assumes c: "execute_program L c = Ok L'" and k: "lg_markets L k = Some m"
  shows "\<exists>m'. lg_markets L' k = Some m' \<and> pool_kept (settings_call k c) (mk_pool m) (mk_pool m')"
proof (cases c)
  case (OnReward k' rc)
  then have "on_market L k' (execute_reward L rc) = Ok L'" using c by simp
  then show ?thesis by (rule on_market_pool [OF _ k]) (simp_all add: same_settings_kept [OF reward_settings])
next
  case (OnUser k' uc)
  then have "on_market L k' (execute_user k' uc) = Ok L'" using c by simp
  then show ?thesis by (rule on_market_pool [OF _ k]) (simp_all add: same_settings_kept [OF user_settings])
next
  case (OnOperator a s k' oc)
  then obtain x where e: "on_market L k' (execute_operator x s oc) = Ok L'" using c by (auto simp: ok_iffs)
  show ?thesis
  proof (cases "k' = k")
    case True
    then have "pool_kept (settings_call k c) (mk_pool m1) (mk_pool m2)"
      if "execute_operator x s oc m1 = Ok m2" for m1 m2
      using operator_identity [OF that] operator_settings [OF that, of a k] OnOperator
      by (auto simp: pool_kept_def settings_call_def)
    then show ?thesis by (intro on_market_pool [OF e k]) simp_all
  next
    case False
    then have "lg_markets L' k = Some m" using e k by (auto simp: on_market_def ok_iffs)
    then show ?thesis by simp
  qed
qed (use c k in \<open>auto simp: ok_iffs dest: new_market_pool\<close>)

section \<open>Every run\<close>

lemma apply_event_settings:
  assumes "lg_markets L k = Some m"
  shows "\<exists>m'. lg_markets (apply_event L e) k = Some m' \<and>
    pool_kept (\<exists>c L'. e = Call c \<and> execute_program L c = Ok L' \<and> settings_call k c) (mk_pool m) (mk_pool m')"
proof (cases e)
  case (Call c)
  then show ?thesis using execute_program_settings [OF _ assms] assms by (cases "execute_program L c") auto
qed (use assms in \<open>auto split: option.split\<close>)

text \<open>
  Along a run the identity of a pool is that of its creation, and whoever changed its settings was
  appointed by an admin before.
\<close>

definition set_by_appointed :: "pubkey \<Rightarrow> ledger_event list \<Rightarrow> ledger_event list \<Rightarrow> bool" where
  "set_by_appointed k es es' \<longleftrightarrow>
     (\<exists>c s p permission. Call c \<in> set es' \<and> settings_call k c \<and> required_permission c = Some (s, p) \<and>
        appointed (es @ es') s permission \<and> bit permission (nat_of_permission p))"

lemma appointed_mono: "appointed es s permission \<Longrightarrow> set es \<subseteq> set es' \<Longrightarrow> appointed es' s permission"
  by (auto simp: appointed_def)

lemma set_by_appointed_mono: "set_by_appointed k es es' \<Longrightarrow> set_by_appointed k es (es' @ [e])"
  unfolding set_by_appointed_def
  by (elim exE conjE, intro exI conjI) (auto intro: appointed_mono)

lemma set_by_appointed_call:
  assumes "execute_program (run es0 empty_ledger) c = Ok L'" and "settings_call k c" and "es0 = es @ es'"
  shows "set_by_appointed k es (es' @ [Call c])"
proof -
  obtain s p where p: "required_permission c = Some (s, p)" using assms(2) by (auto simp: settings_call_def)
  obtain permission where a: "appointed (es @ es') s permission" "bit permission (nat_of_permission p)"
    using privileged_call_appointed [OF assms(1) p] assms(3) by blast
  have "appointed (es @ es' @ [Call c]) s permission" by (rule appointed_mono [OF a(1)]) auto
  then show ?thesis using assms(2) p a(2) unfolding set_by_appointed_def
    by (intro exI [of _ c] exI [of _ s] exI [of _ p] exI [of _ permission]) simp
qed

lemma run_settings:
  assumes "lg_markets (run es empty_ledger) k = Some m"
  shows "\<exists>m'. lg_markets (run (es @ es') empty_ledger) k = Some m' \<and>
    pool_kept (set_by_appointed k es es') (mk_pool m) (mk_pool m')"
proof (induction es' rule: rev_induct)
  case Nil
  then show ?case using assms by simp
next
  case (snoc e es')
  then obtain m1 where m1: "lg_markets (run (es @ es') empty_ledger) k = Some m1"
    and k1: "pool_kept (set_by_appointed k es es') (mk_pool m) (mk_pool m1)" by blast
  let ?L = "run (es @ es') empty_ledger"
  obtain m2 where m2: "lg_markets (apply_event ?L e) k = Some m2"
    and k2: "pool_kept (\<exists>c L'. e = Call c \<and> execute_program ?L c = Ok L' \<and> settings_call k c)
      (mk_pool m1) (mk_pool m2)" using apply_event_settings [OF m1] by blast
  have later: "set_by_appointed k es (es' @ [e])"
    if "\<exists>c L'. e = Call c \<and> execute_program ?L c = Ok L' \<and> settings_call k c"
    using that set_by_appointed_call [OF _ _ refl] by (elim exE conjE) simp
  have "pool_kept (set_by_appointed k es (es' @ [e])) (mk_pool m) (mk_pool m2)"
    by (rule pool_kept_trans [OF pool_kept_mono [OF k1 set_by_appointed_mono] pool_kept_mono [OF k2 later]])
  moreover have "run (es @ es' @ [e]) empty_ledger = apply_event ?L e" by (simp add: run_append)
  ultimately show ?case using m2 by simp
qed

end
