(* ===== verification/Events.thy ===== *)
theory Events
  imports Pool_Settings
begin

text \<open>
  The events of \<^verbatim>\<open>event.rs\<close>, and which instruction logs which, from the calls of \<^verbatim>\<open>emit_cpi!\<close> at the end
  of the handlers. Each is a record with the fields of the source.

  An event names some accounts that the instruction uses for nothing else that is modelled: these are
  \<open>event_keys\<close>, given with the call.
\<close>

record event_keys =
  ek_owner :: pubkey
  ek_config :: pubkey
  ek_reward_mint :: pubkey

record split_position_info =
  spi_liquidity :: u128
  spi_fee_a :: u64
  spi_fee_b :: u64
  spi_reward_0 :: u64
  spi_reward_1 :: u64

record evt_close_config =
  xcc_config :: pubkey
  xcc_admin :: pubkey

record evt_create_config =
  xcs_pool_fees :: pool_fee_parameters
  xcs_vault_config_key :: pubkey
  xcs_pool_creator_authority :: pubkey
  xcs_activation_type :: u8
  xcs_sqrt_min_price :: u128
  xcs_sqrt_max_price :: u128
  xcs_collect_fee_mode :: u8
  xcs_index :: u64
  xcs_config :: pubkey

record evt_create_dynamic_config =
  xcd_config :: pubkey
  xcd_pool_creator_authority :: pubkey
  xcd_index :: u64

record evt_create_token_badge =
  xtb_token_mint :: pubkey

record evt_initialize_pool =
  xip_pool :: pubkey
  xip_token_a_mint :: pubkey
  xip_token_b_mint :: pubkey
  xip_creator :: pubkey
  xip_payer :: pubkey
  xip_alpha_vault :: pubkey
  xip_pool_fees :: pool_fee_parameters
  xip_sqrt_min_price :: u128
  xip_sqrt_max_price :: u128
  xip_activation_type :: u8
  xip_collect_fee_mode :: u8
  xip_liquidity :: u128
  xip_sqrt_price :: u128
  xip_activation_point :: u64
  xip_token_a_flag :: u8
  xip_token_b_flag :: u8
  xip_token_a_amount :: u64
  xip_token_b_amount :: u64
  xip_total_amount_a :: u64
  xip_total_amount_b :: u64
  xip_pool_type :: u8

record evt_claim_position_fee =
  xpf_pool :: pubkey
  xpf_position :: pubkey
  xpf_owner :: pubkey
  xpf_fee_a_claimed :: u64
  xpf_fee_b_claimed :: u64

record evt_create_position =
  xcp_pool :: pubkey
  xcp_owner :: pubkey
  xcp_position :: pubkey
  xcp_position_nft_mint :: pubkey

record evt_close_position =
  xlp_pool :: pubkey
  xlp_owner :: pubkey
  xlp_position :: pubkey
  xlp_position_nft_mint :: pubkey

record evt_swap2 =
  xsw_pool :: pubkey
  xsw_trade_direction :: u8
  xsw_collect_fee_mode :: u8
  xsw_has_referral :: bool
  xsw_params :: swap_parameters2
  xsw_swap_result :: swap_result
  xsw_included_transfer_fee_amount_in :: u64
  xsw_included_transfer_fee_amount_out :: u64
  xsw_excluded_transfer_fee_amount_out :: u64
  xsw_current_timestamp :: u64
  xsw_reserve_a_amount :: u64
  xsw_reserve_b_amount :: u64

record evt_lock_position =
  xlk_pool :: pubkey
  xlk_position :: pubkey
  xlk_owner :: pubkey
  xlk_vesting :: pubkey
  xlk_cliff_point :: u64
  xlk_period_frequency :: u64
  xlk_cliff_unlock_liquidity :: u128
  xlk_liquidity_per_period :: u128
  xlk_number_of_period :: u16

record evt_permanent_lock_position =
  xpl_pool :: pubkey
  xpl_position :: pubkey
  xpl_lock_liquidity_amount :: u128
  xpl_total_permanent_locked_liquidity :: u128

record evt_claim_protocol_fee =
  xpr_pool :: pubkey
  xpr_token_a_amount :: u64
  xpr_token_b_amount :: u64

record evt_claim_partner_fee =
  xpa_pool :: pubkey
  xpa_token_a_amount :: u64
  xpa_token_b_amount :: u64

record evt_set_pool_status =
  xst_pool :: pubkey
  xst_status :: u8

record evt_initialize_reward =
  xir_pool :: pubkey
  xir_reward_mint :: pubkey
  xir_funder :: pubkey
  xir_creator :: pubkey
  xir_reward_index :: u8
  xir_reward_duration :: u64

record evt_fund_reward =
  xfr_pool :: pubkey
  xfr_funder :: pubkey
  xfr_mint_reward :: pubkey
  xfr_reward_index :: u8
  xfr_amount :: u64
  xfr_transfer_fee_excluded_amount_in :: u64
  xfr_reward_duration_end :: u64
  xfr_pre_reward_rate :: u128
  xfr_post_reward_rate :: u128

record evt_claim_reward =
  xcr_pool :: pubkey
  xcr_position :: pubkey
  xcr_owner :: pubkey
  xcr_mint_reward :: pubkey
  xcr_reward_index :: u8
  xcr_total_reward :: u64

record evt_update_reward_duration =
  xrd_pool :: pubkey
  xrd_reward_index :: u8
  xrd_old_reward_duration :: u64
  xrd_new_reward_duration :: u64

record evt_update_reward_funder =
  xrf_pool :: pubkey
  xrf_reward_index :: u8
  xrf_old_funder :: pubkey
  xrf_new_funder :: pubkey

record evt_withdraw_ineligible_reward =
  xwi_pool :: pubkey
  xwi_reward_mint :: pubkey
  xwi_amount :: u64

record evt_split_position2 =
  xsp_pool :: pubkey
  xsp_first_owner :: pubkey
  xsp_second_owner :: pubkey
  xsp_first_position :: pubkey
  xsp_second_position :: pubkey
  xsp_current_sqrt_price :: u128
  xsp_amount_splits :: split_amount_info
  xsp_first_position_info :: split_position_info
  xsp_second_position_info :: split_position_info
  xsp_split_position_parameters :: split_position_parameters2

record evt_liquidity_change =
  xlc_pool :: pubkey
  xlc_position :: pubkey
  xlc_owner :: pubkey
  xlc_token_a_amount :: u64
  xlc_token_b_amount :: u64
  xlc_transfer_fee_included_token_a_amount :: u64
  xlc_transfer_fee_included_token_b_amount :: u64
  xlc_reserve_a_amount :: u64
  xlc_reserve_b_amount :: u64
  xlc_liquidity_delta :: u128
  xlc_token_a_amount_threshold :: u64
  xlc_token_b_amount_threshold :: u64
  xlc_change_type :: u8

record evt_update_pool_fees =
  xuf_pool :: pubkey
  xuf_operator :: pubkey
  xuf_params :: update_pool_fees_parameters

text \<open>What a program can log.\<close>

datatype program_event =
  EvtCloseConfig evt_close_config
| EvtCreateConfig evt_create_config
| EvtCreateDynamicConfig evt_create_dynamic_config
| EvtCreateTokenBadge evt_create_token_badge
| EvtInitializePool evt_initialize_pool
| EvtClaimPositionFee evt_claim_position_fee
| EvtCreatePosition evt_create_position
| EvtClosePosition evt_close_position
| EvtSwap2 evt_swap2
| EvtLockPosition evt_lock_position
| EvtPermanentLockPosition evt_permanent_lock_position
| EvtClaimProtocolFee evt_claim_protocol_fee
| EvtClaimPartnerFee evt_claim_partner_fee
| EvtSetPoolStatus evt_set_pool_status
| EvtInitializeReward evt_initialize_reward
| EvtFundReward evt_fund_reward
| EvtClaimReward evt_claim_reward
| EvtUpdateRewardDuration evt_update_reward_duration
| EvtUpdateRewardFunder evt_update_reward_funder
| EvtWithdrawIneligibleReward evt_withdraw_ineligible_reward
| EvtSplitPosition2 evt_split_position2
| EvtLiquidityChange evt_liquidity_change
| EvtUpdatePoolFees evt_update_pool_fees

section \<open>The events of the handlers\<close>

text \<open>A handler that fails logs nothing.\<close>

definition logged :: "program_event list result \<Rightarrow> program_event list" where
  "logged r = (case r of Inl _ \<Rightarrow> [] | Inr es \<Rightarrow> es)"

definition u8_of_trade_direction :: "trade_direction \<Rightarrow> u8" where
  "u8_of_trade_direction d = (case d of AtoB \<Rightarrow> 0 | BtoA \<Rightarrow> 1)"

subsection \<open>Creating a pool\<close>

definition create_position_event :: "pubkey \<Rightarrow> pubkey \<Rightarrow> pubkey \<Rightarrow> pubkey \<Rightarrow> program_event" where
  "create_position_event pool_key owner k nft_mint =
     EvtCreatePosition \<lparr> xcp_pool = pool_key, xcp_owner = owner, xcp_position = k,
       xcp_position_nft_mint = nft_mint \<rparr>"

text \<open>
  The values of \<^verbatim>\<open>EvtInitializePool\<close> that the handler computes are those it has just stored in the
  pool. The deposit is an argument: the amounts without and with the transfer fees.
\<close>

definition initialize_pool_event ::
  "init_pool_context \<Rightarrow> pool_fee_parameters \<Rightarrow> pool \<Rightarrow> u64 \<times> u64 \<times> u64 \<times> u64 \<Rightarrow> program_event" where
  "initialize_pool_event ctx pool_fees q deposit =
     (case deposit of (token_a_amount, token_b_amount, total_amount_a, total_amount_b) \<Rightarrow>
       EvtInitializePool
         \<lparr> xip_pool = ip_pool_key ctx, xip_token_a_mint = mi_key (ip_token_a_mint ctx),
           xip_token_b_mint = mi_key (ip_token_b_mint ctx), xip_creator = ip_creator ctx,
           xip_payer = ip_payer ctx, xip_alpha_vault = pl_whitelisted_vault q,
           xip_pool_fees = pool_fees, xip_sqrt_min_price = pl_sqrt_min_price q,
           xip_sqrt_max_price = pl_sqrt_max_price q, xip_activation_type = pl_activation_type q,
           xip_collect_fee_mode = pl_collect_fee_mode q, xip_liquidity = pl_liquidity q,
           xip_sqrt_price = pl_sqrt_price q, xip_activation_point = pl_activation_point q,
           xip_token_a_flag = pl_token_a_flag q, xip_token_b_flag = pl_token_b_flag q,
           xip_token_a_amount = token_a_amount, xip_token_b_amount = token_b_amount,
           xip_total_amount_a = total_amount_a, xip_total_amount_b = total_amount_b,
           xip_pool_type = pl_pool_type q \<rparr>)"

definition deposit_amounts :: "init_pool_context \<Rightarrow> pool \<Rightarrow> (u64 \<times> u64 \<times> u64 \<times> u64) result" where
  "deposit_amounts ctx q =
     rbind (get_initialize_amounts (pl_sqrt_min_price q) (pl_sqrt_max_price q) (pl_sqrt_price q)
       (pl_liquidity q)) (\<lambda>(token_a_amount, token_b_amount).
     rbind (calculate_transfer_fee_included_amount (ip_token_a ctx) token_a_amount) (\<lambda>total_a.
     rbind (calculate_transfer_fee_included_amount (ip_token_b ctx) token_b_amount) (\<lambda>total_b.
     Ok (token_a_amount, token_b_amount, xi_amount total_a, xi_amount total_b))))"

definition pool_events ::
  "init_pool_context \<Rightarrow> pubkey \<Rightarrow> pool_fee_parameters \<Rightarrow> pool \<Rightarrow> u64 \<times> u64 \<times> u64 \<times> u64 \<Rightarrow>
   program_event list" where
  "pool_events ctx k pool_fees q deposit =
     [create_position_event (ip_pool_key ctx) (ip_creator ctx) k (ip_position_nft_mint ctx),
      initialize_pool_event ctx pool_fees q deposit]"

definition initialize_pool_events ::
  "init_pool_context \<Rightarrow> config \<Rightarrow> pubkey \<Rightarrow> pool \<Rightarrow> program_event list result" where
  "initialize_pool_events ctx cfg k q =
     rbind (deposit_amounts ctx q) (\<lambda>deposit.
     rbind (to_pool_fee_parameters (cf_pool_fees cfg)) (\<lambda>pool_fees.
     Ok (pool_events ctx k pool_fees q deposit)))"

definition initialize_dynamic_pool_events ::
  "init_pool_context \<Rightarrow> initialize_customizable_pool_parameters \<Rightarrow> pubkey \<Rightarrow> pool \<Rightarrow>
   program_event list result" where
  "initialize_dynamic_pool_events ctx params k q =
     rbind (deposit_amounts ctx q) (\<lambda>deposit. Ok (pool_events ctx k (ic_pool_fees params) q deposit))"

definition initialize_customizable_pool_events ::
  "init_pool_context \<Rightarrow> initialize_customizable_pool_parameters \<Rightarrow> pubkey \<Rightarrow> pool \<Rightarrow>
   program_event list result" where
  "initialize_customizable_pool_events ctx params k q =
     rbind (deposit_amounts ctx q) (\<lambda>(token_a_amount, token_b_amount, total_amount_a, total_amount_b).
     Ok (pool_events ctx k (ic_pool_fees params) q
       (token_a_amount, token_b_amount, max total_amount_a 1, max total_amount_b 1)))"

subsection \<open>Swaps and liquidity\<close>

definition swap_event ::
  "swap_context \<Rightarrow> swap_parameters2 \<Rightarrow> pool \<Rightarrow> process_swap_result \<Rightarrow> program_event list result" where
  "swap_event ctx params q r =
     rbind (get_trade_direction (sc_input_token_account_mint ctx) (sc_token_a_mint_key ctx))
       (\<lambda>trade_direction.
     rbind (get_reserves_amount q) (\<lambda>(reserve_a_amount, reserve_b_amount).
     Ok [EvtSwap2
       \<lparr> xsw_pool = sc_pool_key ctx, xsw_trade_direction = u8_of_trade_direction trade_direction,
         xsw_collect_fee_mode = pl_collect_fee_mode q, xsw_has_referral = sc_has_referral ctx,
         xsw_params = params, xsw_swap_result = pr_swap_result r,
         xsw_included_transfer_fee_amount_in = pr_included_transfer_fee_amount_in r,
         xsw_included_transfer_fee_amount_out = pr_included_transfer_fee_amount_out r,
         xsw_excluded_transfer_fee_amount_out = pr_excluded_transfer_fee_amount_out r,
         xsw_current_timestamp = unix_timestamp (sc_clock ctx),
         xsw_reserve_a_amount = reserve_a_amount, xsw_reserve_b_amount = reserve_b_amount \<rparr>]))"

text \<open>The parameters of the swap that data for the fast entry point asks for, if it asks for one.\<close>

definition swap_of_data :: "entry_context \<Rightarrow> bytes \<Rightarrow> swap_parameters2 option" where
  "swap_of_data ctx data =
     (let ids = ec_ids ctx; swap_tag = id_swap_discriminator (ai_program ids);
          swap2_tag = id_swap2_discriminator (ai_program ids) in
      if \<not> starts_with data (ec_event_tag ctx) \<and>
         starts_with data swap_tag \<noteq> starts_with data swap2_tag then
        case (if starts_with data swap_tag
              then rbind (swap_parameters_deserialize (drop (length swap_tag) data))
                (\<lambda>p. Ok (to_swap_parameters2 p))
              else swap_parameters2_deserialize (drop (length swap2_tag) data)) of
          Inl _ \<Rightarrow> None
        | Inr params \<Rightarrow> Some params
      else None)"

definition fast_swap_events ::
  "entry_context \<Rightarrow> p_account list \<Rightarrow> bytes \<Rightarrow> market \<Rightarrow> program_event list result" where
  "fast_swap_events ctx accounts data m =
     (case swap_of_data ctx data of
        None \<Rightarrow> Ok []
      | Some params \<Rightarrow>
          rbind (dispatched_swap ctx accounts (mk_pool m) (mk_vaults m) params) (\<lambda>(q, v, r).
          swap_event (swap_context_of (ec_ids ctx) (ec_clock ctx)
            ((ec_transaction ctx)\<lparr>ti_remaining_accounts := map ac_key (drop SWAP_IX_ACCOUNTS accounts)\<rparr>)
            (ec_token_a ctx) (ec_token_b ctx) (take SWAP_IX_ACCOUNTS accounts)) params q r))"

definition liquidity_event ::
  "pubkey \<Rightarrow> pubkey \<Rightarrow> liquidity_context \<Rightarrow> u64 \<Rightarrow> u64 \<Rightarrow> u8 \<Rightarrow> pool \<Rightarrow> liquidity_change \<Rightarrow>
   program_event list result" where
  "liquidity_event pool_key k ctx token_a_amount_threshold token_b_amount_threshold change_type q ch =
     rbind (get_reserves_amount q) (\<lambda>(reserve_a_amount, reserve_b_amount).
     Ok [EvtLiquidityChange
       \<lparr> xlc_pool = pool_key, xlc_position = k, xlc_owner = pa_owner (lc_accounts ctx),
         xlc_token_a_amount = ch_token_a_amount ch, xlc_token_b_amount = ch_token_b_amount ch,
         xlc_transfer_fee_included_token_a_amount = ch_transfer_fee_included_token_a_amount ch,
         xlc_transfer_fee_included_token_b_amount = ch_transfer_fee_included_token_b_amount ch,
         xlc_reserve_a_amount = reserve_a_amount, xlc_reserve_b_amount = reserve_b_amount,
         xlc_liquidity_delta = ch_liquidity_delta ch,
         xlc_token_a_amount_threshold = token_a_amount_threshold,
         xlc_token_b_amount_threshold = token_b_amount_threshold,
         xlc_change_type = change_type \<rparr>])"

subsection \<open>Positions\<close>

definition lock_position_event ::
  "pubkey \<Rightarrow> position_accounts \<Rightarrow> pubkey \<Rightarrow> pubkey \<Rightarrow> vesting \<Rightarrow> program_event" where
  "lock_position_event pool_key acc k kv v =
     EvtLockPosition
       \<lparr> xlk_pool = pool_key, xlk_position = k, xlk_owner = pa_owner acc, xlk_vesting = kv,
         xlk_cliff_point = vs_cliff_point v, xlk_period_frequency = vs_period_frequency v,
         xlk_cliff_unlock_liquidity = vs_cliff_unlock_liquidity v,
         xlk_liquidity_per_period = vs_liquidity_per_period v,
         xlk_number_of_period = vs_number_of_period v \<rparr>"

definition get_split_position_info :: "position \<Rightarrow> split_position_info result" where
  "get_split_position_info p =
     rbind (get_total_liquidity p) (\<lambda>l.
     Ok \<lparr> spi_liquidity = l, spi_fee_a = ps_fee_a_pending p, spi_fee_b = ps_fee_b_pending p,
          spi_reward_0 = ur_reward_pendings (slot0 (ps_reward_infos p)),
          spi_reward_1 = ur_reward_pendings (slot1 (ps_reward_infos p)) \<rparr>)"

definition split_event ::
  "pubkey \<Rightarrow> position_accounts \<Rightarrow> position_accounts \<Rightarrow> pubkey \<Rightarrow> pubkey \<Rightarrow> split_position_parameters2 \<Rightarrow>
   pool \<times> position \<times> position \<times> split_amount_info \<Rightarrow> program_event list result" where
  "split_event pool_key acc1 acc2 k1 k2 params r =
     (case r of (q, p1, p2, info) \<Rightarrow>
       rbind (get_split_position_info p1) (\<lambda>info1.
       rbind (get_split_position_info p2) (\<lambda>info2.
       Ok [EvtSplitPosition2
         \<lparr> xsp_pool = pool_key, xsp_first_owner = pa_owner acc1, xsp_second_owner = pa_owner acc2,
           xsp_first_position = k1, xsp_second_position = k2,
           xsp_current_sqrt_price = pl_sqrt_price q, xsp_amount_splits = info,
           xsp_first_position_info = info1, xsp_second_position_info = info2,
           xsp_split_position_parameters = params \<rparr>])))"

subsection \<open>Rewards\<close>

definition fund_reward_event ::
  "event_keys \<Rightarrow> pubkey \<Rightarrow> clock \<Rightarrow> token \<Rightarrow> pubkey \<Rightarrow> u8 \<Rightarrow> u64 \<Rightarrow> bool \<Rightarrow> pool \<Rightarrow>
   program_event list result" where
  "fund_reward_event ek pool_key clk t funder reward_index x carry_forward q =
     rbind (calculate_transfer_fee_excluded_amount t x) (\<lambda>excluded.
     rbind (pool_update_rewards q (unix_timestamp clk)) (\<lambda>q.
     rbind (arr2_get (pl_reward_infos q) (unat reward_index)) (\<lambda>info0.
     rbind (funding_total info0 (xe_amount excluded) carry_forward) (\<lambda>(info, total_amount).
     rbind (update_rate_after_funding info (unix_timestamp clk) total_amount) (\<lambda>info.
     Ok [EvtFundReward
       \<lparr> xfr_pool = pool_key, xfr_funder = funder, xfr_mint_reward = ek_reward_mint ek,
         xfr_reward_index = reward_index, xfr_amount = total_amount,
         xfr_transfer_fee_excluded_amount_in = xe_amount excluded,
         xfr_reward_duration_end = rw_reward_duration_end info,
         xfr_pre_reward_rate = rw_reward_rate info0, xfr_post_reward_rate = rw_reward_rate info \<rparr>])))))"

fun reward_events :: "event_keys \<Rightarrow> pubkey \<Rightarrow> reward_call \<Rightarrow> market \<Rightarrow> program_event list result" where
  "reward_events ek pool_key (IxInitializeReward mint refs signer vault_key reward_index reward_duration funder) m =
     Ok [EvtInitializeReward
       \<lparr> xir_pool = pool_key, xir_reward_mint = mi_key mint, xir_funder = funder, xir_creator = signer,
         xir_reward_index = reward_index, xir_reward_duration = reward_duration \<rparr>]"
| "reward_events ek pool_key (IxFundReward clk t funder reward_index x carry_forward) m =
     fund_reward_event ek pool_key clk t funder reward_index x carry_forward (mk_pool m)"
| "reward_events ek pool_key (IxWithdrawIneligibleReward clk t funder reward_index) m =
     rbind (handle_withdraw_ineligible_reward clk t funder (mk_pool m)
       (mk_reward_vaults m (unat reward_index)) reward_index) (\<lambda>(q, rv, ineligible_reward).
     Ok [EvtWithdrawIneligibleReward
       \<lparr> xwi_pool = pool_key, xwi_reward_mint = ek_reward_mint ek, xwi_amount = ineligible_reward \<rparr>])"
| "reward_events ek pool_key (IxUpdateRewardFunder refs signer reward_index new_funder) m =
     rbind (arr2_get (pl_reward_infos (mk_pool m)) (unat reward_index)) (\<lambda>info.
     Ok [EvtUpdateRewardFunder
       \<lparr> xrf_pool = pool_key, xrf_reward_index = reward_index, xrf_old_funder = rw_funder info,
         xrf_new_funder = new_funder \<rparr>])"
| "reward_events ek pool_key (IxUpdateRewardDuration clk refs signer reward_index new_duration) m =
     rbind (arr2_get (pl_reward_infos (mk_pool m)) (unat reward_index)) (\<lambda>info.
     Ok [EvtUpdateRewardDuration
       \<lparr> xrd_pool = pool_key, xrd_reward_index = reward_index,
         xrd_old_reward_duration = rw_reward_duration info,
         xrd_new_reward_duration = new_duration \<rparr>])"

section \<open>The events of the instructions\<close>

text \<open>Events of calls on a pool, evaluated before the call. The zap of the protocol fee logs nothing.\<close>

fun operator_events ::
  "pubkey \<Rightarrow> operator \<Rightarrow> pubkey \<Rightarrow> operator_call \<Rightarrow> market \<Rightarrow> program_event list result" where
  "operator_events pool_key oper signer (IxSetPoolStatus status) m =
     Ok [EvtSetPoolStatus \<lparr> xst_pool = pool_key, xst_status = status \<rparr>]"
| "operator_events pool_key oper signer (IxClaimProtocolFee cc max_amount_a max_amount_b) m =
     rbind (ix_claim_protocol_fee oper signer cc (mk_pool m) (mk_vaults m) max_amount_a max_amount_b)
       (\<lambda>(q, v, token_a_amount, token_b_amount).
     Ok [EvtClaimProtocolFee
       \<lparr> xpr_pool = pool_key, xpr_token_a_amount = token_a_amount, xpr_token_b_amount = token_b_amount \<rparr>])"
| "operator_events pool_key oper signer (IxZapProtocolFee zc max_amount) m = Ok []"
| "operator_events pool_key oper signer (IxUpdatePoolFees clk params) m =
     Ok [EvtUpdatePoolFees \<lparr> xuf_pool = pool_key, xuf_operator = signer, xuf_params = params \<rparr>]"

fun user_events :: "event_keys \<Rightarrow> pubkey \<Rightarrow> user_call \<Rightarrow> market \<Rightarrow> program_event list result" where
  "user_events ek pool_key (IxClaimPartnerFee ta tb partner max_amount_a max_amount_b) m =
     rbind (handle_claim_partner_fee ta tb partner (mk_pool m) (mk_vaults m) max_amount_a max_amount_b)
       (\<lambda>(q, v, token_a_amount, token_b_amount).
     Ok [EvtClaimPartnerFee
       \<lparr> xpa_pool = pool_key, xpa_token_a_amount = token_a_amount, xpa_token_b_amount = token_b_amount \<rparr>])"
| "user_events ek pool_key (IxCreatePosition clk nft k mint) m =
     Ok [create_position_event pool_key (ek_owner ek) k mint]"
| "user_events ek pool_key (IxAddLiquidity ctx k params) m =
     rbind (load (mk_positions m) k) (\<lambda>p.
     rbind (handle_add_liquidity ctx (mk_pool m) (mk_vaults m) p params) (\<lambda>(q, v, p, ch).
     liquidity_event pool_key k ctx (al_token_a_amount_threshold params)
       (al_token_b_amount_threshold params) 0 q ch))"
| "user_events ek pool_key (IxRemoveLiquidity ctx k rparams) m =
     rbind (load (mk_positions m) k) (\<lambda>p.
     rbind (remove_liquidity ctx (mk_pool m) (mk_vaults m) p rparams) (\<lambda>(q, v, p, ch).
     liquidity_event pool_key k ctx (rm_token_a_amount_threshold rparams)
       (rm_token_b_amount_threshold rparams) 1 q ch))"
| "user_events ek pool_key (IxRemoveAllLiquidity ctx k ta_threshold tb_threshold) m =
     rbind (load (mk_positions m) k) (\<lambda>p.
     rbind (remove_all_liquidity ctx (mk_pool m) (mk_vaults m) p ta_threshold tb_threshold)
       (\<lambda>(q, v, p, ch). liquidity_event pool_key k ctx ta_threshold tb_threshold 1 q ch))"
| "user_events ek pool_key (IxClosePosition acc nft k) m =
     rbind (load (mk_positions m) k) (\<lambda>p.
     Ok [EvtClosePosition \<lparr> xlp_pool = pool_key, xlp_owner = pa_owner acc, xlp_position = k,
       xlp_position_nft_mint = ps_nft_mint p \<rparr>])"
| "user_events ek pool_key (IxFastSwap ec program_id accounts data) m = fast_swap_events ec accounts data m"
| "user_events ek pool_key IxSwap m = Ok []"
| "user_events ek pool_key IxSwap2 m = Ok []"
| "user_events ek pool_key (IxClaimPositionFee ctx k) m =
     rbind (load (mk_positions m) k) (\<lambda>p.
     rbind (handle_claim_position_fee ctx (mk_pool m) (mk_vaults m) p)
       (\<lambda>(v, p, fee_a_pending, fee_b_pending).
     Ok [EvtClaimPositionFee \<lparr> xpf_pool = pool_key, xpf_position = k,
       xpf_owner = pa_owner (lc_accounts ctx), xpf_fee_a_claimed = fee_a_pending,
       xpf_fee_b_claimed = fee_b_pending \<rparr>]))"
| "user_events ek pool_key (IxLockPosition clk acc k kv vparams) m =
     rbind (load (mk_positions m) k) (\<lambda>p.
     rbind (handle_lock_position clk acc (mk_pool m) k p vparams) (\<lambda>(p, vst).
     Ok [lock_position_event pool_key acc k kv vst]))"
| "user_events ek pool_key (IxRefreshVesting clk acc k ks) m = Ok []"
| "user_events ek pool_key (IxPermanentLockPosition clk acc k liquidity) m =
     rbind (load (mk_positions m) k) (\<lambda>p.
     rbind (handle_permanent_lock_position clk acc (mk_pool m) p liquidity) (\<lambda>(q, p).
     Ok [EvtPermanentLockPosition \<lparr> xpl_pool = pool_key, xpl_position = k,
       xpl_lock_liquidity_amount = liquidity,
       xpl_total_permanent_locked_liquidity = pl_permanent_lock_liquidity q \<rparr>]))"
| "user_events ek pool_key (IxClaimReward clk acc t k reward_index skip_reward) m =
     rbind (load (mk_positions m) k) (\<lambda>p.
     rbind (handle_claim_reward clk acc t (mk_pool m) (mk_reward_vaults m (unat reward_index)) p
       reward_index skip_reward) (\<lambda>(q, rv, p, total_reward).
     Ok [EvtClaimReward \<lparr> xcr_pool = pool_key, xcr_position = k, xcr_owner = pa_owner acc,
       xcr_mint_reward = ek_reward_mint ek, xcr_reward_index = reward_index,
       xcr_total_reward = total_reward \<rparr>]))"
| "user_events ek pool_key (IxSplitPosition clk acc1 acc2 k1 k2 sparams) m =
     rbind (load (mk_positions m) k1) (\<lambda>p1.
     rbind (load (mk_positions m) k2) (\<lambda>p2.
     rbind (get_split_position_parameters2 sparams) (\<lambda>params.
     rbind (split_position clk acc1 acc2 (k1 = k2) (mk_pool m) p1 p2 sparams)
       (split_event pool_key acc1 acc2 k1 k2 params))))"
| "user_events ek pool_key (IxSplitPosition2 clk acc1 acc2 k1 k2 numerator) m =
     rbind (load (mk_positions m) k1) (\<lambda>p1.
     rbind (load (mk_positions m) k2) (\<lambda>p2.
     rbind (split_position2 clk acc1 acc2 (k1 = k2) (mk_pool m) p1 p2 numerator)
       (split_event pool_key acc1 acc2 k1 k2 
         \<lparr> s2_unlocked_liquidity_numerator = numerator,
           s2_permanent_locked_liquidity_numerator = numerator,
           s2_fee_a_numerator = numerator, s2_fee_b_numerator = numerator,
           s2_reward_0_numerator = numerator, s2_reward_1_numerator = numerator \<rparr>)))"

text \<open>
  The events of any instruction that succeeds, evaluated on the ledger before it. Creating and closing
  an operator and closing a badge log nothing.
\<close>

definition market_events ::
  "ledger \<Rightarrow> pubkey \<Rightarrow> (market \<Rightarrow> program_event list result) \<Rightarrow> program_event list result" where
  "market_events L pool_key f = rbind (load (lg_markets L) pool_key) f"

fun instruction_events :: "event_keys \<Rightarrow> ledger \<Rightarrow> program_call \<Rightarrow> program_event list result" where
  "instruction_events ek L (IxCreateConfig oper_key signer clk index sparams) =
     Ok [EvtCreateConfig
       \<lparr> xcs_pool_fees = st_pool_fees sparams, xcs_vault_config_key = st_vault_config_key sparams,
         xcs_pool_creator_authority = st_pool_creator_authority sparams,
         xcs_activation_type = st_activation_type sparams, xcs_sqrt_min_price = st_sqrt_min_price sparams,
         xcs_sqrt_max_price = st_sqrt_max_price sparams,
         xcs_collect_fee_mode = st_collect_fee_mode sparams, xcs_index = index,
         xcs_config = ek_config ek \<rparr>]"
| "instruction_events ek L (IxCreateDynamicConfig oper_key signer index authority) =
     Ok [EvtCreateDynamicConfig
       \<lparr> xcd_config = ek_config ek, xcd_pool_creator_authority = authority, xcd_index = index \<rparr>]"
| "instruction_events ek L (IxCreateTokenBadge oper_key signer mint) =
     Ok [EvtCreateTokenBadge \<lparr> xtb_token_mint = mi_key mint \<rparr>]"
| "instruction_events ek L (IxCloseConfig oper_key signer index) =
     Ok [EvtCloseConfig \<lparr> xcc_config = ek_config ek, xcc_admin = signer \<rparr>]"
| "instruction_events ek L (IxInitializePool ctx refs index k iparams) =
     rbind (load (lg_configs L) index) (\<lambda>c.
     rbind (handle_initialize_pool (ctx\<lparr>ip_remaining_accounts := load_remaining L refs\<rparr>) c iparams)
       (\<lambda>(q, v, p). initialize_pool_events ctx c k q))"
| "instruction_events ek L (IxInitializePoolWithDynamicConfig ctx refs signer index k cparams) =
     rbind (load (lg_configs L) index) (\<lambda>c.
     rbind (handle_initialize_pool_with_dynamic_config
       (ctx\<lparr>ip_remaining_accounts := load_remaining L refs\<rparr>) signer c cparams)
       (\<lambda>(q, v, p). initialize_dynamic_pool_events ctx cparams k q))"
| "instruction_events ek L (IxInitializeCustomizablePool ctx refs k cparams) =
     rbind (handle_initialize_customizable_pool
       (ctx\<lparr>ip_remaining_accounts := load_remaining L refs\<rparr>) cparams)
       (\<lambda>(q, v, p). initialize_customizable_pool_events ctx cparams k q)"
| "instruction_events ek L (OnReward pool_key c) = market_events L pool_key (reward_events ek pool_key c)"
| "instruction_events ek L (OnOperator oper_key signer pool_key oc) =
     rbind (load (lg_operators L) oper_key) (\<lambda>oper.
     market_events L pool_key (operator_events pool_key oper signer oc))"
| "instruction_events ek L (OnUser pool_key uc) = market_events L pool_key (user_events ek pool_key uc)"
| "instruction_events ek L c = Ok []"

definition program_events :: "event_keys \<Rightarrow> ledger \<Rightarrow> program_call \<Rightarrow> program_event list" where
  "program_events ek L c =
     logged (rbind (execute_program L c) (\<lambda>_. instruction_events ek L c))"

end
