(* ===== verification/Event_Log.thy ===== *)
theory Event_Log
  imports Events
begin

text \<open>
  What the events tell. From them alone, without reading an account, one knows of every pool its price,
  its liquidity, how much of it is locked for ever, and its status.
\<close>

record pool_view =
  vw_sqrt_price :: u128
  vw_liquidity :: u128
  vw_permanent_lock :: u128
  vw_status :: u8

definition view :: "pool \<Rightarrow> pool_view" where
  "view q = \<lparr> vw_sqrt_price = pl_sqrt_price q, vw_liquidity = pl_liquidity q,
     vw_permanent_lock = pl_permanent_lock_liquidity q, vw_status = pl_pool_status q \<rparr>"

type_synonym views = "pubkey \<Rightarrow> pool_view option"

definition views_of :: "ledger \<Rightarrow> views" where
  "views_of L k = map_option (\<lambda>m. view (mk_pool m)) (lg_markets L k)"

definition revise :: "views \<Rightarrow> pubkey \<Rightarrow> (pool_view \<Rightarrow> pool_view) \<Rightarrow> views" where
  "revise s k f = s(k := map_option f (s k))"

text \<open>The observer: how an event changes what is known.\<close>

definition replay :: "program_event \<Rightarrow> views \<Rightarrow> views" where
  "replay e s =
     (case e of
        EvtInitializePool x \<Rightarrow> s(xip_pool x := Some
          \<lparr> vw_sqrt_price = xip_sqrt_price x, vw_liquidity = xip_liquidity x, vw_permanent_lock = 0,
            vw_status = 0 \<rparr>)
      | EvtSwap2 x \<Rightarrow> revise s (xsw_pool x)
          (\<lambda>w. w\<lparr>vw_sqrt_price := sr_next_sqrt_price (xsw_swap_result x)\<rparr>)
      | EvtLiquidityChange x \<Rightarrow> revise s (xlc_pool x)
          (\<lambda>w. w\<lparr>vw_liquidity := (if xlc_change_type x = 0 then vw_liquidity w + xlc_liquidity_delta x
             else vw_liquidity w - xlc_liquidity_delta x)\<rparr>)
      | EvtPermanentLockPosition x \<Rightarrow> revise s (xpl_pool x)
          (\<lambda>w. w\<lparr>vw_permanent_lock := xpl_total_permanent_locked_liquidity x\<rparr>)
      | EvtSetPoolStatus x \<Rightarrow> revise s (xst_pool x) (\<lambda>w. w\<lparr>vw_status := xst_status x\<rparr>)
      | _ \<Rightarrow> s)"

text \<open>The events of a call on a pool tell how it goes from one state to the next.\<close>

definition tells :: "pubkey \<Rightarrow> pool \<Rightarrow> program_event list result \<Rightarrow> pool \<Rightarrow> bool" where
  "tells k q r q' \<longleftrightarrow>
     (\<exists>es. r = Ok es \<and> (\<forall>s. s k = Some (view q) \<longrightarrow> fold replay es s = s(k := Some (view q'))))"

lemma tells_nothing: "view q' = view q \<Longrightarrow> tells k q (Ok []) q'"
  by (auto simp: tells_def fun_upd_triv)

lemma tells_quiet:
  "view q' = view q \<Longrightarrow> (\<And>s. replay e s = s) \<Longrightarrow> tells k q (Ok [e]) q'"
  by (auto simp: tells_def fun_upd_triv)

section \<open>What the instructions leave alone\<close>

lemma view_update [simp]:
  "view (r\<lparr>pl_fee_a_per_liquidity := x_fee_a_per_liquidity\<rparr>) = view r"
  "view (r\<lparr>pl_fee_b_per_liquidity := x_fee_b_per_liquidity\<rparr>) = view r"
  "view (r\<lparr>pl_protocol_a_fee := x_protocol_a_fee\<rparr>) = view r"
  "view (r\<lparr>pl_protocol_b_fee := x_protocol_b_fee\<rparr>) = view r"
  "view (r\<lparr>pl_partner_a_fee := x_partner_a_fee\<rparr>) = view r"
  "view (r\<lparr>pl_partner_b_fee := x_partner_b_fee\<rparr>) = view r"
  "view (r\<lparr>pl_metrics := x_metrics\<rparr>) = view r"
  "view (r\<lparr>pl_reward_infos := x_reward_infos\<rparr>) = view r"
  "view (r\<lparr>pl_pool_fees := x_pool_fees\<rparr>) = view r"
  by (simp_all add: view_def)

lemma pool_update_rewards_view: "pool_update_rewards q t = Ok q' \<Longrightarrow> view q' = view q"
  by (auto simp: pool_update_rewards_def rbind_Ok_iff)

lemma position_update_rewards_view: "position_update_rewards p q t = Ok (q', p') \<Longrightarrow> view q' = view q"
  by (auto simp: position_update_rewards_def rbind_Ok_iff dest: pool_update_rewards_view split: if_splits)

lemma claim_fees_view:
  "claim_protocol_fee q ma mb = Ok (q', x, y) \<Longrightarrow> view q' = view q"
  "claim_partner_fee q ma mb = Ok (q', x, y) \<Longrightarrow> view q' = view q"
  by (auto simp: claim_protocol_fee_def claim_partner_fee_def rbind_Ok_iff Let_def)

section \<open>Instructions on rewards and of operators\<close>

lemma reward_tells:
  assumes "execute_reward L c m = Ok m'"
  shows "tells k (mk_pool m) (reward_events ek k c m) (mk_pool m')"
proof (cases c)
  case (IxFundReward clk t funder i x cf)
  then obtain q rv where h: "handle_fund_reward clk t funder (mk_pool m) (mk_reward_vaults m (unat i)) i x cf =
      Ok (q, rv)" and m': "mk_pool m' = q"
    using assms by (auto simp: rbind_Ok_iff)
  have "view q = view (mk_pool m)"
    using h by (auto simp: handle_fund_reward_def rbind_Ok_iff require_Ok_iff dest!: pool_update_rewards_view)
  moreover obtain e where "reward_events ek k c m = Ok [EvtFundReward e]"
    using h unfolding IxFundReward
    by (auto simp: handle_fund_reward_def fund_reward_event_def rbind_Ok_iff require_Ok_iff)
  ultimately show ?thesis by (simp add: m' tells_quiet replay_def)
next
  case (IxWithdrawIneligibleReward clk t funder i)
  then obtain q rv x where h: "handle_withdraw_ineligible_reward clk t funder (mk_pool m)
      (mk_reward_vaults m (unat i)) i = Ok (q, rv, x)" and m': "mk_pool m' = q"
    using assms by (auto simp: rbind_Ok_iff)
  have "view q = view (mk_pool m)"
    using h by (auto simp: handle_withdraw_ineligible_reward_def claim_ineligible_reward_def rbind_Ok_iff
        require_Ok_iff split: if_splits dest!: pool_update_rewards_view)
  then show ?thesis by (simp add: m' IxWithdrawIneligibleReward h tells_quiet replay_def)
qed (use assms in \<open>auto simp: rbind_Ok_iff handle_initialize_reward_def handle_update_reward_funder_def
    handle_update_reward_duration_def replay_def intro!: tells_quiet\<close>)

lemma operator_tells:
  assumes "execute_operator x signer c m = Ok m'"
  shows "tells k (mk_pool m) (operator_events k x signer c m) (mk_pool m')"
proof (cases c)
  case (IxSetPoolStatus status)
  then have "handle_set_pool_status (mk_pool m) status = Ok (mk_pool m')"
    using assms by (auto simp: ix_set_pool_status_def rbind_Ok_iff)
  from handle_set_pool_status_Ok(1) [OF this]
  have "view (mk_pool m') = (view (mk_pool m))\<lparr>vw_status := status\<rparr>" by (simp add: view_def)
  then show ?thesis by (simp add: IxSetPoolStatus tells_def replay_def revise_def)
next
  case (IxClaimProtocolFee cc ma mb)
  then obtain q v a b where h: "ix_claim_protocol_fee x signer cc (mk_pool m) (mk_vaults m) ma mb = Ok (q, v, a, b)"
    and m': "mk_pool m' = q"
    using assms by (auto simp: rbind_Ok_iff)
  have "view q = view (mk_pool m)"
    using h by (auto simp: ix_claim_protocol_fee_def handle_claim_protocol_fee_def rbind_Ok_iff dest: claim_fees_view)
  then show ?thesis by (simp add: m' IxClaimProtocolFee h tells_quiet replay_def)
next
  case (IxZapProtocolFee zc n)
  then have "view (mk_pool m') = view (mk_pool m)"
    using assms by (auto simp: zap_protocol_fee_def handle_zap_protocol_fee_def zap_claim_def rbind_Ok_iff
        require_Ok_iff Let_def split: if_splits dest!: claim_fees_view)
  then show ?thesis by (simp add: IxZapProtocolFee tells_nothing)
next
  case (IxUpdatePoolFees clk params)
  then have "handle_update_pool_fees clk (mk_pool m) params = Ok (mk_pool m')"
    using assms by (auto simp: ix_update_pool_fees_def rbind_Ok_iff)
  then obtain f where "mk_pool m' = (mk_pool m)\<lparr>pl_pool_fees := f\<rparr>" by (rule update_pool_fees_only_fees)
  then show ?thesis by (simp add: IxUpdatePoolFees tells_quiet replay_def)
qed

section \<open>Swaps\<close>

lemma swap_view:
  assumes "p_handle_swap ctx q v params = Ok (q', v', r)"
  shows "view q' = (view q)\<lparr>vw_sqrt_price := sr_next_sqrt_price (pr_swap_result r)\<rparr>"
proof -
  obtain q1 fm where u: "update_pre_swap q (unix_timestamp (sc_clock ctx)) = Ok q1"
    and a: "apply_swap_result q1 (pr_swap_result r) fm (unix_timestamp (sc_clock ctx)) = Ok q'"
    by (rule p_handle_swap_Ok [OF assms]) blast
  have "view q1 = view q" using u by (auto simp: update_pre_swap_def rbind_Ok_iff split: if_splits)
  moreover have "pl_pool_status q' = pl_pool_status q1"
    using apply_swap_result_settings [OF a] by (simp add: same_settings_def settings_def)
  ultimately show ?thesis using apply_swap_result_effect(1,3,9) [OF a] by (simp add: view_def)
qed

lemma swap_reserves:
  "p_handle_swap ctx q v params = Ok (q', v', r) \<Longrightarrow> \<exists>a b. get_reserves_amount q' = Ok (a, b)"
  by (auto simp: p_handle_swap_def rbind_Ok_iff require_Ok_iff Let_def split: trade_direction.splits)
    (metis trade_direction.exhaust)

lemma swap_event_logged:
  assumes "p_handle_swap ctx q v params = Ok (q', v', r)"
  obtains x where "swap_event ctx params q' r = Ok [EvtSwap2 x]" and "xsw_pool x = sc_pool_key ctx"
    and "xsw_swap_result x = pr_swap_result r"
proof -
  obtain d where "get_trade_direction (sc_input_token_account_mint ctx) (sc_token_a_mint_key ctx) = Ok d"
    by (rule p_handle_swap_Ok [OF assms]) blast
  moreover obtain a b where "get_reserves_amount q' = Ok (a, b)" using swap_reserves [OF assms] by blast
  ultimately show thesis by (intro that) (simp add: swap_event_def, simp_all)
qed

text \<open>What succeeds at the fast entry point is a swap or changes nothing.\<close>

lemma entrypoint_swap_of_data:
  assumes "p_entrypoint ctx pid accounts data q v = Some (Ok (q', v'))"
  shows "case swap_of_data ctx data of
      None \<Rightarrow> q' = q
    | Some params \<Rightarrow> SWAP_IX_ACCOUNTS \<le> length accounts \<and>
        (\<exists>r. dispatched_swap ctx accounts q v params = Ok (q', v', r))"
  using assms
  by (auto simp: p_entrypoint_def swap_of_data_def Let_def dispatched_swap_def rbind_Ok_iff
      split: if_splits sum.splits)

lemma fast_swap_tells:
  assumes "execute_user k (IxFastSwap ec program_id accounts data) m = Ok m'"
  shows "tells k (mk_pool m) (fast_swap_events ec accounts data m) (mk_pool m')"
proof -
  let ?ctx = "swap_context_of (ec_ids ec) (ec_clock ec)
    ((ec_transaction ec)\<lparr>ti_remaining_accounts := map ac_key (drop SWAP_IX_ACCOUNTS accounts)\<rparr>)
    (ec_token_a ec) (ec_token_b ec) (take SWAP_IX_ACCOUNTS accounts)"
  obtain q v where p: "p_entrypoint ec program_id accounts data (mk_pool m) (mk_vaults m) = Some (Ok (q, v))"
    and m': "m' = m\<lparr>mk_pool := q, mk_vaults := v\<rparr>"
    and k: "SWAP_IX_ACCOUNTS \<le> length accounts \<Longrightarrow> ac_key (accounts ! 1) = k"
    using assms by (auto simp: rbind_Ok_iff split: if_splits option.splits)
  note e = entrypoint_swap_of_data [OF p]
  show ?thesis
  proof (cases "swap_of_data ec data")
    case None
    then show ?thesis using e by (simp add: fast_swap_events_def m' tells_nothing)
  next
    case (Some params)
    then obtain r where l: "SWAP_IX_ACCOUNTS \<le> length accounts"
      and d: "dispatched_swap ec accounts (mk_pool m) (mk_vaults m) params = Ok (q, v, r)" using e by auto
    then have h: "p_handle_swap ?ctx (mk_pool m) (mk_vaults m) params = Ok (q, v, r)"
      by (auto simp: dispatched_swap_def swap_instruction_def rbind_Ok_iff)
    obtain x where x: "swap_event ?ctx params q r = Ok [EvtSwap2 x]" "xsw_pool x = sc_pool_key ?ctx"
      "xsw_swap_result x = pr_swap_result r" by (rule swap_event_logged [OF h])
    have "sc_pool_key ?ctx = k" using k [OF l] l by (simp add: swap_context_of_def SWAP_IX_ACCOUNTS_def)
    then show ?thesis using x swap_view [OF h] Some d
      by (simp add: fast_swap_events_def m' tells_def replay_def revise_def)
  qed
qed

section \<open>Liquidity\<close>

lemma add_tells:
  assumes "handle_add_liquidity ctx q v p params = Ok (q', v', p', ch)"
  shows "tells k q (liquidity_event k j ctx ta tb 0 q' ch) q'"
proof -
  obtain q1 p1 a b where r: "position_update_rewards p q (unix_timestamp (lc_clock ctx)) = Ok (q1, p1)"
    and ap: "apply_add_liquidity q1 p1 (al_liquidity_delta params) = Ok (q', p')"
    and res: "get_reserves_amount q' = Ok (a, b)" and ch: "ch_liquidity_delta ch = al_liquidity_delta params"
    using assms by (auto simp: handle_add_liquidity_def rbind_Ok_iff require_Ok_iff)
  have "pl_liquidity q' = pl_liquidity q1 + al_liquidity_delta params"
    using ap by (auto simp: apply_add_liquidity_def rbind_Ok_iff safe_add_def checked_add_def split: if_splits)
  then have "view q' = (view q1)\<lparr>vw_liquidity := vw_liquidity (view q1) + ch_liquidity_delta ch\<rparr>"
    using ch by (subst apply_add_liquidity_effect(2) [OF ap]) (simp add: view_def)
  then show ?thesis using position_update_rewards_view [OF r]
    by (simp add: liquidity_event_def res tells_def replay_def revise_def)
qed

lemma remove_tells:
  assumes "handle_remove_liquidity ctx q v p dl ma mb = Ok (q', v', p', ch)"
  shows "tells k q (liquidity_event k j ctx ta tb 1 q' ch) q'"
proof -
  obtain q1 p1 d a b where r: "position_update_rewards p q (unix_timestamp (lc_clock ctx)) = Ok (q1, p1)"
    and ap: "apply_remove_liquidity q1 p1 d = Ok (q', p')"
    and res: "get_reserves_amount q' = Ok (a, b)" and ch: "ch_liquidity_delta ch = d"
    using assms by (auto simp: handle_remove_liquidity_def rbind_Ok_iff require_Ok_iff Let_def)
  have "pl_liquidity q' = pl_liquidity q1 - d"
    using ap by (auto simp: apply_remove_liquidity_def rbind_Ok_iff safe_sub_def checked_sub_def split: if_splits)
  then have "view q' = (view q1)\<lparr>vw_liquidity := vw_liquidity (view q1) - ch_liquidity_delta ch\<rparr>"
    using ch by (subst apply_remove_liquidity_effect(2) [OF ap]) (simp add: view_def)
  then show ?thesis using position_update_rewards_view [OF r]
    by (simp add: liquidity_event_def res tells_def replay_def revise_def)
qed

section \<open>Instructions of users\<close>

lemma other_views:
  "handle_create_position clk nft q key mint = Ok (q', p') \<Longrightarrow> view q' = view q"
  "handle_close_position acc nft q p = Ok q' \<Longrightarrow> view q' = view q"
  "handle_claim_partner_fee ta tb partner q v ma mb = Ok (q', v', x, y) \<Longrightarrow> view q' = view q"
  "handle_claim_reward clk acc t q rv p i skip = Ok (q', rv', p', z) \<Longrightarrow> view q' = view q"
  "handle_split_position2 clk q p p2 sp = Ok (q', p1', p2', info) \<Longrightarrow> view q' = view q"
  by (auto simp: handle_create_position_def position_initialize_def handle_close_position_def
      handle_claim_partner_fee_def handle_claim_reward_def handle_split_position2_def rbind_Ok_iff
      require_Ok_iff Let_def split: if_splits
      dest: claim_fees_view position_update_rewards_view pool_update_rewards_view)

lemma permanent_lock_view:
  "handle_permanent_lock_position clk acc q p x = Ok (q', p') \<Longrightarrow>
    view q' = (view q)\<lparr>vw_permanent_lock := pl_permanent_lock_liquidity q'\<rparr>"
  by (auto simp: handle_permanent_lock_position_def accumulate_permanent_locked_liquidity_def rbind_Ok_iff
      require_Ok_iff view_def)

lemma split_event_logged:
  assumes "handle_split_position2 clk q p1 p2 sp = Ok (q', p1', p2', info)"
  obtains x where "split_event k acc1 acc2 k1 k2 params (q', p1', p2', info) = Ok [EvtSplitPosition2 x]"
  using assms
  by (auto simp: handle_split_position2_def split_event_def get_split_position_info_def rbind_Ok_iff
      require_Ok_iff)

lemma split_tells:
  assumes h: "handle_split_position2 clk q p1 p2 sp = Ok (q', p1', p2', info)"
  shows "tells k q (split_event k acc1 acc2 k1 k2 params (q', p1', p2', info)) q'"
proof -
  obtain x where "split_event k acc1 acc2 k1 k2 params (q', p1', p2', info) = Ok [EvtSplitPosition2 x]"
    by (rule split_event_logged [OF h])
  then show ?thesis using other_views(5) [OF h] by (simp add: tells_quiet replay_def)
qed

lemma user_tells:
  assumes "execute_user k c m = Ok m'"
  shows "tells k (mk_pool m) (user_events ek k c m) (mk_pool m')"
proof (cases c)
  case (IxFastSwap ec program_id accounts data)
  then show ?thesis using fast_swap_tells [of k ec program_id accounts data m m'] assms by simp
next
  case (IxAddLiquidity ctx j params)
  then show ?thesis using assms by (auto simp: ok_iffs load_Ok_iff load_def intro: add_tells split: option.splits)
next
  case (IxRemoveLiquidity ctx j params)
  then show ?thesis using assms
    by (auto simp: ok_iffs load_def remove_liquidity_def intro: remove_tells split: option.splits)
next
  case (IxRemoveAllLiquidity ctx j ta tb)
  then show ?thesis using assms
    by (auto simp: ok_iffs load_def remove_all_liquidity_def intro: remove_tells split: option.splits)
next
  case (IxSplitPosition clk acc1 acc2 k1 k2 sp)
  then show ?thesis using assms
    by (auto simp: ok_iffs load_def split_position_def intro: split_tells split: option.splits)
next
  case (IxSplitPosition2 clk acc1 acc2 k1 k2 n)
  then show ?thesis using assms
    by (auto simp: ok_iffs load_def split_position2_def intro: split_tells split: option.splits)
next
  case (IxPermanentLockPosition clk acc j x)
  then show ?thesis using assms
    by (auto simp: ok_iffs load_def tells_def replay_def revise_def permanent_lock_view split: option.splits)
qed (use assms in \<open>auto simp: ok_iffs load_def replay_def create_position_event_def lock_position_event_def
  other_views intro!: tells_quiet tells_nothing split: option.splits\<close>)

section \<open>New pools\<close>

definition tells_new :: "pubkey \<Rightarrow> program_event list result \<Rightarrow> pool \<Rightarrow> bool" where
  "tells_new k r q \<longleftrightarrow> (\<exists>es. r = Ok es \<and> (\<forall>s. fold replay es s = s(k := Some (view q))))"

lemma new_pool_view:
  assumes "position_initialize (pool_initialize creator fees ma mb va vb wv partner lo hi pr ap aty fa fb l cm ty)
    key mint l = (q, p)"
  shows "view q = \<lparr> vw_sqrt_price = pl_sqrt_price q, vw_liquidity = pl_liquidity q,
    vw_permanent_lock = 0, vw_status = 0 \<rparr>"
  using assms by (auto simp: position_initialize_def pool_initialize_def view_def)

lemma pool_events_tell:
  assumes "view q = \<lparr> vw_sqrt_price = pl_sqrt_price q, vw_liquidity = pl_liquidity q,
    vw_permanent_lock = 0, vw_status = 0 \<rparr>"
  shows "fold replay (pool_events ctx k fees q deposit) s = s(ip_pool_key ctx := Some (view q))"
  by (simp add: pool_events_def create_position_event_def initialize_pool_event_def replay_def assms
      split: prod.split)

lemma config_pool_view:
  assumes "config_pool ctx cfg params ap = Ok (q, p)"
  shows "view q = \<lparr> vw_sqrt_price = pl_sqrt_price q, vw_liquidity = pl_liquidity q,
      vw_permanent_lock = 0, vw_status = 0 \<rparr>"
    and "pl_sqrt_min_price q = cf_sqrt_min_price cfg" "pl_sqrt_max_price q = cf_sqrt_max_price cfg"
      "pl_sqrt_price q = ii_sqrt_price params" "pl_liquidity q = ii_liquidity params"
  using assms by (auto simp: config_pool_def position_initialize_def pool_initialize_def view_def Let_def)

lemma customizable_pool_view:
  assumes "customizable_pool ctx partner params = Ok (q, p)"
  shows "view q = \<lparr> vw_sqrt_price = pl_sqrt_price q, vw_liquidity = pl_liquidity q,
      vw_permanent_lock = 0, vw_status = 0 \<rparr>"
    and "pl_sqrt_min_price q = ic_sqrt_min_price params" "pl_sqrt_max_price q = ic_sqrt_max_price params"
      "pl_sqrt_price q = ic_sqrt_price params" "pl_liquidity q = ic_liquidity params"
  using assms
  by (auto simp: customizable_pool_def position_initialize_def pool_initialize_def view_def Let_def rbind_Ok_iff)

lemma initialize_pool_tells:
  assumes "handle_initialize_pool (ctx\<lparr>ip_remaining_accounts := ra\<rparr>) cfg params = Ok (q, v, p)"
  shows "tells_new (ip_pool_key ctx) (initialize_pool_events ctx cfg k q) q"
proof -
  obtain ap a b ta tb fees where c: "config_pool (ctx\<lparr>ip_remaining_accounts := ra\<rparr>) cfg params ap = Ok (q, p)"
    and "get_initialize_amounts (cf_sqrt_min_price cfg) (cf_sqrt_max_price cfg) (ii_sqrt_price params)
      (ii_liquidity params) = Ok (a, b)"
    and "calculate_transfer_fee_included_amount (ip_token_a ctx) a = Ok ta"
    and "calculate_transfer_fee_included_amount (ip_token_b ctx) b = Ok tb"
    and "to_pool_fee_parameters (cf_pool_fees cfg) = Ok fees"
    using assms by (auto simp: handle_initialize_pool_def rbind_Ok_iff require_Ok_iff)
  then show ?thesis using pool_events_tell [OF config_pool_view(1) [OF c]]
    by (simp add: tells_new_def initialize_pool_events_def deposit_amounts_def config_pool_view(2-5) [OF c])
qed

lemma initialize_dynamic_pool_tells:
  assumes "handle_initialize_pool_with_dynamic_config (ctx\<lparr>ip_remaining_accounts := ra\<rparr>) signer cfg params =
    Ok (q, v, p)"
  shows "tells_new (ip_pool_key ctx) (initialize_dynamic_pool_events ctx params k q) q"
proof -
  obtain partner a b ta tb where
    c: "customizable_pool (ctx\<lparr>ip_remaining_accounts := ra\<rparr>) partner params = Ok (q, p)"
    and "get_initialize_amounts (ic_sqrt_min_price params) (ic_sqrt_max_price params) (ic_sqrt_price params)
      (ic_liquidity params) = Ok (a, b)"
    and "calculate_transfer_fee_included_amount (ip_token_a ctx) a = Ok ta"
    and "calculate_transfer_fee_included_amount (ip_token_b ctx) b = Ok tb"
    using assms
    by (auto simp: handle_initialize_pool_with_dynamic_config_def rbind_Ok_iff require_Ok_iff split: if_splits)
  then show ?thesis using pool_events_tell [OF customizable_pool_view(1) [OF c]]
    by (simp add: tells_new_def initialize_dynamic_pool_events_def deposit_amounts_def
        customizable_pool_view(2-5) [OF c])
qed

lemma initialize_customizable_pool_tells:
  assumes "handle_initialize_customizable_pool (ctx\<lparr>ip_remaining_accounts := ra\<rparr>) params = Ok (q, v, p)"
  shows "tells_new (ip_pool_key ctx) (initialize_customizable_pool_events ctx params k q) q"
proof -
  obtain partner a b ta tb where
    c: "customizable_pool (ctx\<lparr>ip_remaining_accounts := ra\<rparr>) partner params = Ok (q, p)"
    and "get_initialize_amounts (ic_sqrt_min_price params) (ic_sqrt_max_price params) (ic_sqrt_price params)
      (ic_liquidity params) = Ok (a, b)"
    and "calculate_transfer_fee_included_amount (ip_token_a ctx) a = Ok ta"
    and "calculate_transfer_fee_included_amount (ip_token_b ctx) b = Ok tb"
    using assms by (auto simp: handle_initialize_customizable_pool_def rbind_Ok_iff require_Ok_iff)
  then show ?thesis using pool_events_tell [OF customizable_pool_view(1) [OF c]]
    by (simp add: tells_new_def initialize_customizable_pool_events_def deposit_amounts_def
        customizable_pool_view(2-5) [OF c])
qed

section \<open>The whole program\<close>

lemma views_of_update [simp]:
  "views_of (L\<lparr>lg_markets := (lg_markets L)(k := Some m)\<rparr>) = (views_of L)(k := Some (view (mk_pool m)))"
  by (auto simp: fun_eq_iff views_of_def)

lemma views_of_accounts [simp]:
  "views_of (L\<lparr>lg_operators := xs\<rparr>) = views_of L"
  "views_of (L\<lparr>lg_configs := cs\<rparr>) = views_of L"
  "views_of (L\<lparr>lg_badges := bs\<rparr>) = views_of L"
  by (simp_all add: fun_eq_iff views_of_def)

text \<open>What \<open>r\<close> logs takes what is known of \<open>L\<close> to what is known of \<open>L'\<close>.\<close>

definition follows :: "ledger \<Rightarrow> program_event list result \<Rightarrow> ledger \<Rightarrow> bool" where
  "follows L r L' \<longleftrightarrow> (\<exists>es. r = Ok es \<and> fold replay es (views_of L) = views_of L')"

lemma market_follows:
  assumes "on_market L k f = Ok L'"
    and "\<And>m m'. f m = Ok m' \<Longrightarrow> tells k (mk_pool m) (g m) (mk_pool m')"
  shows "follows L (market_events L k g) L'"
proof -
  obtain m m' where m: "lg_markets L k = Some m" and f: "f m = Ok m'"
    and L': "L' = L\<lparr>lg_markets := (lg_markets L)(k := Some m')\<rparr>"
    using assms(1) by (auto simp: on_market_def ok_iffs simp del: fun_upd_apply)
  obtain es where es: "g m = Ok es"
    "\<And>s. s k = Some (view (mk_pool m)) \<Longrightarrow> fold replay es s = s(k := Some (view (mk_pool m')))"
    using assms(2) [OF f] by (auto simp: tells_def)
  have "views_of L k = Some (view (mk_pool m))" using m by (simp add: views_of_def)
  from es(2) [where s = "views_of L", OF this] show ?thesis
    using es(1) m by (simp add: follows_def market_events_def load_def L')
qed

lemma new_market_follows:
  assumes "new_market L key k r = Ok L'"
    and "\<And>q v p. r = Ok (q, v, p) \<Longrightarrow> tells_new key (g q) q"
  shows "follows L (rbind r (\<lambda>(q, v, p). g q)) L'"
proof -
  obtain q v p rvs where r: "r = Ok (q, v, p)"
    and L': "L' = L\<lparr>lg_markets := (lg_markets L)(key := Some
      \<lparr> mk_pool = q, mk_vaults = v, mk_positions = Map.empty(k := Some p), mk_vestings = Map.empty,
        mk_reward_vaults = rvs \<rparr>)\<rparr>"
    using assms(1) by (auto simp: new_market_def ok_iffs simp del: fun_upd_apply)
  show ?thesis using assms(2) [OF r] by (auto simp: follows_def tells_new_def r L')
qed

lemma program_follows:
  assumes "execute_program L c = Ok L'"
  shows "follows L (instruction_events ek L c) L'"
proof (cases c)
  case (IxInitializePool ctx refs index k iparams)
  then obtain cfg where cfg: "load (lg_configs L) index = Ok cfg"
    and n: "new_market L (ip_pool_key ctx) k
      (handle_initialize_pool (ctx\<lparr>ip_remaining_accounts := load_remaining L refs\<rparr>) cfg iparams) = Ok L'"
    using assms by (auto simp: rbind_Ok_iff)
  from new_market_follows [OF n initialize_pool_tells] show ?thesis by (simp add: IxInitializePool cfg)
next
  case (IxInitializePoolWithDynamicConfig ctx refs signer index k cparams)
  then obtain cfg where cfg: "load (lg_configs L) index = Ok cfg"
    and n: "new_market L (ip_pool_key ctx) k
      (handle_initialize_pool_with_dynamic_config (ctx\<lparr>ip_remaining_accounts := load_remaining L refs\<rparr>)
        signer cfg cparams) = Ok L'"
    using assms by (auto simp: rbind_Ok_iff)
  from new_market_follows [OF n initialize_dynamic_pool_tells] show ?thesis
    by (simp add: IxInitializePoolWithDynamicConfig cfg)
next
  case (IxInitializeCustomizablePool ctx refs k cparams)
  then have n: "new_market L (ip_pool_key ctx) k
      (handle_initialize_customizable_pool (ctx\<lparr>ip_remaining_accounts := load_remaining L refs\<rparr>) cparams) =
      Ok L'" using assms by simp
  from new_market_follows [OF n initialize_customizable_pool_tells] show ?thesis
    by (simp add: IxInitializeCustomizablePool)
next
  case (OnReward k rc)
  then have "on_market L k (execute_reward L rc) = Ok L'" using assms by simp
  from market_follows [OF this reward_tells] show ?thesis by (simp add: OnReward)
next
  case (OnOperator a s k oc)
  then obtain x where x: "load (lg_operators L) a = Ok x" and n: "on_market L k (execute_operator x s oc) = Ok L'"
    using assms by (auto simp: rbind_Ok_iff)
  from market_follows [OF n operator_tells] show ?thesis by (simp add: OnOperator x)
next
  case (OnUser k uc)
  then have "on_market L k (execute_user k uc) = Ok L'" using assms by simp
  from market_follows [OF this user_tells] show ?thesis by (simp add: OnUser)
qed (use assms in \<open>auto simp: ok_iffs follows_def replay_def simp del: fun_upd_apply\<close>)

text \<open>The log of a run, where each event of the run comes with the accounts it names.\<close>

fun event_log :: "(event_keys \<times> ledger_event) list \<Rightarrow> ledger \<Rightarrow> program_event list" where
  "event_log [] L = []"
| "event_log ((ek, e) # es) L =
     (case e of Call c \<Rightarrow> program_events ek L c | Freeze k i frozen \<Rightarrow> []) @ event_log es (apply_event L e)"

lemma program_events_follow:
  "fold replay (program_events ek L c) (views_of L) = views_of (apply_event L (Call c))"
proof (cases "execute_program L c")
  case (Inr L')
  from program_follows [OF this, of ek] show ?thesis
    by (auto simp: program_events_def logged_def Inr follows_def)
qed (simp add: program_events_def logged_def)

lemma freeze_views: "views_of (apply_event L (Freeze k i frozen)) = views_of L"
  by (auto simp: fun_eq_iff views_of_def split: option.split)

lemma log_follows_run: "fold replay (event_log es L) (views_of L) = views_of (run (map snd es) L)"
proof (induction es arbitrary: L)
  case (Cons a es)
  obtain ek e where a: "a = (ek, e)" by (cases a)
  show ?case
  proof (cases e)
    case (Call c)
    then show ?thesis by (simp add: a program_events_follow Cons.IH del: apply_event.simps)
  next
    case (Freeze k i frozen)
    then show ?thesis using Cons.IH [of "apply_event L e"] freeze_views [of L k i frozen]
      by (simp add: a del: apply_event.simps)
  qed
qed simp

end
