(* ===== verification/Program_Correct.thy ===== *)
theory Program_Correct
  imports Examples Event_Log
begin

text \<open>
  The properties of the whole program, over any sequence of its instructions from the empty ledger,
  each with an instance on a run that creates a pool, appoints an operator and sets the status.
\<close>

section \<open>A run\<close>

definition creation_run :: "ledger_event list" where
  "creation_run = [Call (IxInitializeCustomizablePool example_creation [] 7 example_parameters)]"

lemma example_creation_remaining:
  "example_creation\<lparr>ip_remaining_accounts := load_remaining L []\<rparr> = example_creation"
  by (simp add: load_remaining_def example_creation_def)

lemma creation_run_ledger:
  "run creation_run empty_ledger = empty_ledger\<lparr>lg_markets := Map.empty(10 := Some example_market)\<rparr>"
proof -
  have "ip_pool_key example_creation = 10" by (simp add: example_creation_def)
  then show ?thesis
    by (simp add: creation_run_def example_creation_remaining example_pool_created new_market_def create_def
        example_market_def empty_ledger_def)
qed

lemma creation_run_lawful: "list_all lawful creation_run"
  by (simp add: creation_run_def example_creation_def plain_token_law)

definition appointment :: ledger_event where
  "appointment = Call (IxCreateOperatorAccount (hd ADMINS) 33 16)"

lemma appointment_ledger:
  "run (creation_run @ [appointment]) empty_ledger = \<lparr> lg_operators = Map.empty(33 := Some (operator_initialize 33 16)),
     lg_configs = Map.empty, lg_badges = Map.empty, lg_markets = Map.empty(10 := Some example_market) \<rparr>"
  unfolding run_append creation_run_ledger
  by (simp add: appointment_def create_operator_account_def is_admin_def
      assert_eq_admin_def ADMINS_def handle_create_operator_def MAX_OPERATION_def create_def empty_ledger_def)

definition status_call :: program_call where
  "status_call = OnOperator 33 33 10 (IxSetPoolStatus 1)"

lemma status_call_ledger:
  "execute_program (run (creation_run @ [appointment]) empty_ledger) status_call =
    Ok ((run (creation_run @ [appointment]) empty_ledger)
      \<lparr>lg_markets := Map.empty(10 := Some (example_market\<lparr>mk_pool := start_pool\<lparr>pl_pool_status := 1\<rparr>\<rparr>))\<rparr>)"
  unfolding appointment_ledger status_call_def
  by (simp add: load_def on_market_def example_market_def ix_set_pool_status_def is_valid_operator_role_def
      operator_initialize_def is_permission_allow_def handle_set_pool_status_def pool_status_of_u8_def
      start_pool_def pool_initialize_def)

section \<open>Solvency\<close>

text \<open>
  C1. Every pool of the program is solvent, whatever happened: after any sequence of instructions from
  the empty ledger, in any order, by anyone, successful or not, the vaults of every pool cover on each
  side the reserve of the curve, the fees of the protocol and the partner and the fees of all
  positions, the vault of every reward covers what the reward owes, and the liquidity of the
  pool is the sum of that of its positions. Tokens may have transfer fees, and vaults of rewards may be frozen at any time.
\<close>

theorem program_keeps_every_pool_solvent:
  assumes "list_all lawful es" and "lg_markets (run es empty_ledger) k = Some m"
  shows "(\<forall>s. reserve s (pl_liquidity (mk_pool m)) (mk_pool m) + real (claims s (mk_pool m)) +
        real (total_over (owed s (mk_pool m)) (mk_positions m)) / 2 ^ 128 \<le> real (balance s (mk_vaults m))) \<and>
    (\<forall>i<2. reward_initialized (reward_at (mk_pool m) i) \<longrightarrow>
      reward_liability i (mk_pool m) (mk_positions m) \<le> unat (rv_amount (mk_reward_vaults m i)) * 2 ^ 192) \<and>
    unat (pl_liquidity (mk_pool m)) = total_over liq (mk_positions m)"
proof -
  have "reachable m" using run_wf [OF wf_empty_ledger assms(1)] assms(2) by (simp add: wf_ledger_def)
  then show ?thesis
    using reachable_solvent [of m] reward_vault_covers [of m] reachable_books [of m]
    by (simp add: liability_def market_books_def books_def)
qed

theorem program_keeps_every_pool_solvent_witness:
  "\<exists>m. lg_markets (run creation_run empty_ledger) 10 = Some m \<and>
    reserve A (pl_liquidity (mk_pool m)) (mk_pool m) + real (claims A (mk_pool m)) +
      real (total_over (owed A (mk_pool m)) (mk_positions m)) / 2 ^ 128 \<le> real (balance A (mk_vaults m))"
proof -
  have m: "lg_markets (run creation_run empty_ledger) 10 = Some example_market"
    by (simp add: creation_run_ledger)
  from program_keeps_every_pool_solvent [OF creation_run_lawful m] m show ?thesis by blast
qed

section \<open>Authority\<close>

text \<open>
  C2. Nobody appoints himself: when an instruction that needs a permission succeeds, after any
  sequence of instructions, an admin has appointed its signer before, with the bit of exactly this
  permission.
\<close>

theorem privileged_calls_are_authorized:
  assumes "execute_program (run es empty_ledger) c = Ok L" and "required_permission c = Some (s, p)"
  shows "\<exists>admin permission. admin \<in> set ADMINS \<and> bit permission (nat_of_permission p) \<and>
    Call (IxCreateOperatorAccount admin s permission) \<in> set es"
  using privileged_call_appointed [OF assms] unfolding appointed_def by blast

theorem privileged_calls_are_authorized_witness:
  "\<exists>admin permission. admin \<in> set ADMINS \<and> bit permission (nat_of_permission SetPoolStatus) \<and>
    Call (IxCreateOperatorAccount admin 33 permission) \<in> set (creation_run @ [appointment])"
  by (rule privileged_calls_are_authorized [OF status_call_ledger]) (simp add: status_call_def)

text \<open>
  C3. The terms of a pool stand: along every run its mints, vaults, price range, activation, fee mode,
  partner and creator are those of its creation, and when its status, its base fee or the shares of
  its fee changed, then by an operator who signed for this pool and whom an admin had appointed
  with the permission to set the status or to update the fees.
\<close>

theorem pool_terms_are_governed:
  assumes "lg_markets (run es empty_ledger) k = Some m"
  shows "\<exists>m'. lg_markets (run (es @ es') empty_ledger) k = Some m' \<and>
    identity (mk_pool m') = identity (mk_pool m) \<and>
    (settings (mk_pool m') = settings (mk_pool m) \<or> set_by_appointed k es es')"
  using run_settings [OF assms, of es'] unfolding pool_kept_def by blast

theorem pool_terms_are_governed_witness:
  "\<exists>m'. lg_markets (run (creation_run @ [appointment, Call status_call]) empty_ledger) 10 = Some m' \<and>
    settings (mk_pool m') \<noteq> settings start_pool \<and> identity (mk_pool m') = identity start_pool \<and>
    set_by_appointed 10 creation_run [appointment, Call status_call]"
proof -
  have "run (creation_run @ [appointment, Call status_call]) empty_ledger =
    apply_event (run (creation_run @ [appointment]) empty_ledger) (Call status_call)"
    using run_append [of "creation_run @ [appointment]" "[Call status_call]"] by simp
  then have r: "lg_markets (run (creation_run @ [appointment, Call status_call]) empty_ledger) 10 =
      Some (example_market\<lparr>mk_pool := start_pool\<lparr>pl_pool_status := 1\<rparr>\<rparr>)"
    by (simp add: status_call_ledger)
  have s: "settings (start_pool\<lparr>pl_pool_status := 1\<rparr>) \<noteq> settings start_pool"
    by (simp add: settings_def start_pool_def pool_initialize_def)
  have m: "lg_markets (run creation_run empty_ledger) 10 = Some example_market"
    "mk_pool example_market = start_pool"
    by (simp_all add: creation_run_ledger example_market_def)
  show ?thesis
    using pool_terms_are_governed [OF m(1), of "[appointment, Call status_call]"] r s by (auto simp: m(2))
qed

section \<open>The log\<close>

text \<open>
  C4. The log tells the truth and all of it: whoever replays the events that the instructions of a run
  have logged, in their order and without reading an account, knows for every address
  whether there is a pool, and of every pool the price, the liquidity, how much of it is locked for
  ever, and the status.
\<close>

theorem log_determines_pools:
  "fold replay (event_log es empty_ledger) Map.empty = views_of (run (map snd es) empty_ledger)"
proof -
  have "views_of empty_ledger = Map.empty" by (simp add: fun_eq_iff views_of_def empty_ledger_def)
  with log_follows_run [of es empty_ledger] show ?thesis by simp
qed

end
