(* ===== verification/Instruction_Accounts.thy ===== *)
theory Instruction_Accounts
  imports Creation_Instructions Zap_Protocol_Fee
begin

text \<open>
  The accounts of every instruction, as one table, so that what holds of all instructions on a position
  or on the vaults of a pool is stated of the table and not of a selection. Two parameters of the
  instructions occur in the declarations: the index of a reward and the index of a config.
\<close>

definition instruction_contexts :: "addresses \<Rightarrow> u8 \<Rightarrow> u64 \<Rightarrow> account_context list" where
  "instruction_contexts ad reward_index config_index =
     [AddLiquidityCtx, RemoveLiquidityCtx ad, ClaimPositionFeeCtx ad, ClaimRewardCtx ad,
      PermanentLockPositionCtx, LockPositionCtx, ClosePositionCtx ad, SplitPositionCtx,
      RefreshVestingCtx, CreatePositionCtx ad, SwapCtx ad, InitializePoolCtx ad,
      InitializePoolWithDynamicConfigCtx ad, InitializeCustomizablePoolCtx ad, FundRewardCtx,
      WithdrawIneligibleRewardCtx ad, InitializeRewardCtx ad reward_index, UpdateRewardDurationCtx,
      UpdateRewardFunderCtx, ClaimProtocolFeesCtx ad, ClaimPartnerFeesCtx ad, ZapProtocolFeeCtx ad,
      SetPoolStatusCtx, UpdatePoolFeesCtx, CreateConfigCtx config_index, CloseConfigCtx,
      CreateTokenBadgeCtx, CloseTokenBadgeCtx, CreateOperatorAccountCtx, CloseOperatorAccountCtx]"

section \<open>Positions\<close>

text \<open>The fields that hold an existing position.\<close>

lemma position_fields_declared:
  "declares_type AddLiquidityCtx x (AccountLoader Position_State) \<longleftrightarrow> x = ''position''"
  "declares_type (RemoveLiquidityCtx ad) x (AccountLoader Position_State) \<longleftrightarrow> x = ''position''"
  "declares_type (ClaimPositionFeeCtx ad) x (AccountLoader Position_State) \<longleftrightarrow> x = ''position''"
  "declares_type (ClaimRewardCtx ad) x (AccountLoader Position_State) \<longleftrightarrow> x = ''position''"
  "declares_type PermanentLockPositionCtx x (AccountLoader Position_State) \<longleftrightarrow> x = ''position''"
  "declares_type LockPositionCtx x (AccountLoader Position_State) \<longleftrightarrow> x = ''position''"
  "declares_type (ClosePositionCtx ad) x (AccountLoader Position_State) \<longleftrightarrow> x = ''position''"
  "declares_type SplitPositionCtx x (AccountLoader Position_State) \<longleftrightarrow>
     x = ''first_position'' \<or> x = ''second_position''"
  "declares_type RefreshVestingCtx x (AccountLoader Position_State) \<longleftrightarrow> x = ''position''"
  by (auto simp: context_defs)

lemma no_position_fields:
  "\<not> declares_type (CreatePositionCtx ad) x (AccountLoader Position_State)"
  "\<not> declares_type (SwapCtx ad) x (AccountLoader Position_State)"
  "\<not> declares_type (InitializePoolCtx ad) x (AccountLoader Position_State)"
  "\<not> declares_type (InitializePoolWithDynamicConfigCtx ad) x (AccountLoader Position_State)"
  "\<not> declares_type (InitializeCustomizablePoolCtx ad) x (AccountLoader Position_State)"
  "\<not> declares_type FundRewardCtx x (AccountLoader Position_State)"
  "\<not> declares_type (WithdrawIneligibleRewardCtx ad) x (AccountLoader Position_State)"
  "\<not> declares_type (InitializeRewardCtx ad i) x (AccountLoader Position_State)"
  "\<not> declares_type UpdateRewardDurationCtx x (AccountLoader Position_State)"
  "\<not> declares_type UpdateRewardFunderCtx x (AccountLoader Position_State)"
  "\<not> declares_type (ClaimProtocolFeesCtx ad) x (AccountLoader Position_State)"
  "\<not> declares_type (ClaimPartnerFeesCtx ad) x (AccountLoader Position_State)"
  "\<not> declares_type (ZapProtocolFeeCtx ad) x (AccountLoader Position_State)"
  "\<not> declares_type SetPoolStatusCtx x (AccountLoader Position_State)"
  "\<not> declares_type UpdatePoolFeesCtx x (AccountLoader Position_State)"
  "\<not> declares_type (CreateConfigCtx n) x (AccountLoader Position_State)"
  "\<not> declares_type CloseConfigCtx x (AccountLoader Position_State)"
  "\<not> declares_type CreateTokenBadgeCtx x (AccountLoader Position_State)"
  "\<not> declares_type CloseTokenBadgeCtx x (AccountLoader Position_State)"
  "\<not> declares_type CreateOperatorAccountCtx x (AccountLoader Position_State)"
  "\<not> declares_type CloseOperatorAccountCtx x (AccountLoader Position_State)"
  by (auto simp: context_defs)

text \<open>Whatever loads an existing position checks it, and all but the refresh need the owner to sign.\<close>

lemma position_fields:
  assumes "ctx \<in> set (instruction_contexts ad i n)"
    and "declares_type ctx pos (AccountLoader Position_State)"
  shows "ctx \<in> {AddLiquidityCtx, RemoveLiquidityCtx ad, ClaimPositionFeeCtx ad, ClaimRewardCtx ad,
      PermanentLockPositionCtx, LockPositionCtx, ClosePositionCtx ad} \<and> pos = ''position'' \<or>
    ctx = SplitPositionCtx \<and> (pos = ''first_position'' \<or> pos = ''second_position'') \<or>
    ctx = RefreshVestingCtx \<and> pos = ''position''"
  using assms(2) assms(1) [unfolded instruction_contexts_def list.set]
  by (elim insertE emptyE) (simp_all add: position_fields_declared no_position_fields)

lemma position_fields_protected:
  assumes "ctx \<in> set (instruction_contexts ad i n)"
    and "declares_type ctx pos (AccountLoader Position_State)"
  obtains nft_account owner where "protects_position ctx pos nft_account owner"
    and "ctx = RefreshVestingCtx \<or> declares_type ctx owner Signer"
  using position_fields [OF assms]
proof (elim disjE conjE)
  assume "ctx \<in> {AddLiquidityCtx, RemoveLiquidityCtx ad, ClaimPositionFeeCtx ad, ClaimRewardCtx ad,
      PermanentLockPositionCtx, LockPositionCtx, ClosePositionCtx ad}" and pos: "pos = ''position''"
  then have "(ctx, pos, ''position_nft_account'', ''owner'') \<in> set (position_roles ad)"
    by (elim insertE emptyE) (simp_all add: position_roles_def)
  then show thesis using that position_roles_protect by blast
next
  assume "ctx = SplitPositionCtx" "pos = ''first_position''"
  then have "(ctx, pos, ''first_position_nft_account'', ''first_owner'') \<in> set (position_roles ad)"
    by (simp add: position_roles_def)
  then show thesis using that position_roles_protect by blast
next
  assume "ctx = SplitPositionCtx" "pos = ''second_position''"
  then have "(ctx, pos, ''second_position_nft_account'', ''second_owner'') \<in> set (position_roles ad)"
    by (simp add: position_roles_def)
  then show thesis using that position_roles_protect by blast
next
  assume "ctx = RefreshVestingCtx" "pos = ''position''"
  then show thesis using that refresh_vesting_protects by blast
qed

section \<open>Vaults\<close>

lemma vault_fields:
  assumes "ctx \<in> set (instruction_contexts ad i n)"
    and "v \<in> {''token_a_vault'', ''token_b_vault''}" and "v \<in> set (List.map field_name ctx)"
  shows "ctx \<in> set (vault_contexts ad) \<or> (\<exists>seeds. (ctx, seeds) \<in> set (pool_creations ad))"
proof -
  have no: "''token_a_vault'' \<notin> set (List.map field_name ctx) \<and>
      ''token_b_vault'' \<notin> set (List.map field_name ctx)"
    if "ctx \<in> {ClaimRewardCtx ad, PermanentLockPositionCtx, LockPositionCtx, ClosePositionCtx ad,
      SplitPositionCtx, RefreshVestingCtx, CreatePositionCtx ad, FundRewardCtx,
      WithdrawIneligibleRewardCtx ad, InitializeRewardCtx ad i, UpdateRewardDurationCtx,
      UpdateRewardFunderCtx, ZapProtocolFeeCtx ad, SetPoolStatusCtx, UpdatePoolFeesCtx,
      CreateConfigCtx n, CloseConfigCtx, CreateTokenBadgeCtx, CloseTokenBadgeCtx,
      CreateOperatorAccountCtx, CloseOperatorAccountCtx}"
    using that by (elim insertE emptyE) (simp_all add: context_defs)
  show ?thesis
    using assms(2,3) no assms(1) [unfolded instruction_contexts_def list.set]
    by (elim insertE emptyE) (simp_all add: vault_contexts_def pool_creations_def, blast+)
qed

lemma existing_vaults:
  assumes "ctx \<in> set (vault_contexts ad)" "try_accounts ad ctx accounts = Ok env"
  shows "\<exists>q. info_data (env ''pool'') = Pool_Data q \<and>
    is_vault ad (env ''token_a_vault'') (pl_token_a_vault q) (info_key (env ''token_a_mint''))
      (info_key (env ''token_a_program'')) \<and>
    is_vault ad (env ''token_b_vault'') (pl_token_b_vault q) (info_key (env ''token_b_mint''))
      (info_key (env ''token_b_program'')) \<and>
    (ctx \<noteq> SwapCtx ad \<longrightarrow> info_key (env ''token_a_mint'') = pl_token_a_mint q \<and>
       info_key (env ''token_b_mint'') = pl_token_b_mint q) \<and>
    (ctx = ClaimPartnerFeesCtx ad \<longrightarrow>
       info_is_signer (env ''partner'') \<and> info_key (env ''partner'') = pl_partner q)"
proof -
  obtain q where q: "info_data (env ''pool'') = Pool_Data q"
    "is_vault ad (env ''token_a_vault'') (pl_token_a_vault q) (info_key (env ''token_a_mint''))
      (info_key (env ''token_a_program''))"
    "is_vault ad (env ''token_b_vault'') (pl_token_b_vault q) (info_key (env ''token_b_mint''))
      (info_key (env ''token_b_program''))"
    using vaults_of_pool [OF assms(2) vault_contexts_use [OF assms(1)]] by blast
  note attr = try_accounts_attribute [OF assms(2), where x = "''pool''"]
  have "info_key (env ''token_a_mint'') = pl_token_a_mint q \<and>
      info_key (env ''token_b_mint'') = pl_token_b_mint q" if "ctx \<noteq> SwapCtx ad"
  proof -
    have "declares ctx ''pool'' (HasOne ''token_a_mint'')" "declares ctx ''pool'' (HasOne ''token_b_mint'')"
      using vault_contexts_check_mints [OF assms(1) that] by simp_all
    from attr [OF this(1)] attr [OF this(2)] q(1) show ?thesis by (simp add: constraint_Ok_iff)
  qed
  moreover have "info_is_signer (env ''partner'') \<and> info_key (env ''partner'') = pl_partner q"
    if "ctx = ClaimPartnerFeesCtx ad"
  proof -
    have "declares ctx ''pool'' (HasOne ''partner'')" "declares_type ctx ''partner'' Signer"
      unfolding that by (simp_all add: context_defs)
    from attr [OF this(1)] signed_by_owner [OF assms(2) this(2)] q(1) show ?thesis
      by (simp add: constraint_Ok_iff)
  qed
  ultimately show ?thesis using q by blast
qed

lemma swap_creates_nothing:
  "SwapCtx ad \<noteq> InitializePoolCtx ad" "SwapCtx ad \<noteq> InitializePoolWithDynamicConfigCtx ad"
  "SwapCtx ad \<noteq> InitializeCustomizablePoolCtx ad"
  by (simp_all add: context_defs)

text \<open>What the zap of the protocol fee reads of its accounts, and what its handler finds out.\<close>

definition zap_accounts_of :: "zap_context \<Rightarrow> environment \<Rightarrow> bool" where
  "zap_accounts_of zc env \<longleftrightarrow>
     zc_token_vault zc = info_key (env ''token_vault'') \<and>
     zc_token_mint zc = info_key (env ''token_mint'') \<and>
     zc_token_mint_owner zc = info_owner (env ''token_mint'') \<and>
     zc_token_program zc = info_key (env ''token_program'') \<and>
     zc_signer zc = info_key (env ''signer'')"

lemma zap_uses_vault:
  assumes "try_accounts ad (ZapProtocolFeeCtx ad) accounts = Ok env" "zap_accounts_of zc env"
    and "handle_zap_protocol_fee zc q v m = Ok r"
  shows "(info_key (env ''token_mint''), info_key (env ''token_vault'')) \<in>
      {(pl_token_a_mint q, pl_token_a_vault q), (pl_token_b_mint q, pl_token_b_vault q)}"
    and "info_owner (env ''token_mint'') = info_key (env ''token_program'')"
    and "info_key (env ''token_program'') \<in> set (ad_token_programs ad)"
    and "info_is_signer (env ''signer'')"
proof -
  obtain q' v' x where r: "r = (q', v', x)" by (cases r) auto
  show "(info_key (env ''token_mint''), info_key (env ''token_vault'')) \<in>
      {(pl_token_a_mint q, pl_token_a_vault q), (pl_token_b_mint q, pl_token_b_vault q)}"
    by (rule handle_zap_protocol_fee_Ok [OF assms(3) [unfolded r]])
      (use assms(2) in \<open>auto simp: zap_accounts_of_def split: if_splits\<close>)
  show "info_owner (env ''token_mint'') = info_key (env ''token_program'')"
    using assms(2,3) by (auto simp: zap_accounts_of_def handle_zap_protocol_fee_def Let_def
        validate_accounts_and_return_withdraw_direction_def rbind_Ok_iff require_Ok_iff)
  have d: "declares_type (ZapProtocolFeeCtx ad) ''token_program'' TokenInterface"
      "declares_type (ZapProtocolFeeCtx ad) ''signer'' Signer"
    by (simp_all add: context_defs)
  show "info_key (env ''token_program'') \<in> set (ad_token_programs ad)"
    using try_accounts_type [OF assms(1) d(1)] try_accounts_flags(1) [OF assms(1)] by simp
  show "info_is_signer (env ''signer'')" by (rule signed_by_owner [OF assms(1) d(2)])
qed

lemma new_vault_address:
  assumes "(ctx, seeds) \<in> set (pool_creations ad)" "try_accounts ad ctx accounts = Ok env"
  shows "info_key (env ''token_a_vault'') = fst (ad_derive ad
      [TOKEN_VAULT_PREFIX, key_bytes (info_key (env ''token_a_mint'')), key_bytes (info_key (env ''pool''))]
      (program_id ad))"
    and "info_key (env ''token_b_vault'') = fst (ad_derive ad
      [TOKEN_VAULT_PREFIX, key_bytes (info_key (env ''token_b_mint'')), key_bytes (info_key (env ''pool''))]
      (program_id ad))"
  using created_account(4) [OF assms(2) pool_creations_create(2) [OF assms(1)]]
    created_account(4) [OF assms(2) pool_creations_create(3) [OF assms(1)]]
  by (simp_all add: vault_attributes_def seeds_of_def derived_key_def)

end
