(* ===== verification/Accounts_Correct.thy ===== *)
theory Accounts_Correct
  imports Account_Examples Treasury_Accounts Instruction_Accounts
begin

text \<open>
  Properties of the accounts of the instructions: who may act on a position, which vaults an instruction
  moves tokens of, the checks of the fast path of the swap, and what the creating instructions set up.
\<close>

section \<open>Positions\<close>

text \<open>
  C9. Of all instructions of the program, every one that loads an existing position is authorized by its
  owner, except for the refresh of vestings, which anybody may run: when its accounts are accepted, the
  position is an account of the program that belongs to the pool passed, an account of a token program
  holds the one NFT of the position, and, but for the refresh, the holder of the NFT has signed. So the check
  with which the handlers of the model begin succeeds. For a split this holds of both positions.
\<close>

theorem position_instructions_are_authorized:
  assumes "ctx \<in> set (instruction_contexts ad i n)"
    and "declares_type ctx pos (AccountLoader Position_State)"
    and "try_accounts ad ctx accounts = Ok env"
  shows "info_owner (bind_accounts ctx accounts pos) = program_id ad \<and>
    (\<exists>p t nft_account owner. info_data (env pos) = Position_Data p \<and>
       ps_pool p = info_key (env ''pool'') \<and>
       info_owner (bind_accounts ctx accounts nft_account) \<in> set (ad_token_programs ad) \<and>
       token_account_of (env nft_account) = Some t \<and>
       ta_mint t = ps_nft_mint p \<and> ta_amount t = 1 \<and> ta_authority t = info_key (env owner) \<and>
       (ctx = RefreshVestingCtx \<or> info_is_signer (env owner)) \<and>
       position_constraints (position_accounts_of env nft_account owner) p = Ok ())"
proof -
  obtain nft_account owner where role: "protects_position ctx pos nft_account owner"
    and signer: "ctx = RefreshVestingCtx \<or> declares_type ctx owner Signer"
    by (rule position_fields_protected [OF assms(1,2)])
  note protected = protected_position [OF assms(3) role]
  obtain p where p: "info_data (env pos) = Position_Data p"
      "position_constraints (position_accounts_of env nft_account owner) p = Ok ()"
    using protected(1) by blast
  then obtain t where t: "token_account_of (env nft_account) = Some t"
    by (auto simp: position_constraints_def position_accounts_of_def token_field_def
        split: option.splits if_splits)
  have "ps_pool p = info_key (env ''pool'') \<and> ta_mint t = ps_nft_mint p \<and> ta_amount t = 1 \<and>
      ta_authority t = info_key (env owner)"
    using p(2) t by (auto simp: position_constraints_def position_accounts_of_def token_field_def split: if_splits)
  moreover have "ctx = RefreshVestingCtx \<or> info_is_signer (env owner)"
    using signer signed_by_owner [OF assms(3)] by blast
  ultimately show ?thesis using p t protected(2,3) by blast
qed

theorem position_instructions_are_authorized_witness:
  "\<exists>env p (t :: token_account) owner. try_accounts example_addresses PermanentLockPositionCtx lock_infos = Ok env \<and>
    info_data (env ''position'') = Position_Data p \<and> ta_mint t = ps_nft_mint p \<and> ta_amount t = 1 \<and>
    ta_authority t = info_key (env owner) \<and> info_is_signer (env owner)"
proof -
  obtain env where env: "try_accounts example_addresses PermanentLockPositionCtx lock_infos = Ok env"
    using lock_infos_accepted by (auto simp: is_ok_iff)
  have mem: "PermanentLockPositionCtx \<in> set (instruction_contexts example_addresses 0 0)"
    by (simp add: instruction_contexts_def)
  have "declares_type PermanentLockPositionCtx ''position'' (AccountLoader Position_State)"
    by (simp add: position_fields_declared)
  from position_instructions_are_authorized [OF mem this env]
  obtain p and t :: token_account and owner where "info_data (env ''position'') = Position_Data p"
      "ta_mint t = ps_nft_mint p" "ta_amount t = 1" "ta_authority t = info_key (env owner)"
      "PermanentLockPositionCtx = RefreshVestingCtx \<or> info_is_signer (env owner)"
    by blast
  moreover have "PermanentLockPositionCtx \<noteq> RefreshVestingCtx" by (simp add: context_defs)
  ultimately show ?thesis using env by blast
qed

text \<open>
  C15. The creator of a position owns it: after the instruction, the position account belongs to the
  program, stands at the address of its NFT, is empty, with no liquidity of any kind, no pending fee or
  reward and all checkpoints at zero, and the account declared as owner passes the checks of the
  instructions on the position. The calls to the token program are assumed to do what they document.
\<close>

theorem creator_owns_new_position:
  assumes "token_calls_law tc" "create_position_instruction ad tc clk accounts = Ok env"
  shows "\<exists>p. position_of (env ''position'') = Some p \<and>
    position_constraints (position_accounts_of env ''position_nft_account'' ''owner'') p = Ok () \<and>
    info_owner (env ''position'') = program_id ad \<and>
    info_key (env ''position'') = fst (ad_derive ad
      [POSITION_PREFIX, key_bytes (ps_nft_mint p)] (program_id ad)) \<and>
    ps_pool p = info_key (env ''pool'') \<and> ps_nft_mint p = info_key (env ''position_nft_mint'') \<and>
    ps_unlocked_liquidity p = 0 \<and> ps_vested_liquidity p = 0 \<and> ps_permanent_locked_liquidity p = 0 \<and>
    ps_fee_a_pending p = 0 \<and> ps_fee_b_pending p = 0 \<and>
    ps_fee_a_per_token_checkpoint p = 0 \<and> ps_fee_b_per_token_checkpoint p = 0 \<and>
    ps_metrics p = \<lparr> pm_total_claimed_a_fee = 0, pm_total_claimed_b_fee = 0 \<rparr> \<and>
    ps_reward_infos p = Arr2
      \<lparr> ur_reward_per_token_checkpoint = 0, ur_reward_pendings = 0, ur_total_claimed_rewards = 0 \<rparr>
      \<lparr> ur_reward_per_token_checkpoint = 0, ur_reward_pendings = 0, ur_total_claimed_rewards = 0 \<rparr>"
  using created_position_belongs_to_owner [OF assms]
  by (auto simp: position_default_def user_reward_info_default_def)

theorem creator_owns_new_position_witness:
  "\<exists>env p. create_position_instruction example_addresses example_token_calls example_clock
      create_position_infos = Ok env \<and> position_of (env ''position'') = Some p \<and>
    position_constraints (position_accounts_of env ''position_nft_account'' ''owner'') p = Ok ()"
proof -
  obtain env where env: "create_position_instruction example_addresses example_token_calls
      example_clock create_position_infos = Ok env"
    using create_position_infos_succeed by (auto simp: is_ok_iff)
  from creator_owns_new_position [OF example_token_calls_law this] env show ?thesis by blast
qed

section \<open>Vaults\<close>

text \<open>
  C10. Every instruction that moves tokens of the two vaults of a pool uses the vaults of this pool and no
  others. An instruction that declares such a vault either works on an existing pool, and then the vaults have
  the addresses that the pool names, hold the mints passed and belong to the token programs passed (and
  except for the swap the mints are those of the pool, and the claim of the partner is signed by the
  partner of the pool); or it creates the pool, and then the vaults are new, at the addresses derived from
  mint and pool. The zap of the protocol fee declares one vault and checks it in the handler: it is the vault
  of the pool for the mint passed.
\<close>

theorem pool_instructions_use_its_vaults:
  assumes "ctx \<in> set (instruction_contexts ad i n)" "try_accounts ad ctx accounts = Ok env"
  shows "(''token_a_vault'' \<in> set (List.map field_name ctx) \<or>
      ''token_b_vault'' \<in> set (List.map field_name ctx) \<longrightarrow>
    (\<exists>q. info_data (env ''pool'') = Pool_Data q \<and>
      is_vault ad (env ''token_a_vault'') (pl_token_a_vault q) (info_key (env ''token_a_mint''))
        (info_key (env ''token_a_program'')) \<and>
      is_vault ad (env ''token_b_vault'') (pl_token_b_vault q) (info_key (env ''token_b_mint''))
        (info_key (env ''token_b_program'')) \<and>
      (ctx \<noteq> SwapCtx ad \<longrightarrow> info_key (env ''token_a_mint'') = pl_token_a_mint q \<and>
         info_key (env ''token_b_mint'') = pl_token_b_mint q) \<and>
      (ctx = ClaimPartnerFeesCtx ad \<longrightarrow>
         info_is_signer (env ''partner'') \<and> info_key (env ''partner'') = pl_partner q)) \<or>
    (\<exists>seeds. (ctx, seeds) \<in> set (pool_creations ad)) \<and>
      is_new_vault ad (env ''token_a_vault'') (info_key (env ''token_a_mint'')) \<and>
      is_new_vault ad (env ''token_b_vault'') (info_key (env ''token_b_mint'')) \<and>
      info_key (env ''token_a_vault'') = fst (ad_derive ad [TOKEN_VAULT_PREFIX,
        key_bytes (info_key (env ''token_a_mint'')), key_bytes (info_key (env ''pool''))] (program_id ad)) \<and>
      info_key (env ''token_b_vault'') = fst (ad_derive ad [TOKEN_VAULT_PREFIX,
        key_bytes (info_key (env ''token_b_mint'')), key_bytes (info_key (env ''pool''))] (program_id ad))) \<and>
    (\<forall>zc q v m r. ctx = ZapProtocolFeeCtx ad \<longrightarrow> zap_accounts_of zc env \<longrightarrow>
      handle_zap_protocol_fee zc q v m = Ok r \<longrightarrow>
      (info_key (env ''token_mint''), info_key (env ''token_vault'')) \<in>
        {(pl_token_a_mint q, pl_token_a_vault q), (pl_token_b_mint q, pl_token_b_vault q)})"
  (is "(?declared \<longrightarrow> ?existing \<or> ?new) \<and> ?zap")
proof (intro conjI impI)
  show ?zap using zap_uses_vault(1) assms(2) by blast
  assume ?declared
  then have "ctx \<in> set (vault_contexts ad) \<or> (\<exists>seeds. (ctx, seeds) \<in> set (pool_creations ad))"
    using vault_fields [OF assms(1), of "''token_a_vault''"] vault_fields [OF assms(1), of "''token_b_vault''"]
    by blast
  then show "?existing \<or> ?new"
  proof
    assume "ctx \<in> set (vault_contexts ad)"
    then have ?existing by (rule existing_vaults [OF _ assms(2)])
    then show ?thesis ..
  next
    assume "\<exists>seeds. (ctx, seeds) \<in> set (pool_creations ad)"
    then have ?new using accounts_of_new_pool(1,2) [OF _ assms(2)] new_vault_address [OF _ assms(2)] by blast
    then show ?thesis ..
  qed
qed

theorem pool_instructions_use_its_vaults_witness:
  "\<exists>env q. try_accounts example_addresses (SwapCtx example_addresses) swap_infos = Ok env \<and>
    info_data (env ''pool'') = Pool_Data q \<and>
    is_vault example_addresses (env ''token_a_vault'') (pl_token_a_vault q)
      (info_key (env ''token_a_mint'')) (info_key (env ''token_a_program''))"
proof -
  obtain env where env: "try_accounts example_addresses (SwapCtx example_addresses) swap_infos = Ok env"
    using swap_infos_accepted by (auto simp: is_ok_iff)
  have mem: "SwapCtx example_addresses \<in> set (instruction_contexts example_addresses 0 0)"
    by (simp add: instruction_contexts_def)
  have "''token_a_vault'' \<in> set (List.map field_name (SwapCtx example_addresses))"
    by (simp add: context_defs)
  moreover have "(SwapCtx example_addresses, seeds) \<notin> set (pool_creations example_addresses)" for seeds
    by (simp add: pool_creations_def swap_creates_nothing)
  ultimately show ?thesis using pool_instructions_use_its_vaults [OF mem env] env by blast
qed

text \<open>
  C11. The fast path of the swap replaces the generated checks by its own, and loses none of them: on
  two views of the same accounts, the declared checks accept exactly when the checks by hand do, except
  that the framework also requires the token accounts and mints to parse and the token programs to be
  executable, which the called token program finds out.
\<close>

theorem fast_path_checks_what_is_declared:
  assumes "list_all2 (views ad) accounts infos"
    and "ad_system_program ad \<notin> set (ad_token_programs ad)"
    and "\<forall>q'. info_data (infos ! 1) = Pool_Data q' \<longrightarrow> q' = q"
  shows "is_ok (try_accounts ad (SwapCtx ad) infos) \<longleftrightarrow>
    validate_p_accounts (account_ids_of ad) q accounts = Ok () \<and> swap_contents_parse ad infos"
  using assms by (rule fast_checks_are_declared)

theorem fast_path_checks_what_is_declared_witness:
  "is_ok (try_accounts example_addresses (SwapCtx example_addresses) swap_infos) \<and>
   validate_p_accounts (account_ids_of example_addresses) start_pool example_accounts = Ok ()"
  using fast_path_checks_what_is_declared [OF example_views example_system_program example_pool_content]
    swap_infos_accepted by simp

text \<open>
  C12. The transfers of a swap do what the handler computed: when the instruction succeeds on the balances
  of the two vaults and its calls to the token program succeed on all balances, the vaults hold what the
  handler says, nothing moves but the two vaults and the accounts that the payer passed, and the payer
  has signed and has authority over the account that pays. The mints behave as documented, the authority
  of the pool owns the vaults and is nobody who signs; the trader does not have the swap pay into a
  vault, where the tokens would stay.
\<close>

theorem swap_transfers_do_what_is_computed:
  assumes "swap_instruction (account_ids_of ad) clk tx ta tb accounts q (vaults_of q b) params =
      Ok (q', v', r)"
    and "get_trade_direction (p_accessor_mint (accounts ! 2)) (ac_key (accounts ! 6)) = Ok d"
    and "has_referral = (ac_key (accounts ! 11) \<noteq> program_id ad)"
    and "get_fee_mode (pl_collect_fee_mode q) d has_referral = Ok fm"
    and "p_swap_transfers ad invoke accounts has_referral d fm r b = Ok b'"
    and "transfer_law ad invoke authority is_signer (ac_key (accounts ! 6)) ta"
      "transfer_law ad invoke authority is_signer (ac_key (accounts ! 7)) tb"
    and "pl_token_a_vault q \<noteq> pl_token_b_vault q"
      "authority (pl_token_a_vault q) = pool_authority_ID ad"
      "authority (pl_token_b_vault q) = pool_authority_ID ad"
      "\<not> is_signer (pool_authority_ID ad)"
    and "pl_token_a_vault q \<notin> paid_accounts accounts has_referral"
      "pl_token_b_vault q \<notin> paid_accounts accounts has_referral"
  shows "v' = vaults_of q b' \<and> {k. b' k \<noteq> b k} \<subseteq> moved_accounts q accounts has_referral \<and>
    authority (ac_key (accounts ! 2)) = ac_key (accounts ! 8) \<and> is_signer (ac_key (accounts ! 8))"
  using swap_instruction_balances [OF assms(1,2,4,3,5-13)] by blast

theorem swap_transfers_do_what_is_computed_witness:
  "\<exists>q v r d fm b'.
     swap_instruction (account_ids_of example_addresses) example_clock example_transaction plain_token
       plain_token transfer_accounts start_pool start_vaults example_swap = Ok (q, v, r) \<and>
     p_swap_transfers example_addresses example_invoke transfer_accounts False d fm r example_balances =
       Ok b' \<and> v = vaults_of start_pool b' \<and>
     {k. b' k \<noteq> example_balances k} \<subseteq> moved_accounts start_pool transfer_accounts False"
proof -
  obtain q v r where h: "p_handle_swap example_context start_pool start_vaults example_swap = Ok (q, v, r)"
    using example_swap_Ok by (metis prod_cases3)
  then obtain fm b' where fm: "get_fee_mode (pl_collect_fee_mode start_pool) AtoB False = Ok fm"
    and calls: "p_swap_transfers example_addresses example_invoke transfer_accounts False AtoB fm r
      example_balances = Ok b'" by (rule example_transfers_succeed)
  have swap: "swap_instruction (account_ids_of example_addresses) example_clock example_transaction
      plain_token plain_token transfer_accounts start_pool (vaults_of start_pool example_balances)
      example_swap = Ok (q, v, r)"
    by (simp add: swap_instruction_validated transfer_accounts_validate transfer_context_of
        example_balances_vaults h)
  have "v = vaults_of start_pool b' \<and>
      {k. b' k \<noteq> example_balances k} \<subseteq> moved_accounts start_pool transfer_accounts False \<and>
      example_authority (ac_key (transfer_accounts ! 2)) = ac_key (transfer_accounts ! 8) \<and>
      example_signer (ac_key (transfer_accounts ! 8))"
    by (rule swap_transfers_do_what_is_computed [OF swap _ _ fm calls example_transfer_law
          example_transfer_law])
      (simp_all add: transfer_accounts_facts example_authority_def example_signer_def example_ids)
  then show ?thesis using swap calls by (auto simp: example_balances_vaults)
qed

text \<open>
  C21. A swap that succeeds respects the limit of the trader, on the balances of the trader's own accounts
  and in all three modes: with exact input the paying account loses exactly the amount given and the
  receiving account gets at least the minimum, with partial fill the receiving account gets at least
  the minimum, and with exact output it gets exactly the amount given while the paying account loses
  at most the maximum; all of this after the transfer fees that the mints withhold. The accounts of
  the trader, the vaults and the referral account are different ones.
\<close>

theorem swap_respects_slippage:
  assumes "swap_instruction (account_ids_of ad) clk tx ta tb accounts q v params = Ok (q', v', r)"
    and "get_trade_direction (p_accessor_mint (accounts ! 2)) (ac_key (accounts ! 6)) = Ok d"
    and "p_swap_transfers ad invoke accounts has_referral d fm r b = Ok b'"
    and "transfer_law ad invoke authority is_signer (ac_key (accounts ! 6)) ta" "token_law ta"
      "transfer_law ad invoke authority is_signer (ac_key (accounts ! 7)) tb" "token_law tb"
    and "pl_token_a_vault q \<noteq> pl_token_b_vault q"
      "authority (pl_token_a_vault q) = pool_authority_ID ad"
      "authority (pl_token_b_vault q) = pool_authority_ID ad"
      "\<not> is_signer (pool_authority_ID ad)"
    and "pl_token_a_vault q \<notin> paid_accounts accounts has_referral"
      "pl_token_b_vault q \<notin> paid_accounts accounts has_referral"
      "ac_key (accounts ! 2) \<notin> paid_accounts accounts has_referral"
      "has_referral \<Longrightarrow> ac_key (accounts ! 11) \<noteq> ac_key (accounts ! 3)"
  shows "\<exists>paid received.
    unat (b (ac_key (accounts ! 2))) = unat (b' (ac_key (accounts ! 2))) + paid \<and>
    unat (b' (ac_key (accounts ! 3))) = unat (b (ac_key (accounts ! 3))) + received \<and>
    (sw_swap_mode params = 0 \<and> paid = unat (sw_amount_0 params) \<and> unat (sw_amount_1 params) \<le> received \<or>
     sw_swap_mode params = 1 \<and> unat (sw_amount_1 params) \<le> received \<or>
     sw_swap_mode params = 2 \<and> received = unat (sw_amount_0 params) \<and> paid \<le> unat (sw_amount_1 params))"
proof (rule swap_instruction_limits [OF assms])
  fix mode paid received
  assume "swap_mode_of_u8 (sw_swap_mode params) = Some mode"
    and "unat (b (ac_key (accounts ! 2))) = unat (b' (ac_key (accounts ! 2))) + paid"
    and "unat (b' (ac_key (accounts ! 3))) = unat (b (ac_key (accounts ! 3))) + received"
    and "case mode of
        ExactIn \<Rightarrow> paid = unat (sw_amount_0 params) \<and> unat (sw_amount_1 params) \<le> received
      | PartialFill \<Rightarrow> unat (sw_amount_1 params) \<le> received
      | ExactOut \<Rightarrow> received = unat (sw_amount_0 params) \<and> paid \<le> unat (sw_amount_1 params)"
  then show ?thesis by (intro exI [of _ paid] exI [of _ received])
    (auto simp: swap_mode_of_u8_def split: if_splits)
qed

theorem swap_respects_slippage_witness:
  "\<exists>q v r d fm b'.
     swap_instruction (account_ids_of example_addresses) example_clock example_transaction plain_token
       plain_token transfer_accounts start_pool start_vaults example_swap = Ok (q, v, r) \<and>
     p_swap_transfers example_addresses example_invoke transfer_accounts False d fm r example_balances =
       Ok b' \<and> unat (example_balances 30) = unat (b' 30) + 1000 \<and>
     unat (example_balances 31) + 900 \<le> unat (b' 31)"
proof -
  obtain q v r where h: "p_handle_swap example_context start_pool start_vaults example_swap = Ok (q, v, r)"
    using example_swap_Ok by (metis prod_cases3)
  then obtain fm b' where fm: "get_fee_mode (pl_collect_fee_mode start_pool) AtoB False = Ok fm"
    and calls: "p_swap_transfers example_addresses example_invoke transfer_accounts False AtoB fm r
      example_balances = Ok b'" by (rule example_transfers_succeed)
  have swap: "swap_instruction (account_ids_of example_addresses) example_clock example_transaction
      plain_token plain_token transfer_accounts start_pool start_vaults example_swap = Ok (q, v, r)"
    by (simp add: swap_instruction_validated transfer_accounts_validate transfer_context_of h)
  have k: "ac_key (transfer_accounts ! 2) = 30" "ac_key (transfer_accounts ! 3) = 31"
    "30 \<notin> paid_accounts transfer_accounts False"
    by (simp_all add: transfer_accounts_def some_account_def paid_accounts_def)
  have "\<exists>paid received. unat (example_balances 30) = unat (b' 30) + paid \<and>
    unat (b' 31) = unat (example_balances 31) + received \<and>
    (sw_swap_mode example_swap = 0 \<and> paid = unat (sw_amount_0 example_swap) \<and>
       unat (sw_amount_1 example_swap) \<le> received \<or>
     sw_swap_mode example_swap = 1 \<and> unat (sw_amount_1 example_swap) \<le> received \<or>
     sw_swap_mode example_swap = 2 \<and> received = unat (sw_amount_0 example_swap) \<and>
       paid \<le> unat (sw_amount_1 example_swap))"
    by (rule swap_respects_slippage [OF swap _ calls example_transfer_law plain_token_law
          example_transfer_law plain_token_law, unfolded k])
      (simp_all add: transfer_accounts_facts example_authority_def example_signer_def example_ids k)
  then have "unat (example_balances 30) = unat (b' 30) + 1000 \<and> unat (example_balances 31) + 900 \<le> unat (b' 31)"
    by (auto simp: example_swap_def)
  then show ?thesis using swap calls by blast
qed

section \<open>New pools\<close>

text \<open>
  C13. A config and a pair of mints have one pool, whatever the order in which the mints are passed: once
  an instruction has created it, every later creation for them fails, because the account at its
  address is in use. The same holds of two mints and the customizable pools.
\<close>

theorem one_pool_for_config_and_mints:
  assumes "(ctx, seeds) \<in> set (pool_creations ad)" "(ctx', seeds) \<in> set (pool_creations ad)"
    and "try_accounts ad ctx accounts = Ok env"
    and "info_key (bind_accounts ctx' accounts' ''config'') = info_key (env ''config'')"
    and "{info_key (bind_accounts ctx' accounts' ''token_a_mint''),
          info_key (bind_accounts ctx' accounts' ''token_b_mint'')} =
      {info_key (env ''token_a_mint''), info_key (env ''token_b_mint'')}"
    and "\<forall>a\<in>set accounts'. info_key a = info_key (env ''pool'') \<longrightarrow>
      info_owner a = info_owner (env ''pool'')"
    and "program_id ad \<noteq> ad_system_program ad"
  shows "info_owner (env ''pool'') = program_id ad \<and> \<not> is_ok (try_accounts ad ctx' accounts')"
proof
  show owner: "info_owner (env ''pool'') = program_id ad"
    using created_account(3) [OF assms(3) pool_creations_create(1) [OF assms(1)]] by simp
  show "\<not> is_ok (try_accounts ad ctx' accounts')"
  proof
    assume "is_ok (try_accounts ad ctx' accounts')"
    then obtain env' where env': "try_accounts ad ctx' accounts' = Ok env'" by (auto simp: is_ok_iff)
    note flags = try_accounts_flags(1) [OF env']
    have "info_key (env' ''pool'') = info_key (env ''pool'')"
      using same_pool_key [OF assms(1,2,3) env'] assms(4,5) flags by simp
    moreover have "bind_accounts ctx' accounts' ''pool'' \<in> set accounts'"
      using creates_bound [OF env' pool_creations_create(1) [OF assms(2)]] .
    ultimately have "info_owner (bind_accounts ctx' accounts' ''pool'') = program_id ad"
      using assms(6) flags owner by simp
    with created_account(1) [OF env' pool_creations_create(1) [OF assms(2)]] assms(7)
    show False by simp
  qed
qed

theorem one_pool_for_config_and_mints_witness:
  "is_ok (try_accounts example_addresses (InitializeCustomizablePoolCtx example_addresses)
      create_pool_infos) \<and>
   \<not> is_ok (try_accounts example_addresses (InitializeCustomizablePoolCtx example_addresses)
      second_pool_infos)"
proof -
  let ?ctx = "InitializeCustomizablePoolCtx example_addresses"
  obtain env where env: "try_accounts example_addresses ?ctx create_pool_infos = Ok env"
    using create_pool_infos_accepted by (auto simp: is_ok_iff)
  have mem: "(?ctx, customizable_pool_seeds) \<in> set (pool_creations example_addresses)"
    by (simp add: pool_creations_def)
  note c = created_account [OF env pool_creations_create(1) [OF mem]]
  have "info_owner (env ''pool'') = 100" using c(3) by (simp add: example_ids)
  then show ?thesis
    using one_pool_for_config_and_mints [OF mem mem env, of second_pool_infos] env
      second_pool_keys try_accounts_flags(1) [OF env]
    by (simp add: example_ids)
qed

text \<open>
  C14. A new pool is set up so that only the program moves its tokens and its creator owns the first
  position: for the three instructions, the two vaults that the pool names are new and empty, hold its
  two different mints and obey the authority for which the seeds of the program sign; and after its NFT
  is minted, the creator passes the checks of the instructions on the position.
\<close>

theorem new_pool_is_set_up:
  assumes "(ctx, seeds) \<in> set (pool_creations ad)" "try_accounts ad ctx accounts = Ok env"
    and "pool_context_of ictx env" "pool_created_by ictx q v p"
    and "derivation_law ad" "token_calls_law tc"
    and "create_position_nft tc ad (info_key (env ''payer'')) (info_key (env ''position_nft_mint''))
      (info_key (env ''pool_authority'')) (info_key (env ''position_nft_account'')) env = Ok env'"
  shows "info_key (env ''token_a_vault'') = pl_token_a_vault q \<and>
    info_key (env ''token_b_vault'') = pl_token_b_vault q \<and>
    is_new_vault ad (env ''token_a_vault'') (pl_token_a_mint q) \<and>
    is_new_vault ad (env ''token_b_vault'') (pl_token_b_mint q) \<and>
    pl_token_a_mint q \<noteq> pl_token_b_mint q \<and>
    ad_create ad (pool_authority_seeds ad) (program_id ad) = Some (pool_authority_ID ad) \<and>
    position_constraints (position_accounts_of env' ''position_nft_account'' ''creator'') p = Ok ()"
proof -
  note created = accounts_of_new_pool [OF assms(1,2)] and keys = pool_created_by_keys [OF assms(4)]
  note minted = nft_is_minted [OF assms(6,7) created(4)]
  have kept: "info_key (env' x) = info_key (env x)" for x
    using minted(1) by (simp add: keeps_accounts_def)
  have "position_constraints (position_accounts_of env' ''position_nft_account'' ''creator'') p = Ok ()"
    using keys(6,7) assms(3) minted(2) kept
    by (simp add: position_constraints_def position_accounts_of_def token_field_def pool_context_of_def)
  with created keys assms(3) pool_authority_seeds_sign [OF assms(5)] show ?thesis
    by (simp add: pool_context_of_def)
qed

theorem new_pool_is_set_up_witness:
  "\<exists>env. try_accounts example_addresses (InitializeCustomizablePoolCtx example_addresses)
      create_pool_infos = Ok env \<and>
    is_new_vault example_addresses (env ''token_a_vault'') (pl_token_a_mint start_pool)"
proof -
  let ?ctx = "InitializeCustomizablePoolCtx example_addresses"
  obtain env where env: "try_accounts example_addresses ?ctx create_pool_infos = Ok env"
    using create_pool_infos_accepted by (auto simp: is_ok_iff)
  have mem: "(?ctx, customizable_pool_seeds) \<in> set (pool_creations example_addresses)"
    by (simp add: pool_creations_def)
  have "pool_context_of example_creation env"
    using create_pool_keys try_accounts_flags(1) [OF env]
    by (simp add: pool_context_of_def example_creation_def example_mint_def)
  moreover have "pool_created_by example_creation start_pool start_vaults start_position"
    using example_pool_created by (auto simp: pool_created_by_def)
  moreover obtain env' where "create_position_nft example_token_calls example_addresses
      (info_key (env ''payer'')) (info_key (env ''position_nft_mint''))
      (info_key (env ''pool_authority'')) (info_key (env ''position_nft_account'')) env = Ok env'"
    using example_nft_created unfolding is_ok_iff by blast
  ultimately show ?thesis
    using new_pool_is_set_up [OF mem env _ _ example_derivation_law example_token_calls_law] env by blast
qed

end
