(* ===== verification/Spec2Isabelle.thy ===== *)
theory Spec2Isabelle
  imports Fees_Correct Swap_Correct Positions_Correct Governance_Correct Program_Correct Accounts_Correct
begin

text \<open>
  \<^bold>\<open>A constant-product market maker with concentrated liquidity: the on-chain program\<close>

  The program is the Solana program of \<^verbatim>\<open>src/programs/cp-amm\<close>, with the off-chain quotes of
  \<^verbatim>\<open>src/rust-sdk\<close>. File names below are relative to \<^verbatim>\<open>src/programs/cp-amm/src\<close>.

  \<^bold>\<open>The parts and how they interact.\<close>  A pool holds two vaults and one price range that all its positions
  share. A swap moves the square-root price along the curve (\<^verbatim>\<open>curve.rs\<close>), charges a base fee
  that one of three handlers computes (\<^verbatim>\<open>base_fee\<close>) and a dynamic fee that follows the volatility
  (\<^verbatim>\<open>state/fee.rs\<close>), and shares the fee out between the positions, the protocol, a partner and a
  referrer. Positions add, remove, lock, vest and split liquidity and collect fees and rewards.
  Operators appointed by admins edit pools, configs and rewards, and take the protocol fee.

  \<^bold>\<open>Arithmetic.\<close>
  \<^item> \<^verbatim>\<open>Amm_Prelude\<close>: widths of the integers, \<^verbatim>\<open>error.rs\<close>, the result type \<open>'a result\<close> (an error or a
    value) with \<open>rbind\<close> for the operator that propagates errors. A panic is the error \<open>Panic\<close>, an error
    of the framework or of another program is \<open>Foreign\<close>.
  \<^item> \<^verbatim>\<open>Amm_Math\<close>: \<^verbatim>\<open>math/safe_math.rs\<close>, \<^verbatim>\<open>math/u128x128_math.rs\<close>, \<^verbatim>\<open>math/utils_math.rs\<close>. Words have the
    width of the source, and 128-bit products go through 256 bits as they do there. The lemmas
    give each operation as an equation on natural numbers and when it fails.
  \<^item> \<^verbatim>\<open>Amm_Constants\<close>: \<^verbatim>\<open>constants.rs\<close>. \<^verbatim>\<open>Fee_Math\<close>: \<^verbatim>\<open>math/fee_math.rs\<close>, the unrolled power against
    the loop it unrolls, its rounding and monotonicity. \<^verbatim>\<open>Exponential_Decay\<close>: how close its fees come
    to the real powers, from above and below.
  \<^item> \<^verbatim>\<open>Curve\<close>: \<^verbatim>\<open>curve.rs\<close>. The amounts against the virtual reserves, with their rounding; a swap to
    and fro never gains (locales \<open>curve_leg\<close> and \<open>round_trip\<close>, interpreted for both directions).

  \<^bold>\<open>Fees.\<close>
  \<^item> \<^verbatim>\<open>Activation\<close>: \<^verbatim>\<open>utils/activation_handler.rs\<close>, \<^verbatim>\<open>params/activation.rs\<close>.
  \<^item> \<^verbatim>\<open>Fee_Amounts\<close>: amounts with and without a fee, \<^verbatim>\<open>params/fee_parameters.rs\<close> and \<^verbatim>\<open>params/swap.rs\<close>.
  \<^item> \<^verbatim>\<open>Base_Fee_Handler\<close>: the laws of the trait \<^verbatim>\<open>BaseFeeHandler\<close> as the locale \<open>base_fee_handler\<close>.
    \<^verbatim>\<open>Time_Scheduler\<close>, \<^verbatim>\<open>Market_Cap_Scheduler\<close> and \<^verbatim>\<open>Rate_Limiter\<close> model its three implementations and
    interpret it; the rate limiter is also compared with a sum over tiers.
  \<^item> \<^verbatim>\<open>Byte_Layout\<close>, \<^verbatim>\<open>Base_Fee\<close>: the two byte layouts of the base fee (\<^verbatim>\<open>base_fee/base_fee_serde.rs\<close>),
    the conversions between them and the dispatch on the mode, which interprets the locale again.
  \<^item> \<^verbatim>\<open>Dynamic_Fee\<close>, \<^verbatim>\<open>Pool_Fees\<close>: \<^verbatim>\<open>state/fee.rs\<close>.

  \<^bold>\<open>State.\<close>
  \<^item> \<^verbatim>\<open>Position\<close>, \<^verbatim>\<open>Rewards\<close>, \<^verbatim>\<open>Pool\<close>, \<^verbatim>\<open>Pool_Ops\<close>: \<^verbatim>\<open>state/position.rs\<close> and \<^verbatim>\<open>state/pool.rs\<close>, accounts as
    records, a method that changes its receiver as a function that returns it changed.
  \<^item> \<^verbatim>\<open>Pool_Swap\<close>, \<^verbatim>\<open>Pool_Effects\<close>: what the three swap computations and the operations of a pool do, on
    natural numbers (\<open>sound_swap\<close> is the contract that all three swaps meet).
  \<^item> \<^verbatim>\<open>Vesting\<close>: \<^verbatim>\<open>state/vesting.rs\<close>, refined to an abstract schedule. \<^verbatim>\<open>Config\<close>: \<^verbatim>\<open>state/config.rs\<close>.
    \<^verbatim>\<open>Operator\<close>: \<^verbatim>\<open>state/operator.rs\<close>, \<^verbatim>\<open>access_control.rs\<close> and \<^verbatim>\<open>instructions/admin\<close>.
  \<^item> \<^verbatim>\<open>Token_Transfer\<close>, \<^verbatim>\<open>Token_Mint\<close>: \<^verbatim>\<open>utils/token.rs\<close> and \<^verbatim>\<open>state/token_badge.rs\<close>.

  \<^bold>\<open>Instructions.\<close>
  \<^item> \<^verbatim>\<open>Swap_Handler\<close>, \<^verbatim>\<open>Single_Swap\<close>, \<^verbatim>\<open>Swap_Accounts\<close>, \<^verbatim>\<open>Entrypoint\<close>: \<^verbatim>\<open>instructions/swap\<close>,
    \<^verbatim>\<open>utils/p_helper.rs\<close> and \<^verbatim>\<open>entrypoint.rs\<close>, from the bytes of the data to the new state of the pool.
    \<^verbatim>\<open>Transaction_Swaps\<close>: transactions as forests of calls and what each call reads of its transaction, so
    that the check of \<^verbatim>\<open>Single_Swap\<close> is related to the swaps of a whole transaction.
  \<^item> \<^verbatim>\<open>Liquidity_Handlers\<close>, \<^verbatim>\<open>Vesting_Handlers\<close>, \<^verbatim>\<open>Reward_Handlers\<close>, \<^verbatim>\<open>Operator_Handlers\<close>,
    \<^verbatim>\<open>Zap_Protocol_Fee\<close>, \<^verbatim>\<open>Init_Pool\<close>: the other files of \<^verbatim>\<open>instructions\<close>.
  \<^item> \<^verbatim>\<open>Quote_Sdk\<close>: \<^verbatim>\<open>rust-sdk/src\<close>, against the swap instruction.

  \<^bold>\<open>Accounts.\<close>  Every instruction declares its accounts in a structure with \<^verbatim>\<open>derive(Accounts)\<close>. The
  declarations are data: \<^verbatim>\<open>Account_Contexts\<close> has each structure field by field, and \<^verbatim>\<open>Account_Framework\<close>
  is their meaning, \<open>try_accounts\<close>, which binds a list of accounts, checks their types, creates what is
  declared \<^verbatim>\<open>init\<close> and checks the attributes. \<^verbatim>\<open>Program_Addresses\<close> has \<^verbatim>\<open>const_pda.rs\<close>, \<^verbatim>\<open>macros.rs\<close>,
  \<^verbatim>\<open>utils/alpha_vault.rs\<close> and the seeds of \<^verbatim>\<open>constants.rs\<close>.
  \<^item> \<^verbatim>\<open>Account_Checks\<close>: accepted accounts satisfy the conditions on positions and vaults with which the
    handlers begin. \<^verbatim>\<open>Instruction_Accounts\<close>: the table of the accounts of all instructions, and what
    holds of every one that loads a position or a vault. \<^verbatim>\<open>Swap_Context\<close>: the checks by hand of \<^verbatim>\<open>Swap_Accounts\<close> against the declared ones.
  \<^item> \<^verbatim>\<open>Swap_Calls\<close>: the checked transfers of \<^verbatim>\<open>utils/p_helper.rs\<close> on the balances of all token accounts;
    they refine the effect on the two vaults with which \<^verbatim>\<open>Swap_Handler\<close> computes, and give what
    the accounts of the trader pay and receive.
    \<^verbatim>\<open>Treasury_Accounts\<close>: the accounts of the treasury that \<^verbatim>\<open>constants.rs\<close> derives.
  \<^item> \<^verbatim>\<open>Account_Creation\<close>, \<^verbatim>\<open>Creation_Instructions\<close>: an address is created once and holds what its
    declaration says; the vaults of a new pool, and the NFT of a new position
    (\<^verbatim>\<open>create_position_nft\<close> of \<^verbatim>\<open>ix_create_position.rs\<close>).

  \<^bold>\<open>The life of a pool.\<close>  \<^verbatim>\<open>Transition_System\<close> has the locales \<open>invariant\<close> and \<open>growing\<close>. \<^verbatim>\<open>Solvency\<close>
  and \<^verbatim>\<open>Solvency_Positions\<close> state the books of a pool and show that each instruction keeps them.
  \<^verbatim>\<open>Market\<close> composes every instruction on a pool into the relation \<open>market_step\<close>, from any pool that
  one of the three creations makes, and interprets \<open>invariant\<close>; \<^verbatim>\<open>Locked_Liquidity\<close> interprets \<open>growing\<close>,
  \<^verbatim>\<open>Vested_Liquidity\<close> and \<^verbatim>\<open>Reward_Solvency\<close> interpret \<open>invariant\<close> again, for the vestings and for the
  vaults of the rewards, and \<^verbatim>\<open>Checkpoints\<close> for the checkpoints of the positions, which never
  run ahead of the accumulators. \<^verbatim>\<open>Withdrawal\<close> shows from these invariants that the owner of a position can always leave:
  removing liquidity and collecting fees succeed in every state that can be reached, and so do the
  claims of the protocol and of the partner.

  \<^bold>\<open>The whole program.\<close>  \<^verbatim>\<open>Ledger\<close> is the table of instructions of \<^verbatim>\<open>lib.rs\<close> on a ledger of all
  accounts that the program owns, by their addresses: \<open>execute_program\<close> loads and creates them and
  calls the handler behind its access control, \<open>run\<close> is any sequence of calls from the empty ledger, where
  a call that fails changes nothing. Each call is a step of one market or of none, so that what holds of
  a market holds of every pool of the ledger. \<^verbatim>\<open>Pool_Settings\<close> follows what of a pool is fixed
  and what only operators change. \<^verbatim>\<open>Events\<close> has the records of \<^verbatim>\<open>event.rs\<close> and which instruction
  logs which; \<^verbatim>\<open>Event_Log\<close> shows that the log of a run, replayed, gives the public state of every pool.

  \<^bold>\<open>The properties\<close>, each with an instance on concrete values where it has hypotheses, are in
  \<^verbatim>\<open>Program_Correct\<close>, \<^verbatim>\<open>Fees_Correct\<close>, \<^verbatim>\<open>Swap_Correct\<close>, \<^verbatim>\<open>Positions_Correct\<close>, \<^verbatim>\<open>Governance_Correct\<close>,
  \<^verbatim>\<open>Accounts_Correct\<close> and below. \<^verbatim>\<open>Evaluation\<close>, \<^verbatim>\<open>Examples\<close> and \<^verbatim>\<open>Account_Examples\<close> hold the rewrite
  rules and the accounts they are evaluated on.

  \<^bold>\<open>Bounds.\<close>  No definition has fuel. Loops over lists and counters are structural recursion; the loop of
  the square root has a termination proof by the bit it tries, which each round divides by four; the power has a fixed number of blocks,
  one for each bit of an exponent below 2 to the power 19.

  \<^bold>\<open>Parameters.\<close>  Code outside the repository is an argument: the effect of a token transfer on a vault
  (with the law \<open>token_law\<close>: the vault gets the amount less the fee of the mint, or gives exactly the
  amount; where a transfer has to succeed, \<open>pays_out\<close>: it does when the vault holds the amount; both hold
  for \<open>plain_token\<close> and \<open>fee_token\<close>), the transfer fee and the extensions of a mint, the
  clock, the instructions of the transaction (with \<open>runtime_rules\<close>: a call names only accounts of the
  instruction it is part of, and this program is entered again only for its events), program identifiers and discriminators, the derivation of
  addresses (with \<open>derivation_law\<close>: the seeds of a derived address sign for it), the decoding of the
  parameters of a zap, and the calls that mint the position NFT (with \<open>token_calls_law\<close>: minting adds
  the amount, and no call touches other accounts), and the checked transfers of a swap (with
  \<open>transfer_law\<close>: who may sign, and which balances change).
  An error undoes the whole transaction, so a handler returns its new state only on success.

  \<^bold>\<open>Not modelled.\<close>  The code that the framework generates, of which the model has the documented
  meaning: the handlers take the contents of the accounts as arguments, and \<open>create_position_instruction\<close>
  alone is composed with its accounts. Lamports (rent, and where the balance of a closed account
  goes) are not part of the accounts. The interfaces of other programs (\<^verbatim>\<open>src/libs\<close>) and the tests.
  Builds with the feature \<^verbatim>\<open>local\<close> have other admins and constants and are not modelled.
\<close>

section \<open>Swaps\<close>

text \<open>
  C17. An exact-input swap is sound: it consumes exactly the amount asked for, the price stays in
  the range of the pool, both sides are rounded in favour of the pool (the reserves the curve asks for
  at the new price are covered), and the trader's amount and the curve's amount differ by exactly
  the four fees on the side that pays them.
\<close>

theorem exact_input_swap_sound:
  assumes "wf_prices q" and "get_swap_result_from_exact_input q x fm d cp = Ok r"
  shows "sound_swap q fm d r \<and> sr_included_fee_input_amount r = x \<and> sr_amount_left r = 0 \<and>
    unat (pl_sqrt_min_price q) \<le> unat (sr_next_sqrt_price r) \<and>
    unat (sr_next_sqrt_price r) \<le> unat (pl_sqrt_max_price q)"
  using sound_swap_from_exact_input [OF assms(2)] sound_swap_price_in_range [OF assms(1)] by blast

theorem exact_input_swap_sound_witness:
  "\<exists>r. get_swap_result_from_exact_input example_pool 1000 example_mode AtoB 10 = Ok r \<and>
    sound_swap example_pool example_mode AtoB r"
  using example_exact_input exact_input_swap_sound [OF example_pool_wf(1)] by blast

section \<open>The market\<close>

text \<open>
  C5. Liquidity can always leave: in every state that can be reached, once trading has started, the owner of
  a position can take out any part of its unlocked liquidity that is worth a whole unit of one of the
  tokens, or all of it. No overflow, no shortage of the vaults and no status of the pool stands in the way.
  The vaults pay on each side the exact worth of the liquidity at the current price, rounded down.
  The tokens have to pay out what the vaults hold, and the accumulators of the rewards, if the pool has
  any, to have room for the seconds since their last update.
\<close>

theorem unlocked_liquidity_can_be_withdrawn:
  assumes "reachable m" and "mk_positions m k = Some p"
    and "position_constraints (lc_accounts ctx) p = Ok ()"
    and "get_current_point (lc_clock ctx) (pl_activation_type (mk_pool m)) = Ok point"
    and "pl_activation_point (mk_pool m) \<le> point"
    and "pays_out (lc_token_a ctx)" and "pays_out (lc_token_b ctx)"
    and "pool_update_rewards (mk_pool m) (unix_timestamp (lc_clock ctx)) = Ok q0"
    and "0 < d" and "d \<le> ps_unlocked_liquidity p"
    and "dl = Some d \<or> dl = None \<and> d = ps_unlocked_liquidity p"
    and "1 \<le> reserve w d (mk_pool m)"
  shows "\<exists>q v p' ch. handle_remove_liquidity ctx (mk_pool m) (mk_vaults m) p dl 0 0 = Ok (q, v, p', ch) \<and>
    ps_unlocked_liquidity p' = ps_unlocked_liquidity p - d \<and>
    (\<forall>s. int (amount s (ch_transfer_fee_included_token_a_amount ch) (ch_transfer_fee_included_token_b_amount ch)) =
      \<lfloor>reserve s d (mk_pool m)\<rfloor>)"
  by (rule withdrawal_succeeds [OF assms])

theorem unlocked_liquidity_can_be_withdrawn_witness:
  "\<exists>q v p' ch. handle_remove_liquidity example_withdrawal start_pool start_vaults start_position None 0 0 =
      Ok (q, v, p', ch) \<and> ps_unlocked_liquidity p' = 0 \<and>
    int (unat (ch_transfer_fee_included_token_a_amount ch)) = \<lfloor>reserve A 18446744073709551616000000 start_pool\<rfloor>"
proof -
  have f: "mk_pool example_market = start_pool" "mk_vaults example_market = start_vaults"
    "mk_positions example_market 7 = Some start_position"
    "ps_unlocked_liquidity start_position = 18446744073709551616000000"
    by (simp_all add: example_market_def start_position_def)
  have "\<exists>q v p' ch. handle_remove_liquidity example_withdrawal (mk_pool example_market) (mk_vaults example_market)
      start_position None 0 0 = Ok (q, v, p', ch) \<and>
    ps_unlocked_liquidity p' = ps_unlocked_liquidity start_position - 18446744073709551616000000 \<and>
    (\<forall>s. int (amount s (ch_transfer_fee_included_token_a_amount ch) (ch_transfer_fee_included_token_b_amount ch)) =
      \<lfloor>reserve s 18446744073709551616000000 (mk_pool example_market)\<rfloor>)"
    by (rule unlocked_liquidity_can_be_withdrawn [OF example_market_reachable f(3) example_withdrawal_owner,
          where point = 1000 and w = A])
      (simp_all add: f example_withdrawal_allowed example_withdrawal_worth)
  then show ?thesis unfolding f by (auto simp: amount_def split: side.splits)
qed

text \<open>
  C6. The protocol and the partner can always collect their fees: in every state that can be reached the
  claim of an operator with the permission, to accounts of the treasury, and the claim of the partner
  both succeed. Each pays on both sides the smaller of the fee and the limit given, exactly that leaves
  the vault and the recorded fee, nothing else of the pool changes, and the market is again in a state
  that can be reached, so that whatever is left can be claimed next. The tokens have to pay out what
  the vaults hold.
\<close>

theorem protocol_and_partner_can_claim:
  assumes "reachable m"
    and "is_valid_operator_role oper signer ClaimProtocolFee = Ok ()"
    and "pays_out (cl_token_a cc)" "token_law (cl_token_a cc)"
    and "pays_out (cl_token_b cc)" "token_law (cl_token_b cc)"
    and "validate_ata_token (cl_token_a_account cc) TREASURY_ID (cl_ata_a cc) = Ok ()"
    and "validate_ata_token (cl_token_b_account cc) TREASURY_ID (cl_ata_b cc) = Ok ()"
  shows "(\<exists>q v a b.
      ix_claim_protocol_fee oper signer cc (mk_pool m) (mk_vaults m) xa xb = Ok (q, v, a, b) \<and>
      a = min (pl_protocol_a_fee (mk_pool m)) xa \<and> b = min (pl_protocol_b_fee (mk_pool m)) xb \<and>
      unat (va_token_a (mk_vaults m)) = unat (va_token_a v) + unat a \<and>
      unat (va_token_b (mk_vaults m)) = unat (va_token_b v) + unat b \<and>
      q = (mk_pool m)\<lparr>pl_protocol_a_fee := pl_protocol_a_fee (mk_pool m) - a,
        pl_protocol_b_fee := pl_protocol_b_fee (mk_pool m) - b\<rparr> \<and>
      reachable (m\<lparr>mk_pool := q, mk_vaults := v\<rparr>)) \<and>
    (\<exists>q v a b. handle_claim_partner_fee (cl_token_a cc) (cl_token_b cc) (pl_partner (mk_pool m))
        (mk_pool m) (mk_vaults m) xa xb = Ok (q, v, a, b) \<and>
      a = min (pl_partner_a_fee (mk_pool m)) xa \<and> b = min (pl_partner_b_fee (mk_pool m)) xb \<and>
      unat (va_token_a (mk_vaults m)) = unat (va_token_a v) + unat a \<and>
      unat (va_token_b (mk_vaults m)) = unat (va_token_b v) + unat b \<and>
      q = (mk_pool m)\<lparr>pl_partner_a_fee := pl_partner_a_fee (mk_pool m) - a,
        pl_partner_b_fee := pl_partner_b_fee (mk_pool m) - b\<rparr> \<and>
      reachable (m\<lparr>mk_pool := q, mk_vaults := v\<rparr>))"
  by (intro conjI) (rule protocol_claim_succeeds [OF assms, of xa xb], blast,
    rule partner_claim_succeeds [OF assms(1,3-6), of xa xb], blast)

text \<open>A market after a swap, whose fees are claimed.\<close>

theorem protocol_and_partner_can_claim_witness:
  "\<exists>m q v a b. market_step example_market m \<and>
    handle_claim_partner_fee plain_token plain_token (pl_partner (mk_pool m)) (mk_pool m) (mk_vaults m)
      1000 1000 = Ok (q, v, a, b) \<and> a = min (pl_partner_a_fee (mk_pool m)) 1000"
proof (rule example_market_swaps)
  fix q v r
  assume "market_step example_market (example_market\<lparr>mk_pool := q, mk_vaults := v\<rparr>)"
    (is "market_step _ ?m")
  then have step: "market_step example_market ?m" and reach: "reachable ?m"
    using example_market_reachable unfolding reachable_def reachable_from_def
    by (meson rtranclp.rtrancl_into_rtrancl)+
  let ?oper = "operator_initialize 33 512" and ?ta = "\<lparr> ta_key = 70, ta_authority = Ok TREASURY_ID \<rparr>"
  let ?cc = "\<lparr> cl_token_a = plain_token, cl_token_b = plain_token, cl_token_a_account = ?ta,
    cl_token_b_account = ?ta, cl_ata_a = 70, cl_ata_b = 70 \<rparr>"
  have role: "is_valid_operator_role ?oper 33 ClaimProtocolFee = Ok ()"
    by (simp add: is_valid_operator_role_def operator_initialize_def is_permission_allow_def)
  have dest: "validate_ata_token ?ta TREASURY_ID 70 = Ok ()" by (simp add: validate_ata_token_def)
  note c = protocol_and_partner_can_claim [OF reach role, of ?cc 1000 1000, unfolded claim_context.simps,
      OF plain_token_pays_out plain_token_law plain_token_pays_out plain_token_law dest dest]
  show ?thesis using step c [THEN conjunct2] by blast
qed

text \<open>
  C7. The books of a pool agree: in every state that can be reached the liquidity of the pool is the sum
  of the liquidity of its positions (unlocked, vesting and locked), the permanently locked liquidity
  of the pool is the sum over its positions and at most its liquidity, and the price lies in the range.
\<close>

theorem books_of_pool_agree:
  assumes "reachable m"
  shows "unat (pl_liquidity (mk_pool m)) = total_over liq (mk_positions m) \<and>
    unat (pl_permanent_lock_liquidity (mk_pool m)) = total_over locked (mk_positions m) \<and>
    pl_permanent_lock_liquidity (mk_pool m) \<le> pl_liquidity (mk_pool m) \<and> wf_prices (mk_pool m)"
  using reachable_books [OF assms] reachable_locks [OF assms] locked_below_liquidity [OF assms]
  by (simp add: market_books_def books_def market_locks_def locks_counted_def)

theorem books_of_pool_agree_witness:
  "\<exists>m. market_step example_market m \<and>
    unat (pl_liquidity (mk_pool m)) = total_over liq (mk_positions m) \<and> wf_prices (mk_pool m)"
proof (rule example_market_step)
  fix m assume "market_step example_market m" and "reachable m"
  then show ?thesis using books_of_pool_agree [of m] by blast
qed

text \<open>
  C8. Liquidity that is locked for ever stays: along every run of the market the permanently locked
  liquidity of the pool never falls.
\<close>

theorem permanent_lock_is_permanent:
  assumes "reachable m" and "market_step\<^sup>*\<^sup>* m m'"
  shows "unat (pl_permanent_lock_liquidity (mk_pool m)) \<le> unat (pl_permanent_lock_liquidity (mk_pool m'))"
  by (rule lock_run.never_falls [OF assms(2) reachable_locks [OF assms(1)]])

theorem permanent_lock_is_permanent_witness:
  "\<exists>m. market_step example_market m \<and>
    pl_permanent_lock_liquidity (mk_pool m) = 9223372036854775808000000 \<and>
    unat (pl_permanent_lock_liquidity (mk_pool example_market)) \<le>
      unat (pl_permanent_lock_liquidity (mk_pool m))"
proof (rule example_market_lock)
  fix m assume "market_step example_market m"
    and "pl_permanent_lock_liquidity (mk_pool m) = 9223372036854775808000000"
  then show ?thesis
    using permanent_lock_is_permanent [OF example_market_reachable, of m] by blast
qed

text \<open>
  C16. The vault of a reward is always solvent: in every state that can be reached it holds what the rate
  has still to pay, what was set aside while there was no liquidity, and what the positions have earned;
  and whatever a position claims, at any time, the vault can pay it.
\<close>

theorem reward_vaults_are_solvent:
  assumes "reachable m" and "i < 2" and "reward_initialized (reward_at (mk_pool m) i)"
  shows "reward_unspent (reward_at (mk_pool m) i) * 2 ^ 128 +
      total_over (reward_owed i (mk_pool m)) (mk_positions m) \<le>
      unat (rv_amount (mk_reward_vaults m i)) * 2 ^ 192 \<and>
    (\<forall>k p t q p1 p2 x. mk_positions m k = Some p \<and>
      position_update_rewards p (mk_pool m) t = Ok (q, p1) \<and> claim_reward p1 i = Ok (p2, x) \<longrightarrow>
      unat x \<le> unat (rv_amount (mk_reward_vaults m i)))"
  using reward_vault_covers [OF assms] reward_claim_covered [OF assms(1,3)]
  unfolding reward_liability_def by blast

theorem reward_vaults_are_solvent_witness:
  "\<exists>m. reachable m \<and> reward_initialized (reward_at (mk_pool m) 0) \<and>
    reward_unspent (reward_at (mk_pool m) 0) * 2 ^ 128 +
      total_over (reward_owed 0 (mk_pool m)) (mk_positions m) \<le> 1000000 * 2 ^ 192"
proof (rule example_market_reward)
  fix m assume "reachable m" "reward_initialized (reward_at (mk_pool m) 0)"
    and v: "rv_amount (mk_reward_vaults m 0) = 1000000"
  then show ?thesis using reward_vaults_are_solvent [of m 0] by (intro exI [of _ m]) (simp add: v)
qed

text \<open>
  C35. Nobody breaks the pool from outside: whatever bytes and accounts reach the fast entry point, when
  it returns without an error the market is again in a state that can be reached. Either the data start
  with the tag of the program's events, the first account is the event authority and has signed, and
  nothing has changed; or they start with the tag of a swap and hold its parameters, there are at least
  fourteen accounts, the swap with these parameters is what has happened, the pool account is a writable
  one of the program, the two vaults are those that the pool names, and the payer has signed.
\<close>

theorem entry_point_keeps_market:
  assumes "reachable m"
    and "p_entrypoint ctx pid accounts data (mk_pool m) (mk_vaults m) = Some (Ok (q, v))"
    and "token_law (ec_token_a ctx)" and "token_law (ec_token_b ctx)"
  shows "reachable (m\<lparr>mk_pool := q, mk_vaults := v\<rparr>) \<and> pid = id_program (ai_program (ec_ids ctx)) \<and>
    (starts_with data (ec_event_tag ctx) \<and> q = mk_pool m \<and> v = mk_vaults m \<and> accounts \<noteq> [] \<and>
       ac_is_signer (accounts ! 0) \<and> ac_key (accounts ! 0) = ai_event_authority (ec_ids ctx) \<or>
     (\<exists>params r. swap_data ctx data params \<and> 14 \<le> length accounts \<and>
       dispatched_swap ctx accounts (mk_pool m) (mk_vaults m) params = Ok (q, v, r) \<and>
       ac_owner (accounts ! 1) = pid \<and> ac_is_writable (accounts ! 1) \<and>
       ac_key (accounts ! 4) = pl_token_a_vault (mk_pool m) \<and>
       ac_key (accounts ! 5) = pl_token_b_vault (mk_pool m) \<and> ac_is_signer (accounts ! 8)))"
proof -
  note accepted = p_entrypoint_accepts [OF assms(2)]
  show ?thesis
  proof (cases "\<exists>params r. swap_data ctx data params \<and> SWAP_IX_ACCOUNTS \<le> length accounts \<and>
      dispatched_swap ctx accounts (mk_pool m) (mk_vaults m) params = Ok (q, v, r)")
    case True
    then obtain params r where s: "swap_data ctx data params" "SWAP_IX_ACCOUNTS \<le> length accounts"
      "dispatched_swap ctx accounts (mk_pool m) (mk_vaults m) params = Ok (q, v, r)" by blast
    have "market_step m (m\<lparr>mk_pool := q, mk_vaults := v\<rparr>)"
      using s(3) unfolding dispatched_swap_def by (rule market_step.swap [OF _ assms(3,4)])
    then have reach: "reachable (m\<lparr>mk_pool := q, mk_vaults := v\<rparr>)"
      using assms(1) unfolding reachable_def reachable_from_def by (meson rtranclp.rtrancl_into_rtrancl)
    have "validate_p_accounts (ec_ids ctx) (mk_pool m) (take SWAP_IX_ACCOUNTS accounts) = Ok ()"
      using s(3) by (auto simp: dispatched_swap_def swap_instruction_def rbind_Ok_iff)
    note valid = validate_p_accounts_Ok [OF this, unfolded SWAP_IX_ACCOUNTS_def]
    show ?thesis using reach accepted s valid by (simp add: SWAP_IX_ACCOUNTS_def)
  next
    case False
    then show ?thesis using accepted assms(1) by auto
  qed
qed

theorem entry_point_keeps_market_witness:
  "\<exists>q v. p_entrypoint example_entry 100 example_accounts
      ([2, 2, 3, 4, 5, 6, 7, 8] @ swap_parameters2_serialize example_swap @ []) start_pool start_vaults =
      Some (Ok (q, v)) \<and> reachable (example_market\<lparr>mk_pool := q, mk_vaults := v\<rparr>)"
proof (rule example_market_swaps)
  fix q v r assume h: "p_handle_swap example_context start_pool start_vaults example_swap = Ok (q, v, r)"
  have e: "p_entrypoint example_entry 100 example_accounts
      ([2, 2, 3, 4, 5, 6, 7, 8] @ swap_parameters2_serialize example_swap @ []) start_pool start_vaults =
      Some (Ok (q, v))"
    using entry_swap2 [OF example_entry_tags example_entry_values(1,6), of example_swap "[]"
        start_pool start_vaults] by (simp add: example_entry_values example_dispatch h)
  have "reachable (example_market\<lparr>mk_pool := q, mk_vaults := v\<rparr>)"
    by (rule entry_point_keeps_market [OF example_market_reachable, where ctx = example_entry, THEN conjunct1])
      (use e in \<open>simp_all add: example_market_def example_entry_values plain_token_law\<close>)
  with e show ?thesis by blast
qed

end
